(* ===== verification/FG_Prelude.thy ===== *)
theory FG_Prelude
  imports Main "HOL-Library.Word" "HOL-Library.Signed_Division" "HOL-Library.Multiset"
begin

section \<open>Prelude: shared notions of the development\<close>

text \<open>
  What every component shares: the result types that stand for Go's error returns and
  panics, the orders in which Go may range over a map, decimal printing and scanning as
  \<^verbatim>\<open>fmt.Sprintf\<close> and \<^verbatim>\<open>fmt.Sscanf\<close> do them for the keys and
  file names the program builds, Go's 64-bit wrap-around on \<^typ>\<open>int\<close>, and the
  generic lemmas on lists, maps and multisets that the component proofs use.
\<close>

named_theorems fg_simps \<open>unfolding rules of the model's small operations\<close>
named_theorems fg_inv \<open>preservation rules of the components' invariants\<close>

subsection \<open>Results\<close>

text \<open>
  A Go function that returns an error is modelled by a sum (\<open>Inl\<close> the error) or, when it
  only returns an error, by an option (\<open>None\<close> is \<^verbatim>\<open>nil\<close>). Where the source
  may also block, deadlock or panic, the outcome says so.
\<close>

datatype ('e, 'a) outcome =
    Returns 'a       \<comment> \<open>normal return\<close>
  | Fails 'e         \<comment> \<open>error return\<close>
  | Blocks           \<comment> \<open>the call waits: no return yet\<close>
  | Deadlocks        \<comment> \<open>the call waits for a lock it holds itself\<close>
  | Panics string    \<comment> \<open>run-time panic\<close>

text \<open>A call followed by the rest of the function, which runs only if the call returns.\<close>

fun and_then ::
  "('e, 'a) outcome \<times> 's \<Rightarrow> ('a \<Rightarrow> 's \<Rightarrow> ('e, 'b) outcome \<times> 's) \<Rightarrow> ('e, 'b) outcome \<times> 's" where
  "and_then (Returns a, s) f = f a s"
| "and_then (Fails e, s) f = (Fails e, s)"
| "and_then (Blocks, s) f = (Blocks, s)"
| "and_then (Deadlocks, s) f = (Deadlocks, s)"
| "and_then (Panics e, s) f = (Panics e, s)"

lemma and_then_Returns:
  "and_then p f = (Returns b, s') \<longleftrightarrow> (\<exists>a s. p = (Returns a, s) \<and> f a s = (Returns b, s'))"
  by (cases p; cases "fst p") auto

lemma and_then_cong [fundef_cong]:
  assumes "p = p'" and "\<And>a s. p' = (Returns a, s) \<Longrightarrow> f a s = f' a s"
  shows "and_then p f = and_then p' f'"
  using assms by (cases p'; cases "fst p'") auto

subsection \<open>Ranging over a map\<close>

text \<open>
  Go ranges over a map in an unspecified order, a new one for each loop. A loop over a map
  takes the order as an argument: a list with each key of the map once.
\<close>

definition map_order :: "('k \<rightharpoonup> 'v) \<Rightarrow> 'k list \<Rightarrow> bool" where
  "map_order m ks \<longleftrightarrow> distinct ks \<and> set ks = dom m"

lemma map_order_finite: "map_order m ks \<Longrightarrow> finite (dom m)"
  by (auto simp: map_order_def dest: sym [of "set ks"])

lemma map_order_in: "map_order m ks \<Longrightarrow> k \<in> set ks \<longleftrightarrow> m k \<noteq> None"
  by (auto simp: map_order_def)

lemma map_order_mset: "map_order m ks \<Longrightarrow> map_order m ks' \<Longrightarrow> mset ks = mset ks'"
  by (metis map_order_def set_eq_iff_mset_eq_distinct)

lemma map_order_length: "map_order m ks \<Longrightarrow> length ks = card (dom m)"
  by (metis distinct_card map_order_def)

subsection \<open>Machine integers\<close>

text \<open>
  Go's \<^verbatim>\<open>int\<close> and \<^verbatim>\<open>int64\<close> have 64 bits. Quantities the program only
  compares, counts or stores are \<^typ>\<open>int\<close>; where arithmetic can leave the range the
  model wraps explicitly with \<open>i64\<close> or uses \<open>64 word\<close>.
\<close>

definition i64 :: "int \<Rightarrow> int" where
  "i64 n = (n + 2 ^ 63) mod 2 ^ 64 - 2 ^ 63"

lemma i64_id: "- (2 ^ 63) \<le> n \<Longrightarrow> n < 2 ^ 63 \<Longrightarrow> i64 n = n"
  by (simp add: i64_def)

lemma i64_range: "- (2 ^ 63) \<le> i64 n \<and> i64 n < 2 ^ 63"
  by (simp add: i64_def)

lemma sint_word_of_int64:
  "- (2 ^ 63) \<le> n \<Longrightarrow> n < 2 ^ 63 \<Longrightarrow> sint (word_of_int n :: 64 word) = n"
  by (simp add: sint_sbintrunc' signed_take_bit_int_eq_self)

subsection \<open>Decimal printing and scanning\<close>

fun digits_of :: "nat \<Rightarrow> string" where
  "digits_of n = (if n < 10 then [char_of (48 + n)]
                  else digits_of (n div 10) @ [char_of (48 + n mod 10)])"

declare digits_of.simps [simp del]

definition show_int :: "int \<Rightarrow> string" where
  "show_int n = (if n < 0 then CHR ''-'' # digits_of (nat (- n)) else digits_of (nat n))"

definition is_digit :: "char \<Rightarrow> bool" where
  "is_digit c \<longleftrightarrow> 48 \<le> (of_char c :: nat) \<and> (of_char c :: nat) \<le> 57"

definition digit_val :: "char \<Rightarrow> nat" where
  "digit_val c = of_char c - 48"

fun scan_digits :: "nat \<Rightarrow> string \<Rightarrow> nat" where
  "scan_digits acc [] = acc"
| "scan_digits acc (c # cs) =
     (if is_digit c then scan_digits (10 * acc + digit_val c) cs else acc)"

text \<open>
  \<^verbatim>\<open>%d\<close> reads an optional sign and at least one digit, and leaves the rest of the
  input alone.
\<close>

definition scan_int :: "string \<Rightarrow> int option" where
  "scan_int s = (case s of
       [] \<Rightarrow> None
     | c # cs \<Rightarrow>
         if is_digit c then Some (int (scan_digits 0 s))
         else if (c = CHR ''-'' \<or> c = CHR ''+'') \<and> cs \<noteq> [] \<and> is_digit (hd cs)
         then Some (if c = CHR ''-'' then - int (scan_digits 0 cs) else int (scan_digits 0 cs))
         else None)"

text \<open>\<^verbatim>\<open>fmt.Sscanf(s, prefix + "%d", &n)\<close>: the literal prefix, then a number.\<close>

definition scan_prefixed :: "string \<Rightarrow> string \<Rightarrow> int option" where
  "scan_prefixed p s =
     (if take (length p) s = p then scan_int (drop (length p) s) else None)"

lemma is_digit_char_of [simp]: "d < 10 \<Longrightarrow> is_digit (char_of (48 + d :: nat))"
  by (simp add: is_digit_def of_char_of)

lemma digit_val_char_of [simp]: "d < 10 \<Longrightarrow> digit_val (char_of (48 + d :: nat)) = d"
  by (simp add: digit_val_def of_char_of)

lemma digits_of_digits: "c \<in> set (digits_of n) \<Longrightarrow> is_digit c"
proof (induction n rule: digits_of.induct)
  case (1 n)
  then show ?case
    by (cases "n < 10") (auto simp: digits_of.simps [of n])
qed

lemma digits_of_nonempty [simp]: "digits_of n \<noteq> []"
  by (subst digits_of.simps) simp

lemma scan_digits_snoc:
  "(\<And>c. c \<in> set cs \<Longrightarrow> is_digit c) \<Longrightarrow> is_digit d \<Longrightarrow>
   scan_digits acc (cs @ [d]) = 10 * scan_digits acc cs + digit_val d"
  by (induction cs arbitrary: acc) auto

lemma scan_digits_of [simp]: "scan_digits 0 (digits_of n) = n"
proof (induction n rule: digits_of.induct)
  case (1 n)
  show ?case
  proof (cases "n < 10")
    case True
    then show ?thesis by (subst digits_of.simps) simp
  next
    case False
    with 1 show ?thesis
      by (subst digits_of.simps) (simp add: scan_digits_snoc digits_of_digits)
  qed
qed

lemma scan_digits_stop:
  "(\<And>c. c \<in> set cs \<Longrightarrow> is_digit c) \<Longrightarrow> (rest \<noteq> [] \<Longrightarrow> \<not> is_digit (hd rest)) \<Longrightarrow>
   scan_digits acc (cs @ rest) = scan_digits acc cs"
  by (induction cs arbitrary: acc) (cases rest, auto)

lemma minus_not_digit [simp]: "\<not> is_digit (CHR ''-'')"
  by (simp add: is_digit_def)

text \<open>Scanning what was printed gives the number back, whatever non-digit follows.\<close>

lemma scan_show_int:
  assumes "rest \<noteq> [] \<Longrightarrow> \<not> is_digit (hd rest)"
  shows "scan_int (show_int n @ rest) = Some n"
proof (cases "n < 0")
  case True
  have "is_digit (hd (digits_of (nat (- n))))"
    by (rule digits_of_digits [of _ "nat (- n)"]) (simp add: hd_in_set)
  moreover have "scan_digits 0 (digits_of (nat (- n)) @ rest) = nat (- n)"
    using scan_digits_stop [of "digits_of (nat (- n))" rest 0] assms digits_of_digits by simp
  ultimately show ?thesis
    using True by (simp add: show_int_def scan_int_def hd_append)
next
  case False
  obtain c cs where ds: "digits_of (nat n) = c # cs"
    by (cases "digits_of (nat n)") auto
  then have "is_digit c"
    using digits_of_digits [of c "nat n"] by simp
  moreover have "scan_digits 0 (digits_of (nat n) @ rest) = nat n"
    using scan_digits_stop [of "digits_of (nat n)" rest 0] assms digits_of_digits by simp
  ultimately show ?thesis
    using False ds by (simp add: show_int_def scan_int_def)
qed

lemma scan_prefixed_show:
  assumes "rest \<noteq> [] \<Longrightarrow> \<not> is_digit (hd rest)"
  shows "scan_prefixed p (p @ show_int n @ rest) = Some n"
  using scan_show_int [OF assms] by (simp add: scan_prefixed_def)

lemma show_int_inject [simp]: "show_int a = show_int b \<longleftrightarrow> a = b"
proof
  assume eq: "show_int a = show_int b"
  have read: "scan_int (show_int n @ []) = Some n" for n
    by (rule scan_show_int) simp
  from eq read [of a] read [of b] show "a = b"
    by (metis option.inject)
qed simp

subsection \<open>Lists and folds\<close>

lemma fold_invariant_list:
  assumes "P s" and "\<And>x t. x \<in> set xs \<Longrightarrow> P t \<Longrightarrow> P (f x t)"
  shows "P (fold f xs s)"
  using assms by (induction xs arbitrary: s) auto

lemma take_nth_remove:
  "i < length xs \<Longrightarrow> mset xs = add_mset (xs ! i) (mset (take i xs @ drop (Suc i) xs))"
  by (metis id_take_nth_drop mset.simps(2) mset_append union_mset_add_mset_right)

lemma sum_list_remove_nth:
  "i < length xs \<Longrightarrow>
   sum_list (map f xs) = (f (xs ! i) :: nat) + sum_list (map f (take i xs @ drop (Suc i) xs))"
proof -
  assume i: "i < length xs"
  have "sum_mset (image_mset f (mset xs))
      = f (xs ! i) + sum_mset (image_mset f (mset (take i xs @ drop (Suc i) xs)))"
    by (subst take_nth_remove [OF i]) simp
  then show ?thesis by (simp only: mset_map [symmetric] sum_mset_sum_list)
qed

end
