(* ===== verification/GoValue.thy ===== *)
theory GoValue
  imports FG_Prelude
begin

unbundle bit_operations_syntax

section \<open>Go values\<close>

text \<open>
  The dynamic values (\<^verbatim>\<open>interface{}\<close>) the program stores in states, messages and
  configurations, and the arithmetic of Go's \<^verbatim>\<open>float64\<close>: IEEE 754 binary64 with
  round-to-nearest-even, on bit patterns. A NaN result is the quiet NaN \<open>f_qnan\<close> (Go does
  not say which), and a product that feeds a sum is rounded on its own (no fused
  multiply-add), as on amd64.
\<close>

subsection \<open>float64\<close>

type_synonym f64 = "64 word"

definition f_sign :: "f64 \<Rightarrow> bool" where
  "f_sign w = bit w 63"

definition f_exp :: "f64 \<Rightarrow> nat" where
  "f_exp w = unat (drop_bit 52 w) mod 2048"

definition f_man :: "f64 \<Rightarrow> nat" where
  "f_man w = unat w mod 2 ^ 52"

definition f_nan :: "f64 \<Rightarrow> bool" where
  "f_nan w \<longleftrightarrow> f_exp w = 2047 \<and> f_man w \<noteq> 0"

definition f_inf :: "f64 \<Rightarrow> bool" where
  "f_inf w \<longleftrightarrow> f_exp w = 2047 \<and> f_man w = 0"

definition f_qnan :: f64 where
  "f_qnan = 0x7FF8000000000000"

definition f_infinity :: "bool \<Rightarrow> f64" where
  "f_infinity s = (if s then 0xFFF0000000000000 else 0x7FF0000000000000)"

definition f_zero :: "bool \<Rightarrow> f64" where
  "f_zero s = (if s then 0x8000000000000000 else 0)"

definition f_mag :: "f64 \<Rightarrow> nat" where
  "f_mag w = unat w mod 2 ^ 63"

text \<open>A finite value is a whole number of units of \<open>2 ^ -1074\<close>, the least subnormal.\<close>

definition f_units :: "f64 \<Rightarrow> nat" where
  "f_units w = (if f_exp w = 0 then f_man w else (2 ^ 52 + f_man w) * 2 ^ (f_exp w - 1))"

definition f_signed_units :: "f64 \<Rightarrow> int" where
  "f_signed_units w = (if f_sign w then - int (f_units w) else int (f_units w))"

fun bit_len :: "nat \<Rightarrow> nat" where
  "bit_len n = (if n = 0 then 0 else Suc (bit_len (n div 2)))"

declare bit_len.simps [simp del]

definition round_half_even :: "nat \<Rightarrow> nat \<Rightarrow> nat" where
  "round_half_even n d =
     (let q = n div d; r = n mod d in
      if 2 * r < d then q else if d < 2 * r then Suc q else if even q then q else Suc q)"

text \<open>
  The double nearest to \<open>n / d\<close> units, with the given sign: \<open>s\<close> extra binary digits
  beyond 53 are rounded away; the carry into the next exponent is the carry of the sum.
\<close>

definition f_round :: "bool \<Rightarrow> nat \<Rightarrow> nat \<Rightarrow> f64" where
  "f_round neg n d =
     (let s = bit_len (n div d) - 53;
          e = s * 2 ^ 52 + round_half_even n (d * 2 ^ s) in
      if 0x7FF0000000000000 \<le> e then f_infinity neg
      else of_nat e OR f_zero neg)"

definition f_add :: "f64 \<Rightarrow> f64 \<Rightarrow> f64" where
  "f_add a b =
     (if f_nan a \<or> f_nan b then f_qnan
      else if f_inf a then (if f_inf b \<and> f_sign a \<noteq> f_sign b then f_qnan else a)
      else if f_inf b then b
      else let z = f_signed_units a + f_signed_units b in
        if z = 0 then f_zero (f_sign a \<and> f_sign b) else f_round (z < 0) (nat \<bar>z\<bar>) 1)"

definition f_neg :: "f64 \<Rightarrow> f64" where
  "f_neg a = a XOR 0x8000000000000000"

definition f_sub :: "f64 \<Rightarrow> f64 \<Rightarrow> f64" where
  "f_sub a b = f_add a (f_neg b)"

definition f_mul :: "f64 \<Rightarrow> f64 \<Rightarrow> f64" where
  "f_mul a b =
     (let s = (f_sign a \<noteq> f_sign b) in
      if f_nan a \<or> f_nan b then f_qnan
      else if f_inf a \<or> f_inf b
        then (if f_mag a = 0 \<or> f_mag b = 0 then f_qnan else f_infinity s)
      else f_round s (f_units a * f_units b) (2 ^ 1074))"

definition f_div :: "f64 \<Rightarrow> f64 \<Rightarrow> f64" where
  "f_div a b =
     (let s = (f_sign a \<noteq> f_sign b) in
      if f_nan a \<or> f_nan b then f_qnan
      else if f_inf a then (if f_inf b then f_qnan else f_infinity s)
      else if f_inf b then f_zero s
      else if f_mag b = 0 then (if f_mag a = 0 then f_qnan else f_infinity s)
      else f_round s (f_units a * 2 ^ 1074) (f_units b))"

definition f_of_int :: "64 word \<Rightarrow> f64" where
  "f_of_int n =
     (if n = 0 then 0 else f_round (sint n < 0) (nat \<bar>sint n\<bar> * 2 ^ 1074) 1)"

text \<open>Comparison: false on NaN, and the two zeros are equal.\<close>

definition f_key :: "f64 \<Rightarrow> int" where
  "f_key w = (if f_sign w then - int (f_mag w) else int (f_mag w))"

definition f_less :: "f64 \<Rightarrow> f64 \<Rightarrow> bool" where
  "f_less a b \<longleftrightarrow> \<not> f_nan a \<and> \<not> f_nan b \<and> f_key a < f_key b"

definition f_equal :: "f64 \<Rightarrow> f64 \<Rightarrow> bool" where
  "f_equal a b \<longleftrightarrow> \<not> f_nan a \<and> \<not> f_nan b \<and> f_key a = f_key b"

lemma f_less_irrefl [simp]: "\<not> f_less a a"
  by (simp add: f_less_def)

lemma f_less_trans: "f_less a b \<Longrightarrow> f_less b c \<Longrightarrow> f_less a c"
  by (simp add: f_less_def)

lemma f_less_asym: "f_less a b \<Longrightarrow> \<not> f_less b a"
  by (simp add: f_less_def)

lemma f_less_not_nan: "f_less a b \<Longrightarrow> \<not> f_nan a \<and> \<not> f_nan b"
  by (simp add: f_less_def)

lemma f_not_less_trans:
  "\<not> f_nan a \<Longrightarrow> \<not> f_nan b \<Longrightarrow> \<not> f_nan c \<Longrightarrow> \<not> f_less b a \<Longrightarrow> \<not> f_less c b \<Longrightarrow> \<not> f_less c a"
  by (simp add: f_less_def)

subsection \<open>Execution configuration\<close>

text \<open>\<^verbatim>\<open>dto.ExecutionConfig\<close>: it is also stored as a value in checkpoints.\<close>

record ExecutionConfig =
  MaxSteps :: int
  ExecTimeout :: int
  CheckpointEvery :: int
  ParallelMode :: bool
  DebugMode :: bool
  ValidateGraph :: bool
  ValidateCycles :: bool

subsection \<open>Dynamic values\<close>

text \<open>
  One constructor per Go type that the modelled code stores behind
  \<^verbatim>\<open>interface{}\<close>: \<^verbatim>\<open>nil\<close>, \<^verbatim>\<open>bool\<close>, \<^verbatim>\<open>int\<close>,
  \<^verbatim>\<open>int64\<close>, \<^verbatim>\<open>float64\<close>, \<^verbatim>\<open>string\<close>,
  \<^verbatim>\<open>[]interface{}\<close>, \<^verbatim>\<open>[]string\<close>,
  \<^verbatim>\<open>map[string]interface{}\<close>, \<^verbatim>\<open>map[string]float64\<close>,
  \<^verbatim>\<open>time.Time\<close> and \<^verbatim>\<open>time.Duration\<close> (nanoseconds) and
  \<^verbatim>\<open>dto.ExecutionConfig\<close>. A nil map reads as the empty one.
\<close>

datatype gval =
    VNil
  | VBool bool
  | VInt "64 word"
  | VInt64 "64 word"
  | VFloat f64
  | VStr string
  | VList "gval list"
  | VStrs "string list"
  | VMap "string \<Rightarrow> gval option"
  | VFloatMap "string \<Rightarrow> f64 option"
  | VTime int
  | VDuration int
  | VConfig ExecutionConfig

type_synonym gstate = "string \<rightharpoonup> gval"

text \<open>Type assertions: \<^verbatim>\<open>v, ok := x.(T)\<close> (\<open>None\<close> for \<open>ok = false\<close>).\<close>

fun as_int :: "gval \<Rightarrow> 64 word option" where
  "as_int (VInt n) = Some n" | "as_int _ = None"

fun as_float :: "gval \<Rightarrow> f64 option" where
  "as_float (VFloat x) = Some x" | "as_float _ = None"

fun as_str :: "gval \<Rightarrow> string option" where
  "as_str (VStr s) = Some s" | "as_str _ = None"

fun as_map :: "gval \<Rightarrow> gstate option" where
  "as_map (VMap m) = Some m" | "as_map _ = None"

fun as_list :: "gval \<Rightarrow> gval list option" where
  "as_list (VList xs) = Some xs" | "as_list _ = None"

fun as_strs :: "gval \<Rightarrow> string list option" where
  "as_strs (VStrs xs) = Some xs" | "as_strs _ = None"

fun as_float_map :: "gval \<Rightarrow> (string \<rightharpoonup> f64) option" where
  "as_float_map (VFloatMap m) = Some m" | "as_float_map _ = None"

text \<open>
  \<^verbatim>\<open>for k, v := range m { r[k] = v }\<close>: copying a map is a new map with the same
  entries, whatever the order; into a map with entries it overrides them.
\<close>

definition range_copy :: "('k \<rightharpoonup> 'v) \<Rightarrow> 'k list \<Rightarrow> ('k \<rightharpoonup> 'v) \<Rightarrow> ('k \<rightharpoonup> 'v)" where
  "range_copy m ks r = fold (\<lambda>k r. r(k := m k)) ks r"

lemma fold_upd_apply:
  "fold (\<lambda>k r. r(k := f k)) ks r x = (if x \<in> set ks then f x else r x)"
  by (induction ks arbitrary: r) auto

lemma range_copy_add:
  assumes "map_order m ks"
  shows "range_copy m ks r = r ++ m"
proof
  fix x
  show "range_copy m ks r x = (r ++ m) x"
    using map_order_in [OF assms, of x]
    by (cases "m x") (simp_all add: range_copy_def fold_upd_apply map_add_def)
qed

end
