(* ===== verification/Graph.thy ===== *)
theory Graph
  imports GoValue
begin

section \<open>The core graph (internal/core/graph)\<close>

text \<open>
  The graph entity, its nodes and edges, their validation and the two building operations
  \<^verbatim>\<open>AddNode\<close> and \<^verbatim>\<open>AddEdge\<close>. A Go pointer that may be nil is an option;
  \<^verbatim>\<open>Nodes\<close> maps an id to a node pointer. \<^verbatim>\<open>Edge.Validate\<close> writes the
  default type through its pointer, so the operations return the edge as they leave it.
\<close>

subsection \<open>Errors\<close>

text \<open>
  The sentinel errors of errors.go, the three anonymous errors of pkg/validation/graph.go and
  the panic of a nil pointer dereference.
\<close>

datatype graph_error =
    ErrInvalidGraphName | ErrNoEntryPoint | ErrInvalidEntryPoint | ErrGraphNotFound | ErrCyclicGraph
  | ErrNilNode | ErrInvalidNodeID | ErrInvalidNodeName | ErrInvalidNodeType | ErrNodeNotFound
  | ErrDuplicateNode | ErrMissingConditional
  | ErrNilEdge | ErrInvalidSource | ErrInvalidTarget | ErrSourceNodeNotFound
  | ErrTargetNodeNotFound | ErrDuplicateEdge | ErrSelfLoop
  | GraphIsNil | NilNodeEncountered | NilEdgeEncountered | NilPointerPanic

subsection \<open>Data\<close>

type_synonym NodeType = string
type_synonym EdgeType = string

definition NodeTypeFunction :: NodeType where "NodeTypeFunction = ''function''"
definition NodeTypeTool :: NodeType where "NodeTypeTool = ''tool''"
definition NodeTypeAgent :: NodeType where "NodeTypeAgent = ''agent''"
definition NodeTypeConditional :: NodeType where "NodeTypeConditional = ''conditional''"
definition NodeTypeSubgraph :: NodeType where "NodeTypeSubgraph = ''subgraph''"

definition EdgeTypeDefault :: EdgeType where "EdgeTypeDefault = ''default''"
definition EdgeTypeConditional :: EdgeType where "EdgeTypeConditional = ''conditional''"
definition EdgeTypeError :: EdgeType where "EdgeTypeError = ''error''"

lemmas node_type_defs = NodeTypeFunction_def NodeTypeTool_def NodeTypeAgent_def
  NodeTypeConditional_def NodeTypeSubgraph_def
lemmas edge_type_defs = EdgeTypeDefault_def EdgeTypeConditional_def EdgeTypeError_def

record ConditionalBranch =
  cb_Conditions :: "string \<rightharpoonup> string"
  cb_Default :: string

record Node =
  n_ID :: string
  n_Type :: NodeType
  n_Name :: string
  n_Function :: string
  n_Config :: gstate
  n_Retries :: int
  n_Timeout :: int
  n_Conditional :: "ConditionalBranch option"
  n_CreatedAt :: int
  n_UpdatedAt :: int

record Edge =
  e_ID :: string
  e_Source :: string
  e_Target :: string
  e_Type :: EdgeType
  e_Condition :: string
  e_Weight :: f64
  e_Properties :: gstate

record GraphConfig =
  gc_Interrupts :: "string list"
  gc_MaxIterations :: int
  gc_Timeout :: int
  gc_Metadata :: gstate

record Graph =
  g_ID :: string
  g_Name :: string
  g_Nodes :: "string \<rightharpoonup> Node option"
  g_Edges :: "Edge option list"
  g_EntryPoint :: string
  g_State :: gstate
  g_Config :: GraphConfig
  g_CreatedAt :: int
  g_UpdatedAt :: int

subsection \<open>Validation of the entities\<close>

definition Graph_Validate :: "Graph \<Rightarrow> graph_error option" where
  "Graph_Validate g =
     (if g_Name g = [] then Some ErrInvalidGraphName
      else if g_EntryPoint g = [] then Some ErrNoEntryPoint
      else if g_Nodes g (g_EntryPoint g) = None then Some ErrInvalidEntryPoint
      else None)"

definition Node_Validate :: "Node \<Rightarrow> graph_error option" where
  "Node_Validate n =
     (if n_ID n = [] then Some ErrInvalidNodeID
      else if n_Name n = [] then Some ErrInvalidNodeName
      else if n_Type n = [] then Some ErrInvalidNodeType
      else if n_Type n = NodeTypeConditional \<and> n_Conditional n = None then Some ErrMissingConditional
      else None)"

definition Node_IsConditional :: "Node \<Rightarrow> bool" where
  "Node_IsConditional n \<longleftrightarrow> n_Type n = NodeTypeConditional"

definition Edge_Validate :: "Edge \<Rightarrow> graph_error + Edge" where
  "Edge_Validate e =
     (if e_Source e = [] then Inl ErrInvalidSource
      else if e_Target e = [] then Inl ErrInvalidTarget
      else if e_Source e = e_Target e then Inl ErrSelfLoop
      else if e_Type e = [] then Inr (e\<lparr>e_Type := EdgeTypeDefault\<rparr>)
      else Inr e)"

definition Edge_IsConditional :: "Edge \<Rightarrow> bool" where
  "Edge_IsConditional e \<longleftrightarrow> e_Type e = EdgeTypeConditional"

subsection \<open>Building a graph\<close>

text \<open>The current time is an argument of the operations that stamp \<^verbatim>\<open>UpdatedAt\<close>.\<close>

definition AddNode :: "int \<Rightarrow> Node option \<Rightarrow> Graph \<Rightarrow> graph_error option \<times> Graph" where
  "AddNode now nd g =
     (case nd of
        None \<Rightarrow> (Some ErrNilNode, g)
      | Some n \<Rightarrow>
          (case Node_Validate n of
             Some err \<Rightarrow> (Some err, g)
           | None \<Rightarrow>
               if g_Nodes g (n_ID n) \<noteq> None then (Some ErrDuplicateNode, g)
               else (None, g\<lparr>g_Nodes := (g_Nodes g)(n_ID n \<mapsto> Some n), g_UpdatedAt := now\<rparr>)))"

text \<open>
  The duplicate check of \<^verbatim>\<open>AddEdge\<close>: \<open>Inl ()\<close> stands for the nil dereference of a
  nil entry that an outside writer put into \<^verbatim>\<open>Edges\<close>.
\<close>

fun same_edge_exists :: "Edge \<Rightarrow> Edge option list \<Rightarrow> unit + bool" where
  "same_edge_exists e [] = Inr False"
| "same_edge_exists e (None # es) = Inl ()"
| "same_edge_exists e (Some x # es) =
     (if e_Source x = e_Source e \<and> e_Target x = e_Target e \<and> e_Type x = e_Type e
         \<and> e_Condition x = e_Condition e
      then Inr True else same_edge_exists e es)"

definition AddEdge ::
  "int \<Rightarrow> Edge option \<Rightarrow> Graph \<Rightarrow> graph_error option \<times> Graph \<times> Edge option" where
  "AddEdge now ed g =
     (case ed of
        None \<Rightarrow> (Some ErrNilEdge, g, None)
      | Some e0 \<Rightarrow>
          (case Edge_Validate e0 of
             Inl err \<Rightarrow> (Some err, g, Some e0)
           | Inr e \<Rightarrow>
               if g_Nodes g (e_Source e) = None then (Some ErrSourceNodeNotFound, g, Some e)
               else if g_Nodes g (e_Target e) = None then (Some ErrTargetNodeNotFound, g, Some e)
               else (case same_edge_exists e (g_Edges g) of
                       Inl _ \<Rightarrow> (Some NilPointerPanic, g, Some e)
                     | Inr True \<Rightarrow> (Some ErrDuplicateEdge, g, Some e)
                     | Inr False \<Rightarrow>
                         (None, g\<lparr>g_Edges := g_Edges g @ [Some e], g_UpdatedAt := now\<rparr>, Some e))))"

subsection \<open>Well-formed nodes and edges\<close>

definition edge_key :: "Edge \<Rightarrow> string \<times> string \<times> string \<times> string" where
  "edge_key e = (e_Source e, e_Target e, e_Type e, e_Condition e)"

definition wf_edge :: "(string \<rightharpoonup> 'n) \<Rightarrow> Edge \<Rightarrow> bool" where
  "wf_edge nodes e \<longleftrightarrow> e_Source e \<noteq> [] \<and> e_Target e \<noteq> [] \<and> e_Source e \<noteq> e_Target e
     \<and> nodes (e_Source e) \<noteq> None \<and> nodes (e_Target e) \<noteq> None"

definition with_type :: "Edge \<Rightarrow> Edge" where
  "with_type e = (if e_Type e = [] then e\<lparr>e_Type := EdgeTypeDefault\<rparr> else e)"

definition wf_edges :: "(string \<rightharpoonup> 'n) \<Rightarrow> Edge option list \<Rightarrow> bool" where
  "wf_edges nodes es \<longleftrightarrow> None \<notin> set es \<and> (\<forall>e. Some e \<in> set es \<longrightarrow> wf_edge nodes e)
     \<and> distinct (map (edge_key \<circ> with_type \<circ> the) es)"

definition wf_nodes :: "(string \<rightharpoonup> Node option) \<Rightarrow> bool" where
  "wf_nodes nodes \<longleftrightarrow> (\<forall>k p. nodes k = Some p \<longrightarrow> (\<exists>n. p = Some n \<and> Node_Validate n = None))"

definition wf_graph :: "Graph \<Rightarrow> bool" where
  "wf_graph g \<longleftrightarrow> g_Name g \<noteq> [] \<and> g_EntryPoint g \<noteq> [] \<and> g_Nodes g (g_EntryPoint g) \<noteq> None
     \<and> wf_nodes (g_Nodes g) \<and> wf_edges (g_Nodes g) (g_Edges g)"

lemma with_type_simps [simp]:
  "e_Source (with_type e) = e_Source e" "e_Target (with_type e) = e_Target e"
  "e_Condition (with_type e) = e_Condition e" "with_type (with_type e) = with_type e"
  "e_Type (with_type e) \<noteq> []"
  by (simp_all add: with_type_def EdgeTypeDefault_def)

lemma Edge_Validate_Inr:
  "Edge_Validate e = Inr e' \<longleftrightarrow>
     e_Source e \<noteq> [] \<and> e_Target e \<noteq> [] \<and> e_Source e \<noteq> e_Target e \<and> e' = with_type e"
  by (auto simp: Edge_Validate_def with_type_def)

lemma wf_edge_mono:
  "wf_edge nodes e \<Longrightarrow> dom nodes \<subseteq> dom nodes' \<Longrightarrow> wf_edge nodes' e"
  by (auto simp: wf_edge_def)

lemma wf_edges_mono:
  "wf_edges nodes es \<Longrightarrow> dom nodes \<subseteq> dom nodes' \<Longrightarrow> wf_edges nodes' es"
  by (auto simp: wf_edges_def intro: wf_edge_mono)

text \<open>The duplicate check finds exactly the edges with the same key.\<close>

lemma same_edge_exists_typed:
  assumes "None \<notin> set es" and "\<And>x. Some x \<in> set es \<Longrightarrow> e_Type x \<noteq> []" and "e_Type e \<noteq> []"
  shows "same_edge_exists e es = Inr (edge_key e \<in> set (map (edge_key \<circ> with_type \<circ> the) es))"
  using assms(1,2)
proof (induction e es rule: same_edge_exists.induct)
  case (3 e x es)
  then have "with_type x = x" by (simp add: with_type_def)
  with 3 show ?case by (auto simp: edge_key_def)
qed auto

subsection \<open>Graphs built through the operations\<close>

text \<open>
  A graph value that starts with no nodes and no edges and is then changed by
  \<^verbatim>\<open>AddNode\<close> and \<^verbatim>\<open>AddEdge\<close> only, whether the calls succeed or not.
\<close>

inductive built :: "Graph \<Rightarrow> bool" where
  built_new: "g_Nodes g = Map.empty \<Longrightarrow> g_Edges g = [] \<Longrightarrow> built g"
| built_node: "built g \<Longrightarrow> AddNode now nd g = (r, g') \<Longrightarrow> built g'"
| built_edge: "built g \<Longrightarrow> AddEdge now ed g = (r, g', ed') \<Longrightarrow> built g'"

definition build_inv :: "Graph \<Rightarrow> bool" where
  "build_inv g \<longleftrightarrow> wf_nodes (g_Nodes g) \<and> wf_edges (g_Nodes g) (g_Edges g)
     \<and> (\<forall>k n. g_Nodes g k = Some (Some n) \<longrightarrow> n_ID n = k)
     \<and> (\<forall>e. Some e \<in> set (g_Edges g) \<longrightarrow> e_Type e \<noteq> [])"

lemma AddNode_inv [fg_inv]: "build_inv g \<Longrightarrow> AddNode now nd g = (r, g') \<Longrightarrow> build_inv g'"
  by (auto simp: build_inv_def AddNode_def wf_nodes_def wf_edges_def wf_edge_def
      split: option.splits if_splits)

lemma AddEdge_inv [fg_inv]:
  assumes inv: "build_inv g" and step: "AddEdge now ed g = (r, g', ed')"
  shows "build_inv g'"
proof (cases "g' = g")
  case True
  with inv show ?thesis by simp
next
  case False
  with step obtain e0 e where e: "Edge_Validate e0 = Inr e"
    and ends: "g_Nodes g (e_Source e) \<noteq> None" "g_Nodes g (e_Target e) \<noteq> None"
    and new: "same_edge_exists e (g_Edges g) = Inr False"
    and g': "g' = g\<lparr>g_Edges := g_Edges g @ [Some e], g_UpdatedAt := now\<rparr>"
    by (auto simp: AddEdge_def split: option.splits sum.splits if_splits bool.splits)
  from e have typed: "e_Type e \<noteq> []" "with_type e = e" and wf: "e_Source e \<noteq> []"
    "e_Target e \<noteq> []" "e_Source e \<noteq> e_Target e"
    by (auto simp: Edge_Validate_Inr)
  have "edge_key e \<notin> set (map (edge_key \<circ> with_type \<circ> the) (g_Edges g))"
    using same_edge_exists_typed [of "g_Edges g" e] inv typed new
    by (auto simp: build_inv_def wf_edges_def)
  with inv g' ends typed wf show ?thesis
    by (auto simp: build_inv_def wf_edges_def wf_edge_def)
qed

lemma built_inv: "built g \<Longrightarrow> build_inv g"
proof (induction rule: built.induct)
  case (built_new g)
  then show ?case by (simp add: build_inv_def wf_nodes_def wf_edges_def)
qed (auto intro: fg_inv)

end
