(* ===== verification/GraphValidation.thy ===== *)
theory GraphValidation
  imports Graph
begin

section \<open>Structural validation and cycle detection (pkg/validation/graph.go)\<close>

text \<open>
  \<^verbatim>\<open>ValidateCoreGraph\<close> and the depth-first search \<^verbatim>\<open>hasCycle\<close>. The two
  loops over the node map take their orders as arguments. The search is total: its
  termination measure is the number of white nodes, which the nested call never increases.
  The main result is that the search answers true exactly for the cyclic graphs.
\<close>

subsection \<open>Cycle detection\<close>

datatype color = White | Gray | Black

type_synonym coloring = "string \<Rightarrow> color"

definition edge_pairs :: "Edge option list \<Rightarrow> (string \<times> string) list" where
  "edge_pairs es = map (\<lambda>e. (e_Source (the e), e_Target (the e))) es"

text \<open>\<^verbatim>\<open>adj[u]\<close>: the targets of the edges from \<open>u\<close>, in the order of the edges.\<close>

fun adj_of :: "(string \<times> string) list \<Rightarrow> string \<Rightarrow> string list" where
  "adj_of [] u = []"
| "adj_of ((s, t) # es) u = (if s = u then t # adj_of es u else adj_of es u)"

lemma set_adj_of: "v \<in> set (adj_of es u) \<longleftrightarrow> (u, v) \<in> set es"
  by (induction es u rule: adj_of.induct) auto

text \<open>
  \<open>dfs_loop\<close> is the loop over \<^verbatim>\<open>adj[u]\<close> in the body of the closure
  \<^verbatim>\<open>dfs\<close>; the call \<^verbatim>\<open>dfs(v)\<close> in it colours \<open>v\<close> gray, loops over
  \<^verbatim>\<open>adj[v]\<close> and colours \<open>v\<close> black when no back edge was found.
\<close>

function dfs_loop :: "(string \<times> string) list \<Rightarrow> string list \<Rightarrow> coloring \<Rightarrow> bool \<times> coloring" where
  "dfs_loop es [] c = (False, c)"
| "dfs_loop es (v # vs) c =
     (if c v = Gray then (True, c)
      else if c v = White then
        (case dfs_loop es (adj_of es v) (c(v := Gray)) of
           (True, c') \<Rightarrow> (True, c')
         | (False, c') \<Rightarrow> dfs_loop es vs (c'(v := Black)))
      else dfs_loop es vs c)"
  by pat_completeness auto

definition white_nodes :: "(string \<times> string) list \<Rightarrow> string list \<Rightarrow> coloring \<Rightarrow> string set" where
  "white_nodes es vs c = {x \<in> set (map snd es) \<union> set vs. c x = White}"

lemma finite_white_nodes [simp]: "finite (white_nodes es vs c)"
  by (rule finite_subset [of _ "set (map snd es) \<union> set vs"]) (auto simp: white_nodes_def)

lemma dfs_loop_keeps:
  "dfs_loop_dom (es, vs, c) \<Longrightarrow> c x \<noteq> White \<Longrightarrow> snd (dfs_loop es vs c) x \<noteq> White"
proof (induction es vs c rule: dfs_loop.pinduct)
  case (1 es c)
  then show ?case by (simp add: dfs_loop.psimps)
next
  case (2 es v vs c)
  obtain b c1 where inner: "dfs_loop es (adj_of es v) (c(v := Gray)) = (b, c1)"
    by fastforce
  have *: "c1 x \<noteq> White" if white: "c v = White"
  proof -
    have "c v \<noteq> Gray" and "(c(v := Gray)) x \<noteq> White"
      using white "2.prems" by simp_all
    from "2.IH"(1) [OF this(1) white this(2)] inner show ?thesis by (simp add: fun_upd_def)
  qed
  show ?case
  proof (cases "c v = White \<and> \<not> b")
    case True
    with * have "c v \<noteq> Gray" "(c1(v := Black)) x \<noteq> White" by simp_all
    with True have "snd (dfs_loop es vs (c1(v := Black))) x \<noteq> White"
      using "2.IH"(2) [OF _ _ inner [symmetric]] by blast
    with True inner "2.hyps" show ?thesis by (simp add: dfs_loop.psimps)
  next
    case False
    with * "2.prems" "2.IH"(3) "2.hyps" inner show ?thesis
      by (cases "c v"; cases b) (auto simp: dfs_loop.psimps)
  qed
qed

lemma white_enter:
  assumes "c v = White"
  shows "white_nodes es (adj_of es v) (c(v := Gray)) \<subset> white_nodes es (v # vs) c"
proof -
  have "set (adj_of es v) \<subseteq> set (map snd es)"
    by (auto simp: set_adj_of intro: rev_image_eqI)
  with assms show ?thesis by (auto simp: white_nodes_def)
qed

lemma white_continue:
  assumes "c v = White" and "\<And>x. c x \<noteq> White \<Longrightarrow> c' x \<noteq> White"
  shows "white_nodes es vs (c'(v := Black)) \<subset> white_nodes es (v # vs) c"
proof (rule psubsetI)
  show "white_nodes es vs (c'(v := Black)) \<subseteq> white_nodes es (v # vs) c"
  proof
    fix x
    assume "x \<in> white_nodes es vs (c'(v := Black))"
    then show "x \<in> white_nodes es (v # vs) c"
      using assms(2) [of x] by (auto simp: white_nodes_def split: if_splits)
  qed
  have "v \<in> white_nodes es (v # vs) c" "v \<notin> white_nodes es vs (c'(v := Black))"
    using assms(1) by (auto simp: white_nodes_def)
  then show "white_nodes es vs (c'(v := Black)) \<noteq> white_nodes es (v # vs) c" by blast
qed

lemma card_psubset: "A \<subset> white_nodes es vs c \<Longrightarrow> card A < card (white_nodes es vs c)"
  by (rule psubset_card_mono) auto

termination dfs_loop
proof (relation "measures [\<lambda>(es, vs, c). card (white_nodes es vs c), \<lambda>(es, vs, c). length vs]",
    goal_cases)
  case 1
  show ?case by simp
next
  case (2 es v vs c)
  then show ?case using card_psubset [OF white_enter] by simp
next
  case (3 es v vs c b c')
  have "\<And>x. c x \<noteq> White \<Longrightarrow> c' x \<noteq> White"
    using dfs_loop_keeps [of es "adj_of es v" "c(v := Gray)"] 3
    by (metis (full_types) color.distinct(1) fun_upd_apply snd_conv)
  with 3 show ?case using card_psubset [OF white_continue] by simp
next
  case (4 es v vs c)
  then have "white_nodes es vs c \<subseteq> white_nodes es (v # vs) c"
    by (auto simp: white_nodes_def)
  then have "card (white_nodes es vs c) \<le> card (white_nodes es (v # vs) c)"
    by (rule card_mono [rotated]) simp
  then show ?case by (simp add: le_less)
qed

definition dfs :: "(string \<times> string) list \<Rightarrow> string \<Rightarrow> coloring \<Rightarrow> bool \<times> coloring" where
  "dfs es u c =
     (case dfs_loop es (adj_of es u) (c(u := Gray)) of
        (True, c') \<Rightarrow> (True, c')
      | (False, c') \<Rightarrow> (False, c'(u := Black)))"

text \<open>The loop over \<^verbatim>\<open>g.Nodes\<close>, in the order \<open>ids\<close>.\<close>

fun hasCycle_from :: "(string \<times> string) list \<Rightarrow> string list \<Rightarrow> coloring \<Rightarrow> bool" where
  "hasCycle_from es [] c = False"
| "hasCycle_from es (u # us) c =
     (if c u = White
      then (case dfs es u c of (True, _) \<Rightarrow> True | (False, c') \<Rightarrow> hasCycle_from es us c')
      else hasCycle_from es us c)"

definition hasCycle :: "string list \<Rightarrow> Graph \<Rightarrow> bool" where
  "hasCycle ids g = hasCycle_from (edge_pairs (g_Edges g)) ids (\<lambda>_. White)"

subsection \<open>The search finds a cycle exactly if there is one\<close>

text \<open>When the loop ends without a back edge, its nodes are black and the gray ones are as before.\<close>

lemma dfs_loop_False:
  assumes "dfs_loop es vs c = (False, c')"
  shows "(c' x = Gray \<longleftrightarrow> c x = Gray) \<and> (c x = Black \<longrightarrow> c' x = Black)
    \<and> (x \<in> set vs \<longrightarrow> c' x = Black)"
  using assms
proof (induction es vs c arbitrary: c' rule: dfs_loop.induct)
  case (1 es c)
  then show ?case by simp
next
  case (2 es v vs c)
  show ?case
  proof (cases "c v")
    case White
    with "2.prems" obtain c1 where
      inner: "dfs_loop es (adj_of es v) (c(v := Gray)) = (False, c1)" and
      rest: "dfs_loop es vs (c1(v := Black)) = (False, c')"
      by (auto split: prod.splits bool.splits)
    have ng: "c v \<noteq> Gray" using White by simp
    have "(c1 x = Gray \<longleftrightarrow> (c(v := Gray)) x = Gray) \<and> ((c(v := Gray)) x = Black \<longrightarrow> c1 x = Black)"
      using "2.IH"(1) [OF ng White inner] by blast
    moreover have "(c' x = Gray \<longleftrightarrow> (c1(v := Black)) x = Gray)
        \<and> ((c1(v := Black)) x = Black \<longrightarrow> c' x = Black) \<and> (x \<in> set vs \<longrightarrow> c' x = Black)"
      using "2.IH"(2) [OF ng White inner [symmetric] refl rest] by blast
    ultimately show ?thesis using White by (auto split: if_splits)
  next
    case Gray
    with "2.prems" show ?thesis by simp
  next
    case Black
    with "2.prems" have rest: "dfs_loop es vs c = (False, c')" by simp
    show ?thesis
      using "2.IH"(3) [OF _ _ rest] Black by (cases "x = v") auto
  qed
qed

lemmas dfs_loop_gray = dfs_loop_False [THEN conjunct1]
  and dfs_loop_black = dfs_loop_False [THEN conjunct2, THEN conjunct1, rule_format]
  and dfs_loop_done = dfs_loop_False [THEN conjunct2, THEN conjunct2, rule_format]

text \<open>
  Soundness: while the search is below \<open>u\<close>, every gray node reaches \<open>u\<close>, so a back edge
  closes a cycle.
\<close>

lemma dfs_loop_sound:
  assumes "dfs_loop es vs c = (True, c')"
    and "\<And>v. v \<in> set vs \<Longrightarrow> (u, v) \<in> set es"
    and "\<And>x. c x = Gray \<Longrightarrow> (x, u) \<in> (set es)\<^sup>*"
  shows "\<exists>x. (x, x) \<in> (set es)\<^sup>+"
  using assms
proof (induction es vs c arbitrary: u c' rule: dfs_loop.induct)
  case (1 es c)
  then show ?case by simp
next
  case (2 es v vs c)
  have uv: "(u, v) \<in> set es" using "2.prems"(2) by simp
  consider (gray) "c v = Gray" | (white) "c v = White" | (black) "c v = Black"
    by (cases "c v") auto
  then show ?case
  proof cases
    case gray
    with "2.prems"(3) have "(v, u) \<in> (set es)\<^sup>*" by simp
    with uv show ?thesis by (blast intro: rtrancl_into_trancl1)
  next
    case black
    with 2 show ?thesis by auto
  next
    case white
    then have ng: "c v \<noteq> Gray" by simp
    obtain b c1 where inner: "dfs_loop es (adj_of es v) (c(v := Gray)) = (b, c1)"
      by fastforce
    have reach: "(x, v) \<in> (set es)\<^sup>*" if "(c(v := Gray)) x = Gray" for x
      using that uv "2.prems"(3) [of x] by (auto split: if_splits intro: rtrancl_into_rtrancl)
    show ?thesis
    proof (cases b)
      case True
      show ?thesis
      proof (rule "2.IH"(1) [OF ng white])
        show "dfs_loop es (adj_of es v) (c(v := Gray)) = (True, c1)" using inner True by simp
      qed (use reach in \<open>auto simp: set_adj_of simp del: fun_upd_apply\<close>)
    next
      case False
      with white inner "2.prems"(1) have rest: "dfs_loop es vs (c1(v := Black)) = (True, c')"
        by simp
      have grays: "c1 x = Gray \<Longrightarrow> (c(v := Gray)) x = Gray" for x
        using dfs_loop_gray [of es "adj_of es v" "c(v := Gray)" c1 x] inner False
        by (simp del: fun_upd_apply)
      show ?thesis
      proof (rule "2.IH"(2) [OF ng white inner [symmetric] _ rest])
        show "(x, u) \<in> (set es)\<^sup>*" if "(c1(v := Black)) x = Gray" for x
          using that grays [of x] "2.prems"(3) [of x] by (auto split: if_splits)
      qed (use False "2.prems"(2) in auto)
    qed
  qed
qed

text \<open>
  Completeness: the successors of a black node are black, and no cycle goes through one.
\<close>

definition black_closed :: "(string \<times> string) list \<Rightarrow> coloring \<Rightarrow> bool" where
  "black_closed es c \<longleftrightarrow>
     (\<forall>x y. c x = Black \<longrightarrow> (x, y) \<in> set es \<longrightarrow> c y = Black)
     \<and> (\<forall>x. c x = Black \<longrightarrow> (x, x) \<notin> (set es)\<^sup>+)"

lemma black_closed_reach:
  "black_closed es c \<Longrightarrow> (x, y) \<in> (set es)\<^sup>* \<Longrightarrow> c x = Black \<Longrightarrow> c y = Black"
  by (rotate_tac 1, induction rule: rtrancl_induct) (auto simp: black_closed_def)

lemma black_closed_add:
  assumes cl: "black_closed es c" and v: "c v = Gray"
    and adj: "\<And>y. (v, y) \<in> set es \<Longrightarrow> c y = Black"
  shows "black_closed es (c(v := Black))"
proof -
  have "(v, v) \<notin> (set es)\<^sup>+"
  proof
    assume "(v, v) \<in> (set es)\<^sup>+"
    then obtain y where "(v, y) \<in> set es" and "(y, v) \<in> (set es)\<^sup>*"
      by (meson tranclD)
    with cl adj have "c v = Black" by (blast intro: black_closed_reach)
    with v show False by simp
  qed
  with cl adj show ?thesis by (auto simp: black_closed_def)
qed

lemma black_closed_gray:
  "black_closed es c \<Longrightarrow> c v = White \<Longrightarrow> black_closed es (c(v := Gray))"
  by (auto simp: black_closed_def)

lemma dfs_loop_closed:
  assumes "dfs_loop es vs c = (False, c')" and "black_closed es c"
  shows "black_closed es c'"
  using assms
proof (induction es vs c arbitrary: c' rule: dfs_loop.induct)
  case (1 es c)
  then show ?case by simp
next
  case (2 es v vs c)
  show ?case
  proof (cases "c v")
    case White
    with "2.prems" obtain c1 where
      inner: "dfs_loop es (adj_of es v) (c(v := Gray)) = (False, c1)" and
      rest: "dfs_loop es vs (c1(v := Black)) = (False, c')"
      by (auto split: prod.splits bool.splits)
    have ng: "c v \<noteq> Gray" using White by simp
    have "black_closed es c1"
      by (rule "2.IH"(1) [OF ng White inner black_closed_gray [OF "2.prems"(2) White]])
    moreover have "c1 v = Gray" using dfs_loop_gray [OF inner, of v] by simp
    moreover have "c1 y = Black" if "(v, y) \<in> set es" for y
      using dfs_loop_done [OF inner, of y] that by (simp add: set_adj_of)
    ultimately have "black_closed es (c1(v := Black))" by (rule black_closed_add)
    then show ?thesis
      by (rule "2.IH"(2) [OF ng White inner [symmetric] refl rest])
  next
    case Gray
    with "2.prems" show ?thesis by simp
  next
    case Black
    with 2 show ?thesis by simp
  qed
qed

lemma dfs_cases:
  assumes "c u = White" and "dfs es u c = (b, c')"
    and "\<And>x. c x \<noteq> Gray" and "black_closed es c"
  shows "(b \<longrightarrow> (\<exists>x. (x, x) \<in> (set es)\<^sup>+)) \<and>
    (\<not> b \<longrightarrow> black_closed es c' \<and> c' u = Black \<and> (\<forall>x. c' x \<noteq> Gray) \<and> (\<forall>x. c x = Black \<longrightarrow> c' x = Black))"
proof (cases b)
  case True
  then obtain c1 where "dfs_loop es (adj_of es u) (c(u := Gray)) = (True, c1)"
    using assms(2) by (auto simp: dfs_def split: prod.splits bool.splits)
  then have "\<exists>x. (x, x) \<in> (set es)\<^sup>+"
    by (rule dfs_loop_sound [where u = u]) (use assms(3) in \<open>auto simp: set_adj_of split: if_splits\<close>)
  with True show ?thesis by simp
next
  case False
  then obtain c1 where inner: "dfs_loop es (adj_of es u) (c(u := Gray)) = (False, c1)"
    and c': "c' = c1(u := Black)"
    using assms(2) by (auto simp: dfs_def split: prod.splits bool.splits)
  have "black_closed es c1"
    by (rule dfs_loop_closed [OF inner black_closed_gray [OF assms(4,1)]])
  moreover have "c1 u = Gray" using dfs_loop_gray [OF inner, of u] by simp
  moreover have "c1 y = Black" if "(u, y) \<in> set es" for y
    using dfs_loop_done [OF inner, of y] that by (simp add: set_adj_of)
  ultimately have "black_closed es c'" unfolding c' by (rule black_closed_add)
  moreover have "c' x \<noteq> Gray" "c x = Black \<longrightarrow> c' x = Black" for x
    using dfs_loop_gray [OF inner, of x] dfs_loop_black [OF inner, of x] assms(1,3) c' by auto
  ultimately show ?thesis using False c' by simp
qed

lemma hasCycle_from_iff:
  assumes "\<And>x. c x \<noteq> Gray" and "black_closed es c"
    and "\<And>x. c x \<noteq> Black \<Longrightarrow> x \<in> set us \<or> (\<forall>y. (x, y) \<notin> set es)"
  shows "hasCycle_from es us c \<longleftrightarrow> (\<exists>x. (x, x) \<in> (set es)\<^sup>+)"
  using assms
proof (induction es us c rule: hasCycle_from.induct)
  case (1 es c)
  then have "(x, x) \<notin> (set es)\<^sup>+" for x
    by (metis black_closed_def empty_iff list.set(1) tranclD)
  then show ?case by simp
next
  case (2 es u us c)
  show ?case
  proof (cases "c u = White")
    case True
    obtain b c' where d: "dfs es u c = (b, c')" by fastforce
    note cases = dfs_cases [OF True d "2.prems"(1,2)]
    show ?thesis
    proof (cases b)
      case True
      with d cases \<open>c u = White\<close> show ?thesis by simp
    next
      case False
      have cover: "x \<in> set us \<or> (\<forall>y. (x, y) \<notin> set es)" if "c' x \<noteq> Black" for x
        using "2.prems"(3) [of x] cases False that by auto
      show ?thesis
        using "2.IH"(1) [OF True d [symmetric] _ _ _ cover] cases False True d by auto
    qed
  next
    case False
    with "2.prems"(1) have "c u = Black" by (metis color.exhaust)
    with 2 False show ?thesis by auto
  qed
qed

text \<open>The cycles are those of the edges; each source of an edge is a node of the graph.\<close>

definition edge_rel :: "Graph \<Rightarrow> (string \<times> string) set" where
  "edge_rel g = {(e_Source e, e_Target e) | e. Some e \<in> set (g_Edges g)}"

lemma edge_rel_pairs: "None \<notin> set (g_Edges g) \<Longrightarrow> edge_rel g = set (edge_pairs (g_Edges g))"
  unfolding edge_rel_def edge_pairs_def
  by (auto simp: image_iff) (metis option.sel, metis option.exhaust_sel)

lemma hasCycle_iff:
  assumes "None \<notin> set (g_Edges g)" and "fst ` edge_rel g \<subseteq> set ids"
  shows "hasCycle ids g \<longleftrightarrow> \<not> acyclic (edge_rel g)"
proof -
  have "hasCycle ids g \<longleftrightarrow> (\<exists>x. (x, x) \<in> (set (edge_pairs (g_Edges g)))\<^sup>+)"
    unfolding hasCycle_def
  proof (rule hasCycle_from_iff)
    show "x \<in> set ids \<or> (\<forall>y. (x, y) \<notin> set (edge_pairs (g_Edges g)))" for x
      using assms edge_rel_pairs [OF assms(1)] by force
  qed (simp_all add: black_closed_def)
  then show ?thesis
    by (simp add: acyclic_def edge_rel_pairs [OF assms(1)])
qed

subsection \<open>ValidateCoreGraph\<close>

record GraphValidationOptions =
  CheckCycles :: bool

text \<open>The loop over the node map, in the order \<open>ids\<close>: the first invalid node ends it.\<close>

fun validate_nodes :: "(string \<rightharpoonup> Node option) \<Rightarrow> string list \<Rightarrow> graph_error option" where
  "validate_nodes nodes [] = None"
| "validate_nodes nodes (k # ks) =
     (case nodes k of
        None \<Rightarrow> validate_nodes nodes ks
      | Some None \<Rightarrow> Some NilNodeEncountered
      | Some (Some n) \<Rightarrow>
          (case Node_Validate n of Some err \<Rightarrow> Some err | None \<Rightarrow> validate_nodes nodes ks))"

text \<open>
  The loop over the edges. \<open>seen\<close> is the set of keys of \<^verbatim>\<open>seenEdges\<close>; the second
  component of the result is what is left in \<^verbatim>\<open>g.Edges\<close>, with the default types that
  \<^verbatim>\<open>e.Validate\<close> has written, also when a later check fails.
\<close>

fun validate_edges ::
  "(string \<rightharpoonup> Node option) \<Rightarrow> (string \<times> string \<times> string \<times> string) list \<Rightarrow> Edge option list
   \<Rightarrow> graph_error option \<times> Edge option list" where
  "validate_edges nodes seen [] = (None, [])"
| "validate_edges nodes seen (None # es) = (Some NilEdgeEncountered, None # es)"
| "validate_edges nodes seen (Some e0 # es) =
     (case Edge_Validate e0 of
        Inl err \<Rightarrow> (Some err, Some e0 # es)
      | Inr e \<Rightarrow>
          if nodes (e_Source e) = None then (Some ErrSourceNodeNotFound, Some e # es)
          else if nodes (e_Target e) = None then (Some ErrTargetNodeNotFound, Some e # es)
          else if edge_key e \<in> set seen then (Some ErrDuplicateEdge, Some e # es)
          else (case validate_edges nodes (edge_key e # seen) es of
                  (r, es') \<Rightarrow> (r, Some e # es')))"

text \<open>
  \<open>ids\<close> and \<open>ids'\<close> are the orders of the two loops over the node map: the validation of
  the nodes and the roots of the search.
\<close>

definition ValidateCoreGraph ::
  "string list \<Rightarrow> string list \<Rightarrow> GraphValidationOptions list \<Rightarrow> Graph option
   \<Rightarrow> graph_error option \<times> Graph option" where
  "ValidateCoreGraph ids ids' opts gp =
     (case gp of
        None \<Rightarrow> (Some GraphIsNil, None)
      | Some g \<Rightarrow>
          (case Graph_Validate g of
             Some err \<Rightarrow> (Some err, Some g)
           | None \<Rightarrow>
               (case validate_nodes (g_Nodes g) ids of
                  Some err \<Rightarrow> (Some err, Some g)
                | None \<Rightarrow>
                    (case validate_edges (g_Nodes g) [] (g_Edges g) of
                       (Some err, es) \<Rightarrow> (Some err, Some (g\<lparr>g_Edges := es\<rparr>))
                     | (None, es) \<Rightarrow>
                         let g' = g\<lparr>g_Edges := es\<rparr>;
                             cfg = (case opts of [] \<Rightarrow> \<lparr>CheckCycles = False\<rparr> | o1 # _ \<Rightarrow> o1)
                         in if CheckCycles cfg \<and> hasCycle ids' g'
                            then (Some ErrCyclicGraph, Some g') else (None, Some g')))))"

lemma validate_nodes_None:
  "validate_nodes nodes ks = None \<longleftrightarrow>
     (\<forall>k \<in> set ks. case nodes k of None \<Rightarrow> True | Some None \<Rightarrow> False
        | Some (Some n) \<Rightarrow> Node_Validate n = None)"
  by (induction ks) (auto split: option.splits)

lemma wf_nodes_cases:
  "wf_nodes nodes \<longleftrightarrow> (\<forall>k. case nodes k of None \<Rightarrow> True | Some None \<Rightarrow> False
     | Some (Some n) \<Rightarrow> Node_Validate n = None)"
proof -
  have "(\<forall>p. nodes k = Some p \<longrightarrow> (\<exists>n. p = Some n \<and> Node_Validate n = None)) \<longleftrightarrow>
      (case nodes k of None \<Rightarrow> True | Some None \<Rightarrow> False | Some (Some n) \<Rightarrow> Node_Validate n = None)" for k
  proof (cases "nodes k")
    case (Some p)
    then show ?thesis by (cases p) auto
  qed simp
  then show ?thesis by (simp add: wf_nodes_def)
qed

lemma validate_nodes_wf:
  "map_order nodes ks \<Longrightarrow> validate_nodes nodes ks = None \<longleftrightarrow> wf_nodes nodes"
  unfolding validate_nodes_None wf_nodes_cases map_order_def
  by (auto split: option.splits)

lemma validate_edges_result:
  "validate_edges nodes seen es = (None, es') \<Longrightarrow>
     es' = map (map_option with_type) es \<and> None \<notin> set es \<and> (\<forall>e. Some e \<in> set es \<longrightarrow> wf_edge nodes e)
     \<and> distinct (map (edge_key \<circ> with_type \<circ> the) es)
     \<and> set seen \<inter> set (map (edge_key \<circ> with_type \<circ> the) es) = {}"
proof (induction nodes seen es arbitrary: es' rule: validate_edges.induct)
  case (3 nodes seen e0 es)
  from "3.prems" obtain e es1 where e: "Edge_Validate e0 = Inr e"
    and ends: "nodes (e_Source e) \<noteq> None" "nodes (e_Target e) \<noteq> None"
    and new: "edge_key e \<notin> set seen"
    and rest: "validate_edges nodes (edge_key e # seen) es = (None, es1)"
    and es': "es' = Some e # es1"
    by (auto split: sum.splits if_splits prod.splits)
  note IH = "3.IH" [OF e ends new rest]
  from e have "e = with_type e0" "wf_edge nodes e0"
    using ends by (auto simp: Edge_Validate_Inr wf_edge_def)
  with IH new es' show ?case by auto
qed auto

lemma validate_edges_complete:
  "None \<notin> set es \<Longrightarrow> (\<And>e. Some e \<in> set es \<Longrightarrow> wf_edge nodes e) \<Longrightarrow>
   distinct (map (edge_key \<circ> with_type \<circ> the) es) \<Longrightarrow>
   set seen \<inter> set (map (edge_key \<circ> with_type \<circ> the) es) = {} \<Longrightarrow>
   fst (validate_edges nodes seen es) = None"
proof (induction nodes seen es rule: validate_edges.induct)
  case (3 nodes seen e0 es)
  have wf: "wf_edge nodes e0" using "3.prems"(2) by simp
  then have e: "Edge_Validate e0 = Inr (with_type e0)"
    by (simp add: Edge_Validate_Inr wf_edge_def)
  have ends: "nodes (e_Source (with_type e0)) \<noteq> None" "nodes (e_Target (with_type e0)) \<noteq> None"
    and new: "edge_key (with_type e0) \<notin> set seen"
    using wf "3.prems"(4) by (auto simp: wf_edge_def)
  have "fst (validate_edges nodes (edge_key (with_type e0) # seen) es) = None"
    by (rule "3.IH" [OF e ends new]) (use "3.prems" in auto)
  with e ends new show ?case by (auto split: prod.splits)
qed auto

lemma validate_edges_wf:
  "fst (validate_edges nodes [] es) = None \<longleftrightarrow> wf_edges nodes es"
  using validate_edges_result [of nodes "[]" es] validate_edges_complete [of es nodes "[]"]
  by (cases "validate_edges nodes [] es") (auto simp: wf_edges_def)

lemma edge_rel_typed:
  "None \<notin> set (g_Edges g) \<Longrightarrow>
   edge_rel (g\<lparr>g_Edges := map (map_option with_type) (g_Edges g)\<rparr>) = edge_rel g"
proof -
  assume edges: "None \<notin> set (g_Edges g)"
  then have "edge_pairs (map (map_option with_type) (g_Edges g)) = edge_pairs (g_Edges g)"
    unfolding edge_pairs_def by (auto simp: map_option_case split: option.splits)
  with edges show ?thesis
    using edge_rel_pairs [of g] edge_rel_pairs [of "g\<lparr>g_Edges := map (map_option with_type) (g_Edges g)\<rparr>"]
    by auto
qed

lemma edge_rel_wf:
  "wf_edges (g_Nodes g) (g_Edges g) \<Longrightarrow> fst ` edge_rel g \<subseteq> dom (g_Nodes g)"
  by (auto simp: edge_rel_def wf_edges_def wf_edge_def)

text \<open>The checks in one statement: acceptance is well-formedness, and acyclicity if asked for.\<close>

lemma ValidateCoreGraph_spec:
  assumes "map_order (g_Nodes g) ids" and "map_order (g_Nodes g) ids'"
  shows "fst (ValidateCoreGraph ids ids' opts (Some g)) = None \<longleftrightarrow>
    wf_graph g \<and> (opts \<noteq> [] \<and> CheckCycles (hd opts) \<longrightarrow> acyclic (edge_rel g))"
proof (cases "Graph_Validate g = None \<and> validate_nodes (g_Nodes g) ids = None
    \<and> fst (validate_edges (g_Nodes g) [] (g_Edges g)) = None")
  case False
  then have "fst (ValidateCoreGraph ids ids' opts (Some g)) \<noteq> None"
    by (auto simp: ValidateCoreGraph_def split: option.splits prod.splits)
  moreover have "\<not> wf_graph g"
    using False validate_nodes_wf [OF assms(1)] validate_edges_wf
    by (auto simp: wf_graph_def Graph_Validate_def)
  ultimately show ?thesis by simp
next
  case True
  then obtain es where es: "validate_edges (g_Nodes g) [] (g_Edges g) = (None, es)"
    by (metis prod.collapse)
  have wf: "wf_graph g"
    using True validate_nodes_wf [OF assms(1)] validate_edges_wf
    by (auto simp: wf_graph_def Graph_Validate_def split: if_splits)
  then have edges: "None \<notin> set (g_Edges g)" and src: "fst ` edge_rel g \<subseteq> dom (g_Nodes g)"
    using edge_rel_wf by (auto simp: wf_graph_def wf_edges_def)
  have es_eq: "es = map (map_option with_type) (g_Edges g)"
    using validate_edges_result [OF es] by simp
  let ?g = "g\<lparr>g_Edges := es\<rparr>"
  have "hasCycle ids' ?g \<longleftrightarrow> \<not> acyclic (edge_rel g)"
    using hasCycle_iff [of ?g ids'] edges src assms(2) edge_rel_typed [OF edges]
    by (auto simp: es_eq map_order_def)
  then show ?thesis
    using True es wf by (cases opts) (auto simp: ValidateCoreGraph_def Let_def)
qed

lemma ValidateCoreGraph_result:
  assumes "ValidateCoreGraph ids ids' opts (Some g) = (None, gp)"
  shows "gp = Some (g\<lparr>g_Edges := map (map_option with_type) (g_Edges g)\<rparr>)"
  using assms validate_edges_result [of "g_Nodes g" "[]" "g_Edges g"]
  by (auto simp: ValidateCoreGraph_def Let_def split: option.splits prod.splits if_splits)

subsection \<open>Properties\<close>

text \<open>
  C3: the cycle check is exact. On a graph whose edges are not nil and start at nodes of the graph,
  the three-colour search of \<^verbatim>\<open>hasCycle\<close> reports a cycle if and only if the edge relation
  has one, in whatever order Go ranges over the node map.
\<close>

theorem hasCycle_exact:
  assumes "map_order (g_Nodes g) ids" and "None \<notin> set (g_Edges g)"
    and "\<And>e. Some e \<in> set (g_Edges g) \<Longrightarrow> g_Nodes g (e_Source e) \<noteq> None"
  shows "hasCycle ids g \<longleftrightarrow> \<not> acyclic (edge_rel g)"
proof (rule hasCycle_iff [OF assms(2)])
  show "fst ` edge_rel g \<subseteq> set ids"
    using assms(1,3) by (auto simp: edge_rel_def map_order_def)
qed

definition sample_node :: "string \<Rightarrow> Node" where
  "sample_node i = \<lparr>n_ID = i, n_Type = NodeTypeFunction, n_Name = i, n_Function = [],
     n_Config = Map.empty, n_Retries = 0, n_Timeout = 0, n_Conditional = None, n_CreatedAt = 0, n_UpdatedAt = 0\<rparr>"

definition sample_edge :: "string \<Rightarrow> string \<Rightarrow> Edge" where
  "sample_edge s t = \<lparr>e_ID = [], e_Source = s, e_Target = t, e_Type = [], e_Condition = [],
     e_Weight = 0, e_Properties = Map.empty\<rparr>"

text \<open>Two nodes and a list of edges between them.\<close>

definition sample_graph :: "Edge list \<Rightarrow> Graph" where
  "sample_graph es = \<lparr>g_ID = ''g'', g_Name = ''g'',
     g_Nodes = [''a'' \<mapsto> Some (sample_node ''a''), ''b'' \<mapsto> Some (sample_node ''b'')],
     g_Edges = map Some es, g_EntryPoint = ''a'', g_State = Map.empty,
     g_Config = \<lparr>gc_Interrupts = [], gc_MaxIterations = 0, gc_Timeout = 0, gc_Metadata = Map.empty\<rparr>,
     g_CreatedAt = 0, g_UpdatedAt = 0\<rparr>"

lemma sample_order: "map_order (g_Nodes (sample_graph es)) [''a'', ''b'']"
  by (auto simp: map_order_def sample_graph_def)

theorem hasCycle_exact_witness:
  "\<not> acyclic (edge_rel (sample_graph [sample_edge ''a'' ''b'', sample_edge ''b'' ''a'']))"
proof -
  let ?g = "sample_graph [sample_edge ''a'' ''b'', sample_edge ''b'' ''a'']"
  have "hasCycle [''a'', ''b''] ?g"
    by (simp add: hasCycle_def sample_graph_def sample_edge_def edge_pairs_def dfs_def)
  moreover have "hasCycle [''a'', ''b''] ?g \<longleftrightarrow> \<not> acyclic (edge_rel ?g)"
    by (rule hasCycle_exact [OF sample_order]) (auto simp: sample_graph_def sample_edge_def)
  ultimately show ?thesis by simp
qed

text \<open>
  C12: \<^verbatim>\<open>ValidateCoreGraph\<close> accepts exactly the well-formed graphs (a name, an entry point among
  the nodes, valid nodes, edges between different existing nodes, no two edges with the same source,
  target, type and condition) and, when asked to look for cycles, exactly the acyclic ones of them;
  the answer does not depend on the orders in which it ranges over the nodes.
\<close>

theorem ValidateCoreGraph_accepts:
  assumes "map_order (g_Nodes g) ids" and "map_order (g_Nodes g) ids'"
  shows "fst (ValidateCoreGraph ids ids' opts (Some g)) = None \<longleftrightarrow>
    wf_graph g \<and> (opts \<noteq> [] \<and> CheckCycles (hd opts) \<longrightarrow> acyclic (edge_rel g))"
  by (rule ValidateCoreGraph_spec [OF assms])

theorem ValidateCoreGraph_accepts_witness:
  "wf_graph (sample_graph [sample_edge ''a'' ''b''])
    \<and> acyclic (edge_rel (sample_graph [sample_edge ''a'' ''b'']))"
proof -
  let ?g = "sample_graph [sample_edge ''a'' ''b'']"
  have "fst (ValidateCoreGraph [''a'', ''b''] [''b'', ''a''] [\<lparr>CheckCycles = True\<rparr>] (Some ?g)) = None"
    by (simp add: ValidateCoreGraph_def Graph_Validate_def Node_Validate_def Edge_Validate_def Let_def
        sample_graph_def sample_node_def sample_edge_def hasCycle_def edge_pairs_def dfs_def edge_key_def
        NodeTypeFunction_def NodeTypeConditional_def)
  moreover have "map_order (g_Nodes ?g) [''b'', ''a'']"
    by (auto simp: map_order_def sample_graph_def)
  ultimately show ?thesis
    using ValidateCoreGraph_accepts [OF sample_order, of "[sample_edge ''a'' ''b'']" "[''b'', ''a'']"
        "[\<lparr>CheckCycles = True\<rparr>]"]
    by simp
qed

text \<open>
  C14: what the graph operations build is valid. A graph that only \<^verbatim>\<open>AddNode\<close> and
  \<^verbatim>\<open>AddEdge\<close> have changed, whatever their arguments and errors were, and that has a name and an
  entry point among its nodes, passes \<^verbatim>\<open>ValidateCoreGraph\<close>, which leaves it unchanged.
\<close>

theorem built_graph_validates:
  assumes "built g" and "g_Name g \<noteq> []" and "g_EntryPoint g \<noteq> []"
    and "g_Nodes g (g_EntryPoint g) \<noteq> None"
    and "map_order (g_Nodes g) ids" and "map_order (g_Nodes g) ids'"
  shows "ValidateCoreGraph ids ids' [] (Some g) = (None, Some g)"
proof -
  have inv: "build_inv g" by (rule built_inv [OF assms(1)])
  then have "wf_graph g" using assms(2-4) by (auto simp: wf_graph_def build_inv_def)
  then have ok: "fst (ValidateCoreGraph ids ids' [] (Some g)) = None"
    using ValidateCoreGraph_spec [OF assms(5,6), of "[]"] by simp
  then obtain gp where gp: "ValidateCoreGraph ids ids' [] (Some g) = (None, gp)"
    by (metis prod.collapse)
  have "map_option with_type p = p" if "p \<in> set (g_Edges g)" for p
    using inv that by (cases p) (auto simp: build_inv_def with_type_def)
  then have "map (map_option with_type) (g_Edges g) = g_Edges g"
    by (simp add: map_idI)
  with gp ValidateCoreGraph_result [OF gp] show ?thesis by simp
qed

theorem built_graph_validates_witness:
  "let g = snd (AddNode 7 (Some (sample_node ''a'')) ((sample_graph [])\<lparr>g_Nodes := Map.empty\<rparr>))
   in ValidateCoreGraph [''a''] [''a''] [] (Some g) = (None, Some g)"
proof -
  let ?g0 = "(sample_graph [])\<lparr>g_Nodes := Map.empty\<rparr>"
  let ?add = "AddNode 7 (Some (sample_node ''a'')) ?g0"
  have nodes: "g_Nodes (snd ?add) = [''a'' \<mapsto> Some (sample_node ''a'')]"
    and rest: "g_Name (snd ?add) = ''g''" "g_EntryPoint (snd ?add) = ''a''"
    by (simp_all add: AddNode_def Node_Validate_def sample_node_def sample_graph_def
        NodeTypeFunction_def NodeTypeConditional_def)
  have start: "built ?g0" by (rule built_new) (simp_all add: sample_graph_def)
  have "built (snd ?add)"
    by (rule built_node [OF start]) (rule prod.collapse [symmetric])
  then have "ValidateCoreGraph [''a''] [''a''] [] (Some (snd ?add)) = (None, Some (snd ?add))"
    by (rule built_graph_validates) (simp_all add: nodes rest map_order_def)
  then show ?thesis by (simp add: Let_def)
qed

end
