(* ===== verification/ChannelCore.thy ===== *)
theory ChannelCore
  imports GoValue
begin

section \<open>Messages, Go channels and the channel contract (internal/core/channel)\<close>

text \<open>
  The message entity of channel.go with its validation, the errors of errors.go, the run-time
  configuration of runtime.go, Go's built-in buffered channels and \<^verbatim>\<open>select\<close>, and the
  contract of the \<^verbatim>\<open>Channel\<close> interface as a locale: a FIFO queue whose failed calls
  leave the queue alone. The implementations interpret it in their own theories.
\<close>

subsection \<open>Messages and errors\<close>

datatype chan_error =
    ErrInvalidMessageID | ErrInvalidMessageType | ErrInvalidMessageSource | ErrInvalidMessageTarget
  | ErrChannelClosed | ErrChannelFull | ErrChannelEmpty | ErrTimeout
  | ErrContext              \<comment> \<open>\<^verbatim>\<open>ctx.Err()\<close>\<close>
  | ErrDataDirRequired | ErrMkdirFailed | ErrSizeLimit
  | ErrWriteMessage | ErrReadMessage | ErrSaveIndex | ErrLoadIndex

type_synonym MessageType = string

definition MessageTypeData :: MessageType where "MessageTypeData = ''data''"
definition MessageTypeControl :: MessageType where "MessageTypeControl = ''control''"
definition MessageTypeErr :: MessageType where "MessageTypeErr = ''error''"
definition MessageTypeHeartbeat :: MessageType where "MessageTypeHeartbeat = ''heartbeat''"

record Message =
  m_ID :: string
  m_Type :: MessageType
  m_Source :: string
  m_Target :: string
  m_Payload :: gval
  m_Headers :: "string \<rightharpoonup> string"
  m_Metadata :: gstate

text \<open>\<^verbatim>\<open>Message{}\<close>\<close>

definition zero_message :: Message where
  "zero_message = \<lparr>m_ID = [], m_Type = [], m_Source = [], m_Target = [], m_Payload = VNil,
     m_Headers = Map.empty, m_Metadata = Map.empty\<rparr>"

definition Message_Validate :: "Message \<Rightarrow> chan_error option" where
  "Message_Validate m =
     (if m_ID m = [] then Some ErrInvalidMessageID
      else if m_Type m = [] then Some ErrInvalidMessageType
      else if m_Source m = [] then Some ErrInvalidMessageSource
      else if m_Target m = [] then Some ErrInvalidMessageTarget
      else None)"

lemma zero_message_invalid [simp]: "Message_Validate zero_message = Some ErrInvalidMessageID"
  by (simp add: Message_Validate_def zero_message_def)

subsection \<open>Run-time defaults\<close>

record RuntimeConfig =
  rc_InMemoryBufferSize :: int
  rc_InMemoryTimeout :: int
  rc_BufferedMaxSize :: int
  rc_BufferedTimeout :: int
  rc_PersistentTimeout :: int

text \<open>Durations are nanoseconds.\<close>

abbreviation seconds :: "int \<Rightarrow> int" where
  "seconds n \<equiv> n * 1000000000"

subsection \<open>Go channels\<close>

record 'a gochan =
  ch_buf :: "'a list"
  ch_cap :: nat
  ch_closed :: bool

datatype 'a received = RecvValue 'a | RecvZero | RecvWait

definition make_chan :: "nat \<Rightarrow> 'a gochan" where
  "make_chan n = \<lparr>ch_buf = [], ch_cap = n, ch_closed = False\<rparr>"

text \<open>
  \<^verbatim>\<open>c <- x\<close>: sending on a closed channel panics, on a full one waits. Receiving from a
  closed and drained channel yields the zero value at once.
\<close>

definition chan_send :: "'a \<Rightarrow> 'a gochan \<Rightarrow> ('e, 'a gochan) outcome" where
  "chan_send x ch =
     (if ch_closed ch then Panics ''send on closed channel''
      else if length (ch_buf ch) < ch_cap ch then Returns (ch\<lparr>ch_buf := ch_buf ch @ [x]\<rparr>)
      else Blocks)"

definition chan_recv :: "'a gochan \<Rightarrow> 'a received \<times> 'a gochan" where
  "chan_recv ch =
     (case ch_buf ch of
        x # xs \<Rightarrow> (RecvValue x, ch\<lparr>ch_buf := xs\<rparr>)
      | [] \<Rightarrow> if ch_closed ch then (RecvZero, ch) else (RecvWait, ch))"

definition chan_close :: "'a gochan \<Rightarrow> ('e, 'a gochan) outcome" where
  "chan_close ch =
     (if ch_closed ch then Panics ''close of closed channel''
      else Returns (ch\<lparr>ch_closed := True\<rparr>))"

text \<open>
  A \<^verbatim>\<open>select\<close> takes one of its ready arms; the call says which one the run time takes:
  the communication, \<^verbatim>\<open><-ctx.Done()\<close> or \<^verbatim>\<open><-time.After(timeout)\<close>. Taking an
  arm that is not ready is waiting.
\<close>

datatype select_arm = ArmChan | ArmCtx | ArmTimeout

subsection \<open>The contract of a channel\<close>

datatype chan_op = OpSend select_arm Message | OpReceive select_arm

text \<open>
  A sequence of calls on one channel: the messages whose sends returned without an error, the
  messages that receives returned, both in order, and the final channel.
\<close>

fun chan_run ::
  "(select_arm \<Rightarrow> Message \<Rightarrow> 'c \<Rightarrow> (chan_error, unit) outcome \<times> 'c) \<Rightarrow>
   (select_arm \<Rightarrow> 'c \<Rightarrow> (chan_error, Message) outcome \<times> 'c) \<Rightarrow>
   chan_op list \<Rightarrow> 'c \<Rightarrow> Message list \<times> Message list \<times> 'c" where
  "chan_run snd_op rcv_op [] c = ([], [], c)"
| "chan_run snd_op rcv_op (OpSend a m # ops) c =
     (case snd_op a m c of (r, c1) \<Rightarrow>
        case chan_run snd_op rcv_op ops c1 of (ms, ns, c2) \<Rightarrow>
          (if r = Returns () then m # ms else ms, ns, c2))"
| "chan_run snd_op rcv_op (OpReceive a # ops) c =
     (case rcv_op a c of (r, c1) \<Rightarrow>
        case chan_run snd_op rcv_op ops c1 of (ms, ns, c2) \<Rightarrow>
          (ms, (case r of Returns m \<Rightarrow> m # ns | _ \<Rightarrow> ns), c2))"

locale fifo_channel =
  fixes snd_op :: "select_arm \<Rightarrow> Message \<Rightarrow> 'c \<Rightarrow> (chan_error, unit) outcome \<times> 'c"
    and rcv_op :: "select_arm \<Rightarrow> 'c \<Rightarrow> (chan_error, Message) outcome \<times> 'c"
    and contents :: "'c \<Rightarrow> Message list"
    and view :: "Message \<Rightarrow> Message"
    and inv :: "'c \<Rightarrow> bool"
  assumes send_inv: "inv c \<Longrightarrow> snd_op a m c = (r, c') \<Longrightarrow> inv c'"
    and recv_inv: "inv c \<Longrightarrow> rcv_op a c = (q, c') \<Longrightarrow> inv c'"
    and send_contents: "inv c \<Longrightarrow> snd_op a m c = (r, c') \<Longrightarrow>
      contents c' = (if r = Returns () then contents c @ [view m] else contents c)"
    and recv_contents: "inv c \<Longrightarrow> rcv_op a c = (q, c') \<Longrightarrow>
      contents c = (case q of Returns m \<Rightarrow> m # contents c' | _ \<Rightarrow> contents c')"
begin

lemma run_fifo:
  assumes "inv c" and "chan_run snd_op rcv_op ops c = (ms, ns, c')"
  shows "inv c' \<and> contents c @ map view ms = ns @ contents c'"
  using assms
proof (induction ops arbitrary: c ms ns c')
  case Nil
  then show ?case by simp
next
  case (Cons op ops)
  show ?case
  proof (cases op)
    case (OpSend a m)
    obtain r c1 where call: "snd_op a m c = (r, c1)" by fastforce
    obtain ms1 ns1 where run: "chan_run snd_op rcv_op ops c1 = (ms1, ns1, c')"
      using Cons.prems(2) OpSend call by (auto split: prod.splits)
    have "inv c' \<and> contents c1 @ map view ms1 = ns1 @ contents c'"
      by (rule Cons.IH [OF send_inv [OF Cons.prems(1) call] run])
    then show ?thesis
      using Cons.prems OpSend call run send_contents [OF Cons.prems(1) call]
      by (auto split: if_splits)
  next
    case (OpReceive a)
    obtain r c1 where call: "rcv_op a c = (r, c1)" by fastforce
    obtain ms1 ns1 where run: "chan_run snd_op rcv_op ops c1 = (ms1, ns1, c')"
      using Cons.prems(2) OpReceive call by (auto split: prod.splits)
    have "inv c' \<and> contents c1 @ map view ms1 = ns1 @ contents c'"
      by (rule Cons.IH [OF recv_inv [OF Cons.prems(1) call] run])
    then show ?thesis
      using Cons.prems OpReceive call run recv_contents [OF Cons.prems(1) call]
      by (auto split: outcome.splits)
  qed
qed

text \<open>On a channel that was empty, what was received is a prefix of what was sent, as the channel
  delivers it (\<open>view\<close>).\<close>

lemma run_from_empty:
  assumes "inv c" and "contents c = []" and "chan_run snd_op rcv_op ops c = (ms, ns, c')"
  shows "map view ms = ns @ contents c'"
  using run_fifo [OF assms(1,3)] assms(2) by simp

end

text \<open>A channel with a bound on what it holds.\<close>

locale bounded_channel = fifo_channel +
  fixes capacity :: "'a \<Rightarrow> nat"
  assumes bound: "inv c \<Longrightarrow> length (contents c) \<le> capacity c"
    and send_capacity: "snd_op a m c = (r, c') \<Longrightarrow> capacity c' = capacity c"
    and recv_capacity: "rcv_op a c = (q, c') \<Longrightarrow> capacity c' = capacity c"
begin

lemma run_capacity:
  "chan_run snd_op rcv_op ops c = (ms, ns, c') \<Longrightarrow> capacity c' = capacity c"
proof (induction ops arbitrary: c ms ns)
  case (Cons op ops)
  show ?case
  proof (cases op)
    case (OpSend a m)
    obtain r c1 where call: "snd_op a m c = (r, c1)" by fastforce
    obtain ms1 ns1 where "chan_run snd_op rcv_op ops c1 = (ms1, ns1, c')"
      using Cons.prems OpSend call by (auto split: prod.splits)
    then have "capacity c' = capacity c1" by (rule Cons.IH)
    with send_capacity [OF call] show ?thesis by simp
  next
    case (OpReceive a)
    obtain q c1 where call: "rcv_op a c = (q, c1)" by fastforce
    obtain ms1 ns1 where "chan_run snd_op rcv_op ops c1 = (ms1, ns1, c')"
      using Cons.prems OpReceive call by (auto split: prod.splits)
    then have "capacity c' = capacity c1" by (rule Cons.IH)
    with recv_capacity [OF call] show ?thesis by simp
  qed
qed simp

text \<open>Back pressure: the messages sent and not yet received never exceed the capacity.\<close>

lemma run_backlog:
  assumes "inv c" and "contents c = []" and "chan_run snd_op rcv_op ops c = (ms, ns, c')"
  shows "length ms \<le> length ns + capacity c"
proof -
  have "length ms = length ns + length (contents c')"
    using arg_cong [OF run_from_empty [OF assms], of length] by simp
  moreover have "length (contents c') \<le> capacity c"
    using run_fifo [OF assms(1,3)] bound [of c'] run_capacity [OF assms(3)] by simp
  ultimately show ?thesis by simp
qed

end

end
