(* ===== verification/InMemoryChannel.thy ===== *)
theory InMemoryChannel
  imports ChannelCore
begin

section \<open>The in-memory channel (internal/core/channel/inmemory.go)\<close>

text \<open>
  A wrapper of a Go channel with a closed flag under a read-write lock. \<^verbatim>\<open>Send\<close> looks
  at the flag and then selects, so it is modelled in these two phases and as their
  composition; another goroutine may run between the phases.
\<close>

subsection \<open>State and construction\<close>

record InMemChan =
  im_messages :: "Message gochan"
  im_closed :: bool
  im_timeout :: int

record InMemConfig =
  imc_BufferSize :: int
  imc_Timeout :: int

definition NewInMemoryChannel :: "InMemConfig \<Rightarrow> InMemChan" where
  "NewInMemoryChannel config =
     (let size = (if imc_BufferSize config \<le> 0 then 100 else imc_BufferSize config);
          tmo = (if imc_Timeout config \<le> 0 then seconds 30 else imc_Timeout config)
      in \<lparr>im_messages = make_chan (nat size), im_closed = False, im_timeout = tmo\<rparr>)"

definition DefaultInMemoryChannel :: "RuntimeConfig \<Rightarrow> InMemChan" where
  "DefaultInMemoryChannel rc =
     (let cfg = \<lparr>imc_BufferSize = 100, imc_Timeout = seconds 30\<rparr>;
          cfg1 = (if rc_InMemoryBufferSize rc > 0
                  then cfg\<lparr>imc_BufferSize := rc_InMemoryBufferSize rc\<rparr> else cfg);
          cfg2 = (if rc_InMemoryTimeout rc > 0
                  then cfg1\<lparr>imc_Timeout := rc_InMemoryTimeout rc\<rparr> else cfg1)
      in NewInMemoryChannel cfg2)"

subsection \<open>Operations\<close>

text \<open>The part of \<^verbatim>\<open>Send\<close> before the select: \<open>Some\<close> is an error return.\<close>

definition InMem_Send_check :: "Message \<Rightarrow> InMemChan \<Rightarrow> chan_error option" where
  "InMem_Send_check m c =
     (case Message_Validate m of
        Some err \<Rightarrow> Some err
      | None \<Rightarrow> if im_closed c then Some ErrChannelClosed else None)"

definition InMem_Send_select ::
  "select_arm \<Rightarrow> Message \<Rightarrow> InMemChan \<Rightarrow> (chan_error, unit) outcome \<times> InMemChan" where
  "InMem_Send_select arm m c =
     (case arm of
        ArmChan \<Rightarrow>
          (case chan_send m (im_messages c) of
             Returns ch \<Rightarrow> (Returns (), c\<lparr>im_messages := ch\<rparr>)
           | Fails e \<Rightarrow> (Fails e, c)
           | Blocks \<Rightarrow> (Blocks, c)
           | Deadlocks \<Rightarrow> (Deadlocks, c)
           | Panics s \<Rightarrow> (Panics s, c))
      | ArmCtx \<Rightarrow> (Fails ErrContext, c)
      | ArmTimeout \<Rightarrow> (Fails ErrTimeout, c))"

definition InMem_Send ::
  "select_arm \<Rightarrow> Message \<Rightarrow> InMemChan \<Rightarrow> (chan_error, unit) outcome \<times> InMemChan" where
  "InMem_Send arm m c =
     (case InMem_Send_check m c of
        Some err \<Rightarrow> (Fails err, c)
      | None \<Rightarrow> InMem_Send_select arm m c)"

definition InMem_Receive ::
  "select_arm \<Rightarrow> InMemChan \<Rightarrow> (chan_error, Message) outcome \<times> InMemChan" where
  "InMem_Receive arm c =
     (if im_closed c then
        \<comment> \<open>the select with a default arm\<close>
        (case chan_recv (im_messages c) of
           (RecvValue m, ch) \<Rightarrow> (Returns m, c\<lparr>im_messages := ch\<rparr>)
         | (RecvZero, ch) \<Rightarrow> (Returns zero_message, c\<lparr>im_messages := ch\<rparr>)
         | (RecvWait, ch) \<Rightarrow> (Fails ErrChannelClosed, c))
      else
        (case arm of
           ArmChan \<Rightarrow>
             (case chan_recv (im_messages c) of
                (RecvValue m, ch) \<Rightarrow> (Returns m, c\<lparr>im_messages := ch\<rparr>)
              | (RecvZero, ch) \<Rightarrow> (Returns zero_message, c\<lparr>im_messages := ch\<rparr>)
              | (RecvWait, ch) \<Rightarrow> (Blocks, c))
         | ArmCtx \<Rightarrow> (Fails ErrContext, c)
         | ArmTimeout \<Rightarrow> (Fails ErrTimeout, c)))"

definition InMem_Close :: "InMemChan \<Rightarrow> (chan_error, unit) outcome \<times> InMemChan" where
  "InMem_Close c =
     (if im_closed c then (Returns (), c)
      else (case chan_close (im_messages c) of
              Returns ch \<Rightarrow> (Returns (), c\<lparr>im_closed := True, im_messages := ch\<rparr>)
            | Fails e \<Rightarrow> (Fails e, c\<lparr>im_closed := True\<rparr>)
            | Blocks \<Rightarrow> (Blocks, c\<lparr>im_closed := True\<rparr>)
            | Deadlocks \<Rightarrow> (Deadlocks, c\<lparr>im_closed := True\<rparr>)
            | Panics s \<Rightarrow> (Panics s, c\<lparr>im_closed := True\<rparr>)))"

definition InMem_Len :: "InMemChan \<Rightarrow> nat" where
  "InMem_Len c = length (ch_buf (im_messages c))"

definition InMem_Cap :: "InMemChan \<Rightarrow> nat" where
  "InMem_Cap c = ch_cap (im_messages c)"

definition InMem_IsClosed :: "InMemChan \<Rightarrow> bool" where
  "InMem_IsClosed c = im_closed c"

record InMemStats =
  ims_Length :: nat
  ims_Capacity :: nat
  ims_Closed :: bool

definition InMem_Stats :: "InMemChan \<Rightarrow> InMemStats" where
  "InMem_Stats c = \<lparr>ims_Length = length (ch_buf (im_messages c)),
     ims_Capacity = ch_cap (im_messages c), ims_Closed = im_closed c\<rparr>"

lemmas inmem_ops = InMem_Send_def InMem_Send_check_def InMem_Send_select_def InMem_Receive_def
  InMem_Close_def chan_send_def chan_recv_def chan_close_def

subsection \<open>Invariant and contract\<close>

text \<open>The flag and the Go channel agree, and the buffer is within its capacity.\<close>

definition inmem_inv :: "InMemChan \<Rightarrow> bool" where
  "inmem_inv c \<longleftrightarrow> im_closed c = ch_closed (im_messages c)
     \<and> length (ch_buf (im_messages c)) \<le> ch_cap (im_messages c)"

definition inmem_open :: "InMemChan \<Rightarrow> bool" where
  "inmem_open c \<longleftrightarrow> inmem_inv c \<and> \<not> im_closed c"

abbreviation inmem_contents :: "InMemChan \<Rightarrow> Message list" where
  "inmem_contents c \<equiv> ch_buf (im_messages c)"

lemma NewInMemoryChannel_open:
  "inmem_open (NewInMemoryChannel cfg) \<and> inmem_contents (NewInMemoryChannel cfg) = []
    \<and> 0 < InMem_Cap (NewInMemoryChannel cfg) \<and> 0 < im_timeout (NewInMemoryChannel cfg)"
  by (simp add: NewInMemoryChannel_def inmem_open_def inmem_inv_def make_chan_def InMem_Cap_def Let_def)

lemma InMem_Send_inv [fg_inv]: "inmem_inv c \<Longrightarrow> InMem_Send a m c = (r, c') \<Longrightarrow> inmem_inv c'"
  by (auto simp: inmem_ops inmem_inv_def split: option.splits if_splits select_arm.splits)

lemma InMem_Receive_inv [fg_inv]: "inmem_inv c \<Longrightarrow> InMem_Receive a c = (q, c') \<Longrightarrow> inmem_inv c'"
  by (auto simp: inmem_ops inmem_inv_def split: list.splits if_splits select_arm.splits)

lemma InMem_Close_inv [fg_inv]:
  "inmem_inv c \<Longrightarrow> InMem_Close c = (r, c') \<Longrightarrow> inmem_inv c' \<and> r = Returns () \<and> im_closed c'
    \<and> inmem_contents c' = inmem_contents c"
  by (auto simp: inmem_ops inmem_inv_def split: if_splits)

lemma InMem_Send_contents:
  "inmem_open c \<Longrightarrow> InMem_Send a m c = (r, c') \<Longrightarrow>
    inmem_contents c' = (if r = Returns () then inmem_contents c @ [m] else inmem_contents c)"
  by (auto simp: inmem_ops inmem_open_def split: option.splits if_splits select_arm.splits)

lemma InMem_Receive_contents:
  "inmem_open c \<Longrightarrow> InMem_Receive a c = (q, c') \<Longrightarrow>
    inmem_contents c = (case q of Returns m \<Rightarrow> m # inmem_contents c' | _ \<Rightarrow> inmem_contents c')"
  by (auto simp: inmem_ops inmem_open_def inmem_inv_def split: list.splits if_splits select_arm.splits)

interpretation inmem: bounded_channel InMem_Send InMem_Receive inmem_contents "\<lambda>m. m" inmem_open InMem_Cap
proof unfold_locales
  show "inmem_open c \<Longrightarrow> InMem_Send a m c = (r, c') \<Longrightarrow> inmem_open c'" for c a m r c'
    by (auto simp: inmem_ops inmem_open_def inmem_inv_def
        split: option.splits if_splits select_arm.splits)
  show "inmem_open c \<Longrightarrow> InMem_Receive a c = (q, c') \<Longrightarrow> inmem_open c'" for c a q c'
    by (auto simp: inmem_ops inmem_open_def inmem_inv_def
        split: list.splits if_splits select_arm.splits)
  show "InMem_Send a m c = (r, c') \<Longrightarrow> InMem_Cap c' = InMem_Cap c" for c a m r c'
    by (auto simp: inmem_ops InMem_Cap_def split: option.splits if_splits select_arm.splits)
  show "InMem_Receive a c = (q, c') \<Longrightarrow> InMem_Cap c' = InMem_Cap c" for c a q c'
    by (auto simp: inmem_ops InMem_Cap_def split: list.splits if_splits select_arm.splits)
  show "inmem_open c \<Longrightarrow> length (inmem_contents c) \<le> InMem_Cap c" for c
    by (simp add: inmem_open_def inmem_inv_def InMem_Cap_def)
qed (fact InMem_Send_contents InMem_Receive_contents)+

subsection \<open>Properties\<close>

text \<open>
  first in, first out with back pressure. Whatever the sequence of sends and receives on a new
  in-memory channel, and whichever arms the selects take, the messages whose sends returned nil are
  the received ones, in order, followed by what is still buffered; and the senders are never ahead
  of the receivers by more than the capacity.
\<close>

theorem inmem_fifo:
  "case chan_run InMem_Send InMem_Receive ops (NewInMemoryChannel cfg) of
     (ms, ns, c) \<Rightarrow> ms = ns @ inmem_contents c
        \<and> length ms \<le> length ns + InMem_Cap (NewInMemoryChannel cfg)"
proof -
  obtain ms ns c where run: "chan_run InMem_Send InMem_Receive ops (NewInMemoryChannel cfg) = (ms, ns, c)"
    by (metis prod_cases3)
  from NewInMemoryChannel_open have start: "inmem_open (NewInMemoryChannel cfg)"
      "inmem_contents (NewInMemoryChannel cfg) = []" by auto
  show ?thesis
    using inmem.run_from_empty [OF start run] inmem.run_backlog [OF start run] run by simp
qed

text \<open>The results of \<open>k\<close> receives in a row.\<close>

fun inmem_drain :: "nat \<Rightarrow> InMemChan \<Rightarrow> (chan_error, Message) outcome list" where
  "inmem_drain 0 c = []"
| "inmem_drain (Suc k) c = (case InMem_Receive ArmChan c of (q, c') \<Rightarrow> q # inmem_drain k c')"

lemma inmem_drain_closed:
  assumes "inmem_inv c" and "im_closed c"
  shows "inmem_drain (length (inmem_contents c) + k) c
    = map Returns (inmem_contents c) @ replicate k (Returns zero_message)"
  using assms
proof (induction "inmem_contents c" arbitrary: c)
  case Nil
  have "inmem_drain k c = replicate k (Returns zero_message)"
  proof (induction k)
    case (Suc k)
    with Nil show ?case by (auto simp: InMem_Receive_def chan_recv_def inmem_inv_def)
  qed simp
  with Nil show ?case by simp
next
  case (Cons m ms)
  let ?c = "c\<lparr>im_messages := im_messages c\<lparr>ch_buf := ms\<rparr>\<rparr>"
  have "InMem_Receive ArmChan c = (Returns m, ?c)"
    using Cons.prems Cons.hyps(2) by (simp add: InMem_Receive_def chan_recv_def flip: Cons.hyps(2))
  moreover have "inmem_inv ?c" "im_closed ?c"
    using Cons.prems by (auto simp: inmem_inv_def simp flip: Cons.hyps(2))
  ultimately show ?case
    using Cons.hyps(1) [of ?c] by (simp flip: Cons.hyps(2))
qed

text \<open>
  a closed channel delivers what it holds and then zero messages with a nil error, for ever:
  \<^verbatim>\<open>Close\<close> also closes the Go channel, whose receive is then always ready, so the default
  arm of \<^verbatim>\<open>Receive\<close>, the only place that answers \<^verbatim>\<open>ErrChannelClosed\<close>, is never
  taken on a channel that the program built.
\<close>

theorem inmem_closed_receive:
  "case chan_run InMem_Send InMem_Receive ops (NewInMemoryChannel cfg) of
     (ms, ns, c) \<Rightarrow> inmem_drain (length (inmem_contents c) + k) (snd (InMem_Close c))
        = map Returns (inmem_contents c) @ replicate k (Returns zero_message)"
proof -
  obtain ms ns c where run: "chan_run InMem_Send InMem_Receive ops (NewInMemoryChannel cfg) = (ms, ns, c)"
    by (metis prod_cases3)
  have "inmem_open (NewInMemoryChannel cfg)" using NewInMemoryChannel_open by simp
  from inmem.run_fifo [OF this run] have "inmem_inv c" by (simp add: inmem_open_def)
  moreover obtain r c1 where close: "InMem_Close c = (r, c1)" by fastforce
  ultimately have "inmem_inv c1" "im_closed c1" "inmem_contents c1 = inmem_contents c"
    using InMem_Close_inv by blast+
  with inmem_drain_closed [of c1 k] run close show ?thesis by simp
qed

text \<open>
  closing races with sending. A \<^verbatim>\<open>Send\<close> that has passed its check of the flag, released
  the lock and then reaches its select after another goroutine's \<^verbatim>\<open>Close\<close> panics on the
  communication arm, on every open channel and for every valid message.
\<close>

theorem inmem_close_race:
  assumes "inmem_open c" and "Message_Validate m = None"
  shows "InMem_Send_check m c = None
    \<and> fst (InMem_Send_select ArmChan m (snd (InMem_Close c))) = Panics ''send on closed channel''"
  using assms by (auto simp: inmem_ops inmem_open_def inmem_inv_def)

theorem inmem_close_race_witness:
  "let c = NewInMemoryChannel \<lparr>imc_BufferSize = 2, imc_Timeout = 5\<rparr>;
       m = zero_message\<lparr>m_ID := ''id'', m_Type := MessageTypeData, m_Source := ''a'', m_Target := ''b''\<rparr>
   in inmem_open c \<and> Message_Validate m = None
      \<and> fst (InMem_Send_select ArmChan m (snd (InMem_Close c))) = Panics ''send on closed channel''"
proof -
  let ?c = "NewInMemoryChannel \<lparr>imc_BufferSize = 2, imc_Timeout = 5\<rparr>"
  let ?m = "zero_message\<lparr>m_ID := ''id'', m_Type := MessageTypeData, m_Source := ''a'', m_Target := ''b''\<rparr>"
  have "inmem_open ?c" using NewInMemoryChannel_open by simp
  moreover have "Message_Validate ?m = None"
    by (simp add: Message_Validate_def MessageTypeData_def)
  ultimately show ?thesis using inmem_close_race [of ?c ?m] by (simp add: Let_def)
qed

end
