(* ===== verification/BufferedChannel.thy ===== *)
theory BufferedChannel
  imports ChannelCore
begin

section \<open>The buffered channel (internal/core/channel/buffered.go)\<close>

text \<open>
  A slice under a lock. A caller that cannot proceed takes the current \<^verbatim>\<open>notify\<close> channel
  under the lock and waits for it; every change of the state closes that channel and installs a
  fresh one. A \<^verbatim>\<open>notify\<close> channel is modelled by its generation: it has been closed
  exactly if the state's generation is a later one.
\<close>

subsection \<open>State and construction\<close>

record BufChan =
  bc_buffer :: "Message list"
  bc_maxSize :: int
  bc_closed :: bool
  bc_notify :: nat
  bc_timeout :: int

record BufConfig =
  bcc_MaxSize :: int
  bcc_Timeout :: int

definition NewBufferedChannel :: "BufConfig \<Rightarrow> BufChan" where
  "NewBufferedChannel config =
     (let size = (if bcc_MaxSize config \<le> 0 then 1000 else bcc_MaxSize config);
          tmo = (if bcc_Timeout config \<le> 0 then seconds 30 else bcc_Timeout config)
      in \<lparr>bc_buffer = [], bc_maxSize = size, bc_closed = False, bc_notify = 0, bc_timeout = tmo\<rparr>)"

definition DefaultBufferedChannel :: "RuntimeConfig \<Rightarrow> BufChan" where
  "DefaultBufferedChannel rc =
     (let cfg = \<lparr>bcc_MaxSize = 1000, bcc_Timeout = seconds 30\<rparr>;
          cfg1 = (if rc_BufferedMaxSize rc > 0
                  then cfg\<lparr>bcc_MaxSize := rc_BufferedMaxSize rc\<rparr> else cfg);
          cfg2 = (if rc_BufferedTimeout rc > 0
                  then cfg1\<lparr>bcc_Timeout := rc_BufferedTimeout rc\<rparr> else cfg1)
      in NewBufferedChannel cfg2)"

subsection \<open>Critical sections\<close>

definition Buf_signal :: "BufChan \<Rightarrow> BufChan" where
  "Buf_signal c = c\<lparr>bc_notify := Suc (bc_notify c)\<rparr>"

text \<open>
  One round of the loop in \<^verbatim>\<open>Send\<close> and \<^verbatim>\<open>Receive\<close>, from lock to unlock;
  \<open>Blocks\<close> goes on to wait for the \<^verbatim>\<open>notify\<close> channel of the state.
\<close>

definition Buf_Send_round :: "Message \<Rightarrow> BufChan \<Rightarrow> (chan_error, unit) outcome \<times> BufChan" where
  "Buf_Send_round m c =
     (if bc_closed c then (Fails ErrChannelClosed, c)
      else if int (length (bc_buffer c)) < bc_maxSize c
      then (Returns (), Buf_signal (c\<lparr>bc_buffer := bc_buffer c @ [m]\<rparr>))
      else (Blocks, c))"

definition Buf_Receive_round :: "BufChan \<Rightarrow> (chan_error, Message) outcome \<times> BufChan" where
  "Buf_Receive_round c =
     (case bc_buffer c of
        m # ms \<Rightarrow> (Returns m, Buf_signal (c\<lparr>bc_buffer := ms\<rparr>))
      | [] \<Rightarrow> if bc_closed c then (Fails ErrChannelClosed, c) else (Blocks, c))"

definition Buf_Close :: "BufChan \<Rightarrow> BufChan" where
  "Buf_Close c = (if bc_closed c then c else Buf_signal (c\<lparr>bc_closed := True\<rparr>))"

definition Buf_Clear :: "BufChan \<Rightarrow> BufChan" where
  "Buf_Clear c = Buf_signal (c\<lparr>bc_buffer := []\<rparr>)"

text \<open>
  How a round that has to wait ends: by the context, by the deadline, or (\<open>ArmChan\<close>) it is
  still waiting for a change, after which the next round runs.
\<close>

definition wait_result :: "select_arm \<Rightarrow> (chan_error, 'a) outcome" where
  "wait_result arm =
     (case arm of ArmChan \<Rightarrow> Blocks | ArmCtx \<Rightarrow> Fails ErrContext | ArmTimeout \<Rightarrow> Fails ErrTimeout)"

definition Buf_Send ::
  "select_arm \<Rightarrow> Message \<Rightarrow> BufChan \<Rightarrow> (chan_error, unit) outcome \<times> BufChan" where
  "Buf_Send arm m c =
     (case Message_Validate m of
        Some err \<Rightarrow> (Fails err, c)
      | None \<Rightarrow>
          (case Buf_Send_round m c of
             (Blocks, c') \<Rightarrow> (wait_result arm, c')
           | (r, c') \<Rightarrow> (r, c')))"

definition Buf_Receive ::
  "select_arm \<Rightarrow> BufChan \<Rightarrow> (chan_error, Message) outcome \<times> BufChan" where
  "Buf_Receive arm c =
     (case Buf_Receive_round c of
        (Blocks, c') \<Rightarrow> (wait_result arm, c')
      | (r, c') \<Rightarrow> (r, c'))"

definition Buf_Len :: "BufChan \<Rightarrow> nat" where
  "Buf_Len c = length (bc_buffer c)"

definition Buf_Cap :: "BufChan \<Rightarrow> int" where
  "Buf_Cap c = bc_maxSize c"

definition Buf_IsClosed :: "BufChan \<Rightarrow> bool" where
  "Buf_IsClosed c = bc_closed c"

record BufStats =
  bs_Length :: nat
  bs_Capacity :: int
  bs_Closed :: bool

definition Buf_Stats :: "BufChan \<Rightarrow> BufStats" where
  "Buf_Stats c = \<lparr>bs_Length = length (bc_buffer c), bs_Capacity = bc_maxSize c, bs_Closed = bc_closed c\<rparr>"

lemmas buf_ops = Buf_Send_def Buf_Receive_def Buf_Send_round_def Buf_Receive_round_def
  Buf_signal_def wait_result_def

subsection \<open>Contract\<close>

definition buf_inv :: "BufChan \<Rightarrow> bool" where
  "buf_inv c \<longleftrightarrow> int (length (bc_buffer c)) \<le> bc_maxSize c \<and> 0 < bc_maxSize c"

lemma NewBufferedChannel_inv:
  "buf_inv (NewBufferedChannel cfg) \<and> bc_buffer (NewBufferedChannel cfg) = []
    \<and> \<not> bc_closed (NewBufferedChannel cfg) \<and> 0 < bc_timeout (NewBufferedChannel cfg)"
  by (simp add: NewBufferedChannel_def buf_inv_def Let_def)

lemma Buf_Send_contents:
  "Buf_Send a m c = (r, c') \<Longrightarrow>
    bc_buffer c' = (if r = Returns () then bc_buffer c @ [m] else bc_buffer c)"
  by (auto simp: buf_ops split: option.splits if_splits select_arm.splits)

lemma Buf_Receive_contents:
  "Buf_Receive a c = (q, c') \<Longrightarrow>
    bc_buffer c = (case q of Returns m \<Rightarrow> m # bc_buffer c' | _ \<Rightarrow> bc_buffer c')"
  by (auto simp: buf_ops split: list.splits if_splits select_arm.splits)

lemma Buf_Send_inv [fg_inv]: "buf_inv c \<Longrightarrow> Buf_Send a m c = (r, c') \<Longrightarrow> buf_inv c'"
  by (auto simp: buf_ops buf_inv_def split: option.splits if_splits select_arm.splits)

lemma Buf_Receive_inv [fg_inv]: "buf_inv c \<Longrightarrow> Buf_Receive a c = (q, c') \<Longrightarrow> buf_inv c'"
  by (auto simp: buf_ops buf_inv_def split: list.splits if_splits select_arm.splits)

lemma Buf_capacity:
  "Buf_Send a m c = (r, c') \<Longrightarrow> Buf_Cap c' = Buf_Cap c"
  "Buf_Receive a c = (q, c') \<Longrightarrow> Buf_Cap c' = Buf_Cap c"
  by (auto simp: buf_ops Buf_Cap_def split: option.splits list.splits if_splits select_arm.splits)

interpretation buf: bounded_channel Buf_Send Buf_Receive bc_buffer "\<lambda>m. m" buf_inv "\<lambda>c. nat (Buf_Cap c)"
proof unfold_locales
  show "buf_inv c \<Longrightarrow> length (bc_buffer c) \<le> nat (Buf_Cap c)" for c
    by (auto simp: buf_inv_def Buf_Cap_def)
  show "Buf_Send a m c = (r, c') \<Longrightarrow> nat (Buf_Cap c') = nat (Buf_Cap c)" for a m c r c'
    by (simp add: Buf_capacity)
  show "Buf_Receive a c = (q, c') \<Longrightarrow> nat (Buf_Cap c') = nat (Buf_Cap c)" for a c q c'
    by (simp add: Buf_capacity)
qed (erule Buf_Send_inv Buf_Receive_inv Buf_Send_contents Buf_Receive_contents, assumption?)+

subsection \<open>Concurrent callers\<close>

text \<open>
  Any number of goroutines call the channel. A waiting one is recorded with the operation and the
  generation of the \<^verbatim>\<open>notify\<close> channel it waits for. The steps are the critical sections;
  a waiter runs its next round only after its \<^verbatim>\<open>notify\<close> channel has been closed, and may
  give up by its context or deadline at any time.
\<close>

datatype waiter = WaitSend Message nat | WaitReceive nat

record BufSys =
  bsys_chan :: BufChan
  bsys_waiting :: "nat \<rightharpoonup> waiter"

definition after_send :: "nat \<Rightarrow> Message \<Rightarrow> BufSys \<Rightarrow> BufSys" where
  "after_send t m s =
     (case Buf_Send_round m (bsys_chan s) of
        (r, c) \<Rightarrow> s\<lparr>bsys_chan := c, bsys_waiting := (bsys_waiting s)
          (t := if r = Blocks then Some (WaitSend m (bc_notify c)) else None)\<rparr>)"

definition after_receive :: "nat \<Rightarrow> BufSys \<Rightarrow> BufSys" where
  "after_receive t s =
     (case Buf_Receive_round (bsys_chan s) of
        (q, c) \<Rightarrow> s\<lparr>bsys_chan := c, bsys_waiting := (bsys_waiting s)
          (t := if q = Blocks then Some (WaitReceive (bc_notify c)) else None)\<rparr>)"

text \<open>A waiter whose \<^verbatim>\<open>notify\<close> channel has been closed runs its next round.\<close>

inductive buf_wake :: "nat \<Rightarrow> BufSys \<Rightarrow> BufSys \<Rightarrow> bool" where
  wake_send: "bsys_waiting s t = Some (WaitSend m g) \<Longrightarrow> g \<noteq> bc_notify (bsys_chan s) \<Longrightarrow>
    buf_wake t s (after_send t m s)"
| wake_receive: "bsys_waiting s t = Some (WaitReceive g) \<Longrightarrow> g \<noteq> bc_notify (bsys_chan s) \<Longrightarrow>
    buf_wake t s (after_receive t s)"

inductive buf_step :: "BufSys \<Rightarrow> BufSys \<Rightarrow> bool" where
  call_send: "bsys_waiting s t = None \<Longrightarrow> Message_Validate m = None \<Longrightarrow> buf_step s (after_send t m s)"
| call_receive: "bsys_waiting s t = None \<Longrightarrow> buf_step s (after_receive t s)"
| wake: "buf_wake t s s' \<Longrightarrow> buf_step s s'"
| give_up: "bsys_waiting s t = Some w \<Longrightarrow>
    buf_step s (s\<lparr>bsys_waiting := (bsys_waiting s)(t := None)\<rparr>)"
| close_chan: "buf_step s (s\<lparr>bsys_chan := Buf_Close (bsys_chan s)\<rparr>)"
| clear_chan: "buf_step s (s\<lparr>bsys_chan := Buf_Clear (bsys_chan s)\<rparr>)"

inductive buf_reachable :: "BufConfig \<Rightarrow> BufSys \<Rightarrow> bool" for cfg where
  buf_start: "buf_reachable cfg \<lparr>bsys_chan = NewBufferedChannel cfg, bsys_waiting = Map.empty\<rparr>"
| buf_next: "buf_reachable cfg s \<Longrightarrow> buf_step s s' \<Longrightarrow> buf_reachable cfg s'"

text \<open>A waiter that has not been notified has nothing to do.\<close>

definition must_wait :: "waiter \<Rightarrow> BufChan \<Rightarrow> bool" where
  "must_wait w c \<longleftrightarrow> \<not> bc_closed c \<and>
     (case w of WaitSend m g \<Rightarrow> bc_maxSize c \<le> int (length (bc_buffer c))
      | WaitReceive g \<Rightarrow> bc_buffer c = [])"

fun generation :: "waiter \<Rightarrow> nat" where
  "generation (WaitSend m g) = g"
| "generation (WaitReceive g) = g"

definition buf_sys_inv :: "BufSys \<Rightarrow> bool" where
  "buf_sys_inv s \<longleftrightarrow> buf_inv (bsys_chan s) \<and>
     (\<forall>t w. bsys_waiting s t = Some w \<longrightarrow> generation w \<le> bc_notify (bsys_chan s) \<and>
        (generation w = bc_notify (bsys_chan s) \<longrightarrow> must_wait w (bsys_chan s)))"

lemma buf_sys_inv_chan:
  assumes "buf_sys_inv s" and "buf_inv c'"
    and "c' = bsys_chan s \<or> bc_notify (bsys_chan s) < bc_notify c'"
  shows "buf_sys_inv (s\<lparr>bsys_chan := c'\<rparr>)"
proof -
  have "generation w \<le> bc_notify c' \<and> (generation w = bc_notify c' \<longrightarrow> must_wait w c')"
    if "bsys_waiting s t = Some w" for t w
  proof -
    have g: "generation w \<le> bc_notify (bsys_chan s)"
      "generation w = bc_notify (bsys_chan s) \<longrightarrow> must_wait w (bsys_chan s)"
      using assms(1) that by (auto simp: buf_sys_inv_def)
    from assms(3) show ?thesis
    proof
      assume "bc_notify (bsys_chan s) < bc_notify c'"
      with g(1) show ?thesis by simp
    qed (use g in simp)
  qed
  with assms(2) show ?thesis by (simp add: buf_sys_inv_def)
qed

lemma buf_sys_inv_waiter:
  assumes "buf_sys_inv s"
    and "\<And>w. w' = Some w \<Longrightarrow> generation w = bc_notify (bsys_chan s) \<and> must_wait w (bsys_chan s)"
  shows "buf_sys_inv (s\<lparr>bsys_waiting := (bsys_waiting s)(t := w')\<rparr>)"
  using assms by (simp add: buf_sys_inv_def)

lemma after_send_inv: "buf_sys_inv s \<Longrightarrow> buf_sys_inv (after_send t m s)"
proof -
  assume inv: "buf_sys_inv s"
  obtain r c where round: "Buf_Send_round m (bsys_chan s) = (r, c)" by fastforce
  have "buf_sys_inv (s\<lparr>bsys_chan := c\<rparr>)"
    using round inv by (intro buf_sys_inv_chan)
      (auto simp: Buf_Send_round_def Buf_signal_def buf_inv_def buf_sys_inv_def split: if_splits)
  then have "buf_sys_inv (s\<lparr>bsys_chan := c, bsys_waiting := (bsys_waiting (s\<lparr>bsys_chan := c\<rparr>))
      (t := if r = Blocks then Some (WaitSend m (bc_notify c)) else None)\<rparr>)"
    by (rule buf_sys_inv_waiter)
      (use round in \<open>auto simp: Buf_Send_round_def must_wait_def split: if_splits\<close>)
  with round show ?thesis by (simp add: after_send_def)
qed

lemma after_receive_inv: "buf_sys_inv s \<Longrightarrow> buf_sys_inv (after_receive t s)"
proof -
  assume inv: "buf_sys_inv s"
  obtain q c where round: "Buf_Receive_round (bsys_chan s) = (q, c)" by fastforce
  have "buf_sys_inv (s\<lparr>bsys_chan := c\<rparr>)"
    using round inv by (intro buf_sys_inv_chan)
      (auto simp: Buf_Receive_round_def Buf_signal_def buf_inv_def buf_sys_inv_def
        split: if_splits list.splits)
  then have "buf_sys_inv (s\<lparr>bsys_chan := c, bsys_waiting := (bsys_waiting (s\<lparr>bsys_chan := c\<rparr>))
      (t := if q = Blocks then Some (WaitReceive (bc_notify c)) else None)\<rparr>)"
    by (rule buf_sys_inv_waiter)
      (use round in \<open>auto simp: Buf_Receive_round_def must_wait_def split: if_splits list.splits\<close>)
  with round show ?thesis by (simp add: after_receive_def)
qed

lemma buf_wake_inv: "buf_wake t s s' \<Longrightarrow> buf_sys_inv s \<Longrightarrow> buf_sys_inv s'"
  by (induction rule: buf_wake.induct) (auto intro: after_send_inv after_receive_inv)

lemma buf_step_inv [fg_inv]: "buf_step s s' \<Longrightarrow> buf_sys_inv s \<Longrightarrow> buf_sys_inv s'"
proof (induction rule: buf_step.induct)
  case (give_up s t w)
  then show ?case by (intro buf_sys_inv_waiter) auto
next
  case (close_chan s)
  then show ?case
    by (intro buf_sys_inv_chan) (auto simp: Buf_Close_def Buf_signal_def buf_inv_def buf_sys_inv_def)
next
  case (clear_chan s)
  then show ?case
    by (intro buf_sys_inv_chan) (auto simp: Buf_Clear_def Buf_signal_def buf_inv_def buf_sys_inv_def)
qed (auto intro: after_send_inv after_receive_inv buf_wake_inv)

lemma buf_reachable_inv: "buf_reachable cfg s \<Longrightarrow> buf_sys_inv s"
proof (induction rule: buf_reachable.induct)
  case buf_start
  then show ?case using NewBufferedChannel_inv [of cfg] by (simp add: buf_sys_inv_def)
qed (rule buf_step_inv)

subsection \<open>Properties\<close>

text \<open>
  first in, first out with back pressure on a new buffered channel, for every sequence of sends
  and receives and however their waits end.
\<close>

theorem buf_fifo:
  "case chan_run Buf_Send Buf_Receive ops (NewBufferedChannel cfg) of
     (ms, ns, c) \<Rightarrow> ms = ns @ bc_buffer c
        \<and> int (length ms) \<le> int (length ns) + Buf_Cap (NewBufferedChannel cfg)"
proof -
  obtain ms ns c where run: "chan_run Buf_Send Buf_Receive ops (NewBufferedChannel cfg) = (ms, ns, c)"
    by (metis prod_cases3)
  from NewBufferedChannel_inv have start: "buf_inv (NewBufferedChannel cfg)"
      "bc_buffer (NewBufferedChannel cfg) = []" by auto
  have "0 < Buf_Cap (NewBufferedChannel cfg)" using start(1) by (simp add: buf_inv_def Buf_Cap_def)
  then show ?thesis
    using buf.run_from_empty [OF start run] buf.run_backlog [OF start run] run by simp
qed

text \<open>A waiter that is not held up would be answered by its next round.\<close>

definition round_answers :: "waiter \<Rightarrow> BufChan \<Rightarrow> bool" where
  "round_answers w c = (case w of WaitSend m g \<Rightarrow> fst (Buf_Send_round m c) \<noteq> Blocks
     | WaitReceive g \<Rightarrow> fst (Buf_Receive_round c) \<noteq> Blocks)"

lemma round_answers_iff: "round_answers w c \<longleftrightarrow> \<not> must_wait w c"
  by (auto simp: round_answers_def must_wait_def Buf_Send_round_def Buf_Receive_round_def
      split: waiter.splits list.splits)

lemma woken:
  assumes "bsys_waiting s t = Some w" and "generation w \<noteq> bc_notify (bsys_chan s)"
    and "round_answers w (bsys_chan s)"
  shows "\<exists>s'. buf_wake t s s' \<and> bsys_waiting s' t = None"
proof (cases w)
  case (WaitSend m g)
  have "buf_wake t s (after_send t m s)"
    by (rule wake_send) (use assms WaitSend in auto)
  moreover have "bsys_waiting (after_send t m s) t = None"
    using assms(3) WaitSend by (auto simp: after_send_def round_answers_def split: prod.splits)
  ultimately show ?thesis by blast
next
  case (WaitReceive g)
  have "buf_wake t s (after_receive t s)"
    by (rule wake_receive) (use assms WaitReceive in auto)
  moreover have "bsys_waiting (after_receive t s) t = None"
    using assms(3) WaitReceive by (auto simp: after_receive_def round_answers_def split: prod.splits)
  ultimately show ?thesis by blast
qed

text \<open>
  C10: no lost wake-up. In every state that concurrent senders, receivers, closers and clearers can
  reach, a waiting caller whose operation could proceed now (its round would answer: a sender while
  there is room or the channel is closed, a receiver while there is a message or the channel is
  closed) has been notified: the \<^verbatim>\<open>notify\<close> channel it waits for has been closed, so that it can
  wake, without its deadline or its context, and is answered then. A caller whose \<^verbatim>\<open>notify\<close>
  channel is still open would have to wait again: the channel is open, and full for a sender, empty
  for a receiver. The buffer never exceeds its bound.
\<close>

theorem buf_no_lost_wakeup:
  assumes "buf_reachable cfg s" and "bsys_waiting s t = Some w"
  shows "int (length (bc_buffer (bsys_chan s))) \<le> bc_maxSize (bsys_chan s)
    \<and> (round_answers w (bsys_chan s) \<longrightarrow> generation w < bc_notify (bsys_chan s)
        \<and> (\<exists>s'. buf_wake t s s' \<and> bsys_waiting s' t = None))
    \<and> (generation w = bc_notify (bsys_chan s) \<longrightarrow> must_wait w (bsys_chan s))"
proof -
  have inv: "buf_sys_inv s" by (rule buf_reachable_inv) fact
  then have g: "generation w \<le> bc_notify (bsys_chan s)"
    "generation w = bc_notify (bsys_chan s) \<longrightarrow> must_wait w (bsys_chan s)"
    using assms(2) by (auto simp: buf_sys_inv_def)
  moreover have "generation w \<noteq> bc_notify (bsys_chan s)" if "round_answers w (bsys_chan s)"
    using that g(2) by (auto simp: round_answers_iff)
  moreover have "int (length (bc_buffer (bsys_chan s))) \<le> bc_maxSize (bsys_chan s)"
    using inv by (simp add: buf_sys_inv_def buf_inv_def)
  ultimately show ?thesis using woken [OF assms(2)] by auto
qed

text \<open>
  Two receivers of an empty channel wait; the channel is closed; each of them is a waiter of the
  theorem and wakes, and so does the receiver for which a sender fills the buffer.
\<close>

definition wakeup_message :: Message where
  "wakeup_message = zero_message\<lparr>m_ID := ''id'', m_Type := MessageTypeData, m_Source := ''a'', m_Target := ''b''\<rparr>"

definition wakeup_start :: BufSys where
  "wakeup_start = \<lparr>bsys_chan = NewBufferedChannel \<lparr>bcc_MaxSize = 1, bcc_Timeout = 5\<rparr>, bsys_waiting = Map.empty\<rparr>"

theorem buf_no_lost_wakeup_witness:
  "let s1 = after_receive 2 (after_receive 0 wakeup_start);
       closed = s1\<lparr>bsys_chan := Buf_Close (bsys_chan s1)\<rparr>;
       sent = after_send 3 wakeup_message s1
   in bsys_waiting closed 0 = Some (WaitReceive 0) \<and> (\<exists>s'. buf_wake 0 closed s' \<and> bsys_waiting s' 0 = None)
      \<and> (\<exists>s'. buf_wake 2 sent s' \<and> bsys_waiting s' 2 = None)"
proof -
  let ?s1 = "after_receive 2 (after_receive 0 wakeup_start)"
  let ?closed = "?s1\<lparr>bsys_chan := Buf_Close (bsys_chan ?s1)\<rparr>"
  let ?sent = "after_send 3 wakeup_message ?s1"
  let ?cfg = "\<lparr>bcc_MaxSize = 1, bcc_Timeout = 5\<rparr>"
  have first: "after_receive 0 wakeup_start = wakeup_start\<lparr>bsys_waiting := [0 \<mapsto> WaitReceive 0]\<rparr>"
    by (simp add: wakeup_start_def after_receive_def Buf_Receive_round_def NewBufferedChannel_def)
  have s1: "?s1 = wakeup_start\<lparr>bsys_waiting := [0 \<mapsto> WaitReceive 0, 2 \<mapsto> WaitReceive 0]\<rparr>"
    unfolding first
    by (simp add: wakeup_start_def after_receive_def Buf_Receive_round_def NewBufferedChannel_def)
  have "buf_reachable ?cfg (after_receive 0 wakeup_start)"
    unfolding wakeup_start_def by (rule buf_next [OF buf_start call_receive]) simp
  then have reach1: "buf_reachable ?cfg ?s1"
    by (rule buf_next) (rule call_receive, simp add: first)
  then have closed: "buf_reachable ?cfg ?closed" by (rule buf_next) (rule close_chan)
  have sent: "buf_reachable ?cfg ?sent"
    by (rule buf_next [OF reach1])
      (rule call_send, simp_all add: s1 wakeup_message_def Message_Validate_def MessageTypeData_def)
  have waits: "bsys_waiting ?closed 0 = Some (WaitReceive 0)" "bsys_waiting ?sent 2 = Some (WaitReceive 0)"
    by (simp_all add: s1 after_send_def split: prod.splits)
  have "round_answers (WaitReceive 0) (bsys_chan ?closed)"
    by (simp add: s1 round_answers_iff must_wait_def Buf_Close_def Buf_signal_def)
  moreover have "round_answers (WaitReceive 0) (bsys_chan ?sent)"
    unfolding s1 by (simp add: round_answers_iff must_wait_def after_send_def Buf_Send_round_def
        Buf_signal_def wakeup_start_def NewBufferedChannel_def)
  ultimately show ?thesis
    using buf_no_lost_wakeup [OF closed waits(1)] buf_no_lost_wakeup [OF sent waits(2)] waits(1)
    by (simp add: Let_def)
qed

text \<open>The results of \<open>k\<close> receives in a row.\<close>

fun buf_drain :: "nat \<Rightarrow> BufChan \<Rightarrow> (chan_error, Message) outcome list" where
  "buf_drain 0 c = []"
| "buf_drain (Suc k) c = (case Buf_Receive ArmChan c of (q, c') \<Rightarrow> q # buf_drain k c')"

text \<open>
  \<^verbatim>\<open>Close\<close> is graceful: on any buffered channel, open or closed, the receives after
  \<^verbatim>\<open>Close\<close> deliver every buffered message in order and then fail with
  \<^verbatim>\<open>ErrChannelClosed\<close>, and every send fails with the same error.
\<close>

theorem buf_close_drains:
  "buf_drain (length (bc_buffer c) + k) (Buf_Close c)
     = map Returns (bc_buffer c) @ replicate k (Fails ErrChannelClosed)
   \<and> fst (Buf_Send a m (Buf_Close c))
     = Fails (case Message_Validate m of Some err \<Rightarrow> err | None \<Rightarrow> ErrChannelClosed)"
proof -
  have drain: "buf_drain (length (bc_buffer c) + k) c
      = map Returns (bc_buffer c) @ replicate k (Fails ErrChannelClosed)" if "bc_closed c" for c
    using that
  proof (induction "bc_buffer c" arbitrary: c)
    case Nil
    have "buf_drain k c = replicate k (Fails ErrChannelClosed)"
    proof (induction k)
      case (Suc k)
      with Nil show ?case by (simp add: Buf_Receive_def Buf_Receive_round_def)
    qed simp
    with Nil show ?case by simp
  next
    case (Cons m ms)
    let ?c = "Buf_signal (c\<lparr>bc_buffer := ms\<rparr>)"
    have "Buf_Receive ArmChan c = (Returns m, ?c)"
      by (simp add: Buf_Receive_def Buf_Receive_round_def flip: Cons.hyps(2))
    then show ?case
      using Cons.hyps(1) [of ?c] Cons.prems by (simp add: Buf_signal_def flip: Cons.hyps(2))
  qed
  have closed: "bc_closed (Buf_Close c)" "bc_buffer (Buf_Close c) = bc_buffer c"
    by (simp_all add: Buf_Close_def Buf_signal_def)
  then show ?thesis
    using drain [OF closed(1)]
    by (auto simp: Buf_Send_def Buf_Send_round_def split: option.splits)
qed

end
