(* ===== verification/Reducers.thy ===== *)
theory Reducers
  imports GoValue "HOL-Library.Char_ord" "HOL-Library.List_Lexorder"
begin

section \<open>State reducers (internal/core/channel/reducers.go)\<close>

text \<open>
  The five ways to combine a state with an update. Each copies the current map and then ranges
  over the update, combining the values of common keys; only the combination differs, so
  \<open>reduce_with\<close> is the loop that the five \<^verbatim>\<open>Reduce\<close> methods share in the source's text.
  \<^verbatim>\<open>AppendReducer\<close> works by reflection and can panic: its values are options, \<open>None\<close>
  for the panic.
\<close>

subsection \<open>The shared loop\<close>

definition reduce_entry ::
  "(gval \<Rightarrow> gval \<Rightarrow> gval) \<Rightarrow> gstate \<Rightarrow> string \<Rightarrow> gstate \<Rightarrow> gstate" where
  "reduce_entry f update key result =
     (case update key of
        None \<Rightarrow> result
      | Some uv \<Rightarrow>
          (case result key of
             Some cv \<Rightarrow> result(key \<mapsto> f cv uv)
           | None \<Rightarrow> result(key \<mapsto> uv)))"

definition reduce_with ::
  "(gval \<Rightarrow> gval \<Rightarrow> gval) \<Rightarrow> string list \<Rightarrow> string list \<Rightarrow> gstate \<Rightarrow> gstate \<Rightarrow> gstate" where
  "reduce_with f cks uks current update =
     fold (reduce_entry f update) uks (range_copy current cks Map.empty)"

subsection \<open>The combinations\<close>

text \<open>\<^verbatim>\<open>mergeValues\<close>, by recursion on the update.\<close>

primrec merge_update :: "gval \<Rightarrow> gval \<Rightarrow> gval" where
  "merge_update VNil cur = VNil"
| "merge_update (VBool b) cur = VBool b"
| "merge_update (VInt n) cur = VInt n"
| "merge_update (VInt64 n) cur = VInt64 n"
| "merge_update (VFloat x) cur = VFloat x"
| "merge_update (VStr s) cur = VStr s"
| "merge_update (VList xs) cur = VList xs"
| "merge_update (VStrs xs) cur = VStrs xs"
| "merge_update (VMap um) cur =
     (case cur of
        VMap cm \<Rightarrow>
          VMap (\<lambda>k. case map_option merge_update (um k) of
                  None \<Rightarrow> cm k
                | Some f \<Rightarrow> (case cm k of Some existing \<Rightarrow> Some (f existing) | None \<Rightarrow> um k))
      | _ \<Rightarrow> VMap um)"
| "merge_update (VFloatMap m) cur = VFloatMap m"
| "merge_update (VTime t) cur = VTime t"
| "merge_update (VDuration d) cur = VDuration d"
| "merge_update (VConfig c) cur = VConfig c"

definition mergeValues :: "gval \<Rightarrow> gval \<Rightarrow> gval" where
  "mergeValues current update = merge_update update current"

fun maxValue :: "gval \<Rightarrow> gval \<Rightarrow> gval" where
  "maxValue (VInt c) update =
     (case update of VInt u \<Rightarrow> if sint c < sint u then VInt u else VInt c | _ \<Rightarrow> VInt c)"
| "maxValue (VInt64 c) update =
     (case update of VInt64 u \<Rightarrow> if sint c < sint u then VInt64 u else VInt64 c | _ \<Rightarrow> VInt64 c)"
| "maxValue (VFloat c) update =
     (case update of VFloat u \<Rightarrow> if f_less c u then VFloat u else VFloat c | _ \<Rightarrow> VFloat c)"
| "maxValue (VStr c) update =
     (case update of VStr u \<Rightarrow> if c < u then VStr u else VStr c | _ \<Rightarrow> VStr c)"
| "maxValue current update = update"

fun minValue :: "gval \<Rightarrow> gval \<Rightarrow> gval" where
  "minValue (VInt c) update =
     (case update of VInt u \<Rightarrow> if sint u < sint c then VInt u else VInt c | _ \<Rightarrow> VInt c)"
| "minValue (VInt64 c) update =
     (case update of VInt64 u \<Rightarrow> if sint u < sint c then VInt64 u else VInt64 c | _ \<Rightarrow> VInt64 c)"
| "minValue (VFloat c) update =
     (case update of VFloat u \<Rightarrow> if f_less u c then VFloat u else VFloat c | _ \<Rightarrow> VFloat c)"
| "minValue (VStr c) update =
     (case update of VStr u \<Rightarrow> if u < c then VStr u else VStr c | _ \<Rightarrow> VStr c)"
| "minValue current update = update"

text \<open>
  \<^verbatim>\<open>appendValues\<close>. The slices of the model are \<^verbatim>\<open>[]interface{}\<close> and
  \<^verbatim>\<open>[]string\<close>. \<^verbatim>\<open>reflect.AppendSlice\<close> panics on different element types,
  \<^verbatim>\<open>reflect.Append\<close> on an element that is not assignable to the element type, which the
  zero \<^verbatim>\<open>reflect.Value\<close> of nil never is.
\<close>

definition reflect_append_elem :: "gval \<Rightarrow> gval \<Rightarrow> gval option" where
  "reflect_append_elem sl x =
     (case sl of
        VList xs \<Rightarrow> if x = VNil then None else Some (VList (xs @ [x]))
      | VStrs xs \<Rightarrow> (case x of VStr s \<Rightarrow> Some (VStrs (xs @ [s])) | _ \<Rightarrow> None)
      | _ \<Rightarrow> None)"

definition reflect_append_slice :: "gval \<Rightarrow> gval \<Rightarrow> gval option" where
  "reflect_append_slice a b =
     (case (a, b) of
        (VList xs, VList ys) \<Rightarrow> Some (VList (xs @ ys))
      | (VStrs xs, VStrs ys) \<Rightarrow> Some (VStrs (xs @ ys))
      | _ \<Rightarrow> None)"

definition is_slice :: "gval \<Rightarrow> bool" where
  "is_slice v = (case v of VList _ \<Rightarrow> True | VStrs _ \<Rightarrow> True | _ \<Rightarrow> False)"

definition make_slice_like :: "gval \<Rightarrow> gval" where
  "make_slice_like v = (case v of VStrs _ \<Rightarrow> VStrs [] | _ \<Rightarrow> VList [])"

definition appendValues :: "gval \<Rightarrow> gval \<Rightarrow> gval option" where
  "appendValues current update =
     (if is_slice current \<and> is_slice update then reflect_append_slice current update
      else if is_slice current then reflect_append_elem current update
      else if is_slice update then
        (case reflect_append_elem (make_slice_like update) current of
           None \<Rightarrow> None
         | Some newSlice \<Rightarrow> reflect_append_slice newSlice update)
      else Some (VList [current, update]))"

subsection \<open>The reducers\<close>

text \<open>\<open>cks\<close> and \<open>uks\<close> are the orders of the loops over the current map and the update.\<close>

definition MergeReducer_Reduce where
  "MergeReducer_Reduce = reduce_with mergeValues"

definition ReplaceReducer_Reduce where
  "ReplaceReducer_Reduce = reduce_with (\<lambda>current update. update)"

definition MaxReducer_Reduce where
  "MaxReducer_Reduce = reduce_with maxValue"

definition MinReducer_Reduce where
  "MinReducer_Reduce = reduce_with minValue"

fun append_loop :: "gstate \<Rightarrow> string list \<Rightarrow> gstate \<Rightarrow> gstate option" where
  "append_loop update [] result = Some result"
| "append_loop update (key # ks) result =
     (case update key of
        None \<Rightarrow> append_loop update ks result
      | Some uv \<Rightarrow>
          (case result key of
             Some cv \<Rightarrow>
               (case appendValues cv uv of
                  None \<Rightarrow> None
                | Some v \<Rightarrow> append_loop update ks (result(key \<mapsto> v)))
           | None \<Rightarrow> append_loop update ks (result(key \<mapsto> uv))))"

definition AppendReducer_Reduce ::
  "string list \<Rightarrow> string list \<Rightarrow> gstate \<Rightarrow> gstate \<Rightarrow> gstate option" where
  "AppendReducer_Reduce cks uks current update =
     append_loop update uks (range_copy current cks Map.empty)"

datatype reducer = AppendReducer | MergeReducer | ReplaceReducer | MaxReducer | MinReducer

text \<open>\<^verbatim>\<open>NewStateReducer\<close>: \<open>Inl\<close> is the error with the unknown type.\<close>

definition NewStateReducer :: "string \<Rightarrow> string + reducer" where
  "NewStateReducer t =
     (if t = ''append'' then Inr AppendReducer
      else if t = ''merge'' then Inr MergeReducer
      else if t = ''replace'' then Inr ReplaceReducer
      else if t = ''max'' then Inr MaxReducer
      else if t = ''min'' then Inr MinReducer
      else Inl (''unknown reducer type: '' @ t))"

definition Reduce :: "reducer \<Rightarrow> string list \<Rightarrow> string list \<Rightarrow> gstate \<Rightarrow> gstate \<Rightarrow> gstate option" where
  "Reduce r cks uks current update =
     (case r of
        AppendReducer \<Rightarrow> AppendReducer_Reduce cks uks current update
      | MergeReducer \<Rightarrow> Some (MergeReducer_Reduce cks uks current update)
      | ReplaceReducer \<Rightarrow> Some (ReplaceReducer_Reduce cks uks current update)
      | MaxReducer \<Rightarrow> Some (MaxReducer_Reduce cks uks current update)
      | MinReducer \<Rightarrow> Some (MinReducer_Reduce cks uks current update))"

subsection \<open>What a reducer computes, key by key\<close>

text \<open>The pointwise specification: independent of the orders of the two loops.\<close>

definition combined :: "(gval \<Rightarrow> gval \<Rightarrow> gval) \<Rightarrow> gstate \<Rightarrow> gstate \<Rightarrow> gstate" where
  "combined f current update = (\<lambda>k.
     case update k of
       None \<Rightarrow> current k
     | Some u \<Rightarrow> (case current k of Some c \<Rightarrow> Some (f c u) | None \<Rightarrow> Some u))"

lemma reduce_loop:
  "distinct uks \<Longrightarrow> fold (reduce_entry f update) uks result k
     = (if k \<in> set uks then combined f result update k else result k)"
  by (induction uks arbitrary: result)
    (auto simp: reduce_entry_def combined_def split: option.splits)

lemma reduce_with_combined:
  assumes "map_order current cks" and "map_order update uks"
  shows "reduce_with f cks uks current update = combined f current update"
proof
  fix k
  show "reduce_with f cks uks current update k = combined f current update k"
    using assms(2) map_order_in [OF assms(2), of k]
    by (auto simp: reduce_with_def range_copy_add [OF assms(1)] reduce_loop map_order_def
        combined_def split: option.splits)
qed

text \<open>Applying an update a second time changes nothing, if it changes no single value.\<close>

lemma combined_twice:
  assumes "\<And>c u. f (f c u) u = f c u" and "\<And>u. f u u = u"
  shows "combined f (combined f s u) u = combined f s u"
  by (rule ext) (auto simp: combined_def assms split: option.splits)

lemma dom_combined: "dom (combined f s u) = dom s \<union> dom u"
  by (auto simp: combined_def dom_def split: option.splits)

subsection \<open>The combinations absorb a repeated update\<close>

lemma merge_idem: "merge_update v v = v"
proof (induction v)
  case (VMap m)
  have "merge_update u u = u" if "m k = Some u" for k u
    using VMap.IH [of "m k" u] that by (metis option.set_intros rangeI)
  then show ?case by (auto simp: fun_eq_iff split: option.splits)
qed simp_all

lemma merge_twice: "merge_update u (merge_update u c) = merge_update u c"
proof (induction u arbitrary: c)
  case (VMap m)
  have IH: "merge_update u (merge_update u c) = merge_update u c" if "m k = Some u" for k u c
    using VMap.IH [of "m k" u] that by (metis option.set_intros rangeI)
  show ?case
  proof (cases c)
    case (VMap cm)
    with IH show ?thesis
      by (auto simp: fun_eq_iff merge_idem split: option.splits)
  qed (simp_all add: merge_idem del: merge_update.simps(9), simp_all add: merge_idem [of "VMap m", simplified])
qed simp_all

lemma maxValue_twice: "maxValue (maxValue c u) u = maxValue c u" "maxValue u u = u"
  by (cases c; cases u; simp) (cases u; simp)

lemma minValue_twice: "minValue (minValue c u) u = minValue c u" "minValue u u = u"
  by (cases c; cases u; simp) (cases u; simp)

text \<open>The combination of each reducer; \<open>VNil\<close> stands where \<^verbatim>\<open>appendValues\<close> panics.\<close>

definition combine_of :: "reducer \<Rightarrow> gval \<Rightarrow> gval \<Rightarrow> gval" where
  "combine_of r c u =
     (case r of
        AppendReducer \<Rightarrow> (case appendValues c u of Some v \<Rightarrow> v | None \<Rightarrow> VNil)
      | MergeReducer \<Rightarrow> mergeValues c u
      | ReplaceReducer \<Rightarrow> u
      | MaxReducer \<Rightarrow> maxValue c u
      | MinReducer \<Rightarrow> minValue c u)"

definition append_panics :: "gstate \<Rightarrow> gstate \<Rightarrow> string \<Rightarrow> bool" where
  "append_panics current update k \<longleftrightarrow>
     (\<exists>c u. current k = Some c \<and> update k = Some u \<and> appendValues c u = None)"

lemma reduce_entry_append:
  "reduce_entry (combine_of AppendReducer) update key result =
     (case update key of
        None \<Rightarrow> result
      | Some uv \<Rightarrow>
          (case result key of
             Some cv \<Rightarrow> result(key \<mapsto> (case appendValues cv uv of Some v \<Rightarrow> v | None \<Rightarrow> VNil))
           | None \<Rightarrow> result(key \<mapsto> uv)))"
  by (simp add: reduce_entry_def combine_of_def split: option.splits)

lemma append_panics_other:
  "k \<noteq> key \<Longrightarrow> append_panics (result(key := x)) update k = append_panics result update k"
  by (simp add: append_panics_def)

lemma append_loop_fold:
  "distinct ks \<Longrightarrow> append_loop update ks result =
     (if \<exists>k \<in> set ks. append_panics result update k then None
      else Some (fold (reduce_entry (combine_of AppendReducer) update) ks result))"
proof (induction ks arbitrary: result)
  case Nil
  then show ?case by simp
next
  case (Cons key ks)
  then have dist: "distinct ks" and new: "key \<notin> set ks" by auto
  note IH = Cons.IH [OF dist]
  have same: "(\<exists>k \<in> set ks. append_panics (result(key := x)) update k)
      = (\<exists>k \<in> set ks. append_panics result update k)" for x
    by (rule bex_cong [OF refl], rule append_panics_other) (use new in auto)
  show ?case
  proof (cases "update key")
    case None
    then have "\<not> append_panics result update key" by (simp add: append_panics_def)
    with None show ?thesis by (simp add: IH reduce_entry_append [of update key result])
  next
    case (Some uv)
    note u = Some
    show ?thesis
    proof (cases "result key")
      case None
      then have "\<not> append_panics result update key" by (simp add: append_panics_def)
      with None u show ?thesis
        by (simp add: IH [of "result(key \<mapsto> uv)"] same reduce_entry_append [of update key result] del: fun_upd_apply)
    next
      case (Some cv)
      then have "append_panics result update key = (appendValues cv uv = None)"
        using u by (simp add: append_panics_def)
      with Some u show ?thesis
        by (cases "appendValues cv uv")
          (simp_all add: IH same reduce_entry_append [of update key result] del: fun_upd_apply)
    qed
  qed
qed

lemma Reduce_append:
  assumes "map_order current cks" and "map_order update uks"
  shows "AppendReducer_Reduce cks uks current update =
    (if \<exists>k. append_panics current update k then None
     else Some (combined (combine_of AppendReducer) current update))"
proof -
  have "(\<exists>k \<in> set uks. append_panics current update k) \<longleftrightarrow> (\<exists>k. append_panics current update k)"
    using map_order_in [OF assms(2)] by (auto simp: append_panics_def)
  then show ?thesis
    using reduce_with_combined [OF assms, of "combine_of AppendReducer"] assms(2)
    by (simp add: AppendReducer_Reduce_def append_loop_fold map_order_def
        range_copy_add [OF assms(1)] reduce_with_def)
qed

lemmas reducer_defs = MergeReducer_Reduce_def ReplaceReducer_Reduce_def MaxReducer_Reduce_def
  MinReducer_Reduce_def

subsection \<open>Properties\<close>

text \<open>
  every reducer computes its combination key by key, whatever the orders in which Go ranges over
  the two maps: a key of only one map keeps its value, a common key gets the combined one. The only
  way not to return is a panic of the append reducer at some common key.
\<close>

theorem reduce_pointwise:
  assumes "map_order current cks" and "map_order update uks"
  shows "Reduce r cks uks current update =
    (if r = AppendReducer \<and> (\<exists>k. append_panics current update k) then None
     else Some (combined (combine_of r) current update))"
  using reduce_with_combined [OF assms] Reduce_append [OF assms]
  by (cases r) (auto simp: Reduce_def reducer_defs combine_of_def [abs_def])

theorem reduce_pointwise_witness:
  "Reduce MaxReducer [''a'', ''b''] [''a''] [''a'' \<mapsto> VInt 1, ''b'' \<mapsto> VInt 5] [''a'' \<mapsto> VInt 3]
     = Some (combined (combine_of MaxReducer) [''a'' \<mapsto> VInt 1, ''b'' \<mapsto> VInt 5] [''a'' \<mapsto> VInt 3])"
proof -
  have "map_order [''a'' \<mapsto> VInt 1, ''b'' \<mapsto> VInt 5] [''a'', ''b'']" "map_order [''a'' \<mapsto> VInt 3] [''a'']"
    by (auto simp: map_order_def)
  from reduce_pointwise [OF this, of MaxReducer] show ?thesis by simp
qed

text \<open>
  redelivery is harmless. For every reducer but the appending one, applying an update to its own
  result changes nothing, nested maps, mixed types and NaNs included.
\<close>

theorem reduce_idempotent:
  assumes "r \<noteq> AppendReducer" and "map_order current cks" and "map_order update uks"
    and "Reduce r cks uks current update = Some s" and "map_order s sks"
  shows "Reduce r sks uks s update = Some s"
proof -
  have red: "Reduce r cks uks c update = Some (combined (combine_of r) c update)"
    if "map_order c cks" for c cks
    using reduce_with_combined [OF that assms(3)] assms(1)
    by (cases r) (simp_all add: Reduce_def reducer_defs combine_of_def [abs_def])
  have twice: "combine_of r (combine_of r c u) u = combine_of r c u" for c u
    using assms(1)
    by (cases r) (simp_all add: combine_of_def mergeValues_def merge_twice maxValue_twice minValue_twice)
  have idem: "combine_of r u u = u" for u
    using assms(1)
    by (cases r) (simp_all add: combine_of_def mergeValues_def merge_idem maxValue_twice minValue_twice)
  have "s = combined (combine_of r) current update" using red [OF assms(2)] assms(4) by simp
  with red [OF assms(5)] combined_twice [of "combine_of r", OF twice idem] show ?thesis by simp
qed

theorem reduce_idempotent_witness:
  "let s = [''a'' \<mapsto> VMap [''x'' \<mapsto> VInt 2]]
   in Reduce MergeReducer [''a''] [''a''] [''a'' \<mapsto> VMap [''x'' \<mapsto> VInt 1]] s = Some s
      \<and> Reduce MergeReducer [''a''] [''a''] s s = Some s"
proof -
  let ?c = "[''a'' \<mapsto> VMap [''x'' \<mapsto> VInt 1]]" and ?s = "[''a'' \<mapsto> VMap [''x'' \<mapsto> VInt 2]]"
  have orders: "map_order ?c [''a'']" "map_order ?s [''a'']" by (auto simp: map_order_def)
  have first: "Reduce MergeReducer [''a''] [''a''] ?c ?s = Some ?s"
    by (auto simp: Reduce_def MergeReducer_Reduce_def reduce_with_def range_copy_def reduce_entry_def
        mergeValues_def fun_eq_iff)
  show ?thesis
    using reduce_idempotent [OF _ orders first orders(2)] first by (simp add: Let_def)
qed

end
