(* ===== verification/PersistentChannel.thy ===== *)
theory PersistentChannel
  imports ChannelCore "HOL-Library.List_Lexorder" "HOL-Library.Char_ord" "HOL-Library.Sublist"
begin

section \<open>The persistent channel (internal/core/channel/persistent.go)\<close>

text \<open>
  A channel whose messages are files of one directory, beside an index file that is rewritten after
  every change. The directory is a map from file names to parsed contents; writes go to a temporary
  file that is renamed, so a failing write leaves the old file. What \<^verbatim>\<open>encoding/json\<close> makes of
  a message is \<open>json_message\<close>: numbers come back as \<^verbatim>\<open>float64\<close>, string slices as general
  ones. The text of a time stamp and the length of a file are parameters (\<open>Env\<close>); faults of the
  file system and the clock are arguments of the calls.
\<close>

subsection \<open>Messages as JSON\<close>

record Env =
  env_time_text :: "int \<Rightarrow> string"
  env_file_size :: "Message \<Rightarrow> int"

text \<open>\<^verbatim>\<open>json.Unmarshal\<close> after \<^verbatim>\<open>json.Marshal\<close>; \<open>None\<close> is the error for NaN and infinities.\<close>

definition json_number :: "f64 \<Rightarrow> gval option" where
  "json_number x = (if f_nan x \<or> f_inf x then None else Some (VFloat x))"

fun all_some :: "'a option list \<Rightarrow> 'a list option" where
  "all_some [] = Some []"
| "all_some (x # xs) = (case (x, all_some xs) of (Some y, Some ys) \<Rightarrow> Some (y # ys) | _ \<Rightarrow> None)"

definition json_config :: "ExecutionConfig \<Rightarrow> gval" where
  "json_config c = VMap [''max_steps'' \<mapsto> VFloat (f_of_int (word_of_int (MaxSteps c))),
     ''timeout'' \<mapsto> VFloat (f_of_int (word_of_int (ExecTimeout c))),
     ''checkpoint_every'' \<mapsto> VFloat (f_of_int (word_of_int (CheckpointEvery c))),
     ''parallel'' \<mapsto> VBool (ParallelMode c), ''debug_mode'' \<mapsto> VBool (DebugMode c),
     ''validate_graph'' \<mapsto> VBool (ValidateGraph c), ''validate_cycles'' \<mapsto> VBool (ValidateCycles c)]"

primrec json_value :: "(int \<Rightarrow> string) \<Rightarrow> gval \<Rightarrow> gval option" where
  "json_value tt VNil = Some VNil"
| "json_value tt (VBool b) = Some (VBool b)"
| "json_value tt (VInt n) = Some (VFloat (f_of_int n))"
| "json_value tt (VInt64 n) = Some (VFloat (f_of_int n))"
| "json_value tt (VFloat x) = json_number x"
| "json_value tt (VStr s) = Some (VStr s)"
| "json_value tt (VList xs) = map_option VList (all_some (map (json_value tt) xs))"
| "json_value tt (VStrs xs) = Some (VList (map VStr xs))"
| "json_value tt (VMap m) =
     (if \<exists>k. map_option (json_value tt) (m k) = Some None then None
      else Some (VMap (\<lambda>k. case map_option (json_value tt) (m k) of Some r \<Rightarrow> r | None \<Rightarrow> None)))"
| "json_value tt (VFloatMap m) =
     (if \<exists>k x. m k = Some x \<and> json_number x = None then None
      else Some (VMap (\<lambda>k. map_option VFloat (m k))))"
| "json_value tt (VTime t) = Some (VStr (tt t))"
| "json_value tt (VDuration d) = Some (VFloat (f_of_int (word_of_int d)))"
| "json_value tt (VConfig c) = Some (json_config c)"

definition json_message :: "Env \<Rightarrow> Message \<Rightarrow> Message option" where
  "json_message env m =
     (case (json_value (env_time_text env) (m_Payload m), json_value (env_time_text env) (VMap (m_Metadata m))) of
        (Some p, Some (VMap md)) \<Rightarrow> Some (m\<lparr>m_Payload := p, m_Metadata := md\<rparr>)
      | _ \<Rightarrow> None)"

subsection \<open>Directory and channel\<close>

record persistentMessage =
  pp_ID :: int
  pp_Message :: Message
  pp_Filename :: string
  pp_Created :: int

record pindex =
  ix_Messages :: "persistentMessage list"
  ix_NextID :: int
  ix_Closed :: bool

datatype pfile = FileMsg Message | FileIndex pindex | FileOther

record PersistentChannelConfig =
  pcc_DataDir :: string
  pcc_MaxSizeMB :: int
  pcc_Timeout :: int
  pcc_SyncWrites :: bool
  pcc_MaxMessages :: int
  pcc_MaxAge :: int
  pcc_OnFull :: string

record PersistentChannel =
  pc_disk :: "string \<rightharpoonup> pfile"
  pc_messages :: "persistentMessage list"
  pc_closed :: bool
  pc_timeout :: int
  pc_nextID :: int
  pc_maxSize :: int
  pc_currentSize :: int
  pc_syncWrites :: bool
  pc_maxMessages :: int
  pc_maxAge :: int
  pc_onFull :: string

text \<open>Which file operation of a call fails.\<close>

datatype io_fault = NoFault | WriteFault | IndexFault

definition index_name :: string where "index_name = ''index.json''"

definition msg_name :: "int \<Rightarrow> string" where "msg_name n = ''msg_'' @ show_int n @ ''.json''"

text \<open>\<^verbatim>\<open>os.Stat\<close> of a message file; other files' sizes are never asked for.\<close>

definition file_size :: "Env \<Rightarrow> (string \<rightharpoonup> pfile) \<Rightarrow> string \<Rightarrow> int option" where
  "file_size env disk name = (case disk name of Some (FileMsg m) \<Rightarrow> Some (env_file_size env m) | _ \<Rightarrow> None)"

text \<open>An index read as a message has none of its fields: the zero message.\<close>

definition readMessage :: "(string \<rightharpoonup> pfile) \<Rightarrow> string \<Rightarrow> Message option" where
  "readMessage disk name = (case disk name of
     Some (FileMsg m) \<Rightarrow> Some m | Some (FileIndex _) \<Rightarrow> Some zero_message | _ \<Rightarrow> None)"

definition writeMessage :: "Env \<Rightarrow> io_fault \<Rightarrow> string \<Rightarrow> Message \<Rightarrow> PersistentChannel \<Rightarrow> PersistentChannel option" where
  "writeMessage env io name m c =
     (if io = WriteFault then None
      else case json_message env m of
             None \<Rightarrow> None
           | Some m' \<Rightarrow> Some (c\<lparr>pc_disk := (pc_disk c)(name \<mapsto> FileMsg m')\<rparr>))"

definition saveIndex :: "io_fault \<Rightarrow> PersistentChannel \<Rightarrow> PersistentChannel option" where
  "saveIndex io c =
     (if io = IndexFault then None
      else Some (c\<lparr>pc_disk := (pc_disk c)(index_name \<mapsto>
             FileIndex \<lparr>ix_Messages = pc_messages c, ix_NextID = pc_nextID c, ix_Closed = pc_closed c\<rparr>)\<rparr>))"

definition try_saveIndex :: "io_fault \<Rightarrow> PersistentChannel \<Rightarrow> PersistentChannel" where
  "try_saveIndex io c = (case saveIndex io c of Some c' \<Rightarrow> c' | None \<Rightarrow> c)"

definition remove_file :: "string \<Rightarrow> PersistentChannel \<Rightarrow> PersistentChannel" where
  "remove_file name c = c\<lparr>pc_disk := (pc_disk c)(name := None)\<rparr>"

subsection \<open>Retention\<close>

definition removeOldest :: "Env \<Rightarrow> io_fault \<Rightarrow> PersistentChannel \<Rightarrow> PersistentChannel" where
  "removeOldest env io c =
     (case pc_messages c of
        [] \<Rightarrow> c
      | pm # rest \<Rightarrow>
          (let c1 = (case file_size env (pc_disk c) (pp_Filename pm) of
                       Some s \<Rightarrow> c\<lparr>pc_currentSize := pc_currentSize c - s\<rparr> | None \<Rightarrow> c);
               c2 = (remove_file (pp_Filename pm) c1)\<lparr>pc_messages := rest\<rparr>
           in try_saveIndex io c2))"

lemma removeOldest_length: "pc_messages c = pm # rest \<Longrightarrow> pc_messages (removeOldest env io c) = rest"
  by (simp add: removeOldest_def Let_def try_saveIndex_def saveIndex_def remove_file_def split: option.splits)

function enforceMaxMessages :: "Env \<Rightarrow> io_fault \<Rightarrow> PersistentChannel \<Rightarrow> PersistentChannel" where
  "enforceMaxMessages env io c =
     (if pc_maxMessages c \<le> 0 \<or> int (length (pc_messages c)) \<le> pc_maxMessages c then c
      else enforceMaxMessages env io (removeOldest env io c))"
  by pat_completeness auto
termination
proof (relation "measure (\<lambda>(env, io, c). length (pc_messages c))", goal_cases)
  case (2 env io c)
  then show ?case
    using removeOldest_length by (cases "pc_messages c") auto
qed simp

text \<open>The limits stay what they were while messages are removed.\<close>

function enforceMaxAge :: "Env \<Rightarrow> io_fault \<Rightarrow> int \<Rightarrow> PersistentChannel \<Rightarrow> PersistentChannel" where
  "enforceMaxAge env io now c =
     (if pc_maxAge c \<le> 0 then c
      else case pc_messages c of
             [] \<Rightarrow> c
           | pm # rest \<Rightarrow> if pp_Created pm > now - pc_maxAge c then c
                         else enforceMaxAge env io now (removeOldest env io c))"
  by pat_completeness auto
termination
proof (relation "measure (\<lambda>(env, io, now, c). length (pc_messages c))", goal_cases)
  case (2 env io now c)
  then show ?case
    using removeOldest_length by (cases "pc_messages c") auto
qed simp

function evictUntilUnderSize :: "Env \<Rightarrow> io_fault \<Rightarrow> PersistentChannel \<Rightarrow> PersistentChannel" where
  "evictUntilUnderSize env io c =
     (if pc_messages c \<noteq> [] \<and> pc_currentSize c > pc_maxSize c
      then evictUntilUnderSize env io (removeOldest env io c) else c)"
  by pat_completeness auto
termination
proof (relation "measure (\<lambda>(env, io, c). length (pc_messages c))", goal_cases)
  case (2 env io c)
  then show ?case
    using removeOldest_length by (cases "pc_messages c") auto
qed simp

declare enforceMaxMessages.simps [simp del] enforceMaxAge.simps [simp del] evictUntilUnderSize.simps [simp del]

definition evicts :: "PersistentChannel \<Rightarrow> bool" where
  "evicts c \<longleftrightarrow> pc_onFull c = ''evict_oldest''"

text \<open>One tick of \<^verbatim>\<open>cleanupLoop\<close>.\<close>

definition cleanup_tick :: "Env \<Rightarrow> io_fault \<Rightarrow> int \<Rightarrow> PersistentChannel \<Rightarrow> PersistentChannel" where
  "cleanup_tick env io now c =
     (let c1 = enforceMaxMessages env io (enforceMaxAge env io now c)
      in if evicts c1 \<and> pc_currentSize c1 > pc_maxSize c1 then evictUntilUnderSize env io c1 else c1)"

subsection \<open>Send, Receive, Close, Cleanup\<close>

text \<open>The retention that a send enforces after adding its message.\<close>

definition send_retention :: "Env \<Rightarrow> io_fault \<Rightarrow> int \<Rightarrow> PersistentChannel \<Rightarrow> PersistentChannel" where
  "send_retention env io now c =
     (let c1 = enforceMaxMessages env io c;
          c2 = (if evicts c1 \<and> pc_currentSize c1 > pc_maxSize c1 then evictUntilUnderSize env io c1 else c1)
      in enforceMaxAge env io now c2)"

text \<open>\<^verbatim>\<open>Send\<close> after its checks: number, write, index.\<close>

definition send_store ::
  "Env \<Rightarrow> io_fault \<Rightarrow> int \<Rightarrow> Message \<Rightarrow> PersistentChannel \<Rightarrow> (chan_error, unit) outcome \<times> PersistentChannel" where
  "send_store env io now m c =
     (let c1 = c\<lparr>pc_nextID := pc_nextID c + 1\<rparr>;
          name = msg_name (pc_nextID c1);
          pm = \<lparr>pp_ID = pc_nextID c1, pp_Message = m, pp_Filename = name, pp_Created = now\<rparr>
      in case writeMessage env io name m c1 of
           None \<Rightarrow> (Fails ErrWriteMessage, c1)
         | Some c2 \<Rightarrow>
             let c3 = (case file_size env (pc_disk c2) name of
                         Some s \<Rightarrow> c2\<lparr>pc_currentSize := pc_currentSize c2 + s\<rparr> | None \<Rightarrow> c2);
                 c4 = send_retention env io now (c3\<lparr>pc_messages := pc_messages c3 @ [pm]\<rparr>)
             in (case saveIndex io c4 of
                   None \<Rightarrow> (Fails ErrSaveIndex, remove_file name c4)
                 | Some c5 \<Rightarrow> (Returns (), c5)))"

definition PC_Send ::
  "Env \<Rightarrow> io_fault \<Rightarrow> int \<Rightarrow> Message \<Rightarrow> PersistentChannel \<Rightarrow> (chan_error, unit) outcome \<times> PersistentChannel" where
  "PC_Send env io now m c =
     (case Message_Validate m of
        Some err \<Rightarrow> (Fails err, c)
      | None \<Rightarrow>
          if pc_closed c then (Fails ErrChannelClosed, c)
          else if pc_currentSize c \<ge> pc_maxSize c
          then (if evicts c then send_store env io now m (evictUntilUnderSize env io c)
                else (Fails ErrSizeLimit, c))
          else send_store env io now m c)"

definition PC_Receive ::
  "Env \<Rightarrow> io_fault \<Rightarrow> PersistentChannel \<Rightarrow> (chan_error, Message) outcome \<times> PersistentChannel" where
  "PC_Receive env io c =
     (if pc_closed c then (Fails ErrChannelClosed, c)
      else case pc_messages c of
             [] \<Rightarrow> (Fails ErrChannelEmpty, c)
           | pm # rest \<Rightarrow>
               (case readMessage (pc_disk c) (pp_Filename pm) of
                  None \<Rightarrow> (Fails ErrReadMessage, c)
                | Some m \<Rightarrow>
                    let c1 = c\<lparr>pc_messages := rest\<rparr>;
                        c2 = (case file_size env (pc_disk c1) (pp_Filename pm) of
                                Some s \<Rightarrow> c1\<lparr>pc_currentSize := pc_currentSize c1 - s\<rparr> | None \<Rightarrow> c1);
                        c3 = remove_file (pp_Filename pm) c2
                    in (case saveIndex io c3 of
                          None \<Rightarrow> (Fails ErrSaveIndex, c3)
                        | Some c4 \<Rightarrow> (Returns m, c4))))"

definition PC_Close :: "io_fault \<Rightarrow> PersistentChannel \<Rightarrow> chan_error option \<times> PersistentChannel" where
  "PC_Close io c =
     (if pc_closed c then (None, c)
      else let c1 = c\<lparr>pc_closed := True\<rparr> in
        case saveIndex io c1 of Some c2 \<Rightarrow> (None, c2) | None \<Rightarrow> (Some ErrSaveIndex, c1))"

definition PC_Cleanup :: "io_fault \<Rightarrow> PersistentChannel \<Rightarrow> chan_error option \<times> PersistentChannel" where
  "PC_Cleanup io c =
     (let c1 = fold (\<lambda>pm. remove_file (pp_Filename pm)) (pc_messages c) c;
          c2 = c1\<lparr>pc_messages := [], pc_currentSize := 0, pc_nextID := 0\<rparr>
      in case saveIndex io c2 of Some c3 \<Rightarrow> (None, c3) | None \<Rightarrow> (Some ErrSaveIndex, c2))"

definition PC_Len :: "PersistentChannel \<Rightarrow> nat" where "PC_Len c = length (pc_messages c)"

text \<open>The statistics, without the name of the directory.\<close>

record PersistentChannelStats =
  pcs_Length :: nat
  pcs_SizeBytes :: int
  pcs_MaxSizeBytes :: int
  pcs_Closed :: bool

definition PC_Stats :: "PersistentChannel \<Rightarrow> PersistentChannelStats" where
  "PC_Stats c = \<lparr>pcs_Length = length (pc_messages c), pcs_SizeBytes = pc_currentSize c,
     pcs_MaxSizeBytes = pc_maxSize c, pcs_Closed = pc_closed c\<rparr>"

definition PC_IsClosed :: "PersistentChannel \<Rightarrow> bool" where "PC_IsClosed c = pc_closed c"

subsection \<open>Opening a directory\<close>

definition has_suffix :: "string \<Rightarrow> string \<Rightarrow> bool" where
  "has_suffix suf s \<longleftrightarrow> length suf \<le> length s \<and> drop (length s - length suf) s = suf"

definition is_msg_file :: "string \<Rightarrow> bool" where
  "is_msg_file name \<longleftrightarrow> length name > 4 \<and> take 4 name = ''msg_'' \<and> has_suffix ''.json'' name"

text \<open>\<open>entries\<close> is what \<^verbatim>\<open>os.ReadDir\<close> lists: all names, sorted.\<close>

fun recover_loop ::
  "Env \<Rightarrow> int \<Rightarrow> (string \<rightharpoonup> pfile) \<Rightarrow> string list \<Rightarrow> persistentMessage list \<times> int \<times> int
   \<Rightarrow> persistentMessage list \<times> int \<times> int" where
  "recover_loop env now disk [] acc = acc"
| "recover_loop env now disk (name # names) (msgs, maxID, tot) =
     (if is_msg_file name then
        (case readMessage disk name of
           None \<Rightarrow> recover_loop env now disk names (msgs, maxID, tot)
         | Some m \<Rightarrow>
             (let id = (case scan_prefixed ''msg_'' name of Some n \<Rightarrow> n | None \<Rightarrow> 0);
                  maxID1 = (if id > maxID then id else maxID);
                  total1 = (case file_size env disk name of Some s \<Rightarrow> tot + s | None \<Rightarrow> tot)
              in recover_loop env now disk names
                   (msgs @ [\<lparr>pp_ID = id, pp_Message = m, pp_Filename = name, pp_Created = now\<rparr>], maxID1, total1)))
      else recover_loop env now disk names (msgs, maxID, tot))"

definition recoverIndex :: "Env \<Rightarrow> int \<Rightarrow> string list \<Rightarrow> PersistentChannel \<Rightarrow> PersistentChannel" where
  "recoverIndex env now entries c =
     (case recover_loop env now (pc_disk c) entries ([], 0, 0) of
        (msgs, maxID, tot) \<Rightarrow>
          c\<lparr>pc_messages := msgs, pc_nextID := maxID, pc_currentSize := tot, pc_closed := False\<rparr>)"

definition index_size :: "Env \<Rightarrow> (string \<rightharpoonup> pfile) \<Rightarrow> persistentMessage list \<Rightarrow> int" where
  "index_size env disk pms =
     fold (\<lambda>pm tot. case file_size env disk (pp_Filename pm) of Some s \<Rightarrow> tot + s | None \<Rightarrow> tot) pms 0"

text \<open>A message file in the place of the index parses as an index without entries.\<close>

definition loadIndex :: "Env \<Rightarrow> int \<Rightarrow> string list \<Rightarrow> PersistentChannel \<Rightarrow> PersistentChannel" where
  "loadIndex env now entries c =
     (case pc_disk c index_name of
        None \<Rightarrow> c\<lparr>pc_messages := [], pc_nextID := 0, pc_currentSize := 0\<rparr>
      | Some FileOther \<Rightarrow> recoverIndex env now entries c
      | Some (FileMsg _) \<Rightarrow> c\<lparr>pc_messages := [], pc_nextID := 0, pc_closed := False, pc_currentSize := 0\<rparr>
      | Some (FileIndex ix) \<Rightarrow>
          c\<lparr>pc_messages := ix_Messages ix, pc_nextID := ix_NextID ix, pc_closed := ix_Closed ix,
            pc_currentSize := index_size env (pc_disk c) (ix_Messages ix)\<rparr>)"

definition NewPersistentChannel ::
  "Env \<Rightarrow> int \<Rightarrow> string list \<Rightarrow> (string \<rightharpoonup> pfile) \<Rightarrow> PersistentChannelConfig \<Rightarrow> chan_error + PersistentChannel" where
  "NewPersistentChannel env now entries disk config =
     (if pcc_DataDir config = [] then Inl ErrDataDirRequired
      else Inr (loadIndex env now entries
        \<lparr>pc_disk = disk, pc_messages = [], pc_closed = False,
         pc_timeout = (if pcc_Timeout config \<le> 0 then seconds 30 else pcc_Timeout config), pc_nextID = 0,
         pc_maxSize = (if pcc_MaxSizeMB config \<le> 0 then 100 else pcc_MaxSizeMB config) * 1024 * 1024,
         pc_currentSize = 0, pc_syncWrites = pcc_SyncWrites config,
         pc_maxMessages = pcc_MaxMessages config, pc_maxAge = pcc_MaxAge config,
         pc_onFull = pcc_OnFull config\<rparr>))"

definition DefaultPersistentChannel ::
  "Env \<Rightarrow> RuntimeConfig \<Rightarrow> int \<Rightarrow> string list \<Rightarrow> (string \<rightharpoonup> pfile) \<Rightarrow> string \<Rightarrow> chan_error + PersistentChannel" where
  "DefaultPersistentChannel env rc now entries disk dataDir =
     NewPersistentChannel env now entries disk
       \<lparr>pcc_DataDir = dataDir, pcc_MaxSizeMB = 100,
        pcc_Timeout = (if rc_PersistentTimeout rc > 0 then rc_PersistentTimeout rc else seconds 30),
        pcc_SyncWrites = False, pcc_MaxMessages = 0, pcc_MaxAge = 0, pcc_OnFull = []\<rparr>"

end
