(* ===== verification/PersistentProps.thy ===== *)
theory PersistentProps
  imports PersistentChannel
begin

section \<open>Properties of the persistent channel\<close>

text \<open>
  The invariant of the persistent channel (its entries, its files and its size agree; the index on
  disk is current), the FIFO contract, retention, reopening, recovery, and what faults leave behind.
\<close>

subsection \<open>Invariant\<close>

definition entry_size :: "Env \<Rightarrow> (string \<rightharpoonup> pfile) \<Rightarrow> persistentMessage \<Rightarrow> int" where
  "entry_size env disk pm = (case file_size env disk (pp_Filename pm) of Some s \<Rightarrow> s | None \<Rightarrow> 0)"

definition entry_ok :: "PersistentChannel \<Rightarrow> persistentMessage \<Rightarrow> bool" where
  "entry_ok c pm \<longleftrightarrow> pp_ID pm \<le> pc_nextID c \<and> pp_Filename pm = msg_name (pp_ID pm)
     \<and> (\<exists>m. pc_disk c (pp_Filename pm) = Some (FileMsg m))"

definition pc_core :: "Env \<Rightarrow> PersistentChannel \<Rightarrow> bool" where
  "pc_core env c \<longleftrightarrow> distinct (map pp_ID (pc_messages c)) \<and> (\<forall>pm \<in> set (pc_messages c). entry_ok c pm)
     \<and> pc_currentSize c = sum_list (map (entry_size env (pc_disk c)) (pc_messages c))"

definition index_of :: "PersistentChannel \<Rightarrow> pindex" where
  "index_of c = \<lparr>ix_Messages = pc_messages c, ix_NextID = pc_nextID c, ix_Closed = pc_closed c\<rparr>"

text \<open>
  The index on disk has the entries and the flag, and a next number that may lag behind (after a
  message that could not be written) but covers the entries; or there is no index yet.
\<close>

definition pc_synced :: "PersistentChannel \<Rightarrow> bool" where
  "pc_synced c \<longleftrightarrow> (\<exists>n. pc_disk c index_name
       = Some (FileIndex \<lparr>ix_Messages = pc_messages c, ix_NextID = n, ix_Closed = pc_closed c\<rparr>)
       \<and> n \<le> pc_nextID c \<and> (\<forall>pm \<in> set (pc_messages c). pp_ID pm \<le> n))
     \<or> pc_disk c index_name = None \<and> pc_messages c = [] \<and> \<not> pc_closed c"

definition pc_contents :: "PersistentChannel \<Rightarrow> Message list" where
  "pc_contents c = map (\<lambda>pm. the (readMessage (pc_disk c) (pp_Filename pm))) (pc_messages c)"

text \<open>What the retention loops leave alone.\<close>

definition pc_frame :: "PersistentChannel \<Rightarrow> PersistentChannel \<Rightarrow> bool" where
  "pc_frame c c' \<longleftrightarrow> pc_nextID c' = pc_nextID c \<and> pc_closed c' = pc_closed c \<and> pc_maxSize c' = pc_maxSize c
     \<and> pc_maxMessages c' = pc_maxMessages c \<and> pc_maxAge c' = pc_maxAge c \<and> pc_onFull c' = pc_onFull c"

lemma pc_frame_refl [simp]: "pc_frame c c" by (simp add: pc_frame_def)
lemma pc_frame_trans: "pc_frame a b \<Longrightarrow> pc_frame b c \<Longrightarrow> pc_frame a c" by (simp add: pc_frame_def)

lemma msg_name_inject [simp]: "msg_name a = msg_name b \<longleftrightarrow> a = b"
  by (simp add: msg_name_def)

lemma msg_name_index [simp]: "msg_name a \<noteq> index_name" "index_name \<noteq> msg_name a"
  by (simp_all add: msg_name_def index_name_def)

lemma saveIndex_ok:
  "saveIndex NoFault c = Some (c\<lparr>pc_disk := (pc_disk c)(index_name \<mapsto> FileIndex (index_of c))\<rparr>)"
  by (simp add: saveIndex_def index_of_def)

lemma entry_cong:
  assumes "\<And>pm. pm \<in> set pms \<Longrightarrow> d' (pp_Filename pm) = d (pp_Filename pm)"
  shows "map (entry_size env d') pms = map (entry_size env d) pms"
    and "map (\<lambda>pm. the (readMessage d' (pp_Filename pm))) pms = map (\<lambda>pm. the (readMessage d (pp_Filename pm))) pms"
  using assms by (simp_all add: entry_size_def file_size_def readMessage_def)

lemma entry_name: "pc_core env c \<Longrightarrow> pm \<in> set (pc_messages c) \<Longrightarrow> pp_Filename pm = msg_name (pp_ID pm)"
  by (simp add: pc_core_def entry_ok_def)

text \<open>Writing the index touches no message file.\<close>

lemma save_core:
  assumes core: "pc_core env c" and save: "saveIndex NoFault c = Some c'"
  shows "pc_core env c' \<and> pc_synced c' \<and> pc_contents c' = pc_contents c \<and> pc_frame c c'
    \<and> pc_messages c' = pc_messages c \<and> pc_currentSize c' = pc_currentSize c"
proof -
  have c': "c' = c\<lparr>pc_disk := (pc_disk c)(index_name \<mapsto> FileIndex (index_of c))\<rparr>"
    using save by (simp add: saveIndex_ok)
  have same: "pc_disk c' (pp_Filename pm) = pc_disk c (pp_Filename pm)" if "pm \<in> set (pc_messages c)" for pm
    using entry_name [OF core that] by (simp add: c')
  have "\<forall>pm \<in> set (pc_messages c). entry_ok c' pm"
    using core same by (auto simp: pc_core_def entry_ok_def c')
  moreover have "pc_synced c'"
    using core by (auto simp: c' pc_synced_def index_of_def pc_core_def entry_ok_def)
  moreover have "pc_messages c' = pc_messages c" "pc_currentSize c' = pc_currentSize c" "pc_frame c c'"
    by (simp_all add: c' pc_frame_def)
  ultimately show ?thesis
    using core entry_cong [of "pc_messages c" "pc_disk c'" "pc_disk c", OF same]
    by (simp add: pc_core_def pc_contents_def cong: map_cong)
qed

text \<open>Removing the head: the file goes, the size shrinks, the other files stay.\<close>

lemma drop_head_core:
  assumes core: "pc_core env c" and msgs: "pc_messages c = pm # rest"
    and c': "c' = c\<lparr>pc_currentSize := pc_currentSize c - entry_size env (pc_disk c) pm,
      pc_disk := (pc_disk c)(pp_Filename pm := None), pc_messages := rest\<rparr>"
  shows "pc_core env c' \<and> pc_contents c' = tl (pc_contents c) \<and> pc_frame c c'
    \<and> readMessage (pc_disk c) (pp_Filename pm) = Some (hd (pc_contents c))"
proof -
  have pm: "pp_Filename pm = msg_name (pp_ID pm)" and head: "\<exists>m. pc_disk c (pp_Filename pm) = Some (FileMsg m)"
  proof -
    have "entry_ok c pm" using core msgs by (simp add: pc_core_def)
    then show "pp_Filename pm = msg_name (pp_ID pm)" "\<exists>m. pc_disk c (pp_Filename pm) = Some (FileMsg m)"
      unfolding entry_ok_def by blast+
  qed
  have same: "pc_disk c' (pp_Filename q) = pc_disk c (pp_Filename q)" if "q \<in> set rest" for q
  proof -
    have "pp_ID q \<in> pp_ID ` set rest" using that by simp
    then have "pp_ID q \<noteq> pp_ID pm" using core msgs by (auto simp: pc_core_def)
    moreover have "pp_Filename q = msg_name (pp_ID q)"
      using core msgs that by (simp add: pc_core_def entry_ok_def)
    ultimately show ?thesis using pm by (simp add: c')
  qed
  have "entry_ok c' q" if "q \<in> set rest" for q
  proof -
    have "entry_ok c q" using core msgs that by (simp add: pc_core_def)
    moreover have "pc_nextID c' = pc_nextID c" by (simp add: c')
    ultimately show ?thesis using same [OF that] unfolding entry_ok_def by metis
  qed
  moreover have "pc_messages c' = rest"
      "pc_currentSize c' = pc_currentSize c - entry_size env (pc_disk c) pm" "pc_frame c c'"
    by (simp_all add: c' pc_frame_def)
  ultimately show ?thesis
    using core msgs head entry_cong [of rest "pc_disk c'" "pc_disk c", OF same]
    by (auto simp: pc_core_def pc_contents_def readMessage_def cong: map_cong)
qed

lemma removeOldest_core:
  assumes core: "pc_core env c" and msgs: "pc_messages c = pm # rest"
  shows "pc_core env (removeOldest env NoFault c) \<and> pc_synced (removeOldest env NoFault c)
    \<and> pc_contents (removeOldest env NoFault c) = tl (pc_contents c) \<and> pc_frame c (removeOldest env NoFault c)"
proof -
  let ?c = "c\<lparr>pc_currentSize := pc_currentSize c - entry_size env (pc_disk c) pm,
      pc_disk := (pc_disk c)(pp_Filename pm := None), pc_messages := rest\<rparr>"
  note d = drop_head_core [OF core msgs refl]
  obtain m where "pc_disk c (pp_Filename pm) = Some (FileMsg m)"
    using core msgs by (auto simp: pc_core_def entry_ok_def)
  then have "removeOldest env NoFault c = try_saveIndex NoFault ?c"
    by (simp add: removeOldest_def msgs remove_file_def file_size_def entry_size_def)
  moreover obtain c2 where save: "saveIndex NoFault ?c = Some c2" by (simp add: saveIndex_ok)
  ultimately have "removeOldest env NoFault c = c2" by (simp add: try_saveIndex_def)
  with save_core [OF _ save] d show ?thesis by (auto intro: pc_frame_trans)
qed

lemma tl_suffix: "suffix xs (tl ys) \<Longrightarrow> suffix xs ys"
  by (metis suffix_order.trans suffix_tl)

text \<open>The three retention loops keep a suffix of the messages; their bounds hold afterwards.\<close>

lemma enforceMaxMessages_core:
  "pc_core env c \<Longrightarrow> pc_core env (enforceMaxMessages env NoFault c)
     \<and> suffix (pc_contents (enforceMaxMessages env NoFault c)) (pc_contents c)
     \<and> pc_frame c (enforceMaxMessages env NoFault c)
     \<and> (pc_maxMessages c > 0 \<longrightarrow> int (length (pc_messages (enforceMaxMessages env NoFault c))) \<le> pc_maxMessages c)
     \<and> (pc_synced c \<longrightarrow> pc_synced (enforceMaxMessages env NoFault c))"
proof (induction "length (pc_messages c)" arbitrary: c rule: less_induct)
  case less
  show ?case
  proof (cases "pc_maxMessages c \<le> 0 \<or> int (length (pc_messages c)) \<le> pc_maxMessages c")
    case True
    then show ?thesis using less.prems by (subst (1 2 3 4 5) enforceMaxMessages.simps) auto
  next
    case False
    then obtain pm rest where msgs: "pc_messages c = pm # rest" by (cases "pc_messages c") auto
    let ?c = "removeOldest env NoFault c"
    note r = removeOldest_core [OF less.prems msgs]
    have step: "enforceMaxMessages env NoFault c = enforceMaxMessages env NoFault ?c"
      using False by (subst enforceMaxMessages.simps) simp
    have "length (pc_messages ?c) < length (pc_messages c)"
      using removeOldest_length [OF msgs] msgs by simp
    from less.hyps [OF this] r show ?thesis
      unfolding step by (auto intro: tl_suffix pc_frame_trans simp: pc_frame_def)
  qed
qed

lemma enforceMaxAge_core:
  "pc_core env c \<Longrightarrow> pc_core env (enforceMaxAge env NoFault now c)
     \<and> suffix (pc_contents (enforceMaxAge env NoFault now c)) (pc_contents c)
     \<and> pc_frame c (enforceMaxAge env NoFault now c)
     \<and> length (pc_messages (enforceMaxAge env NoFault now c)) \<le> length (pc_messages c)
     \<and> (pc_synced c \<longrightarrow> pc_synced (enforceMaxAge env NoFault now c))"
proof (induction "length (pc_messages c)" arbitrary: c rule: less_induct)
  case less
  show ?case
  proof (cases "pc_maxAge c \<le> 0 \<or> pc_messages c = [] \<or> pp_Created (hd (pc_messages c)) > now - pc_maxAge c")
    case True
    then have "enforceMaxAge env NoFault now c = c"
      by (subst enforceMaxAge.simps) (auto split: list.splits)
    then show ?thesis using less.prems by simp
  next
    case False
    then obtain pm rest where msgs: "pc_messages c = pm # rest" by (cases "pc_messages c") auto
    let ?c = "removeOldest env NoFault c"
    note r = removeOldest_core [OF less.prems msgs]
    have step: "enforceMaxAge env NoFault now c = enforceMaxAge env NoFault now ?c"
      using False msgs by (subst enforceMaxAge.simps) simp
    have len: "length (pc_messages ?c) < length (pc_messages c)"
      using removeOldest_length [OF msgs] msgs by simp
    from less.hyps [OF len] r len show ?thesis
      unfolding step by (auto intro: tl_suffix pc_frame_trans)
  qed
qed

lemma evict_core:
  "pc_core env c \<Longrightarrow> pc_core env (evictUntilUnderSize env NoFault c)
     \<and> suffix (pc_contents (evictUntilUnderSize env NoFault c)) (pc_contents c)
     \<and> pc_frame c (evictUntilUnderSize env NoFault c)
     \<and> length (pc_messages (evictUntilUnderSize env NoFault c)) \<le> length (pc_messages c)
     \<and> (pc_messages (evictUntilUnderSize env NoFault c) = []
        \<or> pc_currentSize (evictUntilUnderSize env NoFault c) \<le> pc_maxSize c)
     \<and> (pc_synced c \<longrightarrow> pc_synced (evictUntilUnderSize env NoFault c))"
proof (induction "length (pc_messages c)" arbitrary: c rule: less_induct)
  case less
  show ?case
  proof (cases "pc_messages c \<noteq> [] \<and> pc_currentSize c > pc_maxSize c")
    case False
    then have "evictUntilUnderSize env NoFault c = c" by (subst evictUntilUnderSize.simps) (simp only: if_False)
    then show ?thesis using less.prems False by auto
  next
    case True
    then obtain pm rest where msgs: "pc_messages c = pm # rest" by (cases "pc_messages c") auto
    let ?c = "removeOldest env NoFault c"
    note r = removeOldest_core [OF less.prems msgs]
    have step: "evictUntilUnderSize env NoFault c = evictUntilUnderSize env NoFault ?c"
      using True by (subst evictUntilUnderSize.simps) simp
    have len: "length (pc_messages ?c) < length (pc_messages c)"
      using removeOldest_length [OF msgs] msgs by simp
    have "pc_maxSize ?c = pc_maxSize c" using r by (simp add: pc_frame_def)
    with less.hyps [OF len] r len show ?thesis
      unfolding step by (auto intro: tl_suffix pc_frame_trans)
  qed
qed

subsection \<open>Send and Receive\<close>

text \<open>Adding the new message behind the others.\<close>

lemma append_core:
  assumes core: "pc_core env c" and c': "c' = c\<lparr>pc_nextID := pc_nextID c + 1,
      pc_disk := (pc_disk c)(msg_name (pc_nextID c + 1) \<mapsto> FileMsg m'),
      pc_currentSize := pc_currentSize c + env_file_size env m',
      pc_messages := pc_messages c @ [\<lparr>pp_ID = pc_nextID c + 1, pp_Message = m,
        pp_Filename = msg_name (pc_nextID c + 1), pp_Created = now\<rparr>]\<rparr>"
  shows "pc_core env c' \<and> pc_contents c' = pc_contents c @ [m']"
proof -
  let ?pm = "\<lparr>pp_ID = pc_nextID c + 1, pp_Message = m, pp_Filename = msg_name (pc_nextID c + 1), pp_Created = now\<rparr>"
  have old: "pp_ID q \<le> pc_nextID c" "pp_Filename q = msg_name (pp_ID q)" if "q \<in> set (pc_messages c)" for q
    using core that by (auto simp: pc_core_def entry_ok_def)
  have same: "pc_disk c' (pp_Filename q) = pc_disk c (pp_Filename q)" if "q \<in> set (pc_messages c)" for q
    using old [OF that] by (simp add: c')
  have new: "pc_disk c' (msg_name (pc_nextID c + 1)) = Some (FileMsg m')" by (simp add: c')
  have "entry_ok c' q" if "q \<in> set (pc_messages c)" for q
  proof -
    have "entry_ok c q" using core that by (simp add: pc_core_def)
    moreover have "pc_nextID c' = pc_nextID c + 1" by (simp add: c')
    ultimately show ?thesis using same [OF that] unfolding entry_ok_def by (metis add_increasing2 zero_le_one)
  qed
  moreover have "entry_ok c' ?pm" using new by (simp add: entry_ok_def) (simp add: c')
  moreover have msgs: "pc_messages c' = pc_messages c @ [?pm]" by (simp add: c')
  moreover have "distinct (map pp_ID (pc_messages c @ [?pm]))"
    using core old(1) by (force simp: pc_core_def)
  moreover have "entry_size env (pc_disk c') ?pm = env_file_size env m'"
    using new by (simp add: entry_size_def file_size_def)
  moreover have "pc_currentSize c' = pc_currentSize c + env_file_size env m'" by (simp add: c')
  ultimately show ?thesis
    using core new entry_cong [of "pc_messages c" "pc_disk c'" "pc_disk c", OF same]
    by (auto simp: pc_core_def pc_contents_def readMessage_def cong: map_cong)
qed

text \<open>
  What a send without faults does, on every branch. The kept messages are the newest; with a limit on
  their number the limit holds, with eviction by size the size is within the limit or nothing is left.
\<close>


lemma suffix_snoc: "suffix xs ys \<Longrightarrow> suffix (xs @ [z]) (ys @ [z])"
  by (auto simp: suffix_def)

text \<open>
  What a send without faults does once it has been admitted. The kept messages are the newest; a
  limit on their number holds afterwards; with eviction by size the size is within the limit or
  nothing is left.
\<close>

lemma store_core:
  assumes core: "pc_core env c" and json: "json_message env m = Some m'"
  obtains c' where "send_store env NoFault now m c = (Returns (), c')"
    and "pc_core env c'" and "pc_synced c'" and "suffix (pc_contents c') (pc_contents c @ [m'])"
    and "pc_closed c' = pc_closed c" and "pc_maxMessages c' = pc_maxMessages c"
    and "pc_maxAge c' = pc_maxAge c" and "pc_onFull c' = pc_onFull c"
    and "pc_maxMessages c > 0 \<longrightarrow> int (length (pc_messages c')) \<le> pc_maxMessages c"
    and "evicts c \<and> pc_maxAge c \<le> 0 \<longrightarrow> pc_messages c' = [] \<or> pc_currentSize c' \<le> pc_maxSize c"
    and "pc_maxMessages c \<le> 0 \<and> pc_maxAge c \<le> 0 \<and> \<not> evicts c \<longrightarrow> pc_contents c' = pc_contents c @ [m']"
proof -
  let ?n = "pc_nextID c + 1"
  define c4 where "c4 = c\<lparr>pc_nextID := ?n,
      pc_disk := (pc_disk c)(msg_name ?n \<mapsto> FileMsg m'),
      pc_currentSize := pc_currentSize c + env_file_size env m',
      pc_messages := pc_messages c @ [\<lparr>pp_ID = ?n, pp_Message = m,
        pp_Filename = msg_name ?n, pp_Created = now\<rparr>]\<rparr>"
  define c5 where "c5 = enforceMaxMessages env NoFault c4"
  define c6 where "c6 = (if evicts c5 \<and> pc_currentSize c5 > pc_maxSize c5
    then evictUntilUnderSize env NoFault c5 else c5)"
  define c7 where "c7 = enforceMaxAge env NoFault now c6"
  obtain c8 where save: "saveIndex NoFault c7 = Some c8" by (simp add: saveIndex_ok)
  have ret: "send_retention env NoFault now c4 = c7"
    by (simp add: send_retention_def Let_def c7_def c6_def c5_def)
  have "send_store env NoFault now m c = (case saveIndex NoFault (send_retention env NoFault now c4) of
      None \<Rightarrow> (Fails ErrSaveIndex, remove_file (msg_name ?n) (send_retention env NoFault now c4))
    | Some c5 \<Rightarrow> (Returns (), c5))"
    by (simp add: send_store_def writeMessage_def json file_size_def Let_def c4_def saveIndex_ok)
  then have res: "send_store env NoFault now m c = (Returns (), c8)" by (simp add: ret save)
  have c4: "pc_core env c4" "pc_contents c4 = pc_contents c @ [m']"
    using append_core [OF core c4_def] by auto
  note c5 = enforceMaxMessages_core [OF c4(1), folded c5_def]
  have c6: "pc_core env c6 \<and> suffix (pc_contents c6) (pc_contents c5) \<and> pc_frame c5 c6
      \<and> length (pc_messages c6) \<le> length (pc_messages c5)
      \<and> (evicts c5 \<longrightarrow> pc_messages c6 = [] \<or> pc_currentSize c6 \<le> pc_maxSize c5)
      \<and> (\<not> evicts c5 \<longrightarrow> c6 = c5)"
    using evict_core [of env c5] c5 by (auto simp: c6_def)
  have c7: "pc_core env c7 \<and> suffix (pc_contents c7) (pc_contents c6) \<and> pc_frame c6 c7
      \<and> length (pc_messages c7) \<le> length (pc_messages c6)"
    using enforceMaxAge_core [of env c6 now, folded c7_def] c6 by simp
  have age: "c7 = c6" if "pc_maxAge c6 \<le> 0"
    using that unfolding c7_def by (subst enforceMaxAge.simps) simp
  have num: "c5 = c4" if "pc_maxMessages c4 \<le> 0"
    using that unfolding c5_def by (subst enforceMaxMessages.simps) simp
  note c8 = save_core [OF conjunct1 [OF c7] save]
  have cfg: "pc_maxMessages c4 = pc_maxMessages c" "pc_maxAge c4 = pc_maxAge c" "pc_maxSize c4 = pc_maxSize c"
      "pc_onFull c4 = pc_onFull c" "pc_closed c4 = pc_closed c"
    by (simp_all add: c4_def)
  have frame: "pc_frame c4 c5" "pc_frame c5 c6" "pc_frame c6 c7" "pc_frame c7 c8"
    using c5 c6 c7 c8 by auto
  have suf: "suffix (pc_contents c8) (pc_contents c4)"
    using c5 c6 c7 c8 by (auto intro: suffix_order.trans)
  have exact: "pc_contents c8 = pc_contents c4"
    if "pc_maxMessages c \<le> 0" "pc_maxAge c \<le> 0" "\<not> evicts c"
  proof -
    have "c5 = c4" using num that(1) cfg by simp
    moreover from this have "c6 = c5" using c6 that(3) cfg by (simp add: evicts_def)
    moreover from calculation have "c7 = c6" using age that(2) cfg by simp
    ultimately show ?thesis using c8 by simp
  qed
  show thesis
  proof (rule that [of c8])
    show "evicts c \<and> pc_maxAge c \<le> 0 \<longrightarrow> pc_messages c8 = [] \<or> pc_currentSize c8 \<le> pc_maxSize c"
    proof
      assume *: "evicts c \<and> pc_maxAge c \<le> 0"
      then have "c7 = c6" "evicts c5" "pc_maxSize c5 = pc_maxSize c"
        using age frame cfg by (simp_all add: pc_frame_def evicts_def)
      with c6 c8 show "pc_messages c8 = [] \<or> pc_currentSize c8 \<le> pc_maxSize c" by auto
    qed
    show "pc_maxMessages c > 0 \<longrightarrow> int (length (pc_messages c8)) \<le> pc_maxMessages c"
      using c5 c6 c7 c8 cfg by auto
  qed (use res c8 suf exact frame cfg c4(2) in \<open>auto simp: pc_frame_def\<close>)
qed

lemma store_reject:
  assumes "pc_core env c" and "json_message env m = None"
  shows "send_store env NoFault now m c = (Fails ErrWriteMessage, c\<lparr>pc_nextID := pc_nextID c + 1\<rparr>)
    \<and> pc_core env (c\<lparr>pc_nextID := pc_nextID c + 1\<rparr>)
    \<and> pc_contents (c\<lparr>pc_nextID := pc_nextID c + 1\<rparr>) = pc_contents c
    \<and> (pc_synced c \<longrightarrow> pc_synced (c\<lparr>pc_nextID := pc_nextID c + 1\<rparr>))"
  using assms by (auto simp: send_store_def writeMessage_def Let_def pc_core_def entry_ok_def
      pc_contents_def pc_synced_def)

text \<open>Every send without faults: rejected, or stored with the newest messages kept.\<close>

lemma Send_cases:
  assumes core: "pc_core env c" and send: "PC_Send env NoFault now m c = (r, c')"
  shows "pc_core env c' \<and> (pc_synced c \<longrightarrow> pc_synced c')
      \<and> pc_closed c' = pc_closed c \<and> pc_maxMessages c' = pc_maxMessages c \<and> pc_maxAge c' = pc_maxAge c
      \<and> pc_onFull c' = pc_onFull c
    \<and> ((\<exists>e. r = Fails e) \<and> suffix (pc_contents c') (pc_contents c)
        \<and> (\<not> evicts c \<longrightarrow> pc_contents c' = pc_contents c)
      \<or> r = Returns () \<and> (\<exists>m'. json_message env m = Some m' \<and> suffix (pc_contents c') (pc_contents c @ [m'])
        \<and> (pc_maxMessages c > 0 \<longrightarrow> int (length (pc_messages c')) \<le> pc_maxMessages c)
        \<and> (evicts c \<and> pc_maxAge c \<le> 0 \<longrightarrow> pc_messages c' = [] \<or> pc_currentSize c' \<le> pc_maxSize c)
        \<and> (pc_maxMessages c \<le> 0 \<and> pc_maxAge c \<le> 0 \<and> \<not> evicts c \<longrightarrow> pc_contents c' = pc_contents c @ [m'])))"
proof (cases "Message_Validate m = None \<and> \<not> pc_closed c \<and> (pc_currentSize c < pc_maxSize c \<or> evicts c)")
  case False
  then have "\<exists>e. r = Fails e" "c' = c" using send by (auto simp: PC_Send_def split: option.splits if_splits)
  then show ?thesis using core by auto
next
  case True
  define c0 where "c0 = (if pc_currentSize c \<ge> pc_maxSize c then evictUntilUnderSize env NoFault c else c)"
  have store: "send_store env NoFault now m c0 = (r, c')"
    using True send by (auto simp: PC_Send_def c0_def)
  have c0: "pc_core env c0" "suffix (pc_contents c0) (pc_contents c)" "pc_frame c c0"
      "pc_synced c \<longrightarrow> pc_synced c0" "\<not> evicts c \<longrightarrow> c0 = c"
    using evict_core [OF core] core True by (auto simp: c0_def)
  show ?thesis
  proof (cases "json_message env m")
    case None
    from store_reject [OF c0(1) None, of now] store c0 show ?thesis
      by (auto simp: pc_frame_def)
  next
    case (Some m')
    obtain c8 where c8: "send_store env NoFault now m c0 = (Returns (), c8)"
      "pc_core env c8" "pc_synced c8" "suffix (pc_contents c8) (pc_contents c0 @ [m'])"
      "pc_closed c8 = pc_closed c0" "pc_maxMessages c8 = pc_maxMessages c0"
      "pc_maxAge c8 = pc_maxAge c0" "pc_onFull c8 = pc_onFull c0"
      "pc_maxMessages c0 > 0 \<longrightarrow> int (length (pc_messages c8)) \<le> pc_maxMessages c0"
      "evicts c0 \<and> pc_maxAge c0 \<le> 0 \<longrightarrow> pc_messages c8 = [] \<or> pc_currentSize c8 \<le> pc_maxSize c0"
      "pc_maxMessages c0 \<le> 0 \<and> pc_maxAge c0 \<le> 0 \<and> \<not> evicts c0 \<longrightarrow> pc_contents c8 = pc_contents c0 @ [m']"
      by (rule store_core [OF c0(1) Some])
    have "suffix (pc_contents c8) (pc_contents c @ [m'])"
      using c8(4) suffix_snoc [OF c0(2)] by (rule suffix_order.trans)
    moreover have "r = Returns ()" "c' = c8" using store c8(1) by auto
    ultimately show ?thesis
      using c8(2-11) c0(3,5) Some by (auto simp: pc_frame_def evicts_def)
  qed
qed

text \<open>Receiving without faults takes the head.\<close>

lemma Receive_cases:
  assumes core: "pc_core env c" and recv: "PC_Receive env NoFault c = (q, c')"
  shows "pc_core env c' \<and> (pc_synced c \<longrightarrow> pc_synced c') \<and> pc_frame c c'
    \<and> ((\<exists>e. q = Fails e) \<and> c' = c \<and> (pc_closed c \<or> pc_messages c = [])
      \<or> \<not> pc_closed c \<and> (\<exists>m. q = Returns m \<and> pc_contents c = m # pc_contents c'))"
proof (cases "pc_closed c \<or> pc_messages c = []")
  case True
  then have "\<exists>e. q = Fails e" "c' = c"
    using recv by (cases "pc_closed c"; force simp: PC_Receive_def)+
  then show ?thesis using True core by auto
next
  case False
  then obtain pm rest where msgs: "pc_messages c = pm # rest" by (cases "pc_messages c") auto
  let ?c = "c\<lparr>pc_currentSize := pc_currentSize c - entry_size env (pc_disk c) pm,
      pc_disk := (pc_disk c)(pp_Filename pm := None), pc_messages := rest\<rparr>"
  note d = drop_head_core [OF core msgs refl]
  obtain m where m: "pc_disk c (pp_Filename pm) = Some (FileMsg m)"
    using core msgs by (auto simp: pc_core_def entry_ok_def)
  obtain c2 where save: "saveIndex NoFault ?c = Some c2" by (simp add: saveIndex_ok)
  have eq: "remove_file (pp_Filename pm)
      (c\<lparr>pc_messages := rest, pc_currentSize := pc_currentSize c - env_file_size env m\<rparr>) = ?c"
    by (rule PersistentChannel.PersistentChannel.equality) (simp_all add: remove_file_def entry_size_def file_size_def m)
  have "readMessage (pc_disk c) (pp_Filename pm) = Some m" by (simp add: readMessage_def m)
  then have "PC_Receive env NoFault c = (Returns m, c2)" "m = hd (pc_contents c)"
    using False msgs eq save d by (simp_all add: PC_Receive_def Let_def file_size_def m)
  moreover have "pc_contents c \<noteq> []" using msgs by (simp add: pc_contents_def)
  ultimately show ?thesis
    using recv save_core [OF _ save] d False by (auto intro: pc_frame_trans)
qed

lemma Close_core:
  assumes core: "pc_core env c" and close: "PC_Close NoFault c = (r, c')"
  shows "r = None \<and> pc_core env c' \<and> (pc_synced c \<longrightarrow> pc_synced c') \<and> pc_closed c'
    \<and> pc_contents c' = pc_contents c"
proof (cases "pc_closed c")
  case True
  then show ?thesis using core close by (simp add: PC_Close_def)
next
  case False
  have closed: "pc_core env (c\<lparr>pc_closed := True\<rparr>)" "pc_contents (c\<lparr>pc_closed := True\<rparr>) = pc_contents c"
  proof -
    have "entry_ok (c\<lparr>pc_closed := True\<rparr>) = entry_ok c" by (simp add: entry_ok_def fun_eq_iff)
    then show "pc_core env (c\<lparr>pc_closed := True\<rparr>)" using core by (simp add: pc_core_def)
  qed (simp add: pc_contents_def)
  obtain c2 where save: "saveIndex NoFault (c\<lparr>pc_closed := True\<rparr>) = Some c2" by (simp add: saveIndex_ok)
  then have "r = None" "c' = c2" using close False by (simp_all add: PC_Close_def)
  then show ?thesis using save_core [OF closed(1) save] closed(2) by (simp add: pc_frame_def)
qed

lemma remove_files_disk:
  "pc_disk (fold (\<lambda>pm. remove_file (pp_Filename pm)) pms c) n
     = (if n \<in> pp_Filename ` set pms then None else pc_disk c n)"
  by (induction pms arbitrary: c) (auto simp: remove_file_def)

lemma Cleanup_core:
  assumes "PC_Cleanup NoFault c = (r, c')"
  shows "r = None \<and> pc_core env c' \<and> pc_synced c' \<and> pc_contents c' = [] \<and> pc_messages c' = []"
proof -
  let ?c = "(fold (\<lambda>pm. remove_file (pp_Filename pm)) (pc_messages c) c)\<lparr>pc_messages := [], pc_currentSize := 0, pc_nextID := 0\<rparr>"
  have core: "pc_core env ?c" by (simp add: pc_core_def)
  obtain c2 where save: "saveIndex NoFault ?c = Some c2" by (simp add: saveIndex_ok)
  then have "r = None" "c' = c2" using assms by (simp_all add: PC_Cleanup_def Let_def)
  then show ?thesis using save_core [OF core save] by (simp add: pc_contents_def)
qed

lemma tick_core:
  assumes core: "pc_core env c"
  shows "pc_core env (cleanup_tick env NoFault now c)
    \<and> (pc_synced c \<longrightarrow> pc_synced (cleanup_tick env NoFault now c))"
proof -
  note a = enforceMaxAge_core [OF core, of now]
  note b = enforceMaxMessages_core [OF conjunct1 [OF a]]
  note d = evict_core [OF conjunct1 [OF b]]
  show ?thesis using a b d by (auto simp: cleanup_tick_def Let_def)
qed

subsection \<open>The FIFO contract\<close>

text \<open>A channel that keeps everything: no limit on number and age, no eviction by size.\<close>

definition keeps_all :: "Env \<Rightarrow> PersistentChannel \<Rightarrow> bool" where
  "keeps_all env c \<longleftrightarrow> pc_core env c \<and> pc_maxMessages c \<le> 0 \<and> pc_maxAge c \<le> 0 \<and> \<not> evicts c"

definition json_view :: "Env \<Rightarrow> Message \<Rightarrow> Message" where
  "json_view env m = (case json_message env m of Some m' \<Rightarrow> m' | None \<Rightarrow> m)"

interpretation pers: fifo_channel "\<lambda>a m. PC_Send env NoFault now m" "\<lambda>a. PC_Receive env NoFault"
  pc_contents "json_view env" "keeps_all env" for env now
proof unfold_locales
  fix c a m r c'
  assume inv: "keeps_all env c" and call: "PC_Send env NoFault now m c = (r, c')"
  then have core: "pc_core env c" by (simp add: keeps_all_def)
  note cases = Send_cases [OF core call]
  show "keeps_all env c'" using cases inv by (simp add: keeps_all_def evicts_def)
  show "pc_contents c' = (if r = Returns () then pc_contents c @ [json_view env m] else pc_contents c)"
    using cases inv by (auto simp: keeps_all_def json_view_def)
next
  fix c a q c'
  assume inv: "keeps_all env c" and call: "PC_Receive env NoFault c = (q, c')"
  then have core: "pc_core env c" by (simp add: keeps_all_def)
  note cases = Receive_cases [OF core call]
  show "keeps_all env c'" using cases inv by (simp add: keeps_all_def evicts_def pc_frame_def)
  show "pc_contents c = (case q of Returns m \<Rightarrow> m # pc_contents c' | _ \<Rightarrow> pc_contents c')"
    using cases by auto
qed

text \<open>A new channel in an empty directory.\<close>

definition fresh_channel :: "PersistentChannelConfig \<Rightarrow> PersistentChannel" where
  "fresh_channel config = \<lparr>pc_disk = Map.empty, pc_messages = [], pc_closed = False,
     pc_timeout = (if pcc_Timeout config \<le> 0 then seconds 30 else pcc_Timeout config), pc_nextID = 0,
     pc_maxSize = (if pcc_MaxSizeMB config \<le> 0 then 100 else pcc_MaxSizeMB config) * 1024 * 1024,
     pc_currentSize = 0, pc_syncWrites = pcc_SyncWrites config,
     pc_maxMessages = pcc_MaxMessages config, pc_maxAge = pcc_MaxAge config, pc_onFull = pcc_OnFull config\<rparr>"

lemma New_fresh:
  "pcc_DataDir config \<noteq> [] \<Longrightarrow> NewPersistentChannel env now [] Map.empty config = Inr (fresh_channel config)"
  by (simp add: NewPersistentChannel_def loadIndex_def fresh_channel_def)

lemma fresh_core: "pc_core env (fresh_channel config) \<and> pc_synced (fresh_channel config)
    \<and> pc_contents (fresh_channel config) = []"
  by (simp add: fresh_channel_def pc_core_def pc_synced_def pc_contents_def)

subsection \<open>Properties\<close>

text \<open>
  C33: first in, first out on disk. On a new channel without retention limits and without I/O faults,
  whatever the sequence of sends and receives, the messages whose sends returned nil, as JSON gives
  them back, are the received ones, in order, followed by the ones still stored.
\<close>

theorem persistent_fifo:
  assumes "pcc_DataDir config \<noteq> []" and "pcc_MaxMessages config \<le> 0" and "pcc_MaxAge config \<le> 0"
    and "pcc_OnFull config \<noteq> ''evict_oldest''"
  shows "\<exists>c0. NewPersistentChannel env now [] Map.empty config = Inr c0
    \<and> (case chan_run (\<lambda>a m. PC_Send env NoFault now m) (\<lambda>a. PC_Receive env NoFault) ops c0 of
        (ms, ns, c) \<Rightarrow> map (json_view env) ms = ns @ pc_contents c)"
proof -
  let ?c = "fresh_channel config"
  obtain ms ns c where run: "chan_run (\<lambda>a m. PC_Send env NoFault now m) (\<lambda>a. PC_Receive env NoFault) ops ?c = (ms, ns, c)"
    by (metis prod_cases3)
  have "keeps_all env ?c"
    using assms fresh_core [of env config] by (simp add: keeps_all_def evicts_def fresh_channel_def)
  from pers.run_from_empty [OF this _ run] fresh_core [of env config]
  have "map (json_view env) ms = ns @ pc_contents c" by simp
  then show ?thesis using New_fresh [OF assms(1)] run by (intro exI [of _ ?c]) simp
qed

definition plain_config :: PersistentChannelConfig where
  "plain_config = \<lparr>pcc_DataDir = ''d'', pcc_MaxSizeMB = 1, pcc_Timeout = 0, pcc_SyncWrites = False,
     pcc_MaxMessages = 0, pcc_MaxAge = 0, pcc_OnFull = []\<rparr>"

theorem persistent_fifo_witness:
  "case chan_run (\<lambda>a m. PC_Send \<lparr>env_time_text = (\<lambda>_. []), env_file_size = (\<lambda>_. 10)\<rparr> NoFault 0 m)
      (\<lambda>a. PC_Receive \<lparr>env_time_text = (\<lambda>_. []), env_file_size = (\<lambda>_. 10)\<rparr> NoFault)
      [OpSend ArmChan (zero_message\<lparr>m_ID := ''m'', m_Type := ''data'', m_Source := ''s'', m_Target := ''t''\<rparr>), OpReceive ArmChan, OpReceive ArmChan] (fresh_channel plain_config) of
    (ms, ns, c) \<Rightarrow> map (json_view \<lparr>env_time_text = (\<lambda>_. []), env_file_size = (\<lambda>_. 10)\<rparr>) ms = ns @ pc_contents c"
proof -
  have "pcc_DataDir plain_config \<noteq> []" by (simp add: plain_config_def)
  note new = New_fresh [OF this, of "\<lparr>env_time_text = (\<lambda>_. []), env_file_size = (\<lambda>_. 10)\<rparr>" 0]
  show ?thesis
    using persistent_fifo [of plain_config "\<lparr>env_time_text = (\<lambda>_. []), env_file_size = (\<lambda>_. 10)\<rparr>" 0
        "[OpSend ArmChan (zero_message\<lparr>m_ID := ''m'', m_Type := ''data'', m_Source := ''s'', m_Target := ''t''\<rparr>), OpReceive ArmChan, OpReceive ArmChan]"] new
    by (auto simp: plain_config_def)
qed

text \<open>The use of a channel without faults: any calls, with any retention configuration.\<close>

inductive pc_used :: "Env \<Rightarrow> PersistentChannel \<Rightarrow> bool" for env where
  used_new: "pcc_DataDir config \<noteq> [] \<Longrightarrow>
     NewPersistentChannel env now [] Map.empty config = Inr c \<Longrightarrow> pc_used env c"
| used_send: "pc_used env c \<Longrightarrow> PC_Send env NoFault now m c = (r, c') \<Longrightarrow> pc_used env c'"
| used_receive: "pc_used env c \<Longrightarrow> PC_Receive env NoFault c = (q, c') \<Longrightarrow> pc_used env c'"
| used_close: "pc_used env c \<Longrightarrow> PC_Close NoFault c = (e, c') \<Longrightarrow> pc_used env c'"
| used_cleanup: "pc_used env c \<Longrightarrow> PC_Cleanup NoFault c = (e, c') \<Longrightarrow> pc_used env c'"
| used_tick: "pc_used env c \<Longrightarrow> pc_used env (cleanup_tick env NoFault now c)"

lemma pc_used_inv: "pc_used env c \<Longrightarrow> pc_core env c \<and> pc_synced c"
proof (induction rule: pc_used.induct)
  case (used_new config now c)
  then show ?case using New_fresh fresh_core by fastforce
next
  case (used_send c now m r c')
  then show ?case using Send_cases [of env c now m r c'] by auto
next
  case (used_receive c q c')
  then show ?case using Receive_cases [of env c q c'] by auto
next
  case (used_close c e c')
  then show ?case using Close_core [of env c e c'] by auto
next
  case (used_cleanup c e c')
  then show ?case using Cleanup_core [of c e c' env] by auto
next
  case (used_tick c now)
  then show ?case using tick_core [of env c now] by auto
qed

lemma index_size_sum:
  "index_size env disk pms = sum_list (map (entry_size env disk) pms)"
proof -
  have "fold (\<lambda>pm tot. case file_size env disk (pp_Filename pm) of Some s \<Rightarrow> tot + s | None \<Rightarrow> tot) pms t
      = t + sum_list (map (entry_size env disk) pms)" for t
    by (induction pms arbitrary: t) (auto simp: entry_size_def split: option.splits)
  then show ?thesis by (simp add: index_size_def)
qed



text \<open>
  retention keeps the newest. A send that returns nil on a used channel leaves a suffix of the
  stored messages with the new one at the end; with a limit on the number of messages at most that
  many are left, with eviction by size (and no age limit) the total size is within the limit or the
  channel is empty: then the message just sent is gone too, although the send succeeded.
\<close>

theorem persistent_retention:
  assumes "pc_used env c" and "PC_Send env NoFault now m c = (Returns (), c')"
  shows "\<exists>m'. json_message env m = Some m' \<and> suffix (pc_contents c') (pc_contents c @ [m'])
    \<and> (pc_maxMessages c > 0 \<longrightarrow> int (length (pc_contents c')) \<le> pc_maxMessages c)
    \<and> (evicts c \<and> pc_maxAge c \<le> 0 \<longrightarrow> pc_contents c' = [] \<or> pc_currentSize c' \<le> pc_maxSize c)"
  using Send_cases [OF _ assms(2)] pc_used_inv [OF assms(1)]
  by (auto simp: pc_contents_def)

definition sample_message :: Message where
  "sample_message = zero_message\<lparr>m_ID := ''id'', m_Type := MessageTypeData, m_Source := ''a'', m_Target := ''b''\<rparr>"

lemma sample_message_valid: "Message_Validate sample_message = None"
  by (simp add: Message_Validate_def MessageTypeData_def sample_message_def)

lemma sample_json: "json_message env sample_message = Some sample_message"
  by (simp add: json_message_def sample_message_def zero_message_def)

theorem persistent_retention_witness:
  "\<exists>c'. PC_Send \<lparr>env_time_text = (\<lambda>_. []), env_file_size = (\<lambda>_. 10)\<rparr> NoFault 0 sample_message
      (fresh_channel plain_config) = (Returns (), c') \<and> suffix (pc_contents c') [sample_message]"
proof -
  let ?env = "\<lparr>env_time_text = (\<lambda>_. []), env_file_size = (\<lambda>_. 10)\<rparr>"
  let ?c = "fresh_channel plain_config"
  have dir: "pcc_DataDir plain_config \<noteq> []" by (simp add: plain_config_def)
  have used: "pc_used ?env ?c" by (rule used_new [OF dir New_fresh [OF dir]])
  have core: "pc_core ?env ?c" "pc_contents ?c = []" using fresh_core by auto
  have "\<not> pc_closed ?c" "pc_currentSize ?c < pc_maxSize ?c"
    by (simp_all add: fresh_channel_def plain_config_def)
  then have "PC_Send ?env NoFault 0 sample_message ?c = send_store ?env NoFault 0 sample_message ?c"
    by (simp add: PC_Send_def sample_message_valid)
  moreover obtain c' where "send_store ?env NoFault 0 sample_message ?c = (Returns (), c')"
    by (rule store_core [OF core(1) sample_json])
  ultimately have send: "PC_Send ?env NoFault 0 sample_message ?c = (Returns (), c')" by simp
  from persistent_retention [OF used send] send core(2) sample_json show ?thesis by auto
qed

text \<open>
  a failed send blocks the channel. When only writing the index fails, \<^verbatim>\<open>Send\<close> returns an
  error and removes the message's file but keeps its entry: on an empty channel every later
  \<^verbatim>\<open>Receive\<close> fails on the missing file and leaves the entry where it is.
\<close>

theorem failed_send_blocks_receive:
  assumes "pc_messages c = []" and "\<not> pc_closed c" and "pc_currentSize c < pc_maxSize c"
    and "pc_maxMessages c \<le> 0" and "pc_maxAge c \<le> 0" and "\<not> evicts c"
    and "Message_Validate m = None" and "json_message env m = Some m'"
  shows "\<exists>c'. PC_Send env IndexFault now m c = (Fails ErrSaveIndex, c')
    \<and> PC_Receive env io c' = (Fails ErrReadMessage, c')"
proof -
  let ?n = "pc_nextID c + 1"
  let ?c4 = "c\<lparr>pc_nextID := ?n, pc_disk := (pc_disk c)(msg_name ?n \<mapsto> FileMsg m'),
      pc_currentSize := pc_currentSize c + env_file_size env m',
      pc_messages := [\<lparr>pp_ID = ?n, pp_Message = m, pp_Filename = msg_name ?n, pp_Created = now\<rparr>]\<rparr>"
  have ret: "send_retention env IndexFault now ?c4 = ?c4"
    using assms(4-6) by (simp add: send_retention_def Let_def enforceMaxMessages.simps enforceMaxAge.simps evicts_def)
  have "send_store env IndexFault now m c = (Fails ErrSaveIndex, remove_file (msg_name ?n) ?c4)"
    using assms(1,8) ret by (simp add: send_store_def writeMessage_def file_size_def Let_def saveIndex_def)
  moreover have "PC_Receive env io (remove_file (msg_name ?n) ?c4) = (Fails ErrReadMessage, remove_file (msg_name ?n) ?c4)"
    using assms(2) by (simp add: PC_Receive_def remove_file_def readMessage_def)
  ultimately show ?thesis using assms(2,3,7) by (simp add: PC_Send_def)
qed

theorem failed_send_blocks_receive_witness:
  "\<exists>c'. PC_Send \<lparr>env_time_text = (\<lambda>_. []), env_file_size = (\<lambda>_. 10)\<rparr> IndexFault 0 sample_message
      (fresh_channel plain_config) = (Fails ErrSaveIndex, c')
    \<and> PC_Receive \<lparr>env_time_text = (\<lambda>_. []), env_file_size = (\<lambda>_. 10)\<rparr> NoFault c' = (Fails ErrReadMessage, c')"
  by (rule failed_send_blocks_receive [OF _ _ _ _ _ _ sample_message_valid sample_json])
    (simp_all add: fresh_channel_def plain_config_def evicts_def)

text \<open>
  recovery loses the order. When the index is unreadable, the messages are taken in the order of
  their file names: a directory with the second and the tenth message recovers the tenth first.
\<close>

theorem recovery_breaks_fifo:
  "\<exists>c. NewPersistentChannel env now [''index.json'', ''msg_10.json'', ''msg_2.json'']
      [''index.json'' \<mapsto> FileOther, ''msg_2.json'' \<mapsto> FileMsg m2, ''msg_10.json'' \<mapsto> FileMsg m10]
      plain_config = Inr c
    \<and> map pp_ID (pc_messages c) = [10, 2] \<and> pc_contents c = [m10, m2] \<and> pc_nextID c = 10
    \<and> sorted [''index.json'', ''msg_10.json'', ''msg_2.json'']"
proof -
  have files: "is_msg_file ''msg_10.json''" "is_msg_file ''msg_2.json''" "\<not> is_msg_file ''index.json''"
    by (simp_all add: is_msg_file_def has_suffix_def)
  have ids: "scan_prefixed ''msg_'' ''msg_10.json'' = Some 10" "scan_prefixed ''msg_'' ''msg_2.json'' = Some 2"
    by (simp_all add: scan_prefixed_def scan_int_def is_digit_def digit_val_def)
  have "sorted [''index.json'', ''msg_10.json'', ''msg_2.json'']"
    by (simp add: less_eq_char_def)
  then show ?thesis
    by (simp add: NewPersistentChannel_def plain_config_def loadIndex_def index_name_def recoverIndex_def
        files ids readMessage_def pc_contents_def file_size_def Let_def)
qed

end
