(* ===== verification/PregelMessages.thy ===== *)
theory PregelMessages
  imports GoValue
begin

section \<open>Pregel messages (internal/core/pregel/message.go)\<close>

text \<open>
  Messages between vertices, the aggregator that collects them per target vertex and the five
  combiners. Message pointers are never nil in the program: they are modelled as records, and the
  aggregator's locked methods are functions on its state.
\<close>

subsection \<open>Data\<close>

record PMessage =
  pm_From :: string
  pm_To :: string
  pm_Value :: gval
  pm_Step :: int

datatype MessageCombiner = SumCombiner | MinCombiner | MaxCombiner | ListCombiner | NoCombiner

record MessageAggregator =
  ma_messages :: "string \<rightharpoonup> PMessage list"
  ma_combiner :: "MessageCombiner option"

subsection \<open>Combiners\<close>

text \<open>The two type assertions of the numeric combiners.\<close>

definition numeric :: "gval \<Rightarrow> f64 option" where
  "numeric v = (case v of VInt n \<Rightarrow> Some (f_of_int n) | VFloat x \<Rightarrow> Some x | _ \<Rightarrow> None)"

fun sum_values :: "PMessage list \<Rightarrow> f64 \<Rightarrow> f64" where
  "sum_values [] acc = acc"
| "sum_values (m # ms) acc =
     (case numeric (pm_Value m) of
        Some x \<Rightarrow> sum_values ms (f_add acc x)
      | None \<Rightarrow> sum_values ms acc)"

definition Sum_Combine :: "PMessage list \<Rightarrow> PMessage option" where
  "Sum_Combine messages =
     (case messages of
        [] \<Rightarrow> None
      | first # _ \<Rightarrow>
          Some \<lparr>pm_From = pm_From first, pm_To = pm_To first,
                pm_Value = VFloat (sum_values messages 0), pm_Step = pm_Step first\<rparr>)"

text \<open>\<^verbatim>\<open>float64(1000000)\<close> and \<^verbatim>\<open>float64(-1000000)\<close>\<close>

definition f_million :: f64 where "f_million = 0x412E848000000000"
definition f_minus_million :: f64 where "f_minus_million = 0xC12E848000000000"

text \<open>
  The loop of the minimum and the maximum combiner: \<open>better val best\<close> is the comparison.
\<close>

fun best_of ::
  "(f64 \<Rightarrow> f64 \<Rightarrow> bool) \<Rightarrow> PMessage list \<Rightarrow> f64 \<times> PMessage option \<Rightarrow> f64 \<times> PMessage option" where
  "best_of better [] acc = acc"
| "best_of better (m # ms) (best, bestMsg) =
     (case numeric (pm_Value m) of
        None \<Rightarrow> best_of better ms (best, bestMsg)
      | Some val \<Rightarrow>
          if better val best then best_of better ms (val, Some m)
          else best_of better ms (best, bestMsg))"

definition best_message :: "(f64 \<Rightarrow> f64 \<Rightarrow> bool) \<Rightarrow> f64 \<Rightarrow> PMessage list \<Rightarrow> PMessage option" where
  "best_message better start messages =
     (case messages of
        [] \<Rightarrow> None
      | first # _ \<Rightarrow>
          (case best_of better messages (start, None) of
             (best, Some m) \<Rightarrow>
               Some \<lparr>pm_From = pm_From m, pm_To = pm_To m, pm_Value = VFloat best, pm_Step = pm_Step m\<rparr>
           | (best, None) \<Rightarrow> Some first))"

definition Min_Combine :: "PMessage list \<Rightarrow> PMessage option" where
  "Min_Combine = best_message (\<lambda>val best. f_less val best) f_million"

definition Max_Combine :: "PMessage list \<Rightarrow> PMessage option" where
  "Max_Combine = best_message (\<lambda>val best. f_less best val) f_minus_million"

definition List_Combine :: "PMessage list \<Rightarrow> PMessage option" where
  "List_Combine messages =
     (case messages of
        [] \<Rightarrow> None
      | first # _ \<Rightarrow>
          Some \<lparr>pm_From = pm_From first, pm_To = pm_To first,
                pm_Value = VList (map pm_Value messages), pm_Step = pm_Step first\<rparr>)"

definition No_Combine :: "PMessage list \<Rightarrow> PMessage option" where
  "No_Combine messages = (case messages of [] \<Rightarrow> None | m # _ \<Rightarrow> Some m)"

definition Combine :: "MessageCombiner \<Rightarrow> PMessage list \<Rightarrow> PMessage option" where
  "Combine c messages =
     (case c of
        SumCombiner \<Rightarrow> Sum_Combine messages
      | MinCombiner \<Rightarrow> Min_Combine messages
      | MaxCombiner \<Rightarrow> Max_Combine messages
      | ListCombiner \<Rightarrow> List_Combine messages
      | NoCombiner \<Rightarrow> No_Combine messages)"

lemmas combine_defs = Combine_def Sum_Combine_def Min_Combine_def Max_Combine_def best_message_def
  List_Combine_def No_Combine_def

lemma Combine_nil: "Combine c messages = None \<longleftrightarrow> messages = []"
  by (auto simp: combine_defs split: MessageCombiner.splits list.splits prod.splits option.splits)

subsection \<open>The aggregator\<close>

definition NewMessageAggregator :: "MessageCombiner option \<Rightarrow> MessageAggregator" where
  "NewMessageAggregator combiner = \<lparr>ma_messages = Map.empty, ma_combiner = combiner\<rparr>"

text \<open>Reading a missing key of a Go map gives the zero value, here the nil slice.\<close>

definition vertex_messages :: "string \<Rightarrow> MessageAggregator \<Rightarrow> PMessage list" where
  "vertex_messages vid ma = (case ma_messages ma vid of Some ms \<Rightarrow> ms | None \<Rightarrow> [])"

definition AddMessage :: "PMessage \<Rightarrow> MessageAggregator \<Rightarrow> MessageAggregator" where
  "AddMessage msg ma =
     ma\<lparr>ma_messages := (ma_messages ma)(pm_To msg \<mapsto> vertex_messages (pm_To msg) ma @ [msg])\<rparr>"

definition GetMessages :: "string \<Rightarrow> MessageAggregator \<Rightarrow> PMessage list" where
  "GetMessages vid ma =
     (let msgs = vertex_messages vid ma in
      case ma_combiner ma of
        Some c \<Rightarrow>
          if length msgs > 1
          then (case Combine c msgs of Some combined \<Rightarrow> [combined] | None \<Rightarrow> [])
          else msgs
      | None \<Rightarrow> msgs)"

definition ClearMessages :: "MessageAggregator \<Rightarrow> MessageAggregator" where
  "ClearMessages ma = ma\<lparr>ma_messages := Map.empty\<rparr>"

definition GetAllMessages :: "string list \<Rightarrow> MessageAggregator \<Rightarrow> (string \<rightharpoonup> PMessage list)" where
  "GetAllMessages vids ma = range_copy (ma_messages ma) vids Map.empty"

fun count_loop :: "string list \<Rightarrow> MessageAggregator \<Rightarrow> nat \<Rightarrow> nat" where
  "count_loop [] ma n = n"
| "count_loop (v # vs) ma n = count_loop vs ma (n + length (vertex_messages v ma))"

definition GetMessageCount :: "string list \<Rightarrow> MessageAggregator \<Rightarrow> nat" where
  "GetMessageCount vids ma = count_loop vids ma 0"

definition HasMessages :: "string list \<Rightarrow> MessageAggregator \<Rightarrow> bool" where
  "HasMessages vids ma = list_ex (\<lambda>v. vertex_messages v ma \<noteq> []) vids"

definition RemoveMessagesForVertex :: "string \<Rightarrow> MessageAggregator \<Rightarrow> MessageAggregator" where
  "RemoveMessagesForVertex vid ma = ma\<lparr>ma_messages := (ma_messages ma)(vid := None)\<rparr>"

subsection \<open>Delivery\<close>

text \<open>
  What a client relies on when it sends messages through a store: adding appends to the target's
  box only, wiping empties every box.
\<close>

locale mailbox =
  fixes add :: "'m \<Rightarrow> 's \<Rightarrow> 's"
    and box :: "string \<Rightarrow> 's \<Rightarrow> 'm list"
    and wipe :: "'s \<Rightarrow> 's"
    and target :: "'m \<Rightarrow> string"
  assumes box_add: "box v (add m s) = (if v = target m then box v s @ [m] else box v s)"
    and box_wipe: "box v (wipe s) = []"
begin

lemma box_deliver: "box v (fold add ms s) = box v s @ filter (\<lambda>m. target m = v) ms"
  by (induction ms arbitrary: s) (auto simp: box_add)

lemma box_deliver_two:
  "box v (fold add ms (fold add ns s)) = box v s @ filter (\<lambda>m. target m = v) (ns @ ms)"
  by (simp add: box_deliver)

lemma box_wiped: "box v (fold add ms (wipe s)) = filter (\<lambda>m. target m = v) ms"
  by (simp add: box_deliver box_wipe)

end

interpretation agg: mailbox AddMessage vertex_messages ClearMessages pm_To
  by unfold_locales (auto simp: AddMessage_def ClearMessages_def vertex_messages_def)

lemma AddMessage_combiner [simp]: "ma_combiner (AddMessage m ma) = ma_combiner ma"
  by (simp add: AddMessage_def)

lemma deliver_combiner [simp]: "ma_combiner (fold AddMessage ms ma) = ma_combiner ma"
  by (induction ms arbitrary: ma) simp_all

lemma ClearMessages_combiner [simp]: "ma_combiner (ClearMessages ma) = ma_combiner ma"
  by (simp add: ClearMessages_def)

lemma GetMessages_empty: "vertex_messages v ma = [] \<Longrightarrow> GetMessages v ma = []"
  by (simp add: GetMessages_def split: option.splits)

lemma GetMessages_ClearMessages [simp]: "GetMessages v (ClearMessages ma) = []"
  by (simp add: GetMessages_empty agg.box_wipe)

subsection \<open>The message count\<close>

lemma count_loop_sum:
  "count_loop vs ma n = n + sum_list (map (\<lambda>v. length (vertex_messages v ma)) vs)"
  by (induction vs arbitrary: n) auto

lemma count_add_distinct:
  "distinct vs \<Longrightarrow> sum_list (map (\<lambda>v. length (vertex_messages v (AddMessage m ma))) vs)
     = sum_list (map (\<lambda>v. length (vertex_messages v ma)) vs) + (if pm_To m \<in> set vs then 1 else 0)"
  by (induction vs) (auto simp: agg.box_add)

lemma count_cover:
  assumes "distinct vs" and "dom (ma_messages ma) \<subseteq> set vs" and "map_order (ma_messages ma) us"
  shows "sum_list (map (\<lambda>v. length (vertex_messages v ma)) vs) = GetMessageCount us ma"
proof -
  let ?f = "\<lambda>v. length (vertex_messages v ma)"
  have us: "distinct us" "set us = dom (ma_messages ma)" using assms(3) by (auto simp: map_order_def)
  have "sum_list (map ?f vs) = sum ?f (set vs)" by (simp add: assms(1) sum_list_distinct_conv_sum_set)
  also have "\<dots> = sum ?f (set us)"
  proof (rule sum.mono_neutral_right)
    show "\<forall>v \<in> set vs - set us. ?f v = 0"
      by (auto simp: us(2) vertex_messages_def split: option.splits)
  qed (use assms(2) us in auto)
  also have "\<dots> = GetMessageCount us ma"
    by (simp add: us(1) sum_list_distinct_conv_sum_set GetMessageCount_def count_loop_sum)
  finally show ?thesis .
qed

subsection \<open>The minimum and the maximum\<close>

text \<open>
  The comparisons are strict orders of an integer key on the values that are numbers. The loop ends
  with a value that no number among the messages beats: the start value, or the value of the
  message it names, which then beats the start value.
\<close>

lemma best_of_result:
  assumes key: "\<And>x y. better x y \<longleftrightarrow> ok x \<and> ok y \<and> (g x :: int) < g y"
    and "best_of better ms (b, bm) = (b', bm')" and "ok b"
  shows "ok b' \<and> g b' \<le> g b
    \<and> (b' = b \<and> bm' = bm
       \<or> g b' < g b \<and> (\<exists>m \<in> set ms. bm' = Some m \<and> numeric (pm_Value m) = Some b'))
    \<and> (\<forall>m \<in> set ms. \<forall>x. numeric (pm_Value m) = Some x \<longrightarrow> ok x \<longrightarrow> g b' \<le> g x)"
  using assms(2,3)
proof (induction ms arbitrary: b bm)
  case Nil
  then show ?case by simp
next
  case (Cons m ms)
  show ?case
  proof (cases "numeric (pm_Value m)")
    case None
    with Cons.prems Cons.IH [of b bm] show ?thesis by auto
  next
    case (Some x)
    show ?thesis
    proof (cases "better x b")
      case True
      with Some Cons.prems Cons.IH [of x "Some m"] key show ?thesis by auto
    next
      case False
      with Some Cons.prems Cons.IH [of b bm] key show ?thesis by auto
    qed
  qed
qed

lemma f_million_ok: "\<not> f_nan f_million" "\<not> f_nan f_minus_million"
  by (simp_all add: f_nan_def f_exp_def f_million_def f_minus_million_def)

lemma best_message_result:
  assumes key: "\<And>x y. better x y \<longleftrightarrow> \<not> f_nan x \<and> \<not> f_nan y \<and> (g x :: int) < g y"
    and start: "\<not> f_nan start"
    and m0: "m0 \<in> set ms" "numeric (pm_Value m0) = Some x0" "better x0 start"
  shows "\<exists>m \<in> set ms. \<exists>x. numeric (pm_Value m) = Some x
    \<and> best_message better start ms = Some (m\<lparr>pm_Value := VFloat x\<rparr>)
    \<and> (\<forall>n \<in> set ms. \<forall>y. numeric (pm_Value n) = Some y \<longrightarrow> \<not> better y x)"
proof -
  obtain b bm where loop: "best_of better ms (start, None) = (b, bm)" by fastforce
  have key': "\<And>x y. better x y \<longleftrightarrow> (\<lambda>x. \<not> f_nan x) x \<and> (\<lambda>x. \<not> f_nan x) y \<and> g x < g y"
    using key by simp
  note res = best_of_result [OF key' loop] and st = start
  have low: "\<not> better y b" if "n \<in> set ms" "numeric (pm_Value n) = Some y" for n y
    using res st that key by force
  from m0 low key st res have "b \<noteq> start" by blast
  with res st obtain m where m: "m \<in> set ms" "bm = Some m" "numeric (pm_Value m) = Some b" by blast
  obtain first rest where "ms = first # rest" using m0(1) by (cases ms) auto
  with loop m(2) have "best_message better start ms = Some (m\<lparr>pm_Value := VFloat b\<rparr>)"
    by (simp add: best_message_def)
  with m low show ?thesis by blast
qed

subsection \<open>Properties\<close>

text \<open>
  the aggregator delivers. After any sequence of messages, the box of a vertex holds the messages
  addressed to it in the order they were added, behind what it held before, the other boxes do not
  change, and \<^verbatim>\<open>GetMessages\<close> hands out at most one message when a combiner is set.
\<close>

theorem aggregator_delivery:
  "vertex_messages v (fold AddMessage ms ma) = vertex_messages v ma @ filter (\<lambda>m. pm_To m = v) ms
    \<and> (if ma_combiner ma = None
       then GetMessages v (fold AddMessage ms ma) = vertex_messages v (fold AddMessage ms ma)
       else length (GetMessages v (fold AddMessage ms ma)) \<le> 1)"
proof (intro conjI)
  show "vertex_messages v (fold AddMessage ms ma) = vertex_messages v ma @ filter (\<lambda>m. pm_To m = v) ms"
    by (rule agg.box_deliver)
qed (auto simp: GetMessages_def Let_def split: option.splits)

text \<open>
  the minimum combiner. When some number among the messages is below the source's start value
  1000000, the combined message carries the least number of all, converted to \<^verbatim>\<open>float64\<close>, with
  the addresses and the step of a message that has it: integer and float payloads, infinities,
  signed zeros and NaNs included.
\<close>

theorem min_combiner_least:
  assumes "m0 \<in> set ms" and "numeric (pm_Value m0) = Some x0" and "f_less x0 f_million"
  shows "\<exists>m \<in> set ms. \<exists>x. numeric (pm_Value m) = Some x
    \<and> Combine MinCombiner ms = Some (m\<lparr>pm_Value := VFloat x\<rparr>)
    \<and> (\<forall>n \<in> set ms. \<forall>y. numeric (pm_Value n) = Some y \<longrightarrow> \<not> f_less y x)"
proof -
  have "f_less x y \<longleftrightarrow> \<not> f_nan x \<and> \<not> f_nan y \<and> f_key x < f_key y" for x y
    by (simp add: f_less_def)
  from best_message_result [of f_less f_key, OF this f_million_ok(1) assms] show ?thesis
    by (simp add: Combine_def Min_Combine_def)
qed

lemma max_combiner_greatest:
  assumes "m0 \<in> set ms" and "numeric (pm_Value m0) = Some x0" and "f_less f_minus_million x0"
  shows "\<exists>m \<in> set ms. \<exists>x. numeric (pm_Value m) = Some x
    \<and> Combine MaxCombiner ms = Some (m\<lparr>pm_Value := VFloat x\<rparr>)
    \<and> (\<forall>n \<in> set ms. \<forall>y. numeric (pm_Value n) = Some y \<longrightarrow> \<not> f_less x y)"
proof -
  have "f_less y x \<longleftrightarrow> \<not> f_nan x \<and> \<not> f_nan y \<and> - f_key x < - f_key y" for x y
    by (auto simp: f_less_def)
  from best_message_result [of "\<lambda>x y. f_less y x" "\<lambda>x. - f_key x", OF this f_million_ok(2) assms]
  show ?thesis by (simp add: Combine_def Max_Combine_def)
qed

theorem min_combiner_least_witness:
  "let a = \<lparr>pm_From = ''a'', pm_To = ''c'', pm_Value = VFloat 0, pm_Step = 1\<rparr>;
       b = \<lparr>pm_From = ''b'', pm_To = ''c'', pm_Value = VNil, pm_Step = 1\<rparr>
   in Combine MinCombiner [b, a] = Some a"
proof -
  let ?a = "\<lparr>pm_From = ''a'', pm_To = ''c'', pm_Value = VFloat 0, pm_Step = 1\<rparr>"
  let ?b = "\<lparr>pm_From = ''b'', pm_To = ''c'', pm_Value = VNil, pm_Step = 1\<rparr>"
  have "numeric (pm_Value ?a) = Some 0" by (simp add: numeric_def)
  moreover have "f_less 0 f_million"
    by (simp add: f_less_def f_nan_def f_exp_def f_man_def f_key_def f_mag_def f_sign_def f_million_def)
  ultimately obtain m x where "m \<in> set [?b, ?a]" "numeric (pm_Value m) = Some x"
      "Combine MinCombiner [?b, ?a] = Some (m\<lparr>pm_Value := VFloat x\<rparr>)"
    using min_combiner_least [of ?a "[?b, ?a]" 0] by fastforce
  then show ?thesis by (auto simp: numeric_def)
qed

text \<open>
  and otherwise it does not combine: when no number among the messages is below 1000000 (larger
  numbers included), the first message goes out as it is, the others are lost, even if a later one
  is smaller.
\<close>

theorem min_combiner_fallback:
  assumes "\<And>m x. m \<in> set (first # ms) \<Longrightarrow> numeric (pm_Value m) = Some x \<Longrightarrow> \<not> f_less x f_million"
  shows "Combine MinCombiner (first # ms) = Some first"
proof -
  have "best_of (\<lambda>val best. f_less val best) ns (f_million, None) = (f_million, None)"
    if "set ns \<subseteq> set (first # ms)" for ns
    using that assms by (induction ns) (auto split: option.splits)
  from this [of "first # ms"] show ?thesis
    by (simp add: Combine_def Min_Combine_def best_message_def)
qed

theorem min_combiner_fallback_witness:
  "Combine MinCombiner
     [\<lparr>pm_From = ''a'', pm_To = ''c'', pm_Value = VFloat (f_infinity False), pm_Step = 1\<rparr>,
      \<lparr>pm_From = ''b'', pm_To = ''c'', pm_Value = VFloat f_million, pm_Step = 1\<rparr>]
   = Some \<lparr>pm_From = ''a'', pm_To = ''c'', pm_Value = VFloat (f_infinity False), pm_Step = 1\<rparr>"
  by (rule min_combiner_fallback)
    (auto simp: numeric_def f_less_def f_nan_def f_exp_def f_man_def f_key_def f_mag_def f_sign_def
      f_million_def f_infinity_def)

end
