(* ===== verification/VertexPrograms.thy ===== *)
theory VertexPrograms
  imports PregelMessages
begin

section \<open>Vertex programs (internal/core/pregel/vertex.go)\<close>

text \<open>
  The interface of a vertex program and its three implementations: the counter, PageRank and
  shortest paths. Orders of loops over maps are arguments; a failed type assertion panics.
\<close>

subsection \<open>The interface\<close>

text \<open>
  What \<^verbatim>\<open>Compute\<close> returns; \<open>cr_Arg\<close> is the content of the argument map when it
  returns, since a program may write to the map it is given.
\<close>

record ComputeResult =
  cr_Arg :: gstate
  cr_State :: gstate
  cr_Messages :: "PMessage list"
  cr_Halt :: bool
  cr_Error :: "string option"

subsection \<open>SimpleCounterVertex\<close>

definition counter_count :: "gstate \<Rightarrow> 64 word" where
  "counter_count state =
     (case state ''count'' of
        Some c \<Rightarrow> (case as_int c of Some ci \<Rightarrow> ci | None \<Rightarrow> 0)
      | None \<Rightarrow> 0)"

fun copy_other :: "gstate \<Rightarrow> string list \<Rightarrow> gstate \<Rightarrow> gstate" where
  "copy_other state [] newState = newState"
| "copy_other state (k # ks) newState =
     copy_other state ks
       (if k \<noteq> ''count'' \<and> k \<noteq> ''last_messages'' then newState(k := state k) else newState)"

definition SimpleCounter_Compute ::
  "64 word \<Rightarrow> string list \<Rightarrow> string \<Rightarrow> gstate \<Rightarrow> PMessage list \<Rightarrow> ComputeResult" where
  "SimpleCounter_Compute MaxCount ks vertexID state messages =
     (let count = counter_count state + 1;
          newState = copy_other state ks
            [''count'' \<mapsto> VInt count, ''last_messages'' \<mapsto> VInt (of_nat (length messages))];
          halt = (sint MaxCount \<le> sint count);
          out = (case state ''neighbors'' of
                   Some nb \<Rightarrow>
                     if \<not> halt then
                       (case as_strs nb of
                          Some ns \<Rightarrow> map (\<lambda>n. \<lparr>pm_From = vertexID, pm_To = n, pm_Value = VInt count,
                                                 pm_Step = 0\<rparr>) ns
                        | None \<Rightarrow> [])
                     else []
                 | None \<Rightarrow> [])
      in \<lparr>cr_Arg = state, cr_State = newState, cr_Messages = out, cr_Halt = halt, cr_Error = None\<rparr>)"

lemma copy_other_apply:
  "copy_other state ks r k =
     (if k \<in> set ks \<and> k \<noteq> ''count'' \<and> k \<noteq> ''last_messages'' then state k else r k)"
  by (induction ks arbitrary: r) auto

text \<open>All other fields of the state survive a step of the counter.\<close>

lemma counter_keeps:
  assumes "map_order state ks" and "k \<noteq> ''count''" and "k \<noteq> ''last_messages''"
  shows "cr_State (SimpleCounter_Compute mc ks v state msgs) k = state k"
  using assms map_order_in [OF assms(1), of k]
  by (auto simp: SimpleCounter_Compute_def Let_def copy_other_apply)

lemma counter_counts:
  "counter_count (cr_State (SimpleCounter_Compute mc ks v state msgs)) = counter_count state + 1"
  by (simp add: SimpleCounter_Compute_def Let_def counter_count_def [of "copy_other _ _ _"]
      copy_other_apply)

subsection \<open>PageRankVertex\<close>

record PageRankVertex =
  DampingFactor :: f64
  Convergence :: f64

text \<open>The constants 0.85, 0.001 and 1.0 as doubles.\<close>

definition f_085 :: f64 where "f_085 = 0x3FEB333333333333"
definition f_0001 :: f64 where "f_0001 = 0x3F50624DD2F1A9FC"
definition f_one :: f64 where "f_one = 0x3FF0000000000000"

definition initializeDefaults :: "PageRankVertex \<Rightarrow> PageRankVertex" where
  "initializeDefaults v =
     (let v1 = (if f_equal (DampingFactor v) 0 then v\<lparr>DampingFactor := f_085\<rparr> else v)
      in if f_equal (Convergence v1) 0 then v1\<lparr>Convergence := f_0001\<rparr> else v1)"

definition getRankFromState :: "gstate \<Rightarrow> f64" where
  "getRankFromState state =
     (case state ''rank'' of
        Some r \<Rightarrow> (case as_float r of Some rf \<Rightarrow> rf | None \<Rightarrow> f_one)
      | None \<Rightarrow> f_one)"

fun sumIncomingRank_loop :: "PMessage list \<Rightarrow> f64 \<Rightarrow> f64" where
  "sumIncomingRank_loop [] acc = acc"
| "sumIncomingRank_loop (m # ms) acc =
     (case as_float (pm_Value m) of
        Some rank \<Rightarrow> sumIncomingRank_loop ms (f_add acc rank)
      | None \<Rightarrow> sumIncomingRank_loop ms acc)"

definition sumIncomingRank :: "PMessage list \<Rightarrow> f64" where
  "sumIncomingRank messages = sumIncomingRank_loop messages 0"

definition createRankMessages :: "string \<Rightarrow> f64 \<Rightarrow> gstate \<Rightarrow> PMessage list" where
  "createRankMessages vertexID rank state =
     (case state ''edges'' of
        Some e \<Rightarrow>
          (case as_strs e of
             Some edgesList \<Rightarrow>
               (let contribution = f_div rank (f_of_int (of_nat (length edgesList))) in
                map (\<lambda>t. \<lparr>pm_From = vertexID, pm_To = t, pm_Value = VFloat contribution, pm_Step = 0\<rparr>)
                  edgesList)
           | None \<Rightarrow> [])
      | None \<Rightarrow> [])"

text \<open>\<^verbatim>\<open>state["iteration"].(int)\<close> panics when the entry is missing or no int.\<close>

definition PageRank_Compute ::
  "PageRankVertex \<Rightarrow> string \<Rightarrow> gstate \<Rightarrow> PMessage list
   \<Rightarrow> (string, ComputeResult) outcome \<times> PageRankVertex" where
  "PageRank_Compute v0 vertexID state messages =
     (let v = initializeDefaults v0;
          oldRank = getRankFromState state;
          incomingRank = sumIncomingRank messages;
          newRank = f_add (f_sub f_one (DampingFactor v)) (f_mul (DampingFactor v) incomingRank);
          delta0 = f_sub newRank oldRank;
          delta = (if f_less delta0 0 then f_neg delta0 else delta0);
          halt = f_less delta (Convergence v)
      in case state ''iteration'' of
           None \<Rightarrow> (Panics ''interface conversion: interface {} is nil, not int'', v)
         | Some it \<Rightarrow>
             (case as_int it of
                None \<Rightarrow> (Panics ''interface conversion'', v)
              | Some i \<Rightarrow>
                  (let newState = [''rank'' \<mapsto> VFloat newRank, ''delta'' \<mapsto> VFloat delta,
                                   ''iteration'' \<mapsto> VInt (i + 1)];
                       out = (if \<not> halt then createRankMessages vertexID newRank state else [])
                   in (Returns \<lparr>cr_Arg = state, cr_State = newState, cr_Messages = out,
                                cr_Halt = halt, cr_Error = None\<rparr>, v))))"

lemma createRankMessages_no_edges: "state ''edges'' = None \<Longrightarrow> createRankMessages v rk state = []"
  by (simp add: createRankMessages_def)

lemma as_int_Some [simp]: "as_int x = Some i \<longleftrightarrow> x = VInt i"
  by (cases x) auto

lemma PageRank_result:
  assumes "PageRank_Compute v vid state msgs = (Returns r, v')"
  shows "cr_State r ''edges'' = None \<and> (\<exists>i. state ''iteration'' = Some (VInt i)
       \<and> cr_State r ''iteration'' = Some (VInt (i + 1)))
     \<and> (state ''edges'' = None \<longrightarrow> cr_Messages r = [])"
proof (cases "state ''iteration''")
  case None
  with assms show ?thesis by (simp add: PageRank_Compute_def Let_def)
next
  case (Some it)
  show ?thesis
  proof (cases "as_int it")
    case None
    with assms Some show ?thesis by (simp add: PageRank_Compute_def Let_def)
  next
    case (Some i)
    with assms \<open>state ''iteration'' = Some it\<close> show ?thesis
      by (auto simp: PageRank_Compute_def Let_def createRankMessages_no_edges)
  qed
qed

subsection \<open>ShortestPathVertex\<close>

definition getCurrentDistance :: "gstate \<Rightarrow> f64" where
  "getCurrentDistance state =
     (case state ''distance'' of
        Some d \<Rightarrow> (case as_float d of Some df \<Rightarrow> df | None \<Rightarrow> f_million)
      | None \<Rightarrow> f_million)"

fun findMinDistance :: "f64 \<Rightarrow> PMessage list \<Rightarrow> f64" where
  "findMinDistance minDistance [] = minDistance"
| "findMinDistance minDistance (m # ms) =
     (case as_float (pm_Value m) of
        Some dist \<Rightarrow>
          if f_less dist minDistance then findMinDistance dist ms else findMinDistance minDistance ms
      | None \<Rightarrow> findMinDistance minDistance ms)"

fun propagation_loop :: "string \<Rightarrow> f64 \<Rightarrow> (string \<rightharpoonup> f64) \<Rightarrow> string list \<Rightarrow> PMessage list" where
  "propagation_loop vid distance edges [] = []"
| "propagation_loop vid distance edges (n # ns) =
     (case edges n of
        Some weight \<Rightarrow>
          \<lparr>pm_From = vid, pm_To = n, pm_Value = VFloat (f_add distance weight), pm_Step = 0\<rparr>
            # propagation_loop vid distance edges ns
      | None \<Rightarrow> propagation_loop vid distance edges ns)"

text \<open>\<open>ns\<close> is the order of the loop over the edges.\<close>

definition createPropagationMessages ::
  "string list \<Rightarrow> string \<Rightarrow> f64 \<Rightarrow> gstate \<Rightarrow> PMessage list" where
  "createPropagationMessages ns vid distance state =
     (case state ''edges'' of
        Some e \<Rightarrow>
          (case as_float_map e of
             Some edgesMap \<Rightarrow> propagation_loop vid distance edgesMap ns
           | None \<Rightarrow> [])
      | None \<Rightarrow> [])"

definition ShortestPath_Compute ::
  "string \<Rightarrow> string list \<Rightarrow> string \<Rightarrow> gstate \<Rightarrow> PMessage list \<Rightarrow> ComputeResult" where
  "ShortestPath_Compute SourceVertex ns vertexID state messages =
     (let isSource = (vertexID = SourceVertex);
          d0 = getCurrentDistance state;
          currentDistance = (if isSource \<and> f_equal d0 f_million then 0 else d0);
          minDistance = findMinDistance currentDistance messages;
          initial = (isSource \<and> f_equal currentDistance 0 \<and> messages = []);
          changed = (f_less minDistance currentDistance \<or> initial);
          out = (if changed then createPropagationMessages ns vertexID minDistance state else []);
          newState = [''distance'' \<mapsto> VFloat minDistance,
                      ''edges'' \<mapsto> (case state ''edges'' of Some e \<Rightarrow> e | None \<Rightarrow> VNil),
                      ''changed'' \<mapsto> VBool changed];
          halt = (if initial then False else \<not> changed)
      in \<lparr>cr_Arg = state, cr_State = newState, cr_Messages = out, cr_Halt = halt, cr_Error = None\<rparr>)"

lemma findMinDistance_least:
  assumes "\<not> f_nan d"
  shows "\<not> f_nan (findMinDistance d ms) \<and> \<not> f_less d (findMinDistance d ms)
    \<and> (\<forall>m \<in> set ms. \<forall>x. as_float (pm_Value m) = Some x \<longrightarrow> \<not> f_less x (findMinDistance d ms))
    \<and> (findMinDistance d ms = d
       \<or> (\<exists>m \<in> set ms. as_float (pm_Value m) = Some (findMinDistance d ms)))"
  using assms
proof (induction d ms rule: findMinDistance.induct)
  case (2 d m ms)
  show ?case
  proof (cases "as_float (pm_Value m)")
    case None
    with "2.IH"(1) [OF None "2.prems"] show ?thesis by simp
  next
    case (Some x)
    show ?thesis
    proof (cases "f_less x d")
      case True
      then have "\<not> f_nan x" by (simp add: f_less_def)
      from "2.IH"(2) [OF Some True this] show ?thesis
        using Some True by (auto simp: f_less_def)
    next
      case False
      from "2.IH"(3) [OF Some False "2.prems"] show ?thesis
        using Some False "2.prems" by (auto simp: f_less_def)
    qed
  qed
qed simp

lemma propagation_loop_map:
  "set ns \<subseteq> dom edges \<Longrightarrow> propagation_loop vid d edges ns
     = map (\<lambda>n. \<lparr>pm_From = vid, pm_To = n, pm_Value = VFloat (f_add d (the (edges n))), pm_Step = 0\<rparr>) ns"
  by (induction ns) (auto simp: dom_def)

subsection \<open>Properties\<close>

text \<open>
  a PageRank vertex forgets its edges. The state it returns has no \<^verbatim>\<open>edges\<close>, so whatever
  messages arrive, its second computation and every later one sends nothing.
\<close>

theorem pagerank_forgets_edges:
  assumes "PageRank_Compute pv vid state msgs = (Returns r, pv1)"
    and "PageRank_Compute pv1 vid (cr_State r) msgs' = (q, pv2)"
  shows "\<exists>r'. q = Returns r' \<and> cr_Messages r' = [] \<and> cr_State r' ''edges'' = None"
proof -
  from PageRank_result [OF assms(1)] obtain i where
    "cr_State r ''edges'' = None" "cr_State r ''iteration'' = Some (VInt i)" by auto
  with assms(2) show ?thesis
    by (auto simp: PageRank_Compute_def Let_def createRankMessages_def)
qed

theorem pagerank_forgets_edges_witness:
  "\<exists>r q pv2. PageRank_Compute \<lparr>DampingFactor = f_085, Convergence = f_0001\<rparr> ''a''
       [''iteration'' \<mapsto> VInt 0, ''edges'' \<mapsto> VStrs [''b'']] []
     = (Returns r, \<lparr>DampingFactor = f_085, Convergence = f_0001\<rparr>)
   \<and> PageRank_Compute \<lparr>DampingFactor = f_085, Convergence = f_0001\<rparr> ''a'' (cr_State r) [] = (q, pv2)
   \<and> (\<exists>r'. q = Returns r' \<and> cr_Messages r' = [])"
proof -
  let ?pv = "\<lparr>DampingFactor = f_085, Convergence = f_0001\<rparr>"
  let ?s = "[''iteration'' \<mapsto> VInt 0, ''edges'' \<mapsto> VStrs [''b'']]"
  have pv: "initializeDefaults ?pv = ?pv"
    by (simp add: initializeDefaults_def f_equal_def f_nan_def f_exp_def f_man_def f_key_def
      f_mag_def f_sign_def f_085_def f_0001_def)
  obtain r where first: "PageRank_Compute ?pv ''a'' ?s [] = (Returns r, ?pv)"
    by (simp add: PageRank_Compute_def Let_def pv)
  obtain q pv2 where second: "PageRank_Compute ?pv ''a'' (cr_State r) [] = (q, pv2)" by fastforce
  from pagerank_forgets_edges [OF first second] first second show ?thesis by blast
qed

text \<open>
  relaxation. A shortest-path vertex whose distance is a number moves to the least of its own
  distance and the numbers among the messages, never up; it halts exactly when nothing improved (a
  source without messages aside), and when something did it offers each neighbour its new distance
  plus the weight of the edge.
\<close>

theorem shortest_path_relaxes:
  assumes "\<not> f_nan (getCurrentDistance state)" and "vid \<noteq> src"
    and "state ''edges'' = Some (VFloatMap edges)" and "map_order edges ns"
  shows "let r = ShortestPath_Compute src ns vid state msgs; d = getCurrentDistance (cr_State r)
    in \<not> f_nan d \<and> \<not> f_less (getCurrentDistance state) d
     \<and> (\<forall>m \<in> set msgs. \<forall>x. as_float (pm_Value m) = Some x \<longrightarrow> \<not> f_less x d)
     \<and> (d = getCurrentDistance state \<or> (\<exists>m \<in> set msgs. as_float (pm_Value m) = Some d))
     \<and> cr_Halt r = (\<not> f_less d (getCurrentDistance state))
     \<and> cr_State r ''edges'' = state ''edges''
     \<and> cr_Messages r = (if f_less d (getCurrentDistance state)
         then map (\<lambda>n. \<lparr>pm_From = vid, pm_To = n, pm_Value = VFloat (f_add d (the (edges n))), pm_Step = 0\<rparr>) ns
         else [])"
proof -
  have "set ns \<subseteq> dom edges" using assms(4) by (simp add: map_order_def)
  then show ?thesis
    using findMinDistance_least [OF assms(1), of msgs] assms(2,3)
    by (simp add: ShortestPath_Compute_def Let_def getCurrentDistance_def [of "_(''changed'' \<mapsto> _)"]
        createPropagationMessages_def propagation_loop_map)
qed

theorem shortest_path_relaxes_witness:
  "cr_Halt (ShortestPath_Compute ''s'' [''b''] ''a''
      [''edges'' \<mapsto> VFloatMap [''b'' \<mapsto> f_one], ''distance'' \<mapsto> VFloat f_one] [])"
proof -
  let ?s = "[''edges'' \<mapsto> VFloatMap [''b'' \<mapsto> f_one], ''distance'' \<mapsto> VFloat f_one]"
  have d: "getCurrentDistance ?s = f_one" by (simp add: getCurrentDistance_def)
  have "\<not> f_nan (getCurrentDistance ?s)"
    unfolding d by (simp add: f_nan_def f_exp_def f_man_def f_one_def)
  moreover have "map_order [''b'' \<mapsto> f_one] [''b'']" by (simp add: map_order_def)
  ultimately show ?thesis
    using shortest_path_relaxes [of ?s "''a''" "''s''" "[''b'' \<mapsto> f_one]" "[''b'']" "[]"]
    by (simp add: Let_def d)
qed

text \<open>The results of running a counter again and again on its own states.\<close>

fun counter_states ::
  "64 word \<Rightarrow> (string list \<times> PMessage list) list \<Rightarrow> gstate \<Rightarrow> ComputeResult list" where
  "counter_states mc [] state = []"
| "counter_states mc ((ks, msgs) # runs) state =
     (let r = SimpleCounter_Compute mc ks ''v'' state msgs in r # counter_states mc runs (cr_State r))"

lemma counter_states_halt:
  "i < length runs \<Longrightarrow> cr_Halt (counter_states mc runs state ! i) \<longleftrightarrow>
     sint mc \<le> sint (counter_count state + of_nat (Suc i))"
proof (induction runs arbitrary: state i)
  case (Cons run runs)
  obtain ks msgs where run: "run = (ks, msgs)" by fastforce
  show ?case
  proof (cases i)
    case 0
    with run show ?thesis by (simp add: Let_def SimpleCounter_Compute_def)
  next
    case (Suc j)
    with Cons run show ?thesis
      by (simp add: Let_def counter_counts ac_simps)
  qed
qed simp

text \<open>
  the counter halts. Iterated on its own states (whatever messages arrive and in whatever order it
  copies the state), a counter that starts below its limit without wrap-around halts exactly when
  it has been run as often as the difference says.
\<close>

theorem counter_halts:
  assumes "i < length runs" and "0 \<le> sint (counter_count state)"
    and "sint (counter_count state) + int (length runs) < 2 ^ 63"
  shows "cr_Halt (counter_states mc runs state ! i) \<longleftrightarrow>
    sint mc \<le> sint (counter_count state) + int (Suc i)"
proof -
  have "sint (counter_count state + of_nat (Suc i)) = sint (counter_count state) + int (Suc i)"
  proof -
    let ?n = "sint (counter_count state) + int (Suc i)"
    have "counter_count state + of_nat (Suc i) = word_of_int ?n" by simp
    then have "sint (counter_count state + of_nat (Suc i)) = sint (word_of_int ?n :: 64 word)"
      by (rule arg_cong)
    also have "\<dots> = ?n"
      by (rule sint_word_of_int64) (use assms in auto)
    finally show ?thesis .
  qed
  then show ?thesis
    unfolding counter_states_halt [OF assms(1)] by (rule arg_cong)
qed

theorem counter_halts_witness:
  "cr_Halt (counter_states 2 [([], []), ([], [])] Map.empty ! 1)"
proof -
  have c: "counter_count Map.empty = 0" by (simp add: counter_count_def)
  show ?thesis
    using counter_halts [of 1 "[([], []), ([], [])]" Map.empty 2] by (simp add: c)
qed

end
