(* ===== verification/Scheduler.thy ===== *)
theory Scheduler
  imports VertexPrograms
begin

section \<open>The work-stealing scheduler (internal/core/pregel/scheduler.go)\<close>

text \<open>
  Buffered task queues, one per worker; tasks are assigned round robin by an atomic 64-bit counter;
  a worker takes from its own queue or steals from another and runs the task. The workers, the
  scheduling goroutine and \<^verbatim>\<open>Stop\<close> interleave: \<open>pool_step\<close> is one atomic action of
  any of them. A task is kept with its result so that executions can be counted. Results go through
  the channel that the task names, which has a capacity: a worker that cannot send its result waits,
  with its task still running, until somebody has received one.
\<close>

subsection \<open>Tasks and queues\<close>

record VertexTask =
  vt_VertexID :: string
  vt_Program :: "string \<Rightarrow> gstate \<Rightarrow> PMessage list \<Rightarrow> ComputeResult"
  vt_State :: gstate
  vt_Messages :: "PMessage list"
  vt_Result :: nat      \<comment> \<open>the address of the result channel\<close>

record VertexResult =
  vr_VertexID :: string
  vr_State :: gstate
  vr_Messages :: "PMessage list"
  vr_Halt :: bool
  vr_Error :: "string option"

definition executeTask :: "VertexTask \<Rightarrow> VertexResult" where
  "executeTask task =
     (let r = vt_Program task (vt_VertexID task) (vt_State task) (vt_Messages task)
      in \<lparr>vr_VertexID = vt_VertexID task, vr_State = cr_State r, vr_Messages = cr_Messages r,
          vr_Halt = cr_Halt r, vr_Error = cr_Error r\<rparr>)"

record WorkStealingScheduler =
  sc_queues :: "VertexTask list list"
  sc_numWorkers :: nat
  sc_capacity :: nat
  sc_counter :: "64 word"
  sc_cancelled :: bool
  sc_closed :: bool

text \<open>\<open>numCPU\<close> is \<^verbatim>\<open>runtime.NumCPU()\<close>.\<close>

definition NewWorkStealingScheduler :: "int \<Rightarrow> int \<Rightarrow> int \<Rightarrow> WorkStealingScheduler" where
  "NewWorkStealingScheduler numCPU numWorkers queueCapacity =
     (let n = (if numWorkers \<le> 0 then (if numCPU < 1 then 1 else numCPU) else numWorkers);
          c = (if queueCapacity \<le> 0 then 100 else queueCapacity)
      in \<lparr>sc_queues = replicate (nat n) [], sc_numWorkers = nat n, sc_capacity = nat c,
          sc_counter = 0, sc_cancelled = False, sc_closed = False\<rparr>)"

text \<open>The queue the round robin picks, after the counter has been incremented.\<close>

definition sched_index :: "WorkStealingScheduler \<Rightarrow> int" where
  "sched_index ws = sint (sc_counter ws + 1) smod int (sc_numWorkers ws)"

definition Schedule ::
  "VertexTask \<Rightarrow> WorkStealingScheduler \<Rightarrow> (string, unit) outcome \<times> WorkStealingScheduler" where
  "Schedule task ws =
     (let ws1 = ws\<lparr>sc_counter := sc_counter ws + 1\<rparr>; worker = sched_index ws
      in if worker < 0 \<or> int (length (sc_queues ws)) \<le> worker
         then (Panics ''index out of range'', ws1)
         else if sc_closed ws then (Panics ''send on closed channel'', ws1)
         else if length (sc_queues ws ! nat worker) < sc_capacity ws
         then (Returns (), ws1\<lparr>sc_queues := (sc_queues ws)
                 [nat worker := sc_queues ws ! nat worker @ [task]]\<rparr>)
         else (Blocks, ws1))"

text \<open>One receive from queue \<open>i\<close>: the task at its head.\<close>

definition pop_queue :: "nat \<Rightarrow> VertexTask list list \<Rightarrow> (VertexTask \<times> VertexTask list list) option" where
  "pop_queue i qs =
     (if i < length qs then
        (case qs ! i of t # ts \<Rightarrow> Some (t, qs[i := ts]) | [] \<Rightarrow> None)
      else None)"

text \<open>
  \<^verbatim>\<open>stealWork\<close> when nothing else happens during its scan: the first queue other than the
  worker's own that has a task.
\<close>

fun steal_scan :: "nat \<Rightarrow> nat list \<Rightarrow> VertexTask list list \<Rightarrow> (VertexTask \<times> VertexTask list list) option" where
  "steal_scan workerID [] qs = None"
| "steal_scan workerID (i # is) qs =
     (if i = workerID then steal_scan workerID is qs
      else (case pop_queue i qs of Some r \<Rightarrow> Some r | None \<Rightarrow> steal_scan workerID is qs))"

definition stealWork :: "nat \<Rightarrow> WorkStealingScheduler \<Rightarrow> (VertexTask \<times> VertexTask list list) option" where
  "stealWork workerID ws = steal_scan workerID [0..<sc_numWorkers ws] (sc_queues ws)"

definition SchedulerStats :: "WorkStealingScheduler \<Rightarrow> nat \<times> nat list \<times> nat" where
  "SchedulerStats ws = (sc_numWorkers ws, map length (sc_queues ws),
     fold (\<lambda>q total. total + length q) (sc_queues ws) 0)"

subsection \<open>Workers\<close>

record Pool =
  pl_sched :: WorkStealingScheduler
  pl_running :: "VertexTask option list"
  pl_exited :: "bool list"
  pl_done :: "(VertexTask \<times> VertexResult) list"
  pl_scheduled :: "VertexTask list"
  pl_results :: "nat \<rightharpoonup> nat \<times> VertexResult list"
  pl_received :: "nat \<Rightarrow> VertexResult list"

definition start_pool :: "WorkStealingScheduler \<Rightarrow> Pool" where
  "start_pool ws = \<lparr>pl_sched = ws, pl_running = replicate (sc_numWorkers ws) None,
     pl_exited = replicate (sc_numWorkers ws) False, pl_done = [], pl_scheduled = [],
     pl_results = Map.empty, pl_received = (\<lambda>_. [])\<rparr>"

abbreviation pl_queues :: "Pool \<Rightarrow> VertexTask list list" where
  "pl_queues p \<equiv> sc_queues (pl_sched p)"

definition idle :: "nat \<Rightarrow> Pool \<Rightarrow> bool" where
  "idle w p \<longleftrightarrow> w < length (pl_running p) \<and> pl_running p ! w = None
     \<and> w < length (pl_exited p) \<and> \<not> pl_exited p ! w"

text \<open>
  The send of the task's result: the result channel has a capacity and holds results that nobody has
  received. A send to a full channel, or to none, waits.
\<close>

definition send_result :: "VertexTask \<Rightarrow> Pool \<Rightarrow> Pool option" where
  "send_result t p =
     (case pl_results p (vt_Result t) of
        Some (cap, rs) \<Rightarrow>
          (if length rs < cap
           then Some (p\<lparr>pl_results := (pl_results p)(vt_Result t \<mapsto> (cap, rs @ [executeTask t])),
                        pl_done := pl_done p @ [(t, executeTask t)]\<rparr>)
           else None)
      | None \<Rightarrow> None)"

text \<open>
  What a worker \<open>w\<close> does: take a task from its own queue, take one from the queue \<open>i\<close> its
  scan has reached (the scan is not atomic, other workers act in between), finish the running task,
  which takes room in its result channel.
\<close>

inductive worker_step :: "Pool \<Rightarrow> Pool \<Rightarrow> bool" where
  take_own: "idle w p \<Longrightarrow> pop_queue w (pl_queues p) = Some (t, qs) \<Longrightarrow>
     worker_step p (p\<lparr>pl_sched := pl_sched p\<lparr>sc_queues := qs\<rparr>, pl_running := (pl_running p)[w := Some t]\<rparr>)"
| steal: "idle w p \<Longrightarrow> i \<noteq> w \<Longrightarrow> pop_queue i (pl_queues p) = Some (t, qs) \<Longrightarrow>
     worker_step p (p\<lparr>pl_sched := pl_sched p\<lparr>sc_queues := qs\<rparr>, pl_running := (pl_running p)[w := Some t]\<rparr>)"
| finish: "w < length (pl_running p) \<Longrightarrow> pl_running p ! w = Some t \<Longrightarrow> send_result t p = Some p1 \<Longrightarrow>
     worker_step p (p1\<lparr>pl_running := (pl_running p)[w := None]\<rparr>)"

text \<open>
  All steps: the workers', a new result channel (the engine makes one per superstep, with a capacity
  that is not zero), a result received from it, a \<^verbatim>\<open>Schedule\<close> that returns, and the three
  parts of \<^verbatim>\<open>Stop\<close>: cancel the context, each idle worker's return, closing the queues when all have
  returned.
\<close>

inductive pool_step :: "Pool \<Rightarrow> Pool \<Rightarrow> bool" where
  pool_worker: "worker_step p p' \<Longrightarrow> pool_step p p'"
| pool_schedule: "Schedule t (pl_sched p) = (Returns (), ws) \<Longrightarrow>
     pool_step p (p\<lparr>pl_sched := ws, pl_scheduled := pl_scheduled p @ [t]\<rparr>)"
| pool_channel: "pl_results p ch = None \<Longrightarrow> 0 < cap \<Longrightarrow>
     pool_step p (p\<lparr>pl_results := (pl_results p)(ch \<mapsto> (cap, []))\<rparr>)"
| pool_receive: "pl_results p ch = Some (cap, r # rs) \<Longrightarrow>
     pool_step p (p\<lparr>pl_results := (pl_results p)(ch \<mapsto> (cap, rs)),
       pl_received := (pl_received p)(ch := pl_received p ch @ [r])\<rparr>)"
| pool_cancel: "pool_step p (p\<lparr>pl_sched := pl_sched p\<lparr>sc_cancelled := True\<rparr>\<rparr>)"
| pool_exit: "idle w p \<Longrightarrow> sc_cancelled (pl_sched p) \<Longrightarrow>
     pool_step p (p\<lparr>pl_exited := (pl_exited p)[w := True]\<rparr>)"
| pool_close: "\<forall>e \<in> set (pl_exited p). e \<Longrightarrow> sc_cancelled (pl_sched p) \<Longrightarrow>
     pool_step p (p\<lparr>pl_sched := pl_sched p\<lparr>sc_closed := True\<rparr>\<rparr>)"

inductive pool_reachable :: "WorkStealingScheduler \<Rightarrow> Pool \<Rightarrow> bool" for ws where
  pool_start: "pool_reachable ws (start_pool ws)"
| pool_next: "pool_reachable ws p \<Longrightarrow> pool_step p p' \<Longrightarrow> pool_reachable ws p'"

inductive_cases worker_stepE: "worker_step p p'"
inductive_cases pool_stepE: "pool_step p p'"

subsection \<open>Accounting\<close>

text \<open>The tasks in the queues, and those the workers are running.\<close>

definition queued :: "Pool \<Rightarrow> VertexTask multiset" where
  "queued p = mset (concat (pl_queues p))"

definition opt_mset :: "'a option \<Rightarrow> 'a multiset" where
  "opt_mset x = (case x of Some t \<Rightarrow> {#t#} | None \<Rightarrow> {#})"

definition running :: "Pool \<Rightarrow> VertexTask multiset" where
  "running p = sum_list (map opt_mset (pl_running p))"

definition finished :: "Pool \<Rightarrow> VertexTask multiset" where
  "finished p = mset (map fst (pl_done p))"

definition pool_inv :: "Pool \<Rightarrow> bool" where
  "pool_inv p \<longleftrightarrow> length (pl_queues p) = sc_numWorkers (pl_sched p)
     \<and> length (pl_running p) = sc_numWorkers (pl_sched p)
     \<and> length (pl_exited p) = sc_numWorkers (pl_sched p)
     \<and> (\<forall>q \<in> set (pl_queues p). length q \<le> sc_capacity (pl_sched p))
     \<and> (\<forall>(t, r) \<in> set (pl_done p). r = executeTask t)
     \<and> mset (pl_scheduled p) = queued p + running p + finished p"

lemma mset_concat_update:
  "i < length qs \<Longrightarrow> mset (concat (qs[i := q])) + mset (qs ! i) = mset (concat qs) + mset q"
proof (induction qs arbitrary: i)
  case (Cons a qs)
  then show ?case by (cases i) (auto simp: ac_simps)
qed simp

lemma sum_mset_update:
  "i < length rs \<Longrightarrow> sum_list (map opt_mset (rs[i := r])) + opt_mset (rs ! i)
     = sum_list (map opt_mset rs) + opt_mset r"
proof (induction rs arbitrary: i)
  case (Cons a rs)
  then show ?case by (cases i) (auto simp: ac_simps)
qed simp

lemma pop_queue_Some:
  assumes "pop_queue i qs = Some (t, qs')"
  shows "length qs' = length qs \<and> mset (concat qs) = add_mset t (mset (concat qs'))
    \<and> (\<forall>c. (\<forall>q \<in> set qs. length q \<le> c) \<longrightarrow> (\<forall>q \<in> set qs'. length q \<le> c))"
proof -
  from assms obtain ts where i: "i < length qs" and q: "qs ! i = t # ts" and qs': "qs' = qs[i := ts]"
    by (auto simp: pop_queue_def split: if_splits list.splits)
  have "mset (concat qs) = add_mset t (mset (concat qs'))"
    using mset_concat_update [OF i, of ts] q qs' by simp
  moreover have "length q' \<le> c" if "\<forall>q \<in> set qs. length q \<le> c" "q' \<in> set qs'" for c q'
  proof -
    from that(2) qs' have "q' = ts \<or> q' \<in> set qs" using set_update_subset_insert by fastforce
    moreover from that(1) i q have "Suc (length ts) \<le> c" by (metis length_Cons nth_mem)
    ultimately show ?thesis using that(1) by auto
  qed
  ultimately show ?thesis using qs' by auto
qed

lemma Schedule_Returns:
  assumes "Schedule t ws = (Returns (), ws')"
  shows "sc_numWorkers ws' = sc_numWorkers ws \<and> sc_capacity ws' = sc_capacity ws
    \<and> length (sc_queues ws') = length (sc_queues ws)
    \<and> mset (concat (sc_queues ws')) = add_mset t (mset (concat (sc_queues ws)))
    \<and> ((\<forall>q \<in> set (sc_queues ws). length q \<le> sc_capacity ws) \<longrightarrow>
        (\<forall>q \<in> set (sc_queues ws'). length q \<le> sc_capacity ws))"
proof -
  let ?i = "nat (sched_index ws)" and ?qs = "sc_queues ws"
  from assms have i: "?i < length ?qs" and room: "length (?qs ! ?i) < sc_capacity ws"
    and ws': "ws' = ws\<lparr>sc_counter := sc_counter ws + 1, sc_queues := ?qs[?i := ?qs ! ?i @ [t]]\<rparr>"
    by (auto simp: Schedule_def Let_def split: if_splits)
  have "mset (concat (?qs[?i := ?qs ! ?i @ [t]])) = add_mset t (mset (concat ?qs))"
    using mset_concat_update [OF i, of "?qs ! ?i @ [t]"] by simp
  moreover have "length q \<le> sc_capacity ws"
    if "\<forall>q \<in> set ?qs. length q \<le> sc_capacity ws" "q \<in> set (?qs[?i := ?qs ! ?i @ [t]])" for q
  proof -
    from that(2) have "q = ?qs ! ?i @ [t] \<or> q \<in> set ?qs" using set_update_subset_insert by fastforce
    with that(1) room show ?thesis by auto
  qed
  ultimately show ?thesis by (simp add: ws')
qed

lemma start_pool_inv: "length (sc_queues ws) = sc_numWorkers ws \<Longrightarrow> concat (sc_queues ws) = [] \<Longrightarrow>
  pool_inv (start_pool ws)"
proof -
  have "sum_list (replicate n ({#} :: VertexTask multiset)) = {#}" for n by (induction n) auto
  then show "length (sc_queues ws) = sc_numWorkers ws \<Longrightarrow> concat (sc_queues ws) = [] \<Longrightarrow>
      pool_inv (start_pool ws)"
    by (auto simp: pool_inv_def start_pool_def queued_def running_def finished_def opt_mset_def)
qed

lemma take_inv:
  assumes "pool_inv p" and "idle w p" and "pop_queue i (pl_queues p) = Some (t, qs)"
  shows "pool_inv (p\<lparr>pl_sched := pl_sched p\<lparr>sc_queues := qs\<rparr>, pl_running := (pl_running p)[w := Some t]\<rparr>)"
  using assms(1,2) pop_queue_Some [OF assms(3)] sum_mset_update [of w "pl_running p" "Some t"]
  by (auto simp: pool_inv_def queued_def running_def finished_def idle_def opt_mset_def)

lemma send_result_cases:
  assumes "send_result t p = Some p1"
  obtains cap rs where "pl_results p (vt_Result t) = Some (cap, rs)" and "length rs < cap"
    and "p1 = p\<lparr>pl_results := (pl_results p)(vt_Result t \<mapsto> (cap, rs @ [executeTask t])),
                pl_done := pl_done p @ [(t, executeTask t)]\<rparr>"
  using assms by (auto simp: send_result_def split: option.splits if_splits)

lemma finish_inv:
  assumes "pool_inv p" and "w < length (pl_running p)" and "pl_running p ! w = Some t"
    and "send_result t p = Some p1"
  shows "pool_inv (p1\<lparr>pl_running := (pl_running p)[w := None]\<rparr>)"
  by (rule send_result_cases [OF assms(4)])
    (use assms(1-3) sum_mset_update [OF assms(2), of None] in
      \<open>auto simp: pool_inv_def queued_def running_def finished_def opt_mset_def\<close>)

lemma worker_step_inv [fg_inv]: "worker_step p p' \<Longrightarrow> pool_inv p \<Longrightarrow> pool_inv p'"
  by (erule worker_step.cases) (auto intro: take_inv finish_inv)

lemma pool_step_inv [fg_inv]: "pool_step p p' \<Longrightarrow> pool_inv p \<Longrightarrow> pool_inv p'"
proof (induction rule: pool_step.induct)
  case (pool_schedule t p ws)
  then show ?case
    using Schedule_Returns [OF pool_schedule.hyps]
    by (auto simp: pool_inv_def queued_def running_def finished_def)
next
  case (pool_worker p p')
  then show ?case by (blast intro: worker_step_inv)
qed (auto simp: pool_inv_def queued_def running_def finished_def)

lemma pool_step_workers: "pool_step p p' \<Longrightarrow> sc_numWorkers (pl_sched p') = sc_numWorkers (pl_sched p)"
  by (induction rule: pool_step.induct)
    (auto elim!: worker_step.cases send_result_cases dest!: Schedule_Returns)

lemma reachable_workers: "pool_reachable ws p \<Longrightarrow> sc_numWorkers (pl_sched p) = sc_numWorkers ws"
  by (induction rule: pool_reachable.induct) (simp_all add: start_pool_def pool_step_workers)

lemma pool_reachable_inv:
  assumes "pool_reachable ws p" and "pool_inv (start_pool ws)"
  shows "pool_inv p"
  using assms(1) by induction (auto intro: assms(2) pool_step_inv)

subsection \<open>Progress\<close>

definition work_left :: "Pool \<Rightarrow> nat" where
  "work_left p = 2 * size (queued p) + size (running p)"

lemma worker_step_work:
  assumes "worker_step p p'" and "pool_inv p"
  shows "work_left p' < work_left p"
proof -
  have take: "work_left (p\<lparr>pl_sched := pl_sched p\<lparr>sc_queues := qs\<rparr>, pl_running := (pl_running p)[w := Some t]\<rparr>)
      < work_left p" if "idle w p" "pop_queue i (pl_queues p) = Some (t, qs)" for w i t qs
    using pop_queue_Some [OF that(2)] sum_mset_update [of w "pl_running p" "Some t"] that(1)
    by (auto simp: work_left_def queued_def running_def idle_def opt_mset_def)
  from assms(1) show ?thesis
  proof cases
    case (finish w t p1)
    from finish(4) obtain results where p1: "p1 = p\<lparr>pl_results := results, pl_done := pl_done p @ [(t, executeTask t)]\<rparr>"
      by (rule send_result_cases)
    show ?thesis
      using sum_mset_update [of w "pl_running p" None] finish(1-3)
      by (auto simp: p1 work_left_def queued_def running_def opt_mset_def dest: arg_cong [of _ _ size])
  qed (auto intro: take)
qed

lemma running_none: "(\<forall>r \<in> set rs. r = None) \<Longrightarrow> sum_list (map opt_mset rs) = {#}"
  by (induction rs) (auto simp: opt_mset_def)

text \<open>
  The results of the finished tasks of a channel are those received from it and those waiting in it.
\<close>

definition results_of :: "nat \<Rightarrow> Pool \<Rightarrow> VertexResult list" where
  "results_of ch p = map snd (filter (\<lambda>d. vt_Result (fst d) = ch) (pl_done p))"

definition waiting_results :: "nat \<Rightarrow> Pool \<Rightarrow> VertexResult list" where
  "waiting_results ch p = (case pl_results p ch of Some (cap, rs) \<Rightarrow> rs | None \<Rightarrow> [])"

definition results_inv :: "Pool \<Rightarrow> bool" where
  "results_inv p \<longleftrightarrow> (\<forall>ch. pl_received p ch @ waiting_results ch p = results_of ch p)"

lemma worker_results_inv:
  assumes "worker_step p p'" and "results_inv p"
  shows "results_inv p' \<and> pl_scheduled p' = pl_scheduled p \<and> pl_received p' = pl_received p
    \<and> pl_exited p' = pl_exited p \<and> (\<forall>ch. map_option fst (pl_results p' ch) = map_option fst (pl_results p ch))"
  using assms(1)
proof cases
  case (finish w t p1)
  from finish(4) show ?thesis
  proof (rule send_result_cases)
    fix cap rs
    assume c: "pl_results p (vt_Result t) = Some (cap, rs)"
      and p1: "p1 = p\<lparr>pl_results := (pl_results p)(vt_Result t \<mapsto> (cap, rs @ [executeTask t])),
                pl_done := pl_done p @ [(t, executeTask t)]\<rparr>"
    have "pl_received p (vt_Result t) @ rs = results_of (vt_Result t) p"
      using assms(2) c by (auto simp: results_inv_def waiting_results_def dest: spec [of _ "vt_Result t"])
    moreover have "results_inv p" by (rule assms)
    ultimately show ?thesis
      using c by (auto simp: finish(1) p1 results_inv_def results_of_def waiting_results_def)
  qed
qed (use assms(2) in \<open>auto simp: results_inv_def results_of_def waiting_results_def\<close>)

lemma pool_results_inv: "pool_step p p' \<Longrightarrow> results_inv p \<Longrightarrow> results_inv p'"
proof (induction rule: pool_step.induct)
  case (pool_worker p p')
  then show ?case using worker_results_inv by blast
next
  case (pool_receive p ch cap r rs)
  then have "pl_received p ch @ r # rs = results_of ch p"
    by (auto simp: results_inv_def waiting_results_def dest: spec [of _ ch])
  with pool_receive show ?case by (auto simp: results_inv_def results_of_def waiting_results_def)
next
  case (pool_channel p ch cap)
  then have "pl_received p ch = results_of ch p"
    by (auto simp: results_inv_def waiting_results_def dest: spec [of _ ch])
  with pool_channel show ?case by (auto simp: results_inv_def results_of_def waiting_results_def)
qed (auto simp: results_inv_def results_of_def waiting_results_def)

lemma reachable_results_inv: "pool_reachable ws p \<Longrightarrow> results_inv p"
proof (induction rule: pool_reachable.induct)
  case pool_start
  show ?case by (simp add: results_inv_def results_of_def waiting_results_def start_pool_def)
qed (rule pool_results_inv)

text \<open>
  What the engine sees to: every scheduled task names a result channel, and on each channel no more
  tasks have been scheduled than it has places, counting one more for each received result (after
  which a vertex may be retried).
\<close>

definition results_fit :: "Pool \<Rightarrow> bool" where
  "results_fit p \<longleftrightarrow> (\<forall>t\<in>set (pl_scheduled p).
     case pl_results p (vt_Result t) of
       Some (cap, rs) \<Rightarrow> length (filter (\<lambda>u. vt_Result u = vt_Result t) (pl_scheduled p))
         \<le> cap + length (pl_received p (vt_Result t))
     | None \<Rightarrow> False)"

lemma results_fit_cong:
  assumes "pl_scheduled p' = pl_scheduled p" and "pl_results p' = pl_results p" and "pl_received p' = pl_received p"
  shows "results_fit p' = results_fit p"
  unfolding results_fit_def assms ..

lemma results_inv_cong:
  assumes "pl_done p' = pl_done p" and "pl_results p' = pl_results p" and "pl_received p' = pl_received p"
  shows "results_inv p' = results_inv p"
  unfolding results_inv_def results_of_def waiting_results_def assms ..

lemma worker_results_fit:
  assumes "worker_step p p'" and "results_inv p" and "results_fit p"
  shows "results_fit p'"
proof -
  note k = worker_results_inv [OF assms(1,2)]
  have *: "case pl_results p' ch of Some (cap, rs) \<Rightarrow> n \<le> cap + m | None \<Rightarrow> False"
    if "case pl_results p ch of Some (cap, rs) \<Rightarrow> n \<le> cap + m | None \<Rightarrow> False" for ch n m
  proof -
    have "map_option fst (pl_results p' ch) = map_option fst (pl_results p ch)" using k by blast
    with that show ?thesis by (auto split: option.splits)
  qed
  have eqs: "pl_scheduled p' = pl_scheduled p" "pl_received p' = pl_received p" using k by blast+
  show ?thesis unfolding results_fit_def
  proof
    fix t
    assume "t \<in> set (pl_scheduled p')"
    then have "t \<in> set (pl_scheduled p)" by (simp add: eqs)
    with assms(3) have "case pl_results p (vt_Result t) of Some (cap, rs) \<Rightarrow>
        length (filter (\<lambda>u. vt_Result u = vt_Result t) (pl_scheduled p))
          \<le> cap + length (pl_received p (vt_Result t)) | None \<Rightarrow> False"
      unfolding results_fit_def by blast
    from * [OF this] show "case pl_results p' (vt_Result t) of Some (cap, rs) \<Rightarrow>
        length (filter (\<lambda>u. vt_Result u = vt_Result t) (pl_scheduled p'))
          \<le> cap + length (pl_received p' (vt_Result t)) | None \<Rightarrow> False"
      unfolding eqs .
  qed
qed

lemma running_member: "w < length rs \<Longrightarrow> rs ! w = Some t \<Longrightarrow> t \<in># sum_list (map opt_mset rs)"
proof (induction rs arbitrary: w)
  case (Cons r rs)
  then show ?case by (cases w) (auto simp: opt_mset_def)
qed simp

lemma send_result_fits:
  assumes inv: "pool_inv p" "results_inv p" and fit: "results_fit p"
    and w: "w < length (pl_running p)" "pl_running p ! w = Some t"
  shows "send_result t p \<noteq> None"
proof -
  let ?on = "\<lambda>u. vt_Result u = vt_Result t"
  have mem: "t \<in># running p" using running_member [OF w] by (simp add: running_def)
  have sched: "mset (pl_scheduled p) = queued p + running p + finished p" using inv(1) by (simp add: pool_inv_def)
  with mem have "t \<in># mset (pl_scheduled p)" by simp
  then have "t \<in> set (pl_scheduled p)" by simp
  with fit obtain cap rs where c: "pl_results p (vt_Result t) = Some (cap, rs)"
    and room: "length (filter ?on (pl_scheduled p)) \<le> cap + length (pl_received p (vt_Result t))"
    by (auto simp: results_fit_def split: option.splits)
  have "pl_received p (vt_Result t) @ rs = results_of (vt_Result t) p"
    using inv(2) c by (auto simp: results_inv_def waiting_results_def dest: spec [of _ "vt_Result t"])
  then have "length (pl_received p (vt_Result t)) + length rs = length (results_of (vt_Result t) p)"
    by (metis length_append)
  moreover have "length (results_of (vt_Result t) p) = length (filter ?on (map fst (pl_done p)))"
    by (simp add: results_of_def filter_map comp_def)
  ultimately have len: "length (pl_received p (vt_Result t)) + length rs = length (filter ?on (map fst (pl_done p)))"
    by simp
  have on: "\<And>xs. length (filter ?on xs) = size (filter_mset ?on (mset xs))"
    by (simp flip: mset_filter)
  have counts: "length (pl_received p (vt_Result t)) + length rs = size (filter_mset ?on (finished p))"
    unfolding finished_def using len unfolding on .
  have some: "0 < size (filter_mset ?on (running p))"
    using mem by (auto simp: nonempty_has_size [symmetric])
  have "size (filter_mset ?on (mset (pl_scheduled p))) \<le> cap + length (pl_received p (vt_Result t))"
    using room unfolding on .
  then have "length rs < cap" using counts some unfolding sched by simp
  then show ?thesis using c by (simp add: send_result_def)
qed

lemma pool_stuck_done:
  assumes inv: "pool_inv p" "results_inv p" and n: "0 < sc_numWorkers (pl_sched p)"
    and fit: "results_fit p"
    and alive: "\<forall>e \<in> set (pl_exited p). \<not> e" and stuck: "\<And>p'. \<not> worker_step p p'"
  shows "queued p = {#} \<and> running p = {#}"
proof -
  have none: "pl_running p ! w = None" if w: "w < length (pl_running p)" for w
  proof (cases "pl_running p ! w")
    case (Some t)
    then obtain p1 where "send_result t p = Some p1" using send_result_fits [OF inv fit w] by auto
    then show ?thesis using finish [OF w Some] stuck by blast
  qed
  then have run: "running p = {#}"
    unfolding running_def by (intro running_none) (metis in_set_conv_nth)
  have idle0: "idle w p" if "w < sc_numWorkers (pl_sched p)" for w
  proof -
    have "w < length (pl_running p)" "w < length (pl_exited p)"
      using inv that by (simp_all add: pool_inv_def)
    moreover from this(2) alive have "\<not> pl_exited p ! w" by (metis nth_mem)
    ultimately show ?thesis using none by (simp add: idle_def)
  qed
  have "pl_queues p ! i = []" if i: "i < length (pl_queues p)" for i
  proof (cases "pl_queues p ! i")
    case (Cons t ts)
    then have "pop_queue i (pl_queues p) = Some (t, (pl_queues p)[i := ts])"
      using i by (simp add: pop_queue_def)
    moreover have "idle i p" using i inv idle0 by (simp add: pool_inv_def)
    ultimately show ?thesis using take_own stuck by blast
  qed
  then have "\<forall>q \<in> set (pl_queues p). q = []" by (auto simp: in_set_conv_nth)
  then have "concat (pl_queues p) = []" by simp
  then show ?thesis using run by (simp add: queued_def)
qed

lemma worker_steps_finish:
  assumes "pool_inv p" and "results_inv p" and "results_fit p" and "0 < sc_numWorkers (pl_sched p)"
    and "\<forall>e \<in> set (pl_exited p). \<not> e"
  shows "\<exists>p'. worker_step\<^sup>*\<^sup>* p p' \<and> finished p' = mset (pl_scheduled p) \<and> pl_scheduled p' = pl_scheduled p"
  using assms
proof (induction "work_left p" arbitrary: p rule: less_induct)
  case less
  show ?case
  proof (cases "\<exists>p1. worker_step p p1")
    case False
    with pool_stuck_done less.prems have "queued p = {#} \<and> running p = {#}" by blast
    with less.prems(1) show ?thesis by (intro exI [of _ p]) (simp add: pool_inv_def)
  next
    case True
    then obtain p1 where p1: "worker_step p p1" by blast
    note k = worker_results_inv [OF p1 less.prems(2)]
    have "pool_inv p1" by (rule worker_step_inv [OF p1 less.prems(1)])
    moreover have "0 < sc_numWorkers (pl_sched p1)"
      using p1 less.prems(4) by cases (auto elim!: send_result_cases)
    ultimately obtain p' where "worker_step\<^sup>*\<^sup>* p1 p'" "finished p' = mset (pl_scheduled p1)"
        "pl_scheduled p' = pl_scheduled p1"
      using less.hyps [OF worker_step_work [OF p1 less.prems(1)]] k less.prems(5)
        worker_results_fit [OF p1 less.prems(2,3)] by auto
    with p1 k show ?thesis by (metis converse_rtranclp_into_rtranclp)
  qed
qed

subsection \<open>Properties\<close>

lemma New_scheduler_pool:
  "pool_inv (start_pool (NewWorkStealingScheduler cpus n c))
   \<and> 0 < sc_numWorkers (NewWorkStealingScheduler cpus n c)"
  by (rule conjI [OF start_pool_inv]) (auto simp: NewWorkStealingScheduler_def Let_def)

text \<open>
  C7: no task is lost and none runs twice. In every interleaving of schedulers, workers, thieves and
  \<^verbatim>\<open>Stop\<close>, the tasks whose \<^verbatim>\<open>Schedule\<close> returned are, with multiplicity, the queued, the
  running and the executed ones; each executed task delivered the result of running it, and no queue
  exceeds its capacity.
\<close>

theorem scheduler_conserves_tasks:
  assumes "pool_reachable (NewWorkStealingScheduler cpus n c) p"
  shows "mset (pl_scheduled p) = queued p + running p + finished p
    \<and> (\<forall>(t, r) \<in> set (pl_done p). r = executeTask t)
    \<and> (\<forall>q \<in> set (pl_queues p). length q \<le> sc_capacity (pl_sched p))"
  using pool_reachable_inv [OF assms] New_scheduler_pool by (simp add: pool_inv_def)

definition sample_task :: VertexTask where
  "sample_task = \<lparr>vt_VertexID = ''v'', vt_Program = SimpleCounter_Compute 1 [],
     vt_State = Map.empty, vt_Messages = [], vt_Result = 0\<rparr>"

lemma sample_pool:
  "Schedule sample_task (NewWorkStealingScheduler 1 1 1) =
     (Returns (), (NewWorkStealingScheduler 1 1 1)\<lparr>sc_counter := 1, sc_queues := [[sample_task]]\<rparr>)"
  by (simp add: Schedule_def Let_def NewWorkStealingScheduler_def sched_index_def signed_modulo_int_def)

theorem scheduler_conserves_tasks_witness:
  "\<exists>p. pool_reachable (NewWorkStealingScheduler 1 1 1) p \<and> pl_scheduled p = [sample_task]
     \<and> queued p + running p + finished p = {#sample_task#}"
proof -
  let ?ws = "NewWorkStealingScheduler 1 1 1"
  have "Schedule sample_task (pl_sched (start_pool ?ws))
      = (Returns (), ?ws\<lparr>sc_counter := 1, sc_queues := [[sample_task]]\<rparr>)"
    using sample_pool by (simp add: start_pool_def)
  from pool_next [OF pool_start pool_schedule [OF this]]
  obtain p where p: "pool_reachable ?ws p" "pl_scheduled p = [sample_task]"
    by (force simp: start_pool_def)
  from scheduler_conserves_tasks [OF p(1)] p show ?thesis by auto
qed

text \<open>
  C23: the workers finish what was scheduled. In a pool that has not been stopped (no worker has
  returned), with results that fit into their channels as the engine sees to it, every action of a
  worker reduces the remaining work (two actions per queued task, one per running task), whatever
  the workers do they never wait for a result to be received before everything is done, and so the
  actions of the workers alone lead to a pool in which exactly the scheduled tasks have been
  executed. What has been received from a result channel is then the beginning of the results of its
  tasks, and the others wait in it.
\<close>

theorem scheduler_completes:
  assumes "pool_reachable (NewWorkStealingScheduler cpus n c) p"
    and "\<forall>e \<in> set (pl_exited p). \<not> e" and "results_fit p"
  shows "(\<forall>p'. worker_step p p' \<longrightarrow> work_left p' < work_left p)
    \<and> ((\<forall>p'. \<not> worker_step p p') \<longrightarrow> mset (pl_scheduled p) = finished p)
    \<and> (\<exists>p'. worker_step\<^sup>*\<^sup>* p p' \<and> finished p' = mset (pl_scheduled p) \<and> pl_scheduled p' = pl_scheduled p)
    \<and> (\<forall>ch. pl_received p ch @ waiting_results ch p = results_of ch p)"
proof -
  have inv: "pool_inv p" using pool_reachable_inv [OF assms(1)] New_scheduler_pool by simp
  have res: "results_inv p" by (rule reachable_results_inv [OF assms(1)])
  have workers: "0 < sc_numWorkers (pl_sched p)"
    using reachable_workers [OF assms(1)] New_scheduler_pool by simp
  show ?thesis
    using worker_step_work [OF _ inv] pool_stuck_done [OF inv res workers assms(3,2)]
      worker_steps_finish [OF inv res assms(3) workers assms(2)] inv res
    by (auto simp: pool_inv_def results_inv_def)
qed

text \<open>One task is queued with a channel of one place: the workers alone execute it.\<close>

theorem scheduler_completes_witness:
  "\<exists>p p'. pool_reachable (NewWorkStealingScheduler 1 1 1) p \<and> queued p = {#sample_task#}
     \<and> worker_step\<^sup>*\<^sup>* p p' \<and> finished p' = {#sample_task#}"
proof -
  let ?ws = "NewWorkStealingScheduler 1 1 1"
  let ?p1 = "(start_pool ?ws)\<lparr>pl_results := [0 \<mapsto> (1, [])]\<rparr>"
  let ?ws2 = "?ws\<lparr>sc_counter := 1, sc_queues := [[sample_task]]\<rparr>"
  let ?p2 = "?p1\<lparr>pl_sched := ?ws2, pl_scheduled := [sample_task]\<rparr>"
  have "pool_step (start_pool ?ws) ?p1"
    using pool_channel [of "start_pool ?ws" 0 1] by (simp add: start_pool_def)
  then have "pool_reachable ?ws ?p1" by (rule pool_next [OF pool_start])
  moreover have "Schedule sample_task (pl_sched ?p1) = (Returns (), ?ws2)"
    using sample_pool by (simp add: start_pool_def)
  from pool_schedule [OF this] have "pool_step ?p1 ?p2" by (simp add: start_pool_def)
  ultimately have reach: "pool_reachable ?ws ?p2" by (rule pool_next)
  have "\<forall>e \<in> set (pl_exited ?p2). \<not> e" by (simp add: start_pool_def NewWorkStealingScheduler_def)
  moreover have "results_fit ?p2" by (simp add: results_fit_def sample_task_def)
  ultimately obtain p' where "worker_step\<^sup>*\<^sup>* ?p2 p'" "finished p' = mset (pl_scheduled ?p2)"
    using scheduler_completes [OF reach] by blast
  moreover have "queued ?p2 = {#sample_task#}" by (simp add: queued_def)
  ultimately show ?thesis using reach by (intro exI [of _ ?p2] exI [of _ p']) simp
qed

text \<open>
  round robin, and where it ends. Below 2^63 - 1 tasks the queue of the next task is the counter
  modulo the number of workers. When the 64-bit counter has wrapped, Go's remainder is negative or
  zero: a \<^verbatim>\<open>Schedule\<close> whose counter the number of workers does not divide panics.
\<close>

theorem round_robin_wraps:
  assumes "length (sc_queues ws) = sc_numWorkers ws" and "0 < sc_numWorkers ws"
  shows "(0 \<le> sint (sc_counter ws) \<and> sint (sc_counter ws) < 2 ^ 63 - 1 \<longrightarrow>
        sched_index ws = (sint (sc_counter ws) + 1) mod int (sc_numWorkers ws))
    \<and> (sint (sc_counter ws + 1) < 0 \<and> \<not> int (sc_numWorkers ws) dvd sint (sc_counter ws + 1)
        \<longrightarrow> fst (Schedule t ws) = Panics ''index out of range'')"
proof -
  have idx: "sched_index ws = (sint (sc_counter ws) + 1) mod int (sc_numWorkers ws)"
    if "0 \<le> sint (sc_counter ws)" "sint (sc_counter ws) < 2 ^ 63 - 1"
  proof -
    have "sc_counter ws + 1 = word_of_int (sint (sc_counter ws) + 1)" by simp
    then have "sint (sc_counter ws + 1) = sint (word_of_int (sint (sc_counter ws) + 1) :: 64 word)"
      by (rule arg_cong)
    also have "\<dots> = sint (sc_counter ws) + 1" by (rule sint_word_of_int64) (use that in auto)
    finally show ?thesis using that by (simp add: sched_index_def signed_modulo_int_def)
  qed
  have neg: "z smod int n < 0" if "z < 0" "0 < n" "\<not> int n dvd z" for z n
  proof -
    have "\<bar>z\<bar> mod int n \<noteq> 0" using that(3) by (simp only: dvd_eq_mod_eq_0 [symmetric] dvd_abs_iff) simp
    moreover have "0 \<le> \<bar>z\<bar> mod int n" using that(2) by simp
    ultimately have "0 < \<bar>z\<bar> mod int n" by simp
    then show ?thesis using that by (simp add: signed_modulo_int_def)
  qed
  then have "sched_index ws < 0"
    if "sint (sc_counter ws + 1) < 0" "\<not> int (sc_numWorkers ws) dvd sint (sc_counter ws + 1)"
    using that assms(2) by (simp add: sched_index_def)
  then show ?thesis using idx by (auto simp: Schedule_def Let_def)
qed

theorem round_robin_wraps_witness:
  "fst (Schedule sample_task ((NewWorkStealingScheduler 2 2 1)\<lparr>sc_counter := - 2\<rparr>))
     = Panics ''index out of range''"
  using round_robin_wraps [of "(NewWorkStealingScheduler 2 2 1)\<lparr>sc_counter := - 2\<rparr>" sample_task]
  by (simp add: NewWorkStealingScheduler_def Let_def)

end
