(* ===== verification/Recovery.thy ===== *)
theory Recovery
  imports GoValue
begin

section \<open>Recovery (internal/core/pregel/recovery.go)\<close>

text \<open>
  The retry policy of a failed vertex with its exponential backoff, and the checkpoint manager that
  the engine uses to roll a failed superstep back. Here is the book-keeping of the manager: which
  checkpoint lies under which key, and when it is cleaned up; what is stored is a type parameter. The
  copying of the states, with the sharing that it leaves, is in \<open>CheckpointHeap\<close>, on a
  heap of maps; the value-level engine stores the contents themselves, which
  \<open>CheckpointHeap\<close> relates to the copies. Loops over the manager's map take the order of the
  keys.
\<close>

subsection \<open>Retries\<close>

record RetryPolicy =
  rp_MaxRetries :: int
  rp_BackoffMs :: "64 word"

record RetryableError =
  re_OriginalError :: string
  re_VertexID :: string
  re_Attempt :: int

definition RetryableError_Error :: "RetryableError \<Rightarrow> string" where
  "RetryableError_Error re =
     ''vertex '' @ re_VertexID re @ '' failed on attempt '' @ show_int (re_Attempt re)
       @ '': '' @ re_OriginalError re"

text \<open>
  \<^verbatim>\<open>time.Duration(BackoffMs*(1<<attempt)) * time.Millisecond\<close> in 64-bit arithmetic, in
  nanoseconds; a negative duration does not sleep.
\<close>

definition backoff_time :: "64 word \<Rightarrow> nat \<Rightarrow> 64 word" where
  "backoff_time ms attempt = ms * push_bit attempt 1 * 1000000"

text \<open>The answer, and how long the call sleeps before it gives it.\<close>

definition HandleError ::
  "RetryPolicy \<Rightarrow> string \<Rightarrow> string \<Rightarrow> int \<Rightarrow> (bool \<times> RetryableError option) \<times> int" where
  "HandleError policy vertexID err attempt =
     (if rp_MaxRetries policy \<le> attempt
      then ((False, Some \<lparr>re_OriginalError = err, re_VertexID = vertexID, re_Attempt = attempt\<rparr>), 0)
      else ((True, None),
        if 0 < sint (rp_BackoffMs policy)
        then max 0 (sint (backoff_time (rp_BackoffMs policy) (nat attempt))) else 0))"

lemma HandleError_retry [simp]:
  "fst (fst (HandleError policy v err a)) \<longleftrightarrow> a < rp_MaxRetries policy"
  by (auto simp: HandleError_def)

lemma HandleError_error:
  "snd (fst (HandleError policy v err a)) =
     (if a < rp_MaxRetries policy then None
      else Some \<lparr>re_OriginalError = err, re_VertexID = v, re_Attempt = a\<rparr>)"
  by (auto simp: HandleError_def)

lemma backoff_exact:
  assumes "0 \<le> sint ms" and "sint ms * 2 ^ a * 1000000 < 2 ^ 63"
  shows "sint (backoff_time ms a) = sint ms * 2 ^ a * 1000000"
proof -
  have "backoff_time ms a = word_of_int (sint ms * 2 ^ a * 1000000)"
    by (simp add: backoff_time_def push_bit_eq_mult)
  then have "sint (backoff_time ms a) = sint (word_of_int (sint ms * 2 ^ a * 1000000) :: 64 word)"
    by (rule arg_cong)
  also have "\<dots> = sint ms * 2 ^ a * 1000000"
    by (rule sint_word_of_int64) (use assms in \<open>auto intro: order_trans [of _ 0]\<close>)
  finally show ?thesis .
qed

lemma backoff_wraps: "64 \<le> a \<Longrightarrow> backoff_time ms a = 0"
proof -
  assume "64 \<le> a"
  then have "(2 :: 64 word) ^ a = 0" by (simp add: exp_eq_zero_iff)
  then show ?thesis
    by (simp only: backoff_time_def push_bit_eq_mult mult_1 mult_zero_right mult_zero_left)
qed

subsection \<open>The checkpoint manager\<close>

type_synonym vstates = "string \<rightharpoonup> gstate"

record 'a CheckpointManager =
  cpm_checkpoints :: "string \<rightharpoonup> 'a"
  cpm_max :: int

definition NewCheckpointManager :: "'a CheckpointManager" where
  "NewCheckpointManager = \<lparr>cpm_checkpoints = Map.empty, cpm_max = 10\<rparr>"

definition checkpoint_key :: "int \<Rightarrow> string" where
  "checkpoint_key superstep = ''step_'' @ show_int superstep"

definition cleanup_key :: "int \<Rightarrow> int \<Rightarrow> string \<Rightarrow> (string \<rightharpoonup> 'a) \<Rightarrow> (string \<rightharpoonup> 'a)" where
  "cleanup_key maxc currentStep key cs =
     (case scan_prefixed ''step_'' key of
        Some step \<Rightarrow> if currentStep - step > maxc then cs(key := None) else cs
      | None \<Rightarrow> cs)"

definition cleanupOldCheckpoints :: "string list \<Rightarrow> int \<Rightarrow> 'a CheckpointManager \<Rightarrow> 'a CheckpointManager" where
  "cleanupOldCheckpoints keys currentStep cm =
     cm\<lparr>cpm_checkpoints :=
          fold (cleanup_key (cpm_max cm) currentStep) keys (cpm_checkpoints cm)\<rparr>"

text \<open>
  The map entry that \<^verbatim>\<open>SaveCheckpoint\<close> writes, with its clean-up, and the one that
  \<^verbatim>\<open>LoadCheckpoint\<close> reads. \<open>keys\<close> is the order of the loop of the clean-up, over the
  map as it is then; the length of the map is the length of that order.
\<close>

definition put_checkpoint :: "string list \<Rightarrow> int \<Rightarrow> 'a \<Rightarrow> 'a CheckpointManager \<Rightarrow> 'a CheckpointManager" where
  "put_checkpoint keys superstep states cm =
     (let cm1 = cm\<lparr>cpm_checkpoints := (cpm_checkpoints cm)(checkpoint_key superstep \<mapsto> states)\<rparr>
      in if int (length keys) > cpm_max cm1 then cleanupOldCheckpoints keys superstep cm1 else cm1)"

definition get_checkpoint :: "int \<Rightarrow> 'a CheckpointManager \<Rightarrow> 'a option" where
  "get_checkpoint superstep cm = cpm_checkpoints cm (checkpoint_key superstep)"

fun ListCheckpoints_loop :: "string list \<Rightarrow> int list" where
  "ListCheckpoints_loop [] = []"
| "ListCheckpoints_loop (key # keys) =
     (case scan_prefixed ''step_'' key of
        Some step \<Rightarrow> step # ListCheckpoints_loop keys
      | None \<Rightarrow> ListCheckpoints_loop keys)"

definition ListCheckpoints :: "string list \<Rightarrow> 'a CheckpointManager \<Rightarrow> int list" where
  "ListCheckpoints keys cm = ListCheckpoints_loop keys"

definition DeleteCheckpoint :: "int \<Rightarrow> 'a CheckpointManager \<Rightarrow> 'a CheckpointManager" where
  "DeleteCheckpoint superstep cm =
     cm\<lparr>cpm_checkpoints := (cpm_checkpoints cm)(checkpoint_key superstep := None)\<rparr>"

definition ClearCheckpoints :: "'a CheckpointManager \<Rightarrow> 'a CheckpointManager" where
  "ClearCheckpoints cm = cm\<lparr>cpm_checkpoints := Map.empty\<rparr>"

subsection \<open>Keys and clean-up\<close>

lemma checkpoint_key_inject [simp]: "checkpoint_key a = checkpoint_key b \<longleftrightarrow> a = b"
  by (simp add: checkpoint_key_def)

lemma scan_checkpoint_key [simp]: "scan_prefixed ''step_'' (checkpoint_key n) = Some n"
  using scan_prefixed_show [of "[]" "''step_''" n] by (simp add: checkpoint_key_def)

definition too_old :: "int \<Rightarrow> int \<Rightarrow> string \<Rightarrow> bool" where
  "too_old maxc now key = (case scan_prefixed ''step_'' key of Some s \<Rightarrow> now - s > maxc | None \<Rightarrow> False)"

lemma cleanup_keys:
  "fold (cleanup_key maxc now) keys cs k = (if k \<in> set keys \<and> too_old maxc now k then None else cs k)"
  by (induction keys arbitrary: cs) (auto simp: cleanup_key_def too_old_def split: option.splits)

lemma too_old_key [simp]: "too_old maxc now (checkpoint_key n) \<longleftrightarrow> now - n > maxc"
  by (simp add: too_old_def)

lemma put_checkpoint_max [simp]: "cpm_max (put_checkpoint keys n states cm) = cpm_max cm"
  by (simp add: put_checkpoint_def cleanupOldCheckpoints_def Let_def)

lemma put_checkpoint_entry:
  assumes "map_order ((cpm_checkpoints cm)(checkpoint_key n \<mapsto> states)) keys"
  shows "cpm_checkpoints (put_checkpoint keys n states cm) k =
    (if int (length keys) > cpm_max cm \<and> too_old (cpm_max cm) n k then None
     else if k = checkpoint_key n then Some states else cpm_checkpoints cm k)"
  using map_order_in [OF assms, of k]
  by (auto simp: put_checkpoint_def cleanupOldCheckpoints_def Let_def cleanup_keys)

lemma Load_after_Save:
  assumes "map_order ((cpm_checkpoints cm)(checkpoint_key n \<mapsto> states)) keys" and "0 \<le> cpm_max cm"
  shows "get_checkpoint n (put_checkpoint keys n states cm) = Some states"
  using assms(2) by (simp add: get_checkpoint_def put_checkpoint_entry [OF assms(1)])

subsection \<open>Properties\<close>

text \<open>
  the backoff is exponential as long as it fits: a vertex that failed its attempt number
  \<open>a\<close> is retried exactly while \<open>a\<close> is below the limit, and the wait is
  \<open>BackoffMs * 2 ^ a\<close> milliseconds when that is below 2^63 nanoseconds; from attempt 64 on
  the product has wrapped to zero and there is no wait.
\<close>

theorem retry_backoff:
  assumes "0 \<le> a" and "a < rp_MaxRetries policy" and "0 \<le> sint (rp_BackoffMs policy)"
  shows "fst (HandleError policy v err a) = (True, None)
    \<and> (sint (rp_BackoffMs policy) * 2 ^ nat a * 1000000 < 2 ^ 63 \<longrightarrow>
        snd (HandleError policy v err a) = sint (rp_BackoffMs policy) * 2 ^ nat a * 1000000)
    \<and> (64 \<le> a \<longrightarrow> snd (HandleError policy v err a) = 0)"
  using assms backoff_exact [OF assms(3), of "nat a"] backoff_wraps [of "nat a" "rp_BackoffMs policy"]
  by (auto simp: HandleError_def)

theorem retry_backoff_witness:
  "snd (HandleError \<lparr>rp_MaxRetries = 3, rp_BackoffMs = 10\<rparr> ''v'' ''e'' 2) = 40000000"
  using retry_backoff [of 2 "\<lparr>rp_MaxRetries = 3, rp_BackoffMs = 10\<rparr>" "''v''" "''e''"] by simp

text \<open>
  a saved checkpoint can be loaded. Right after \<^verbatim>\<open>put_checkpoint\<close> the step's
  checkpoint is the saved states, and any other step within the limit of the saved one keeps what it
  had.
\<close>

theorem save_load_checkpoint:
  assumes "map_order ((cpm_checkpoints cm)(checkpoint_key n \<mapsto> states)) keys" and "0 \<le> cpm_max cm"
  shows "get_checkpoint n (put_checkpoint keys n states cm) = Some states
    \<and> (m \<noteq> n \<and> n - m \<le> cpm_max cm \<longrightarrow>
        get_checkpoint m (put_checkpoint keys n states cm) = get_checkpoint m cm)"
  using Load_after_Save [OF assms] by (auto simp: get_checkpoint_def put_checkpoint_entry [OF assms(1)])

theorem save_load_checkpoint_witness:
  "get_checkpoint 4 (put_checkpoint [checkpoint_key 4] 4 [''v'' \<mapsto> [''x'' \<mapsto> VInt 1]] NewCheckpointManager)
     = Some [''v'' \<mapsto> [''x'' \<mapsto> VInt 1]]"
proof -
  have "map_order ((cpm_checkpoints NewCheckpointManager)(checkpoint_key 4 \<mapsto> [''v'' \<mapsto> [''x'' \<mapsto> VInt 1]]))
      [checkpoint_key 4]"
    by (simp add: map_order_def NewCheckpointManager_def)
  from save_load_checkpoint [OF this] show ?thesis by (simp add: NewCheckpointManager_def)
qed

text \<open>The saves of consecutive supersteps from 0 on a new manager, as the engine makes them.\<close>

inductive saved_steps :: "int \<Rightarrow> vstates CheckpointManager \<Rightarrow> bool" where
  saved_none: "saved_steps 0 NewCheckpointManager"
| saved_next: "saved_steps n cm \<Longrightarrow>
     map_order ((cpm_checkpoints cm)(checkpoint_key n \<mapsto> states)) keys \<Longrightarrow>
     saved_steps (n + 1) (put_checkpoint keys n states cm)"

lemma saved_steps_dom:
  "saved_steps n cm \<Longrightarrow> 0 \<le> n \<and> cpm_max cm = 10
    \<and> dom (cpm_checkpoints cm) = checkpoint_key ` {max 0 (n - 11)..<n}"
proof (induction rule: saved_steps.induct)
  case saved_none
  then show ?case by (simp add: NewCheckpointManager_def)
next
  case (saved_next n cm states keys)
  let ?cs = "(cpm_checkpoints cm)(checkpoint_key n \<mapsto> states)"
  have n: "0 \<le> n" and mx: "cpm_max cm = 10"
    and d: "dom (cpm_checkpoints cm) = checkpoint_key ` {max 0 (n - 11)..<n}"
    using saved_next.IH by auto
  have "dom ?cs = checkpoint_key ` {max 0 (n - 11)..n}"
    using n d by (auto simp: image_iff)
  then have "length keys = card (checkpoint_key ` {max 0 (n - 11)..n})"
    using map_order_length [OF saved_next.hyps(2)] by simp
  also have "\<dots> = card {max 0 (n - 11)..n}" by (rule card_image) (auto simp: inj_on_def)
  finally have len: "int (length keys) = n - max 0 (n - 11) + 1" using n by simp
  have "dom (cpm_checkpoints (put_checkpoint keys n states cm))
      = {k \<in> dom ?cs. \<not> (int (length keys) > 10 \<and> too_old 10 n k)}"
    using mx by (auto simp: dom_def put_checkpoint_entry [OF saved_next.hyps(2)])
  also have "\<dots> = checkpoint_key ` {max 0 (n - 10)..<n + 1}"
    unfolding \<open>dom ?cs = _\<close> using n len by (auto simp: image_iff)
  finally show ?case using n mx by simp
qed

text \<open>
  what the engine's checkpoint manager holds. After the saves of supersteps 0 to \<open>n - 1\<close>
  its keys are exactly those of the last eleven supersteps, one more than the ten that the
  constructor announces.
\<close>

theorem saved_steps_kept:
  assumes "saved_steps n cm" and "map_order (cpm_checkpoints cm) keys"
  shows "set (ListCheckpoints keys cm) = {max 0 (n - 11)..<n}"
proof -
  have "ListCheckpoints_loop ks = map (\<lambda>k. the (scan_prefixed ''step_'' k)) ks"
    if "\<And>k. k \<in> set ks \<Longrightarrow> \<exists>i. k = checkpoint_key i" for ks
    using that by (induction ks) force+
  moreover have keys: "set keys = checkpoint_key ` {max 0 (n - 11)..<n}"
    using saved_steps_dom [OF assms(1)] assms(2) by (simp add: map_order_def)
  ultimately have "ListCheckpoints_loop keys = map (\<lambda>k. the (scan_prefixed ''step_'' k)) keys"
    by blast
  then show ?thesis by (simp add: ListCheckpoints_def keys image_image)
qed

theorem saved_steps_kept_witness:
  "saved_steps 1 (put_checkpoint [checkpoint_key 0] 0 (Map.empty :: vstates) NewCheckpointManager)
   \<and> set (ListCheckpoints [checkpoint_key 0]
        (put_checkpoint [checkpoint_key 0] 0 (Map.empty :: vstates) NewCheckpointManager)) = {0}"
proof -
  let ?cm = "put_checkpoint [checkpoint_key 0] 0 (Map.empty :: vstates) NewCheckpointManager"
  have "saved_steps (0 + 1) ?cm"
    by (rule saved_next [OF saved_none]) (simp add: map_order_def NewCheckpointManager_def)
  then have saved: "saved_steps 1 ?cm" by simp
  have zero: "{0..<1::int} = {0}" by auto
  have "map_order (cpm_checkpoints ?cm) [checkpoint_key 0]"
    using saved_steps_dom [OF saved] zero by (simp add: map_order_def)
  from saved_steps_kept [OF saved this] have "set (ListCheckpoints [checkpoint_key 0] ?cm) = {0..<1}"
    by simp
  also note zero
  finally show ?thesis using saved by simp
qed

end
