(* ===== verification/Streaming.thy ===== *)
theory Streaming
  imports ChannelCore
begin

section \<open>Event streaming (internal/core/pregel/streaming.go)\<close>

text \<open>
  Events of an execution, the streamer that buffers them for its handlers, and the handlers that
  keep state. The streamer's goroutine is a step of its own; the clock is an argument.
\<close>

subsection \<open>Events and handlers\<close>

record StreamEvent =
  ev_Type :: string
  ev_VertexID :: string
  ev_Step :: int
  ev_Data :: gval
  ev_Timestamp :: int

record MetricsStreamHandler =
  VertexCounts :: "string \<rightharpoonup> int"
  SuperstepTimes :: "int \<rightharpoonup> int"
  EventCounts :: "string \<rightharpoonup> int"
  TotalMessages :: int
  startTimes :: "int \<rightharpoonup> int"

definition NewMetricsStreamHandler :: MetricsStreamHandler where
  "NewMetricsStreamHandler = \<lparr>VertexCounts = Map.empty, SuperstepTimes = Map.empty,
     EventCounts = Map.empty, TotalMessages = 0, startTimes = Map.empty\<rparr>"

text \<open>\<^verbatim>\<open>m[k]++\<close> on a Go map\<close>

definition map_incr :: "'k \<Rightarrow> ('k \<rightharpoonup> int) \<Rightarrow> ('k \<rightharpoonup> int)" where
  "map_incr k m = m(k \<mapsto> (case m k of Some n \<Rightarrow> n | None \<Rightarrow> 0) + 1)"

text \<open>The count that a \<^verbatim>\<open>vertex_end\<close> event adds to the total.\<close>

definition message_count :: "gval \<Rightarrow> int" where
  "message_count d =
     (case as_map d of
        Some data \<Rightarrow>
          (case data ''message_count'' of
             Some v \<Rightarrow> (case as_int v of Some n \<Rightarrow> sint n | None \<Rightarrow> 0)
           | None \<Rightarrow> 0)
      | None \<Rightarrow> 0)"

definition Metrics_HandleEvent :: "int \<Rightarrow> StreamEvent \<Rightarrow> MetricsStreamHandler \<Rightarrow> MetricsStreamHandler" where
  "Metrics_HandleEvent now event h =
     (let h1 = h\<lparr>EventCounts := map_incr (ev_Type event) (EventCounts h)\<rparr>
      in if ev_Type event = ''vertex_start''
         then h1\<lparr>VertexCounts := map_incr (ev_VertexID event) (VertexCounts h1)\<rparr>
         else if ev_Type event = ''superstep_start''
         then h1\<lparr>startTimes := (startTimes h1)(ev_Step event \<mapsto> now)\<rparr>
         else if ev_Type event = ''superstep_end''
         then (case startTimes h1 (ev_Step event) of
                 Some startTime \<Rightarrow>
                   h1\<lparr>SuperstepTimes := (SuperstepTimes h1)(ev_Step event \<mapsto> now - startTime)\<rparr>
               | None \<Rightarrow> h1)
         else if ev_Type event = ''vertex_end''
         then h1\<lparr>TotalMessages := TotalMessages h1 + message_count (ev_Data event)\<rparr>
         else h1)"

text \<open>The callbacks of a \<^verbatim>\<open>CallbackStreamHandler\<close>; \<open>Some\<close> is the error one returned.\<close>

type_synonym callback = "StreamEvent \<Rightarrow> string option"

definition AddCallback :: "string \<Rightarrow> callback \<Rightarrow> (string \<rightharpoonup> callback) \<Rightarrow> (string \<rightharpoonup> callback)" where
  "AddCallback eventType cb callbacks = callbacks(eventType \<mapsto> cb)"

definition Callback_HandleEvent :: "StreamEvent \<Rightarrow> (string \<rightharpoonup> callback) \<Rightarrow> string option" where
  "Callback_HandleEvent event callbacks =
     (case callbacks (ev_Type event) of Some cb \<Rightarrow> cb event | None \<Rightarrow> None)"

datatype StreamHandler =
    MetricsHandler MetricsStreamHandler
  | CallbackHandler "string \<rightharpoonup> callback"
  | LogHandler bool

text \<open>The streamer ignores the error of a handler.\<close>

definition HandleEvent :: "int \<Rightarrow> StreamEvent \<Rightarrow> StreamHandler \<Rightarrow> StreamHandler" where
  "HandleEvent now event h =
     (case h of
        MetricsHandler m \<Rightarrow> MetricsHandler (Metrics_HandleEvent now event m)
      | CallbackHandler cbs \<Rightarrow> CallbackHandler cbs
      | LogHandler v \<Rightarrow> LogHandler v)"

subsection \<open>The streamer\<close>

record Streamer =
  st_handlers :: "StreamHandler list"
  st_events :: "StreamEvent gochan"
  st_cancelled :: bool
  st_running :: bool

definition NewStreamer :: Streamer where
  "NewStreamer = \<lparr>st_handlers = [], st_events = make_chan 1000, st_cancelled = False,
     st_running = False\<rparr>"

definition AddHandler :: "StreamHandler \<Rightarrow> Streamer \<Rightarrow> Streamer" where
  "AddHandler h s = s\<lparr>st_handlers := st_handlers s @ [h]\<rparr>"

definition Streamer_Start :: "Streamer \<Rightarrow> Streamer" where
  "Streamer_Start s = (if st_running s then s else s\<lparr>st_running := True\<rparr>)"

text \<open>The select with a default arm: a full buffer drops the event.\<close>

definition EmitEvent :: "StreamEvent \<Rightarrow> Streamer \<Rightarrow> (string, unit) outcome \<times> Streamer" where
  "EmitEvent event s =
     (if ch_closed (st_events s) then (Panics ''send on closed channel'', s)
      else if length (ch_buf (st_events s)) < ch_cap (st_events s)
      then (Returns (), s\<lparr>st_events := (st_events s)\<lparr>ch_buf := ch_buf (st_events s) @ [event]\<rparr>\<rparr>)
      else (Returns (), s))"

definition Streamer_Stop :: "Streamer \<Rightarrow> (string, unit) outcome \<times> Streamer" where
  "Streamer_Stop s =
     (if \<not> st_running s then (Returns (), s)
      else let s1 = s\<lparr>st_running := False, st_cancelled := True\<rparr>
        in case chan_close (st_events s1) of
             Returns ch \<Rightarrow> (Returns (), s1\<lparr>st_events := ch\<rparr>)
           | Fails e \<Rightarrow> (Fails e, s1) | Blocks \<Rightarrow> (Blocks, s1)
           | Deadlocks \<Rightarrow> (Deadlocks, s1) | Panics m \<Rightarrow> (Panics m, s1))"

text \<open>One turn of the goroutine on an event: every handler sees it.\<close>

definition streamer_deliver :: "int \<Rightarrow> Streamer \<Rightarrow> Streamer option" where
  "streamer_deliver now s =
     (case ch_buf (st_events s) of
        [] \<Rightarrow> None
      | event # rest \<Rightarrow>
          Some (s\<lparr>st_events := (st_events s)\<lparr>ch_buf := rest\<rparr>,
                  st_handlers := map (HandleEvent now event) (st_handlers s)\<rparr>))"

fun emit_all :: "StreamEvent list \<Rightarrow> Streamer \<Rightarrow> Streamer" where
  "emit_all [] s = s"
| "emit_all (ev # evs) s = emit_all evs (snd (EmitEvent ev s))"

fun deliver_all :: "int list \<Rightarrow> Streamer \<Rightarrow> Streamer" where
  "deliver_all [] s = s"
| "deliver_all (now # nows) s =
     (case streamer_deliver now s of Some s' \<Rightarrow> deliver_all nows s' | None \<Rightarrow> s)"

subsection \<open>Lemmas\<close>

lemma emit_all_buffered:
  "\<not> ch_closed (st_events s) \<Longrightarrow> length (ch_buf (st_events s)) \<le> ch_cap (st_events s) \<Longrightarrow>
   ch_buf (st_events (emit_all evs s))
     = ch_buf (st_events s) @ take (ch_cap (st_events s) - length (ch_buf (st_events s))) evs
   \<and> st_handlers (emit_all evs s) = st_handlers s"
proof (induction evs arbitrary: s)
  case (Cons ev evs)
  show ?case
  proof (cases "length (ch_buf (st_events s)) < ch_cap (st_events s)")
    case True
    with Cons.prems Cons.IH [of "snd (EmitEvent ev s)"] show ?thesis
      by (simp add: EmitEvent_def take_Cons' Suc_diff_Suc)
  next
    case False
    with Cons.prems Cons.IH [of s] show ?thesis by (simp add: EmitEvent_def)
  qed
qed simp

lemma deliver_all_handlers:
  "length nows = length (ch_buf (st_events s)) \<Longrightarrow>
   st_handlers (deliver_all nows s)
     = map (\<lambda>h. fold (\<lambda>(now, ev) h. HandleEvent now ev h) (zip nows (ch_buf (st_events s))) h) (st_handlers s)
   \<and> ch_buf (st_events (deliver_all nows s)) = []"
proof (induction nows arbitrary: s)
  case (Cons now nows)
  then obtain ev evs where buf: "ch_buf (st_events s) = ev # evs" by (cases "ch_buf (st_events s)") auto
  with Cons show ?case by (simp add: streamer_deliver_def)
qed simp

definition count_of :: "('k \<rightharpoonup> int) \<Rightarrow> 'k \<Rightarrow> int" where
  "count_of m k = (case m k of Some n \<Rightarrow> n | None \<Rightarrow> 0)"

lemma count_of_incr: "count_of (map_incr k m) x = count_of m x + (if x = k then 1 else 0)"
  by (simp add: count_of_def map_incr_def split: option.splits)

lemma metrics_step:
  "count_of (EventCounts (Metrics_HandleEvent now ev h)) ty
     = count_of (EventCounts h) ty + (if ev_Type ev = ty then 1 else 0)"
  "count_of (VertexCounts (Metrics_HandleEvent now ev h)) v
     = count_of (VertexCounts h) v + (if ev_Type ev = ''vertex_start'' \<and> ev_VertexID ev = v then 1 else 0)"
  "TotalMessages (Metrics_HandleEvent now ev h)
     = TotalMessages h + (if ev_Type ev = ''vertex_end'' then message_count (ev_Data ev) else 0)"
  by (auto simp: Metrics_HandleEvent_def Let_def count_of_incr split: option.splits)

definition feed_metrics :: "(int \<times> StreamEvent) list \<Rightarrow> MetricsStreamHandler \<Rightarrow> MetricsStreamHandler" where
  "feed_metrics evs h = fold (\<lambda>(now, ev) h. Metrics_HandleEvent now ev h) evs h"

lemma feed_metrics_handler:
  "fold (\<lambda>(now, ev) h. HandleEvent now ev h) evs (MetricsHandler h) = MetricsHandler (feed_metrics evs h)"
  by (induction evs arbitrary: h) (auto simp: feed_metrics_def HandleEvent_def)

lemma feed_metrics_counts:
  "count_of (EventCounts (feed_metrics evs h)) ty = count_of (EventCounts h) ty
     + int (length (filter (\<lambda>e. ev_Type e = ty) (map snd evs)))
   \<and> count_of (VertexCounts (feed_metrics evs h)) v = count_of (VertexCounts h) v
     + int (length (filter (\<lambda>e. ev_Type e = ''vertex_start'' \<and> ev_VertexID e = v) (map snd evs)))
   \<and> TotalMessages (feed_metrics evs h) = TotalMessages h
     + sum_list (map (\<lambda>e. message_count (ev_Data e)) (filter (\<lambda>e. ev_Type e = ''vertex_end'') (map snd evs)))"
proof (induction evs arbitrary: h)
  case Nil
  then show ?case by (simp add: feed_metrics_def)
next
  case (Cons x evs)
  obtain now ev where x: "x = (now, ev)" by fastforce
  have "feed_metrics (x # evs) h = feed_metrics evs (Metrics_HandleEvent now ev h)"
    by (simp add: feed_metrics_def x)
  with Cons.IH [of "Metrics_HandleEvent now ev h"] show ?case
    by (simp add: metrics_step x)
qed

subsection \<open>Properties\<close>

text \<open>
  end to end metrics. On a new streamer with one new metrics handler, emitting up to 1000 events
  and then letting the goroutine deliver them loses nothing: per type the handler counts the emitted
  events of that type, per vertex its starts, and the message total is that of the
  \<^verbatim>\<open>vertex_end\<close> events; of more than 1000 events exactly the first 1000 are counted.
\<close>

theorem stream_metrics:
  assumes "length nows = min 1000 (length evs)"
  shows "\<exists>h. st_handlers (deliver_all nows (emit_all evs (AddHandler (MetricsHandler NewMetricsStreamHandler) NewStreamer)))
      = [MetricsHandler h]
    \<and> (\<forall>ty. count_of (EventCounts h) ty = int (length (filter (\<lambda>e. ev_Type e = ty) (take 1000 evs))))
    \<and> (\<forall>v. count_of (VertexCounts h) v
        = int (length (filter (\<lambda>e. ev_Type e = ''vertex_start'' \<and> ev_VertexID e = v) (take 1000 evs))))
    \<and> TotalMessages h = sum_list (map (\<lambda>e. message_count (ev_Data e))
        (filter (\<lambda>e. ev_Type e = ''vertex_end'') (take 1000 evs)))"
proof -
  let ?s = "AddHandler (MetricsHandler NewMetricsStreamHandler) NewStreamer"
  let ?h = "feed_metrics (zip nows (take 1000 evs)) NewMetricsStreamHandler"
  have buf: "ch_buf (st_events (emit_all evs ?s)) = take 1000 evs"
    and hs: "st_handlers (emit_all evs ?s) = [MetricsHandler NewMetricsStreamHandler]"
    using emit_all_buffered [of ?s evs] by (simp_all add: AddHandler_def NewStreamer_def make_chan_def)
  have len: "length nows = length (take 1000 evs)" using assms by simp
  have "st_handlers (deliver_all nows (emit_all evs ?s)) = [MetricsHandler ?h]"
    using deliver_all_handlers [of nows "emit_all evs ?s"] buf hs len
    by (simp add: feed_metrics_handler)
  moreover have "map snd (zip nows (take 1000 evs)) = take 1000 evs" using len by simp
  ultimately show ?thesis
    using feed_metrics_counts [of "zip nows (take 1000 evs)" NewMetricsStreamHandler]
    by (intro exI [of _ ?h]) (simp add: NewMetricsStreamHandler_def count_of_def)
qed

theorem stream_metrics_witness:
  "\<exists>h. st_handlers (deliver_all [5] (emit_all
      [\<lparr>ev_Type = ''vertex_start'', ev_VertexID = ''a'', ev_Step = 0, ev_Data = VNil, ev_Timestamp = 0\<rparr>]
      (AddHandler (MetricsHandler NewMetricsStreamHandler) NewStreamer))) = [MetricsHandler h]
    \<and> count_of (VertexCounts h) ''a'' = 1"
  using stream_metrics [of "[5]"
      "[\<lparr>ev_Type = ''vertex_start'', ev_VertexID = ''a'', ev_Step = 0, ev_Data = VNil, ev_Timestamp = 0\<rparr>]"]
  by fastforce

text \<open>
  no events after \<^verbatim>\<open>Stop\<close>. Stopping a running streamer closes its channel, so the next
  \<^verbatim>\<open>EmitEvent\<close> panics although its select has a default arm; stopping one that does not run
  leaves it usable.
\<close>

theorem emit_after_stop:
  assumes "\<not> ch_closed (st_events s)"
  shows "fst (Streamer_Stop s) = Returns ()
    \<and> (st_running s \<longrightarrow> fst (EmitEvent ev (snd (Streamer_Stop s))) = Panics ''send on closed channel'')
    \<and> (\<not> st_running s \<longrightarrow> fst (EmitEvent ev (snd (Streamer_Stop s))) = Returns ())"
  using assms by (auto simp: Streamer_Stop_def EmitEvent_def chan_close_def Let_def)

theorem emit_after_stop_witness:
  "fst (EmitEvent \<lparr>ev_Type = ''x'', ev_VertexID = [], ev_Step = 0, ev_Data = VNil, ev_Timestamp = 0\<rparr>
     (snd (Streamer_Stop (Streamer_Start NewStreamer)))) = Panics ''send on closed channel''"
  using emit_after_stop [of "Streamer_Start NewStreamer"]
  by (simp add: Streamer_Start_def NewStreamer_def make_chan_def)

end
