(* ===== verification/Engine.thy ===== *)
theory Engine
  imports Scheduler Recovery Streaming
begin

section \<open>The Pregel engine (internal/core/pregel/engine.go, superstep.go)\<close>

text \<open>
  The superstep loop: checkpoint, schedule the active vertices, collect their results in the order in
  which the workers deliver them, deliver the messages, clear. A vertex program is a function of the
  number of its earlier calls, so that programs with a memory of their own are covered. The tasks
  handed to the scheduler and not yet collected are the list \<open>pending\<close>; by the scheduler's
  conservation theorem each of them yields exactly one result, and the order in which they arrive is
  an argument, as are the orders of the loops over maps, the moment the context ends and the clock.
  A task's state argument is the map that \<^verbatim>\<open>VertexStates\<close> holds, so what a failing program has
  written to it stays. The maps nested in a state are values here; what the roll-back of a failed
  superstep means when programs write them in place is in \<open>CheckpointHeap\<close>.
\<close>

subsection \<open>State\<close>

type_synonym vprog = "nat \<Rightarrow> string \<Rightarrow> gstate \<Rightarrow> PMessage list \<Rightarrow> ComputeResult"

record EngineConfig =
  ec_MaxSupersteps :: int
  ec_Parallelism :: int
  ec_ParallelismFactor :: f64
  ec_QueueCapacity :: int
  ec_Timeout :: int
  ec_RetryPolicy :: RetryPolicy
  ec_StreamOutput :: bool

datatype engine_error =
    StepTimedOut int string      \<comment> \<open>with the text of \<^verbatim>\<open>ctx.Err()\<close>\<close>
  | VertexFailed RetryableError
  | SuperstepFailed int engine_error

primrec engine_error_text :: "engine_error \<Rightarrow> string" where
  "engine_error_text (StepTimedOut step c) = ''superstep '' @ show_int step @ '' timed out: '' @ c"
| "engine_error_text (VertexFailed re) = RetryableError_Error re"
| "engine_error_text (SuperstepFailed step err) =
     ''superstep '' @ show_int step @ '' failed: '' @ engine_error_text err"

record Engine =
  en_Vertices :: "string \<rightharpoonup> vprog"
  en_States :: vstates
  en_Config :: EngineConfig
  en_Scheduler :: WorkStealingScheduler
  en_Agg :: MessageAggregator
  en_Streaming :: bool
  en_Events :: "StreamEvent list"
  en_Clock :: "nat \<Rightarrow> int"
  en_Checkpoints :: "vstates CheckpointManager"
  en_ErrorHandler :: RetryPolicy
  en_Active :: "string \<rightharpoonup> bool"
  en_Halted :: bool
  en_Retry :: "string \<rightharpoonup> int"
  en_Calls :: "string \<Rightarrow> nat"

text \<open>
  \<^verbatim>\<open>int(math.Ceil(factor * float64(NumCPU)))\<close>, for products in the range of
  \<^verbatim>\<open>int\<close>; one unit is \<open>2 ^ -1074\<close>.
\<close>

definition f_ceil :: "f64 \<Rightarrow> int" where
  "f_ceil x = - ((- f_signed_units x) div 2 ^ 1074)"

definition eff_parallelism :: "int \<Rightarrow> EngineConfig \<Rightarrow> int" where
  "eff_parallelism numCPU config =
     (if ec_Parallelism config \<le> 0 then
        (let p = (if f_less 0 (ec_ParallelismFactor config)
                  then f_ceil (f_mul (ec_ParallelismFactor config) (f_of_int (word_of_int numCPU)))
                  else numCPU)
         in if p < 1 then 1 else p)
      else ec_Parallelism config)"

definition NewEngine ::
  "int \<Rightarrow> (nat \<Rightarrow> int) \<Rightarrow> (string \<rightharpoonup> vprog) \<Rightarrow> vstates \<Rightarrow> EngineConfig \<Rightarrow> Engine" where
  "NewEngine numCPU clock vertices initialStates config =
     (let effp = eff_parallelism numCPU config;
          qcap = (if ec_QueueCapacity config \<le> 0 then 100 else ec_QueueCapacity config)
      in \<lparr>en_Vertices = vertices, en_States = initialStates,
          en_Config = config\<lparr>ec_Parallelism := effp, ec_QueueCapacity := qcap\<rparr>,
          en_Scheduler = NewWorkStealingScheduler numCPU effp qcap,
          en_Agg = NewMessageAggregator (Some SumCombiner), en_Streaming = False, en_Events = [],
          en_Clock = clock, en_Checkpoints = NewCheckpointManager,
          en_ErrorHandler = ec_RetryPolicy config, en_Active = Map.empty, en_Halted = False,
          en_Retry = Map.empty, en_Calls = (\<lambda>_. 0)\<rparr>)"

subsection \<open>Helpers\<close>

text \<open>The events handed to the streamer, in order.\<close>

definition emitEvent :: "string \<Rightarrow> string \<Rightarrow> int \<Rightarrow> gstate \<Rightarrow> Engine \<Rightarrow> Engine" where
  "emitEvent ty vid step data e =
     e\<lparr>en_Events := en_Events e @ [\<lparr>ev_Type = ty, ev_VertexID = vid, ev_Step = step, ev_Data = VMap data,
         ev_Timestamp = en_Clock e (length (en_Events e))\<rparr>]\<rparr>"

text \<open>\<open>ids\<close> is the order of the loop over \<^verbatim>\<open>ActiveVertices\<close>.\<close>

definition getActiveVertices :: "string list \<Rightarrow> Engine \<Rightarrow> string list" where
  "getActiveVertices ids e = filter (\<lambda>v. en_Active e v = Some True) ids"

definition hasActiveVertices :: "string list \<Rightarrow> Engine \<Rightarrow> bool" where
  "hasActiveVertices ids e = list_ex (\<lambda>v. en_Active e v = Some True) ids"

definition state_of :: "Engine \<Rightarrow> string \<Rightarrow> gstate" where
  "state_of e vid = (case en_States e vid of Some s \<Rightarrow> s | None \<Rightarrow> Map.empty)"

definition retry_of :: "Engine \<Rightarrow> string \<Rightarrow> int" where
  "retry_of e vid = (case en_Retry e vid of Some n \<Rightarrow> n | None \<Rightarrow> 0)"

text \<open>
  The task of a vertex. Active vertices have a program (\<open>engine_inv\<close> below): the branch without
  one is never taken. A superstep makes one result channel for all its tasks; which address it has
  does not matter to the collecting loop.
\<close>

definition superstep_results :: nat where
  "superstep_results = 0"

definition program_of :: "Engine \<Rightarrow> string \<Rightarrow> vprog" where
  "program_of e vid = (case en_Vertices e vid of
     Some p \<Rightarrow> p
   | None \<Rightarrow> (\<lambda>n v s ms. \<lparr>cr_Arg = s, cr_State = s, cr_Messages = [], cr_Halt = True,
                cr_Error = Some ''nil program''\<rparr>))"

definition vertex_task :: "Engine \<Rightarrow> string \<Rightarrow> VertexTask" where
  "vertex_task e vid = \<lparr>vt_VertexID = vid, vt_Program = program_of e vid (en_Calls e vid),
     vt_State = state_of e vid, vt_Messages = GetMessages vid (en_Agg e),
     vt_Result = superstep_results\<rparr>"

subsection \<open>One superstep\<close>

fun scheduleVertexTasks :: "int \<Rightarrow> string list \<Rightarrow> Engine \<Rightarrow> VertexTask list \<times> Engine" where
  "scheduleVertexTasks step [] e = ([], e)"
| "scheduleVertexTasks step (vid # vs) e =
     (let messages = GetMessages vid (en_Agg e);
          e1 = emitEvent ''vertex_start'' vid step
                 [''message_count'' \<mapsto> VInt (of_nat (length messages))] e
      in case scheduleVertexTasks step vs e1 of (ts, e2) \<Rightarrow> (vertex_task e vid # ts, e2))"

definition error_value :: "string option \<Rightarrow> gval" where
  "error_value err = (case err of Some s \<Rightarrow> VStr s | None \<Rightarrow> VNil)"

definition emit_vertex_end :: "VertexResult \<Rightarrow> int \<Rightarrow> Engine \<Rightarrow> Engine" where
  "emit_vertex_end result step e =
     emitEvent ''vertex_end'' (vr_VertexID result) step
       [''halt'' \<mapsto> VBool (vr_Halt result), ''error'' \<mapsto> error_value (vr_Error result),
        ''message_count'' \<mapsto> VInt (of_nat (length (vr_Messages result)))] e"

text \<open>The retry that was scheduled, the handled error, and the engine.\<close>

definition handleVertexResult ::
  "VertexResult \<Rightarrow> int \<Rightarrow> Engine \<Rightarrow> VertexTask option \<times> RetryableError option \<times> Engine" where
  "handleVertexResult result step e =
     (let vid = vr_VertexID result in
      case vr_Error result of
        Some err \<Rightarrow>
          (let (retry, handledErr) = fst (HandleError (en_ErrorHandler e) vid err (retry_of e vid))
           in if retry then
                (let e1 = e\<lparr>en_Retry := (en_Retry e)(vid \<mapsto> retry_of e vid + 1)\<rparr>
                 in (Some (vertex_task e1 vid), None, emit_vertex_end result step e1))
              else (None, handledErr, emit_vertex_end result step e))
      | None \<Rightarrow>
          (let e1 = e\<lparr>en_States := (en_States e)(vid \<mapsto> vr_State result),
                      en_Active := (en_Active e)(vid \<mapsto> \<not> vr_Halt result),
                      en_Retry := (en_Retry e)(vid \<mapsto> 0)\<rparr>;
               e2 = e1\<lparr>en_Agg := fold AddMessage (map (\<lambda>m. m\<lparr>pm_Step := step + 1\<rparr>) (vr_Messages result))
                                   (en_Agg e1)\<rparr>
           in (None, None, emit_vertex_end result step e2)))"

text \<open>
  What running a task does besides returning its result: the call is counted, and the argument map,
  which is the entry of \<^verbatim>\<open>VertexStates\<close>, has the content the program left in it.
\<close>

definition task_ran :: "VertexTask \<Rightarrow> Engine \<Rightarrow> Engine" where
  "task_ran t e =
     (let vid = vt_VertexID t; r = vt_Program t vid (vt_State t) (vt_Messages t)
      in e\<lparr>en_Calls := (en_Calls e)(vid := Suc (en_Calls e vid)),
           en_States := (if en_States e vid = None then en_States e
                         else (en_States e)(vid \<mapsto> cr_Arg r))\<rparr>)"

lemma handle_retry:
  assumes "handleVertexResult r step e = (Some t, herr, e')"
  shows "retry_of e (vr_VertexID r) < rp_MaxRetries (en_ErrorHandler e)
    \<and> vt_VertexID t = vr_VertexID r \<and> en_ErrorHandler e' = en_ErrorHandler e
    \<and> en_Retry e' = (en_Retry e)(vr_VertexID r \<mapsto> retry_of e (vr_VertexID r) + 1)"
  using assms
  by (auto simp: handleVertexResult_def HandleError_def Let_def emit_vertex_end_def emitEvent_def
      vertex_task_def split: option.splits if_splits)

definition retries_left :: "VertexTask list \<Rightarrow> Engine \<Rightarrow> nat" where
  "retries_left pending e = sum_list (map (\<lambda>t. nat (rp_MaxRetries (en_ErrorHandler e)
     - retry_of e (vt_VertexID t))) pending)"

definition drop_nth :: "nat \<Rightarrow> 'a list \<Rightarrow> 'a list" where
  "drop_nth i xs = take i xs @ drop (Suc i) xs"

lemma length_drop_nth [simp]: "i < length xs \<Longrightarrow> length (drop_nth i xs) = length xs - 1"
  by (simp add: drop_nth_def)

lemma set_drop_nth: "set (drop_nth i xs) \<subseteq> set xs"
  unfolding drop_nth_def using set_take_subset set_drop_subset by fastforce

lemma retry_decreases:
  assumes i: "i < length pending" and t: "pending ! i = t" and r: "vr_VertexID r = vt_VertexID t"
    and hand: "handleVertexResult r step e = (Some t', herr, e')"
  shows "retries_left (drop_nth i pending @ [t']) e' < retries_left pending e"
proof -
  let ?v = "vt_VertexID t"
  note h = handle_retry [OF hand, unfolded r]
  let ?f = "\<lambda>e t. nat (rp_MaxRetries (en_ErrorHandler e) - retry_of e (vt_VertexID t))"
  have le: "?f e' s \<le> ?f e s" for s using h by (auto simp: retry_of_def)
  have lt: "?f e' t' < ?f e t" using h by (simp add: retry_of_def)
  have "retries_left (drop_nth i pending) e' \<le> retries_left (drop_nth i pending) e"
    unfolding retries_left_def by (rule sum_list_mono) (rule le)
  moreover have "retries_left pending e = ?f e t + retries_left (drop_nth i pending) e"
    unfolding retries_left_def drop_nth_def using sum_list_remove_nth [OF i, of "?f e"] t by simp
  moreover have "retries_left (drop_nth i pending @ [t']) e' = retries_left (drop_nth i pending) e' + ?f e' t'"
    by (simp add: retries_left_def)
  ultimately show ?thesis using lt by linarith
qed

text \<open>
  One turn of the collecting loop: the result of the pending task that arrives is handled.
\<close>

definition collect_turn ::
  "nat \<Rightarrow> int \<Rightarrow> VertexTask list \<Rightarrow> RetryableError list \<Rightarrow> Engine
   \<Rightarrow> VertexTask list \<times> RetryableError list \<times> Engine" where
  "collect_turn arrival step pending errs e =
     (let i = arrival mod length pending; t = pending ! i in
      case handleVertexResult (executeTask t) step (task_ran t e) of
        (Some t', _, e') \<Rightarrow> (drop_nth i pending @ [t'], errs, e')
      | (None, Some err, e') \<Rightarrow> (drop_nth i pending, errs @ [err], e')
      | (None, None, e') \<Rightarrow> (drop_nth i pending, errs, e'))"

text \<open>
  The collecting loop. \<open>arrive k\<close> says which pending task's result is the \<open>k\<close>-th to arrive,
  \<open>deadline\<close> before which arrival the context ends, and with which error.
\<close>

function collect ::
  "(nat \<Rightarrow> nat) \<Rightarrow> (nat \<times> string) option \<Rightarrow> int \<Rightarrow> nat \<Rightarrow> VertexTask list \<Rightarrow> RetryableError list \<Rightarrow> Engine
   \<Rightarrow> engine_error option \<times> Engine" where
  "collect arrive deadline step k pending errs e =
     (if pending = [] then ((case errs of [] \<Rightarrow> None | err # _ \<Rightarrow> Some (VertexFailed err)), e)
      else if map_option fst deadline = Some k then (Some (StepTimedOut step (snd (the deadline))), e)
      else case collect_turn (arrive k) step pending errs e of
             (pending', errs', e') \<Rightarrow> collect arrive deadline step (Suc k) pending' errs' e')"
  by pat_completeness auto

lemma executeTask_id [simp]: "vr_VertexID (executeTask t) = vt_VertexID t"
  by (simp add: executeTask_def Let_def)

lemma task_ran_simps [simp]:
  "retry_of (task_ran t e) v = retry_of e v" "en_Retry (task_ran t e) = en_Retry e"
  "en_ErrorHandler (task_ran t e) = en_ErrorHandler e" "en_Agg (task_ran t e) = en_Agg e"
  "en_Active (task_ran t e) = en_Active e" "en_Vertices (task_ran t e) = en_Vertices e"
  "en_Events (task_ran t e) = en_Events e" "en_Config (task_ran t e) = en_Config e"
  "en_Checkpoints (task_ran t e) = en_Checkpoints e" "en_Halted (task_ran t e) = en_Halted e"
  by (simp_all add: task_ran_def Let_def retry_of_def)

lemma retries_left_ran [simp]: "retries_left pending (task_ran t e) = retries_left pending e"
  by (simp add: retries_left_def)

lemma turn_decreases:
  assumes "pending \<noteq> []" and "collect_turn arrival step pending errs e = (pending', errs', e')"
  shows "length pending' < length pending
    \<or> length pending' = length pending \<and> retries_left pending' e' < retries_left pending e"
proof -
  let ?i = "arrival mod length pending"
  have i: "?i < length pending" using assms(1) by simp
  obtain rt herr e1 where h: "handleVertexResult (executeTask (pending ! ?i)) step
      (task_ran (pending ! ?i) e) = (rt, herr, e1)"
    by (metis prod_cases3)
  show ?thesis
  proof (cases rt)
    case None
    then show ?thesis using assms(2) h i
      by (cases herr) (auto simp: collect_turn_def Let_def)
  next
    case (Some t')
    have "retries_left (drop_nth ?i pending @ [t']) e1 < retries_left pending (task_ran (pending ! ?i) e)"
      by (rule retry_decreases [OF i refl executeTask_id]) (use h Some in simp)
    then show ?thesis using assms(2) h Some i by (auto simp: collect_turn_def Let_def)
  qed
qed

termination collect
proof (relation "measures [\<lambda>(a, d, s, k, pending, errs, e). length pending,
    \<lambda>(a, d, s, k, pending, errs, e). retries_left pending e]", goal_cases)
  case 1
  then show ?case by simp
next
  case (2 arrive deadline step k pending errs e pending' y errs' e')
  then have "collect_turn (arrive k) step pending errs e = (pending', errs', e')" by simp
  from turn_decreases [OF 2(1) this] show ?case by auto
qed

declare collect.simps [simp del]

definition executeSuperstep ::
  "string list \<Rightarrow> (nat \<Rightarrow> nat) \<Rightarrow> (nat \<times> string) option \<Rightarrow> int \<Rightarrow> Engine \<Rightarrow> engine_error option \<times> Engine" where
  "executeSuperstep ids arrive deadline step e =
     (let activeVertices = getActiveVertices ids e in
      if activeVertices = [] then (None, e)
      else case scheduleVertexTasks step activeVertices e of
             (tasks, e1) \<Rightarrow> collect arrive deadline step 0 tasks [] e1)"

subsection \<open>The loop\<close>

record StepChoices =
  so_ids :: "string list"
  so_arrive :: "nat \<Rightarrow> nat"
  so_deadline :: "(nat \<times> string) option"
  so_keys :: "string list"

definition active_count :: "string list \<Rightarrow> Engine \<Rightarrow> gstate" where
  "active_count ids e = [''active_vertices'' \<mapsto> VInt (of_nat (length (getActiveVertices ids e)))]"

definition runStep :: "StepChoices \<Rightarrow> int \<Rightarrow> Engine \<Rightarrow> engine_error option \<times> Engine" where
  "runStep ch step e =
     (let e1 = e\<lparr>en_Checkpoints := put_checkpoint (so_keys ch) step (en_States e) (en_Checkpoints e)\<rparr>;
          e2 = emitEvent ''superstep_start'' [] step (active_count (so_ids ch) e1) e1
      in case executeSuperstep (so_ids ch) (so_arrive ch) (so_deadline ch) step e2 of
           (Some err, e3) \<Rightarrow>
             (Some (SuperstepFailed step err),
              (case get_checkpoint step (en_Checkpoints e3) of
                 Some recovered \<Rightarrow>
                   emitEvent ''checkpoint_recovery'' [] step [''error'' \<mapsto> VStr (engine_error_text err)]
                     (e3\<lparr>en_States := recovered\<rparr>)
               | None \<Rightarrow> e3))
         | (None, e3) \<Rightarrow>
             (let e4 = emitEvent ''superstep_end'' [] step (active_count (so_ids ch) e3) e3;
                  e5 = (if hasActiveVertices (so_ids ch) e4 then e4 else e4\<lparr>en_Halted := True\<rparr>)
              in (None, e5\<lparr>en_Agg := ClearMessages (en_Agg e5)\<rparr>)))"

function run_steps :: "(int \<Rightarrow> StepChoices) \<Rightarrow> int \<Rightarrow> Engine \<Rightarrow> engine_error option \<times> Engine" where
  "run_steps choices step e =
     (if step < ec_MaxSupersteps (en_Config e) \<and> \<not> en_Halted e then
        (case runStep (choices step) step e of
           (Some err, e') \<Rightarrow> (Some err, e')
         | (None, e') \<Rightarrow> run_steps choices (step + 1) e')
      else (None, e))"
  by pat_completeness auto

definition initActiveVertices :: "string list \<Rightarrow> Engine \<Rightarrow> Engine" where
  "initActiveVertices vids e = e\<lparr>en_Active := fold (\<lambda>vid a. a(vid \<mapsto> True)) vids (en_Active e)\<rparr>"

definition startStreamingIfEnabled :: "Engine \<Rightarrow> Engine" where
  "startStreamingIfEnabled e =
     (if ec_StreamOutput (en_Config e) then e\<lparr>en_Streaming := True\<rparr> else e)"

subsection \<open>What a step keeps\<close>

lemma emitEvent_simps [simp]:
  "en_Vertices (emitEvent ty v s d e) = en_Vertices e" "en_States (emitEvent ty v s d e) = en_States e"
  "en_Config (emitEvent ty v s d e) = en_Config e" "en_Agg (emitEvent ty v s d e) = en_Agg e"
  "en_Checkpoints (emitEvent ty v s d e) = en_Checkpoints e"
  "en_ErrorHandler (emitEvent ty v s d e) = en_ErrorHandler e"
  "en_Active (emitEvent ty v s d e) = en_Active e" "en_Halted (emitEvent ty v s d e) = en_Halted e"
  "en_Retry (emitEvent ty v s d e) = en_Retry e" "en_Calls (emitEvent ty v s d e) = en_Calls e"
  "retry_of (emitEvent ty v s d e) u = retry_of e u" "state_of (emitEvent ty v s d e) u = state_of e u"
  "program_of (emitEvent ty v s d e) u = program_of e u"
  "vertex_task (emitEvent ty v s d e) = vertex_task e"
  "getActiveVertices ids (emitEvent ty v s d e) = getActiveVertices ids e"
  "hasActiveVertices ids (emitEvent ty v s d e) = hasActiveVertices ids e"
  by (simp_all add: emitEvent_def retry_of_def state_of_def program_of_def vertex_task_def [abs_def]
      getActiveVertices_def hasActiveVertices_def)

lemma schedule_keeps:
  "scheduleVertexTasks step vs e = (ts, e') \<Longrightarrow>
     ts = map (vertex_task e) vs \<and> en_Vertices e' = en_Vertices e \<and> en_States e' = en_States e
     \<and> en_Config e' = en_Config e \<and> en_Agg e' = en_Agg e \<and> en_Checkpoints e' = en_Checkpoints e
     \<and> en_ErrorHandler e' = en_ErrorHandler e \<and> en_Active e' = en_Active e
     \<and> en_Halted e' = en_Halted e \<and> en_Retry e' = en_Retry e \<and> en_Calls e' = en_Calls e"
proof (induction vs arbitrary: e ts e')
  case (Cons v vs)
  then obtain ts1 where ts: "ts = vertex_task e v # ts1"
    and rest: "scheduleVertexTasks step vs (emitEvent ''vertex_start'' v step
        [''message_count'' \<mapsto> VInt (of_nat (length (GetMessages v (en_Agg e))))] e) = (ts1, e')"
    by (auto simp: Let_def split: prod.splits)
  from Cons.IH [OF rest] ts show ?case by simp
qed simp

lemma handle_keeps:
  "handleVertexResult r step e = (rt, herr, e') \<Longrightarrow>
     en_Vertices e' = en_Vertices e \<and> en_Config e' = en_Config e \<and> en_Calls e' = en_Calls e
     \<and> en_Checkpoints e' = en_Checkpoints e \<and> en_ErrorHandler e' = en_ErrorHandler e
     \<and> en_Halted e' = en_Halted e \<and> ma_combiner (en_Agg e') = ma_combiner (en_Agg e)"
  by (auto simp: handleVertexResult_def Let_def emit_vertex_end_def
      split: option.splits prod.splits if_splits)

text \<open>
  What every turn preserves holds when the loop ends, and tells how it ended.
\<close>

lemma collect_invariant:
  assumes "collect arrive dl step k pending errs e = (r, e')" and "P pending errs e"
    and "\<And>arrival pending errs e. pending \<noteq> [] \<Longrightarrow> P pending errs e \<Longrightarrow>
      (case collect_turn arrival step pending errs e of (p, er, e1) \<Rightarrow> P p er e1)"
  obtains pending' errs' where "P pending' errs' e'"
    and "r = Some (StepTimedOut step (snd (the dl))) \<and> dl \<noteq> None
      \<or> pending' = [] \<and> r = (case errs' of [] \<Rightarrow> None | err # _ \<Rightarrow> Some (VertexFailed err))"
  using assms
proof (induction arrive dl step k pending errs e arbitrary: thesis rule: collect.induct)
  case (1 arrive dl step k pending errs e)
  consider (empty) "pending = []" | (late) "pending \<noteq> []" "map_option fst dl = Some k" | (turn) "pending \<noteq> []" "map_option fst dl \<noteq> Some k"
    by blast
  then show ?case
  proof cases
    case empty
    with "1.prems"(2,3) show ?thesis
      by (intro "1.prems"(1) [of pending errs]) (subst (asm) collect.simps, simp)+
  next
    case late
    then have "dl \<noteq> None" by auto
    with late "1.prems"(2,3) show ?thesis
      by (intro "1.prems"(1) [of pending errs]) (subst (asm) collect.simps, simp)+
  next
    case turn
    obtain p er e1 where t: "collect_turn (arrive k) step pending errs e = (p, er, e1)"
      by (metis prod_cases3)
    have run: "collect arrive dl step (Suc k) p er e1 = (r, e')"
      using "1.prems"(2) turn t by (subst (asm) collect.simps) simp
    have P: "P p er e1" using "1.prems"(4) [OF turn(1) "1.prems"(3), of "arrive k"] t by simp
    show ?thesis
      by (rule "1.IH" [OF turn t [symmetric] refl "1.prems"(1) run P "1.prems"(4)])
  qed
qed

lemma turn_keeps:
  assumes "collect_turn arrival step pending errs e = (p, er, e')"
  shows "en_Vertices e' = en_Vertices e \<and> en_Config e' = en_Config e
     \<and> en_Checkpoints e' = en_Checkpoints e \<and> en_ErrorHandler e' = en_ErrorHandler e
     \<and> en_Halted e' = en_Halted e \<and> ma_combiner (en_Agg e') = ma_combiner (en_Agg e)"
proof -
  let ?t = "pending ! (arrival mod length pending)"
  obtain rt herr e1 where h: "handleVertexResult (executeTask ?t) step (task_ran ?t e) = (rt, herr, e1)"
    by (metis prod_cases3)
  have "e' = e1" using assms h by (auto simp: collect_turn_def Let_def split: option.splits)
  with handle_keeps [OF h] show ?thesis by simp
qed

lemma collect_keeps:
  assumes "collect arrive dl step k pending errs e = (r, e')"
  shows "en_Vertices e' = en_Vertices e \<and> en_Config e' = en_Config e
     \<and> en_Checkpoints e' = en_Checkpoints e \<and> en_ErrorHandler e' = en_ErrorHandler e
     \<and> en_Halted e' = en_Halted e \<and> ma_combiner (en_Agg e') = ma_combiner (en_Agg e)"
  by (rule collect_invariant [OF assms, of "\<lambda>_ _ e'. en_Vertices e' = en_Vertices e \<and> en_Config e' = en_Config e
     \<and> en_Checkpoints e' = en_Checkpoints e \<and> en_ErrorHandler e' = en_ErrorHandler e
     \<and> en_Halted e' = en_Halted e \<and> ma_combiner (en_Agg e') = ma_combiner (en_Agg e)"])
    (auto dest: turn_keeps)

lemma executeSuperstep_keeps:
  "executeSuperstep ids arrive dl step e = (r, e') \<Longrightarrow>
     en_Vertices e' = en_Vertices e \<and> en_Config e' = en_Config e
     \<and> en_Checkpoints e' = en_Checkpoints e \<and> en_ErrorHandler e' = en_ErrorHandler e
     \<and> en_Halted e' = en_Halted e \<and> ma_combiner (en_Agg e') = ma_combiner (en_Agg e)"
  by (auto simp: executeSuperstep_def Let_def split: if_splits prod.splits
      dest!: schedule_keeps collect_keeps)

lemma runStep_config: "runStep ch step e = (r, e') \<Longrightarrow> en_Config e' = en_Config e"
  by (auto simp: runStep_def Let_def split: prod.splits option.splits if_splits
      dest!: executeSuperstep_keeps)

termination run_steps
proof (relation "measure (\<lambda>(choices, step, e). nat (ec_MaxSupersteps (en_Config e) - step))", goal_cases)
  case 1
  then show ?case by simp
next
  case (2 choices step e r e')
  then have "runStep (choices step) step e = (r, e')" by simp
  from runStep_config [OF this] 2 show ?case by simp
qed

declare run_steps.simps [simp del]

definition Run ::
  "string list \<Rightarrow> (int \<Rightarrow> StepChoices) \<Rightarrow> Engine \<Rightarrow> engine_error option \<times> Engine" where
  "Run vids choices e =
     (let e1 = initActiveVertices vids (startStreamingIfEnabled e);
          e2 = emitEvent ''execution_start'' [] 0 [''total_vertices'' \<mapsto> VInt (of_nat (length vids))] e1
      in case run_steps choices 0 e2 of
           (Some err, e3) \<Rightarrow> (Some err, e3)
         | (None, e3) \<Rightarrow>
             (None, emitEvent ''execution_end'' [] (- 1)
                [''final_states'' \<mapsto> VMap (\<lambda>v. map_option VMap (en_States e3 v))] e3))"

end
