(* ===== verification/CheckpointHeap.thy ===== *)
theory CheckpointHeap
  imports Recovery
begin

section \<open>Checkpoints on a heap of maps (internal/core/pregel/recovery.go, engine.go)\<close>

text \<open>
  The states of the vertices are Go maps, that is references, and so are the maps nested in them. A
  checkpoint is made of copies, but the copying loops copy one level: a nested map is the same map in
  the state, in the checkpoint and in what is loaded from it. Here the maps live on a heap, a vertex
  state is an address, and a superstep is any sequence of writes through addresses that the programs
  can have.
\<close>

subsection \<open>The heap\<close>

text \<open>
  A value of a map is plain, or it is a map. An address without a map stands for a nil map, which is
  empty to read.
\<close>

datatype heap_value = Plain gval | MapAt nat

type_synonym heap_map = "string \<rightharpoonup> heap_value"

record MapHeap =
  hp_maps :: "nat \<rightharpoonup> heap_map"
  hp_next :: nat

type_synonym state_refs = "string \<rightharpoonup> nat"

definition map_content :: "MapHeap \<Rightarrow> nat \<Rightarrow> heap_map" where
  "map_content h l = (case hp_maps h l of Some m \<Rightarrow> m | None \<Rightarrow> Map.empty)"

definition new_map :: "heap_map \<Rightarrow> MapHeap \<Rightarrow> nat \<times> MapHeap" where
  "new_map m h = (hp_next h, \<lparr>hp_maps = (hp_maps h)(hp_next h \<mapsto> m), hp_next = Suc (hp_next h)\<rparr>)"

definition heap_ok :: "MapHeap \<Rightarrow> bool" where
  "heap_ok h \<longleftrightarrow> (\<forall>l\<in>dom (hp_maps h). l < hp_next h)"

subsection \<open>The manager\<close>

text \<open>
  The loops that copy: a new map for each vertex, with the entries of the old one.
\<close>

fun copy_states :: "string list \<Rightarrow> state_refs \<Rightarrow> state_refs \<Rightarrow> MapHeap \<Rightarrow> state_refs \<times> MapHeap" where
  "copy_states [] states copies h = (copies, h)"
| "copy_states (vertexID # vs) states copies h =
     (case states vertexID of
        Some state \<Rightarrow>
          (case new_map (map_content h state) h of
             (stateCopy, h') \<Rightarrow> copy_states vs states (copies(vertexID \<mapsto> stateCopy)) h')
      | None \<Rightarrow> copy_states vs states copies h)"

text \<open>\<open>vs\<close> is the order of the loop over the states, \<open>keys\<close> that of the clean-up.\<close>

definition SaveCheckpoint ::
  "string list \<Rightarrow> string list \<Rightarrow> int \<Rightarrow> state_refs \<Rightarrow> state_refs CheckpointManager \<Rightarrow> MapHeap
   \<Rightarrow> state_refs CheckpointManager \<times> MapHeap" where
  "SaveCheckpoint vs keys superstep states cm h =
     (case copy_states vs states Map.empty h of
        (copies, h') \<Rightarrow> (put_checkpoint keys superstep copies cm, h'))"

definition LoadCheckpoint ::
  "string list \<Rightarrow> int \<Rightarrow> state_refs CheckpointManager \<Rightarrow> MapHeap \<Rightarrow> state_refs option \<times> MapHeap" where
  "LoadCheckpoint vs superstep cm h =
     (case get_checkpoint superstep cm of
        None \<Rightarrow> (None, h)
      | Some checkpoint \<Rightarrow>
          (case copy_states vs checkpoint Map.empty h of (states, h') \<Rightarrow> (Some states, h')))"

subsection \<open>A superstep\<close>

text \<open>
  What happens to the maps during a superstep: a program writes or deletes an entry of a map, makes a
  map, or a result's state is stored for its vertex.
\<close>

datatype heap_action =
    WriteEntry nat string "heap_value option"
  | MakeMap heap_map
  | StoreState string nat

fun heap_act :: "heap_action \<Rightarrow> state_refs \<times> MapHeap \<Rightarrow> state_refs \<times> MapHeap" where
  "heap_act (WriteEntry l k x) (states, h) =
     (states, case hp_maps h l of
                Some m \<Rightarrow> h\<lparr>hp_maps := (hp_maps h)(l \<mapsto> m(k := x))\<rparr>
              | None \<Rightarrow> h)"
| "heap_act (MakeMap m) (states, h) = (states, snd (new_map m h))"
| "heap_act (StoreState v l) (states, h) = (states(v \<mapsto> l), h)"

text \<open>
  A program has no address in the range \<open>lo..<hi\<close> of the maps that the manager made.
\<close>

fun can_write :: "nat \<Rightarrow> nat \<Rightarrow> heap_action \<Rightarrow> bool" where
  "can_write lo hi (WriteEntry l k x) \<longleftrightarrow> l < lo \<or> hi \<le> l"
| "can_write lo hi (MakeMap m) \<longleftrightarrow> True"
| "can_write lo hi (StoreState v l) \<longleftrightarrow> True"

subsection \<open>Copies\<close>

lemma new_map_simps [simp]:
  "fst (new_map m h) = hp_next h" "hp_next (snd (new_map m h)) = Suc (hp_next h)"
  "map_content (snd (new_map m h)) l = (if l = hp_next h then m else map_content h l)"
  by (simp_all add: new_map_def map_content_def)

lemma copy_states_spec:
  assumes "copy_states vs states copies h = (c, h')" and "\<forall>l\<in>ran states. l < n" and "n \<le> hp_next h"
  shows "hp_next h \<le> hp_next h' \<and> (\<forall>l<hp_next h. map_content h' l = map_content h l)
    \<and> (\<forall>v. v \<notin> set vs \<or> states v = None \<longrightarrow> c v = copies v)
    \<and> (\<forall>v l. v \<in> set vs \<longrightarrow> states v = Some l \<longrightarrow>
        (\<exists>l'. c v = Some l' \<and> hp_next h \<le> l' \<and> l' < hp_next h' \<and> map_content h' l' = map_content h l))"
  using assms
proof (induction vs arbitrary: copies h)
  case (Cons u vs)
  show ?case
  proof (cases "states u")
    case None
    then have "copy_states vs states copies h = (c, h')" using Cons.prems(1) by simp
    from Cons.IH [OF this Cons.prems(2,3)] None show ?thesis by auto
  next
    case (Some s)
    let ?h1 = "snd (new_map (map_content h s) h)"
    have run: "copy_states vs states (copies(u \<mapsto> hp_next h)) ?h1 = (c, h')"
      using Cons.prems(1) Some by (simp add: new_map_def)
    have s: "s < hp_next h" using Some Cons.prems(2,3) by (fastforce simp: ran_def)
    have old: "l < hp_next h" if "states v = Some l" for v l
      using that Cons.prems(2,3) by (fastforce simp: ran_def)
    have "n \<le> hp_next ?h1" using Cons.prems(3) by simp
    from Cons.IH [OF run Cons.prems(2) this]
    have keep: "\<forall>l<Suc (hp_next h). map_content h' l = map_content ?h1 l" and le: "Suc (hp_next h) \<le> hp_next h'"
      and out: "\<forall>v. v \<notin> set vs \<or> states v = None \<longrightarrow> c v = (copies(u \<mapsto> hp_next h)) v"
      and found: "\<forall>v l. v \<in> set vs \<longrightarrow> states v = Some l \<longrightarrow>
        (\<exists>l'. c v = Some l' \<and> Suc (hp_next h) \<le> l' \<and> l' < hp_next h' \<and> map_content h' l' = map_content ?h1 l)"
      by simp_all
    have new: "\<exists>l'. c v = Some l' \<and> hp_next h \<le> l' \<and> l' < hp_next h' \<and> map_content h' l' = map_content h l"
      if v: "v \<in> set (u # vs)" and l: "states v = Some l" for v l
    proof (cases "v \<in> set vs")
      case True
      then obtain l' where "c v = Some l'" "Suc (hp_next h) \<le> l'" "l' < hp_next h'"
          "map_content h' l' = map_content ?h1 l"
        using found l by blast
      then show ?thesis using old [OF l] by auto
    next
      case False
      then have "v = u" and "c v = Some (hp_next h)" using v out by auto
      then show ?thesis using keep le l Some by auto
    qed
    have "\<forall>l<hp_next h. map_content h' l = map_content h l" using keep by auto
    moreover have "c v = copies v" if "v \<notin> set (u # vs) \<or> states v = None" for v
      using that out Some by auto
    ultimately show ?thesis using new le by auto
  qed
qed simp

text \<open>What the actions of the programs leave alone.\<close>

lemma act_keeps:
  assumes "can_write lo hi a" and "hi \<le> hp_next (snd s)"
  shows "hp_next (snd s) \<le> hp_next (snd (heap_act a s))
    \<and> (\<forall>l. lo \<le> l \<and> l < hi \<longrightarrow> map_content (snd (heap_act a s)) l = map_content (snd s) l)"
proof -
  obtain states h where s: "s = (states, h)" by fastforce
  then show ?thesis using assms by (cases a) (auto simp: map_content_def new_map_def split: option.splits)
qed

lemma acts_keep:
  "\<lbrakk>\<forall>a\<in>set acts. can_write lo hi a; hi \<le> hp_next (snd s)\<rbrakk> \<Longrightarrow>
     hp_next (snd s) \<le> hp_next (snd (fold heap_act acts s))
     \<and> (\<forall>l. lo \<le> l \<and> l < hi \<longrightarrow> map_content (snd (fold heap_act acts s)) l = map_content (snd s) l)"
proof (induction acts arbitrary: s)
  case (Cons a acts)
  have keep: "hp_next (snd s) \<le> hp_next (snd (heap_act a s))"
    "\<forall>l. lo \<le> l \<and> l < hi \<longrightarrow> map_content (snd (heap_act a s)) l = map_content (snd s) l"
    using act_keeps [of lo hi a s] Cons.prems by auto
  have "\<forall>a\<in>set acts. can_write lo hi a" and "hi \<le> hp_next (snd (heap_act a s))"
    using Cons.prems keep(1) by auto
  from Cons.IH [OF this] keep show ?case by auto
qed simp

subsection \<open>Roll-back\<close>

lemma rollback_restores:
  assumes addrs: "\<forall>l\<in>ran states. l < hp_next h"
    and orders: "map_order states vs" "set vs \<subseteq> set vs'" "0 \<le> cpm_max cm"
      "map_order ((cpm_checkpoints cm)(checkpoint_key step \<mapsto> fst (copy_states vs states Map.empty h))) keys"
    and save: "SaveCheckpoint vs keys step states cm h = (cm1, h1)"
    and run: "fold heap_act acts (states, h1) = (states2, h2)"
      "\<forall>a\<in>set acts. can_write (hp_next h) (hp_next h1) a"
    and load: "LoadCheckpoint vs' step cm1 h2 = (found, h3)"
    and late: "h4 = snd (fold heap_act late (states2, h3))" "\<forall>a\<in>set late. can_write (hp_next h2) (hp_next h3) a"
  shows "\<exists>recovered. found = Some recovered \<and> dom recovered = dom states
    \<and> (\<forall>v l. states v = Some l \<longrightarrow>
        (\<exists>l'. recovered v = Some l' \<and> map_content h4 l' = map_content h l))
    \<and> (\<forall>r<hp_next h. map_content h3 r = map_content h2 r)"
proof -
  obtain copies where c: "copy_states vs states Map.empty h = (copies, h1)"
    and cm1: "cm1 = put_checkpoint keys step copies cm"
    using save by (auto simp: SaveCheckpoint_def split: prod.splits)
  have "get_checkpoint step cm1 = Some copies"
    using Load_after_Save [of cm step copies keys] orders c cm1 by simp
  then obtain recovered where found: "found = Some recovered"
    and r: "copy_states vs' copies Map.empty h2 = (recovered, h3)"
    using load by (auto simp: LoadCheckpoint_def split: prod.splits)
  have vs: "v \<in> set vs \<longleftrightarrow> states v \<noteq> None" for v using orders(1) by (rule map_order_in)
  note C = copy_states_spec [OF c addrs order_refl]
  note copied = C [THEN conjunct2, THEN conjunct2, THEN conjunct2, rule_format]
  have inC: "\<forall>l\<in>ran copies. l < hp_next h1"
  proof
    fix l assume "l \<in> ran copies"
    then obtain v where v: "copies v = Some l" by (auto simp: ran_def)
    show "l < hp_next h1"
    proof (cases "states v")
      case None
      then show ?thesis using C v by simp
    next
      case (Some s)
      then show ?thesis using copied [of v s] v vs by fastforce
    qed
  qed
  have A: "hp_next h1 \<le> hp_next h2" "\<And>l. hp_next h \<le> l \<Longrightarrow> l < hp_next h1 \<Longrightarrow> map_content h2 l = map_content h1 l"
    using acts_keep [OF run(2), of "(states, h1)"] run(1) by auto
  note R = copy_states_spec [OF r inC A(1)]
  note restored = R [THEN conjunct2, THEN conjunct2, THEN conjunct2, rule_format]
  have L: "map_content h4 l = map_content h3 l" if "hp_next h2 \<le> l" "l < hp_next h3" for l
    using acts_keep [OF late(2), of "(states2, h3)"] that late(1) by simp
  have each: "\<exists>l'. recovered v = Some l' \<and> map_content h4 l' = map_content h l" if s: "states v = Some l" for v l
  proof -
    have v: "v \<in> set vs" using vs s by simp
    obtain l1 where l1: "copies v = Some l1" "hp_next h \<le> l1" "l1 < hp_next h1" "map_content h1 l1 = map_content h l"
      using copied [OF v s] by blast
    obtain l2 where "recovered v = Some l2" "hp_next h2 \<le> l2" "l2 < hp_next h3" "map_content h3 l2 = map_content h2 l1"
      using restored [OF subsetD [OF orders(2) v] l1(1)] by blast
    then show ?thesis using A(2) [OF l1(2,3)] l1(4) L by auto
  qed
  have "recovered v = None" if "states v = None" for v
  proof -
    have "copies v = None" using that C by simp
    then show ?thesis using R by simp
  qed
  with each have "dom recovered = dom states" by (fastforce simp: dom_def)
  moreover have "\<forall>r<hp_next h. map_content h3 r = map_content h2 r"
    using R C A(1) by simp
  ultimately show ?thesis using found each by blast
qed

text \<open>
  C6: what a roll-back restores. A superstep saves the states, the programs write through any
  addresses they can have, make maps and have results stored, and then the checkpoint of the step is
  loaded, while tasks that still run may go on writing. Every vertex gets back a map with exactly the
  entries that its state had at the save, and it is a map that the running tasks do not reach; no
  other vertex has a state. The roll-back ends there: every map that existed at the save, and so each
  one that is nested in a state, is left as the programs left it.
\<close>

theorem failed_superstep_rolls_back:
  assumes addrs: "\<forall>l\<in>ran states. l < hp_next h"
    and orders: "map_order states vs" "set vs \<subseteq> set vs'" "0 \<le> cpm_max cm"
      "map_order ((cpm_checkpoints cm)(checkpoint_key step \<mapsto> fst (copy_states vs states Map.empty h))) keys"
    and save: "SaveCheckpoint vs keys step states cm h = (cm1, h1)"
    and run: "fold heap_act acts (states, h1) = (states2, h2)"
      "\<forall>a\<in>set acts. can_write (hp_next h) (hp_next h1) a"
    and load: "LoadCheckpoint vs' step cm1 h2 = (found, h3)"
    and late: "h4 = snd (fold heap_act late (states2, h3))" "\<forall>a\<in>set late. can_write (hp_next h2) (hp_next h3) a"
  shows "\<exists>recovered. found = Some recovered \<and> dom recovered = dom states
    \<and> (\<forall>v l. states v = Some l \<longrightarrow>
        (\<exists>l'. recovered v = Some l' \<and> map_content h4 l' = map_content h l))
    \<and> (\<forall>r<hp_next h. map_content h3 r = map_content h2 r)"
  by (rule rollback_restores [OF addrs orders save run load late])

text \<open>
  A state whose entry \<open>x\<close> and whose nested map are both written before the step fails, and written
  again by the task that still runs: the entry is restored, the nested map is not.
\<close>

definition sample_heap :: MapHeap where
  "sample_heap = \<lparr>hp_maps = [0 \<mapsto> [''x'' \<mapsto> Plain (VInt 1), ''nested'' \<mapsto> MapAt 1],
                         1 \<mapsto> [''y'' \<mapsto> Plain (VInt 1)]], hp_next = 2\<rparr>"

definition sample_acts :: "heap_action list" where
  "sample_acts = [WriteEntry 0 ''x'' (Some (Plain (VInt 5))), WriteEntry 1 ''y'' (Some (Plain (VInt 7)))]"

theorem failed_superstep_rolls_back_witness:
  "let (cm1, h1) = SaveCheckpoint [''v''] [checkpoint_key 0] 0 [''v'' \<mapsto> 0] NewCheckpointManager sample_heap;
       (states2, h2) = fold heap_act sample_acts ([''v'' \<mapsto> 0], h1);
       (found, h3) = LoadCheckpoint [''v''] 0 cm1 h2;
       h4 = snd (fold heap_act [WriteEntry 0 ''x'' None] (states2, h3))
   in \<exists>recovered l. found = Some recovered \<and> recovered ''v'' = Some l \<and> map_content h4 l ''x'' = Some (Plain (VInt 1))
        \<and> map_content h3 1 ''y'' = Some (Plain (VInt 7))"
proof -
  let ?states = "[''v'' \<mapsto> 0 :: nat]"
  have copies: "copy_states [''v''] ?states Map.empty sample_heap =
      ([''v'' \<mapsto> 2], snd (new_map (map_content sample_heap 0) sample_heap))"
    by (simp add: new_map_def sample_heap_def)
  obtain cm1 h1 where save: "SaveCheckpoint [''v''] [checkpoint_key 0] 0 ?states NewCheckpointManager sample_heap = (cm1, h1)"
    by fastforce
  then have h1: "h1 = snd (new_map (map_content sample_heap 0) sample_heap)"
    unfolding SaveCheckpoint_def copies by simp
  obtain states2 h2 where run: "fold heap_act sample_acts (?states, h1) = (states2, h2)" by fastforce
  obtain found h3 where load: "LoadCheckpoint [''v''] 0 cm1 h2 = (found, h3)" by fastforce
  have y: "map_content h2 1 ''y'' = Some (Plain (VInt 7))" and next2: "2 < hp_next h2"
    using run by (auto simp: h1 sample_acts_def new_map_def sample_heap_def map_content_def)
  have keys: "map_order ((cpm_checkpoints NewCheckpointManager)(checkpoint_key 0 \<mapsto>
      fst (copy_states [''v''] ?states Map.empty sample_heap))) [checkpoint_key 0]"
    by (simp add: map_order_def NewCheckpointManager_def)
  have order: "map_order ?states [''v'']" by (simp add: map_order_def)
  have addrs: "\<forall>l\<in>ran ?states. l < hp_next sample_heap" by (simp add: sample_heap_def)
  have acts: "\<forall>a\<in>set sample_acts. can_write (hp_next sample_heap) (hp_next h1) a"
    by (simp add: sample_acts_def sample_heap_def)
  have late: "\<forall>a\<in>set [WriteEntry 0 ''x'' None]. can_write (hp_next h2) (hp_next h3) a"
    using next2 by simp
  have max: "0 \<le> cpm_max NewCheckpointManager" by (simp add: NewCheckpointManager_def)
  from failed_superstep_rolls_back
    [OF addrs order subset_refl max keys save run acts load refl late]
  obtain recovered where found: "found = Some recovered"
    and each: "\<forall>v l. ?states v = Some l \<longrightarrow> (\<exists>l'. recovered v = Some l'
        \<and> map_content (snd (fold heap_act [WriteEntry 0 ''x'' None] (states2, h3))) l' = map_content sample_heap l)"
    and rest: "\<forall>r<hp_next sample_heap. map_content h3 r = map_content h2 r" by blast
  have "?states ''v'' = Some 0" by simp
  with each obtain l where l: "recovered ''v'' = Some l"
    "map_content (snd (fold heap_act [WriteEntry 0 ''x'' None] (states2, h3))) l = map_content sample_heap 0"
    by blast
  have "map_content h3 1 = map_content h2 1" using rest by (simp add: sample_heap_def)
  moreover have "map_content sample_heap 0 ''x'' = Some (Plain (VInt 1))"
    by (simp add: sample_heap_def map_content_def)
  ultimately show ?thesis using y l found by (simp add: save run load)
qed

end
