(* ===== verification/EngineProps.thy ===== *)
theory EngineProps
  imports Engine CheckpointHeap
begin

section \<open>Properties of the Pregel engine\<close>

text \<open>
  What the superstep loop of Engine guarantees: roll-back of a failed superstep, independence of the
  order in which results arrive (a refinement of the synchronous step), the bound on retries, the end
  of the run; and what clearing the aggregator after each superstep means for message passing.
\<close>

subsection \<open>Roll-back\<close>

lemma runStep_rollback:
  assumes "map_order ((cpm_checkpoints (en_Checkpoints e))(checkpoint_key step \<mapsto> en_States e)) (so_keys ch)"
    and "0 \<le> cpm_max (en_Checkpoints e)" and "runStep ch step e = (Some err, e')"
  shows "en_States e' = en_States e \<and> (\<exists>cause. err = SuperstepFailed step cause)"
proof -
  let ?cm = "put_checkpoint (so_keys ch) step (en_States e) (en_Checkpoints e)"
  let ?e1 = "e\<lparr>en_Checkpoints := ?cm\<rparr>"
  let ?e2 = "emitEvent ''superstep_start'' [] step (active_count (so_ids ch) ?e1) ?e1"
  obtain r e3 where x: "executeSuperstep (so_ids ch) (so_arrive ch) (so_deadline ch) step ?e2 = (r, e3)"
    by fastforce
  from executeSuperstep_keeps [OF x] have "en_Checkpoints e3 = ?cm" by simp
  then have "get_checkpoint step (en_Checkpoints e3) = Some (en_States e)"
    using Load_after_Save [OF assms(1,2)] by simp
  with assms(3) x show ?thesis
    by (cases r) (auto simp: runStep_def Let_def)
qed

text \<open>
  The roll-back of the engine above is that of the copies on the heap of maps, for states whose
  entries have the contents that the engine has: after the failed step the recovered maps have the
  contents of the engine's states again.
\<close>

definition shows_states :: "MapHeap \<Rightarrow> state_refs \<Rightarrow> vstates \<Rightarrow> bool" where
  "shows_states h refs vs \<longleftrightarrow>
     (\<forall>v. map_option (map_content h) (refs v) = map_option (\<lambda>s. map_option Plain \<circ> s) (vs v))"

lemma engine_rollback_on_heap:
  assumes "map_order ((cpm_checkpoints (en_Checkpoints e))(checkpoint_key step \<mapsto> en_States e)) (so_keys ch)"
    and "0 \<le> cpm_max (en_Checkpoints e)" and "runStep ch step e = (Some err, e')"
    and shows_: "shows_states h states (en_States e)"
    and addrs: "\<forall>l\<in>ran states. l < hp_next h"
    and orders: "map_order states vs" "set vs \<subseteq> set vs'" "0 \<le> cpm_max cm"
      "map_order ((cpm_checkpoints cm)(checkpoint_key step \<mapsto> fst (copy_states vs states Map.empty h))) keys"
    and save: "SaveCheckpoint vs keys step states cm h = (cm1, h1)"
    and run: "fold heap_act acts (states, h1) = (states2, h2)"
      "\<forall>a\<in>set acts. can_write (hp_next h) (hp_next h1) a"
    and load: "LoadCheckpoint vs' step cm1 h2 = (found, h3)"
  shows "\<exists>recovered. found = Some recovered \<and> shows_states h3 recovered (en_States e')"
proof -
  obtain recovered where r: "found = Some recovered" "dom recovered = dom states"
    and c: "\<forall>v l. states v = Some l \<longrightarrow> (\<exists>l'. recovered v = Some l' \<and> map_content h3 l' = map_content h l)"
    using rollback_restores [OF addrs orders save run load, where late = "[]" and ?h4.0 = h3] by auto
  have "map_option (map_content h3) (recovered v) = map_option (map_content h) (states v)" for v
  proof (cases "states v")
    case None
    then show ?thesis using r(2) domIff [of v recovered] domIff [of v states] by simp
  next
    case (Some l)
    then show ?thesis using c by fastforce
  qed
  then show ?thesis using r(1) shows_ runStep_rollback [OF assms(1-3)] by (simp add: shows_states_def)
qed

subsection \<open>One superstep as a synchronous step\<close>

text \<open>
  The reference: every active vertex runs once on the states and messages of the beginning.
\<close>

definition bsp_result :: "Engine \<Rightarrow> string \<Rightarrow> VertexResult" where
  "bsp_result e v = executeTask (vertex_task e v)"

definition bsp_states :: "string set \<Rightarrow> Engine \<Rightarrow> vstates" where
  "bsp_states act e = (\<lambda>v. if v \<in> act then Some (vr_State (bsp_result e v)) else en_States e v)"

definition bsp_active :: "string set \<Rightarrow> Engine \<Rightarrow> (string \<rightharpoonup> bool)" where
  "bsp_active act e = (\<lambda>v. if v \<in> act then Some (\<not> vr_Halt (bsp_result e v)) else en_Active e v)"

text \<open>No vertex is retried: retries are switched off, or no program fails.\<close>

definition no_retries :: "string set \<Rightarrow> Engine \<Rightarrow> bool" where
  "no_retries act e \<longleftrightarrow> rp_MaxRetries (en_ErrorHandler e) \<le> 0
     \<or> (\<forall>v \<in> act. vr_Error (bsp_result e v) = None)"

definition bsp_inv ::
  "string set \<Rightarrow> Engine \<Rightarrow> VertexTask list \<Rightarrow> RetryableError list \<Rightarrow> Engine \<Rightarrow> bool" where
  "bsp_inv act e pending errs e' \<longleftrightarrow>
     distinct (map vt_VertexID pending)
     \<and> (\<forall>t \<in> set pending. vt_VertexID t \<in> act \<and> t = vertex_task e (vt_VertexID t))
     \<and> (\<forall>v. 0 \<le> retry_of e' v) \<and> en_ErrorHandler e' = en_ErrorHandler e
     \<and> (errs = [] \<longleftrightarrow> (\<forall>v \<in> act - vt_VertexID ` set pending. vr_Error (bsp_result e v) = None))
     \<and> (errs = [] \<longrightarrow> (\<forall>v. v \<notin> vt_VertexID ` set pending \<longrightarrow>
          en_States e' v = bsp_states act e v \<and> en_Active e' v = bsp_active act e v))"

lemma drop_nth_map: "map f (drop_nth i xs) = drop_nth i (map f xs)"
  by (simp add: drop_nth_def take_map drop_map)

lemma distinct_drop_nth:
  assumes "distinct xs" and "i < length xs"
  shows "distinct (drop_nth i xs) \<and> set (drop_nth i xs) = set xs - {xs ! i}"
proof -
  have "xs = take i xs @ xs ! i # drop (Suc i) xs" by (rule id_take_nth_drop [OF assms(2)])
  with assms(1) have "distinct (take i xs @ xs ! i # drop (Suc i) xs)" by simp
  moreover have "set xs = insert (xs ! i) (set (take i xs) \<union> set (drop (Suc i) xs))"
    by (subst id_take_nth_drop [OF assms(2)]) auto
  ultimately show ?thesis by (auto simp: drop_nth_def)
qed

text \<open>The task whose result arrives, and the others.\<close>

lemma picked_task:
  assumes "pending \<noteq> []" and "distinct (map vt_VertexID pending)"
  shows "pending ! (n mod length pending) \<in> set pending"
    and "distinct (map vt_VertexID (drop_nth (n mod length pending) pending))"
    and "vt_VertexID ` set (drop_nth (n mod length pending) pending)
      = vt_VertexID ` set pending - {vt_VertexID (pending ! (n mod length pending))}"
  using assms distinct_drop_nth [of "map vt_VertexID pending" "n mod length pending"]
  by (simp_all add: drop_nth_map flip: set_map)

lemma bsp_turn:
  assumes ne: "pending \<noteq> []" and inv: "bsp_inv act e pending errs e1" and nr: "no_retries act e"
    and turn: "collect_turn arrival step pending errs e1 = (p, er, e2)"
  shows "bsp_inv act e p er e2"
proof -
  let ?i = "arrival mod length pending"
  let ?t = "pending ! ?i"
  let ?v = "vt_VertexID ?t"
  let ?r = "bsp_result e ?v"
  have dist: "distinct (map vt_VertexID pending)" using inv by (simp add: bsp_inv_def)
  note t = picked_task(1) [OF ne dist, of arrival] and ids = picked_task(2,3) [OF ne dist, of arrival]
  have ran: "executeTask ?t = ?r" and act: "?v \<in> act"
    using inv t by (simp_all add: bsp_inv_def bsp_result_def)
  have vin: "?v \<in> vt_VertexID ` set pending" using t by simp
  have rest: "\<forall>t \<in> set (drop_nth ?i pending). vt_VertexID t \<in> act \<and> t = vertex_task e (vt_VertexID t)"
    using inv set_drop_nth [of ?i pending] by (auto simp: bsp_inv_def)
  have split: "act - (vt_VertexID ` set pending - {?v}) = insert ?v (act - vt_VertexID ` set pending)"
    using act vin by auto
  have idv: "vr_VertexID ?r = ?v" using ran executeTask_id by metis
  show ?thesis
  proof (cases "vr_Error ?r")
    case (Some err)
    then have "rp_MaxRetries (en_ErrorHandler e) \<le> 0"
      using nr act by (auto simp: no_retries_def)
    moreover have "en_ErrorHandler e1 = en_ErrorHandler e" "0 \<le> retry_of e1 ?v"
      using inv by (auto simp: bsp_inv_def)
    ultimately have max: "rp_MaxRetries (en_ErrorHandler e1) \<le> retry_of e1 ?v" by simp
    have p: "p = drop_nth ?i pending" and er: "er \<noteq> []"
      and e2: "e2 = emit_vertex_end ?r step (task_ran ?t e1)"
      using turn Some max ran idv
      by (auto simp: collect_turn_def Let_def handleVertexResult_def HandleError_def)
    have "\<forall>v. retry_of e2 v = retry_of e1 v" "en_ErrorHandler e2 = en_ErrorHandler e1"
      by (simp_all add: e2 emit_vertex_end_def)
    then show ?thesis
      using inv ids rest p er Some split by (simp add: bsp_inv_def)
  next
    case None
    have p: "p = drop_nth ?i pending" and er: "er = errs"
      and res: "en_States e2 = (en_States (task_ran ?t e1))(?v \<mapsto> vr_State ?r)"
        "en_Active e2 = (en_Active e1)(?v \<mapsto> \<not> vr_Halt ?r)" "en_Retry e2 = (en_Retry e1)(?v \<mapsto> 0)"
        "en_ErrorHandler e2 = en_ErrorHandler e1"
      using turn None ran idv
      by (auto simp: collect_turn_def Let_def handleVertexResult_def emit_vertex_end_def)
    have retry: "0 \<le> retry_of e2 v" for v
      using inv res(3) by (auto simp: bsp_inv_def retry_of_def)
    have errs: "errs = [] \<longleftrightarrow> (\<forall>v \<in> act - (vt_VertexID ` set pending - {?v}). vr_Error (bsp_result e v) = None)"
      using inv None by (simp add: split bsp_inv_def)
    have other: "en_States (task_ran ?t e1) v = en_States e1 v" if "v \<noteq> ?v" for v
      using that by (simp add: task_ran_def Let_def)
    have "en_States e2 v = bsp_states act e v \<and> en_Active e2 v = bsp_active act e v"
      if "errs = []" "v \<notin> vt_VertexID ` set pending - {?v}" for v
    proof (cases "v = ?v")
      case True
      then show ?thesis using act res by (simp add: bsp_states_def bsp_active_def)
    next
      case False
      with that inv have "en_States e1 v = bsp_states act e v \<and> en_Active e1 v = bsp_active act e v"
        by (simp add: bsp_inv_def)
      with False other res show ?thesis by simp
    qed
    with inv ids rest p er retry errs res(4) show ?thesis
      by (simp add: bsp_inv_def)
  qed
qed

lemma superstep_bsp:
  assumes ids: "map_order (en_Active e) ids" and retry: "\<And>v. 0 \<le> retry_of e v"
    and nr: "no_retries {v. en_Active e v = Some True} e"
    and run: "executeSuperstep ids arrive None step e = (r, e')"
  shows "(r = None \<longleftrightarrow> (\<forall>v. en_Active e v = Some True \<longrightarrow> vr_Error (bsp_result e v) = None))
    \<and> (r = None \<longrightarrow> en_States e' = bsp_states {v. en_Active e v = Some True} e
        \<and> en_Active e' = bsp_active {v. en_Active e v = Some True} e)"
proof -
  let ?act = "{v. en_Active e v = Some True}"
  let ?vs = "getActiveVertices ids e"
  have vs: "distinct ?vs" "set ?vs = ?act"
    using ids by (auto simp: getActiveVertices_def map_order_def)
  show ?thesis
  proof (cases "?vs = []")
    case True
    then have "?act = {}" using vs by simp
    then show ?thesis
      using run True by (auto simp: executeSuperstep_def Let_def bsp_states_def bsp_active_def)
  next
    case False
    obtain tasks e1 where sch: "scheduleVertexTasks step ?vs e = (tasks, e1)" by fastforce
    note k = schedule_keeps [OF sch]
    have col: "collect arrive None step 0 tasks [] e1 = (r, e')"
      using run False sch by (simp add: executeSuperstep_def Let_def)
    have idmap: "map vt_VertexID tasks = ?vs"
      using k by (simp add: vertex_task_def comp_def)
    then have idset: "vt_VertexID ` set tasks = ?act" using vs(2) by (metis set_map)
    have "retry_of e1 v = retry_of e v" for v using k by (simp add: retry_of_def)
    then have start: "bsp_inv ?act e tasks [] e1"
      using k retry vs idmap idset
      by (auto simp: bsp_inv_def bsp_states_def bsp_active_def vertex_task_def)
    obtain pending errs where fin: "bsp_inv ?act e pending errs e'" "pending = []"
        "r = (case errs of [] \<Rightarrow> None | err # _ \<Rightarrow> Some (VertexFailed err))"
      by (rule collect_invariant [OF col, of "bsp_inv ?act e", OF start])
        (auto intro: bsp_turn nr split: prod.splits)
    then show ?thesis
      by (cases errs) (auto simp: bsp_inv_def fun_eq_iff)
  qed
qed

text \<open>
  C1: bulk-synchronous semantics. Without retries (none allowed, or no program fails) and without a
  time-out, a superstep succeeds exactly if no active vertex's program fails, and then every active
  vertex has the state its program computes from the state and the messages of the beginning of the
  superstep, whatever the order of the workers and of the results.
\<close>

theorem superstep_refines_bsp:
  assumes "map_order (en_Active e) ids" and "\<And>v. 0 \<le> retry_of e v"
    and "no_retries {v. en_Active e v = Some True} e"
  shows "case executeSuperstep ids arrive None step e of (r, e') \<Rightarrow>
    (r = None \<longleftrightarrow> (\<forall>v. en_Active e v = Some True \<longrightarrow> vr_Error (bsp_result e v) = None))
    \<and> (r = None \<longrightarrow> en_States e' = bsp_states {v. en_Active e v = Some True} e
        \<and> en_Active e' = bsp_active {v. en_Active e v = Some True} e)"
  using superstep_bsp [OF assms] by (auto split: prod.splits)

subsection \<open>Retries\<close>

definition calls_inv :: "Engine \<Rightarrow> VertexTask list \<Rightarrow> Engine \<Rightarrow> bool" where
  "calls_inv e pending e' \<longleftrightarrow> distinct (map vt_VertexID pending)
     \<and> en_ErrorHandler e' = en_ErrorHandler e
     \<and> (\<forall>v. v \<notin> vt_VertexID ` set pending \<longrightarrow>
          en_Calls e' v \<le> en_Calls e v + nat (rp_MaxRetries (en_ErrorHandler e) - retry_of e v) + 1)
     \<and> (\<forall>v \<in> vt_VertexID ` set pending.
          en_Calls e' v + nat (rp_MaxRetries (en_ErrorHandler e) - retry_of e' v)
            \<le> en_Calls e v + nat (rp_MaxRetries (en_ErrorHandler e) - retry_of e v))"

lemma calls_turn:
  assumes ne: "pending \<noteq> []" and inv: "calls_inv e pending e1"
    and turn: "collect_turn arrival step pending errs e1 = (p, er, e2)"
  shows "calls_inv e p e2"
proof -
  let ?i = "arrival mod length pending"
  let ?t = "pending ! ?i"
  let ?v = "vt_VertexID ?t"
  have dist: "distinct (map vt_VertexID pending)" using inv by (simp add: calls_inv_def)
  note ids = picked_task(2,3) [OF ne dist, of arrival]
  have vin: "?v \<in> vt_VertexID ` set pending" using picked_task(1) [OF ne dist, of arrival] by simp
  obtain rt herr e3 where h: "handleVertexResult (executeTask ?t) step (task_ran ?t e1) = (rt, herr, e3)"
    by (metis prod_cases3)
  have e2: "e2 = e3" using turn h by (auto simp: collect_turn_def Let_def split: option.splits)
  have calls: "en_Calls e2 = (en_Calls e1)(?v := Suc (en_Calls e1 ?v))"
    using handle_keeps [OF h] e2 by (simp add: task_ran_def Let_def)
  have hand: "en_ErrorHandler e2 = en_ErrorHandler e" using handle_keeps [OF h] inv e2 by (simp add: calls_inv_def)
  have bound: "en_Calls e1 ?v + nat (rp_MaxRetries (en_ErrorHandler e) - retry_of e1 ?v)
      \<le> en_Calls e ?v + nat (rp_MaxRetries (en_ErrorHandler e) - retry_of e ?v)"
    using inv vin unfolding calls_inv_def by blast
  have other: "retry_of e2 u = retry_of e1 u" if "u \<noteq> ?v" for u
    using h that e2 by (auto simp: handleVertexResult_def Let_def emit_vertex_end_def retry_of_def
        split: option.splits prod.splits if_splits)
  show ?thesis
  proof (cases rt)
    case None
    then have p: "p = drop_nth ?i pending" using turn h by (cases herr) (auto simp: collect_turn_def Let_def)
    have gone: "en_Calls e2 u \<le> en_Calls e u + nat (rp_MaxRetries (en_ErrorHandler e) - retry_of e u) + 1"
      if "u \<notin> vt_VertexID ` set p" for u
      using that inv bound ids p by (cases "u = ?v") (auto simp: calls calls_inv_def)
    have "en_Calls e2 u + nat (rp_MaxRetries (en_ErrorHandler e) - retry_of e2 u)
        \<le> en_Calls e u + nat (rp_MaxRetries (en_ErrorHandler e) - retry_of e u)"
      if "u \<in> vt_VertexID ` set p" for u
      using that inv ids p other [of u] by (auto simp: calls calls_inv_def)
    with gone ids p hand show ?thesis by (simp add: calls_inv_def)
  next
    case (Some t')
    with h have h': "handleVertexResult (executeTask ?t) step (task_ran ?t e1) = (Some t', herr, e3)" by simp
    note hr = handle_retry [OF h']
    have p: "p = drop_nth ?i pending @ [t']" using turn h Some by (auto simp: collect_turn_def Let_def)
    have tid: "vt_VertexID t' = ?v" using hr by simp
    have pids: "vt_VertexID ` set p = vt_VertexID ` set pending" using p tid ids vin by auto
    have dist: "distinct (map vt_VertexID p)" using p tid ids by (auto simp flip: set_map)
    have up: "retry_of e2 ?v = retry_of e1 ?v + 1" "retry_of e1 ?v < rp_MaxRetries (en_ErrorHandler e)"
      using hr e2 inv by (auto simp: retry_of_def calls_inv_def)
    have "en_Calls e2 u + nat (rp_MaxRetries (en_ErrorHandler e) - retry_of e2 u)
        \<le> en_Calls e u + nat (rp_MaxRetries (en_ErrorHandler e) - retry_of e u)"
      if "u \<in> vt_VertexID ` set p" for u
      using that inv bound up other [of u] pids
      by (cases "u = ?v") (auto simp: calls calls_inv_def)
    moreover have "en_Calls e2 u \<le> en_Calls e u + nat (rp_MaxRetries (en_ErrorHandler e) - retry_of e u) + 1"
      if "u \<notin> vt_VertexID ` set p" for u
      using that inv vin pids by (auto simp: calls calls_inv_def)
    ultimately show ?thesis using dist hand by (simp add: calls_inv_def)
  qed
qed

text \<open>
  C18: the retry bound. In one superstep, with or without a time-out and in any order of arrivals, the
  program of a vertex is called at most once more than the retries it has left.
\<close>

theorem superstep_call_bound:
  assumes "map_order (en_Active e) ids"
  shows "en_Calls (snd (executeSuperstep ids arrive dl step e)) v
    \<le> en_Calls e v + nat (rp_MaxRetries (en_ErrorHandler e) - retry_of e v) + 1"
proof (cases "getActiveVertices ids e = []")
  case True
  then show ?thesis by (simp add: executeSuperstep_def)
next
  case False
  obtain tasks e1 where sch: "scheduleVertexTasks step (getActiveVertices ids e) e = (tasks, e1)" by fastforce
  note k = schedule_keeps [OF sch]
  obtain r e' where col: "collect arrive dl step 0 tasks [] e1 = (r, e')" by fastforce
  have "map vt_VertexID tasks = getActiveVertices ids e" using k by (simp add: vertex_task_def comp_def)
  then have "distinct (map vt_VertexID tasks)"
    using assms by (simp add: getActiveVertices_def map_order_def)
  then have start: "calls_inv e tasks e1" using k by (simp add: calls_inv_def retry_of_def)
  obtain pending where "calls_inv e pending e'"
    by (rule collect_invariant [OF col, of "\<lambda>p _. calls_inv e p", OF start])
      (auto intro: calls_turn split: prod.splits)
  then have "en_Calls e' v \<le> en_Calls e v + nat (rp_MaxRetries (en_ErrorHandler e) - retry_of e v) + 1"
    by (cases "v \<in> vt_VertexID ` set pending") (fastforce simp: calls_inv_def)+
  then show ?thesis using False sch col by (simp add: executeSuperstep_def Let_def)
qed

subsection \<open>A sample engine for the witnesses\<close>

definition sample_config :: "int \<Rightarrow> EngineConfig" where
  "sample_config retries = \<lparr>ec_MaxSupersteps = 3, ec_Parallelism = 1, ec_ParallelismFactor = 0,
     ec_QueueCapacity = 4, ec_Timeout = 0,
     ec_RetryPolicy = \<lparr>rp_MaxRetries = retries, rp_BackoffMs = 0\<rparr>, ec_StreamOutput = False\<rparr>"

text \<open>A program that writes to its state and fails.\<close>

definition failing_program :: vprog where
  "failing_program n v s ms = \<lparr>cr_Arg = s(''x'' \<mapsto> VInt 1), cr_State = Map.empty, cr_Messages = [],
     cr_Halt = False, cr_Error = Some ''boom''\<rparr>"

definition counting_program :: vprog where
  "counting_program n v s ms = SimpleCounter_Compute 1 [] v s ms"

definition sample_engine :: "vprog \<Rightarrow> Engine" where
  "sample_engine p = (NewEngine 1 (\<lambda>_. 0) [''a'' \<mapsto> p] [''a'' \<mapsto> Map.empty] (sample_config 0))
     \<lparr>en_Active := [''a'' \<mapsto> True]\<rparr>"

definition sample_choices :: StepChoices where
  "sample_choices = \<lparr>so_ids = [''a''], so_arrive = (\<lambda>_. 0), so_deadline = None,
     so_keys = [checkpoint_key 0]\<rparr>"

lemma sample_engine_simps:
  "en_Active (sample_engine p) = [''a'' \<mapsto> True]" "en_Retry (sample_engine p) = Map.empty"
  "en_Checkpoints (sample_engine p) = NewCheckpointManager" "en_States (sample_engine p) = [''a'' \<mapsto> Map.empty]"
  "en_ErrorHandler (sample_engine p) = \<lparr>rp_MaxRetries = 0, rp_BackoffMs = 0\<rparr>"
  "en_Vertices (sample_engine p) = [''a'' \<mapsto> p]" "retry_of (sample_engine p) v = 0"
  "en_Calls (sample_engine p) = (\<lambda>_. 0)"
  by (simp_all add: sample_engine_def NewEngine_def Let_def sample_config_def retry_of_def)

lemma engine_sample_order: "map_order (en_Active (sample_engine p)) [''a'']"
  by (simp add: sample_engine_simps map_order_def)

lemma sample_no_retries: "no_retries act (sample_engine p)"
  by (simp add: no_retries_def sample_engine_simps)

lemma sample_result: "bsp_result (sample_engine p) ''a'' =
   (let r = p 0 ''a'' Map.empty [] in \<lparr>vr_VertexID = ''a'', vr_State = cr_State r,
      vr_Messages = cr_Messages r, vr_Halt = cr_Halt r, vr_Error = cr_Error r\<rparr>)"
  by (simp add: bsp_result_def executeTask_def vertex_task_def program_of_def sample_engine_def
      NewEngine_def Let_def state_of_def NewMessageAggregator_def GetMessages_def vertex_messages_def)

theorem superstep_refines_bsp_witness:
  "fst (executeSuperstep [''a''] (\<lambda>_. 0) None 0 (sample_engine failing_program)) \<noteq> None
   \<and> (case executeSuperstep [''a''] (\<lambda>_. 0) None 0 (sample_engine counting_program) of (r, e') \<Rightarrow>
        r = None \<and> map_option (\<lambda>s. s ''count'') (en_States e' ''a'') = Some (Some (VInt 1)) \<and> en_Active e' ''a'' = Some False)"
proof
  have "vr_Error (bsp_result (sample_engine failing_program) ''a'') = Some ''boom''"
    by (simp add: sample_result failing_program_def)
  then show "fst (executeSuperstep [''a''] (\<lambda>_. 0) None 0 (sample_engine failing_program)) \<noteq> None"
    using superstep_refines_bsp [of "sample_engine failing_program" "[''a'']", OF engine_sample_order _ sample_no_retries,
        where arrive = "\<lambda>_. 0" and step = 0]
    by (auto simp: sample_engine_simps split: prod.splits)
  have "vr_Error (bsp_result (sample_engine counting_program) ''a'') = None"
    "vr_State (bsp_result (sample_engine counting_program) ''a'') ''count'' = Some (VInt 1)"
    "vr_Halt (bsp_result (sample_engine counting_program) ''a'')"
    by (simp_all add: sample_result counting_program_def SimpleCounter_Compute_def Let_def counter_count_def)
  then show "case executeSuperstep [''a''] (\<lambda>_. 0) None 0 (sample_engine counting_program) of (r, e') \<Rightarrow>
        r = None \<and> map_option (\<lambda>s. s ''count'') (en_States e' ''a'') = Some (Some (VInt 1)) \<and> en_Active e' ''a'' = Some False"
    using superstep_refines_bsp [of "sample_engine counting_program" "[''a'']", OF engine_sample_order _ sample_no_retries,
        where arrive = "\<lambda>_. 0" and step = 0]
    by (auto simp: sample_engine_simps bsp_states_def bsp_active_def split: prod.splits)
qed

theorem superstep_call_bound_witness:
  "en_Calls (snd (executeSuperstep [''a''] (\<lambda>_. 0) None 0 (sample_engine failing_program))) ''a'' \<le> 1"
  using superstep_call_bound [of "sample_engine failing_program" "[''a'']", OF engine_sample_order, where arrive = "\<lambda>_. 0"
      and dl = None and step = 0 and v = "''a''"]
  by (simp add: sample_engine_simps)

subsection \<open>Messages across supersteps\<close>

definition boxes_empty :: "Engine \<Rightarrow> bool" where
  "boxes_empty e \<longleftrightarrow> (\<forall>v. vertex_messages v (en_Agg e) = [])"

text \<open>Every \<^verbatim>\<open>vertex_start\<close> event so far announced no messages.\<close>

definition silent_starts :: "Engine \<Rightarrow> bool" where
  "silent_starts e \<longleftrightarrow> (\<forall>ev \<in> set (en_Events e). ev_Type ev = ''vertex_start'' \<longrightarrow>
     ev_Data ev = VMap [''message_count'' \<mapsto> VInt 0])"

lemma silent_emit:
  "silent_starts (emitEvent ty v s d e) \<longleftrightarrow>
     silent_starts e \<and> (ty = ''vertex_start'' \<longrightarrow> d = [''message_count'' \<mapsto> VInt 0])"
  by (auto simp: silent_starts_def emitEvent_def)

lemma silent_same: "en_Events e' = en_Events e \<Longrightarrow> silent_starts e' = silent_starts e"
  by (simp add: silent_starts_def)

lemma schedule_silent:
  "boxes_empty e \<Longrightarrow> silent_starts e \<Longrightarrow> scheduleVertexTasks step vs e = (ts, e') \<Longrightarrow>
     silent_starts e' \<and> (\<forall>t \<in> set ts. vt_Messages t = [])"
proof (induction vs arbitrary: e ts)
  case (Cons v vs)
  let ?e = "emitEvent ''vertex_start'' v step
    [''message_count'' \<mapsto> VInt (of_nat (length (GetMessages v (en_Agg e))))] e"
  have none: "GetMessages v (en_Agg e) = []"
    using Cons.prems(1) by (simp add: boxes_empty_def GetMessages_empty)
  obtain ts1 where rest: "scheduleVertexTasks step vs ?e = (ts1, e')" and ts: "ts = vertex_task e v # ts1"
    using Cons.prems(3) by (auto simp: Let_def split: prod.splits)
  have "boxes_empty ?e" "silent_starts ?e"
    using Cons.prems none by (simp_all add: boxes_empty_def silent_emit)
  from Cons.IH [OF this rest] ts none show ?case by (simp add: vertex_task_def)
qed simp

lemma handle_silent:
  "handleVertexResult r step e = (rt, herr, e') \<Longrightarrow> silent_starts e \<Longrightarrow> silent_starts e'"
  by (auto simp: handleVertexResult_def Let_def emit_vertex_end_def silent_emit
      silent_same [of "e\<lparr>en_Retry := _\<rparr>" e] silent_same [of "e\<lparr>en_States := _, en_Active := _, en_Retry := _, en_Agg := _\<rparr>" e]
      split: option.splits prod.splits if_splits)

lemma turn_silent:
  assumes "collect_turn arrival step pending errs e = (p, er, e')" and "silent_starts e"
  shows "silent_starts e'"
proof -
  let ?t = "pending ! (arrival mod length pending)"
  obtain rt herr e1 where h: "handleVertexResult (executeTask ?t) step (task_ran ?t e) = (rt, herr, e1)"
    by (metis prod_cases3)
  have "e' = e1" using assms(1) h by (auto simp: collect_turn_def Let_def split: option.splits)
  moreover have "silent_starts (task_ran ?t e)" using assms(2) by (simp add: silent_starts_def)
  ultimately show ?thesis using handle_silent [OF h] by simp
qed

lemma superstep_silent:
  assumes "boxes_empty e" and "silent_starts e" and "executeSuperstep ids arrive dl step e = (r, e')"
  shows "silent_starts e'"
proof (cases "getActiveVertices ids e = []")
  case True
  with assms show ?thesis by (simp add: executeSuperstep_def)
next
  case False
  obtain ts e1 where sch: "scheduleVertexTasks step (getActiveVertices ids e) e = (ts, e1)" by fastforce
  then have col: "collect arrive dl step 0 ts [] e1 = (r, e')"
    using assms(3) False by (simp add: executeSuperstep_def Let_def)
  have "silent_starts e1" using schedule_silent [OF assms(1,2) sch] by simp
  then show ?thesis
    by (rule collect_invariant [OF col, of "\<lambda>_ _. silent_starts"])
      (auto intro: turn_silent split: prod.splits)
qed

lemma runStep_silent:
  assumes "boxes_empty e" and "silent_starts e" and "runStep ch step e = (r, e')"
  shows "silent_starts e' \<and> (r = None \<longrightarrow> boxes_empty e')"
proof -
  let ?e1 = "e\<lparr>en_Checkpoints := put_checkpoint (so_keys ch) step (en_States e) (en_Checkpoints e)\<rparr>"
  let ?e2 = "emitEvent ''superstep_start'' [] step (active_count (so_ids ch) ?e1) ?e1"
  obtain q e3 where x: "executeSuperstep (so_ids ch) (so_arrive ch) (so_deadline ch) step ?e2 = (q, e3)"
    by fastforce
  have "boxes_empty ?e2" "silent_starts ?e2"
    using assms(1,2) by (simp_all add: boxes_empty_def silent_emit silent_same [of ?e1 e])
  from superstep_silent [OF this x] have e3: "silent_starts e3" .
  show ?thesis
  proof (cases q)
    case (Some err)
    with assms(3) x e3 show ?thesis
      by (auto simp: runStep_def Let_def silent_emit silent_same [of "e3\<lparr>en_States := _\<rparr>" e3]
          split: option.splits)
  next
    case None
    let ?e4 = "emitEvent ''superstep_end'' [] step (active_count (so_ids ch) e3) e3"
    have "silent_starts ?e4" using e3 by (simp add: silent_emit)
    with None assms(3) x show ?thesis
      by (auto simp: runStep_def Let_def silent_starts_def boxes_empty_def agg.box_wipe split: if_splits)
  qed
qed

lemma run_steps_silent:
  "run_steps choices step e = (r, e') \<Longrightarrow> boxes_empty e \<Longrightarrow> silent_starts e \<Longrightarrow> silent_starts e'"
proof (induction choices step e rule: run_steps.induct)
  case (1 choices step e)
  show ?case
  proof (cases "step < ec_MaxSupersteps (en_Config e) \<and> \<not> en_Halted e")
    case False
    with "1.prems" show ?thesis by (subst (asm) run_steps.simps) auto
  next
    case True
    obtain q e1 where s: "runStep (choices step) step e = (q, e1)" by fastforce
    from runStep_silent [OF "1.prems"(2,3) s] have e1: "silent_starts e1" "q = None \<longrightarrow> boxes_empty e1"
      by auto
    show ?thesis
    proof (cases q)
      case (Some err)
      with "1.prems"(1) True s e1 show ?thesis by (subst (asm) run_steps.simps) simp
    next
      case None
      with "1.prems"(1) True s have "run_steps choices (step + 1) e1 = (r, e')"
        by (subst (asm) run_steps.simps) simp
      from "1.IH" [OF True s [symmetric] None this] e1 None show ?thesis by simp
    qed
  qed
qed

text \<open>
  messages never cross a superstep. In every run of a new engine, whatever the vertex programs
  send and in whatever order results arrive, no vertex ever starts with a message: the messages that
  the results of a superstep bring for the next one are in the aggregator when the superstep's end
  clears it.
\<close>

theorem messages_never_delivered:
  "ev_Data ` {ev \<in> set (en_Events (snd (Run vids choices (NewEngine cpus clock vertices states config)))).
      ev_Type ev = ''vertex_start''} \<subseteq> {VMap [''message_count'' \<mapsto> VInt 0]}"
proof -
  let ?init = "initActiveVertices vids (startStreamingIfEnabled (NewEngine cpus clock vertices states config))"
  let ?e = "emitEvent ''execution_start'' [] 0 [''total_vertices'' \<mapsto> VInt (of_nat (length vids))] ?init"
  have agg: "en_Agg ?init = NewMessageAggregator (Some SumCombiner)" and evs: "en_Events ?init = []"
    by (simp_all add: initActiveVertices_def startStreamingIfEnabled_def NewEngine_def Let_def)
  have "silent_starts ?init" by (simp only: silent_starts_def evs) simp
  then have "silent_starts ?e" by (simp only: silent_emit) simp
  moreover have "boxes_empty ?e"
    by (simp only: boxes_empty_def emitEvent_simps agg) (simp add: NewMessageAggregator_def vertex_messages_def)
  moreover obtain r e' where "run_steps choices 0 ?e = (r, e')" by fastforce
  ultimately have "silent_starts e'" "run_steps choices 0 ?e = (r, e')"
    using run_steps_silent by blast+
  then have "silent_starts (snd (Run vids choices (NewEngine cpus clock vertices states config)))"
    by (auto simp: Run_def Let_def silent_emit split: option.splits)
  then show ?thesis by (auto simp: silent_starts_def)
qed

subsection \<open>Halted vertices\<close>

definition same_vertex :: "string \<Rightarrow> Engine \<Rightarrow> Engine \<Rightarrow> bool" where
  "same_vertex v e e' \<longleftrightarrow> en_States e' v = en_States e v \<and> en_Active e' v = en_Active e v
     \<and> en_Calls e' v = en_Calls e v"

lemma turn_other:
  assumes "pending \<noteq> []" and "v \<notin> vt_VertexID ` set pending"
    and turn: "collect_turn arrival step pending errs e = (p, er, e')"
  shows "v \<notin> vt_VertexID ` set p \<and> same_vertex v e e'"
proof -
  let ?i = "arrival mod length pending"
  let ?t = "pending ! ?i"
  have "?t \<in> set pending" using assms(1) by simp
  with assms(2) have other: "v \<noteq> vt_VertexID ?t" by blast
  obtain rt herr e1 where h: "handleVertexResult (executeTask ?t) step (task_ran ?t e) = (rt, herr, e1)"
    by (metis prod_cases3)
  have e': "e' = e1" using turn h by (auto simp: collect_turn_def Let_def split: option.splits)
  have "same_vertex v (task_ran ?t e) e1"
    using h other by (auto simp: same_vertex_def handleVertexResult_def Let_def emit_vertex_end_def
        split: option.splits prod.splits if_splits)
  moreover have "same_vertex v e (task_ran ?t e)"
    using other by (simp add: same_vertex_def task_ran_def Let_def)
  moreover have "v \<notin> vt_VertexID ` set p"
  proof (cases rt)
    case None
    then have "p = drop_nth ?i pending" using turn h by (cases herr) (auto simp: collect_turn_def Let_def)
    then show ?thesis using assms(2) set_drop_nth [of ?i pending] by blast
  next
    case (Some t')
    then have p: "p = drop_nth ?i pending @ [t']" using turn h by (simp add: collect_turn_def Let_def)
    have "vt_VertexID t' = vt_VertexID ?t" using handle_retry [OF h [unfolded Some]] by simp
    then show ?thesis using p assms(2) other set_drop_nth [of ?i pending] by auto
  qed
  ultimately show ?thesis using e' by (simp add: same_vertex_def)
qed

lemma superstep_other:
  assumes "en_Active e v \<noteq> Some True" and "executeSuperstep ids arrive dl step e = (r, e')"
  shows "same_vertex v e e'"
proof (cases "getActiveVertices ids e = []")
  case True
  with assms show ?thesis by (simp add: executeSuperstep_def same_vertex_def)
next
  case False
  obtain ts e1 where sch: "scheduleVertexTasks step (getActiveVertices ids e) e = (ts, e1)" by fastforce
  then have col: "collect arrive dl step 0 ts [] e1 = (r, e')"
    using assms(2) False by (simp add: executeSuperstep_def Let_def)
  note k = schedule_keeps [OF sch]
  have "v \<notin> vt_VertexID ` set ts"
    using k assms(1) by (auto simp: vertex_task_def getActiveVertices_def)
  moreover have "same_vertex v e e1" using k by (simp add: same_vertex_def)
  ultimately have "v \<notin> vt_VertexID ` set ts \<and> same_vertex v e e1" by simp
  then show ?thesis
    by (rule collect_invariant [OF col, of "\<lambda>p _ e'. v \<notin> vt_VertexID ` set p \<and> same_vertex v e e'"])
      (auto simp: same_vertex_def dest: turn_other split: prod.splits)
qed

lemma runStep_other:
  assumes "en_Active e v \<noteq> Some True" and "runStep ch step e = (None, e')"
  shows "same_vertex v e e'"
proof -
  let ?c = "e\<lparr>en_Checkpoints := put_checkpoint (so_keys ch) step (en_States e) (en_Checkpoints e)\<rparr>"
  let ?s = "emitEvent ''superstep_start'' [] step (active_count (so_ids ch) ?c) ?c"
  obtain q e3 where x: "executeSuperstep (so_ids ch) (so_arrive ch) (so_deadline ch) step ?s = (q, e3)"
    by fastforce
  have "same_vertex v ?s e3" by (rule superstep_other [OF _ x]) (use assms(1) in simp)
  with assms(2) x show ?thesis
    by (cases q) (auto simp: runStep_def Let_def same_vertex_def split: if_splits)
qed

text \<open>
  vote to halt is for ever. Once a vertex is inactive at the start of a superstep, no later
  superstep of the run calls its program, changes its state or makes it active again, whatever
  messages the other vertices send to it.
\<close>

theorem halted_vertex_stays:
  assumes "en_Active e v \<noteq> Some True" and "run_steps choices step e = (None, e')"
  shows "en_States e' v = en_States e v \<and> en_Active e' v = en_Active e v \<and> en_Calls e' v = en_Calls e v"
  using assms
proof (induction choices step e rule: run_steps.induct)
  case (1 choices step e)
  show ?case
  proof (cases "step < ec_MaxSupersteps (en_Config e) \<and> \<not> en_Halted e")
    case False
    with "1.prems" show ?thesis by (subst (asm) run_steps.simps) auto
  next
    case True
    obtain e1 where s: "runStep (choices step) step e = (None, e1)"
      and rest: "run_steps choices (step + 1) e1 = (None, e')"
      using "1.prems"(2) True by (subst (asm) run_steps.simps) (auto split: prod.splits option.splits)
    from runStep_other [OF "1.prems"(1) s] have same: "same_vertex v e e1" .
    from "1.IH" [OF True s [symmetric] refl _ rest] "1.prems"(1) same show ?thesis
      by (simp add: same_vertex_def)
  qed
qed

theorem halted_vertex_stays_witness:
  "snd (run_steps (\<lambda>_. sample_choices) 3 (sample_engine counting_program)) = sample_engine counting_program
   \<and> en_States (snd (run_steps (\<lambda>_. sample_choices) 3 (sample_engine counting_program))) ''b'' = None"
proof -
  have run: "run_steps (\<lambda>_. sample_choices) 3 (sample_engine counting_program) = (None, sample_engine counting_program)"
    by (subst run_steps.simps) (simp add: sample_engine_def NewEngine_def sample_config_def Let_def)
  from halted_vertex_stays [OF _ run, of "''b''"] run show ?thesis by (simp add: sample_engine_simps)
qed

subsection \<open>The end of a run\<close>

definition step_ends :: "Engine \<Rightarrow> nat" where
  "step_ends e = length (filter (\<lambda>ev. ev_Type ev = ''superstep_end'') (en_Events e))"

lemma ends_emit: "step_ends (emitEvent ty v s d e) = step_ends e + (if ty = ''superstep_end'' then 1 else 0)"
  by (simp add: step_ends_def emitEvent_def)

lemma schedule_ends: "scheduleVertexTasks step vs e = (ts, e') \<Longrightarrow> step_ends e' = step_ends e"
  by (induction vs arbitrary: e ts) (auto simp: Let_def ends_emit split: prod.splits)

lemma turn_ends:
  assumes "collect_turn arrival step pending errs e = (p, er, e')"
  shows "step_ends e' = step_ends e"
proof -
  let ?t = "pending ! (arrival mod length pending)"
  obtain rt herr e1 where h: "handleVertexResult (executeTask ?t) step (task_ran ?t e) = (rt, herr, e1)"
    by (metis prod_cases3)
  have e': "e' = e1" using assms h by (auto simp: collect_turn_def Let_def split: option.splits)
  have "step_ends (e\<lparr>en_Retry := x\<rparr>) = step_ends e"
    "step_ends (e\<lparr>en_States := s, en_Active := a, en_Retry := x, en_Agg := g\<rparr>) = step_ends e" for e x s a g
    by (simp_all add: step_ends_def)
  then have "step_ends e1 = step_ends (task_ran ?t e)"
    using h by (auto simp: handleVertexResult_def Let_def emit_vertex_end_def ends_emit
        split: option.splits prod.splits if_splits)
  then show ?thesis using e' by (simp add: step_ends_def)
qed

lemma superstep_ends:
  assumes "executeSuperstep ids arrive dl step e = (r, e')"
  shows "step_ends e' = step_ends e"
proof (cases "getActiveVertices ids e = []")
  case True
  with assms show ?thesis by (simp add: executeSuperstep_def)
next
  case False
  obtain ts e1 where sch: "scheduleVertexTasks step (getActiveVertices ids e) e = (ts, e1)" by fastforce
  then have col: "collect arrive dl step 0 ts [] e1 = (r, e')"
    using assms False by (simp add: executeSuperstep_def Let_def)
  from schedule_ends [OF sch] show ?thesis
    by (rule collect_invariant [OF col, of "\<lambda>_ _ e'. step_ends e' = step_ends e"])
      (auto dest: turn_ends split: prod.splits)
qed

lemma runStep_ends:
  assumes "runStep ch step e = (None, e')"
  shows "step_ends e' = Suc (step_ends e)"
proof -
  let ?c = "e\<lparr>en_Checkpoints := put_checkpoint (so_keys ch) step (en_States e) (en_Checkpoints e)\<rparr>"
  let ?s = "emitEvent ''superstep_start'' [] step (active_count (so_ids ch) ?c) ?c"
  obtain q e3 where x: "executeSuperstep (so_ids ch) (so_arrive ch) (so_deadline ch) step ?s = (q, e3)"
    by fastforce
  have "step_ends ?c = step_ends e" by (simp add: step_ends_def)
  then have "step_ends e3 = step_ends e" using superstep_ends [OF x] by (simp add: ends_emit)
  moreover have "step_ends (e\<lparr>en_Agg := a\<rparr>) = step_ends e"
    "step_ends (e\<lparr>en_Halted := h, en_Agg := a\<rparr>) = step_ends e" for e a h
    by (simp_all add: step_ends_def)
  ultimately show ?thesis
    using assms x by (cases q) (auto simp: runStep_def Let_def ends_emit split: if_splits)
qed

text \<open>Which vertices have an entry in \<^verbatim>\<open>ActiveVertices\<close> does not change in a superstep.\<close>

lemma turn_entries:
  assumes turn: "collect_turn arrival step pending errs e = (p, er, e')" and ne: "pending \<noteq> []"
    and D: "vt_VertexID ` set pending \<subseteq> D" "dom (en_Active e) = D"
  shows "vt_VertexID ` set p \<subseteq> D \<and> dom (en_Active e') = D"
proof -
  let ?i = "arrival mod length pending"
  let ?t = "pending ! ?i"
  have "?i < length pending" using ne by simp
  then have t: "vt_VertexID ?t \<in> D" using D(1) nth_mem by blast
  have sub: "vt_VertexID ` set (drop_nth ?i pending) \<subseteq> D" using D(1) set_drop_nth [of ?i pending] by blast
  obtain rt herr e1 where h: "handleVertexResult (executeTask ?t) step (task_ran ?t e) = (rt, herr, e1)"
    by (metis prod_cases3)
  have act: "dom (en_Active e1) = D"
    using h t D(2) by (auto simp: handleVertexResult_def Let_def emit_vertex_end_def
        split: option.splits prod.splits if_splits)
  show ?thesis
  proof (cases rt)
    case None
    then show ?thesis using turn h act sub by (auto simp: collect_turn_def Let_def split: option.splits)
  next
    case (Some t')
    then have "vt_VertexID t' = vt_VertexID ?t" using handle_retry h by fastforce
    moreover have "p = drop_nth ?i pending @ [t']" "e' = e1"
      using turn h Some by (simp_all add: collect_turn_def Let_def)
    ultimately show ?thesis using act sub t by simp
  qed
qed

lemma turn_entries_case:
  assumes "pending \<noteq> []" and "vt_VertexID ` set pending \<subseteq> D \<and> dom (en_Active e) = D"
  shows "case collect_turn arrival step pending errs e of
    (p, er, e') \<Rightarrow> vt_VertexID ` set p \<subseteq> D \<and> dom (en_Active e') = D"
  by (cases "collect_turn arrival step pending errs e") (use turn_entries assms in simp)

lemma superstep_entries:
  assumes "executeSuperstep ids arrive dl step e = (r, e')"
  shows "dom (en_Active e') = dom (en_Active e)"
proof (cases "getActiveVertices ids e = []")
  case True
  with assms show ?thesis by (simp add: executeSuperstep_def)
next
  case False
  let ?D = "dom (en_Active e)"
  obtain ts e1 where sch: "scheduleVertexTasks step (getActiveVertices ids e) e = (ts, e1)" by fastforce
  then have col: "collect arrive dl step 0 ts [] e1 = (r, e')"
    using assms False by (simp add: executeSuperstep_def Let_def)
  have "vt_VertexID ` set ts \<subseteq> ?D \<and> dom (en_Active e1) = ?D"
    using schedule_keeps [OF sch] by (auto simp: vertex_task_def getActiveVertices_def)
  then show ?thesis
    by (rule collect_invariant [OF col, of "\<lambda>p _ e'. vt_VertexID ` set p \<subseteq> ?D \<and> dom (en_Active e') = ?D"])
      (rule turn_entries_case, assumption+, erule conjunct2)
qed

definition some_active :: "Engine \<Rightarrow> bool" where
  "some_active e \<longleftrightarrow> (\<exists>v. en_Active e v = Some True)"

lemma runStep_halts:
  assumes run: "runStep ch step e = (None, e')" and order: "set (so_ids ch) = dom (en_Active e)"
    and on: "\<not> en_Halted e"
  shows "dom (en_Active e') = dom (en_Active e) \<and> (en_Halted e' \<longleftrightarrow> \<not> some_active e')"
proof -
  let ?c = "e\<lparr>en_Checkpoints := put_checkpoint (so_keys ch) step (en_States e) (en_Checkpoints e)\<rparr>"
  let ?s = "emitEvent ''superstep_start'' [] step (active_count (so_ids ch) ?c) ?c"
  obtain q e3 where x: "executeSuperstep (so_ids ch) (so_arrive ch) (so_deadline ch) step ?s = (q, e3)"
    by fastforce
  have d: "dom (en_Active e3) = dom (en_Active e)" using superstep_entries [OF x] by simp
  have h: "\<not> en_Halted e3" using executeSuperstep_keeps [OF x] on by simp
  have "hasActiveVertices (so_ids ch) e3 \<longleftrightarrow> (\<exists>v\<in>dom (en_Active e3). en_Active e3 v = Some True)"
    using order d by (simp add: hasActiveVertices_def list_ex_iff)
  then have "hasActiveVertices (so_ids ch) e3 \<longleftrightarrow> some_active e3"
    unfolding some_active_def by blast
  then have "en_Active e' = en_Active e3" "en_Halted e' \<longleftrightarrow> \<not> some_active e3"
    using run x h by (cases q, auto simp: runStep_def Let_def split: if_splits)+
  then show ?thesis using d by (simp add: some_active_def)
qed

text \<open>
  Completed supersteps \<open>step\<close> to \<open>k - 1\<close>, each but the first from a state with an active vertex.
\<close>

inductive supersteps :: "(int \<Rightarrow> StepChoices) \<Rightarrow> int \<Rightarrow> Engine \<Rightarrow> int \<Rightarrow> Engine \<Rightarrow> bool"
  for choices step e where
  no_superstep: "supersteps choices step e step e"
| next_superstep: "supersteps choices step e k e1 \<Longrightarrow> k = step \<or> some_active e1 \<Longrightarrow>
     runStep (choices k) k e1 = (None, e2) \<Longrightarrow> supersteps choices step e (k + 1) e2"

lemma supersteps_le: "supersteps choices step e k e' \<Longrightarrow> step \<le> k \<and> (k = step \<longrightarrow> e' = e)"
  by (induction rule: supersteps.induct) auto

lemma supersteps_before:
  assumes "supersteps choices (step + 1) e1 k e'" and "runStep (choices step) step e = (None, e1)"
    and "some_active e1"
  shows "supersteps choices step e k e'"
  using assms(1)
proof (induction rule: supersteps.induct)
  case no_superstep
  from supersteps.no_superstep [of choices step e] show ?case
    by (rule supersteps.next_superstep) (simp_all add: assms(2))
next
  case (next_superstep k e2 e3)
  have "some_active e2"
  proof (cases "k = step + 1")
    case True
    with supersteps_le [OF next_superstep.hyps(1)] assms(3) show ?thesis by simp
  next
    case False
    with next_superstep.hyps(2) show ?thesis by simp
  qed
  with next_superstep.IH next_superstep.hyps(3) show ?case by (intro supersteps.next_superstep) auto
qed

lemma run_steps_supersteps:
  assumes "run_steps choices step e = (None, e')" and "step < ec_MaxSupersteps (en_Config e)"
    and "\<not> en_Halted e" and "\<And>s. set (so_ids (choices s)) = dom (en_Active e)"
  shows "\<exists>k. supersteps choices step e k e' \<and> step < k \<and> k \<le> ec_MaxSupersteps (en_Config e)
    \<and> int (step_ends e') = int (step_ends e) + (k - step)
    \<and> (en_Halted e' \<longleftrightarrow> \<not> some_active e') \<and> (some_active e' \<longrightarrow> k = ec_MaxSupersteps (en_Config e))"
  using assms
proof (induction choices step e rule: run_steps.induct)
  case (1 choices step e)
  have go: "step < ec_MaxSupersteps (en_Config e) \<and> \<not> en_Halted e" using "1.prems" by simp
  obtain e1 where s: "runStep (choices step) step e = (None, e1)"
    and rest: "run_steps choices (step + 1) e1 = (None, e')"
    using "1.prems"(1) go by (subst (asm) run_steps.simps) (auto split: prod.splits option.splits)
  note h = runStep_halts [OF s "1.prems"(4) "1.prems"(3)] runStep_config [OF s] runStep_ends [OF s]
  have first: "supersteps choices step e (step + 1) e1"
    by (rule next_superstep [OF no_superstep]) (use s in auto)
  show ?case
  proof (cases "step + 1 < ec_MaxSupersteps (en_Config e1) \<and> \<not> en_Halted e1")
    case False
    then have "e' = e1" using rest by (subst (asm) run_steps.simps) auto
    then show ?thesis using first h go False by (intro exI [of _ "step + 1"]) auto
  next
    case True
    then obtain k where k: "supersteps choices (step + 1) e1 k e'" "step + 1 < k"
        "k \<le> ec_MaxSupersteps (en_Config e1)" "int (step_ends e') = int (step_ends e1) + (k - (step + 1))"
        "en_Halted e' \<longleftrightarrow> \<not> some_active e'" "some_active e' \<longrightarrow> k = ec_MaxSupersteps (en_Config e1)"
      using "1.IH" [OF go s [symmetric] refl rest] h "1.prems"(4) by auto
    have "supersteps choices step e k e'"
      by (rule supersteps_before [OF k(1) s]) (use True h in simp)
    with k h show ?thesis by (intro exI [of _ k]) auto
  qed
qed

text \<open>
  C20: the run ends. \<^verbatim>\<open>Run\<close>'s loop is total for every scheduling. When it is entered with
  supersteps left and returns without an error, it has completed the supersteps from the first up to
  some number, at most the configured one, each but the first from a state with an active vertex;
  the engine is halted exactly if no vertex is active at the end, and if a vertex still is active,
  exactly the configured number of supersteps was completed.
\<close>

theorem run_steps_end:
  assumes "run_steps choices step e = (None, e')" and "step < ec_MaxSupersteps (en_Config e)"
    and "\<not> en_Halted e" and "\<And>s. map_order (en_Active e) (so_ids (choices s))"
  shows "\<exists>k. supersteps choices step e k e' \<and> step < k \<and> k \<le> ec_MaxSupersteps (en_Config e)
    \<and> int (step_ends e') = int (step_ends e) + (k - step)
    \<and> (en_Halted e' \<longleftrightarrow> \<not> some_active e') \<and> (some_active e' \<longrightarrow> k = ec_MaxSupersteps (en_Config e))"
  by (rule run_steps_supersteps [OF assms(1-3)]) (use assms(4) in \<open>simp add: map_order_def\<close>)

text \<open>A program that halts in the first of three supersteps: the run ends there.\<close>

theorem run_steps_end_witness:
  "\<exists>e'. run_steps (\<lambda>_. sample_choices) 0 (sample_engine counting_program) = (None, e')
     \<and> en_Halted e' \<and> int (step_ends e') \<le> int (step_ends (sample_engine counting_program)) + 3"
proof -
  let ?e = "sample_engine counting_program"
  let ?e1 = "?e\<lparr>en_Checkpoints := put_checkpoint (so_keys sample_choices) 0 (en_States ?e) (en_Checkpoints ?e)\<rparr>"
  let ?e2 = "emitEvent ''superstep_start'' [] 0 (active_count (so_ids sample_choices) ?e1) ?e1"
  have max: "ec_MaxSupersteps (en_Config ?e) = 3" "\<not> en_Halted ?e"
    by (simp_all add: sample_engine_def NewEngine_def sample_config_def Let_def)
  obtain r e3 where x: "executeSuperstep (so_ids sample_choices) (so_arrive sample_choices)
      (so_deadline sample_choices) 0 ?e2 = (r, e3)" by fastforce
  have same: "bsp_result ?e2 ''a'' = bsp_result ?e ''a''"
    by (simp add: bsp_result_def vertex_task_def program_of_def state_of_def)
  have act: "en_Active ?e2 = [''a'' \<mapsto> True]" by (simp add: sample_engine_simps)
  have bsp: "(r = None \<longleftrightarrow> vr_Error (bsp_result ?e2 ''a'') = None)
      \<and> (r = None \<longrightarrow> en_Active e3 = bsp_active {''a''} ?e2)"
    using superstep_bsp [of ?e2 "[''a'']" "\<lambda>_. 0" 0 r e3] x
    by (simp add: sample_choices_def map_order_def sample_engine_simps no_retries_def retry_of_def)
  have ok: "vr_Error (bsp_result ?e ''a'') = None" "vr_Halt (bsp_result ?e ''a'')"
    by (simp_all add: sample_result counting_program_def SimpleCounter_Compute_def Let_def counter_count_def)
  then have r: "r = None" using bsp same by simp
  then have "en_Active e3 ''a'' = Some False" using bsp ok same by (simp add: bsp_active_def)
  then obtain e4 where step: "runStep sample_choices 0 ?e = (None, e4)" and "en_Halted e4"
    using x r by (auto simp: runStep_def Let_def hasActiveVertices_def sample_choices_def)
  then have run: "run_steps (\<lambda>_. sample_choices) 0 ?e = (None, e4)"
    by (subst run_steps.simps) (simp add: max run_steps.simps [of _ 1])
  have order: "map_order (en_Active ?e) (so_ids sample_choices)"
    by (simp add: sample_choices_def engine_sample_order)
  have "0 < ec_MaxSupersteps (en_Config ?e)" using max by simp
  from run_steps_end [OF run this max(2) order] run \<open>en_Halted e4\<close> max show ?thesis by auto
qed

end
