(* ===== verification/EngineShortestPath.thy ===== *)
theory EngineShortestPath
  imports EngineProps
begin

section \<open>Shortest paths on the engine\<close>

text \<open>
  The shipped shortest-path program on the shipped engine, end to end: no information leaves a
  vertex, because the aggregator is cleared between supersteps.
\<close>

subsection \<open>Retry counters stay non-negative\<close>

definition retries_nonneg :: "Engine \<Rightarrow> bool" where
  "retries_nonneg e \<longleftrightarrow> (\<forall>v. 0 \<le> retry_of e v)"

lemma turn_retries:
  assumes "collect_turn arrival step pending errs e = (p, er, e')" and "retries_nonneg e"
  shows "retries_nonneg e'"
proof -
  let ?t = "pending ! (arrival mod length pending)"
  obtain rt herr e1 where h: "handleVertexResult (executeTask ?t) step (task_ran ?t e) = (rt, herr, e1)"
    by (metis prod_cases3)
  have "e' = e1" using assms(1) h by (auto simp: collect_turn_def Let_def split: option.splits)
  moreover have "retry_of e1 v = retry_of e v \<or> retry_of e1 v = retry_of e v + 1 \<or> retry_of e1 v = 0" for v
    using h by (auto simp: handleVertexResult_def Let_def emit_vertex_end_def retry_of_def
        split: option.splits prod.splits if_splits)
  ultimately show ?thesis using assms(2) unfolding retries_nonneg_def by (metis add_nonneg_nonneg order_refl zero_le_one)
qed

lemma superstep_retries:
  assumes "executeSuperstep ids arrive dl step e = (r, e')" and "retries_nonneg e"
  shows "retries_nonneg e'"
proof (cases "getActiveVertices ids e = []")
  case True
  with assms show ?thesis by (simp add: executeSuperstep_def)
next
  case False
  obtain ts e1 where sch: "scheduleVertexTasks step (getActiveVertices ids e) e = (ts, e1)" by fastforce
  then have col: "collect arrive dl step 0 ts [] e1 = (r, e')"
    using assms False by (simp add: executeSuperstep_def Let_def)
  have "retries_nonneg e1" using schedule_keeps [OF sch] assms(2) by (simp add: retries_nonneg_def retry_of_def)
  then show ?thesis
    by (rule collect_invariant [OF col, of "\<lambda>_ _. retries_nonneg"]) (auto dest: turn_retries split: prod.splits)
qed

subsection \<open>The program on the engine\<close>

text \<open>The order of the loop over the edges may differ from call to call: \<open>ord n vid\<close>.\<close>

definition sp_vertices ::
  "string \<Rightarrow> (nat \<Rightarrow> string \<Rightarrow> string list) \<Rightarrow> string list \<Rightarrow> (string \<rightharpoonup> vprog)" where
  "sp_vertices src ord vids = (\<lambda>v. if v \<in> set vids
     then Some (\<lambda>n vid s ms. ShortestPath_Compute src (ord n vid) vid s ms) else None)"

lemma ShortestPath_silent:
  "vid \<noteq> src \<Longrightarrow> getCurrentDistance (cr_State (ShortestPath_Compute src ns vid s [])) = getCurrentDistance s"
  by (simp add: ShortestPath_Compute_def Let_def getCurrentDistance_def [of "_(''changed'' \<mapsto> _)"])

lemma ShortestPath_no_error: "cr_Error (ShortestPath_Compute src ns vid s ms) = None"
  by (simp add: ShortestPath_Compute_def Let_def)

definition sp_inv ::
  "string \<Rightarrow> (nat \<Rightarrow> string \<Rightarrow> string list) \<Rightarrow> string list \<Rightarrow> (string \<Rightarrow> f64) \<Rightarrow> Engine \<Rightarrow> bool" where
  "sp_inv src ord vids d e \<longleftrightarrow> en_Vertices e = sp_vertices src ord vids \<and> dom (en_Active e) = set vids
     \<and> boxes_empty e \<and> retries_nonneg e \<and> (\<forall>v. v \<noteq> src \<longrightarrow> getCurrentDistance (state_of e v) = d v)"

lemma sp_superstep:
  assumes inv: "sp_inv src ord vids d e" and ids: "distinct ids" "set ids = set vids"
    and run: "executeSuperstep ids arrive None step e = (r, e')"
  shows "r = None \<and> en_Vertices e' = sp_vertices src ord vids \<and> dom (en_Active e') = set vids
    \<and> retries_nonneg e' \<and> (\<forall>v. v \<noteq> src \<longrightarrow> getCurrentDistance (state_of e' v) = d v)"
proof -
  let ?act = "{v. en_Active e v = Some True}"
  have act: "?act \<subseteq> set vids" using inv by (auto simp: sp_inv_def)
  have result: "vr_Error (bsp_result e v) = None"
      "v \<noteq> src \<Longrightarrow> getCurrentDistance (vr_State (bsp_result e v)) = getCurrentDistance (state_of e v)"
    if "v \<in> set vids" for v
    using inv that ShortestPath_silent
    by (simp_all add: sp_inv_def boxes_empty_def bsp_result_def executeTask_def vertex_task_def
        program_of_def sp_vertices_def Let_def ShortestPath_no_error GetMessages_empty)
  have order: "map_order (en_Active e) ids" using inv ids by (simp add: map_order_def sp_inv_def)
  have "no_retries ?act e" using result(1) act by (auto simp: no_retries_def)
  note bsp = superstep_bsp [OF order _ this run]
  have r: "r = None" and states: "en_States e' = bsp_states ?act e" and active: "en_Active e' = bsp_active ?act e"
    using bsp result(1) act inv by (auto simp: sp_inv_def retries_nonneg_def)
  have "dom (en_Active e') = set vids"
    using active act inv by (auto simp: bsp_active_def sp_inv_def dom_def split: if_splits)
  moreover have "getCurrentDistance (state_of e' v) = d v" if "v \<noteq> src" for v
  proof (cases "v \<in> ?act")
    case True
    then have "getCurrentDistance (state_of e' v) = getCurrentDistance (vr_State (bsp_result e v))"
      by (simp add: state_of_def [of e'] states bsp_states_def)
    with True act that result(2) [of v] inv show ?thesis by (auto simp: sp_inv_def)
  next
    case False
    then have "state_of e' v = state_of e v" by (simp add: state_of_def states bsp_states_def)
    with that inv show ?thesis by (simp add: sp_inv_def)
  qed
  ultimately show ?thesis
    using r inv superstep_retries [OF run] executeSuperstep_keeps [OF run] by (simp add: sp_inv_def)
qed

lemma sp_step:
  assumes inv: "sp_inv src ord vids d e" and dl: "so_deadline ch = None"
    and ids: "distinct (so_ids ch)" "set (so_ids ch) = set vids" and run: "runStep ch step e = (r, e')"
  shows "r = None \<and> sp_inv src ord vids d e'"
proof -
  let ?c = "e\<lparr>en_Checkpoints := put_checkpoint (so_keys ch) step (en_States e) (en_Checkpoints e)\<rparr>"
  let ?s = "emitEvent ''superstep_start'' [] step (active_count (so_ids ch) ?c) ?c"
  obtain q e3 where x: "executeSuperstep (so_ids ch) (so_arrive ch) None step ?s = (q, e3)"
    by fastforce
  have "sp_inv src ord vids d ?s"
    using inv by (simp add: sp_inv_def boxes_empty_def retries_nonneg_def retry_of_def state_of_def)
  note step = sp_superstep [OF this ids x]
  then have "r = None" and same: "en_Vertices e' = en_Vertices e3" "en_Active e' = en_Active e3"
      "en_States e' = en_States e3" "en_Retry e' = en_Retry e3" "en_Agg e' = ClearMessages (en_Agg e3)"
    using run x dl by (auto simp: runStep_def Let_def)
  then show ?thesis
    using step by (simp add: sp_inv_def boxes_empty_def agg.box_wipe retries_nonneg_def
        retry_of_def state_of_def)
qed

definition sp_choices :: "string list \<Rightarrow> (int \<Rightarrow> StepChoices) \<Rightarrow> bool" where
  "sp_choices vids choices \<longleftrightarrow> (\<forall>s. so_deadline (choices s) = None \<and> distinct (so_ids (choices s))
     \<and> set (so_ids (choices s)) = set vids)"

lemma sp_run:
  "sp_choices vids choices \<Longrightarrow> sp_inv src ord vids d e \<Longrightarrow> run_steps choices step e = (r, e') \<Longrightarrow>
    r = None \<and> sp_inv src ord vids d e'"
proof (induction choices step e rule: run_steps.induct)
  case (1 choices step e)
  show ?case
  proof (cases "step < ec_MaxSupersteps (en_Config e) \<and> \<not> en_Halted e")
    case False
    with "1.prems" show ?thesis by (subst (asm) run_steps.simps) auto
  next
    case True
    obtain q e1 where s: "runStep (choices step) step e = (q, e1)" by fastforce
    have "q = None \<and> sp_inv src ord vids d e1"
      by (rule sp_step [OF "1.prems"(2) _ _ _ s]) (use "1.prems"(1) in \<open>auto simp: sp_choices_def\<close>)
    moreover from this have "run_steps choices (step + 1) e1 = (r, e')"
      using "1.prems"(3) True s by (subst (asm) run_steps.simps) simp
    ultimately show ?thesis using "1.IH" [OF True s [symmetric] _ "1.prems"(1)] by auto
  qed
qed

lemma init_active: "fold (\<lambda>vid a. a(vid \<mapsto> True)) vids m v = (if v \<in> set vids then Some True else m v)"
  by (induction vids arbitrary: m) auto

text \<open>
  distributed shortest paths do not work. A run of a new engine over shortest-path vertices, with
  whatever edges and initial states, scheduling and number of supersteps, returns without an error
  and leaves every vertex but the source at the distance it started with.
\<close>

theorem shortest_path_run_stuck:
  assumes "distinct vids" and "sp_choices vids choices" and "v \<noteq> src"
  shows "case Run vids choices (NewEngine cpus clock (sp_vertices src ord vids) init config) of
    (r, e) \<Rightarrow> r = None \<and> getCurrentDistance (state_of e v)
      = getCurrentDistance (case init v of Some s \<Rightarrow> s | None \<Rightarrow> Map.empty)"
proof -
  let ?d = "\<lambda>v. getCurrentDistance (case init v of Some s \<Rightarrow> s | None \<Rightarrow> Map.empty)"
  let ?i = "initActiveVertices vids (startStreamingIfEnabled (NewEngine cpus clock (sp_vertices src ord vids) init config))"
  let ?e = "emitEvent ''execution_start'' [] 0 [''total_vertices'' \<mapsto> VInt (of_nat (length vids))] ?i"
  obtain r e where run: "run_steps choices 0 ?e = (r, e)" by fastforce
  have "sp_inv src ord vids ?d ?i"
    by (auto simp: sp_inv_def initActiveVertices_def startStreamingIfEnabled_def NewEngine_def Let_def
        init_active boxes_empty_def NewMessageAggregator_def vertex_messages_def retries_nonneg_def
        retry_of_def state_of_def dom_def)
  then have "sp_inv src ord vids ?d ?e"
    by (simp add: sp_inv_def boxes_empty_def retries_nonneg_def)
  from sp_run [OF assms(2) this run] run assms(3) show ?thesis
    by (simp add: Run_def Let_def sp_inv_def)
qed

theorem shortest_path_run_stuck_witness:
  "getCurrentDistance (state_of (snd (Run [''a'', ''b'']
      (\<lambda>_. \<lparr>so_ids = [''a'', ''b''], so_arrive = (\<lambda>_. 0), so_deadline = None, so_keys = []\<rparr>)
      (NewEngine 1 (\<lambda>_. 0) (sp_vertices ''a'' (\<lambda>_ _. [''b'']) [''a'', ''b''])
         [''a'' \<mapsto> [''edges'' \<mapsto> VFloatMap [''b'' \<mapsto> f_one]], ''b'' \<mapsto> Map.empty] (sample_config 0)))) ''b'')
    = f_million"
proof -
  let ?ch = "\<lambda>_ :: int. \<lparr>so_ids = [''a'', ''b''], so_arrive = (\<lambda>_. 0), so_deadline = None, so_keys = []\<rparr>"
  have "sp_choices [''a'', ''b''] ?ch" by (simp add: sp_choices_def)
  from shortest_path_run_stuck [OF _ this, where v = "''b''" and src = "''a''" and cpus = 1 and clock = "\<lambda>_. 0"
      and ord = "\<lambda>_ _. [''b'']" and config = "sample_config 0"
      and init = "[''a'' \<mapsto> [''edges'' \<mapsto> VFloatMap [''b'' \<mapsto> f_one]], ''b'' \<mapsto> Map.empty]"]
  show ?thesis by (auto simp: getCurrentDistance_def [of Map.empty] split: prod.splits)
qed

end
