(* ===== verification/CacheEngine.thy ===== *)
theory CacheEngine
  imports EngineProps
begin

section \<open>The cache-optimised engine (internal/core/pregel/cache_optimizer.go)\<close>

text \<open>
  The engine that groups vertices into blocks per partition and applies results in batches. The
  orders of its loops over maps are arguments: of the vertices when they are partitioned, of the
  partitions when tasks are scheduled and when a batch is applied (a permutation of all partition
  numbers; a number without an entry in the ranged-over map is skipped).
\<close>

subsection \<open>Partitions\<close>

record VertexBlock =
  vb_vertices :: "string list"
  vb_states :: "gstate list"
  vb_adjacency :: "string \<rightharpoonup> string list"

definition new_block :: VertexBlock where
  "new_block = \<lparr>vb_vertices = [], vb_states = [], vb_adjacency = Map.empty\<rparr>"

definition add_block :: "nat \<Rightarrow> VertexBlock list list \<Rightarrow> VertexBlock list list" where
  "add_block p parts = parts[p := parts ! p @ [new_block]]"

definition add_to_last :: "string \<Rightarrow> VertexBlock list \<Rightarrow> VertexBlock list" where
  "add_to_last vid blocks = butlast blocks @ [(last blocks)\<lparr>vb_vertices := vb_vertices (last blocks) @ [vid]\<rparr>]"

definition block_size :: nat where "block_size = 8"

definition place_vertex :: "nat \<Rightarrow> nat \<Rightarrow> string \<Rightarrow> VertexBlock list list \<Rightarrow> VertexBlock list list" where
  "place_vertex n i vid parts =
     (let p = i mod n;
          parts1 = (if i mod block_size = 0 \<and> 0 < i then add_block p parts else parts);
          parts2 = (if parts1 ! p = [] then add_block p parts1 else parts1)
      in parts2[p := add_to_last vid (parts2 ! p)])"

fun partition_loop :: "nat \<Rightarrow> nat \<Rightarrow> string list \<Rightarrow> VertexBlock list list \<Rightarrow> VertexBlock list list" where
  "partition_loop n i [] parts = parts"
| "partition_loop n i (vid # vids) parts = partition_loop n (Suc i) vids (place_vertex n i vid parts)"

definition partitionVertices :: "string list \<Rightarrow> int \<Rightarrow> VertexBlock list list" where
  "partitionVertices vertexList numPartitions =
     (let n = nat (if numPartitions \<le> 0 then 1 else numPartitions)
      in partition_loop n 0 vertexList (replicate n []))"

definition part_vertices :: "VertexBlock list \<Rightarrow> string list" where
  "part_vertices blocks = concat (map vb_vertices blocks)"

fun find_partition :: "string \<Rightarrow> nat \<Rightarrow> VertexBlock list list \<Rightarrow> nat" where
  "find_partition vid i [] = 0"
| "find_partition vid i (blocks # parts) =
     (if list_ex (\<lambda>block. list_ex (\<lambda>v. v = vid) (vb_vertices block)) blocks then i
      else find_partition vid (Suc i) parts)"

definition getVertexPartition :: "string \<Rightarrow> VertexBlock list list \<Rightarrow> nat" where
  "getVertexPartition vid parts = find_partition vid 0 parts"

subsection \<open>The engine\<close>

record CacheOptimizedEngine =
  co_base :: Engine
  co_partitions :: "VertexBlock list list"
  co_buffers :: "PMessage list list"
  co_cacheLineSize :: nat

definition NewCacheOptimizedEngine ::
  "string list \<Rightarrow> int \<Rightarrow> (nat \<Rightarrow> int) \<Rightarrow> (string \<rightharpoonup> vprog) \<Rightarrow> vstates \<Rightarrow> EngineConfig \<Rightarrow> CacheOptimizedEngine" where
  "NewCacheOptimizedEngine vids numCPU clock vertices initialStates config =
     \<lparr>co_base = NewEngine numCPU clock vertices initialStates config,
      co_partitions = partitionVertices vids numCPU,
      co_buffers = replicate (nat numCPU) [], co_cacheLineSize = 64\<rparr>"

text \<open>Applying one partition's results: the first error ends it, what came before stays applied.\<close>

fun apply_updates :: "VertexResult list \<Rightarrow> Engine \<Rightarrow> string option \<times> Engine" where
  "apply_updates [] e = (None, e)"
| "apply_updates (r # rs) e =
     (case vr_Error r of
        Some err \<Rightarrow> (Some err, e)
      | None \<Rightarrow> apply_updates rs
          (e\<lparr>en_States := (en_States e)(vr_VertexID r \<mapsto> vr_State r),
             en_Active := (en_Active e)(vr_VertexID r \<mapsto> \<not> vr_Halt r)\<rparr>))"

fun apply_partitions ::
  "nat list \<Rightarrow> VertexBlock list list \<Rightarrow> VertexResult list \<Rightarrow> Engine \<Rightarrow> string option \<times> Engine" where
  "apply_partitions [] parts batch e = (None, e)"
| "apply_partitions (p # ps) parts batch e =
     (case apply_updates (filter (\<lambda>r. getVertexPartition (vr_VertexID r) parts = p) batch) e of
        (Some err, e') \<Rightarrow> (Some err, e')
      | (None, e') \<Rightarrow> apply_partitions ps parts batch e')"

definition processBatchOptimized ::
  "nat list \<Rightarrow> VertexBlock list list \<Rightarrow> VertexResult list \<Rightarrow> Engine \<Rightarrow> string option \<times> Engine" where
  "processBatchOptimized porder parts batch e = apply_partitions porder parts batch e"

definition batch_size :: nat where "batch_size = 32"

text \<open>
  The collecting loop: all results have been collected when no task is pending. The third argument
  gives the order of the loop over the partitions of the \<open>k\<close>-th batch.
\<close>

function collectResultsOptimized ::
  "(nat \<Rightarrow> nat) \<Rightarrow> (nat \<times> string) option \<Rightarrow> (nat \<Rightarrow> nat list) \<Rightarrow> VertexBlock list list \<Rightarrow> nat
   \<Rightarrow> VertexTask list \<Rightarrow> VertexResult list \<Rightarrow> Engine \<Rightarrow> string option \<times> Engine" where
  "collectResultsOptimized arrive deadline porder parts k pending batch e =
     (if pending = [] then (None, e)
      else if map_option fst deadline = Some k then (Some (snd (the deadline)), e)
      else let i = arrive k mod length pending; t = pending ! i;
               batch' = batch @ [executeTask t]; pending' = drop_nth i pending; e1 = task_ran t e
        in if length batch' \<ge> batch_size \<or> pending' = [] then
             (case processBatchOptimized (porder k) parts batch' e1 of
                (Some err, e2) \<Rightarrow> (Some err, e2)
              | (None, e2) \<Rightarrow> collectResultsOptimized arrive deadline porder parts (Suc k) pending' [] e2)
           else collectResultsOptimized arrive deadline porder parts (Suc k) pending' batch' e1)"
  by pat_completeness auto
termination
  by (relation "measure (\<lambda>(a, d, o1, ps, k, pending, b, e). length pending)") auto

declare collectResultsOptimized.simps [simp del]

record CacheChoices =
  cc_ids :: "string list"
  cc_sched :: "nat list"
  cc_arrive :: "nat \<Rightarrow> nat"
  cc_deadline :: "(nat \<times> string) option"
  cc_batches :: "nat \<Rightarrow> nat list"
  cc_keys :: "string list"

definition group_active :: "nat list \<Rightarrow> VertexBlock list list \<Rightarrow> string list \<Rightarrow> string list" where
  "group_active porder parts active =
     concat (map (\<lambda>p. filter (\<lambda>v. getVertexPartition v parts = p) active) porder)"

definition executeSuperstepOptimized ::
  "CacheChoices \<Rightarrow> int \<Rightarrow> CacheOptimizedEngine \<Rightarrow> string option \<times> CacheOptimizedEngine" where
  "executeSuperstepOptimized ch step coe =
     (let e = co_base coe; active = getActiveVertices (cc_ids ch) e in
      if active = [] then (None, coe)
      else case scheduleVertexTasks step (group_active (cc_sched ch) (co_partitions coe) active) e of
             (tasks, e1) \<Rightarrow>
               (case collectResultsOptimized (cc_arrive ch) (cc_deadline ch) (cc_batches ch)
                       (co_partitions coe) 0 tasks [] e1 of
                  (r, e2) \<Rightarrow> (r, coe\<lparr>co_base := e2\<rparr>)))"

definition runOptimizedStep ::
  "CacheChoices \<Rightarrow> int \<Rightarrow> CacheOptimizedEngine \<Rightarrow> string option \<times> CacheOptimizedEngine" where
  "runOptimizedStep ch step coe =
     (let e = co_base coe;
          e1 = e\<lparr>en_Checkpoints := put_checkpoint (cc_keys ch) step (en_States e) (en_Checkpoints e)\<rparr>;
          e2 = emitEvent ''superstep_start'' [] step (active_count (cc_ids ch) e1) e1
      in case executeSuperstepOptimized ch step (coe\<lparr>co_base := e2\<rparr>) of
           (Some err, coe3) \<Rightarrow>
             (Some err,
              (case get_checkpoint step (en_Checkpoints (co_base coe3)) of
                 Some recovered \<Rightarrow> coe3\<lparr>co_base :=
                   emitEvent ''checkpoint_recovery'' [] step [''error'' \<mapsto> VStr err]
                     ((co_base coe3)\<lparr>en_States := recovered\<rparr>)\<rparr>
               | None \<Rightarrow> coe3))
         | (None, coe3) \<Rightarrow>
             (let e3 = co_base coe3;
                  e4 = emitEvent ''superstep_end'' [] step (active_count (cc_ids ch) e3) e3;
                  e5 = (if hasActiveVertices (cc_ids ch) e4 then e4 else e4\<lparr>en_Halted := True\<rparr>)
              in (None, coe3\<lparr>co_base := e5\<lparr>en_Agg := ClearMessages (en_Agg e5)\<rparr>\<rparr>)))"

text \<open>
  The local buffers, which \<^verbatim>\<open>processPartition\<close> (called by nobody) would use: a vertex reads
  the messages buffered for it in the same superstep, before those of the aggregator.
\<close>

definition getMessagesLocal :: "string \<Rightarrow> PMessage list \<Rightarrow> MessageAggregator \<Rightarrow> PMessage list" where
  "getMessagesLocal vertexID buffer ma =
     (let local = filter (\<lambda>m. pm_To m = vertexID) buffer; global = GetMessages vertexID ma
      in if local \<noteq> [] then local @ global else global)"

definition flushMessageBuffer ::
  "PMessage list \<Rightarrow> MessageAggregator \<Rightarrow> PMessage list \<times> MessageAggregator" where
  "flushMessageBuffer buffer ma = ([], fold AddMessage buffer ma)"

definition process_vertex ::
  "string \<Rightarrow> Engine \<times> PMessage list \<times> VertexResult list \<Rightarrow> Engine \<times> PMessage list \<times> VertexResult list" where
  "process_vertex vid st =
     (case st of (e, buffer, results) \<Rightarrow>
        let r = program_of e vid (en_Calls e vid) vid (state_of e vid) (getMessagesLocal vid buffer (en_Agg e))
        in (e\<lparr>en_Calls := (en_Calls e)(vid := Suc (en_Calls e vid)),
              en_States := (if en_States e vid = None then en_States e
                            else (en_States e)(vid \<mapsto> cr_Arg r))\<rparr>,
            buffer @ cr_Messages r,
            results @ [\<lparr>vr_VertexID = vid, vr_State = cr_State r, vr_Messages = cr_Messages r,
                        vr_Halt = cr_Halt r, vr_Error = cr_Error r\<rparr>]))"

definition processPartition ::
  "VertexBlock list \<Rightarrow> PMessage list \<Rightarrow> Engine \<Rightarrow> VertexResult list \<times> PMessage list \<times> Engine" where
  "processPartition blocks buffer e =
     (case fold process_vertex (part_vertices blocks) (e, buffer, []) of
        (e1, buffer1, results) \<Rightarrow>
          (case flushMessageBuffer buffer1 (en_Agg e1) of
             (buffer2, agg) \<Rightarrow> (results, buffer2, e1\<lparr>en_Agg := agg\<rparr>)))"

record OptimizationStats =
  os_CacheLineSize :: nat
  os_NumPartitions :: nat
  os_VerticesPerBlock :: nat
  os_MessageBuffers :: nat
  os_EstimatedMisses :: int

definition GetOptimizationStats :: "CacheOptimizedEngine \<Rightarrow> OptimizationStats" where
  "GetOptimizationStats coe =
     (let blocks = concat (co_partitions coe);
          total = length blocks;
          vs = sum_list (map (\<lambda>b. length (vb_vertices b)) blocks)
      in \<lparr>os_CacheLineSize = co_cacheLineSize coe, os_NumPartitions = length (co_partitions coe),
          os_VerticesPerBlock = (if total > 0 then vs div total else vs),
          os_MessageBuffers = length (co_buffers coe), os_EstimatedMisses = 0\<rparr>)"

subsection \<open>Partitions cover the vertices\<close>

lemma part_vertices_add: "blocks \<noteq> [] \<Longrightarrow> part_vertices (add_to_last vid blocks) = part_vertices blocks @ [vid]"
proof -
  assume ne: "blocks \<noteq> []"
  have "part_vertices blocks = part_vertices (butlast blocks) @ vb_vertices (last blocks)"
    by (subst append_butlast_last_id [OF ne, symmetric], simp only: part_vertices_def) simp
  then show ?thesis by (simp add: part_vertices_def add_to_last_def)
qed

lemma part_vertices_block [simp]: "part_vertices (bs @ [new_block]) = part_vertices bs"
  by (simp add: part_vertices_def new_block_def)

lemma part_vertices_new [simp]: "part_vertices [new_block] = []" "part_vertices [] = []"
  by (simp_all add: part_vertices_def new_block_def)

lemma length_place [simp]: "length (place_vertex n i vid parts) = length parts"
  by (simp add: place_vertex_def add_block_def Let_def)

lemma place_vertex_nth:
  assumes "0 < n" and "length parts = n" and "p < n"
  shows "part_vertices (place_vertex n i vid parts ! p)
    = (if p = i mod n then part_vertices (parts ! p) @ [vid] else part_vertices (parts ! p))"
proof -
  have "i mod n < n" using assms(1) by simp
  then show ?thesis
    using assms by (auto simp: place_vertex_def add_block_def Let_def nth_list_update part_vertices_add)
qed

lemma length_partition_loop [simp]: "length (partition_loop n i vids parts) = length parts"
  by (induction vids arbitrary: i parts) simp_all

text \<open>The vertices at the indices that leave the remainder \<open>p\<close>.\<close>

fun residue :: "nat \<Rightarrow> nat \<Rightarrow> nat \<Rightarrow> 'a list \<Rightarrow> 'a list" where
  "residue n p i [] = []"
| "residue n p i (v # vs) = (if i mod n = p then v # residue n p (Suc i) vs else residue n p (Suc i) vs)"

lemma set_residue: "x \<in> set (residue n p i vs) \<longleftrightarrow> (\<exists>j < length vs. vs ! j = x \<and> (i + j) mod n = p)"
proof (induction vs arbitrary: i)
  case (Cons v vs)
  have "(\<exists>j < length (v # vs). (v # vs) ! j = x \<and> (i + j) mod n = p) \<longleftrightarrow>
      (v = x \<and> i mod n = p) \<or> (\<exists>j < length vs. vs ! j = x \<and> (Suc i + j) mod n = p)"
    by (simp only: length_Cons Ex_less_Suc2) simp
  with Cons.IH [of "Suc i"] show ?case by auto
qed simp

lemma residue_subset: "set (residue n p i vs) \<subseteq> set vs"
  by (induction vs arbitrary: i) auto

lemma distinct_residue: "distinct vs \<Longrightarrow> distinct (residue n p i vs)"
  using residue_subset by (induction vs arbitrary: i) fastforce+

lemma partition_loop_nth:
  assumes "0 < n"
  shows "length parts = n \<Longrightarrow> p < n \<Longrightarrow> part_vertices (partition_loop n i vids parts ! p)
    = part_vertices (parts ! p) @ residue n p i vids"
proof (induction vids arbitrary: i parts)
  case (Cons v vs)
  then show ?case
    using place_vertex_nth [OF assms, of parts p i v] Cons.IH [of "place_vertex n i v parts" "Suc i"] by simp
qed simp

lemma find_partition_first:
  "p < length parts \<Longrightarrow> vid \<in> set (part_vertices (parts ! p)) \<Longrightarrow>
   (\<And>q. q < p \<Longrightarrow> vid \<notin> set (part_vertices (parts ! q))) \<Longrightarrow> find_partition vid i parts = i + p"
proof (induction parts arbitrary: i p)
  case (Cons part parts)
  have here: "list_ex (\<lambda>block. list_ex (\<lambda>v. v = vid) (vb_vertices block)) part \<longleftrightarrow> vid \<in> set (part_vertices part)"
    by (auto simp: list_ex_iff part_vertices_def)
  show ?case
  proof (cases p)
    case 0
    with Cons.prems here show ?thesis by simp
  next
    case (Suc q)
    with Cons.prems(3) [of 0] here have "\<not> list_ex (\<lambda>block. list_ex (\<lambda>v. v = vid) (vb_vertices block)) part"
      by simp
    moreover have "find_partition vid (Suc i) parts = Suc i + q"
      by (rule Cons.IH) (use Cons.prems Suc in force)+
    ultimately show ?thesis using Suc by simp
  qed
qed simp

text \<open>
  the partitioning is exact. Every vertex goes to exactly one block of one partition, the
  \<open>i\<close>-th vertex of the map's order to partition \<open>i\<close> modulo the number of partitions (1 when
  the number asked for is not positive), and \<^verbatim>\<open>getVertexPartition\<close> finds it there.
\<close>

theorem partition_exact:
  assumes "distinct vids" and "i < length vids"
  shows "let n = nat (if m \<le> 0 then 1 else m); parts = partitionVertices vids m
    in length parts = n \<and> getVertexPartition (vids ! i) parts = i mod n
     \<and> (\<forall>p < n. \<forall>j < length vids. vids ! j \<in> set (part_vertices (parts ! p)) \<longleftrightarrow> j mod n = p)
     \<and> (\<forall>p < n. distinct (part_vertices (parts ! p)) \<and> set (part_vertices (parts ! p)) \<subseteq> set vids)"
proof -
  define n where "n = nat (if m \<le> 0 then 1 else m)"
  let ?parts = "partitionVertices vids m"
  have n: "0 < n" by (simp add: n_def)
  have len: "length ?parts = n" by (simp add: partitionVertices_def Let_def n_def)
  have nth: "part_vertices (?parts ! p) = residue n p 0 vids" if "p < n" for p
    using partition_loop_nth [OF n, of "replicate n []" p 0 vids] that
    by (simp add: partitionVertices_def Let_def flip: n_def)
  have mem: "vids ! j \<in> set (part_vertices (?parts ! p)) \<longleftrightarrow> j mod n = p"
    if "p < n" "j < length vids" for p j
    using that assms(1) by (auto simp: nth set_residue nth_eq_iff_index_eq)
  have "find_partition (vids ! i) 0 ?parts = 0 + i mod n"
  proof (rule find_partition_first)
    show "vids ! i \<notin> set (part_vertices (?parts ! q))" if "q < i mod n" for q
      using mem [of q i] assms(2) that order.strict_trans [OF that mod_less_divisor [OF n]] by simp
  qed (use n len mem assms(2) in auto)
  moreover have "distinct (part_vertices (?parts ! p))" "set (part_vertices (?parts ! p)) \<subseteq> set vids"
    if "p < n" for p
    using that assms(1) by (simp_all add: nth distinct_residue residue_subset)
  ultimately show ?thesis
    using len mem unfolding n_def [symmetric] by (simp add: Let_def getVertexPartition_def)
qed

theorem partition_exact_witness:
  "getVertexPartition ''c'' (partitionVertices [''a'', ''b'', ''c''] 2) = 0"
  using partition_exact [of "[''a'', ''b'', ''c'']" 2 2] by (simp add: Let_def)

subsection \<open>Block sizes\<close>

definition at_most_one_block :: "VertexBlock list list \<Rightarrow> bool" where
  "at_most_one_block parts \<longleftrightarrow> length parts = 8 \<and> (\<forall>p. 0 < p \<and> p < 8 \<longrightarrow> length (parts ! p) \<le> 1)"

lemma place_one_block:
  "at_most_one_block parts \<Longrightarrow> at_most_one_block (place_vertex 8 i vid parts)"
proof -
  assume one: "at_most_one_block parts"
  have p: "i mod 8 < (8 :: nat)" by simp
  have l: "length (add_to_last vid bs) = length bs" if "bs \<noteq> []" for bs
    using that by (simp add: add_to_last_def)
  show ?thesis
  proof (cases "i mod 8 = 0")
    case True
    with one show ?thesis
      by (auto simp: at_most_one_block_def place_vertex_def add_block_def Let_def nth_list_update block_size_def)
  next
    case False
    with one p show ?thesis
      by (auto simp: at_most_one_block_def place_vertex_def add_block_def Let_def nth_list_update
          block_size_def l)
  qed
qed

lemma partition_one_block:
  "at_most_one_block parts \<Longrightarrow> at_most_one_block (partition_loop 8 i vids parts)"
  by (induction vids arbitrary: i parts) (auto intro: place_one_block)

text \<open>
  blocks are not limited to eight vertices. The test for a new block and the choice of the
  partition use the same index: with eight partitions every multiple of eight falls into partition
  0, and each other partition keeps all its vertices in one block, however many there are.
\<close>

theorem block_size_unbounded:
  assumes "0 < p" and "p < 8"
  shows "length (partitionVertices vids 8 ! p) \<le> 1"
  using partition_one_block [of "replicate 8 []" 0 vids] assms
  by (simp add: at_most_one_block_def partitionVertices_def)

theorem block_size_unbounded_witness:
  "length (partitionVertices (map (\<lambda>i. show_int (int i)) [0..<100]) 8 ! 1) \<le> 1"
  by (rule block_size_unbounded) simp_all

subsection \<open>Supersteps\<close>

lemma apply_updates_append:
  "apply_updates (xs @ ys) e = (case apply_updates xs e of
     (Some err, e') \<Rightarrow> (Some err, e') | (None, e') \<Rightarrow> apply_updates ys e')"
  by (induction xs arbitrary: e) (auto split: option.splits)

text \<open>The results in the order in which a batch is applied.\<close>

definition grouped :: "('a \<Rightarrow> nat) \<Rightarrow> nat list \<Rightarrow> 'a list \<Rightarrow> 'a list" where
  "grouped f porder xs = concat (map (\<lambda>p. filter (\<lambda>x. f x = p) xs) porder)"

lemma set_grouped: "set (grouped f porder xs) = {x \<in> set xs. f x \<in> set porder}"
  by (auto simp: grouped_def)

lemma distinct_grouped: "distinct xs \<Longrightarrow> distinct porder \<Longrightarrow> distinct (grouped f porder xs)"
  by (induction porder) (auto simp: grouped_def)

lemma apply_partitions_grouped:
  "apply_partitions porder parts batch e =
     apply_updates (grouped (\<lambda>r. getVertexPartition (vr_VertexID r) parts) porder batch) e"
  by (induction porder arbitrary: e) (auto simp: grouped_def apply_updates_append split: prod.splits option.splits)

lemma apply_updates_None:
  "apply_updates rs e = (None, e') \<Longrightarrow> distinct (map vr_VertexID rs) \<Longrightarrow>
     (\<forall>r \<in> set rs. vr_Error r = None \<and> en_States e' (vr_VertexID r) = Some (vr_State r)
        \<and> en_Active e' (vr_VertexID r) = Some (\<not> vr_Halt r))
     \<and> (\<forall>v. v \<notin> vr_VertexID ` set rs \<longrightarrow> en_States e' v = en_States e v \<and> en_Active e' v = en_Active e v)
     \<and> en_Agg e' = en_Agg e"
proof (induction rs arbitrary: e)
  case (Cons r rs)
  let ?e = "e\<lparr>en_States := (en_States e)(vr_VertexID r \<mapsto> vr_State r),
      en_Active := (en_Active e)(vr_VertexID r \<mapsto> \<not> vr_Halt r)\<rparr>"
  have ok: "vr_Error r = None" and rest: "apply_updates rs ?e = (None, e')"
    using Cons.prems(1) by (auto split: option.splits)
  from Cons.IH [OF rest] Cons.prems(2) ok show ?case by auto
qed simp

text \<open>The orders range over all partitions once.\<close>

definition valid_order :: "VertexBlock list list \<Rightarrow> nat list \<Rightarrow> bool" where
  "valid_order parts porder \<longleftrightarrow> distinct porder \<and> set porder = {0..<max 1 (length parts)}"

lemma find_partition_range: "find_partition vid i parts = 0 \<or> find_partition vid i parts < i + length parts"
proof (induction parts arbitrary: i)
  case (Cons blocks parts)
  from Cons.IH [of "Suc i"] show ?case by auto
qed simp

lemma valid_order_covers: "valid_order parts porder \<Longrightarrow> getVertexPartition v parts \<in> set porder"
  using find_partition_range [of v 0 parts] by (auto simp: valid_order_def getVertexPartition_def)

lemma vertex_task_id [simp]: "vt_VertexID (vertex_task e v) = v"
  by (simp add: vertex_task_def)

lemma bsp_result_id [simp]: "vr_VertexID (bsp_result e v) = v"
  by (simp add: bsp_result_def)

definition cache_inv ::
  "string set \<Rightarrow> Engine \<Rightarrow> VertexTask list \<Rightarrow> VertexResult list \<Rightarrow> Engine \<Rightarrow> bool" where
  "cache_inv act e pending batch e1 \<longleftrightarrow>
     distinct (map vt_VertexID pending @ map vr_VertexID batch)
     \<and> set pending \<subseteq> vertex_task e ` act \<and> set batch \<subseteq> bsp_result e ` act
     \<and> en_Agg e1 = en_Agg e
     \<and> (\<forall>v. v \<notin> vt_VertexID ` set pending \<longrightarrow> v \<notin> vr_VertexID ` set batch \<longrightarrow>
          en_States e1 v = bsp_states act e v \<and> en_Active e1 v = bsp_active act e v
          \<and> (v \<in> act \<longrightarrow> vr_Error (bsp_result e v) = None))"

lemma cache_take:
  assumes ne: "pending \<noteq> []" and inv: "cache_inv act e pending batch e1"
  shows "cache_inv act e (drop_nth (a mod length pending) pending)
    (batch @ [executeTask (pending ! (a mod length pending))]) (task_ran (pending ! (a mod length pending)) e1)"
proof -
  let ?i = "a mod length pending"
  let ?t = "pending ! ?i"
  have i: "?i < length pending" using ne by simp
  have t: "?t \<in> set pending" using i by simp
  have "set pending \<subseteq> vertex_task e ` act" using inv by (simp add: cache_inv_def)
  with t obtain u where u: "u \<in> act" "?t = vertex_task e u" by blast
  have uin: "u \<in> vt_VertexID ` set pending" using imageI [OF t, of vt_VertexID] u(2) by simp
  have ran: "executeTask ?t = bsp_result e u" by (simp add: u bsp_result_def)
  have ids: "distinct (map vt_VertexID (drop_nth ?i pending))"
      "vt_VertexID ` set (drop_nth ?i pending) = vt_VertexID ` set pending - {u}"
    using distinct_drop_nth [of "map vt_VertexID pending" ?i] inv i u
    by (simp_all add: cache_inv_def drop_nth_map flip: set_map)
  have other: "en_States (task_ran ?t e1) v = en_States e1 v" if "v \<noteq> u" for v
    using that u by (simp add: task_ran_def Let_def)
  have "u \<notin> vr_VertexID ` set batch" using inv uin by (auto simp: cache_inv_def)
  then have "distinct (map vt_VertexID (drop_nth ?i pending) @ map vr_VertexID (batch @ [executeTask ?t]))"
    using inv ids by (auto simp: cache_inv_def ran)
  moreover have "set (drop_nth ?i pending) \<subseteq> vertex_task e ` act"
    using inv set_drop_nth [of ?i pending] unfolding cache_inv_def by blast
  moreover have "set (batch @ [executeTask ?t]) \<subseteq> bsp_result e ` act"
    using inv u(1) ran by (simp add: cache_inv_def)
  moreover have "en_States (task_ran ?t e1) v = bsp_states act e v \<and> en_Active (task_ran ?t e1) v = bsp_active act e v
      \<and> (v \<in> act \<longrightarrow> vr_Error (bsp_result e v) = None)"
    if "v \<notin> vt_VertexID ` set (drop_nth ?i pending)" "v \<notin> vr_VertexID ` set (batch @ [executeTask ?t])" for v
  proof -
    have "v \<noteq> u" "v \<notin> vr_VertexID ` set batch" using that(2) ran by auto
    moreover from this that(1) have "v \<notin> vt_VertexID ` set pending" unfolding ids(2) by blast
    ultimately show ?thesis using inv other [of v] by (simp add: cache_inv_def)
  qed
  ultimately show ?thesis using inv unfolding cache_inv_def by simp
qed

lemma cache_apply:
  assumes inv: "cache_inv act e pending batch e1" and porder: "valid_order parts porder"
    and app: "processBatchOptimized porder parts batch e1 = (None, e2)"
  shows "cache_inv act e pending [] e2"
proof -
  let ?rs = "grouped (\<lambda>r. getVertexPartition (vr_VertexID r) parts) porder batch"
  have set: "set ?rs = set batch" using valid_order_covers [OF porder] by (auto simp: set_grouped)
  have "distinct (map vr_VertexID batch)" using inv by (simp add: cache_inv_def)
  then have inj: "inj_on vr_VertexID (set batch)" "distinct batch" by (simp_all add: distinct_map)
  then have "distinct (map vr_VertexID ?rs)"
    using porder by (simp add: distinct_map set distinct_grouped valid_order_def)
  from apply_updates_None [OF _ this] app
  have upd: "\<forall>r \<in> set batch. vr_Error r = None \<and> en_States e2 (vr_VertexID r) = Some (vr_State r)
        \<and> en_Active e2 (vr_VertexID r) = Some (\<not> vr_Halt r)"
    and same: "\<forall>v. v \<notin> vr_VertexID ` set batch \<longrightarrow> en_States e2 v = en_States e1 v \<and> en_Active e2 v = en_Active e1 v"
    and agg: "en_Agg e2 = en_Agg e1"
    by (simp_all add: processBatchOptimized_def apply_partitions_grouped set)
  have "en_States e2 v = bsp_states act e v \<and> en_Active e2 v = bsp_active act e v
      \<and> (v \<in> act \<longrightarrow> vr_Error (bsp_result e v) = None)" if "v \<notin> vt_VertexID ` set pending" for v
  proof (cases "v \<in> vr_VertexID ` set batch")
    case True
    then obtain r where r: "r \<in> set batch" "v = vr_VertexID r" by auto
    then have "v \<in> act" "r = bsp_result e v" using inv unfolding cache_inv_def by force+
    moreover from upd r have "vr_Error r = None" "en_States e2 v = Some (vr_State r)"
        "en_Active e2 v = Some (\<not> vr_Halt r)" by simp_all
    ultimately show ?thesis by (simp add: bsp_states_def bsp_active_def)
  next
    case False
    with that inv same show ?thesis by (simp add: cache_inv_def)
  qed
  then show ?thesis using inv agg unfolding cache_inv_def by simp
qed

lemma cache_collect:
  "collectResultsOptimized arrive dl porder parts k pending batch e1 = (None, e2) \<Longrightarrow>
   cache_inv act e pending batch e1 \<Longrightarrow> (\<And>k. valid_order parts (porder k)) \<Longrightarrow>
   (pending = [] \<Longrightarrow> batch = []) \<Longrightarrow> cache_inv act e [] [] e2"
proof (induction arrive dl porder parts k pending batch e1 rule: collectResultsOptimized.induct)
  case (1 arrive dl porder parts k pending batch e1)
  show ?case
  proof (cases "pending = []")
    case True
    with "1.prems" show ?thesis by (subst (asm) collectResultsOptimized.simps) simp
  next
    case False
    then have late: "map_option fst dl \<noteq> Some k"
      using "1.prems"(1) by (subst (asm) collectResultsOptimized.simps) auto
    let ?i = "arrive k mod length pending"
    let ?t = "pending ! ?i"
    let ?b = "batch @ [executeTask ?t]"
    let ?p = "drop_nth ?i pending"
    note taken = cache_take [OF False "1.prems"(2), of "arrive k"]
    show ?thesis
    proof (cases "batch_size \<le> length ?b \<or> ?p = []")
      case True
      obtain e3 where app: "processBatchOptimized (porder k) parts ?b (task_ran ?t e1) = (None, e3)"
        and rest: "collectResultsOptimized arrive dl porder parts (Suc k) ?p [] e3 = (None, e2)"
        using "1.prems"(1) False late True
        by (subst (asm) collectResultsOptimized.simps) (auto simp: Let_def split: prod.splits option.splits)
      note inv = cache_apply [OF taken "1.prems"(3) app]
      show ?thesis
        by (rule "1.IH"(1) [OF False late refl refl refl refl refl True app [symmetric] refl rest inv "1.prems"(3)]) simp
    next
      case no: False
      then have rest: "collectResultsOptimized arrive dl porder parts (Suc k) ?p ?b (task_ran ?t e1) = (None, e2)"
        using "1.prems"(1) False late
        by (subst (asm) collectResultsOptimized.simps) (simp add: Let_def)
      show ?thesis
        by (rule "1.IH"(2) [OF False late refl refl refl refl refl no rest taken "1.prems"(3)]) (use no in simp)
    qed
  qed
qed

lemma cache_superstep:
  assumes ids: "map_order (en_Active (co_base coe)) (cc_ids ch)"
    and orders: "valid_order (co_partitions coe) (cc_sched ch)"
      "\<And>k. valid_order (co_partitions coe) (cc_batches ch k)"
    and run: "executeSuperstepOptimized ch step coe = (None, coe')"
  shows "let e = co_base coe; act = {v. en_Active e v = Some True} in
    en_States (co_base coe') = bsp_states act e \<and> en_Active (co_base coe') = bsp_active act e
    \<and> en_Agg (co_base coe') = en_Agg e \<and> (\<forall>v \<in> act. vr_Error (bsp_result e v) = None)"
proof -
  let ?e = "co_base coe"
  let ?act = "{v. en_Active ?e v = Some True}"
  let ?vs = "getActiveVertices (cc_ids ch) ?e"
  have vs: "distinct ?vs" "set ?vs = ?act"
    using ids by (auto simp: getActiveVertices_def map_order_def)
  show ?thesis
  proof (cases "?vs = []")
    case True
    then have "?act = {}" using vs by simp
    then show ?thesis
      using run True by (auto simp: executeSuperstepOptimized_def Let_def bsp_states_def bsp_active_def)
  next
    case False
    let ?gs = "group_active (cc_sched ch) (co_partitions coe) ?vs"
    have g: "?gs = grouped (\<lambda>v. getVertexPartition v (co_partitions coe)) (cc_sched ch) ?vs"
      by (simp add: group_active_def grouped_def)
    have gs: "distinct ?gs" "set ?gs = ?act"
      using vs orders(1) valid_order_covers [OF orders(1)]
      by (auto simp: g set_grouped intro: distinct_grouped simp: valid_order_def)
    obtain tasks e1 where sch: "scheduleVertexTasks step ?gs ?e = (tasks, e1)" by fastforce
    note k = schedule_keeps [OF sch]
    obtain r e2 where col: "collectResultsOptimized (cc_arrive ch) (cc_deadline ch) (cc_batches ch)
        (co_partitions coe) 0 tasks [] e1 = (r, e2)" by fastforce
    have r: "r = None" "co_base coe' = e2"
      using run False sch col by (auto simp: executeSuperstepOptimized_def Let_def)
    have idmap: "map vt_VertexID tasks = ?gs" using k by (simp add: vertex_task_def comp_def)
    then have idset: "vt_VertexID ` set tasks = ?act" using gs(2) by (metis set_map)
    have "cache_inv ?act ?e tasks [] e1"
      using k gs idmap idset
      by (auto simp: cache_inv_def bsp_states_def bsp_active_def vertex_task_def)
    from cache_collect [OF col [unfolded r] this orders(2)] r show ?thesis
      by (auto simp: cache_inv_def Let_def)
  qed
qed

text \<open>
  the optimised superstep agrees with the standard one on success. When a superstep of the
  cache-optimised engine succeeds, the standard engine's superstep from the same state succeeds too,
  for any order of arrivals, with the same states and the same active vertices; but the optimised
  one leaves the aggregator as it was: none of the messages the programs sent are queued.
\<close>

theorem cache_superstep_equiv:
  assumes "map_order (en_Active (co_base coe)) (cc_ids ch)"
    and "valid_order (co_partitions coe) (cc_sched ch)"
    and "\<And>k. valid_order (co_partitions coe) (cc_batches ch k)"
    and "\<And>v. 0 \<le> retry_of (co_base coe) v"
    and "executeSuperstepOptimized ch step coe = (None, coe')"
  shows "case executeSuperstep (cc_ids ch) arrive None step (co_base coe) of (r, e') \<Rightarrow>
    r = None \<and> en_States (co_base coe') = en_States e' \<and> en_Active (co_base coe') = en_Active e'
    \<and> en_Agg (co_base coe') = en_Agg (co_base coe)"
proof -
  note opt = cache_superstep [OF assms(1-3,5), unfolded Let_def]
  obtain r e' where run: "executeSuperstep (cc_ids ch) arrive None step (co_base coe) = (r, e')" by fastforce
  have "no_retries {v. en_Active (co_base coe) v = Some True} (co_base coe)"
    using opt by (auto simp: no_retries_def)
  from superstep_bsp [OF assms(1,4) this run] opt run show ?thesis by auto
qed

theorem cache_superstep_equiv_witness:
  "\<exists>coe'. executeSuperstepOptimized \<lparr>cc_ids = [''a''], cc_sched = [0], cc_arrive = (\<lambda>_. 0),
      cc_deadline = None, cc_batches = (\<lambda>_. [0]), cc_keys = []\<rparr> 0
      \<lparr>co_base = sample_engine counting_program, co_partitions = partitionVertices [''a''] 1,
       co_buffers = [[]], co_cacheLineSize = 64\<rparr> = (None, coe')
    \<and> en_States (co_base coe')
      = en_States (snd (executeSuperstep [''a''] (\<lambda>_. 0) None 0 (sample_engine counting_program)))"
proof -
  let ?ch = "\<lparr>cc_ids = [''a''], cc_sched = [0], cc_arrive = (\<lambda>_. 0), cc_deadline = None,
    cc_batches = (\<lambda>_. [0]), cc_keys = []\<rparr>"
  let ?coe = "\<lparr>co_base = sample_engine counting_program, co_partitions = partitionVertices [''a''] 1,
    co_buffers = [[]], co_cacheLineSize = 64\<rparr>"
  have part: "partitionVertices [''a''] 1 = [[new_block\<lparr>vb_vertices := [''a'']\<rparr>]]"
    by (simp add: partitionVertices_def place_vertex_def add_block_def add_to_last_def new_block_def Let_def)
  have order: "valid_order (co_partitions ?coe) [0]" by (simp add: part valid_order_def)
  obtain coe' where run: "executeSuperstepOptimized ?ch 0 ?coe = (None, coe')"
    by (simp add: executeSuperstepOptimized_def getActiveVertices_def sample_engine_simps group_active_def
        part getVertexPartition_def new_block_def vertex_task_def counting_program_def program_of_def
        collectResultsOptimized.simps [of _ _ _ _ _ "[_]"] collectResultsOptimized.simps [of _ _ _ _ _ "[]"]
        drop_nth_def processBatchOptimized_def executeTask_def SimpleCounter_Compute_def Let_def)
  have "map_order (en_Active (co_base ?coe)) (cc_ids ?ch)" using engine_sample_order by simp
  from cache_superstep_equiv [OF this _ _ _ run, where arrive = "\<lambda>_. 0"] order run show ?thesis
    by (auto simp: sample_engine_simps split: prod.splits)
qed

end
