(* ===== verification/Superstep.thy ===== *)
theory Superstep
  imports Engine
begin

section \<open>The superstep barrier and the engine variants (superstep.go, streaming.go, recovery.go)\<close>

text \<open>
  \<^verbatim>\<open>Superstep\<close> couples a message aggregator with a wait group that counts the vertices still
  to finish. The wait group is its counter: \<^verbatim>\<open>Wait\<close> waits while it is positive, a negative
  counter panics. The streaming and the resilient engine embed an engine and shadow some of its
  fields.
\<close>

subsection \<open>Supersteps\<close>

record Superstep =
  ss_StepNumber :: int
  ss_Aggregator :: MessageAggregator
  ss_Barrier :: int
  ss_ActiveVertices :: "string \<rightharpoonup> bool"
  ss_StartTime :: int
  ss_EndTime :: "int option"

definition NewSuperstep :: "int \<Rightarrow> int \<Rightarrow> MessageCombiner option \<Rightarrow> Superstep" where
  "NewSuperstep now step combiner = \<lparr>ss_StepNumber = step, ss_Aggregator = NewMessageAggregator combiner,
     ss_Barrier = 0, ss_ActiveVertices = Map.empty, ss_StartTime = now, ss_EndTime = None\<rparr>"

definition AddVertex :: "string \<Rightarrow> Superstep \<Rightarrow> Superstep" where
  "AddVertex vid s = s\<lparr>ss_ActiveVertices := (ss_ActiveVertices s)(vid \<mapsto> True), ss_Barrier := ss_Barrier s + 1\<rparr>"

definition CompleteVertex :: "string \<Rightarrow> bool \<Rightarrow> Superstep \<Rightarrow> (string, unit) outcome \<times> Superstep" where
  "CompleteVertex vid halt s =
     (let s1 = s\<lparr>ss_ActiveVertices := (ss_ActiveVertices s)(vid \<mapsto> \<not> halt), ss_Barrier := ss_Barrier s - 1\<rparr>
      in if ss_Barrier s1 < 0 then (Panics ''sync: negative WaitGroup counter'', s1) else (Returns (), s1))"

definition Wait :: "int \<Rightarrow> Superstep \<Rightarrow> (string, unit) outcome \<times> Superstep" where
  "Wait now s = (if ss_Barrier s > 0 then (Blocks, s) else (Returns (), s\<lparr>ss_EndTime := Some now\<rparr>))"

text \<open>\<open>ids\<close> is the order of the loop over the active vertices.\<close>

definition Superstep_HasActiveVertices :: "string list \<Rightarrow> Superstep \<Rightarrow> bool" where
  "Superstep_HasActiveVertices ids s = list_ex (\<lambda>v. ss_ActiveVertices s v = Some True) ids"

definition GetActiveVertexCount :: "string list \<Rightarrow> Superstep \<Rightarrow> int" where
  "GetActiveVertexCount ids s =
     fold (\<lambda>v n. if ss_ActiveVertices s v = Some True then n + 1 else n) ids 0"

definition Superstep_GetActiveVertices :: "string list \<Rightarrow> Superstep \<Rightarrow> string list" where
  "Superstep_GetActiveVertices ids s = filter (\<lambda>v. ss_ActiveVertices s v = Some True) ids"

definition IsComplete :: "Superstep \<Rightarrow> bool" where
  "IsComplete s \<longleftrightarrow> ss_EndTime s \<noteq> None"

definition Superstep_Reset :: "int \<Rightarrow> Superstep \<Rightarrow> Superstep" where
  "Superstep_Reset now s = s\<lparr>ss_Barrier := 0, ss_ActiveVertices := Map.empty, ss_StartTime := now,
     ss_EndTime := None, ss_Aggregator := ClearMessages (ss_Aggregator s)\<rparr>"

definition Superstep_GetMessageCount :: "string list \<Rightarrow> Superstep \<Rightarrow> nat" where
  "Superstep_GetMessageCount vids s = GetMessageCount vids (ss_Aggregator s)"

subsection \<open>Engine variants\<close>

text \<open>
  \<^verbatim>\<open>StreamingEngine\<close> has a streamer of its own beside the embedded engine's, whose
  \<^verbatim>\<open>emitEvent\<close> goes on using the engine's.
\<close>

record StreamingEngine =
  se_Engine :: Engine
  se_Streamer :: Streamer

definition NewStreamingEngine ::
  "int \<Rightarrow> (nat \<Rightarrow> int) \<Rightarrow> (string \<rightharpoonup> vprog) \<Rightarrow> vstates \<Rightarrow> EngineConfig \<Rightarrow> StreamingEngine" where
  "NewStreamingEngine numCPU clock vertices initialStates config =
     \<lparr>se_Engine = NewEngine numCPU clock vertices initialStates config, se_Streamer = NewStreamer\<rparr>"

definition StreamingEngine_Run ::
  "string list \<Rightarrow> (int \<Rightarrow> StepChoices) \<Rightarrow> StreamingEngine \<Rightarrow> engine_error option \<times> StreamingEngine" where
  "StreamingEngine_Run vids choices se =
     (let out = ec_StreamOutput (en_Config (se_Engine se));
          se1 = (if out then se\<lparr>se_Streamer := Streamer_Start (se_Streamer se)\<rparr> else se)
      in case Run vids choices (se_Engine se1) of
           (r, e) \<Rightarrow>
             (r, se1\<lparr>se_Engine := e,
                se_Streamer := (if out then snd (Streamer_Stop (se_Streamer se1)) else se_Streamer se1)\<rparr>))"

record ResilientEngine =
  re_Engine :: Engine
  re_ErrorHandler :: RetryPolicy
  re_CheckpointManager :: "vstates CheckpointManager"
  re_retryAttempts :: "string \<rightharpoonup> int"

definition NewResilientEngine ::
  "int \<Rightarrow> (nat \<Rightarrow> int) \<Rightarrow> (string \<rightharpoonup> vprog) \<Rightarrow> vstates \<Rightarrow> EngineConfig \<Rightarrow> ResilientEngine" where
  "NewResilientEngine numCPU clock vertices initialStates config =
     \<lparr>re_Engine = NewEngine numCPU clock vertices initialStates config,
      re_ErrorHandler = ec_RetryPolicy config, re_CheckpointManager = NewCheckpointManager,
      re_retryAttempts = Map.empty\<rparr>"

subsection \<open>Properties\<close>

text \<open>The results of completing vertices one after the other, up to the first panic.\<close>

fun complete_all :: "(string \<times> bool) list \<Rightarrow> Superstep \<Rightarrow> (string, unit) outcome \<times> Superstep" where
  "complete_all [] s = (Returns (), s)"
| "complete_all ((v, h) # cs) s =
     (case CompleteVertex v h s of
        (Returns _, s') \<Rightarrow> complete_all cs s'
      | r \<Rightarrow> r)"

lemma add_all_barrier: "ss_Barrier (fold AddVertex vs s) = ss_Barrier s + int (length vs)"
  by (induction vs arbitrary: s) (simp_all add: AddVertex_def)

lemma add_all_active:
  "ss_ActiveVertices (fold AddVertex vs s) v = (if v \<in> set vs then Some True else ss_ActiveVertices s v)"
  by (induction vs arbitrary: s) (auto simp: AddVertex_def)

lemma complete_all_barrier:
  "int (length cs) \<le> ss_Barrier s \<Longrightarrow> fst (complete_all cs s) = Returns ()
     \<and> ss_Barrier (snd (complete_all cs s)) = ss_Barrier s - int (length cs)
     \<and> (\<forall>v. v \<notin> fst ` set cs \<longrightarrow> ss_ActiveVertices (snd (complete_all cs s)) v = ss_ActiveVertices s v)
     \<and> (\<forall>v h. (v, h) \<in> set cs \<longrightarrow> distinct (map fst cs) \<longrightarrow>
          ss_ActiveVertices (snd (complete_all cs s)) v = Some (\<not> h))"
proof (induction cs arbitrary: s)
  case (Cons c cs)
  obtain u g where c: "c = (u, g)" by fastforce
  let ?s = "s\<lparr>ss_ActiveVertices := (ss_ActiveVertices s)(u \<mapsto> \<not> g), ss_Barrier := ss_Barrier s - 1\<rparr>"
  have step: "CompleteVertex u g s = (Returns (), ?s)"
    using Cons.prems by (simp add: CompleteVertex_def)
  have "int (length cs) \<le> ss_Barrier ?s" using Cons.prems by simp
  note IH = Cons.IH [OF this]
  have last: "ss_ActiveVertices (snd (complete_all cs ?s)) v = Some (\<not> h)"
    if "(v, h) \<in> set (c # cs)" "distinct (map fst (c # cs))" for v h
    using that IH c by (cases "(v, h) = (u, g)") (auto simp: rev_image_eqI)
  show ?case using IH step c last by simp
qed simp

text \<open>
  the barrier. After adding vertices to a new superstep and completing any of them, each at most
  as often as all additions together allow, \<^verbatim>\<open>Wait\<close> blocks exactly while completions are missing;
  with all distinct vertices completed it returns, the active ones are those that did not halt, and
  one more completion panics.
\<close>

theorem superstep_barrier:
  assumes "length cs \<le> length vs"
  shows "let s = snd (complete_all cs (fold AddVertex vs (NewSuperstep now step comb))) in
    fst (complete_all cs (fold AddVertex vs (NewSuperstep now step comb))) = Returns ()
    \<and> (fst (Wait later s) = Blocks \<longleftrightarrow> length cs < length vs)
    \<and> (length cs = length vs \<longrightarrow> fst (Wait later s) = Returns () \<and> IsComplete (snd (Wait later s))
        \<and> fst (CompleteVertex v h s) = Panics ''sync: negative WaitGroup counter'')
    \<and> (distinct (map fst cs) \<longrightarrow> set vs = fst ` set cs \<longrightarrow>
        (\<forall>v. ss_ActiveVertices s v = Some True \<longleftrightarrow> (v, False) \<in> set cs))"
proof -
  let ?s = "fold AddVertex vs (NewSuperstep now step comb)"
  have b: "ss_Barrier ?s = int (length vs)" by (simp add: add_all_barrier NewSuperstep_def)
  have "int (length cs) \<le> ss_Barrier ?s" using assms b by simp
  note c = complete_all_barrier [OF this]
  have act: "ss_ActiveVertices (snd (complete_all cs ?s)) u = Some True \<longleftrightarrow> (u, False) \<in> set cs"
    if d: "distinct (map fst cs)" "set vs = fst ` set cs" for u
  proof (cases "u \<in> fst ` set cs")
    case True
    then obtain h where h: "(u, h) \<in> set cs" by auto
    then have "(u, False) \<in> set cs \<longleftrightarrow> \<not> h"
      using d(1) by (metis eq_key_imp_eq_value)
    with h c d(1) show ?thesis by auto
  next
    case False
    with c d(2) have "ss_ActiveVertices (snd (complete_all cs ?s)) u = None"
      by (simp add: add_all_active NewSuperstep_def)
    with False show ?thesis by (auto simp: rev_image_eqI)
  qed
  show ?thesis
    using b c act assms by (auto simp: Wait_def IsComplete_def CompleteVertex_def Let_def)
qed

theorem superstep_barrier_witness:
  "fst (Wait 9 (snd (complete_all [(''a'', True)] (fold AddVertex [''a'', ''b''] (NewSuperstep 0 1 None))))) = Blocks"
  using superstep_barrier [of "[(''a'', True)]" "[''a'', ''b'']" 0 1 None 9] by (simp add: Let_def)

end
