(* ===== verification/ExecutionData.thy ===== *)
theory ExecutionData
  imports Graph
begin

section \<open>Execution data and the state service (internal/app/dto, internal/app/services/state.go)\<close>

text \<open>
  Requests with their validation, execution contexts, step results and responses, and the state
  service that keeps copies of execution contexts. A nil state map is \<open>None\<close>. The state maps of a
  saved and of a loaded context are fresh copies in the source, so values model them.
\<close>

subsection \<open>Requests\<close>

datatype dto_error = ErrMissingGraphID | ErrMissingThreadID | ErrInvalidConfig | ErrExecutionFailed
  | ErrExecutionTimeout | ErrStepFailed | ErrInvalidInput | ErrInvalidOutput

record ExecutionRequest =
  rq_GraphID :: string
  rq_ThreadID :: string
  rq_Input :: "gstate option"
  rq_Config :: ExecutionConfig
  rq_ResumeFrom :: string

definition minutes :: "int \<Rightarrow> int" where "minutes n = n * 60 * 10 ^ 9"

text \<open>The defaults are written to the request, unless an identifier is missing.\<close>

definition Request_Validate :: "ExecutionRequest \<Rightarrow> dto_error option \<times> ExecutionRequest" where
  "Request_Validate req =
     (if rq_GraphID req = [] then (Some ErrMissingGraphID, req)
      else if rq_ThreadID req = [] then (Some ErrMissingThreadID, req)
      else (let c = rq_Config req;
                c1 = (if MaxSteps c \<le> 0 then c\<lparr>MaxSteps := 100\<rparr> else c);
                c2 = (if ExecTimeout c1 \<le> 0 then c1\<lparr>ExecTimeout := minutes 5\<rparr> else c1);
                c3 = (if CheckpointEvery c2 \<le> 0 then c2\<lparr>CheckpointEvery := 10\<rparr> else c2);
                c4 = (if \<not> ValidateGraph c3 then c3\<lparr>ValidateGraph := True\<rparr> else c3)
            in (None, req\<lparr>rq_Config := c4\<rparr>)))"

lemma Request_Validate_ok:
  assumes "Request_Validate req = (None, req')"
  shows "0 < MaxSteps (rq_Config req') \<and> 0 < CheckpointEvery (rq_Config req') \<and> 0 < ExecTimeout (rq_Config req')
    \<and> ValidateGraph (rq_Config req') \<and> rq_GraphID req' = rq_GraphID req \<and> rq_ThreadID req' = rq_ThreadID req
    \<and> rq_Input req' = rq_Input req \<and> ValidateCycles (rq_Config req') = ValidateCycles (rq_Config req)
    \<and> rq_GraphID req \<noteq> [] \<and> rq_ThreadID req \<noteq> []
    \<and> (0 < MaxSteps (rq_Config req) \<longrightarrow> MaxSteps (rq_Config req') = MaxSteps (rq_Config req))
    \<and> Request_Validate req' = (None, req')"
  using assms by (auto simp: Request_Validate_def Let_def minutes_def split: if_splits)

subsection \<open>Results\<close>

type_synonym ExecutionStatus = string

definition ExecutionStatusRunning :: ExecutionStatus where "ExecutionStatusRunning = ''running''"
definition ExecutionStatusCompleted :: ExecutionStatus where "ExecutionStatusCompleted = ''completed''"
definition ExecutionStatusFailed :: ExecutionStatus where "ExecutionStatusFailed = ''failed''"
definition ExecutionStatusStopped :: ExecutionStatus where "ExecutionStatusStopped = ''stopped''"

type_synonym StepStatus = string

definition StepStatusPending :: StepStatus where "StepStatusPending = ''pending''"
definition StepStatusRunning :: StepStatus where "StepStatusRunning = ''running''"
definition StepStatusCompleted :: StepStatus where "StepStatusCompleted = ''completed''"
definition StepStatusFailed :: StepStatus where "StepStatusFailed = ''failed''"
definition StepStatusSkipped :: StepStatus where "StepStatusSkipped = ''skipped''"

record StepResult =
  sr_StepNumber :: int
  sr_NodeID :: string
  sr_NodeType :: NodeType
  sr_Input :: "gstate option"
  sr_Output :: "gstate option"
  sr_StartTime :: int
  sr_EndTime :: int
  sr_Duration :: int
  sr_Status :: StepStatus
  sr_Error :: string
  sr_CheckpointID :: string

record 'e ExecutionResponse =
  rs_ExecutionID :: string
  rs_GraphID :: string
  rs_ThreadID :: string
  rs_Status :: ExecutionStatus
  rs_Output :: "gstate option"
  rs_Steps :: "StepResult list"
  rs_StartTime :: int
  rs_EndTime :: int
  rs_Duration :: int
  rs_Error :: "'e option"      \<comment> \<open>\<open>err.Error()\<close>, as the error itself\<close>

record ExecutionContext =
  xc_ExecutionID :: string
  xc_GraphID :: string
  xc_ThreadID :: string
  xc_CurrentStep :: int
  xc_State :: "gstate option"
  xc_Config :: ExecutionConfig
  xc_StartTime :: int

definition zero_config :: ExecutionConfig where
  "zero_config = \<lparr>MaxSteps = 0, ExecTimeout = 0, CheckpointEvery = 0, ParallelMode = False,
     DebugMode = False, ValidateGraph = False, ValidateCycles = False\<rparr>"

text \<open>Reading a possibly nil map.\<close>

definition nil_map :: "gstate option \<Rightarrow> gstate" where
  "nil_map m = (case m of None \<Rightarrow> Map.empty | Some s \<Rightarrow> s)"

lemma nil_map_simps [simp]: "nil_map None = Map.empty" "nil_map (Some s) = s"
  by (simp_all add: nil_map_def)

subsection \<open>The state service\<close>

type_synonym StateService = "string \<rightharpoonup> ExecutionContext"

definition NewStateService :: StateService where
  "NewStateService = Map.empty"

text \<open>The copy has a non-nil state map with the entries of the original.\<close>

definition copy_context :: "ExecutionContext \<Rightarrow> ExecutionContext" where
  "copy_context c = c\<lparr>xc_State := Some (nil_map (xc_State c))\<rparr>"

definition SaveState :: "ExecutionContext \<Rightarrow> StateService \<Rightarrow> StateService" where
  "SaveState c s = s(xc_ExecutionID c \<mapsto> copy_context c)"

definition LoadState :: "string \<Rightarrow> StateService \<Rightarrow> string + ExecutionContext" where
  "LoadState eid s = (case s eid of
     None \<Rightarrow> Inl (''execution state not found: '' @ eid) | Some c \<Rightarrow> Inr (copy_context c))"

text \<open>The updates are written key by key to the stored map.\<close>

definition UpdateState :: "string \<Rightarrow> gstate \<Rightarrow> StateService \<Rightarrow> string option \<times> StateService" where
  "UpdateState eid updates s = (case s eid of
     None \<Rightarrow> (Some (''execution state not found: '' @ eid), s)
   | Some c \<Rightarrow> (None, s(eid \<mapsto> c\<lparr>xc_State := Some (nil_map (xc_State c) ++ updates)\<rparr>)))"

definition CleanupState :: "string \<Rightarrow> StateService \<Rightarrow> StateService" where
  "CleanupState eid s = s(eid := None)"

definition GetActiveStates :: "StateService \<Rightarrow> nat" where
  "GetActiveStates s = card (dom s)"

lemma copy_context_idem [simp]: "copy_context (copy_context c) = copy_context c"
  by (simp add: copy_context_def)

lemma copy_context_id [simp]: "xc_ExecutionID (copy_context c) = xc_ExecutionID c"
  by (simp add: copy_context_def)

text \<open>Sequences of operations, the updates of one execution among them.\<close>

datatype state_op = OpSaveState ExecutionContext | OpUpdateState string gstate | OpCleanupState string

fun state_run :: "state_op list \<Rightarrow> StateService \<Rightarrow> StateService" where
  "state_run [] s = s"
| "state_run (OpSaveState c # ops) s = state_run ops (SaveState c s)"
| "state_run (OpUpdateState eid u # ops) s = state_run ops (snd (UpdateState eid u s))"
| "state_run (OpCleanupState eid # ops) s = state_run ops (CleanupState eid s)"

fun updates_of :: "string \<Rightarrow> state_op list \<Rightarrow> gstate" where
  "updates_of eid [] = Map.empty"
| "updates_of eid (OpUpdateState i u # ops) = (if i = eid then u ++ updates_of eid ops else updates_of eid ops)"
| "updates_of eid (_ # ops) = updates_of eid ops"

fun replaces :: "string \<Rightarrow> state_op \<Rightarrow> bool" where
  "replaces eid (OpSaveState c) \<longleftrightarrow> xc_ExecutionID c = eid"
| "replaces eid (OpCleanupState i) \<longleftrightarrow> i = eid"
| "replaces eid (OpUpdateState i u) \<longleftrightarrow> False"

lemma state_run_stored:
  "s eid = Some c \<Longrightarrow> \<forall>op \<in> set ops. \<not> replaces eid op \<Longrightarrow> xc_State c = Some st \<Longrightarrow>
     state_run ops s eid = Some (c\<lparr>xc_State := Some (st ++ updates_of eid ops)\<rparr>)"
proof (induction ops arbitrary: s c st)
  case (Cons op ops)
  show ?case
  proof (cases op)
    case (OpUpdateState i u)
    show ?thesis
    proof (cases "i = eid")
      case True
      have "state_run ops (snd (UpdateState eid u s)) eid
          = Some ((c\<lparr>xc_State := Some (st ++ u)\<rparr>)\<lparr>xc_State := Some ((st ++ u) ++ updates_of eid ops)\<rparr>)"
        by (rule Cons.IH) (use Cons.prems in \<open>simp_all add: UpdateState_def\<close>)
      then show ?thesis using OpUpdateState True by simp
    next
      case False
      then have "snd (UpdateState i u s) eid = Some c"
        using Cons.prems(1) by (simp add: UpdateState_def split: option.splits)
      with Cons OpUpdateState False show ?thesis by simp
    qed
  qed (use Cons in \<open>auto simp: SaveState_def CleanupState_def\<close>)
qed simp

text \<open>
  the state service is a store of executions. A context saved under its ID and then updated any
  number of times is loaded with all its fields and with the updates applied in order to its state,
  whatever is saved, updated or cleaned up under other IDs in between; after its clean-up it is not
  found, and updating it fails.
\<close>

theorem state_service_store:
  assumes "\<forall>op \<in> set ops. \<not> replaces (xc_ExecutionID c) op"
  shows "LoadState (xc_ExecutionID c) (state_run ops (SaveState c s))
      = Inr (c\<lparr>xc_State := Some (nil_map (xc_State c) ++ updates_of (xc_ExecutionID c) ops)\<rparr>)
    \<and> LoadState eid (CleanupState eid s) = Inl (''execution state not found: '' @ eid)
    \<and> UpdateState eid u (CleanupState eid s) = (Some (''execution state not found: '' @ eid), CleanupState eid s)"
proof -
  have "state_run ops (SaveState c s) (xc_ExecutionID c) = Some ((copy_context c)\<lparr>xc_State :=
      Some (nil_map (xc_State c) ++ updates_of (xc_ExecutionID c) ops)\<rparr>)"
    by (rule state_run_stored [OF _ assms]) (simp_all add: SaveState_def copy_context_def)
  then show ?thesis by (simp add: LoadState_def UpdateState_def CleanupState_def copy_context_def)
qed

theorem state_service_store_witness:
  "LoadState ''e'' (state_run [OpUpdateState ''e'' [''k'' \<mapsto> VInt 1], OpCleanupState ''f''] (SaveState
      \<lparr>xc_ExecutionID = ''e'', xc_GraphID = ''g'', xc_ThreadID = ''t'', xc_CurrentStep = 0, xc_State = None,
       xc_Config = zero_config, xc_StartTime = 0\<rparr> NewStateService))
    = Inr \<lparr>xc_ExecutionID = ''e'', xc_GraphID = ''g'', xc_ThreadID = ''t'', xc_CurrentStep = 0,
       xc_State = Some [''k'' \<mapsto> VInt 1], xc_Config = zero_config, xc_StartTime = 0\<rparr>"
  using state_service_store [of "[OpUpdateState ''e'' [''k'' \<mapsto> VInt 1], OpCleanupState ''f'']"
      "\<lparr>xc_ExecutionID = ''e'', xc_GraphID = ''g'', xc_ThreadID = ''t'', xc_CurrentStep = 0, xc_State = None,
       xc_Config = zero_config, xc_StartTime = 0\<rparr>"]
  by simp

end
