(* ===== verification/NodeProcessing.thy ===== *)
theory NodeProcessing
  imports ExecutionData GraphValidation
begin

section \<open>Node processors, edge evaluation, graph repository\<close>

text \<open>
  \<^verbatim>\<open>internal/app/usecases/processor.go\<close>, \<^verbatim>\<open>evaluator.go\<close> and
  \<^verbatim>\<open>internal/adapters/repository/graph/inmemory.go\<close>. The processors copy their input map
  and add their marks; the evaluator knows six named conditions and takes every other for true. The
  contract of an edge evaluator is a locale that the default one interprets.
\<close>

subsection \<open>Processors\<close>

type_synonym processor = "Node \<Rightarrow> gstate option \<Rightarrow> string + gstate option"

definition FunctionNode_Process :: processor where
  "FunctionNode_Process node input =
     Inr (Some ((nil_map input)(''processed_by'' \<mapsto> VStr (n_ID node), ''node_type'' \<mapsto> VStr (n_Type node))))"

definition ConditionalNode_Process :: processor where
  "ConditionalNode_Process node input =
     Inr (Some ((nil_map input)(''condition_result'' \<mapsto> VBool True, ''evaluated_by'' \<mapsto> VStr (n_ID node))))"

definition ToolNode_Process :: processor where
  "ToolNode_Process node input =
     Inr (Some ((nil_map input)(''tool_executed'' \<mapsto> VStr (n_ID node), ''tool_type'' \<mapsto> VStr (n_Type node))))"

definition AgentNode_Process :: processor where
  "AgentNode_Process node input =
     Inr (Some ((nil_map input)(''agent_processed'' \<mapsto> VStr (n_ID node), ''agent_type'' \<mapsto> VStr (n_Type node))))"

type_synonym DefaultNodeProcessor = "NodeType \<rightharpoonup> processor"

definition RegisterProcessor :: "NodeType \<Rightarrow> processor \<Rightarrow> DefaultNodeProcessor \<Rightarrow> DefaultNodeProcessor" where
  "RegisterProcessor ty p ps = ps(ty \<mapsto> p)"

definition NewDefaultNodeProcessor :: DefaultNodeProcessor where
  "NewDefaultNodeProcessor =
     RegisterProcessor NodeTypeAgent AgentNode_Process
       (RegisterProcessor NodeTypeTool ToolNode_Process
         (RegisterProcessor NodeTypeConditional ConditionalNode_Process
           (RegisterProcessor NodeTypeFunction FunctionNode_Process Map.empty)))"

definition Process :: "DefaultNodeProcessor \<Rightarrow> processor" where
  "Process ps node input = (case ps (n_Type node) of
     None \<Rightarrow> Inl (''no processor found for node type: '' @ n_Type node)
   | Some p \<Rightarrow> p node input)"

definition CanProcess :: "DefaultNodeProcessor \<Rightarrow> NodeType \<Rightarrow> bool" where
  "CanProcess ps ty \<longleftrightarrow> ps ty \<noteq> None"

lemmas processor_defs = FunctionNode_Process_def ConditionalNode_Process_def ToolNode_Process_def
  AgentNode_Process_def

text \<open>Only subgraph nodes, and types the program does not know, have no default processor.\<close>

lemma default_processors:
  "CanProcess NewDefaultNodeProcessor ty \<longleftrightarrow>
     ty \<in> {NodeTypeFunction, NodeTypeConditional, NodeTypeTool, NodeTypeAgent}"
  by (auto simp: CanProcess_def NewDefaultNodeProcessor_def RegisterProcessor_def)

lemma default_process_total:
  "CanProcess NewDefaultNodeProcessor (n_Type n) \<Longrightarrow> \<exists>out. Process NewDefaultNodeProcessor n s = Inr (Some out)"
  unfolding default_processors
  by (auto simp: Process_def NewDefaultNodeProcessor_def RegisterProcessor_def processor_defs node_type_defs)

subsection \<open>Edge evaluation\<close>

definition evaluateSimpleCondition :: "string \<Rightarrow> gstate \<Rightarrow> string + bool" where
  "evaluateSimpleCondition condition state =
     (if condition = ''always'' then Inr True
      else if condition = ''never'' then Inr False
      else if condition = ''has_error'' then
        (case state ''error'' of Some v \<Rightarrow> Inr (v \<noteq> VNil) | None \<Rightarrow> Inr False)
      else if condition = ''no_error'' then
        (case state ''error'' of Some v \<Rightarrow> Inr (v = VNil) | None \<Rightarrow> Inr True)
      else if condition = ''success'' then
        (case state ''status'' of Some v \<Rightarrow> Inr (v = VStr ''success'') | None \<Rightarrow> Inr False)
      else if condition = ''failure'' then
        (case state ''status'' of Some v \<Rightarrow> Inr (v = VStr ''failure'' \<or> v = VStr ''failed'') | None \<Rightarrow> Inr False)
      else Inr True)"

definition Evaluate :: "Edge \<Rightarrow> gstate \<Rightarrow> string + bool" where
  "Evaluate edge state =
     (if e_Condition edge = [] then Inr True else evaluateSimpleCondition (e_Condition edge) state)"

text \<open>The node that stands for the target of an edge: of type function, whatever the target is.\<close>

definition placeholder_node :: "string \<Rightarrow> Node" where
  "placeholder_node target = \<lparr>n_ID = target, n_Type = NodeTypeFunction, n_Name = ''Node-'' @ target,
     n_Function = [], n_Config = Map.empty, n_Retries = 0, n_Timeout = 0, n_Conditional = None,
     n_CreatedAt = 0, n_UpdatedAt = 0\<rparr>"

text \<open>A nil edge is dereferenced: a panic.\<close>

fun GetNextNodes_loop :: "Node \<Rightarrow> Edge option list \<Rightarrow> gstate \<Rightarrow> Node list \<Rightarrow> (string, Node list) outcome" where
  "GetNextNodes_loop cur [] state nextNodes = Returns nextNodes"
| "GetNextNodes_loop cur (None # es) state nextNodes = Panics ''nil pointer dereference''"
| "GetNextNodes_loop cur (Some e # es) state nextNodes =
     (if e_Source e \<noteq> n_ID cur then GetNextNodes_loop cur es state nextNodes
      else (case Evaluate e state of
              Inl err \<Rightarrow> Fails (''failed to evaluate edge '' @ e_ID e @ '': '' @ err)
            | Inr shouldTraverse \<Rightarrow>
                GetNextNodes_loop cur es state
                  (if shouldTraverse then nextNodes @ [placeholder_node (e_Target e)] else nextNodes)))"

type_synonym evaluator = "Node \<Rightarrow> Edge option list \<Rightarrow> gstate \<Rightarrow> (string, Node list) outcome"

definition GetNextNodes :: evaluator where
  "GetNextNodes cur edges state = GetNextNodes_loop cur edges state []"

definition traversed :: "Node \<Rightarrow> gstate \<Rightarrow> Edge \<Rightarrow> bool" where
  "traversed cur state e \<longleftrightarrow> e_Source e = n_ID cur \<and> Evaluate e state = Inr True"

lemma Evaluate_total: "\<exists>b. Evaluate e s = Inr b"
  by (auto simp: Evaluate_def evaluateSimpleCondition_def split: option.splits)

lemma GetNextNodes_loop_result:
  "None \<notin> set edges \<Longrightarrow> GetNextNodes_loop cur edges state acc
     = Returns (acc @ map (placeholder_node \<circ> e_Target) (filter (traversed cur state) (map the edges)))"
proof (induction edges arbitrary: acc)
  case (Cons a edges)
  then obtain e where a: "a = Some e" by (cases a) auto
  obtain b where b: "Evaluate e state = Inr b" using Evaluate_total by blast
  show ?case using Cons a b by (auto simp: traversed_def)
qed simp

lemma GetNextNodes_result:
  "None \<notin> set edges \<Longrightarrow> GetNextNodes cur edges state
     = Returns (map (placeholder_node \<circ> e_Target) (filter (traversed cur state) (map the edges)))"
  by (simp add: GetNextNodes_def GetNextNodes_loop_result)

text \<open>The contract: the next nodes are targets of edges that leave the current node.\<close>

locale edge_evaluator =
  fixes next_nodes :: evaluator
  assumes next_total: "None \<notin> set edges \<Longrightarrow> \<exists>ns. next_nodes cur edges state = Returns ns"
    and next_edge: "None \<notin> set edges \<Longrightarrow> next_nodes cur edges state = Returns ns \<Longrightarrow> n \<in> set ns \<Longrightarrow>
      \<exists>e. Some e \<in> set edges \<and> e_Source e = n_ID cur \<and> e_Target e = n_ID n"
begin

definition next_node :: "Node \<Rightarrow> Edge option list \<Rightarrow> gstate \<Rightarrow> Node option" where
  "next_node cur edges state = (case next_nodes cur edges state of Returns (n # _) \<Rightarrow> Some n | _ \<Rightarrow> None)"

lemma next_node_edge:
  "None \<notin> set edges \<Longrightarrow> next_node cur edges state = Some n \<Longrightarrow>
     \<exists>e. Some e \<in> set edges \<and> e_Source e = n_ID cur \<and> e_Target e = n_ID n"
  using next_edge by (auto simp: next_node_def split: outcome.splits list.splits)

end

interpretation dflt: edge_evaluator GetNextNodes
proof (unfold_locales, goal_cases)
  case (1 edges cur state) then show ?case by (simp add: GetNextNodes_result)
next
  case (2 edges cur state ns n)
  then obtain p where p: "p \<in> set edges" "traversed cur state (the p)" "n = placeholder_node (e_Target (the p))"
    by (auto simp: GetNextNodes_result)
  moreover obtain e where "p = Some e" using p(1) 2(1) by (metis option.exhaust)
  ultimately show ?case by (auto simp: traversed_def placeholder_node_def)
qed

subsection \<open>The graph repository\<close>

type_synonym GraphRepository = "string \<rightharpoonup> Graph"

definition NewInMemoryGraphRepository :: GraphRepository where
  "NewInMemoryGraphRepository = Map.empty"

text \<open>Saving validates, which may write default edge types to the graph.\<close>

definition Repo_Save ::
  "string list \<Rightarrow> string list \<Rightarrow> Graph option \<Rightarrow> GraphRepository \<Rightarrow> graph_error option \<times> Graph option \<times> GraphRepository" where
  "Repo_Save ids ids' g r =
     (case ValidateCoreGraph ids ids' [] g of
        (Some err, g') \<Rightarrow> (Some err, g', r)
      | (None, g') \<Rightarrow> (None, g', (case g' of None \<Rightarrow> r | Some gr \<Rightarrow> r(g_ID gr \<mapsto> gr))))"

definition Repo_Get :: "string \<Rightarrow> GraphRepository \<Rightarrow> graph_error + Graph" where
  "Repo_Get gid r = (case r gid of None \<Rightarrow> Inl ErrGraphNotFound | Some g \<Rightarrow> Inr g)"

definition Repo_List :: "string list \<Rightarrow> GraphRepository \<Rightarrow> Graph list" where
  "Repo_List ids r = map (\<lambda>i. the (r i)) ids"

end
