(* ===== verification/Checkpoints.thy ===== *)
theory Checkpoints
  imports GoValue
begin

section \<open>Checkpoints and their savers (internal/core/checkpoint)\<close>

text \<open>
  The checkpoint data, its validation, the query filter, the errors, and the contract of the
  interface \<^verbatim>\<open>Saver\<close> as the locale \<open>checkpoint_store\<close>: what a sequential client
  that saves, loads and deletes can rely on. The in-memory saver interprets it.
\<close>

subsection \<open>Data\<close>

datatype cp_error =
    ErrInvalidCheckpointID | ErrInvalidGraphID | ErrInvalidThreadID | ErrNilState
  | ErrCheckpointNotFound | ErrInvalidLimit | ErrInvalidOffset | ErrInvalidTimeRange
  | ErrSaveFailed | ErrLoadFailed | ErrDeleteFailed
  | Wrapped string cp_error   \<comment> \<open>\<open>fmt.Errorf\<close> with \<open>%w\<close>: prefix and cause\<close>
  | OtherError string         \<comment> \<open>an error without a domain value in its chain\<close>

text \<open>\<open>State\<close> is \<open>None\<close> for a nil map, and so is \<open>Writes\<close>; times are in nanoseconds.\<close>

record Metadata =
  md_Step :: int
  md_Source :: string
  md_Writes :: "gstate option"
  md_UserID :: string
  md_CreatedBy :: string
  md_Tags :: "string list"

record Checkpoint =
  cp_ID :: string
  cp_GraphID :: string
  cp_ThreadID :: string
  cp_State :: "gstate option"
  cp_Metadata :: Metadata
  cp_Timestamp :: int
  cp_Version :: string

definition Checkpoint_Validate :: "Checkpoint \<Rightarrow> cp_error option" where
  "Checkpoint_Validate c =
     (if cp_ID c = [] then Some ErrInvalidCheckpointID
      else if cp_GraphID c = [] then Some ErrInvalidGraphID
      else if cp_ThreadID c = [] then Some ErrInvalidThreadID
      else if cp_State c = None then Some ErrNilState
      else None)"

record Filter =
  fl_GraphID :: string
  fl_ThreadID :: string
  fl_Limit :: int
  fl_Offset :: int
  fl_Since :: "int option"
  fl_Before :: "int option"
  fl_Tags :: "string list"

definition Filter_Validate :: "Filter \<Rightarrow> cp_error option" where
  "Filter_Validate f =
     (if fl_Limit f < 0 then Some ErrInvalidLimit
      else if fl_Offset f < 0 then Some ErrInvalidOffset
      else (case (fl_Since f, fl_Before f) of
              (Some s, Some b) \<Rightarrow> if b < s then Some ErrInvalidTimeRange else None
            | _ \<Rightarrow> None))"

subsection \<open>The contract of a saver\<close>

text \<open>
  The calls of one client in order. Each carries what its environment chooses (the clock, random
  bytes, faults): \<open>'env\<close>. A client whose call blocks or panics makes no further call.
\<close>

datatype 'env saver_op = SaveOp 'env Checkpoint | LoadOp 'env string | DeleteOp 'env string

definition ended :: "('e, 'a) outcome \<Rightarrow> bool" where
  "ended r \<longleftrightarrow> (case r of Returns _ \<Rightarrow> True | Fails _ \<Rightarrow> True | _ \<Rightarrow> False)"

text \<open>
  What the client knows: the last checkpoint saved with success under an ID and not deleted since.
\<close>

definition note_save :: "(Checkpoint \<Rightarrow> Checkpoint) \<Rightarrow> Checkpoint \<Rightarrow> ('e, unit) outcome
   \<Rightarrow> (string \<rightharpoonup> Checkpoint) \<Rightarrow> (string \<rightharpoonup> Checkpoint)" where
  "note_save view c r k = (if r = Returns () then k(cp_ID c \<mapsto> view c) else k)"

definition note_delete :: "string \<Rightarrow> ('e, unit) outcome \<Rightarrow> (string \<rightharpoonup> Checkpoint) \<Rightarrow> (string \<rightharpoonup> Checkpoint)" where
  "note_delete cid r k = (if r = Returns () then k(cid := None) else k)"

fun client_run ::
  "('env \<Rightarrow> Checkpoint \<Rightarrow> 's \<Rightarrow> ('e, unit) outcome \<times> 's) \<Rightarrow> ('env \<Rightarrow> string \<Rightarrow> 's \<Rightarrow> ('e, Checkpoint) outcome \<times> 's)
   \<Rightarrow> ('env \<Rightarrow> string \<Rightarrow> 's \<Rightarrow> ('e, unit) outcome \<times> 's) \<Rightarrow> (Checkpoint \<Rightarrow> Checkpoint)
   \<Rightarrow> 'env saver_op list \<Rightarrow> (string \<rightharpoonup> Checkpoint) \<times> 's \<Rightarrow> ((string \<rightharpoonup> Checkpoint) \<times> 's) option" where
  "client_run save load delete view [] ks = Some ks"
| "client_run save load delete view (SaveOp env c # ops) (k, s) =
     (case save env c s of
        (r, s') \<Rightarrow> if ended r then client_run save load delete view ops (note_save view c r k, s') else None)"
| "client_run save load delete view (LoadOp env cid # ops) (k, s) =
     (case load env cid s of
        (r, s') \<Rightarrow> if ended r then client_run save load delete view ops (k, s') else None)"
| "client_run save load delete view (DeleteOp env cid # ops) (k, s) =
     (case delete env cid s of
        (r, s') \<Rightarrow> if ended r then client_run save load delete view ops (note_delete cid r k, s') else None)"

text \<open>
  \<open>content\<close> is what is stored, \<open>view\<close> what the serialization leaves of a checkpoint, \<open>inv\<close>
  the saver's invariant. A saver may forget (expiry, eviction), but never mixes checkpoints up.
\<close>

locale checkpoint_store =
  fixes save :: "'env \<Rightarrow> Checkpoint \<Rightarrow> 's \<Rightarrow> ('e, unit) outcome \<times> 's"
    and load :: "'env \<Rightarrow> string \<Rightarrow> 's \<Rightarrow> ('e, Checkpoint) outcome \<times> 's"
    and delete :: "'env \<Rightarrow> string \<Rightarrow> 's \<Rightarrow> ('e, unit) outcome \<times> 's"
    and content :: "'s \<Rightarrow> string \<rightharpoonup> Checkpoint"
    and view :: "Checkpoint \<Rightarrow> Checkpoint"
    and inv :: "'s \<Rightarrow> bool"
  assumes save_inv: "inv s \<Longrightarrow> save env c s = (r, s') \<Longrightarrow> inv s'"
    and load_inv: "inv s \<Longrightarrow> load env cid s = (q, s') \<Longrightarrow> inv s'"
    and delete_inv: "inv s \<Longrightarrow> delete env cid s = (r, s') \<Longrightarrow> inv s'"
    and save_returns: "inv s \<Longrightarrow> save env c s = (Returns (), s') \<Longrightarrow> content s' = (content s)(cp_ID c \<mapsto> view c)"
    and save_fails: "inv s \<Longrightarrow> save env c s = (Fails err, s') \<Longrightarrow> content s' \<subseteq>\<^sub>m content s"
    and load_returns: "inv s \<Longrightarrow> load env cid s = (Returns c, s') \<Longrightarrow> content s cid = Some c \<and> content s' = content s"
    and load_fails: "inv s \<Longrightarrow> load env cid s = (Fails err, s') \<Longrightarrow> content s' \<subseteq>\<^sub>m content s"
    and delete_returns: "inv s \<Longrightarrow> delete env cid s = (Returns (), s') \<Longrightarrow> content s' = (content s)(cid := None)"
    and delete_fails: "inv s \<Longrightarrow> delete env cid s = (Fails err, s') \<Longrightarrow> content s' \<subseteq>\<^sub>m content s"
begin

lemma save_noted:
  assumes "inv s" and "content s \<subseteq>\<^sub>m k" and "save env c s = (r, s')" and "ended r"
  shows "inv s' \<and> content s' \<subseteq>\<^sub>m note_save view c r k"
proof (cases r)
  case (Returns u)
  with assms save_returns [OF assms(1), of env c s'] show ?thesis
    using save_inv [OF assms(1,3)] by (auto simp: note_save_def map_le_def)
next
  case (Fails err)
  with assms save_fails [OF assms(1), of env c err s'] show ?thesis
    using save_inv [OF assms(1,3)] by (auto simp: note_save_def intro: map_le_trans)
qed (use assms(4) in \<open>auto simp: ended_def\<close>)

lemma load_noted:
  assumes "inv s" and "content s \<subseteq>\<^sub>m k" and "load env cid s = (r, s')" and "ended r"
  shows "inv s' \<and> content s' \<subseteq>\<^sub>m k"
proof (cases r)
  case (Returns c)
  with assms load_returns [OF assms(1), of env cid c s'] show ?thesis
    using load_inv [OF assms(1,3)] by auto
next
  case (Fails err)
  with assms load_fails [OF assms(1), of env cid err s'] show ?thesis
    using load_inv [OF assms(1,3)] by (auto intro: map_le_trans)
qed (use assms(4) in \<open>auto simp: ended_def\<close>)

lemma delete_noted:
  assumes "inv s" and "content s \<subseteq>\<^sub>m k" and "delete env cid s = (r, s')" and "ended r"
  shows "inv s' \<and> content s' \<subseteq>\<^sub>m note_delete cid r k"
proof (cases r)
  case (Returns u)
  with assms delete_returns [OF assms(1), of env cid s'] show ?thesis
    using delete_inv [OF assms(1,3)] by (auto simp: note_delete_def map_le_def split: if_splits)
next
  case (Fails err)
  with assms delete_fails [OF assms(1), of env cid err s'] show ?thesis
    using delete_inv [OF assms(1,3)] by (auto simp: note_delete_def intro: map_le_trans)
qed (use assms(4) in \<open>auto simp: ended_def\<close>)

lemma run_content:
  "client_run save load delete view ops (k, s) = Some (k', s') \<Longrightarrow> inv s \<Longrightarrow> content s \<subseteq>\<^sub>m k
   \<Longrightarrow> inv s' \<and> content s' \<subseteq>\<^sub>m k'"
proof (induction ops arbitrary: k s)
  case (Cons op ops)
  show ?case
  proof (cases op)
    case (SaveOp env c)
    obtain r s1 where "save env c s = (r, s1)" by fastforce
    with Cons SaveOp save_noted [OF Cons.prems(2,3) this] show ?thesis by (auto split: if_splits)
  next
    case (LoadOp env cid)
    obtain r s1 where "load env cid s = (r, s1)" by fastforce
    with Cons LoadOp load_noted [OF Cons.prems(2,3) this] show ?thesis by (auto split: if_splits)
  next
    case (DeleteOp env cid)
    obtain r s1 where "delete env cid s = (r, s1)" by fastforce
    with Cons DeleteOp delete_noted [OF Cons.prems(2,3) this] show ?thesis by (auto split: if_splits)
  qed
qed simp

text \<open>A load that returns gives what was last saved under the ID.\<close>

lemma loads_last_save:
  assumes "client_run save load delete view ops (content s, s) = Some (k, s1)" and "inv s"
    and "load env cid s1 = (Returns c, s2)"
  shows "k cid = Some c"
proof -
  from run_content [OF assms(1,2)] have "inv s1" "content s1 \<subseteq>\<^sub>m k" by auto
  with load_returns [OF _ assms(3)] show ?thesis by (auto simp: map_le_def dom_def)
qed

end

end
