(* ===== verification/Serialization.thy ===== *)
theory Serialization
  imports FG_Prelude
begin

section \<open>Serialization of checkpoints (pkg/serialization/serializer.go)\<close>

text \<open>
  The pipeline codec, compression, encryption of \<^verbatim>\<open>Serializer\<close>. The codecs
  (\<^verbatim>\<open>encoding/json\<close>, msgpack), the compressors (gzip, zstd) and AES-GCM are not part of
  the repository: they are the fields of the record \<open>Externals\<close>, an argument of the
  definitions, and \<open>lawful\<close> states what their documentation promises and the program relies
  on. The main result is that \<^verbatim>\<open>Deserialize\<close> inverts \<^verbatim>\<open>Serialize\<close> for every
  configuration.
\<close>

type_synonym bytes = "8 word list"

subsection \<open>What the repository calls\<close>

record 'v Externals =
  x_json_marshal :: "'v \<Rightarrow> string + bytes"
  x_json_unmarshal :: "bytes \<Rightarrow> string + 'v"
  x_msgpack_marshal :: "'v \<Rightarrow> string + bytes"
  x_msgpack_unmarshal :: "bytes \<Rightarrow> string + 'v"
  x_gzip_write :: "bytes \<Rightarrow> string + bytes"        \<comment> \<open>\<open>Write\<close> then \<open>Close\<close> on a \<open>gzip.Writer\<close>\<close>
  x_gzip_read :: "bytes \<Rightarrow> string + bytes"         \<comment> \<open>\<open>NewReader\<close> then \<open>io.ReadAll\<close>\<close>
  x_zstd_encode :: "bytes \<Rightarrow> string + bytes"       \<comment> \<open>\<open>NewWriter\<close> then \<open>EncodeAll\<close>\<close>
  x_zstd_decode :: "bytes \<Rightarrow> string + bytes"
  x_new_cipher :: "bytes \<Rightarrow> string option"         \<comment> \<open>the error of \<open>aes.NewCipher\<close>\<close>
  x_nonce_size :: nat
  x_seal :: "bytes \<Rightarrow> bytes \<Rightarrow> bytes \<Rightarrow> bytes"       \<comment> \<open>key, nonce, plain text\<close>
  x_open :: "bytes \<Rightarrow> bytes \<Rightarrow> bytes \<Rightarrow> string + bytes"

text \<open>
  The documented behaviour: decompressing what was compressed, and opening what was sealed with the
  same key and nonce, give the data back.
\<close>

definition lawful :: "'v Externals \<Rightarrow> bool" where
  "lawful x \<longleftrightarrow>
     (\<forall>d z. x_gzip_write x d = Inr z \<longrightarrow> x_gzip_read x z = Inr d)
     \<and> (\<forall>d z. x_zstd_encode x d = Inr z \<longrightarrow> x_zstd_decode x z = Inr d)
     \<and> (\<forall>k n d. length n = x_nonce_size x \<longrightarrow> x_open x k n (x_seal x k n d) = Inr d)"

subsection \<open>The serializer\<close>

record 'v Codec =
  cd_Encode :: "'v \<Rightarrow> string + bytes"
  cd_Decode :: "bytes \<Rightarrow> string + 'v"
  cd_Name :: string

definition NewJSONCodec :: "'v Externals \<Rightarrow> 'v Codec" where
  "NewJSONCodec x = \<lparr>cd_Encode = x_json_marshal x, cd_Decode = x_json_unmarshal x, cd_Name = ''json''\<rparr>"

definition NewMsgPackCodec :: "'v Externals \<Rightarrow> 'v Codec" where
  "NewMsgPackCodec x =
     \<lparr>cd_Encode = x_msgpack_marshal x, cd_Decode = x_msgpack_unmarshal x, cd_Name = ''msgpack''\<rparr>"

type_synonym CompressionType = string

definition CompressionNone :: CompressionType where "CompressionNone = ''none''"
definition CompressionGzip :: CompressionType where "CompressionGzip = ''gzip''"
definition CompressionZstd :: CompressionType where "CompressionZstd = ''zstd''"

text \<open>A nil \<^verbatim>\<open>Codec\<close> is \<open>None\<close>: calling it panics.\<close>

record 'v SerializationConfig =
  szr_Codec :: "'v Codec option"
  szr_Compression :: CompressionType
  szr_EncryptKey :: bytes

definition compressGzip :: "'v Externals \<Rightarrow> bytes \<Rightarrow> string + bytes" where
  "compressGzip x data = x_gzip_write x data"

definition decompressGzip :: "'v Externals \<Rightarrow> bytes \<Rightarrow> string + bytes" where
  "decompressGzip x data = x_gzip_read x data"

definition compressZstd :: "'v Externals \<Rightarrow> bytes \<Rightarrow> string + bytes" where
  "compressZstd x data = x_zstd_encode x data"

definition decompressZstd :: "'v Externals \<Rightarrow> bytes \<Rightarrow> string + bytes" where
  "decompressZstd x data = x_zstd_decode x data"

definition compress :: "'v Externals \<Rightarrow> 'v SerializationConfig \<Rightarrow> bytes \<Rightarrow> string + bytes" where
  "compress x s data =
     (if szr_Compression s = CompressionNone then Inr data
      else if szr_Compression s = CompressionGzip then compressGzip x data
      else if szr_Compression s = CompressionZstd then compressZstd x data
      else Inr data)"

definition decompress :: "'v Externals \<Rightarrow> 'v SerializationConfig \<Rightarrow> bytes \<Rightarrow> string + bytes" where
  "decompress x s data =
     (if szr_Compression s = CompressionNone then Inr data
      else if szr_Compression s = CompressionGzip then decompressGzip x data
      else if szr_Compression s = CompressionZstd then decompressZstd x data
      else Inr data)"

text \<open>
  The random source: an error, or its bytes. \<^verbatim>\<open>io.ReadFull\<close> fills the buffer from them.
\<close>

type_synonym random = "string + (nat \<Rightarrow> 8 word)"

definition read_full :: "nat \<Rightarrow> random \<Rightarrow> string + bytes" where
  "read_full n rnd = (case rnd of Inl err \<Rightarrow> Inl err | Inr f \<Rightarrow> Inr (map f [0..<n]))"

definition encrypt ::
  "'v Externals \<Rightarrow> 'v SerializationConfig \<Rightarrow> random \<Rightarrow> bytes \<Rightarrow> string + bytes" where
  "encrypt x s rnd data =
     (case x_new_cipher x (szr_EncryptKey s) of
        Some err \<Rightarrow> Inl err
      | None \<Rightarrow>
          (case read_full (x_nonce_size x) rnd of
             Inl err \<Rightarrow> Inl err
           | Inr nonce \<Rightarrow> Inr (nonce @ x_seal x (szr_EncryptKey s) nonce data)))"

definition decrypt :: "'v Externals \<Rightarrow> 'v SerializationConfig \<Rightarrow> bytes \<Rightarrow> string + bytes" where
  "decrypt x s data =
     (case x_new_cipher x (szr_EncryptKey s) of
        Some err \<Rightarrow> Inl err
      | None \<Rightarrow>
          if length data < x_nonce_size x then Inl ''invalid ciphertext size''
          else x_open x (szr_EncryptKey s) (take (x_nonce_size x) data) (drop (x_nonce_size x) data))"

definition Serialize ::
  "'v Externals \<Rightarrow> 'v SerializationConfig \<Rightarrow> random \<Rightarrow> 'v \<Rightarrow> (string, bytes) outcome" where
  "Serialize x s rnd v =
     (case szr_Codec s of
        None \<Rightarrow> Panics ''nil pointer dereference''
      | Some codec \<Rightarrow>
          (case cd_Encode codec v of
             Inl err \<Rightarrow> Fails (''codec encoding failed: '' @ err)
           | Inr data \<Rightarrow>
               (case compress x s data of
                  Inl err \<Rightarrow> Fails (''compression failed: '' @ err)
                | Inr data \<Rightarrow>
                    if szr_EncryptKey s \<noteq> [] then
                      (case encrypt x s rnd data of
                         Inl err \<Rightarrow> Fails (''encryption failed: '' @ err)
                       | Inr data \<Rightarrow> Returns data)
                    else Returns data)))"

definition Deserialize ::
  "'v Externals \<Rightarrow> 'v SerializationConfig \<Rightarrow> bytes \<Rightarrow> (string, 'v) outcome" where
  "Deserialize x s data =
     (case (if szr_EncryptKey s \<noteq> [] then decrypt x s data else Inr data) of
        Inl err \<Rightarrow> Fails (''decryption failed: '' @ err)
      | Inr data \<Rightarrow>
          (case decompress x s data of
             Inl err \<Rightarrow> Fails (''decompression failed: '' @ err)
           | Inr data \<Rightarrow>
               (case szr_Codec s of
                  None \<Rightarrow> Panics ''nil pointer dereference''
                | Some codec \<Rightarrow>
                    (case cd_Decode codec data of
                       Inl err \<Rightarrow> Fails (''codec decoding failed: '' @ err)
                     | Inr v \<Rightarrow> Returns v))))"

definition DefaultSerializer :: "'v Externals \<Rightarrow> 'v SerializationConfig" where
  "DefaultSerializer x = \<lparr>szr_Codec = Some (NewMsgPackCodec x), szr_Compression = CompressionZstd,
     szr_EncryptKey = []\<rparr>"

subsection \<open>Each stage is inverted\<close>

lemma decompress_compress: "lawful x \<Longrightarrow> compress x s d = Inr z \<Longrightarrow> decompress x s z = Inr d"
  by (auto simp: lawful_def compress_def decompress_def compressGzip_def decompressGzip_def
      compressZstd_def decompressZstd_def split: if_splits)

lemma decrypt_encrypt:
  "lawful x \<Longrightarrow> encrypt x s rnd d = Inr z \<Longrightarrow> decrypt x s z = Inr d"
  by (auto simp: lawful_def read_full_def encrypt_def decrypt_def split: option.splits sum.splits)

lemma Serialize_cases:
  assumes "Serialize x s rnd v = Returns data"
  obtains codec d z where "szr_Codec s = Some codec" and "cd_Encode codec v = Inr d"
    and "compress x s d = Inr z"
    and "if szr_EncryptKey s = [] then data = z else encrypt x s rnd z = Inr data"
  using assms by (auto simp: Serialize_def split: option.splits sum.splits if_splits)

text \<open>
  C22: Deserializing inverts serializing. For every configuration (codec, compression, key) and every
  random source, whenever \<^verbatim>\<open>Serialize\<close> returns data, \<^verbatim>\<open>Deserialize\<close> of the
  data with the same configuration is exactly what the codec makes of the encoded value: no
  compression or encryption error is left.
\<close>

theorem serialize_round_trip:
  assumes "lawful x" and "Serialize x s rnd v = Returns data"
  shows "\<exists>codec d. szr_Codec s = Some codec \<and> cd_Encode codec v = Inr d
    \<and> Deserialize x s data = (case cd_Decode codec d of
        Inl err \<Rightarrow> Fails (''codec decoding failed: '' @ err) | Inr v' \<Rightarrow> Returns v')"
proof -
  from assms(2) obtain codec d z where c: "szr_Codec s = Some codec" "cd_Encode codec v = Inr d"
    and z: "compress x s d = Inr z"
    and data: "if szr_EncryptKey s = [] then data = z else encrypt x s rnd z = Inr data"
    by (rule Serialize_cases)
  have "(if szr_EncryptKey s \<noteq> [] then decrypt x s data else Inr data) = Inr z"
    using data decrypt_encrypt [OF assms(1)] by (auto split: if_splits)
  with c decompress_compress [OF assms(1) z] show ?thesis
    by (simp add: Deserialize_def)
qed

text \<open>
  A concrete library for the witnesses: compression that adds a header byte, a cipher that adds the
  first key byte to every byte, a codec of bytes.
\<close>

definition sample_externals :: "bytes Externals" where
  "sample_externals =
     \<lparr>x_json_marshal = Inr, x_json_unmarshal = Inr, x_msgpack_marshal = Inr, x_msgpack_unmarshal = Inr,
      x_gzip_write = (\<lambda>d. Inr (31 # d)), x_gzip_read = (\<lambda>d. if d = [] then Inl ''EOF'' else Inr (tl d)),
      x_zstd_encode = (\<lambda>d. Inr (40 # d)), x_zstd_decode = (\<lambda>d. if d = [] then Inl ''EOF'' else Inr (tl d)),
      x_new_cipher = (\<lambda>k. if length k \<in> {16, 24, 32} then None else Some ''invalid key size''),
      x_nonce_size = 2, x_seal = (\<lambda>k n d. map (\<lambda>b. b + hd k) d),
      x_open = (\<lambda>k n d. Inr (map (\<lambda>b. b - hd k) d))\<rparr>"

lemma sample_lawful: "lawful sample_externals"
  by (auto simp: lawful_def sample_externals_def o_def)

theorem serialize_round_trip_witness:
  "Deserialize sample_externals
     \<lparr>szr_Codec = Some (NewJSONCodec sample_externals), szr_Compression = ''gzip'', szr_EncryptKey = replicate 16 7\<rparr>
     [5, 6, 38, 8, 9] = Returns [1, 2]"
proof -
  let ?s = "\<lparr>szr_Codec = Some (NewJSONCodec sample_externals), szr_Compression = ''gzip'', szr_EncryptKey = replicate 16 7\<rparr>"
  let ?rnd = "Inr (\<lambda>i. 5 + of_nat i) :: random"
  have "Serialize sample_externals ?s ?rnd [1, 2] = Returns [5, 6, 38, 8, 9]"
    by (simp add: Serialize_def NewJSONCodec_def sample_externals_def compress_def CompressionNone_def
        CompressionGzip_def compressGzip_def encrypt_def
        read_full_def upt_rec)
  then show ?thesis
    using serialize_round_trip [OF sample_lawful, of ?s ?rnd "[1, 2]" "[5, 6, 38, 8, 9]"]
    by (auto simp: NewJSONCodec_def sample_externals_def)
qed

end
