(* ===== verification/MemorySaver.thy ===== *)
theory MemorySaver
  imports Checkpoints Serialization
begin

section \<open>The in-memory checkpoint saver (internal/adapters/repository/memory/checkpoint.go)\<close>

text \<open>
  \<^verbatim>\<open>InMemorySaver\<close>: entries with serialized data, time to live, a memory limit with
  eviction of the least recently used entries. The mutexes of the size and of the maps are atomic;
  \<^verbatim>\<open>orderMutex\<close> is a field, because \<^verbatim>\<open>evictLRU\<close> holds it while it calls
  \<^verbatim>\<open>delete\<close>, which locks it again. Clock readings, random bytes and the orders of
  \<^verbatim>\<open>Range\<close> loops are arguments.
\<close>

record checkpointEntry =
  ent_checkpoint :: Checkpoint
  ent_data :: bytes
  ent_size :: int
  ent_createdAt :: int
  ent_accessedAt :: int

record InMemoryConfig =
  imc_DefaultTTL :: int
  imc_MaxMemoryMB :: int
  imc_CleanupInterval :: int
  imc_Serializer :: "Checkpoint SerializationConfig option"

record InMemorySaver =
  ms_checkpoints :: "string \<rightharpoonup> checkpointEntry"
  ms_ttlMap :: "string \<rightharpoonup> int"
  ms_defaultTTL :: int
  ms_maxMemoryMB :: int
  ms_currentSize :: int
  ms_accessOrder :: "string \<rightharpoonup> int"
  ms_orderHeld :: bool          \<comment> \<open>\<open>orderMutex\<close> is held by a goroutine that waits for it\<close>
  ms_serializer :: "Checkpoint SerializationConfig"
  ms_cleanupStopped :: bool

definition hour :: int where "hour = 3600 * 10 ^ 9"

definition NewInMemorySaver :: "Checkpoint Externals \<Rightarrow> InMemoryConfig \<Rightarrow> InMemorySaver" where
  "NewInMemorySaver x config =
     \<lparr>ms_checkpoints = Map.empty, ms_ttlMap = Map.empty,
      ms_defaultTTL = (if imc_DefaultTTL config = 0 then 24 * hour else imc_DefaultTTL config),
      ms_maxMemoryMB = (if imc_MaxMemoryMB config = 0 then 1024 else imc_MaxMemoryMB config),
      ms_currentSize = 0, ms_accessOrder = Map.empty, ms_orderHeld = False,
      ms_serializer = (case imc_Serializer config of None \<Rightarrow> DefaultSerializer x | Some s \<Rightarrow> s),
      ms_cleanupStopped = False\<rparr>"

definition DefaultInMemorySaver :: "Checkpoint Externals \<Rightarrow> InMemorySaver" where
  "DefaultInMemorySaver x = NewInMemorySaver x \<lparr>imc_DefaultTTL = 0, imc_MaxMemoryMB = 0,
     imc_CleanupInterval = 0, imc_Serializer = None\<rparr>"

definition isExpired :: "int \<Rightarrow> string \<Rightarrow> InMemorySaver \<Rightarrow> bool" where
  "isExpired now cid s = (case ms_ttlMap s cid of None \<Rightarrow> False | Some expiry \<Rightarrow> expiry < now)"

text \<open>
  The access order is written under \<^verbatim>\<open>orderMutex\<close>: when the lock is never released
  again, the caller waits with everything before it done.
\<close>

definition with_order ::
  "((string \<rightharpoonup> int) \<Rightarrow> (string \<rightharpoonup> int)) \<Rightarrow> InMemorySaver \<Rightarrow> (cp_error, unit) outcome \<times> InMemorySaver" where
  "with_order f s =
     (if ms_orderHeld s then (Blocks, s) else (Returns (), s\<lparr>ms_accessOrder := f (ms_accessOrder s)\<rparr>))"

definition saver_delete :: "string \<Rightarrow> InMemorySaver \<Rightarrow> (cp_error, unit) outcome \<times> InMemorySaver" where
  "saver_delete cid s =
     (let s1 = (case ms_checkpoints s cid of
                  None \<Rightarrow> s
                | Some entry \<Rightarrow> s\<lparr>ms_checkpoints := (ms_checkpoints s)(cid := None),
                                 ms_currentSize := ms_currentSize s - ent_size entry\<rparr>);
          s2 = s1\<lparr>ms_ttlMap := (ms_ttlMap s1)(cid := None)\<rparr>
      in with_order (\<lambda>ao. ao(cid := None)) s2)"

subsection \<open>Eviction\<close>

text \<open>
  The exchange sort of the items by their access time: \<open>i\<close> is compared with every later \<open>j\<close>.
\<close>

definition swap_if_after :: "nat \<Rightarrow> (string \<times> int) list \<Rightarrow> nat \<Rightarrow> (string \<times> int) list" where
  "swap_if_after i xs j =
     (if snd (xs ! j) < snd (xs ! i) then xs[i := xs ! j, j := xs ! i] else xs)"

definition sort_items :: "(string \<times> int) list \<Rightarrow> (string \<times> int) list" where
  "sort_items items =
     foldl (\<lambda>xs i. foldl (swap_if_after i) xs [Suc i..<length xs]) items [0..<length items]"

text \<open>
  The evicting loop; \<^verbatim>\<open>orderMutex\<close> is held, so the first \<^verbatim>\<open>delete\<close> waits for
  ever.
\<close>

fun evict_loop ::
  "(string \<times> int) list \<Rightarrow> int \<Rightarrow> int \<Rightarrow> InMemorySaver \<Rightarrow> (cp_error, int) outcome \<times> InMemorySaver" where
  "evict_loop [] targetBytes freedBytes s = (Returns freedBytes, s)"
| "evict_loop ((cid, t) # items) targetBytes freedBytes s =
     (if targetBytes \<le> freedBytes then (Returns freedBytes, s)
      else (case ms_checkpoints s cid of
              None \<Rightarrow> evict_loop items targetBytes freedBytes s
            | Some entry \<Rightarrow>
                (case saver_delete cid s of
                   (Returns _, s') \<Rightarrow> evict_loop items targetBytes (freedBytes + ent_size entry) s'
                 | (_, s') \<Rightarrow> (Deadlocks, s'))))"

definition access_items :: "string list \<Rightarrow> InMemorySaver \<Rightarrow> (string \<times> int) list" where
  "access_items ids s = map (\<lambda>cid. (cid, the (ms_accessOrder s cid))) ids"

definition evictLRU :: "string list \<Rightarrow> int \<Rightarrow> InMemorySaver \<Rightarrow> (cp_error, int) outcome \<times> InMemorySaver" where
  "evictLRU ids targetBytes s =
     (if ms_orderHeld s then (Blocks, s)
      else (case evict_loop (sort_items (access_items ids s)) targetBytes 0 (s\<lparr>ms_orderHeld := True\<rparr>) of
              (Returns freed, s') \<Rightarrow> (Returns freed, s'\<lparr>ms_orderHeld := False\<rparr>)
            | (r, s') \<Rightarrow> (r, s')))"

definition max_bytes :: "InMemorySaver \<Rightarrow> int" where
  "max_bytes s = i64 (ms_maxMemoryMB s * 1024 * 1024)"

definition checkMemoryLimit :: "string list \<Rightarrow> int \<Rightarrow> InMemorySaver \<Rightarrow> (cp_error, unit) outcome \<times> InMemorySaver" where
  "checkMemoryLimit ids newSize s =
     (let currentSize = ms_currentSize s; maxSize = max_bytes s in
      if maxSize < currentSize + newSize then
        (case evictLRU ids (currentSize + newSize - maxSize) s of
           (Returns freed, s') \<Rightarrow>
             if freed < currentSize + newSize - maxSize
             then (Fails (OtherError (''memory limit exceeded: current='' @ show_int (currentSize div (1024 * 1024))
                     @ ''MB, max='' @ show_int (ms_maxMemoryMB s) @ ''MB'')), s')
             else (Returns (), s')
         | (Fails err, s') \<Rightarrow> (Fails err, s') | (Blocks, s') \<Rightarrow> (Blocks, s')
         | (Deadlocks, s') \<Rightarrow> (Deadlocks, s') | (Panics p, s') \<Rightarrow> (Panics p, s'))
      else (Returns (), s))"

subsection \<open>The operations\<close>

text \<open>The choices of a call: the clock, the random source, the orders of the loops.\<close>

record saver_env =
  env_now :: int
  env_later :: int               \<comment> \<open>a second reading of the clock\<close>
  env_rnd :: random
  env_ids :: "string list"       \<comment> \<open>the order of the loop over \<open>accessOrder\<close>\<close>

definition MemSave ::
  "Checkpoint Externals \<Rightarrow> saver_env \<Rightarrow> Checkpoint \<Rightarrow> InMemorySaver \<Rightarrow> (cp_error, unit) outcome \<times> InMemorySaver" where
  "MemSave x env cp s =
     (case Checkpoint_Validate cp of
        Some err \<Rightarrow> (Fails (Wrapped ''checkpoint validation failed'' err), s)
      | None \<Rightarrow>
          (case Serialize x (ms_serializer s) (env_rnd env) cp of
             Fails err \<Rightarrow> (Fails (OtherError (''checkpoint serialization failed: '' @ err)), s)
           | Panics p \<Rightarrow> (Panics p, s) | Blocks \<Rightarrow> (Blocks, s) | Deadlocks \<Rightarrow> (Deadlocks, s)
           | Returns data \<Rightarrow>
               (case checkMemoryLimit (env_ids env) (int (length data)) s of
                  (Returns _, s1) \<Rightarrow>
                    (let now = env_now env;
                         entry = \<lparr>ent_checkpoint = cp, ent_data = data, ent_size = int (length data),
                                  ent_createdAt = now, ent_accessedAt = now\<rparr>;
                         s2 = s1\<lparr>ms_checkpoints := (ms_checkpoints s1)(cp_ID cp \<mapsto> entry),
                                 ms_ttlMap := (ms_ttlMap s1)(cp_ID cp \<mapsto> now + ms_defaultTTL s1)\<rparr>
                     in case with_order (\<lambda>ao. ao(cp_ID cp \<mapsto> now)) s2 of
                          (Returns _, s3) \<Rightarrow>
                            (Returns (), s3\<lparr>ms_currentSize := ms_currentSize s3 + int (length data)\<rparr>)
                        | (r, s3) \<Rightarrow> (r, s3))
                | (r, s1) \<Rightarrow> (r, s1))))"

text \<open>The first reading of the clock is for the expiry, the second for the access time.\<close>

definition MemLoad ::
  "Checkpoint Externals \<Rightarrow> saver_env \<Rightarrow> string \<Rightarrow> InMemorySaver \<Rightarrow> (cp_error, Checkpoint) outcome \<times> InMemorySaver" where
  "MemLoad x env cid s =
     (case ms_checkpoints s cid of
        None \<Rightarrow> (Fails ErrCheckpointNotFound, s)
      | Some entry \<Rightarrow>
          if isExpired (env_now env) cid s then
            (case saver_delete cid s of
               (Returns _, s') \<Rightarrow> (Fails ErrCheckpointNotFound, s')
             | (_, s') \<Rightarrow> (Blocks, s'))
          else
            (let now = env_later env;
                 s1 = s\<lparr>ms_checkpoints := (ms_checkpoints s)(cid \<mapsto> entry\<lparr>ent_accessedAt := now\<rparr>)\<rparr>
             in case with_order (\<lambda>ao. ao(cid \<mapsto> now)) s1 of
                  (Returns _, s2) \<Rightarrow>
                    (case Deserialize x (ms_serializer s2) (ent_data entry) of
                       Returns cp \<Rightarrow> (Returns cp, s2)
                     | Fails err \<Rightarrow> (Fails (OtherError (''checkpoint deserialization failed: '' @ err)), s2)
                     | Blocks \<Rightarrow> (Blocks, s2) | Deadlocks \<Rightarrow> (Deadlocks, s2) | Panics p \<Rightarrow> (Panics p, s2))
                | (_, s2) \<Rightarrow> (Blocks, s2)))"

definition MemDelete :: "string \<Rightarrow> InMemorySaver \<Rightarrow> (cp_error, unit) outcome \<times> InMemorySaver" where
  "MemDelete cid s =
     (if ms_checkpoints s cid = None then (Fails ErrCheckpointNotFound, s) else saver_delete cid s)"

text \<open>
  \<^verbatim>\<open>Range\<close> visits the entries in some order; each visit reads the clock.
\<close>

definition list_matches :: "Filter \<Rightarrow> Checkpoint \<Rightarrow> bool" where
  "list_matches f cp \<longleftrightarrow>
     (fl_GraphID f = [] \<or> cp_GraphID cp = fl_GraphID f)
     \<and> (fl_ThreadID f = [] \<or> cp_ThreadID cp = fl_ThreadID f)
     \<and> (case fl_Since f of None \<Rightarrow> True | Some since \<Rightarrow> \<not> cp_Timestamp cp < since)"

fun list_loop ::
  "Filter \<Rightarrow> (string \<times> int) list \<Rightarrow> int \<Rightarrow> int \<Rightarrow> Checkpoint list \<Rightarrow> InMemorySaver
   \<Rightarrow> (cp_error, Checkpoint list) outcome \<times> InMemorySaver" where
  "list_loop f [] matchCount resultCount results s = (Returns results, s)"
| "list_loop f ((cid, now) # visits) matchCount resultCount results s =
     (case ms_checkpoints s cid of
        None \<Rightarrow> list_loop f visits matchCount resultCount results s
      | Some entry \<Rightarrow>
          if isExpired now cid s then
            (case saver_delete cid s of
               (Returns _, s') \<Rightarrow> list_loop f visits matchCount resultCount results s'
             | (_, s') \<Rightarrow> (Blocks, s'))
          else if \<not> list_matches f (ent_checkpoint entry)
          then list_loop f visits matchCount resultCount results s
          else if 0 < fl_Offset f \<and> matchCount < fl_Offset f
          then list_loop f visits (matchCount + 1) resultCount results s
          else if 0 < fl_Limit f \<and> fl_Limit f \<le> resultCount then (Returns results, s)
          else list_loop f visits (matchCount + 1) (resultCount + 1) (results @ [ent_checkpoint entry]) s)"

definition MemList ::
  "(string \<times> int) list \<Rightarrow> Filter \<Rightarrow> InMemorySaver \<Rightarrow> (cp_error, Checkpoint list) outcome \<times> InMemorySaver" where
  "MemList visits f s =
     (case Filter_Validate f of
        Some err \<Rightarrow> (Fails (Wrapped ''filter validation failed'' err), s)
      | None \<Rightarrow> list_loop f visits 0 0 [] s)"

text \<open>One tick of the clean-up goroutine: the expired keys, then their deletion.\<close>

definition expired_keys :: "(string \<times> int) list \<Rightarrow> InMemorySaver \<Rightarrow> string list" where
  "expired_keys visits s = map fst (filter (\<lambda>(cid, now). isExpired now cid s) visits)"

fun delete_keys :: "string list \<Rightarrow> InMemorySaver \<Rightarrow> (cp_error, unit) outcome \<times> InMemorySaver" where
  "delete_keys [] s = (Returns (), s)"
| "delete_keys (cid # ids) s =
     (case saver_delete cid s of
        (Returns _, s') \<Rightarrow> delete_keys ids s'
      | (r, s') \<Rightarrow> (r, s'))"

definition cleanupExpired :: "(string \<times> int) list \<Rightarrow> InMemorySaver \<Rightarrow> (cp_error, unit) outcome \<times> InMemorySaver" where
  "cleanupExpired visits s = delete_keys (expired_keys visits s) s"

definition MemClose :: "InMemorySaver \<Rightarrow> InMemorySaver" where
  "MemClose s = s\<lparr>ms_cleanupStopped := True\<rparr>"

text \<open>
  The statistics. \<^verbatim>\<open>float64(currentSize) / 2^20\<close> truncated is the integer quotient for
  sizes that \<^verbatim>\<open>float64\<close> represents (below 2^53 bytes). \<open>ids\<close> is the order of the
  counting loop.
\<close>

record MemoryStats =
  mst_Count :: nat
  mst_SizeMB :: int
  mst_MaxSizeMB :: int
  mst_Utilization :: f64

definition GetStats :: "string list \<Rightarrow> InMemorySaver \<Rightarrow> MemoryStats" where
  "GetStats ids s =
     (let sizeMBFloat = f_div (f_of_int (word_of_int (ms_currentSize s))) (f_of_int (1024 * 1024));
          sizeMB = ms_currentSize s sdiv (1024 * 1024)
      in \<lparr>mst_Count = length ids,
          mst_SizeMB = (if sizeMB = 0 \<and> 0 < ms_currentSize s then 1 else sizeMB),
          mst_MaxSizeMB = ms_maxMemoryMB s,
          mst_Utilization = (if 0 < ms_maxMemoryMB s
             then f_mul (f_div sizeMBFloat (f_of_int (word_of_int (ms_maxMemoryMB s)))) (f_of_int 100)
             else 0)\<rparr>)"

end
