(* ===== verification/MemorySaverProps.thy ===== *)
theory MemorySaverProps
  imports MemorySaver
begin

section \<open>Properties of the in-memory saver\<close>

text \<open>
  The exchange sort sorts; what each operation does to entries, size and access order; the
  interpretation of the saver contract; the outcome of every save against the memory limit, and
  what the eviction's lock does to the saver.
\<close>

subsection \<open>The exchange sort\<close>

definition least_from :: "nat \<Rightarrow> (string \<times> int) list \<Rightarrow> bool" where
  "least_from i xs \<longleftrightarrow> (\<forall>a b. a < i \<longrightarrow> a < b \<longrightarrow> b < length xs \<longrightarrow> snd (xs ! a) \<le> snd (xs ! b))"

lemma length_swap_if_after [simp]: "length (swap_if_after i xs j) = length xs"
  by (simp add: swap_if_after_def)

lemma mset_swap_if_after: "i < length xs \<Longrightarrow> j < length xs \<Longrightarrow> mset (swap_if_after i xs j) = mset xs"
  by (simp add: swap_if_after_def mset_swap)

lemma least_from_swap: "least_from i xs \<Longrightarrow> i < j \<Longrightarrow> j < length xs \<Longrightarrow> least_from i (swap_if_after i xs j)"
  by (auto simp: least_from_def swap_if_after_def nth_list_update)

lemma inner_round:
  assumes "least_from i xs" and "i < m" and "m \<le> length xs"
  shows "length (foldl (swap_if_after i) xs [Suc i..<m]) = length xs
    \<and> mset (foldl (swap_if_after i) xs [Suc i..<m]) = mset xs
    \<and> least_from i (foldl (swap_if_after i) xs [Suc i..<m])
    \<and> (\<forall>b. i < b \<and> b < m \<longrightarrow>
         snd (foldl (swap_if_after i) xs [Suc i..<m] ! i) \<le> snd (foldl (swap_if_after i) xs [Suc i..<m] ! b))"
  using assms(2,3)
proof (induction m)
  case (Suc m)
  show ?case
  proof (cases "i < m")
    case True
    define ys where "ys = foldl (swap_if_after i) xs [Suc i..<m]"
    from Suc True have ys: "length ys = length xs" "mset ys = mset xs" "least_from i ys"
      "\<forall>b. i < b \<and> b < m \<longrightarrow> snd (ys ! i) \<le> snd (ys ! b)" by (auto simp: ys_def)
    have step: "foldl (swap_if_after i) xs [Suc i..<Suc m] = swap_if_after i ys m"
      using True by (simp add: ys_def)
    have "\<forall>b. i < b \<and> b < Suc m \<longrightarrow> snd (swap_if_after i ys m ! i) \<le> snd (swap_if_after i ys m ! b)"
      using ys True Suc.prems by (auto simp: swap_if_after_def nth_list_update less_Suc_eq)
    moreover have "mset (swap_if_after i ys m) = mset xs"
      using ys True Suc.prems mset_swap_if_after [of i ys m] by simp
    moreover have "least_from i (swap_if_after i ys m)"
      using ys True Suc.prems by (intro least_from_swap) auto
    ultimately show ?thesis unfolding step using ys by simp
  next
    case False
    with Suc.prems have "m = i" by simp
    then show ?thesis using assms(1) by auto
  qed
qed simp

lemma outer_rounds:
  assumes "n \<le> length items"
  shows "length (foldl (\<lambda>xs i. foldl (swap_if_after i) xs [Suc i..<length xs]) items [0..<n]) = length items
    \<and> mset (foldl (\<lambda>xs i. foldl (swap_if_after i) xs [Suc i..<length xs]) items [0..<n]) = mset items
    \<and> least_from n (foldl (\<lambda>xs i. foldl (swap_if_after i) xs [Suc i..<length xs]) items [0..<n])"
  using assms
proof (induction n)
  case 0
  then show ?case by (simp add: least_from_def)
next
  case (Suc n)
  define ys where "ys = foldl (\<lambda>xs i. foldl (swap_if_after i) xs [Suc i..<length xs]) items [0..<n]"
  from Suc have ys: "length ys = length items" "mset ys = mset items" "least_from n ys"
    by (auto simp: ys_def)
  have step: "foldl (\<lambda>xs i. foldl (swap_if_after i) xs [Suc i..<length xs]) items [0..<Suc n]
      = foldl (swap_if_after n) ys [Suc n..<length ys]" by (simp add: ys_def)
  have "n < length ys" using Suc.prems ys by simp
  from inner_round [OF ys(3) this order_refl] show ?case
    unfolding step using ys by (auto simp: least_from_def less_Suc_eq)
qed

lemma sort_items_sorted: "mset (sort_items items) = mset items \<and> sorted (map snd (sort_items items))"
proof -
  from outer_rounds [of "length items" items]
  have "mset (sort_items items) = mset items" "least_from (length items) (sort_items items)"
    "length (sort_items items) = length items" by (simp_all add: sort_items_def)
  then show ?thesis by (auto simp: least_from_def sorted_iff_nth_mono_less)
qed

subsection \<open>What the operations do\<close>

definition saver_ok :: "InMemorySaver \<Rightarrow> bool" where
  "saver_ok s \<longleftrightarrow> finite (dom (ms_checkpoints s)) \<and>
     (\<not> ms_orderHeld s \<longrightarrow> dom (ms_accessOrder s) = dom (ms_checkpoints s)
        \<and> dom (ms_ttlMap s) = dom (ms_checkpoints s))"

text \<open>The sizes of the stored entries, and what \<^verbatim>\<open>currentSize\<close> counts beyond them.\<close>

definition stored_size :: "InMemorySaver \<Rightarrow> int" where
  "stored_size s = (\<Sum>cid \<in> dom (ms_checkpoints s). ent_size (the (ms_checkpoints s cid)))"

definition excess :: "InMemorySaver \<Rightarrow> int" where
  "excess s = ms_currentSize s - stored_size s"

definition entry_size_of :: "string \<Rightarrow> InMemorySaver \<Rightarrow> int" where
  "entry_size_of cid s = (case ms_checkpoints s cid of None \<Rightarrow> 0 | Some e \<Rightarrow> ent_size e)"

lemma sum_split_key:
  fixes g :: "'e \<Rightarrow> int"
  assumes "finite (dom m)"
  shows "(\<Sum>k \<in> dom m. g (the (m k))) = (case m c of None \<Rightarrow> 0 | Some e \<Rightarrow> g e) + (\<Sum>k \<in> dom m - {c}. g (the (m k)))"
proof (cases "m c")
  case None
  then show ?thesis by (simp add: domIff)
next
  case (Some e)
  then have "c \<in> dom m" by auto
  from sum.remove [OF assms this, of "\<lambda>k. g (the (m k))"] Some show ?thesis by simp
qed

lemma stored_size_put:
  assumes "finite (dom (ms_checkpoints s))" and "ms_checkpoints s' = (ms_checkpoints s)(cid \<mapsto> e)"
  shows "stored_size s' = stored_size s - entry_size_of cid s + ent_size e"
proof -
  have "stored_size s' = ent_size e + (\<Sum>k \<in> dom (ms_checkpoints s) - {cid}. ent_size (the (ms_checkpoints s k)))"
    unfolding stored_size_def assms(2) using assms(1) by (simp add: sum.insert_remove)
  with sum_split_key [OF assms(1), of ent_size cid] show ?thesis
    by (simp add: stored_size_def entry_size_of_def)
qed

lemma stored_size_delete:
  assumes "finite (dom (ms_checkpoints s))" and "ms_checkpoints s' = (ms_checkpoints s)(cid := None)"
  shows "stored_size s' = stored_size s - entry_size_of cid s"
proof -
  have "stored_size s' = (\<Sum>k \<in> dom (ms_checkpoints s) - {cid}. ent_size (the (ms_checkpoints s k)))"
    unfolding stored_size_def assms(2) by (rule sum.cong) auto
  with sum_split_key [OF assms(1), of ent_size cid] show ?thesis
    by (simp add: stored_size_def entry_size_of_def)
qed

lemma saver_delete_cases:
  "saver_delete cid s = ((if ms_orderHeld s then Blocks else Returns ()),
     s\<lparr>ms_checkpoints := (ms_checkpoints s)(cid := None), ms_ttlMap := (ms_ttlMap s)(cid := None),
       ms_currentSize := ms_currentSize s - entry_size_of cid s,
       ms_accessOrder := (if ms_orderHeld s then ms_accessOrder s else (ms_accessOrder s)(cid := None))\<rparr>)"
  by (cases "ms_checkpoints s cid") (auto simp: saver_delete_def with_order_def entry_size_of_def Let_def fun_upd_idem)

lemma saver_delete_ok: "saver_ok s \<Longrightarrow> saver_ok (snd (saver_delete cid s))"
  by (auto simp: saver_ok_def saver_delete_cases)

lemma saver_delete_excess: "finite (dom (ms_checkpoints s)) \<Longrightarrow> excess (snd (saver_delete cid s)) = excess s"
  using stored_size_delete [of s "snd (saver_delete cid s)" cid] by (simp add: excess_def saver_delete_cases)

text \<open>
  With the lock held by the caller, evicting either finds nothing to evict or waits for ever at
  the first entry that is stored.
\<close>

lemma evict_loop_held:
  assumes "ms_orderHeld s"
  shows "fst (evict_loop items tb f s)
      = (if tb \<le> f \<or> (\<forall>i \<in> set items. ms_checkpoints s (fst i) = None) then Returns f else Deadlocks)
    \<and> (tb \<le> f \<or> (\<forall>i \<in> set items. ms_checkpoints s (fst i) = None) \<longrightarrow> snd (evict_loop items tb f s) = s)"
proof (induction items)
  case (Cons a items)
  obtain cid t where "a = (cid, t)" by fastforce
  with Cons assms show ?case
    by (cases "ms_checkpoints s cid") (auto simp: saver_delete_cases)
qed simp

lemma evict_loop_first:
  assumes "ms_orderHeld s" and "f < tb" and "i \<in> set items" and "ms_checkpoints s (fst i) \<noteq> None"
    and "sorted (map snd items)"
  shows "\<exists>c \<in> set items. ms_checkpoints s (fst c) \<noteq> None
    \<and> (\<forall>d \<in> set items. ms_checkpoints s (fst d) \<noteq> None \<longrightarrow> snd c \<le> snd d)
    \<and> snd (evict_loop items tb f s) = snd (saver_delete (fst c) s)"
  using assms(3-5)
proof (induction items)
  case (Cons a items)
  obtain cid t where a: "a = (cid, t)" by fastforce
  show ?case
  proof (cases "ms_checkpoints s cid")
    case None
    have "\<exists>c \<in> set items. ms_checkpoints s (fst c) \<noteq> None
        \<and> (\<forall>d \<in> set items. ms_checkpoints s (fst d) \<noteq> None \<longrightarrow> snd c \<le> snd d)
        \<and> snd (evict_loop items tb f s) = snd (saver_delete (fst c) s)"
      by (rule Cons.IH) (use Cons.prems a None in auto)
    then show ?thesis using a None assms(2) by auto
  next
    case (Some e)
    then show ?thesis using Cons.prems a assms(1,2)
      by (intro bexI [of _ a]) (auto simp: saver_delete_cases)
  qed
qed simp

lemma access_items_set: "map_order (ms_accessOrder s) ids \<Longrightarrow> fst ` set (access_items ids s) = dom (ms_accessOrder s)"
  by (auto simp: access_items_def map_order_def image_image)

lemma sort_items_set [simp]: "set (sort_items items) = set items"
  using sort_items_sorted [of items] by (metis set_mset_mset)

text \<open>The whole check of the limit.\<close>

lemma checkMemoryLimit_result:
  assumes "saver_ok s" and "\<not> ms_orderHeld s" and "map_order (ms_accessOrder s) ids"
  shows "fst (checkMemoryLimit ids n s) =
      (if ms_currentSize s + n \<le> max_bytes s then Returns ()
       else if ms_checkpoints s = Map.empty
       then Fails (OtherError (''memory limit exceeded: current='' @ show_int (ms_currentSize s div (1024 * 1024))
              @ ''MB, max='' @ show_int (ms_maxMemoryMB s) @ ''MB''))
       else Deadlocks)
    \<and> (ms_currentSize s + n \<le> max_bytes s \<or> ms_checkpoints s = Map.empty \<longrightarrow> snd (checkMemoryLimit ids n s) = s)"
proof -
  let ?items = "sort_items (access_items ids s)" and ?held = "s\<lparr>ms_orderHeld := True\<rparr>"
    and ?t = "ms_currentSize s + n - max_bytes s"
  have "fst ` set ?items = dom (ms_checkpoints s)"
    using access_items_set [OF assms(3)] assms(1,2) by (simp add: saver_ok_def)
  then have "(\<forall>i \<in> set ?items. ms_checkpoints s (fst i) = None) \<longleftrightarrow> ms_checkpoints s = Map.empty"
    by (metis (no_types, lifting) domIff empty_iff image_iff dom_empty dom_eq_empty_conv)
  with evict_loop_held [of ?held ?items ?t 0] assms(2) show ?thesis
    by (cases "evict_loop ?items ?t 0 ?held") (auto simp: checkMemoryLimit_def Let_def evictLRU_def)
qed

lemma checkMemoryLimit_evicts:
  assumes "saver_ok s" and "\<not> ms_orderHeld s" and "map_order (ms_accessOrder s) ids"
    and "max_bytes s < ms_currentSize s + n" and "ms_checkpoints s \<noteq> Map.empty"
  shows "\<exists>cid \<in> dom (ms_checkpoints s).
    (\<forall>c \<in> dom (ms_checkpoints s). the (ms_accessOrder s cid) \<le> the (ms_accessOrder s c))
    \<and> snd (checkMemoryLimit ids n s) = snd (saver_delete cid (s\<lparr>ms_orderHeld := True\<rparr>))"
proof -
  let ?items = "sort_items (access_items ids s)" and ?held = "s\<lparr>ms_orderHeld := True\<rparr>"
    and ?t = "ms_currentSize s + n - max_bytes s"
  have dom: "dom (ms_accessOrder s) = dom (ms_checkpoints s)" using assms(1,2) by (simp add: saver_ok_def)
  have items: "set ?items = (\<lambda>c. (c, the (ms_accessOrder s c))) ` dom (ms_checkpoints s)"
    using assms(3) dom by (auto simp: access_items_def map_order_def)
  obtain c0 where c0: "c0 \<in> dom (ms_checkpoints s)" using assms(5) by fastforce
  have "\<exists>c \<in> set ?items. ms_checkpoints ?held (fst c) \<noteq> None
    \<and> (\<forall>d \<in> set ?items. ms_checkpoints ?held (fst d) \<noteq> None \<longrightarrow> snd c \<le> snd d)
    \<and> snd (evict_loop ?items ?t 0 ?held) = snd (saver_delete (fst c) ?held)"
    by (rule evict_loop_first [of _ _ _ "(c0, the (ms_accessOrder s c0))"])
      (use assms(4) c0 items sort_items_sorted in auto)
  then obtain cid where cid: "cid \<in> dom (ms_checkpoints s)"
      "\<forall>c \<in> dom (ms_checkpoints s). the (ms_accessOrder s cid) \<le> the (ms_accessOrder s c)"
      "snd (evict_loop ?items ?t 0 ?held) = snd (saver_delete cid ?held)"
    unfolding items by auto
  have "fst (evict_loop ?items ?t 0 ?held) = Deadlocks"
    using evict_loop_held [of ?held ?items ?t 0] assms(4) c0 items by (auto simp: domIff)
  with cid assms(2,4) show ?thesis
    by (intro bexI [of _ cid]) (auto simp: checkMemoryLimit_def Let_def evictLRU_def split: prod.splits)
qed

subsection \<open>The saver keeps the contract\<close>

lemma checkMemoryLimit_returns:
  assumes "checkMemoryLimit ids n s = (Returns u, s1)"
  shows "s1 = s \<and> ms_currentSize s + n \<le> max_bytes s"
proof (rule ccontr)
  assume no: "\<not> (s1 = s \<and> ms_currentSize s + n \<le> max_bytes s)"
  let ?items = "sort_items (access_items ids s)" and ?held = "s\<lparr>ms_orderHeld := True\<rparr>"
    and ?t = "ms_currentSize s + n - max_bytes s"
  from no assms have "max_bytes s < ms_currentSize s + n"
    by (auto simp: checkMemoryLimit_def Let_def split: if_splits)
  moreover obtain r s2 where "evict_loop ?items ?t 0 ?held = (r, s2)" by fastforce
  ultimately show False using assms evict_loop_held [of ?held ?items ?t 0]
    by (auto simp: checkMemoryLimit_def Let_def evictLRU_def split: if_splits outcome.splits)
qed

lemma checkMemoryLimit_other:
  assumes "checkMemoryLimit ids n s = (r, s1)"
  shows "ms_serializer s1 = ms_serializer s \<and> (\<forall>err. r = Fails err \<longrightarrow> s1 = s)"
proof -
  let ?items = "sort_items (access_items ids s)" and ?held = "s\<lparr>ms_orderHeld := True\<rparr>"
    and ?t = "ms_currentSize s + n - max_bytes s"
  have keep: "ms_serializer (snd (evict_loop items t f s)) = ms_serializer s" for items t f s
    by (induction items t f s rule: evict_loop.induct)
      (auto simp: saver_delete_cases split: option.splits outcome.splits if_splits)
  obtain q s2 where "evict_loop ?items ?t 0 ?held = (q, s2)" by fastforce
  then show ?thesis using assms evict_loop_held [of ?held ?items ?t 0] keep [of ?items ?t 0 ?held]
    by (auto simp: checkMemoryLimit_def Let_def evictLRU_def split: if_splits outcome.splits)
qed

lemma MemSave_returns:
  assumes "MemSave x env cp s = (Returns (), s')"
  obtains data where "Checkpoint_Validate cp = None"
    and "Serialize x (ms_serializer s) (env_rnd env) cp = Returns data"
    and "ms_currentSize s + int (length data) \<le> max_bytes s" and "\<not> ms_orderHeld s"
    and "s' = s\<lparr>ms_checkpoints := (ms_checkpoints s)(cp_ID cp \<mapsto>
           \<lparr>ent_checkpoint = cp, ent_data = data, ent_size = int (length data),
            ent_createdAt = env_now env, ent_accessedAt = env_now env\<rparr>),
         ms_ttlMap := (ms_ttlMap s)(cp_ID cp \<mapsto> env_now env + ms_defaultTTL s),
         ms_accessOrder := (ms_accessOrder s)(cp_ID cp \<mapsto> env_now env),
         ms_currentSize := ms_currentSize s + int (length data)\<rparr>"
proof -
  from assms obtain data where v: "Checkpoint_Validate cp = None"
    and d: "Serialize x (ms_serializer s) (env_rnd env) cp = Returns data"
    by (auto simp: MemSave_def split: option.splits outcome.splits)
  obtain r s1 where lim: "checkMemoryLimit (env_ids env) (int (length data)) s = (r, s1)" by fastforce
  with assms v d obtain u where "r = Returns u"
    by (auto simp: MemSave_def Let_def with_order_def split: outcome.splits if_splits)
  with lim checkMemoryLimit_returns have l: "s1 = s" "ms_currentSize s + int (length data) \<le> max_bytes s"
    by blast+
  have "\<not> ms_orderHeld s"
    using assms v d lim l by (auto simp: MemSave_def Let_def with_order_def split: outcome.splits if_splits)
  with assms v d lim l \<open>r = Returns u\<close> show ?thesis
    by (intro that [of data]) (simp_all add: MemSave_def Let_def with_order_def)
qed

lemma MemSave_other:
  assumes "MemSave x env cp s = (r, s')"
  shows "ms_serializer s' = ms_serializer s \<and> (\<forall>err. r = Fails err \<longrightarrow> s' = s)"
proof -
  show ?thesis
    using assms by (auto simp: MemSave_def Let_def with_order_def
        split: option.splits outcome.splits if_splits prod.splits dest!: checkMemoryLimit_other)
qed

definition returned :: "('e, 'a) outcome \<Rightarrow> 'a option" where
  "returned r = (case r of Returns a \<Rightarrow> Some a | _ \<Rightarrow> None)"

definition mem_content :: "Checkpoint Externals \<Rightarrow> InMemorySaver \<Rightarrow> string \<rightharpoonup> Checkpoint" where
  "mem_content x s cid = (case ms_checkpoints s cid of
     None \<Rightarrow> None | Some e \<Rightarrow> returned (Deserialize x (ms_serializer s) (ent_data e)))"

text \<open>The serializer gives back the \<open>view\<close> of a checkpoint.\<close>

definition reads_back ::
  "Checkpoint Externals \<Rightarrow> (Checkpoint \<Rightarrow> Checkpoint) \<Rightarrow> Checkpoint SerializationConfig \<Rightarrow> bool" where
  "reads_back x view sz \<longleftrightarrow>
     (\<forall>rnd c d. Serialize x sz rnd c = Returns d \<longrightarrow> Deserialize x sz d = Returns (view c))"

lemma mem_content_simps [simp]:
  "ms_checkpoints s' = (ms_checkpoints s)(cid := None) \<Longrightarrow> ms_serializer s' = ms_serializer s \<Longrightarrow>
     mem_content x s' = (mem_content x s)(cid := None)"
  "mem_content x (s\<lparr>ms_checkpoints := (ms_checkpoints s)(cid \<mapsto> e)\<rparr>)
     = (mem_content x s)(cid := returned (Deserialize x (ms_serializer s) (ent_data e)))"
  "mem_content x (s\<lparr>ms_accessOrder := ao\<rparr>) = mem_content x s"
  "mem_content x (s\<lparr>ms_ttlMap := tm\<rparr>) = mem_content x s"
  "mem_content x (s\<lparr>ms_currentSize := n\<rparr>) = mem_content x s"
  by (auto simp: mem_content_def fun_eq_iff split: option.splits)

lemma MemLoad_result:
  "MemLoad x env cid s = (r, s') \<Longrightarrow> ms_serializer s' = ms_serializer s
    \<and> (\<forall>c. r = Returns c \<longrightarrow> mem_content x s cid = Some c \<and> mem_content x s' = mem_content x s)
    \<and> mem_content x s' \<subseteq>\<^sub>m mem_content x s"
  by (auto simp: MemLoad_def Let_def with_order_def saver_delete_cases mem_content_def returned_def
      map_le_def fun_eq_iff dom_def split: option.splits if_splits outcome.splits)

lemma MemDelete_result:
  "MemDelete cid s = (r, s') \<Longrightarrow> ms_serializer s' = ms_serializer s
    \<and> (\<forall>u. r = Returns u \<longrightarrow> mem_content x s' = (mem_content x s)(cid := None))
    \<and> mem_content x s' \<subseteq>\<^sub>m mem_content x s"
  by (auto simp: MemDelete_def saver_delete_cases map_le_def split: if_splits)

lemma MemSave_content:
  assumes "reads_back x view (ms_serializer s)" and "MemSave x env c s = (Returns (), s')"
  shows "mem_content x s' = (mem_content x s)(cp_ID c \<mapsto> view c)"
  using assms(2)
proof (rule MemSave_returns)
  fix data
  assume d: "Serialize x (ms_serializer s) (env_rnd env) c = Returns data"
    and s': "s' = s\<lparr>ms_checkpoints := (ms_checkpoints s)(cp_ID c \<mapsto>
           \<lparr>ent_checkpoint = c, ent_data = data, ent_size = int (length data),
            ent_createdAt = env_now env, ent_accessedAt = env_now env\<rparr>),
         ms_ttlMap := (ms_ttlMap s)(cp_ID c \<mapsto> env_now env + ms_defaultTTL s),
         ms_accessOrder := (ms_accessOrder s)(cp_ID c \<mapsto> env_now env),
         ms_currentSize := ms_currentSize s + int (length data)\<rparr>"
  from assms(1) d have "Deserialize x (ms_serializer s) data = Returns (view c)"
    by (auto simp: reads_back_def)
  then show ?thesis unfolding s' by (simp add: returned_def)
qed

interpretation mem: checkpoint_store "MemSave x" "MemLoad x" "\<lambda>_. MemDelete" "mem_content x" view
  "\<lambda>s. reads_back x view (ms_serializer s)"
proof (unfold_locales, goal_cases)
  case (1 s env c r s') then show ?case using MemSave_other by auto
next
  case (2 s env cid q s') then show ?case using MemLoad_result by metis
next
  case (3 s env cid r s') then show ?case using MemDelete_result by metis
next
  case (4 s env c s') then show ?case by (rule MemSave_content)
next
  case (5 s env c err s') then show ?case using MemSave_other [OF 5(2)] by simp
next
  case (6 s env cid c s') then show ?case using MemLoad_result by blast
next
  case (7 s env cid err s') then show ?case using MemLoad_result by blast
next
  case (8 s env cid s') then show ?case using MemDelete_result by blast
next
  case (9 s env cid err s') then show ?case using MemDelete_result by blast
qed

subsection \<open>Samples for the witnesses\<close>

text \<open>A library whose msgpack encodes every checkpoint as one byte and decodes it to \<open>c0\<close>.\<close>

definition sample_checkpoint :: Checkpoint where
  "sample_checkpoint = \<lparr>cp_ID = ''c'', cp_GraphID = ''g'', cp_ThreadID = ''t'', cp_State = Some Map.empty,
     cp_Metadata = \<lparr>md_Step = 1, md_Source = [], md_Writes = None, md_UserID = [], md_CreatedBy = [], md_Tags = []\<rparr>,
     cp_Timestamp = 0, cp_Version = []\<rparr>"

definition one_checkpoint :: "Checkpoint Externals" where
  "one_checkpoint =
     \<lparr>x_json_marshal = (\<lambda>c. Inr [1]), x_json_unmarshal = (\<lambda>d. Inr sample_checkpoint),
      x_msgpack_marshal = (\<lambda>c. if c = sample_checkpoint then Inr (replicate (2 ^ 19) 1) else Inl ''other''),
      x_msgpack_unmarshal = (\<lambda>d. Inr sample_checkpoint),
      x_gzip_write = Inr, x_gzip_read = Inr, x_zstd_encode = Inr, x_zstd_decode = Inr,
      x_new_cipher = (\<lambda>k. None), x_nonce_size = 0, x_seal = (\<lambda>k n d. d), x_open = (\<lambda>k n d. Inr d)\<rparr>"

definition sample_saver :: InMemorySaver where
  "sample_saver = NewInMemorySaver one_checkpoint
     \<lparr>imc_DefaultTTL = 10, imc_MaxMemoryMB = 1, imc_CleanupInterval = 0, imc_Serializer = None\<rparr>"

definition sample_env :: "int \<Rightarrow> string list \<Rightarrow> saver_env" where
  "sample_env now ids = \<lparr>env_now = now, env_later = now, env_rnd = Inl ''none'', env_ids = ids\<rparr>"

lemma sample_env_simps [simp]: "env_now (sample_env now ids) = now" "env_later (sample_env now ids) = now"
  "env_rnd (sample_env now ids) = Inl ''none''" "env_ids (sample_env now ids) = ids"
  by (simp_all add: sample_env_def)

lemma sample_serializer: "ms_serializer sample_saver = DefaultSerializer one_checkpoint"
  by (simp add: sample_saver_def NewInMemorySaver_def)

lemma sample_Serialize: "Serialize one_checkpoint (DefaultSerializer one_checkpoint) rnd c
    = (if c = sample_checkpoint then Returns (replicate (2 ^ 19) 1) else Fails ''codec encoding failed: other'')"
  by (simp add: Serialize_def DefaultSerializer_def NewMsgPackCodec_def one_checkpoint_def compress_def
      compressZstd_def CompressionNone_def CompressionGzip_def CompressionZstd_def)

lemma sample_Deserialize: "Deserialize one_checkpoint (DefaultSerializer one_checkpoint) d = Returns sample_checkpoint"
  by (simp add: Deserialize_def DefaultSerializer_def NewMsgPackCodec_def one_checkpoint_def decompress_def
      decompressZstd_def CompressionNone_def CompressionGzip_def CompressionZstd_def)

lemma sample_valid: "Checkpoint_Validate sample_checkpoint = None"
  by (simp add: Checkpoint_Validate_def sample_checkpoint_def)

lemma sample_reads_back: "reads_back one_checkpoint (\<lambda>_. sample_checkpoint) (ms_serializer sample_saver)"
  by (simp add: reads_back_def sample_serializer sample_Deserialize)

lemma sample_max: "max_bytes sample_saver = 2 ^ 20" "ms_currentSize sample_saver = 0"
  "ms_orderHeld sample_saver = False" "ms_checkpoints sample_saver = Map.empty"
  "ms_accessOrder sample_saver = Map.empty" "ms_ttlMap sample_saver = Map.empty"
  "ms_defaultTTL sample_saver = 10"
  by (simp_all add: max_bytes_def sample_saver_def NewInMemorySaver_def i64_def)

lemma reads_back_new:
  assumes "lawful x" and "szr_Codec sz = Some codec"
    and "\<And>c d. cd_Encode codec c = Inr d \<Longrightarrow> cd_Decode codec d = Inr (view c)"
  shows "reads_back x view sz"
  unfolding reads_back_def
proof (intro allI impI)
  fix rnd c d
  assume "Serialize x sz rnd c = Returns d"
  from serialize_round_trip [OF assms(1) this] assms(2,3)
  show "Deserialize x sz d = Returns (view c)" by auto
qed

lemma sample_save_returns:
  "fst (MemSave one_checkpoint (sample_env 0 []) sample_checkpoint sample_saver) = Returns ()"
  by (simp add: MemSave_def sample_valid sample_serializer sample_Serialize checkMemoryLimit_def
      sample_max Let_def with_order_def)

lemma excess_held [simp]: "excess (s\<lparr>ms_orderHeld := b\<rparr>) = excess s"
  by (simp add: excess_def stored_size_def)

lemma evict_loop_excess:
  "finite (dom (ms_checkpoints s)) \<Longrightarrow> excess (snd (evict_loop items tb f s)) = excess s"
proof (induction items tb f s rule: evict_loop.induct)
  case (2 cid t items tb f s)
  have "finite (dom (ms_checkpoints (snd (saver_delete cid s))))"
    using 2(3) by (simp add: saver_delete_cases)
  moreover obtain r s' where "saver_delete cid s = (r, s')" by fastforce
  ultimately show ?case using 2 saver_delete_excess [of s cid]
    by (auto split: option.splits outcome.splits)
qed simp

lemma checkMemoryLimit_excess:
  assumes "finite (dom (ms_checkpoints s))"
  shows "excess (snd (checkMemoryLimit ids n s)) = excess s"
proof -
  let ?items = "sort_items (access_items ids s)" and ?held = "s\<lparr>ms_orderHeld := True\<rparr>"
    and ?t = "ms_currentSize s + n - max_bytes s"
  obtain r s' where "evict_loop ?items ?t 0 ?held = (r, s')" by fastforce
  with evict_loop_excess [of ?held ?items ?t 0] assms show ?thesis
    by (auto simp: checkMemoryLimit_def Let_def evictLRU_def split: outcome.splits)
qed

subsection \<open>Properties\<close>

text \<open>
  C5: no stale and no mixed-up checkpoints. For every sequence of saves, loads and deletes on a new
  in-memory saver, with any compression and encryption and a codec that decodes what it encoded to
  \<open>view\<close>, a load that returns gives the \<open>view\<close> of the checkpoint last saved with success
  under that ID and not deleted since, whatever expiry and eviction did meanwhile.
\<close>

theorem saver_loads_last_save:
  assumes "lawful x" and "szr_Codec (ms_serializer (NewInMemorySaver x cfg)) = Some codec"
    and "\<And>c d. cd_Encode codec c = Inr d \<Longrightarrow> cd_Decode codec d = Inr (view c)"
    and "client_run (MemSave x) (MemLoad x) (\<lambda>_. MemDelete) view ops (Map.empty, NewInMemorySaver x cfg) = Some (k, s1)"
    and "MemLoad x env cid s1 = (Returns c, s2)"
  shows "k cid = Some c"
proof -
  have "ms_checkpoints (NewInMemorySaver x cfg) = Map.empty" by (simp add: NewInMemorySaver_def)
  then have "mem_content x (NewInMemorySaver x cfg) = Map.empty"
    by (simp add: mem_content_def fun_eq_iff)
  with assms(4) show ?thesis
    using mem.loads_last_save [of x view ops "NewInMemorySaver x cfg" k s1 env cid c s2]
      reads_back_new [OF assms(1,2,3)] assms(5) by simp
qed

theorem saver_loads_last_save_witness:
  "\<exists>s1 s2. client_run (MemSave one_checkpoint) (MemLoad one_checkpoint) (\<lambda>_. MemDelete) (\<lambda>_. sample_checkpoint)
      [SaveOp (sample_env 0 []) sample_checkpoint] (Map.empty, sample_saver)
        = Some ([''c'' \<mapsto> sample_checkpoint], s1)
    \<and> MemLoad one_checkpoint (sample_env 5 [''c'']) ''c'' s1 = (Returns sample_checkpoint, s2)
    \<and> [''c'' \<mapsto> sample_checkpoint] ''c'' = Some sample_checkpoint"
proof -
  let ?cfg = "\<lparr>imc_DefaultTTL = 10, imc_MaxMemoryMB = 1, imc_CleanupInterval = 0, imc_Serializer = None\<rparr>"
  have new: "NewInMemorySaver one_checkpoint ?cfg = sample_saver" by (simp add: sample_saver_def)
  obtain s1 where save: "MemSave one_checkpoint (sample_env 0 []) sample_checkpoint sample_saver = (Returns (), s1)"
    using sample_save_returns by (metis prod.collapse)
  have lawful: "lawful one_checkpoint" by (auto simp: lawful_def one_checkpoint_def)
  have codec: "szr_Codec (ms_serializer sample_saver) = Some (NewMsgPackCodec one_checkpoint)"
    by (simp add: sample_serializer DefaultSerializer_def)
  have id: "cp_ID sample_checkpoint = ''c''" by (simp add: sample_checkpoint_def)
  have run: "client_run (MemSave one_checkpoint) (MemLoad one_checkpoint) (\<lambda>_. MemDelete) (\<lambda>_. sample_checkpoint)
      [SaveOp (sample_env 0 []) sample_checkpoint] (Map.empty, sample_saver)
        = Some ([''c'' \<mapsto> sample_checkpoint], s1)"
    by (simp add: save ended_def note_save_def id)
  obtain s2 where load: "MemLoad one_checkpoint (sample_env 5 [''c'']) ''c'' s1 = (Returns sample_checkpoint, s2)"
    using save by (rule MemSave_returns)
      (auto simp: MemLoad_def id isExpired_def sample_max with_order_def sample_serializer sample_Deserialize)
  have "[''c'' \<mapsto> sample_checkpoint] ''c'' = Some sample_checkpoint"
    by (rule saver_loads_last_save [of one_checkpoint ?cfg, unfolded new, OF lawful codec _ run load])
      (simp add: NewMsgPackCodec_def one_checkpoint_def)
  with run load show ?thesis by blast
qed

lemma save_outcome_aux:
  assumes "saver_ok s" and "\<not> ms_orderHeld s" and "map_order (ms_accessOrder s) (env_ids env)"
    and "Checkpoint_Validate cp = None" and "Serialize x (ms_serializer s) (env_rnd env) cp = Returns data"
  shows "if ms_currentSize s + int (length data) \<le> max_bytes s then fst (MemSave x env cp s) = Returns ()
    else if ms_checkpoints s = Map.empty then \<exists>err. MemSave x env cp s = (Fails (OtherError err), s)
    else fst (MemSave x env cp s) = Deadlocks \<and> ms_orderHeld (snd (MemSave x env cp s))
      \<and> (\<exists>cid \<in> dom (ms_checkpoints s). ms_checkpoints (snd (MemSave x env cp s)) = (ms_checkpoints s)(cid := None)
          \<and> (\<forall>c \<in> dom (ms_checkpoints s). the (ms_accessOrder s cid) \<le> the (ms_accessOrder s c)))"
proof -
  let ?n = "int (length data)"
  let ?lim = "checkMemoryLimit (env_ids env) ?n s"
  note lim = checkMemoryLimit_result [OF assms(1-3), of ?n]
  obtain r s1 where rs: "?lim = (r, s1)" by fastforce
  consider (fits) "ms_currentSize s + ?n \<le> max_bytes s" | (none) "max_bytes s < ms_currentSize s + ?n" "ms_checkpoints s = Map.empty"
    | (over) "max_bytes s < ms_currentSize s + ?n" "ms_checkpoints s \<noteq> Map.empty" by linarith
  then show ?thesis
  proof cases
    case fits
    then show ?thesis using lim rs assms(2,4,5) by (simp add: MemSave_def Let_def with_order_def)
  next
    case none
    then show ?thesis using lim rs assms(4,5) by (simp add: MemSave_def)
  next
    case over
    then have "MemSave x env cp s = (Deadlocks, s1)" using lim rs assms(4,5) by (simp add: MemSave_def)
    moreover from checkMemoryLimit_evicts [OF assms(1-3) over] rs
    obtain cid where "cid \<in> dom (ms_checkpoints s)"
      "\<forall>c \<in> dom (ms_checkpoints s). the (ms_accessOrder s cid) \<le> the (ms_accessOrder s c)"
      "s1 = snd (saver_delete cid (s\<lparr>ms_orderHeld := True\<rparr>))" by auto
    ultimately show ?thesis using over
      by (auto simp: saver_delete_cases intro!: bexI [of _ cid])
  qed
qed

text \<open>
  C19: the limit. On a consistent saver whose lock is free, saving a valid checkpoint that serializes
  succeeds exactly if the counted size plus the data fits the limit. Beyond it, an empty saver
  answers an error; with any entry stored the call removes the least recently used one and then
  waits for ever for the lock it holds.
\<close>

theorem save_outcome:
  assumes "saver_ok s" and "\<not> ms_orderHeld s" and "map_order (ms_accessOrder s) (env_ids env)"
    and "Checkpoint_Validate cp = None" and "Serialize x (ms_serializer s) (env_rnd env) cp = Returns data"
  shows "if ms_currentSize s + int (length data) \<le> max_bytes s then fst (MemSave x env cp s) = Returns ()
    else if ms_checkpoints s = Map.empty then \<exists>err. MemSave x env cp s = (Fails (OtherError err), s)
    else fst (MemSave x env cp s) = Deadlocks \<and> ms_orderHeld (snd (MemSave x env cp s))
      \<and> (\<exists>cid \<in> dom (ms_checkpoints s). ms_checkpoints (snd (MemSave x env cp s)) = (ms_checkpoints s)(cid := None)
          \<and> (\<forall>c \<in> dom (ms_checkpoints s). the (ms_accessOrder s cid) \<le> the (ms_accessOrder s c)))"
  by (rule save_outcome_aux [OF assms])

theorem save_outcome_witness:
  "fst (MemSave one_checkpoint (sample_env 0 []) sample_checkpoint sample_saver) = Returns ()"
proof -
  have "saver_ok sample_saver" "map_order (ms_accessOrder sample_saver) (env_ids (sample_env 0 []))"
    by (simp_all add: saver_ok_def sample_max map_order_def)
  then show ?thesis
    using save_outcome [of sample_saver "sample_env 0 []" sample_checkpoint one_checkpoint "replicate (2 ^ 19) 1"]
    by (simp add: sample_max sample_serializer sample_Serialize sample_valid)
qed

text \<open>
  the deadlock is final. Once the lock is held by the call that waits for it, no save, load,
  delete or clean-up with something to delete ever returns successfully again, and the lock stays
  held.
\<close>

theorem deadlocked_saver_is_dead:
  assumes "ms_orderHeld s"
  shows "returned (fst (MemSave x env cp s)) = None \<and> ms_orderHeld (snd (MemSave x env cp s))
    \<and> returned (fst (MemLoad x env cid s)) = None \<and> ms_orderHeld (snd (MemLoad x env cid s))
    \<and> returned (fst (MemDelete cid s)) = None \<and> ms_orderHeld (snd (MemDelete cid s))
    \<and> (returned (fst (cleanupExpired visits s)) = None \<or> expired_keys visits s = [])"
proof -
  have lim: "fst (checkMemoryLimit ids n s) \<in> {Returns (), Blocks} \<and> snd (checkMemoryLimit ids n s) = s" for ids n
    using assms by (auto simp: checkMemoryLimit_def Let_def evictLRU_def)
  have save: "returned (fst (MemSave x env cp s)) = None \<and> ms_orderHeld (snd (MemSave x env cp s))"
  proof (cases "Checkpoint_Validate cp")
    case None
    show ?thesis
    proof (cases "Serialize x (ms_serializer s) (env_rnd env) cp")
      case (Returns data)
      obtain r where r: "checkMemoryLimit (env_ids env) (int (length data)) s = (r, s)" and "r = Returns () \<or> r = Blocks"
        using lim [of "env_ids env" "int (length data)"] by (metis insert_iff prod.collapse singletonD)
      then show ?thesis using None Returns assms
        by (auto simp: MemSave_def Let_def with_order_def returned_def)
    qed (use None assms in \<open>auto simp: MemSave_def returned_def\<close>)
  qed (use assms in \<open>auto simp: MemSave_def returned_def\<close>)
  have load: "returned (fst (MemLoad x env cid s)) = None \<and> ms_orderHeld (snd (MemLoad x env cid s))"
    using assms by (auto simp: MemLoad_def Let_def with_order_def saver_delete_cases returned_def split: option.splits)
  have "returned (fst (delete_keys ids s)) = None" if "ids \<noteq> []" for ids
    using that assms by (cases ids) (auto simp: saver_delete_cases returned_def)
  then show ?thesis using save load assms
    by (auto simp: MemDelete_def saver_delete_cases returned_def cleanupExpired_def)
qed

theorem deadlocked_saver_is_dead_witness:
  "returned (fst (MemSave one_checkpoint (sample_env 0 []) sample_checkpoint (sample_saver\<lparr>ms_orderHeld := True\<rparr>))) = None"
  using deadlocked_saver_is_dead [of "sample_saver\<lparr>ms_orderHeld := True\<rparr>"] by simp

text \<open>
  C21: the accounting. What \<^verbatim>\<open>currentSize\<close> counts beyond the stored entries never changes
  through loads, deletes and clean-ups, and grows with every successful save by the size of the
  entry the save overwrites: the size of an overwritten checkpoint is never given back.
\<close>

theorem saver_accounting:
  assumes "finite (dom (ms_checkpoints s))" and "\<not> ms_orderHeld s"
  shows "excess (snd (MemSave x env cp s))
      = excess s + (if fst (MemSave x env cp s) = Returns () then entry_size_of (cp_ID cp) s else 0)
    \<and> excess (snd (MemLoad x env cid s)) = excess s \<and> excess (snd (MemDelete cid s)) = excess s
    \<and> excess (snd (cleanupExpired visits s)) = excess s"
proof (intro conjI)
  obtain r s' where r: "MemSave x env cp s = (r, s')" by fastforce
  show "excess (snd (MemSave x env cp s))
      = excess s + (if fst (MemSave x env cp s) = Returns () then entry_size_of (cp_ID cp) s else 0)"
  proof (cases "r = Returns ()")
    case True
    with r have "MemSave x env cp s = (Returns (), s')" by simp
    then show ?thesis
    proof (rule MemSave_returns)
      fix data
      let ?e = "\<lparr>ent_checkpoint = cp, ent_data = data, ent_size = int (length data),
        ent_createdAt = env_now env, ent_accessedAt = env_now env\<rparr>"
      assume s': "s' = s\<lparr>ms_checkpoints := (ms_checkpoints s)(cp_ID cp \<mapsto> ?e),
         ms_ttlMap := (ms_ttlMap s)(cp_ID cp \<mapsto> env_now env + ms_defaultTTL s),
         ms_accessOrder := (ms_accessOrder s)(cp_ID cp \<mapsto> env_now env),
         ms_currentSize := ms_currentSize s + int (length data)\<rparr>"
      from stored_size_put [OF assms(1), of s' "cp_ID cp" ?e]
      show ?thesis using r True by (simp add: excess_def s')
    qed
  next
    case False
    have "excess s' = excess s"
      using r False checkMemoryLimit_excess [OF assms(1)] assms(2)
      by (auto simp: MemSave_def Let_def with_order_def
          split: option.splits outcome.splits if_splits prod.splits
          dest: checkMemoryLimit_returns) (metis snd_conv)+
    then show ?thesis using r False by simp
  qed
  show "excess (snd (MemLoad x env cid s)) = excess s"
  proof (cases "ms_checkpoints s cid")
    case (Some e)
    then show ?thesis
      using saver_delete_excess [OF assms(1), of cid] stored_size_put [OF assms(1), of _ cid] assms(2)
      by (auto simp: MemLoad_def Let_def with_order_def saver_delete_cases excess_def entry_size_of_def
          split: outcome.splits)
  qed (simp add: MemLoad_def)
  show "excess (snd (MemDelete cid s)) = excess s"
    using saver_delete_excess [OF assms(1)] by (simp add: MemDelete_def)
  have "excess (snd (delete_keys ids s)) = excess s" if "finite (dom (ms_checkpoints s))" for ids s
    using that
  proof (induction ids arbitrary: s)
    case (Cons a ids)
    obtain r s1 where d: "saver_delete a s = (r, s1)" by fastforce
    then have "finite (dom (ms_checkpoints s1))" using Cons.prems by (auto simp: saver_delete_cases)
    from Cons.IH [OF this] d saver_delete_excess [OF Cons.prems, of a] show ?case
      by (auto split: outcome.splits)
  qed simp
  then show "excess (snd (cleanupExpired visits s)) = excess s"
    using assms(1) by (simp add: cleanupExpired_def)
qed

theorem saver_accounting_witness:
  "excess (snd (MemSave one_checkpoint (sample_env 0 []) sample_checkpoint sample_saver)) = 0"
proof -
  have "entry_size_of (cp_ID sample_checkpoint) sample_saver = 0" "excess sample_saver = 0"
    by (simp_all add: entry_size_of_def excess_def stored_size_def sample_max)
  then show ?thesis using saver_accounting [of sample_saver] by (simp add: sample_max)
qed

text \<open>Saving the same checkpoint \<open>n\<close> times.\<close>

definition resaves :: "Checkpoint Externals \<Rightarrow> saver_env \<Rightarrow> Checkpoint \<Rightarrow> nat \<Rightarrow> InMemorySaver \<Rightarrow> InMemorySaver" where
  "resaves x env cp n s = ((\<lambda>s. snd (MemSave x env cp s)) ^^ n) s"

definition saved_once :: "saver_env \<Rightarrow> Checkpoint \<Rightarrow> bytes \<Rightarrow> int \<Rightarrow> InMemorySaver \<Rightarrow> InMemorySaver" where
  "saved_once env cp data sz s = s\<lparr>
     ms_checkpoints := [cp_ID cp \<mapsto> \<lparr>ent_checkpoint = cp, ent_data = data, ent_size = int (length data),
       ent_createdAt = env_now env, ent_accessedAt = env_now env\<rparr>],
     ms_ttlMap := [cp_ID cp \<mapsto> env_now env + ms_defaultTTL s],
     ms_accessOrder := [cp_ID cp \<mapsto> env_now env], ms_currentSize := sz\<rparr>"

lemma saved_once_simps [simp]:
  "ms_currentSize (saved_once env cp data n s) = n" "max_bytes (saved_once env cp data n s) = max_bytes s"
  "ms_serializer (saved_once env cp data n s) = ms_serializer s"
  "ms_orderHeld (saved_once env cp data n s) = ms_orderHeld s"
  by (simp_all add: saved_once_def max_bytes_def)

lemma resaves_state:
  assumes "Checkpoint_Validate cp = None" and "Serialize x (ms_serializer s0) (env_rnd env) cp = Returns data"
    and "ms_checkpoints s0 = Map.empty" and "ms_ttlMap s0 = Map.empty" and "ms_accessOrder s0 = Map.empty"
    and "ms_currentSize s0 = 0" and "\<not> ms_orderHeld s0" and "int (Suc n) * int (length data) \<le> max_bytes s0"
  shows "resaves x env cp (Suc n) s0 = saved_once env cp data (int (Suc n) * int (length data)) s0"
  using assms(8)
proof (induction n)
  case 0
  then show ?case using assms(1-7)
    by (simp add: resaves_def MemSave_def checkMemoryLimit_def Let_def with_order_def saved_once_def)
next
  case (Suc n)
  then have "int (Suc n) * int (length data) \<le> max_bytes s0" by (simp add: algebra_simps)
  from Suc.IH [OF this] have "resaves x env cp (Suc (Suc n)) s0
      = snd (MemSave x env cp (saved_once env cp data (int (Suc n) * int (length data)) s0))"
    by (simp add: resaves_def)
  then show ?case using assms(1-7) Suc.prems
    by (simp add: MemSave_def checkMemoryLimit_def Let_def with_order_def saved_once_def max_bytes_def algebra_simps)
qed

text \<open>
  overwriting leaks until the saver locks itself up. A client that saves one checkpoint under
  one ID again and again, as a single entry, counts its size every time: as soon as the sum would
  pass the limit, the next save waits for ever, although only one entry was ever stored.
\<close>

theorem overwriting_deadlocks:
  assumes "Checkpoint_Validate cp = None"
    and "Serialize x (ms_serializer (NewInMemorySaver x cfg)) (env_rnd env) cp = Returns data"
    and "env_ids env = [cp_ID cp]" and "int (Suc n) * int (length data) \<le> max_bytes (NewInMemorySaver x cfg)"
    and "max_bytes (NewInMemorySaver x cfg) < int (Suc (Suc n)) * int (length data)"
  shows "dom (ms_checkpoints (resaves x env cp (Suc n) (NewInMemorySaver x cfg))) = {cp_ID cp}
    \<and> fst (MemSave x env cp (resaves x env cp (Suc n) (NewInMemorySaver x cfg))) = Deadlocks"
proof -
  let ?new = "NewInMemorySaver x cfg" and ?size = "int (Suc n) * int (length data)"
  let ?s = "saved_once env cp data ?size ?new"
  have new: "ms_checkpoints ?new = Map.empty" "ms_ttlMap ?new = Map.empty" "ms_accessOrder ?new = Map.empty"
    "ms_currentSize ?new = 0" "\<not> ms_orderHeld ?new" by (simp_all add: NewInMemorySaver_def)
  from resaves_state [OF assms(1,2) new assms(4)] have s: "resaves x env cp (Suc n) ?new = ?s" .
  have dom: "dom (ms_checkpoints ?s) = {cp_ID cp}" "ms_checkpoints ?s \<noteq> Map.empty" by (simp_all add: saved_once_def)
  have ok: "saver_ok ?s" "map_order (ms_accessOrder ?s) (env_ids env)"
    using assms(3) by (simp_all add: saver_ok_def saved_once_def map_order_def)
  have free: "\<not> ms_orderHeld ?s" using new(5) by simp
  have ser: "Serialize x (ms_serializer ?s) (env_rnd env) cp = Returns data" using assms(2) by simp
  have "\<not> ms_currentSize ?s + int (length data) \<le> max_bytes ?s"
    using assms(5) by (simp add: algebra_simps)
  then have "fst (MemSave x env cp ?s) = Deadlocks"
    using save_outcome_aux [OF ok(1) free ok(2) assms(1) ser] dom(2) by (simp only: if_False)
  with s dom(1) show ?thesis by simp
qed

theorem overwriting_deadlocks_witness:
  "fst (MemSave one_checkpoint (sample_env 0 [''c'']) sample_checkpoint
     (resaves one_checkpoint (sample_env 0 [''c'']) sample_checkpoint 2 sample_saver)) = Deadlocks"
  using overwriting_deadlocks [of sample_checkpoint one_checkpoint
      "\<lparr>imc_DefaultTTL = 10, imc_MaxMemoryMB = 1, imc_CleanupInterval = 0, imc_Serializer = None\<rparr>"
      "sample_env 0 [''c'']" "replicate (2 ^ 19) 1" 1, folded sample_saver_def]
  by (simp add: sample_valid sample_serializer sample_Serialize sample_max numeral_2_eq_2)
    (simp add: sample_checkpoint_def)

lemma saved_loads_or_expires:
  assumes "MemSave x env cp s = (Returns (), s')"
    and "Serialize x (ms_serializer s) (env_rnd env) cp = Returns data"
    and "Deserialize x (ms_serializer s) data = Returns v"
  shows "if env_now env + ms_defaultTTL s < env_now env'
    then fst (MemLoad x env' (cp_ID cp) s') = Fails ErrCheckpointNotFound
      \<and> ms_checkpoints (snd (MemLoad x env' (cp_ID cp) s')) = (ms_checkpoints s)(cp_ID cp := None)
    else fst (MemLoad x env' (cp_ID cp) s') = Returns v"
  using assms(1)
proof (rule MemSave_returns)
  fix d
  assume d: "Serialize x (ms_serializer s) (env_rnd env) cp = Returns d" and free: "\<not> ms_orderHeld s"
    and s': "s' = s\<lparr>ms_checkpoints := (ms_checkpoints s)(cp_ID cp \<mapsto>
           \<lparr>ent_checkpoint = cp, ent_data = d, ent_size = int (length d),
            ent_createdAt = env_now env, ent_accessedAt = env_now env\<rparr>),
         ms_ttlMap := (ms_ttlMap s)(cp_ID cp \<mapsto> env_now env + ms_defaultTTL s),
         ms_accessOrder := (ms_accessOrder s)(cp_ID cp \<mapsto> env_now env),
         ms_currentSize := ms_currentSize s + int (length d)\<rparr>"
  from d assms(2) have "d = data" by simp
  then show ?thesis using free assms(3)
    by (simp add: s' MemLoad_def isExpired_def saver_delete_cases with_order_def Let_def)
qed

lemma saved_loads:
  "MemSave x env cp s = (Returns (), s') \<Longrightarrow> Serialize x (ms_serializer s) (env_rnd env) cp = Returns data \<Longrightarrow>
   Deserialize x (ms_serializer s) data = Returns v \<Longrightarrow> env_now env' \<le> env_now env + ms_defaultTTL s \<Longrightarrow>
   fst (MemLoad x env' (cp_ID cp) s') = Returns v"
  using saved_loads_or_expires [of x env cp s s' data v env'] by simp

text \<open>
  time to live. A checkpoint saved with success is loaded, as the codec gives it back, up to and
  including its time to live, and is not found (and dropped) afterwards.
\<close>

theorem save_then_load:
  assumes "MemSave x env cp s = (Returns (), s')"
    and "Serialize x (ms_serializer s) (env_rnd env) cp = Returns data"
    and "Deserialize x (ms_serializer s) data = Returns v"
  shows "if env_now env + ms_defaultTTL s < env_now env'
    then fst (MemLoad x env' (cp_ID cp) s') = Fails ErrCheckpointNotFound
      \<and> ms_checkpoints (snd (MemLoad x env' (cp_ID cp) s')) = (ms_checkpoints s)(cp_ID cp := None)
    else fst (MemLoad x env' (cp_ID cp) s') = Returns v"
  by (rule saved_loads_or_expires [OF assms])

theorem save_then_load_witness:
  "\<exists>s'. MemSave one_checkpoint (sample_env 0 []) sample_checkpoint sample_saver = (Returns (), s')
    \<and> fst (MemLoad one_checkpoint (sample_env 11 []) ''c'' s') = Fails ErrCheckpointNotFound
    \<and> fst (MemLoad one_checkpoint (sample_env 10 []) ''c'' s') = Returns sample_checkpoint"
proof -
  obtain s' where s': "MemSave one_checkpoint (sample_env 0 []) sample_checkpoint sample_saver = (Returns (), s')"
    using sample_save_returns by (metis prod.collapse)
  have c: "cp_ID sample_checkpoint = ''c''" by (simp add: sample_checkpoint_def)
  show ?thesis
    using save_then_load [OF s', of "replicate (2 ^ 19) 1" sample_checkpoint "sample_env 11 []"]
      save_then_load [OF s', of "replicate (2 ^ 19) 1" sample_checkpoint "sample_env 10 []"] s'
    by (simp add: sample_serializer sample_Serialize sample_Deserialize sample_max c)
qed

subsection \<open>Listing\<close>

definition live_matches :: "Filter \<Rightarrow> (string \<times> int) list \<Rightarrow> InMemorySaver \<Rightarrow> Checkpoint list" where
  "live_matches f visits s = filter (list_matches f)
     (map (\<lambda>(cid, now). ent_checkpoint (the (ms_checkpoints s cid)))
       (filter (\<lambda>(cid, now). \<not> isExpired now cid s) visits))"

definition page :: "int \<Rightarrow> int \<Rightarrow> 'a list \<Rightarrow> 'a list" where
  "page offset limit xs = (let ys = drop (nat offset) xs in if 0 < limit then take (nat limit) ys else ys)"

lemma live_matches_cong:
  assumes "\<forall>c \<in> fst ` set visits. ms_checkpoints s' c = ms_checkpoints s c \<and> ms_ttlMap s' c = ms_ttlMap s c"
  shows "live_matches f visits s' = live_matches f visits s"
proof -
  have 1: "filter (\<lambda>(cid, now). \<not> isExpired now cid s') visits = filter (\<lambda>(cid, now). \<not> isExpired now cid s) visits"
    by (rule filter_cong) (use assms in \<open>force simp: isExpired_def\<close>)+
  have 2: "map (\<lambda>(cid, now). ent_checkpoint (the (ms_checkpoints s' cid))) (filter P visits)
      = map (\<lambda>(cid, now). ent_checkpoint (the (ms_checkpoints s cid))) (filter P visits)" for P
    by (rule map_cong) (use assms in force)+
  show ?thesis by (simp only: live_matches_def 1 2)
qed

lemma list_loop_page:
  assumes "distinct (map fst visits)" and "\<forall>c \<in> fst ` set visits. ms_checkpoints s c \<noteq> None"
    and "\<not> ms_orderHeld s" and "0 \<le> m" and "0 \<le> fl_Offset f" and "0 < fl_Limit f \<Longrightarrow> r \<le> fl_Limit f"
  shows "fst (list_loop f visits m r results s) = Returns (results @
    (let ys = drop (nat (fl_Offset f - m)) (live_matches f visits s)
     in if 0 < fl_Limit f then take (nat (fl_Limit f - r)) ys else ys))"
  using assms
proof (induction visits arbitrary: m r results s)
  case Nil
  then show ?case by (simp add: live_matches_def)
next
  case (Cons v visits)
  obtain cid now where v: "v = (cid, now)" by fastforce
  from Cons.prems(2) v obtain e where e: "ms_checkpoints s cid = Some e" by auto
  show ?case
  proof (cases "isExpired now cid s")
    case True
    define s1 where "s1 = snd (saver_delete cid s)"
    have d: "saver_delete cid s = (Returns (), s1)" and s1: "\<not> ms_orderHeld s1"
      "ms_checkpoints s1 = (ms_checkpoints s)(cid := None)" "ms_ttlMap s1 = (ms_ttlMap s)(cid := None)"
      using Cons.prems(3) by (simp_all add: s1_def saver_delete_cases)
    have same: "\<forall>c \<in> fst ` set visits. ms_checkpoints s1 c = ms_checkpoints s c \<and> ms_ttlMap s1 c = ms_ttlMap s c"
      using Cons.prems(1) v s1 by auto
    have "live_matches f visits s1 = live_matches f visits s" by (rule live_matches_cong [OF same])
    moreover have "live_matches f (v # visits) s = live_matches f visits s"
      using True v by (simp add: live_matches_def)
    moreover have "\<forall>c \<in> fst ` set visits. ms_checkpoints s1 c \<noteq> None" using same Cons.prems(2) by auto
    ultimately show ?thesis
      using Cons.IH [of s1 m r results] Cons.prems s1 v e True d by simp
  next
    case live: False
    have lm: "live_matches f (v # visits) s
        = (if list_matches f (ent_checkpoint e) then [ent_checkpoint e] else []) @ live_matches f visits s"
      using live v e by (simp add: live_matches_def)
    consider (other) "\<not> list_matches f (ent_checkpoint e)"
      | (skip) "list_matches f (ent_checkpoint e)" "m < fl_Offset f"
      | (full) "list_matches f (ent_checkpoint e)" "\<not> m < fl_Offset f" "0 < fl_Limit f" "fl_Limit f \<le> r"
      | (take) "list_matches f (ent_checkpoint e)" "\<not> m < fl_Offset f" "\<not> (0 < fl_Limit f \<and> fl_Limit f \<le> r)"
      by blast
    then show ?thesis
    proof cases
      case other
      then show ?thesis using Cons.IH [of s m r results] Cons.prems v e live lm by simp
    next
      case skip
      then have "nat (fl_Offset f - m) = Suc (nat (fl_Offset f - (m + 1)))" "0 < fl_Offset f"
        using Cons.prems(4) by auto
      then show ?thesis using skip Cons.IH [of s "m + 1" r results] Cons.prems v e live lm by simp
    next
      case full
      then show ?thesis using Cons.prems v e live by (simp add: Let_def)
    next
      case take
      have z: "nat (fl_Offset f - m) = 0" "nat (fl_Offset f - (m + 1)) = 0" using take(2) by simp_all
      have "0 < fl_Limit f \<Longrightarrow> nat (fl_Limit f - r) = Suc (nat (fl_Limit f - (r + 1)))" using take(3) by auto
      then show ?thesis
        using take z Cons.IH [of s "m + 1" "r + 1" "results @ [ent_checkpoint e]"] Cons.prems v e live lm
        by (auto simp: Let_def)
    qed
  qed
qed

text \<open>
  listing. With a valid filter on a saver whose lock is free, \<^verbatim>\<open>List\<close> gives, in the
  order of the range, the requested page (offset, then limit) of the unexpired checkpoints that match
  the graph, the thread and the earliest time. The upper time bound and the tags of the filter have
  no effect: filters that differ only in them give the same answer.
\<close>

theorem list_pages:
  assumes "Filter_Validate f = None" and "map_order (ms_checkpoints s) (map fst visits)" and "\<not> ms_orderHeld s"
    and "Filter_Validate (f\<lparr>fl_Before := b, fl_Tags := ts\<rparr>) = None"
  shows "fst (MemList visits f s) = Returns (page (fl_Offset f) (fl_Limit f) (live_matches f visits s))
    \<and> fst (MemList visits (f\<lparr>fl_Before := b, fl_Tags := ts\<rparr>) s) = fst (MemList visits f s)"
proof -
  have visits: "distinct (map fst visits)" "\<forall>c \<in> fst ` set visits. ms_checkpoints s c \<noteq> None"
    using assms(2) by (auto simp: map_order_def)
  have list: "fst (MemList visits f s) = Returns (page (fl_Offset f) (fl_Limit f) (live_matches f visits s))"
    if "Filter_Validate f = None" for f
  proof -
    have "0 \<le> fl_Offset f" using that by (auto simp: Filter_Validate_def split: if_splits)
    with list_loop_page [OF visits assms(3), of 0 f 0 "[]"] that show ?thesis
      by (simp add: MemList_def page_def Let_def)
  qed
  have "live_matches (f\<lparr>fl_Before := b, fl_Tags := ts\<rparr>) visits s = live_matches f visits s"
    by (simp add: live_matches_def list_matches_def [abs_def])
  with list [OF assms(1)] list [OF assms(4)] show ?thesis by simp
qed

theorem list_pages_witness:
  "\<exists>s'. MemSave one_checkpoint (sample_env 0 []) sample_checkpoint sample_saver = (Returns (), s')
    \<and> fst (MemList [(''c'', 5)] \<lparr>fl_GraphID = ''g'', fl_ThreadID = [], fl_Limit = 3, fl_Offset = 0,
          fl_Since = None, fl_Before = Some (- 1), fl_Tags = [''x'']\<rparr> s') = Returns [sample_checkpoint]"
proof -
  let ?f = "\<lparr>fl_GraphID = ''g'', fl_ThreadID = [], fl_Limit = 3, fl_Offset = 0,
    fl_Since = None, fl_Before = Some (- 1), fl_Tags = [''x'']\<rparr>"
  obtain s' where s': "MemSave one_checkpoint (sample_env 0 []) sample_checkpoint sample_saver = (Returns (), s')"
    using sample_save_returns by (metis prod.collapse)
  have c: "cp_ID sample_checkpoint = ''c''" "cp_GraphID sample_checkpoint = ''g''"
    by (simp_all add: sample_checkpoint_def)
  from s' have entries: "ms_checkpoints s' ''c'' \<noteq> None" "dom (ms_checkpoints s') = {''c''}" "\<not> ms_orderHeld s'"
      "ent_checkpoint (the (ms_checkpoints s' ''c'')) = sample_checkpoint" "\<not> isExpired 5 ''c'' s'"
    by (auto elim!: MemSave_returns simp: c sample_max isExpired_def split: if_splits)
  have "fst (MemList [(''c'', 5)] ?f s') = Returns [sample_checkpoint]"
    using list_pages [of ?f s' "[(''c'', 5)]" "[]" None] entries
    by (simp add: Filter_Validate_def map_order_def live_matches_def list_matches_def page_def c)
  with s' show ?thesis by blast
qed

end
