(* ===== verification/CheckpointService.thy ===== *)
theory CheckpointService
  imports ExecutionData MemorySaverProps PersistentChannel
begin

section \<open>The checkpoint service (internal/app/services/checkpoint.go)\<close>

text \<open>
  The service turns execution contexts into checkpoints of a saver and back. The saver's operations
  are arguments (the Go interface \<^verbatim>\<open>checkpoint.Saver\<close>); the results instantiate them with
  the in-memory saver of \<^verbatim>\<open>MemorySaver\<close>.
\<close>

text \<open>\<open>nano\<close> is the clock reading of the identifier, \<open>ts\<close> that of the time stamp.\<close>

definition generateCheckpointID :: "int \<Rightarrow> ExecutionContext \<Rightarrow> string" where
  "generateCheckpointID nano c =
     ''checkpoint-'' @ xc_GraphID c @ ''-'' @ xc_ThreadID c @ ''-'' @ show_int (xc_CurrentStep c)
       @ ''-'' @ show_int nano"

definition checkpoint_of :: "int \<Rightarrow> int \<Rightarrow> ExecutionContext \<Rightarrow> Checkpoint" where
  "checkpoint_of nano ts c =
     \<lparr>cp_ID = generateCheckpointID nano c, cp_GraphID = xc_GraphID c, cp_ThreadID = xc_ThreadID c,
      cp_State = xc_State c,
      cp_Metadata = \<lparr>md_Step = xc_CurrentStep c, md_Source = ''graph_executor'',
        md_Writes = Some [''execution_id'' \<mapsto> VStr (xc_ExecutionID c), ''config'' \<mapsto> VConfig (xc_Config c),
          ''start_time'' \<mapsto> VTime (xc_StartTime c)],
        md_UserID = [], md_CreatedBy = ''flowgraph'', md_Tags = []\<rparr>,
      cp_Timestamp = ts, cp_Version = []\<rparr>"

definition CreateCheckpoint ::
  "('e \<Rightarrow> Checkpoint \<Rightarrow> 's \<Rightarrow> (cp_error, unit) outcome \<times> 's) \<Rightarrow> int \<Rightarrow> int \<Rightarrow> 'e \<Rightarrow> ExecutionContext \<Rightarrow> 's
   \<Rightarrow> (cp_error, string) outcome \<times> 's" where
  "CreateCheckpoint save nano ts env c s =
     (case save env (checkpoint_of nano ts c) s of
        (Returns _, s') \<Rightarrow> (Returns (generateCheckpointID nano c), s')
      | (Fails err, s') \<Rightarrow> (Fails (Wrapped ''failed to save checkpoint'' err), s')
      | (Blocks, s') \<Rightarrow> (Blocks, s') | (Deadlocks, s') \<Rightarrow> (Deadlocks, s') | (Panics p, s') \<Rightarrow> (Panics p, s'))"

text \<open>The context in a checkpoint; a field whose type assertion fails keeps its zero value.\<close>

definition context_of :: "Checkpoint \<Rightarrow> ExecutionContext" where
  "context_of cp =
     (let w = nil_map (md_Writes (cp_Metadata cp)) in
      \<lparr>xc_ExecutionID = (case w ''execution_id'' of Some (VStr s) \<Rightarrow> s | _ \<Rightarrow> []),
       xc_GraphID = cp_GraphID cp, xc_ThreadID = cp_ThreadID cp,
       xc_CurrentStep = md_Step (cp_Metadata cp), xc_State = cp_State cp,
       xc_Config = (case w ''config'' of Some (VConfig c) \<Rightarrow> c | _ \<Rightarrow> zero_config),
       xc_StartTime = (case w ''start_time'' of Some (VTime t) \<Rightarrow> t | _ \<Rightarrow> 0)\<rparr>)"

definition Service_LoadCheckpoint ::
  "('e \<Rightarrow> string \<Rightarrow> 's \<Rightarrow> (cp_error, Checkpoint) outcome \<times> 's) \<Rightarrow> 'e \<Rightarrow> string \<Rightarrow> 's
   \<Rightarrow> (cp_error, ExecutionContext) outcome \<times> 's" where
  "Service_LoadCheckpoint load env cid s =
     (case load env cid s of
        (Returns cp, s') \<Rightarrow> (Returns (context_of cp), s')
      | (Fails err, s') \<Rightarrow> (Fails (Wrapped ''failed to load checkpoint'' err), s')
      | (Blocks, s') \<Rightarrow> (Blocks, s') | (Deadlocks, s') \<Rightarrow> (Deadlocks, s') | (Panics p, s') \<Rightarrow> (Panics p, s'))"

definition Service_ListCheckpoints ::
  "(Filter \<Rightarrow> 's \<Rightarrow> (cp_error, Checkpoint list) outcome \<times> 's) \<Rightarrow> string \<Rightarrow> 's
   \<Rightarrow> (cp_error, string list) outcome \<times> 's" where
  "Service_ListCheckpoints list threadID s =
     (case list \<lparr>fl_GraphID = [], fl_ThreadID = threadID, fl_Limit = 100, fl_Offset = 0,
                 fl_Since = None, fl_Before = None, fl_Tags = []\<rparr> s of
        (Returns cps, s') \<Rightarrow> (Returns (map cp_ID cps), s')
      | (Fails err, s') \<Rightarrow> (Fails (Wrapped ''failed to list checkpoints'' err), s')
      | (Blocks, s') \<Rightarrow> (Blocks, s') | (Deadlocks, s') \<Rightarrow> (Deadlocks, s') | (Panics p, s') \<Rightarrow> (Panics p, s'))"

subsection \<open>What JSON leaves of a checkpoint\<close>

definition json_map :: "(int \<Rightarrow> string) \<Rightarrow> gstate \<Rightarrow> gstate option" where
  "json_map tt m = (case json_value tt (VMap m) of Some (VMap m') \<Rightarrow> Some m' | _ \<Rightarrow> None)"

text \<open>An empty \<^verbatim>\<open>Writes\<close> map is omitted.\<close>

definition json_checkpoint :: "(int \<Rightarrow> string) \<Rightarrow> Checkpoint \<Rightarrow> Checkpoint option" where
  "json_checkpoint tt c =
     (let st = (case cp_State c of None \<Rightarrow> Some None | Some s \<Rightarrow> map_option Some (json_map tt s));
          wr = (case md_Writes (cp_Metadata c) of None \<Rightarrow> Some None
                | Some w \<Rightarrow> if w = Map.empty then Some None else map_option Some (json_map tt w))
      in case (st, wr) of
           (Some s, Some w) \<Rightarrow> Some (c\<lparr>cp_State := s, cp_Metadata := (cp_Metadata c)\<lparr>md_Writes := w\<rparr>\<rparr>)
         | _ \<Rightarrow> None)"

text \<open>The checkpoint codec decodes what JSON makes of the encoded checkpoint.\<close>

definition json_codec :: "(int \<Rightarrow> string) \<Rightarrow> Checkpoint Codec \<Rightarrow> bool" where
  "json_codec tt codec \<longleftrightarrow> (\<forall>c d. cd_Encode codec c = Inr d \<longrightarrow>
     (\<exists>c'. json_checkpoint tt c = Some c' \<and> cd_Decode codec d = Inr c'))"

lemma json_map_apply:
  assumes "json_map tt m = Some m'"
  shows "m' k = (case m k of None \<Rightarrow> None | Some v \<Rightarrow> json_value tt v)"
  using assms by (auto simp: json_map_def split: option.splits gval.splits if_splits)

lemma json_map_Some: "(\<And>k v. m k = Some v \<Longrightarrow> json_value tt v \<noteq> None) \<Longrightarrow> \<exists>m'. json_map tt m = Some m'"
  by (auto simp: json_map_def)

text \<open>JSON keeps the execution ID of a context, but neither its configuration nor its start time.\<close>

lemma json_context:
  assumes "json_checkpoint tt (checkpoint_of nano ts c) = Some c'"
  shows "xc_Config (context_of c') = zero_config \<and> xc_StartTime (context_of c') = 0
    \<and> xc_ExecutionID (context_of c') = xc_ExecutionID c \<and> xc_GraphID (context_of c') = xc_GraphID c
    \<and> xc_ThreadID (context_of c') = xc_ThreadID c \<and> xc_CurrentStep (context_of c') = xc_CurrentStep c"
proof -
  let ?w = "[''execution_id'' \<mapsto> VStr (xc_ExecutionID c), ''config'' \<mapsto> VConfig (xc_Config c),
    ''start_time'' \<mapsto> VTime (xc_StartTime c)] :: gstate"
  have ne: "?w \<noteq> Map.empty" by (simp add: fun_eq_iff exI [of _ "''config''"])
  from assms ne obtain s w where w: "json_map tt ?w = Some w"
    and c': "c' = (checkpoint_of nano ts c)\<lparr>cp_State := s,
      cp_Metadata := (cp_Metadata (checkpoint_of nano ts c))\<lparr>md_Writes := Some w\<rparr>\<rparr>"
    by (auto simp: json_checkpoint_def checkpoint_of_def Let_def split: option.splits)
  note val = json_map_apply [OF w]
  show ?thesis
    by (simp add: c' context_of_def Let_def val checkpoint_of_def json_config_def)
qed

subsection \<open>Properties\<close>

lemma CreateCheckpoint_returns:
  assumes "CreateCheckpoint save nano ts env c s = (Returns cid, s1)"
  shows "cid = generateCheckpointID nano c \<and> save env (checkpoint_of nano ts c) s = (Returns (), s1)"
  using assms by (auto simp: CreateCheckpoint_def split: outcome.splits prod.splits)

text \<open>Creating and loading through the in-memory saver, for any codec.\<close>

lemma create_then_load:
  assumes "CreateCheckpoint (MemSave x) nano ts env c s = (Returns cid, s1)"
    and "reads_back x view (ms_serializer s)" and "env_now env' \<le> env_now env + ms_defaultTTL s"
  shows "fst (Service_LoadCheckpoint (MemLoad x) env' cid s1) = Returns (context_of (view (checkpoint_of nano ts c)))"
proof -
  from CreateCheckpoint_returns [OF assms(1)] have cid: "cid = cp_ID (checkpoint_of nano ts c)"
    and save: "MemSave x env (checkpoint_of nano ts c) s = (Returns (), s1)"
    by (simp_all add: checkpoint_of_def)
  from save obtain data where data: "Serialize x (ms_serializer s) (env_rnd env) (checkpoint_of nano ts c) = Returns data"
    by (rule MemSave_returns)
  with assms(2) have "Deserialize x (ms_serializer s) data = Returns (view (checkpoint_of nano ts c))"
    by (auto simp: reads_back_def)
  from saved_loads [OF save data this, of env'] assms(3)
  have "fst (MemLoad x env' cid s1) = Returns (view (checkpoint_of nano ts c))" by (simp add: cid)
  then show ?thesis by (cases "MemLoad x env' cid s1") (simp add: Service_LoadCheckpoint_def)
qed

text \<open>A sample context, and a library whose msgpack knows its checkpoint only and decodes it to \<open>cp'\<close>.\<close>

definition sample_context :: ExecutionContext where
  "sample_context = \<lparr>xc_ExecutionID = ''e'', xc_GraphID = ''g'', xc_ThreadID = ''t'', xc_CurrentStep = 3,
     xc_State = Some Map.empty, xc_Config = zero_config\<lparr>MaxSteps := 7\<rparr>, xc_StartTime = 9\<rparr>"

definition service_externals :: "Checkpoint \<Rightarrow> Checkpoint Externals" where
  "service_externals cp' = one_checkpoint\<lparr>
     x_msgpack_marshal := (\<lambda>c. if c = checkpoint_of 1 2 sample_context then Inr [1] else Inl ''other''),
     x_msgpack_unmarshal := (\<lambda>d. Inr cp')\<rparr>"

definition service_saver :: "Checkpoint \<Rightarrow> InMemorySaver" where
  "service_saver cp' = NewInMemorySaver (service_externals cp')
     \<lparr>imc_DefaultTTL = 10, imc_MaxMemoryMB = 1, imc_CleanupInterval = 0, imc_Serializer = None\<rparr>"

lemma service_lawful: "lawful (service_externals cp')"
  by (auto simp: lawful_def service_externals_def one_checkpoint_def)

lemma service_codec:
  "szr_Codec (ms_serializer (service_saver cp')) = Some (NewMsgPackCodec (service_externals cp'))"
  "cd_Encode (NewMsgPackCodec (service_externals cp')) cp = Inr d \<Longrightarrow>
     cp = checkpoint_of 1 2 sample_context \<and> cd_Decode (NewMsgPackCodec (service_externals cp')) d = Inr cp'"
  by (auto simp: service_saver_def NewInMemorySaver_def DefaultSerializer_def NewMsgPackCodec_def
      service_externals_def split: if_splits)

lemma service_create:
  "\<exists>s1. CreateCheckpoint (MemSave (service_externals cp')) 1 2 (sample_env 0 []) sample_context (service_saver cp')
     = (Returns (generateCheckpointID 1 sample_context), s1)"
proof -
  have "Serialize (service_externals cp') (ms_serializer (service_saver cp')) (Inl ''none'')
      (checkpoint_of 1 2 sample_context) = Returns [1]"
    by (simp add: service_saver_def NewInMemorySaver_def Serialize_def DefaultSerializer_def NewMsgPackCodec_def
        service_externals_def one_checkpoint_def compress_def compressZstd_def CompressionNone_def
        CompressionGzip_def CompressionZstd_def)
  moreover have "Checkpoint_Validate (checkpoint_of 1 2 sample_context) = None"
    by (simp add: Checkpoint_Validate_def checkpoint_of_def sample_context_def generateCheckpointID_def)
  moreover have "ms_currentSize (service_saver cp') = 0" "ms_orderHeld (service_saver cp') = False"
    "max_bytes (service_saver cp') = 2 ^ 20"
    by (simp_all add: service_saver_def NewInMemorySaver_def max_bytes_def i64_def)
  ultimately have "fst (MemSave (service_externals cp') (sample_env 0 []) (checkpoint_of 1 2 sample_context)
      (service_saver cp')) = Returns ()"
    by (simp add: MemSave_def checkMemoryLimit_def Let_def with_order_def)
  then show ?thesis
    by (cases "MemSave (service_externals cp') (sample_env 0 []) (checkpoint_of 1 2 sample_context) (service_saver cp')")
      (simp add: CreateCheckpoint_def)
qed



text \<open>
  JSON drops the configuration. With a JSON codec, a checkpoint created by the service loads with
  the same execution, graph, thread and step, but always with the zero configuration and the zero
  start time: the type assertions on the decoded \<^verbatim>\<open>Writes\<close> fail silently.
\<close>

theorem json_loses_config:
  assumes "lawful x" and "szr_Codec (ms_serializer s) = Some codec" and "json_codec tt codec"
    and "CreateCheckpoint (MemSave x) nano ts env c s = (Returns cid, s1)"
    and "env_now env' \<le> env_now env + ms_defaultTTL s"
  shows "\<exists>c'. fst (Service_LoadCheckpoint (MemLoad x) env' cid s1) = Returns c'
    \<and> xc_Config c' = zero_config \<and> xc_StartTime c' = 0 \<and> xc_ExecutionID c' = xc_ExecutionID c
    \<and> xc_GraphID c' = xc_GraphID c \<and> xc_ThreadID c' = xc_ThreadID c \<and> xc_CurrentStep c' = xc_CurrentStep c"
proof -
  have rb: "reads_back x (\<lambda>c. the (json_checkpoint tt c)) (ms_serializer s)"
    by (rule reads_back_new [OF assms(1,2)]) (use assms(3) in \<open>fastforce simp: json_codec_def\<close>)
  from CreateCheckpoint_returns [OF assms(4)]
  have save: "MemSave x env (checkpoint_of nano ts c) s = (Returns (), s1)" by simp
  then obtain data where data: "Serialize x (ms_serializer s) (env_rnd env) (checkpoint_of nano ts c) = Returns data"
    by (rule MemSave_returns)
  then obtain d where "cd_Encode codec (checkpoint_of nano ts c) = Inr d"
    by (rule Serialize_cases) (use assms(2) in auto)
  with assms(3) obtain c' where c': "json_checkpoint tt (checkpoint_of nano ts c) = Some c'"
    by (auto simp: json_codec_def)
  from create_then_load [OF assms(4) rb assms(5)] c' json_context [OF c'] show ?thesis by simp
qed

theorem json_loses_config_witness:
  "\<exists>cp s1 c'. fst (Service_LoadCheckpoint (MemLoad (service_externals cp)) (sample_env 5 [])
      (generateCheckpointID 1 sample_context) s1) = Returns c'
    \<and> xc_Config c' = zero_config \<and> MaxSteps (xc_Config sample_context) = 7 \<and> xc_CurrentStep c' = 3"
proof -
  let ?w = "[''execution_id'' \<mapsto> VStr (xc_ExecutionID sample_context), ''config'' \<mapsto> VConfig (xc_Config sample_context),
    ''start_time'' \<mapsto> VTime (xc_StartTime sample_context)] :: gstate"
  have "\<exists>w. json_map show_int ?w = Some w" by (rule json_map_Some) (auto split: if_splits)
  then obtain w where w: "json_map show_int ?w = Some w" by blast
  obtain e where e: "json_map show_int Map.empty = Some e" using json_map_Some [of Map.empty] by auto
  have ne: "?w \<noteq> Map.empty" by (simp add: fun_eq_iff exI [of _ "''config''"])
  obtain cp where cp: "json_checkpoint show_int (checkpoint_of 1 2 sample_context) = Some cp"
    using w e ne by (simp add: json_checkpoint_def checkpoint_of_def Let_def sample_context_def)
  let ?x = "service_externals cp"
  obtain s1 where s1: "CreateCheckpoint (MemSave ?x) 1 2 (sample_env 0 []) sample_context (service_saver cp)
      = (Returns (generateCheckpointID 1 sample_context), s1)" using service_create by blast
  have "json_codec show_int (NewMsgPackCodec ?x)" using service_codec(2) cp by (auto simp: json_codec_def)
  moreover have "ms_defaultTTL (service_saver cp) = 10" by (simp add: service_saver_def NewInMemorySaver_def)
  ultimately obtain c' where "fst (Service_LoadCheckpoint (MemLoad ?x) (sample_env 5 [])
      (generateCheckpointID 1 sample_context) s1) = Returns c'" "xc_Config c' = zero_config"
      "xc_CurrentStep c' = xc_CurrentStep sample_context"
    using json_loses_config [OF service_lawful service_codec(1) _ s1, of show_int "sample_env 5 []"] by auto
  then show ?thesis by (auto simp: sample_context_def)
qed

text \<open>
  Identifiers are not injective in graph and thread: a dash moves from one to the other.
\<close>

lemma checkpoint_ids_collide:
  "generateCheckpointID nano (c\<lparr>xc_GraphID := g @ ''-'' @ h, xc_ThreadID := t\<rparr>)
     = generateCheckpointID nano (c\<lparr>xc_GraphID := g, xc_ThreadID := h @ ''-'' @ t\<rparr>)"
  by (simp add: generateCheckpointID_def)

end
