(* ===== verification/Executor.thy ===== *)
theory Executor
  imports NodeProcessing CheckpointService
begin

section \<open>The graph executor (internal/app/usecases/executor.go, pkg/flowgraph/runtime.go)\<close>

text \<open>
  \<^verbatim>\<open>DefaultGraphExecutor\<close> with its dependencies as fields, as in Go: the node processor,
  the edge evaluator, the two operations of the checkpoint manager with the manager's state
  (\<open>'m\<close>; a nil manager is \<open>None\<close>), the graph repository, and the registry of executions. The
  context's deadline is not consulted by the code, nor is the state manager, so neither appears.
  Clock readings and the choices of the checkpoint manager are arguments. \<^verbatim>\<open>NewRuntime\<close>
  instantiates everything with the in-memory components.
\<close>

subsection \<open>State\<close>

datatype exec_error =
    InvalidRequest dto_error
  | RepositoryError graph_error
  | LoadGraphFailed graph_error
  | GraphValidationFailed graph_error
  | NodeExecutionFailed string string     \<comment> \<open>node and cause\<close>
  | CheckpointLoadFailed cp_error
  | ExecutionNotFound string

text \<open>What one checkpoint call gets from its environment: two clock readings and the saver's choices.\<close>

record 'e cp_env =
  ce_nano :: int
  ce_time :: int
  ce_saver :: 'e

record ('e, 'm) DefaultGraphExecutor =
  ge_process :: processor
  ge_next :: evaluator
  ge_create :: "('e cp_env \<Rightarrow> ExecutionContext \<Rightarrow> 'm \<Rightarrow> (cp_error, string) outcome \<times> 'm) option"
  ge_load :: "'e \<Rightarrow> string \<Rightarrow> 'm \<Rightarrow> (cp_error, ExecutionContext) outcome \<times> 'm"
  ge_manager :: 'm
  ge_repo :: GraphRepository
  ge_executions :: "string \<rightharpoonup> ExecutionContext"

definition NewDefaultGraphExecutor ::
  "processor \<Rightarrow> evaluator \<Rightarrow> ('e cp_env \<Rightarrow> ExecutionContext \<Rightarrow> 'm \<Rightarrow> (cp_error, string) outcome \<times> 'm) option
   \<Rightarrow> ('e \<Rightarrow> string \<Rightarrow> 'm \<Rightarrow> (cp_error, ExecutionContext) outcome \<times> 'm) \<Rightarrow> 'm \<Rightarrow> GraphRepository
   \<Rightarrow> ('e, 'm) DefaultGraphExecutor" where
  "NewDefaultGraphExecutor p n c l m r = \<lparr>ge_process = p, ge_next = n, ge_create = c, ge_load = l,
     ge_manager = m, ge_repo = r, ge_executions = Map.empty\<rparr>"

text \<open>The clock readings of one step and its checkpoint environment.\<close>

record 'e step_env =
  se_start :: int
  se_cp :: "'e cp_env"
  se_end :: int
  se_since :: int

definition generateExecutionID :: "int \<Rightarrow> string \<Rightarrow> string \<Rightarrow> string" where
  "generateExecutionID nano g t = g @ ''-'' @ t @ ''-'' @ show_int nano"

subsection \<open>One step\<close>

text \<open>
  A checkpoint is due at the steps that \<^verbatim>\<open>CheckpointEvery\<close> divides (Go's remainder; by
  zero it panics); its error is dropped.
\<close>

definition take_checkpoint ::
  "'e cp_env \<Rightarrow> int \<Rightarrow> ExecutionContext \<Rightarrow> ('e, 'm) DefaultGraphExecutor \<Rightarrow> (exec_error, unit) outcome \<times> ('e, 'm) DefaultGraphExecutor" where
  "take_checkpoint ce step c ex =
     (case ge_create ex of
        None \<Rightarrow> (Returns (), ex)
      | Some create \<Rightarrow>
          if CheckpointEvery (xc_Config c) = 0 then (Panics ''integer divide by zero'', ex)
          else if step smod CheckpointEvery (xc_Config c) = 0 then
            (case create ce c (ge_manager ex) of
               (Returns _, m') \<Rightarrow> (Returns (), ex\<lparr>ge_manager := m'\<rparr>)
             | (Fails _, m') \<Rightarrow> (Returns (), ex\<lparr>ge_manager := m'\<rparr>)
             | (Blocks, m') \<Rightarrow> (Blocks, ex\<lparr>ge_manager := m'\<rparr>)
             | (Deadlocks, m') \<Rightarrow> (Deadlocks, ex\<lparr>ge_manager := m'\<rparr>)
             | (Panics p, m') \<Rightarrow> (Panics p, ex\<lparr>ge_manager := m'\<rparr>))
          else (Returns (), ex))"

definition runSequentialStep ::
  "'e step_env \<Rightarrow> ExecutionContext \<Rightarrow> Graph \<Rightarrow> Node \<Rightarrow> int \<Rightarrow> ('e, 'm) DefaultGraphExecutor
   \<Rightarrow> (exec_error, Node option \<times> StepResult) outcome \<times> ExecutionContext \<times> ('e, 'm) DefaultGraphExecutor" where
  "runSequentialStep se c g cur step ex =
     (case ge_process ex cur (xc_State c) of
        Inl err \<Rightarrow> (Fails (NodeExecutionFailed (n_ID cur) err), c, ex)
      | Inr output \<Rightarrow>
          (let c1 = c\<lparr>xc_State := output\<rparr> in
           case take_checkpoint (se_cp se) step c1 ex of
             (Returns _, ex1) \<Rightarrow>
               (let rec = \<lparr>sr_StepNumber = step + 1, sr_NodeID = n_ID cur, sr_NodeType = n_Type cur,
                    sr_Input = xc_State c1, sr_Output = output, sr_StartTime = se_start se,
                    sr_EndTime = se_end se, sr_Duration = se_since se - se_start se,
                    sr_Status = StepStatusCompleted, sr_Error = [], sr_CheckpointID = []\<rparr>
                in case ge_next ex1 cur (g_Edges g) (nil_map (xc_State c1)) of
                     Returns (n # _) \<Rightarrow> (Returns (Some n, rec), c1, ex1)
                   | Returns [] \<Rightarrow> (Returns (None, rec), c1, ex1)
                   | Fails _ \<Rightarrow> (Returns (None, rec), c1, ex1)
                   | Blocks \<Rightarrow> (Blocks, c1, ex1) | Deadlocks \<Rightarrow> (Deadlocks, c1, ex1)
                   | Panics p \<Rightarrow> (Panics p, c1, ex1))
           | (Fails err, ex1) \<Rightarrow> (Fails err, c1, ex1)
           | (Blocks, ex1) \<Rightarrow> (Blocks, c1, ex1) | (Deadlocks, ex1) \<Rightarrow> (Deadlocks, c1, ex1)
           | (Panics p, ex1) \<Rightarrow> (Panics p, c1, ex1)))"

subsection \<open>The loop\<close>

definition maxStepsOrDefault :: "ExecutionContext \<Rightarrow> int" where
  "maxStepsOrDefault c = (if 0 < MaxSteps (xc_Config c) then MaxSteps (xc_Config c) else 100)"

text \<open>\<open>left\<close> is the number of steps to \<^verbatim>\<open>maxSteps\<close>.\<close>

fun exec_loop ::
  "(nat \<Rightarrow> 'e step_env) \<Rightarrow> Graph \<Rightarrow> nat \<Rightarrow> nat \<Rightarrow> Node option \<Rightarrow> ExecutionContext \<Rightarrow> StepResult list
   \<Rightarrow> ('e, 'm) DefaultGraphExecutor
   \<Rightarrow> (exec_error, unit) outcome \<times> StepResult list \<times> ExecutionContext \<times> ('e, 'm) DefaultGraphExecutor" where
  "exec_loop ses g 0 step cur c steps ex = (Returns (), steps, c, ex)"
| "exec_loop ses g (Suc left) step None c steps ex = (Returns (), steps, c, ex)"
| "exec_loop ses g (Suc left) step (Some n) c steps ex =
     (case runSequentialStep (ses step) c g n (int step) ex of
        (Returns (n', rec), c', ex') \<Rightarrow>
          exec_loop ses g left (Suc step) n' (c'\<lparr>xc_CurrentStep := xc_CurrentStep c' + 1\<rparr>) (steps @ [rec]) ex'
      | (Fails err, c', ex') \<Rightarrow> (Fails err, steps, c', ex')
      | (Blocks, c', ex') \<Rightarrow> (Blocks, steps, c', ex')
      | (Deadlocks, c', ex') \<Rightarrow> (Deadlocks, steps, c', ex')
      | (Panics p, c', ex') \<Rightarrow> (Panics p, steps, c', ex'))"

definition executeGraph ::
  "(nat \<Rightarrow> 'e step_env) \<Rightarrow> ExecutionContext \<Rightarrow> ('e, 'm) DefaultGraphExecutor
   \<Rightarrow> (exec_error, unit) outcome \<times> StepResult list \<times> ExecutionContext \<times> ('e, 'm) DefaultGraphExecutor" where
  "executeGraph ses c ex =
     (case Repo_Get (xc_GraphID c) (ge_repo ex) of
        Inl err \<Rightarrow> (Fails (RepositoryError err), [], c, ex)
      | Inr g \<Rightarrow>
          exec_loop ses g (nat (maxStepsOrDefault c)) 0
            (case g_Nodes g (g_EntryPoint g) of Some p \<Rightarrow> p | None \<Rightarrow> None) c [] ex)"

subsection \<open>Execute\<close>

text \<open>
  The choices of one call. \<open>xe_ids\<close> and \<open>xe_ids'\<close> are the orders in which the validation
  ranges over the nodes.
\<close>

record 'e exec_env =
  xe_nano :: int
  xe_start :: int
  xe_end :: int
  xe_ids :: "string list"
  xe_ids' :: "string list"
  xe_steps :: "nat \<Rightarrow> 'e step_env"
  xe_load :: 'e

text \<open>
  Validation of the stored graph, which may write default edge types to it. \<open>wrap\<close> tells how the
  repository's error is reported.
\<close>

definition validate_stored ::
  "(graph_error \<Rightarrow> exec_error) \<Rightarrow> 'e exec_env \<Rightarrow> string \<Rightarrow> ExecutionConfig \<Rightarrow> ('e, 'm) DefaultGraphExecutor
   \<Rightarrow> exec_error option \<times> ('e, 'm) DefaultGraphExecutor" where
  "validate_stored wrap xe gid config ex =
     (if \<not> ValidateGraph config then (None, ex)
      else (case Repo_Get gid (ge_repo ex) of
              Inl err \<Rightarrow> (Some (wrap err), ex)
            | Inr g \<Rightarrow>
                (case ValidateCoreGraph (xe_ids xe) (xe_ids' xe)
                        (if ValidateCycles config then [\<lparr>CheckCycles = True\<rparr>] else []) (Some g) of
                   (r, g') \<Rightarrow>
                     (let ex' = (case g' of None \<Rightarrow> ex | Some gr \<Rightarrow> ex\<lparr>ge_repo := (ge_repo ex)(gid \<mapsto> gr)\<rparr>)
                      in (map_option GraphValidationFailed r, ex')))))"

text \<open>
  The common end of \<^verbatim>\<open>Execute\<close> and \<^verbatim>\<open>Resume\<close>: register, run, complete the
  response, remove. The response and the error are returned together; a call that blocks or panics
  leaves the execution registered.
\<close>

definition run_registered ::
  "'e exec_env \<Rightarrow> int \<Rightarrow> ExecutionContext \<Rightarrow> ('e, 'm) DefaultGraphExecutor
   \<Rightarrow> (unit, exec_error ExecutionResponse \<times> exec_error option) outcome \<times> ('e, 'm) DefaultGraphExecutor" where
  "run_registered xe start c ex =
     (case executeGraph (xe_steps xe) c ex of
        (r, steps, c', ex') \<Rightarrow>
          (let response = \<lparr>rs_ExecutionID = xc_ExecutionID c, rs_GraphID = xc_GraphID c,
                 rs_ThreadID = xc_ThreadID c, rs_Status = ExecutionStatusRunning, rs_Output = None,
                 rs_Steps = steps, rs_StartTime = start, rs_EndTime = xe_end xe,
                 rs_Duration = xe_end xe - start, rs_Error = None\<rparr>;
               ex2 = ex'\<lparr>ge_executions := (ge_executions ex')(xc_ExecutionID c := None)\<rparr>
           in case r of
                Returns _ \<Rightarrow> (Returns (response\<lparr>rs_Status := ExecutionStatusCompleted, rs_Output := xc_State c'\<rparr>, None), ex2)
              | Fails err \<Rightarrow> (Returns (response\<lparr>rs_Status := ExecutionStatusFailed, rs_Error := Some err\<rparr>, Some err), ex2)
              | Blocks \<Rightarrow> (Blocks, ex') | Deadlocks \<Rightarrow> (Deadlocks, ex') | Panics p \<Rightarrow> (Panics p, ex')))"

definition register :: "ExecutionContext \<Rightarrow> ('e, 'm) DefaultGraphExecutor \<Rightarrow> ('e, 'm) DefaultGraphExecutor" where
  "register c ex = ex\<lparr>ge_executions := (ge_executions ex)(xc_ExecutionID c \<mapsto> c)\<rparr>"

text \<open>A nil response is \<open>None\<close>. The request comes back with the defaults written to it.\<close>

type_synonym exec_result = "(unit, exec_error ExecutionResponse option \<times> exec_error option) outcome"

definition Execute ::
  "'e exec_env \<Rightarrow> ExecutionRequest \<Rightarrow> ('e, 'm) DefaultGraphExecutor
   \<Rightarrow> exec_result \<times> ExecutionRequest \<times> ('e, 'm) DefaultGraphExecutor" where
  "Execute xe req ex =
     (case Request_Validate req of
        (Some err, req') \<Rightarrow> (Returns (None, Some (InvalidRequest err)), req', ex)
      | (None, req') \<Rightarrow>
          (case validate_stored RepositoryError xe (rq_GraphID req') (rq_Config req') ex of
             (Some err, ex1) \<Rightarrow> (Returns (None, Some err), req', ex1)
           | (None, ex1) \<Rightarrow>
               (let c = \<lparr>xc_ExecutionID = generateExecutionID (xe_nano xe) (rq_GraphID req') (rq_ThreadID req'),
                      xc_GraphID = rq_GraphID req', xc_ThreadID = rq_ThreadID req', xc_CurrentStep = 0,
                      xc_State = rq_Input req', xc_Config = rq_Config req', xc_StartTime = xe_start xe\<rparr>
                in case run_registered xe (xe_start xe) c (register c ex1) of
                     (Returns (rs, err), ex2) \<Rightarrow> (Returns (Some rs, err), req', ex2)
                   | (Blocks, ex2) \<Rightarrow> (Blocks, req', ex2) | (Deadlocks, ex2) \<Rightarrow> (Deadlocks, req', ex2)
                   | (Fails u, ex2) \<Rightarrow> (Fails u, req', ex2)
                   | (Panics p, ex2) \<Rightarrow> (Panics p, req', ex2))))"

subsection \<open>Resume, Stop, GetStatus\<close>

definition resumed_config :: "ExecutionConfig \<Rightarrow> ExecutionConfig \<Rightarrow> ExecutionConfig" where
  "resumed_config req stored =
     (let c1 = (if 0 < MaxSteps req then stored\<lparr>MaxSteps := MaxSteps req\<rparr> else stored);
          c2 = (if 0 < ExecTimeout req then c1\<lparr>ExecTimeout := ExecTimeout req\<rparr> else c1)
      in if CheckpointEvery c2 = 0 then c2\<lparr>CheckpointEvery := 1\<rparr> else c2)"

text \<open>
  The execution is registered before the validation; a failed validation returns without removing
  it. A nil checkpoint manager is dereferenced.
\<close>

definition Resume ::
  "'e exec_env \<Rightarrow> string \<Rightarrow> ExecutionRequest \<Rightarrow> ('e, 'm) DefaultGraphExecutor
   \<Rightarrow> exec_result \<times> ('e, 'm) DefaultGraphExecutor" where
  "Resume xe cid req ex =
     (if ge_create ex = None then (Panics ''nil checkpoint manager'', ex)
      else case ge_load ex (xe_load xe) cid (ge_manager ex) of
        (Fails err, m') \<Rightarrow> (Returns (None, Some (CheckpointLoadFailed err)), ex\<lparr>ge_manager := m'\<rparr>)
      | (Blocks, m') \<Rightarrow> (Blocks, ex\<lparr>ge_manager := m'\<rparr>)
      | (Deadlocks, m') \<Rightarrow> (Deadlocks, ex\<lparr>ge_manager := m'\<rparr>)
      | (Panics p, m') \<Rightarrow> (Panics p, ex\<lparr>ge_manager := m'\<rparr>)
      | (Returns c0, m') \<Rightarrow>
          (let c = c0\<lparr>xc_Config := resumed_config (rq_Config req) (xc_Config c0),
                      xc_ExecutionID := generateExecutionID (xe_nano xe) (xc_GraphID c0) (xc_ThreadID c0)\<rparr>;
               ex1 = register c (ex\<lparr>ge_manager := m'\<rparr>)
           in case validate_stored LoadGraphFailed xe (xc_GraphID c) (xc_Config c) ex1 of
                (Some err, ex2) \<Rightarrow> (Returns (None, Some err), ex2)
              | (None, ex2) \<Rightarrow>
                  (case run_registered xe (xe_start xe) c ex2 of
                     (Returns (rs, err), ex3) \<Rightarrow> (Returns (Some rs, err), ex3)
                   | (Blocks, ex3) \<Rightarrow> (Blocks, ex3) | (Deadlocks, ex3) \<Rightarrow> (Deadlocks, ex3)
                   | (Fails u, ex3) \<Rightarrow> (Fails u, ex3) | (Panics p, ex3) \<Rightarrow> (Panics p, ex3))))"

definition Exec_Stop :: "string \<Rightarrow> ('e, 'm) DefaultGraphExecutor \<Rightarrow> exec_error option \<times> ('e, 'm) DefaultGraphExecutor" where
  "Exec_Stop eid ex =
     (if ge_executions ex eid = None then (Some (ExecutionNotFound eid), ex)
      else (None, ex\<lparr>ge_executions := (ge_executions ex)(eid := None)\<rparr>))"

definition GetStatus :: "string \<Rightarrow> ('e, 'm) DefaultGraphExecutor \<Rightarrow> exec_error + exec_error ExecutionResponse" where
  "GetStatus eid ex = (case ge_executions ex eid of
     None \<Rightarrow> Inl (ExecutionNotFound eid)
   | Some c \<Rightarrow> Inr \<lparr>rs_ExecutionID = eid, rs_GraphID = xc_GraphID c, rs_ThreadID = xc_ThreadID c,
       rs_Status = ExecutionStatusRunning, rs_Output = None, rs_Steps = [], rs_StartTime = xc_StartTime c,
       rs_EndTime = 0, rs_Duration = 0, rs_Error = None\<rparr>)"

subsection \<open>The runtime\<close>

type_synonym Runtime = "(saver_env, InMemorySaver) DefaultGraphExecutor"

definition service_create_op ::
  "Checkpoint Externals \<Rightarrow> saver_env cp_env \<Rightarrow> ExecutionContext \<Rightarrow> InMemorySaver \<Rightarrow> (cp_error, string) outcome \<times> InMemorySaver" where
  "service_create_op x ce c m = CreateCheckpoint (MemSave x) (ce_nano ce) (ce_time ce) (ce_saver ce) c m"

definition NewRuntime :: "Checkpoint Externals \<Rightarrow> Runtime" where
  "NewRuntime x = NewDefaultGraphExecutor (Process NewDefaultNodeProcessor) GetNextNodes
     (Some (service_create_op x)) (Service_LoadCheckpoint (MemLoad x)) (DefaultInMemorySaver x)
     NewInMemoryGraphRepository"

definition SaveGraph :: "string list \<Rightarrow> string list \<Rightarrow> Graph \<Rightarrow> ('e, 'm) DefaultGraphExecutor
   \<Rightarrow> exec_error option \<times> ('e, 'm) DefaultGraphExecutor" where
  "SaveGraph ids ids' g rt =
     (case Repo_Save ids ids' (Some g) (ge_repo rt) of
        (err, _, r) \<Rightarrow> (map_option GraphValidationFailed err, rt\<lparr>ge_repo := r\<rparr>))"

definition simple_config :: ExecutionConfig where
  "simple_config = \<lparr>MaxSteps = 100, ExecTimeout = minutes 1, CheckpointEvery = 10, ParallelMode = False,
     DebugMode = False, ValidateGraph = True, ValidateCycles = False\<rparr>"

definition RunSimple ::
  "string list \<Rightarrow> string list \<Rightarrow> 'e exec_env \<Rightarrow> Graph \<Rightarrow> string \<Rightarrow> gstate option \<Rightarrow> ('e, 'm) DefaultGraphExecutor
   \<Rightarrow> exec_result \<times> ('e, 'm) DefaultGraphExecutor" where
  "RunSimple ids ids' xe g threadID input rt =
     (case SaveGraph ids ids' g rt of
        (Some err, rt1) \<Rightarrow> (Returns (None, Some err), rt1)
      | (None, rt1) \<Rightarrow>
          (case Execute xe \<lparr>rq_GraphID = g_ID g, rq_ThreadID = threadID, rq_Input = input,
                  rq_Config = simple_config, rq_ResumeFrom = []\<rparr> rt1 of
             (r, _, rt2) \<Rightarrow> (r, rt2)))"

end
