(* ===== verification/ExecutorProps.thy ===== *)
theory ExecutorProps
  imports Executor
begin

section \<open>Properties of the graph executor\<close>

text \<open>
  A reference semantics \<open>walk\<close> of graph execution (processors and edges only), the refinement of
  the executor's loop to it for every well-behaved checkpoint manager, and what follows for
  \<^verbatim>\<open>Execute\<close>, \<^verbatim>\<open>Resume\<close> and the runtime.
\<close>

subsection \<open>The reference semantics\<close>

text \<open>The nodes visited with their outputs, and the failure that ended the walk.\<close>

definition follow :: "evaluator \<Rightarrow> Edge option list \<Rightarrow> Node \<Rightarrow> gstate option \<Rightarrow> Node option" where
  "follow nx es n out = (case nx n es (nil_map out) of Returns (m # _) \<Rightarrow> Some m | _ \<Rightarrow> None)"

fun walk :: "processor \<Rightarrow> evaluator \<Rightarrow> Edge option list \<Rightarrow> nat \<Rightarrow> Node option \<Rightarrow> gstate option
   \<Rightarrow> (Node \<times> gstate option) list \<times> exec_error option" where
  "walk p nx es 0 cur st = ([], None)"
| "walk p nx es (Suc left) None st = ([], None)"
| "walk p nx es (Suc left) (Some n) st =
     (case p n st of
        Inl err \<Rightarrow> ([], Some (NodeExecutionFailed (n_ID n) err))
      | Inr out \<Rightarrow> (case walk p nx es left (follow nx es n out) out of (xs, e) \<Rightarrow> ((n, out) # xs, e)))"

definition last_state :: "gstate option \<Rightarrow> (Node \<times> gstate option) list \<Rightarrow> gstate option" where
  "last_state st xs = (if xs = [] then st else snd (last xs))"

lemma last_state_simps [simp]: "last_state st [] = st" "last_state st (x # xs) = last_state (snd x) xs"
  by (simp_all add: last_state_def)

text \<open>The record of visit \<open>v\<close> as step \<open>k\<close>.\<close>

definition step_record :: "'e step_env \<Rightarrow> int \<Rightarrow> Node \<times> gstate option \<Rightarrow> StepResult" where
  "step_record se k v = \<lparr>sr_StepNumber = k + 1, sr_NodeID = n_ID (fst v), sr_NodeType = n_Type (fst v),
     sr_Input = snd v, sr_Output = snd v, sr_StartTime = se_start se, sr_EndTime = se_end se,
     sr_Duration = se_since se - se_start se, sr_Status = StepStatusCompleted, sr_Error = [],
     sr_CheckpointID = []\<rparr>"

definition step_records :: "(nat \<Rightarrow> 'e step_env) \<Rightarrow> nat \<Rightarrow> (Node \<times> gstate option) list \<Rightarrow> StepResult list" where
  "step_records ses step xs = map (\<lambda>i. step_record (ses (step + i)) (int (step + i)) (xs ! i)) [0..<length xs]"

lemma step_records_Nil [simp]: "step_records ses step [] = []"
  by (simp add: step_records_def)

lemma step_records_Cons [simp]:
  "step_records ses step (x # xs) = step_record (ses step) (int step) x # step_records ses (Suc step) xs"
  by (simp add: step_records_def upt_conv_Cons map_Suc_upt [symmetric] o_def ac_simps del: upt_Suc)

lemma length_step_records [simp]: "length (step_records ses step xs) = length xs"
  by (simp add: step_records_def)

lemma step_records_nth [simp]:
  "i < length xs \<Longrightarrow> step_records ses step xs ! i = step_record (ses (step + i)) (int (step + i)) (xs ! i)"
  by (simp add: step_records_def)

lemma walk_numeral [simp]:
  "walk p nx es (numeral k) None st = ([], None)"
  "walk p nx es (numeral k) (Some n) st =
     (case p n st of
        Inl err \<Rightarrow> ([], Some (NodeExecutionFailed (n_ID n) err))
      | Inr out \<Rightarrow> (case walk p nx es (pred_numeral k) (follow nx es n out) out of (xs, e) \<Rightarrow> ((n, out) # xs, e)))"
  by (simp_all add: numeral_eq_Suc)

lemma walk_length: "length (fst (walk p nx es left cur st)) \<le> left"
  by (induction p nx es left cur st rule: walk.induct) (auto split: sum.splits prod.splits)

lemma walk_first:
  assumes "walk p nx es left (Some n) st = (xs, e)" and "xs \<noteq> []"
  shows "fst (hd xs) = n"
  using assms by (cases left) (auto split: sum.splits prod.splits)

text \<open>Consecutive visits follow the evaluator.\<close>

lemma walk_follows:
  "walk p nx es left cur st = (xs, e) \<Longrightarrow> Suc i < length xs \<Longrightarrow>
     Some (fst (xs ! Suc i)) = follow nx es (fst (xs ! i)) (snd (xs ! i))"
proof (induction p nx es left cur st arbitrary: xs i rule: walk.induct)
  case (3 p nx es left n st)
  then obtain out ys where out: "p n st = Inr out" and rest: "walk p nx es left (follow nx es n out) out = (ys, e)"
    and xs: "xs = (n, out) # ys" by (auto split: sum.splits prod.splits)
  show ?case
  proof (cases i)
    case 0
    with 3 xs have "ys \<noteq> []" by auto
    moreover from this rest obtain m where m: "follow nx es n out = Some m"
      by (cases left; cases "follow nx es n out") auto
    ultimately have "fst (hd ys) = m" using walk_first rest by metis
    then show ?thesis using xs 0 m \<open>ys \<noteq> []\<close> by (simp add: hd_conv_nth)
  next
    case (Suc j)
    then show ?thesis using 3(1) [OF out rest] 3(3) xs by simp
  qed
qed simp_all

subsection \<open>Well-behaved environments\<close>

text \<open>The checkpoint manager answers, with success or an error; the evaluator answers on the edges.\<close>

definition manager_answers :: "('e, 'm) DefaultGraphExecutor \<Rightarrow> bool" where
  "manager_answers ex \<longleftrightarrow> (\<forall>create ce c m. ge_create ex = Some create \<longrightarrow> ended (fst (create ce c m)))"

definition next_answers :: "('e, 'm) DefaultGraphExecutor \<Rightarrow> Edge option list \<Rightarrow> bool" where
  "next_answers ex es \<longleftrightarrow> (\<forall>n st. ended (ge_next ex n es st))"

text \<open>The fields that a run does not change.\<close>

definition same_parts :: "('e, 'm) DefaultGraphExecutor \<Rightarrow> ('e, 'm) DefaultGraphExecutor \<Rightarrow> bool" where
  "same_parts ex ex' \<longleftrightarrow> (\<exists>m. ex' = ex\<lparr>ge_manager := m\<rparr>)"

lemma same_parts_refl [simp]: "same_parts ex ex"
  by (auto simp: same_parts_def intro: exI [of _ "ge_manager ex"])

lemma same_parts_trans: "same_parts a b \<Longrightarrow> same_parts b c \<Longrightarrow> same_parts a c"
  by (auto simp: same_parts_def)

lemma same_parts_simps:
  assumes "same_parts ex ex'"
  shows "ge_process ex' = ge_process ex" "ge_next ex' = ge_next ex" "ge_create ex' = ge_create ex"
    "ge_load ex' = ge_load ex" "ge_repo ex' = ge_repo ex" "ge_executions ex' = ge_executions ex"
    "manager_answers ex' = manager_answers ex" "next_answers ex' es = next_answers ex es"
  using assms by (auto simp: same_parts_def manager_answers_def next_answers_def)

lemma take_checkpoint_parts: "same_parts ex (snd (take_checkpoint ce step c ex))"
  by (auto simp: take_checkpoint_def same_parts_def split: option.splits outcome.splits prod.splits
      intro: exI [of _ "ge_manager ex"])

lemma take_checkpoint_answers:
  assumes "manager_answers ex" and "CheckpointEvery (xc_Config c) \<noteq> 0"
  shows "fst (take_checkpoint ce step c ex) = Returns ()"
  using assms by (auto simp: take_checkpoint_def manager_answers_def ended_def
      split: option.splits outcome.splits prod.splits) (metis fst_conv outcome.simps)+

subsection \<open>The loop refines the walk\<close>

lemma step_result:
  assumes "manager_answers ex" and "next_answers ex (g_Edges g)" and "CheckpointEvery (xc_Config c) \<noteq> 0"
  shows "case ge_process ex n (xc_State c) of
      Inl err \<Rightarrow> runSequentialStep se c g n step ex = (Fails (NodeExecutionFailed (n_ID n) err), c, ex)
    | Inr out \<Rightarrow> runSequentialStep se c g n step ex =
        (Returns (follow (ge_next ex) (g_Edges g) n out, step_record se step (n, out)),
         c\<lparr>xc_State := out\<rparr>, snd (take_checkpoint (se_cp se) step (c\<lparr>xc_State := out\<rparr>) ex))"
proof (cases "ge_process ex n (xc_State c)")
  case (Inl err)
  then show ?thesis by (simp add: runSequentialStep_def)
next
  case (Inr out)
  let ?c = "c\<lparr>xc_State := out\<rparr>"
  obtain ex1 where t: "take_checkpoint (se_cp se) step ?c ex = (Returns (), ex1)"
    using take_checkpoint_answers [OF assms(1), of ?c "se_cp se" step] assms(3)
    by (metis (no_types, lifting) ExecutionContext.select_convs(6) ExecutionContext.surjective
        ExecutionContext.update_convs(5) prod.collapse)
  with take_checkpoint_parts [of ex "se_cp se" step ?c] have "ge_next ex1 = ge_next ex"
    by (simp add: same_parts_simps)
  moreover have "ended (ge_next ex n (g_Edges g) (nil_map out))" using assms(2) by (simp add: next_answers_def)
  ultimately show ?thesis using Inr t
    by (auto simp: runSequentialStep_def Let_def follow_def ended_def step_record_def
        split: outcome.splits list.splits)
qed

definition walk_outcome :: "exec_error option \<Rightarrow> (exec_error, unit) outcome" where
  "walk_outcome e = (case e of None \<Rightarrow> Returns () | Some err \<Rightarrow> Fails err)"

definition walked :: "ExecutionContext \<Rightarrow> (Node \<times> gstate option) list \<Rightarrow> ExecutionContext" where
  "walked c xs = c\<lparr>xc_State := last_state (xc_State c) xs, xc_CurrentStep := xc_CurrentStep c + int (length xs)\<rparr>"

lemma exec_loop_walk:
  assumes "manager_answers ex" and "next_answers ex (g_Edges g)" and "CheckpointEvery (xc_Config c) \<noteq> 0"
    and "walk (ge_process ex) (ge_next ex) (g_Edges g) left cur (xc_State c) = (xs, e)"
  shows "\<exists>ex'. exec_loop ses g left step cur c steps ex
      = (walk_outcome e, steps @ step_records ses step xs, walked c xs, ex') \<and> same_parts ex ex'"
  using assms
proof (induction left arbitrary: step cur c steps ex xs e)
  case 0
  then show ?case by (simp add: walk_outcome_def walked_def)
next
  case (Suc left)
  show ?case
  proof (cases cur)
    case None
    then show ?thesis using Suc.prems by (simp add: walk_outcome_def walked_def)
  next
    case (Some n)
    note sres = step_result [OF Suc.prems(1,2,3), where n = n and se = "ses step" and step = "int step"]
    show ?thesis
    proof (cases "ge_process ex n (xc_State c)")
      case (Inl err)
      then show ?thesis using Suc.prems(4) Some sres by (auto simp: walk_outcome_def walked_def)
    next
      case (Inr out)
      let ?c' = "c\<lparr>xc_State := out, xc_CurrentStep := xc_CurrentStep c + 1\<rparr>"
      define ex1 where "ex1 = snd (take_checkpoint (se_cp (ses step)) (int step) (c\<lparr>xc_State := out\<rparr>) ex)"
      have same: "same_parts ex ex1" unfolding ex1_def by (rule take_checkpoint_parts)
      let ?next = "follow (ge_next ex) (g_Edges g) n out" and ?rec = "step_record (ses step) (int step) (n, out)"
      obtain ys where ys: "walk (ge_process ex) (ge_next ex) (g_Edges g) left ?next out = (ys, e)"
        and xs: "xs = (n, out) # ys"
        using Suc.prems(4) Some Inr by (auto split: prod.splits)
      have run: "exec_loop ses g (Suc left) step cur c steps ex
          = exec_loop ses g left (Suc step) ?next ?c' (steps @ [?rec]) ex1"
        using sres Inr Some by (simp add: ex1_def)
      have "\<exists>ex'. exec_loop ses g left (Suc step) ?next ?c' (steps @ [?rec]) ex1
        = (walk_outcome e, (steps @ [?rec]) @ step_records ses (Suc step) ys, walked ?c' ys, ex') \<and> same_parts ex1 ex'"
        by (rule Suc.IH) (use Suc.prems same ys in \<open>simp_all add: same_parts_simps\<close>)
      moreover have "walked ?c' ys = walked c xs" by (simp add: walked_def xs)
      ultimately show ?thesis using run same_parts_trans [OF same] xs by auto
    qed
  qed
qed

subsection \<open>Execute and Resume\<close>

definition entry_node :: "Graph \<Rightarrow> Node option" where
  "entry_node g = (case g_Nodes g (g_EntryPoint g) of Some p \<Rightarrow> p | None \<Rightarrow> None)"

text \<open>
  A request is accepted with graph \<open>g\<close> when it passes both validations and \<open>g\<close> is the stored
  graph afterwards.
\<close>

definition accepted :: "'e exec_env \<Rightarrow> ExecutionRequest \<Rightarrow> ('e, 'm) DefaultGraphExecutor \<Rightarrow> Graph \<Rightarrow> bool" where
  "accepted xe req ex g \<longleftrightarrow> fst (Request_Validate req) = None \<and>
     (\<exists>ex1. validate_stored RepositoryError xe (rq_GraphID req) (rq_Config (snd (Request_Validate req))) ex = (None, ex1)
        \<and> ge_repo ex1 (rq_GraphID req) = Some g)"

lemma validate_stored_result:
  assumes "validate_stored wrap xe gid config ex = (None, ex1)" and "ValidateGraph config"
    and "ge_repo ex1 gid = Some g"
  shows "None \<notin> set (g_Edges g) \<and> ex1 = ex\<lparr>ge_repo := ge_repo ex1\<rparr> \<and> (\<exists>n. g_Nodes g (g_EntryPoint g) = Some n)"
proof -
  from assms obtain g0 gp where g0: "ge_repo ex gid = Some g0"
    and v: "ValidateCoreGraph (xe_ids xe) (xe_ids' xe)
      (if ValidateCycles config then [\<lparr>CheckCycles = True\<rparr>] else []) (Some g0) = (None, gp)"
    and ex1: "ex1 = (case gp of None \<Rightarrow> ex | Some gr \<Rightarrow> ex\<lparr>ge_repo := (ge_repo ex)(gid \<mapsto> gr)\<rparr>)"
    by (auto simp: validate_stored_def Repo_Get_def Let_def split: option.splits prod.splits if_splits)
  from ValidateCoreGraph_result [OF v] ex1 assms(3)
  have g: "g = g0\<lparr>g_Edges := map (map_option with_type) (g_Edges g0)\<rparr>" by simp
  from v have "fst (validate_edges (g_Nodes g0) [] (g_Edges g0)) = None" "Graph_Validate g0 = None"
    by (auto simp: ValidateCoreGraph_def Let_def split: option.splits prod.splits if_splits)
  then have "None \<notin> set (g_Edges g0)" "g_Nodes g0 (g_EntryPoint g0) \<noteq> None"
    unfolding validate_edges_wf wf_edges_def by (auto simp: Graph_Validate_def split: if_splits)
  then show ?thesis using g ex1 ValidateCoreGraph_result [OF v] by auto
qed

text \<open>The response to a run with walk \<open>(xs, e)\<close>.\<close>

definition response_of ::
  "'e exec_env \<Rightarrow> ExecutionContext \<Rightarrow> (Node \<times> gstate option) list \<times> exec_error option \<Rightarrow> exec_error ExecutionResponse" where
  "response_of xe c w =
     \<lparr>rs_ExecutionID = xc_ExecutionID c, rs_GraphID = xc_GraphID c, rs_ThreadID = xc_ThreadID c,
      rs_Status = (if snd w = None then ExecutionStatusCompleted else ExecutionStatusFailed),
      rs_Output = (if snd w = None then last_state (xc_State c) (fst w) else None),
      rs_Steps = step_records (xe_steps xe) 0 (fst w), rs_StartTime = xe_start xe, rs_EndTime = xe_end xe,
      rs_Duration = xe_end xe - xe_start xe, rs_Error = snd w\<rparr>"

definition graph_walk ::
  "('e, 'm) DefaultGraphExecutor \<Rightarrow> Graph \<Rightarrow> int \<Rightarrow> gstate option \<Rightarrow> (Node \<times> gstate option) list \<times> exec_error option" where
  "graph_walk ex g maxSteps st = walk (ge_process ex) (ge_next ex) (g_Edges g) (nat maxSteps) (entry_node g) st"

lemma run_registered_walk:
  assumes "manager_answers ex" and "next_answers ex (g_Edges g)" and "CheckpointEvery (xc_Config c) \<noteq> 0"
    and "ge_repo ex (xc_GraphID c) = Some g"
  shows "\<exists>ex'. run_registered xe (xe_start xe) c ex
      = (Returns (response_of xe c (graph_walk ex g (maxStepsOrDefault c) (xc_State c)),
           snd (graph_walk ex g (maxStepsOrDefault c) (xc_State c))), ex')
    \<and> ge_executions ex' = (ge_executions ex)(xc_ExecutionID c := None) \<and> ge_repo ex' = ge_repo ex"
proof -
  obtain xs e where w: "graph_walk ex g (maxStepsOrDefault c) (xc_State c) = (xs, e)" by fastforce
  then have "walk (ge_process ex) (ge_next ex) (g_Edges g) (nat (maxStepsOrDefault c)) (entry_node g) (xc_State c) = (xs, e)"
    by (simp add: graph_walk_def)
  from exec_loop_walk [OF assms(1-3) this, of "xe_steps xe" 0 "[]"] obtain ex1 where
    "executeGraph (xe_steps xe) c ex = (walk_outcome e, step_records (xe_steps xe) 0 xs, walked c xs, ex1)"
    "same_parts ex ex1"
    using assms(4) by (auto simp: executeGraph_def Repo_Get_def entry_node_def)
  then show ?thesis
    by (cases e) (auto simp: run_registered_def Let_def w response_of_def walk_outcome_def walked_def same_parts_simps)
qed

lemma evaluator_answers:
  assumes "edge_evaluator (ge_next ex)" and "None \<notin> set es"
  shows "next_answers ex es"
  unfolding next_answers_def
proof (intro allI)
  fix n st
  obtain ns where "ge_next ex n es st = Returns ns" using edge_evaluator.next_total [OF assms] by blast
  then show "ended (ge_next ex n es st)" by (simp add: ended_def)
qed

text \<open>The context that \<^verbatim>\<open>Execute\<close> starts with.\<close>

definition start_context :: "'e exec_env \<Rightarrow> ExecutionRequest \<Rightarrow> ExecutionContext" where
  "start_context xe req = \<lparr>xc_ExecutionID = generateExecutionID (xe_nano xe) (rq_GraphID req) (rq_ThreadID req),
     xc_GraphID = rq_GraphID req, xc_ThreadID = rq_ThreadID req, xc_CurrentStep = 0, xc_State = rq_Input req,
     xc_Config = rq_Config (snd (Request_Validate req)), xc_StartTime = xe_start xe\<rparr>"

lemma register_simps [simp]:
  "ge_process (register c ex) = ge_process ex" "ge_next (register c ex) = ge_next ex"
  "ge_create (register c ex) = ge_create ex" "ge_repo (register c ex) = ge_repo ex"
  "ge_manager (register c ex) = ge_manager ex"
  "ge_executions (register c ex) = (ge_executions ex)(xc_ExecutionID c \<mapsto> c)"
  by (simp_all add: register_def)

lemma Execute_accepted:
  assumes "accepted xe req ex g"
  obtains ex1 where "ex1 = ex\<lparr>ge_repo := ge_repo ex1\<rparr>" and "ge_repo ex1 (rq_GraphID req) = Some g"
    and "None \<notin> set (g_Edges g)" and "CheckpointEvery (rq_Config (snd (Request_Validate req))) \<noteq> 0"
    and "maxStepsOrDefault (start_context xe req) = MaxSteps (rq_Config (snd (Request_Validate req)))"
    and "fst (Execute xe req ex) = (case fst (run_registered xe (xe_start xe) (start_context xe req)
           (register (start_context xe req) ex1)) of
         Returns (rs, err) \<Rightarrow> Returns (Some rs, err) | Blocks \<Rightarrow> Blocks | Deadlocks \<Rightarrow> Deadlocks
       | Fails u \<Rightarrow> Fails u | Panics p \<Rightarrow> Panics p)"
    and "snd (snd (Execute xe req ex)) = snd (run_registered xe (xe_start xe) (start_context xe req)
           (register (start_context xe req) ex1))"
proof -
  obtain req' where req': "Request_Validate req = (None, req')"
    using assms unfolding accepted_def by (metis prod.collapse)
  note ok = Request_Validate_ok [OF req']
  from assms req' obtain ex1 where v: "validate_stored RepositoryError xe (rq_GraphID req) (rq_Config req') ex = (None, ex1)"
    and g: "ge_repo ex1 (rq_GraphID req) = Some g" by (auto simp: accepted_def)
  from validate_stored_result [OF v _ g] ok have r: "None \<notin> set (g_Edges g)" "ex1 = ex\<lparr>ge_repo := ge_repo ex1\<rparr>" by auto
  have c: "start_context xe req = \<lparr>xc_ExecutionID = generateExecutionID (xe_nano xe) (rq_GraphID req') (rq_ThreadID req'),
     xc_GraphID = rq_GraphID req', xc_ThreadID = rq_ThreadID req', xc_CurrentStep = 0, xc_State = rq_Input req',
     xc_Config = rq_Config req', xc_StartTime = xe_start xe\<rparr>"
    using ok req' by (simp add: start_context_def)
  obtain q ex2 where run: "run_registered xe (xe_start xe) (start_context xe req) (register (start_context xe req) ex1) = (q, ex2)"
    by fastforce
  have "Execute xe req ex = (case (q, ex2) of
       (Returns (rs, err), ex2) \<Rightarrow> (Returns (Some rs, err), req', ex2)
     | (Blocks, ex2) \<Rightarrow> (Blocks, req', ex2) | (Deadlocks, ex2) \<Rightarrow> (Deadlocks, req', ex2)
     | (Fails u, ex2) \<Rightarrow> (Fails u, req', ex2) | (Panics p, ex2) \<Rightarrow> (Panics p, req', ex2))"
    using v ok run by (simp add: Execute_def req' c)
  then show ?thesis using ok req' run
    by (intro that [OF r(2) g r(1)]) (auto simp: maxStepsOrDefault_def start_context_def split: outcome.splits)
qed

lemma Execute_walk:
  assumes "accepted xe req ex g" and "manager_answers ex" and "edge_evaluator (ge_next ex)"
  shows "fst (Execute xe req ex)
      = (let w = graph_walk ex g (MaxSteps (rq_Config (snd (Request_Validate req)))) (rq_Input req)
         in Returns (Some (response_of xe (start_context xe req) w), snd w))
    \<and> ge_executions (snd (snd (Execute xe req ex)))
      = (ge_executions ex)(generateExecutionID (xe_nano xe) (rq_GraphID req) (rq_ThreadID req) := None)"
  using assms(1)
proof (rule Execute_accepted)
  fix ex1
  let ?c = "start_context xe req"
  assume ex1: "ex1 = ex\<lparr>ge_repo := ge_repo ex1\<rparr>" and g: "ge_repo ex1 (rq_GraphID req) = Some g"
    and edges: "None \<notin> set (g_Edges g)" and every: "CheckpointEvery (rq_Config (snd (Request_Validate req))) \<noteq> 0"
    and maxs: "maxStepsOrDefault ?c = MaxSteps (rq_Config (snd (Request_Validate req)))"
    and exec: "fst (Execute xe req ex) = (case fst (run_registered xe (xe_start xe) ?c (register ?c ex1)) of
         Returns (rs, err) \<Rightarrow> Returns (Some rs, err) | Blocks \<Rightarrow> Blocks | Deadlocks \<Rightarrow> Deadlocks
       | Fails u \<Rightarrow> Fails u | Panics p \<Rightarrow> Panics p)"
    and exec2: "snd (snd (Execute xe req ex)) = snd (run_registered xe (xe_start xe) ?c (register ?c ex1))"
  let ?ex = "register ?c ex1"
  have parts: "ge_process ex1 = ge_process ex" "ge_next ex1 = ge_next ex" "ge_create ex1 = ge_create ex"
    "ge_executions ex1 = ge_executions ex"
    using ex1 by (metis DefaultGraphExecutor.surjective DefaultGraphExecutor.update_convs(6)
      DefaultGraphExecutor.select_convs(1,2,3,7))+
  have ma: "manager_answers ?ex" using assms(2) parts by (simp add: manager_answers_def)
  have na: "next_answers ?ex (g_Edges g)" using evaluator_answers [OF assms(3) edges] parts by (simp add: next_answers_def)
  have ce: "CheckpointEvery (xc_Config ?c) \<noteq> 0" using every by (simp add: start_context_def)
  have gg: "ge_repo ?ex (xc_GraphID ?c) = Some g" using g by (simp add: start_context_def)
  have walk: "graph_walk ?ex g (maxStepsOrDefault ?c) (xc_State ?c)
      = graph_walk ex g (MaxSteps (rq_Config (snd (Request_Validate req)))) (rq_Input req)"
    unfolding maxs by (simp add: graph_walk_def parts start_context_def)
  obtain ex' where run: "run_registered xe (xe_start xe) ?c ?ex
      = (Returns (response_of xe ?c (graph_walk ?ex g (maxStepsOrDefault ?c) (xc_State ?c)),
           snd (graph_walk ?ex g (maxStepsOrDefault ?c) (xc_State ?c))), ex')"
    "ge_executions ex' = (ge_executions ?ex)(xc_ExecutionID ?c := None)"
    using run_registered_walk [OF ma na ce gg] by blast
  have "fst (Execute xe req ex)
      = (let w = graph_walk ex g (MaxSteps (rq_Config (snd (Request_Validate req)))) (rq_Input req)
         in Returns (Some (response_of xe ?c w), snd w))"
    using exec unfolding run(1) walk by (simp add: Let_def)
  moreover have "ge_executions (snd (snd (Execute xe req ex)))
      = (ge_executions ex)(generateExecutionID (xe_nano xe) (rq_GraphID req) (rq_ThreadID req) := None)"
    unfolding exec2 run(1) using run(2) parts by (simp add: start_context_def)
  ultimately show ?thesis by blast
qed

subsection \<open>A sample executor\<close>

definition sample_executor :: "Edge list \<Rightarrow> (unit, unit) DefaultGraphExecutor" where
  "sample_executor es = (NewDefaultGraphExecutor (Process NewDefaultNodeProcessor) GetNextNodes
     (Some (\<lambda>_ c m. (Returns (xc_ExecutionID c), m))) (\<lambda>_ cid m. (Returns \<lparr>xc_ExecutionID = ''old'', xc_GraphID = ''g'', xc_ThreadID = ''t'', xc_CurrentStep = 7,
        xc_State = Some [''x'' \<mapsto> VInt 1], xc_Config = simple_config, xc_StartTime = 0\<rparr>, m)) ()
     NewInMemoryGraphRepository)\<lparr>ge_repo := [''g'' \<mapsto> sample_graph es]\<rparr>"

definition sample_request :: ExecutionRequest where
  "sample_request = \<lparr>rq_GraphID = ''g'', rq_ThreadID = ''t'', rq_Input = None, rq_Config = simple_config,
     rq_ResumeFrom = []\<rparr>"

definition sample_step_env :: "unit step_env" where
  "sample_step_env = \<lparr>se_start = 0, se_cp = \<lparr>ce_nano = 0, ce_time = 0, ce_saver = ()\<rparr>, se_end = 0, se_since = 0\<rparr>"

definition sample_exec_env :: "unit exec_env" where
  "sample_exec_env = \<lparr>xe_nano = 5, xe_start = 0, xe_end = 0, xe_ids = [''a'', ''b''], xe_ids' = [''a'', ''b''],
     xe_steps = (\<lambda>_. sample_step_env), xe_load = ()\<rparr>"

definition typed_edge :: "string \<Rightarrow> string \<Rightarrow> Edge" where
  "typed_edge s t = (sample_edge s t)\<lparr>e_Type := EdgeTypeDefault\<rparr>"

lemma sample_request_valid: "Request_Validate sample_request = (None, sample_request)"
  by (simp add: Request_Validate_def sample_request_def simple_config_def minutes_def)

lemma sample_validates:
  "es \<in> {[], [typed_edge ''a'' ''b''], [typed_edge ''a'' ''b'', typed_edge ''b'' ''a'']} \<Longrightarrow>
     ValidateCoreGraph [''a'', ''b''] [''a'', ''b''] [] (Some (sample_graph es)) = (None, Some (sample_graph es))"
  by (auto simp: ValidateCoreGraph_def Graph_Validate_def sample_graph_def Node_Validate_def sample_node_def
      Edge_Validate_def typed_edge_def sample_edge_def edge_key_def Let_def node_type_defs edge_type_defs)

lemma sample_accepted:
  assumes "es \<in> {[], [typed_edge ''a'' ''b''], [typed_edge ''a'' ''b'', typed_edge ''b'' ''a'']}"
  shows "accepted sample_exec_env sample_request (sample_executor es) (sample_graph es)"
proof -
  have "validate_stored RepositoryError sample_exec_env ''g'' simple_config (sample_executor es) = (None, sample_executor es)"
    using sample_validates [OF assms]
    by (simp add: validate_stored_def simple_config_def sample_executor_def Repo_Get_def sample_exec_env_def Let_def
        NewDefaultGraphExecutor_def)
  then show ?thesis
    unfolding accepted_def sample_request_valid by (simp add: sample_request_def sample_executor_def)
qed

lemma sample_answers: "manager_answers (sample_executor es)" "ge_next (sample_executor es) = GetNextNodes"
  "ge_process (sample_executor es) = Process NewDefaultNodeProcessor" "ge_executions (sample_executor es) = Map.empty"
  by (simp_all add: manager_answers_def sample_executor_def NewDefaultGraphExecutor_def ended_def)

lemma sample_evaluator: "edge_evaluator (ge_next (sample_executor es))"
  by (simp add: sample_answers dflt.edge_evaluator_axioms)

lemma sample_request_parts: "MaxSteps (rq_Config sample_request) = 100" "rq_Input sample_request = None"
  "rq_GraphID sample_request = ''g''" "rq_ThreadID sample_request = ''t''"
  by (simp_all add: sample_request_def simple_config_def)

text \<open>Two nodes and an edge between them.\<close>

lemma sample_walk:
  "\<exists>out out2. graph_walk (sample_executor [typed_edge ''a'' ''b'']) (sample_graph [typed_edge ''a'' ''b'']) 100 None
    = ([(sample_node ''a'', Some out), (placeholder_node ''b'', Some out2)], None)"
proof -
  obtain out where a: "Process NewDefaultNodeProcessor (sample_node ''a'') None = Inr (Some out)"
    using default_process_total [of "sample_node ''a''" None]
    by (auto simp: default_processors sample_node_def)
  obtain out2 where b: "Process NewDefaultNodeProcessor (placeholder_node ''b'') (Some out) = Inr (Some out2)"
    using default_process_total [of "placeholder_node ''b''" "Some out"]
    by (auto simp: default_processors placeholder_node_def)
  have "follow GetNextNodes [Some (typed_edge ''a'' ''b'')] (sample_node ''a'') (Some out) = Some (placeholder_node ''b'')"
    "follow GetNextNodes [Some (typed_edge ''a'' ''b'')] (placeholder_node ''b'') (Some out2) = None"
    by (simp_all add: follow_def GetNextNodes_def typed_edge_def sample_edge_def sample_node_def placeholder_node_def
        Evaluate_def)
  then have "walk (Process NewDefaultNodeProcessor) GetNextNodes [Some (typed_edge ''a'' ''b'')] 100 (Some (sample_node ''a'')) None
      = ([(sample_node ''a'', Some out), (placeholder_node ''b'', Some out2)], None)"
    by (simp add: a b)
  then show ?thesis by (simp add: graph_walk_def sample_answers entry_node_def sample_graph_def)
qed

subsection \<open>Properties\<close>

text \<open>
  C2: execution refines the reference walk. When a request is accepted, for every node processor,
  every evaluator that keeps its contract and every checkpoint manager that answers, \<^verbatim>\<open>Execute\<close>
  returns the response of the walk from the entry point: its visits as steps, its last output, its
  error, and the execution is not registered any more.
\<close>

theorem execute_refines_walk:
  assumes "accepted xe req ex g" and "manager_answers ex" and "edge_evaluator (ge_next ex)"
  shows "fst (Execute xe req ex)
      = (let w = graph_walk ex g (MaxSteps (rq_Config (snd (Request_Validate req)))) (rq_Input req)
         in Returns (Some (response_of xe (start_context xe req) w), snd w))
    \<and> ge_executions (snd (snd (Execute xe req ex)))
      = (ge_executions ex)(generateExecutionID (xe_nano xe) (rq_GraphID req) (rq_ThreadID req) := None)"
  by (rule Execute_walk [OF assms])

theorem execute_refines_walk_witness:
  "\<exists>rs. fst (Execute sample_exec_env sample_request (sample_executor [typed_edge ''a'' ''b''])) = Returns (Some rs, None)
    \<and> map sr_NodeID (rs_Steps rs) = [''a'', ''b''] \<and> rs_Status rs = ExecutionStatusCompleted"
proof -
  let ?es = "[typed_edge ''a'' ''b'']"
  have acc: "accepted sample_exec_env sample_request (sample_executor ?es) (sample_graph ?es)"
    by (rule sample_accepted) simp
  from sample_walk obtain out out2 where w: "graph_walk (sample_executor ?es) (sample_graph ?es) 100 None
      = ([(sample_node ''a'', Some out), (placeholder_node ''b'', Some out2)], None)" by blast
  show ?thesis
    using execute_refines_walk [OF acc sample_answers(1) sample_evaluator]
    by (simp add: Let_def sample_request_valid sample_request_parts w response_of_def step_record_def sample_node_def
        placeholder_node_def)
qed

text \<open>What the default evaluator follows.\<close>

lemma follow_default:
  assumes "None \<notin> set es" and "follow GetNextNodes es n out = Some m"
  shows "\<exists>e. Some e \<in> set es \<and> traversed n (nil_map out) e \<and> m = placeholder_node (e_Target e)"
proof -
  let ?es = "filter (traversed n (nil_map out)) (map the es)"
  from assms obtain ns where "map (placeholder_node \<circ> e_Target) ?es = m # ns"
    by (auto simp: follow_def GetNextNodes_result split: outcome.splits list.splits)
  then obtain e fs where "?es = e # fs" and m: "m = placeholder_node (e_Target e)" by auto
  then have "e \<in> set ?es" by (metis list.set_intros(1))
  then have e: "e \<in> set (map the es)" "traversed n (nil_map out) e" unfolding set_filter by blast+
  from e(1) obtain p where p: "p \<in> set es" "e = the p" by auto
  with assms(1) have "p = Some e" by (metis option.collapse)
  with p(1) e(2) m show ?thesis by blast
qed

text \<open>
  C11: an execution walks along edges. With the default evaluator the steps of an accepted request
  are numbered from 1, at most \<^verbatim>\<open>MaxSteps\<close>, start at the entry point, and each next one is the
  target of an edge whose condition held on the output of the step before. But every step after the
  first is recorded and processed as a function node, whatever type its node has, and each step's
  recorded input is its own output.
\<close>

theorem execute_path:
  assumes "accepted xe req ex g" and "manager_answers ex" and "ge_next ex = GetNextNodes"
    and "fst (Execute xe req ex) = Returns (Some rs, err)"
  shows "length (rs_Steps rs) \<le> nat (MaxSteps (rq_Config (snd (Request_Validate req))))
    \<and> map sr_StepNumber (rs_Steps rs) = map (\<lambda>i. int i + 1) [0..<length (rs_Steps rs)]
    \<and> map sr_Input (rs_Steps rs) = map sr_Output (rs_Steps rs)
    \<and> (\<forall>i < length (rs_Steps rs). if i = 0 then map_option n_ID (entry_node g) = Some (sr_NodeID (rs_Steps rs ! 0))
        else sr_NodeType (rs_Steps rs ! i) = NodeTypeFunction
          \<and> (\<exists>e. Some e \<in> set (g_Edges g) \<and> e_Source e = sr_NodeID (rs_Steps rs ! (i - 1))
               \<and> e_Target e = sr_NodeID (rs_Steps rs ! i)
               \<and> Evaluate e (nil_map (sr_Output (rs_Steps rs ! (i - 1)))) = Inr True))"
proof -
  let ?max = "MaxSteps (rq_Config (snd (Request_Validate req)))"
  obtain xs e where w: "graph_walk ex g ?max (rq_Input req) = (xs, e)" by fastforce
  have edges: "None \<notin> set (g_Edges g)" using assms(1) by (rule Execute_accepted)
  have steps: "rs_Steps rs = step_records (xe_steps xe) 0 xs"
    using Execute_walk [OF assms(1,2)] assms(3,4) dflt.edge_evaluator_axioms w
    by (auto simp: Let_def response_of_def)
  have walk: "walk (ge_process ex) GetNextNodes (g_Edges g) (nat ?max) (entry_node g) (rq_Input req) = (xs, e)"
    using w assms(3) by (simp add: graph_walk_def)
  have len: "length xs \<le> nat ?max"
    using walk_length [of "ge_process ex" GetNextNodes "g_Edges g" "nat ?max" "entry_node g" "rq_Input req"] walk by simp
  have first: "map_option n_ID (entry_node g) = Some (n_ID (fst (xs ! 0)))" if "xs \<noteq> []"
  proof (cases "entry_node g")
    case None
    with walk that show ?thesis by (cases "nat ?max") auto
  next
    case (Some n)
    with walk_first [of "ge_process ex" GetNextNodes "g_Edges g" "nat ?max" n "rq_Input req" xs e] walk that
    show ?thesis by (simp add: hd_conv_nth)
  qed
  have rest: "n_Type (fst (xs ! Suc i)) = NodeTypeFunction \<and> (\<exists>e. Some e \<in> set (g_Edges g)
      \<and> e_Source e = n_ID (fst (xs ! i)) \<and> e_Target e = n_ID (fst (xs ! Suc i))
      \<and> Evaluate e (nil_map (snd (xs ! i))) = Inr True)" if "Suc i < length xs" for i
    using follow_default [OF edges walk_follows [OF walk that, symmetric]]
    by (auto simp: traversed_def placeholder_node_def)
  show ?thesis
  proof (intro conjI allI impI)
    fix i assume i: "i < length (rs_Steps rs)"
    show "if i = 0 then map_option n_ID (entry_node g) = Some (sr_NodeID (rs_Steps rs ! 0))
        else sr_NodeType (rs_Steps rs ! i) = NodeTypeFunction
          \<and> (\<exists>e. Some e \<in> set (g_Edges g) \<and> e_Source e = sr_NodeID (rs_Steps rs ! (i - 1))
               \<and> e_Target e = sr_NodeID (rs_Steps rs ! i)
               \<and> Evaluate e (nil_map (sr_Output (rs_Steps rs ! (i - 1)))) = Inr True)"
      using i first rest by (cases i) (auto simp: steps step_record_def)
  qed (use len in \<open>auto simp: steps step_records_def step_record_def\<close>)
qed

theorem execute_path_witness:
  "\<exists>rs. fst (Execute sample_exec_env sample_request (sample_executor [])) = Returns (Some rs, None)
    \<and> length (rs_Steps rs) \<le> 100"
proof -
  have acc: "accepted sample_exec_env sample_request (sample_executor []) (sample_graph [])"
    by (rule sample_accepted) simp
  obtain out where a: "Process NewDefaultNodeProcessor (sample_node ''a'') None = Inr (Some out)"
    using default_process_total [of "sample_node ''a''" None]
    by (auto simp: default_processors sample_node_def)
  have "follow GetNextNodes [] (sample_node ''a'') (Some out) = None" by (simp add: follow_def GetNextNodes_def)
  then have w: "graph_walk (sample_executor []) (sample_graph []) 100 None = ([(sample_node ''a'', Some out)], None)"
    by (simp add: graph_walk_def sample_answers entry_node_def sample_graph_def a)
  have req: "MaxSteps (rq_Config sample_request) = 100" "rq_Input sample_request = None"
    by (simp_all add: sample_request_def simple_config_def)
  then obtain rs where rs: "fst (Execute sample_exec_env sample_request (sample_executor [])) = Returns (Some rs, None)"
    using Execute_walk [OF acc sample_answers(1)] w sample_request_valid
    by (auto simp: Let_def sample_answers dflt.edge_evaluator_axioms)
  then show ?thesis
    using execute_path [OF acc sample_answers(1,2) rs] by (simp add: sample_request_valid req)
qed

end
