(* ===== verification/ResumeProps.thy ===== *)
theory ResumeProps
  imports ExecutorProps
begin

section \<open>Checkpoints, step limits and resumption of executions\<close>

text \<open>
  How the executor and its checkpoint manager interact: checkpoints do not influence an execution,
  a step limit truncates it, resuming restarts it, and an in-memory saver that is full stops it
  for ever.
\<close>

subsection \<open>Validation and the other parts of the executor\<close>

lemma validate_stored_updates:
  "validate_stored wrap xe gid config (ex\<lparr>ge_create := create\<rparr>)
     = apsnd (\<lambda>e. e\<lparr>ge_create := create\<rparr>) (validate_stored wrap xe gid config ex)"
  "validate_stored wrap xe gid config (ex\<lparr>ge_manager := m\<rparr>)
     = apsnd (\<lambda>e. e\<lparr>ge_manager := m\<rparr>) (validate_stored wrap xe gid config ex)"
  "validate_stored wrap xe gid config (register c ex)
     = apsnd (register c) (validate_stored wrap xe gid config ex)"
  by (auto simp: validate_stored_def Repo_Get_def Let_def register_def split: option.splits prod.splits)

lemma validate_stored_wrap:
  "validate_stored wrap xe gid config ex = (None, ex1) \<Longrightarrow> validate_stored wrap' xe gid config ex = (None, ex1)"
  by (auto simp: validate_stored_def Repo_Get_def Let_def split: option.splits prod.splits if_splits)

lemma accepted_create [simp]: "accepted xe req (ex\<lparr>ge_create := create\<rparr>) g = accepted xe req ex g"
proof -
  obtain r ex1 where "validate_stored RepositoryError xe (rq_GraphID req) (rq_Config (snd (Request_Validate req))) ex = (r, ex1)"
    by fastforce
  then show ?thesis by (simp add: accepted_def validate_stored_updates)
qed

lemma accepted_load: "accepted xe req (ex\<lparr>ge_load := l\<rparr>) g = accepted xe req ex g"
proof -
  have "validate_stored wrap xe gid config (ex\<lparr>ge_load := l\<rparr>)
      = apsnd (\<lambda>e. e\<lparr>ge_load := l\<rparr>) (validate_stored wrap xe gid config ex)" for wrap gid config
    by (auto simp: validate_stored_def Repo_Get_def Let_def split: option.splits prod.splits)
  then show ?thesis
    by (cases "validate_stored RepositoryError xe (rq_GraphID req) (rq_Config (snd (Request_Validate req))) ex")
      (simp add: accepted_def)
qed

text \<open>
  C40: checkpoints do not influence an execution. Whatever the checkpoint manager does, as long as
  it answers, the response is the one without a manager: errors of the manager are dropped.
\<close>

theorem checkpoints_transparent:
  assumes "accepted xe req ex g" and "manager_answers ex" and "edge_evaluator (ge_next ex)"
  shows "fst (Execute xe req ex) = fst (Execute xe req (ex\<lparr>ge_create := None\<rparr>))"
proof -
  let ?ex = "ex\<lparr>ge_create := None\<rparr>"
  have walk: "graph_walk ?ex = graph_walk ex" by (simp add: graph_walk_def fun_eq_iff)
  have acc: "accepted xe req ?ex g" using assms(1) by simp
  have ma: "manager_answers ?ex" by (simp add: manager_answers_def)
  have ev: "edge_evaluator (ge_next ?ex)" using assms(3) by simp
  show ?thesis using Execute_walk [OF assms] Execute_walk [OF acc ma ev] unfolding walk by simp
qed

theorem checkpoints_transparent_witness:
  "fst (Execute sample_exec_env sample_request (sample_executor []))
     = fst (Execute sample_exec_env sample_request ((sample_executor [])\<lparr>ge_create := None\<rparr>))"
  by (rule checkpoints_transparent [where g = "sample_graph []"])
    (simp_all add: sample_accepted sample_answers dflt.edge_evaluator_axioms)

subsection \<open>The step limit\<close>

lemma walk_prefix:
  assumes "m \<le> n"
  shows "fst (walk p nx es m cur st) = take m (fst (walk p nx es n cur st))
    \<and> (m \<le> length (fst (walk p nx es n cur st)) \<longrightarrow> snd (walk p nx es m cur st) = None)"
  using assms
proof (induction m arbitrary: n cur st)
  case (Suc m)
  then obtain k where k: "n = Suc k" "m \<le> k" by (cases n) auto
  show ?case
  proof (cases cur)
    case (Some nd)
    show ?thesis
    proof (cases "p nd st")
      case (Inr out)
      then show ?thesis using Suc.IH [OF k(2), of "follow nx es nd out" out] k Some
        by (cases "walk p nx es m (follow nx es nd out) out"; cases "walk p nx es k (follow nx es nd out) out") simp
    qed (use k Some in simp)
  qed (use k in simp)
qed simp

definition with_MaxSteps :: "int \<Rightarrow> ExecutionRequest \<Rightarrow> ExecutionRequest" where
  "with_MaxSteps m req = req\<lparr>rq_Config := (rq_Config req)\<lparr>MaxSteps := m\<rparr>\<rparr>"

lemma Request_Validate_MaxSteps:
  assumes "fst (Request_Validate req) = None" and "0 < m" and "0 < MaxSteps (rq_Config req)"
  shows "Request_Validate (with_MaxSteps m req) = (None, with_MaxSteps m (snd (Request_Validate req)))"
  using assms by (auto simp: Request_Validate_def with_MaxSteps_def Let_def split: if_splits)

lemma accepted_MaxSteps:
  assumes "accepted xe req ex g" and "0 < m" and "0 < MaxSteps (rq_Config req)"
  shows "accepted xe (with_MaxSteps m req) ex g"
proof -
  have config: "validate_stored wrap xe gid (c\<lparr>MaxSteps := m\<rparr>) ex = validate_stored wrap xe gid c ex" for wrap gid c
    by (simp add: validate_stored_def)
  from assms(1) have "fst (Request_Validate req) = None" by (simp add: accepted_def)
  note v = Request_Validate_MaxSteps [OF this assms(2,3)]
  have "rq_GraphID (with_MaxSteps m r) = rq_GraphID r" "rq_Config (with_MaxSteps m r) = (rq_Config r)\<lparr>MaxSteps := m\<rparr>" for r
    by (simp_all add: with_MaxSteps_def)
  then show ?thesis using assms(1) by (simp add: accepted_def v config)
qed

text \<open>
  the step limit. Of two accepted requests that differ in their limits \<open>m \<le> n\<close>, the first runs
  the first \<open>m\<close> steps of the second, and if the second has as many, it is reported as completed
  with the output of its last step, even though the graph had more to run.
\<close>

theorem step_limit_truncates:
  assumes "accepted xe req ex g" and "manager_answers ex" and "edge_evaluator (ge_next ex)"
    and "0 < m" and "m \<le> MaxSteps (rq_Config req)"
    and "fst (Execute xe req ex) = Returns (Some rs, err)"
    and "fst (Execute xe (with_MaxSteps m req) ex) = Returns (Some rs', err')"
  shows "rs_Steps rs' = take (nat m) (rs_Steps rs)
    \<and> (nat m \<le> length (rs_Steps rs) \<longrightarrow>
         rs_Status rs' = ExecutionStatusCompleted \<and> err' = None
         \<and> rs_Output rs' = sr_Output (rs_Steps rs ! (nat m - 1)))"
proof -
  let ?req = "with_MaxSteps m req"
  from assms(4,5) have pos: "0 < MaxSteps (rq_Config req)" by simp
  obtain req1 where req1: "Request_Validate req = (None, req1)"
    using assms(1) unfolding accepted_def by (metis prod.collapse)
  then have max1: "MaxSteps (rq_Config req1) = MaxSteps (rq_Config req)" "rq_Input req1 = rq_Input req"
    using Request_Validate_ok pos by auto
  have v: "Request_Validate ?req = (None, with_MaxSteps m req1)"
    using Request_Validate_MaxSteps [of req, OF _ assms(4) pos] req1 by simp
  have acc: "accepted xe ?req ex g" by (rule accepted_MaxSteps [OF assms(1,4) pos])
  obtain xs e where w: "graph_walk ex g (MaxSteps (rq_Config req)) (rq_Input req) = (xs, e)" by fastforce
  obtain ys e' where w': "graph_walk ex g m (rq_Input req) = (ys, e')" by fastforce
  from assms(5) have mn: "nat m \<le> nat (MaxSteps (rq_Config req))" by simp
  have ys: "ys = take (nat m) xs" "nat m \<le> length xs \<Longrightarrow> e' = None"
    using walk_prefix [OF mn, of "ge_process ex" "ge_next ex" "g_Edges g" "entry_node g" "rq_Input req"] w w'
    by (simp_all add: graph_walk_def)
  have rs: "rs = response_of xe (start_context xe req) (xs, e)"
    using Execute_walk [OF assms(1-3)] assms(6) w max1 req1 by (simp add: Let_def)
  have rs': "rs' = response_of xe (start_context xe ?req) (ys, e')" "err' = e'"
    using Execute_walk [OF acc assms(2,3)] assms(7) w' v by (auto simp: Let_def with_MaxSteps_def)
  have steps: "step_records (xe_steps xe) 0 ys = take (nat m) (step_records (xe_steps xe) 0 xs)"
    by (rule nth_equalityI) (auto simp: ys(1))
  show ?thesis
  proof (intro conjI impI)
    show "rs_Steps rs' = take (nat m) (rs_Steps rs)" using steps by (simp add: rs rs' response_of_def)
    assume "nat m \<le> length (rs_Steps rs)"
    then have len: "nat m \<le> length xs" by (simp add: rs response_of_def)
    with ys have none: "e' = None" by simp
    show "rs_Status rs' = ExecutionStatusCompleted" "err' = None" using none by (simp_all add: rs' response_of_def)
    from assms(4) obtain k where "nat m = Suc k" by (cases "nat m") auto
    with len have "ys \<noteq> []" "last ys = xs ! (nat m - 1)" "nat m - 1 < length xs"
      by (auto simp: ys(1) take_Suc_conv_app_nth)
    then show "rs_Output rs' = sr_Output (rs_Steps rs ! (nat m - 1))"
      using none by (simp add: rs rs' response_of_def last_state_def step_record_def)
  qed
qed

text \<open>In a graph with a cycle the default processors always go on.\<close>

lemma sample_cycle_follow:
  "follow GetNextNodes [Some (typed_edge ''a'' ''b''), Some (typed_edge ''b'' ''a'')] (sample_node ''a'') out
     = Some (placeholder_node ''b'')"
  "follow GetNextNodes [Some (typed_edge ''a'' ''b''), Some (typed_edge ''b'' ''a'')] (placeholder_node ''b'') out
     = Some (placeholder_node ''a'')"
  by (simp_all add: follow_def GetNextNodes_def typed_edge_def sample_edge_def sample_node_def placeholder_node_def
      Evaluate_def)

theorem step_limit_truncates_witness:
  "\<exists>rs. fst (Execute sample_exec_env (with_MaxSteps 1 (with_MaxSteps 2 sample_request))
       (sample_executor [typed_edge ''a'' ''b'', typed_edge ''b'' ''a''])) = Returns (Some rs, None)
     \<and> length (rs_Steps rs) = 1 \<and> rs_Status rs = ExecutionStatusCompleted"
proof -
  let ?es = "[typed_edge ''a'' ''b'', typed_edge ''b'' ''a'']"
  let ?ex = "sample_executor ?es" and ?req = "with_MaxSteps 2 sample_request"
  have acc0: "accepted sample_exec_env sample_request ?ex (sample_graph ?es)" by (rule sample_accepted) simp
  have pos: "0 < MaxSteps (rq_Config sample_request)" by (simp add: sample_request_def simple_config_def)
  have acc: "accepted sample_exec_env ?req ?ex (sample_graph ?es)"
    by (rule accepted_MaxSteps [OF acc0 _ pos]) simp
  have two: "MaxSteps (rq_Config ?req) = 2" by (simp add: with_MaxSteps_def)
  have acc1: "accepted sample_exec_env (with_MaxSteps 1 ?req) ?ex (sample_graph ?es)"
    by (rule accepted_MaxSteps [OF acc]) (simp_all add: two)
  have ev: "edge_evaluator (ge_next ?ex)" by (simp add: sample_answers dflt.edge_evaluator_axioms)
  obtain out where a: "Process NewDefaultNodeProcessor (sample_node ''a'') None = Inr (Some out)"
    using default_process_total [of "sample_node ''a''" None] by (auto simp: default_processors sample_node_def)
  obtain out2 where b: "Process NewDefaultNodeProcessor (placeholder_node ''b'') (Some out) = Inr (Some out2)"
    using default_process_total [of "placeholder_node ''b''" "Some out"]
    by (auto simp: default_processors placeholder_node_def)
  have w: "graph_walk ?ex (sample_graph ?es) 2 None
      = ([(sample_node ''a'', Some out), (placeholder_node ''b'', Some out2)], None)"
    by (simp add: graph_walk_def sample_answers entry_node_def sample_graph_def a b sample_cycle_follow)
  have v: "Request_Validate ?req = (None, ?req)"
    using Request_Validate_MaxSteps [of sample_request 2] sample_request_valid pos by simp
  obtain rs where rs: "fst (Execute sample_exec_env ?req ?ex) = Returns (Some rs, None)" "length (rs_Steps rs) = 2"
    using Execute_walk [OF acc sample_answers(1) ev] v two w
    by (auto simp: Let_def response_of_def with_MaxSteps_def sample_request_def)
  obtain rs' err' where rs': "fst (Execute sample_exec_env (with_MaxSteps 1 ?req) ?ex) = Returns (Some rs', err')"
    using Execute_walk [OF acc1 sample_answers(1) ev] by (auto simp: Let_def)
  show ?thesis using step_limit_truncates [OF acc sample_answers(1) ev _ _ rs(1) rs'] rs rs' two by simp
qed

subsection \<open>Resume\<close>

text \<open>The context with which an execution resumes.\<close>

definition resumed_context :: "'e exec_env \<Rightarrow> ExecutionContext \<Rightarrow> ExecutionRequest \<Rightarrow> ExecutionContext" where
  "resumed_context xe c req = c\<lparr>xc_Config := resumed_config (rq_Config req) (xc_Config c),
     xc_ExecutionID := generateExecutionID (xe_nano xe) (xc_GraphID c) (xc_ThreadID c)\<rparr>"

lemma resumed_every: "CheckpointEvery (resumed_config a b) \<noteq> 0"
  by (simp add: resumed_config_def Let_def)

text \<open>Validation, done or not, leaves everything of the executor but the stored graphs.\<close>

lemma validate_stored_parts:
  "validate_stored wrap xe gid config ex = (r, ex1) \<Longrightarrow> ex1 = ex\<lparr>ge_repo := ge_repo ex1\<rparr>"
  by (auto simp: validate_stored_def Let_def split: sum.splits prod.splits option.splits if_splits)

text \<open>
  C9: resuming restarts. Suppose the checkpoint loads to a context, whatever configuration is left in
  it (a saver that goes through JSON loses it), and the stored graph passes the validation that
  this configuration, as the request amends it, asks for (none, if it does not ask), and the
  checkpoint manager answers. Then \<^verbatim>\<open>Resume\<close> runs the graph from its entry point on the saved
  state, with the number of steps of the amended configuration or a hundred, and returns that result;
  and it returns what \<^verbatim>\<open>Execute\<close> returns for every request that is accepted for the same
  graph and thread with the saved state as its input and the same number of steps. Neither the step
  nor the node at which the checkpoint was taken plays a part.
\<close>

theorem resume_is_restart:
  assumes "ge_create ex \<noteq> None" and "ge_load ex (xe_load xe) cid (ge_manager ex) = (Returns c0, m')"
    and valid: "validate_stored LoadGraphFailed xe (xc_GraphID c0) (resumed_config (rq_Config req) (xc_Config c0)) ex
      = (None, ex1)" "ge_repo ex1 (xc_GraphID c0) = Some g" "None \<notin> set (g_Edges g)"
    and "manager_answers ex" and "edge_evaluator (ge_next ex)"
  shows "(let c = resumed_context xe c0 req; w = graph_walk ex g (maxStepsOrDefault c) (xc_State c0)
      in fst (Resume xe cid req ex) = Returns (Some (response_of xe c w), snd w))
    \<and> (\<forall>r. accepted xe r ex g \<and> rq_GraphID r = xc_GraphID c0 \<and> rq_ThreadID r = xc_ThreadID c0
        \<and> rq_Input r = xc_State c0
        \<and> MaxSteps (rq_Config (snd (Request_Validate r))) = maxStepsOrDefault (resumed_context xe c0 req)
        \<longrightarrow> fst (Resume xe cid req ex) = fst (Execute xe r ex))"
proof -
  let ?c = "resumed_context xe c0 req"
  let ?w = "graph_walk ex g (maxStepsOrDefault ?c) (xc_State c0)"
  let ?ex2 = "register ?c (ex1\<lparr>ge_manager := m'\<rparr>)"
  have fields: "xc_GraphID ?c = xc_GraphID c0" "xc_Config ?c = resumed_config (rq_Config req) (xc_Config c0)"
    "xc_State ?c = xc_State c0" by (simp_all add: resumed_context_def)
  have v2: "validate_stored LoadGraphFailed xe (xc_GraphID ?c) (xc_Config ?c) (register ?c (ex\<lparr>ge_manager := m'\<rparr>))
      = (None, ?ex2)"
    using valid(1) by (simp add: validate_stored_updates fields)
  note ex1 = validate_stored_parts [OF valid(1)]
  have parts: "ge_process ex1 = ge_process ex" "ge_next ex1 = ge_next ex" "ge_create ex1 = ge_create ex"
    using ex1 by (metis DefaultGraphExecutor.surjective DefaultGraphExecutor.update_convs(6)
      DefaultGraphExecutor.select_convs(1,2,3))+
  have ma: "manager_answers ?ex2" using assms(6) parts by (simp add: manager_answers_def)
  have na: "next_answers ?ex2 (g_Edges g)"
    using evaluator_answers [OF assms(7) valid(3)] parts by (simp add: next_answers_def)
  have ce: "CheckpointEvery (xc_Config ?c) \<noteq> 0" by (simp add: fields resumed_every)
  have gg: "ge_repo ?ex2 (xc_GraphID ?c) = Some g" using valid(2) by (simp add: fields)
  have walk: "graph_walk ?ex2 g (maxStepsOrDefault ?c) (xc_State ?c) = ?w"
    by (simp add: graph_walk_def parts fields)
  have run: "fst (Resume xe cid req ex) = Returns (Some (response_of xe ?c ?w), snd ?w)"
    using run_registered_walk [OF ma na ce gg, of xe] assms(1,2) v2 unfolding walk
    by (auto simp: Resume_def Let_def resumed_context_def)
  have "fst (Execute xe r ex) = Returns (Some (response_of xe ?c ?w), snd ?w)"
    if "accepted xe r ex g" "rq_GraphID r = xc_GraphID c0" "rq_ThreadID r = xc_ThreadID c0" "rq_Input r = xc_State c0"
      "MaxSteps (rq_Config (snd (Request_Validate r))) = maxStepsOrDefault ?c" for r
  proof -
    have "response_of xe (start_context xe r) w = response_of xe ?c w" for w
      using that by (simp add: response_of_def start_context_def resumed_context_def)
    then show ?thesis using Execute_walk [OF that(1) assms(6,7)] that by (simp add: Let_def)
  qed
  with run show ?thesis by (simp add: Let_def)
qed

text \<open>
  A checkpoint whose configuration has been lost on the way, taken at step 7: resuming with a limit
  of a hundred steps is executing on its state.
\<close>

definition lossy_context :: ExecutionContext where
  "lossy_context = \<lparr>xc_ExecutionID = ''old'', xc_GraphID = ''g'', xc_ThreadID = ''t'', xc_CurrentStep = 7,
     xc_State = Some [''x'' \<mapsto> VInt 1], xc_Config = zero_config, xc_StartTime = 0\<rparr>"

definition lossy_executor :: "(unit, unit) DefaultGraphExecutor" where
  "lossy_executor = (sample_executor [])\<lparr>ge_load := (\<lambda>_ cid m. (Returns lossy_context, m))\<rparr>"

theorem resume_is_restart_witness:
  "fst (Resume sample_exec_env ''old'' sample_request lossy_executor)
     = fst (Execute sample_exec_env (sample_request\<lparr>rq_Input := Some [''x'' \<mapsto> VInt 1]\<rparr>) lossy_executor)"
proof -
  let ?r = "sample_request\<lparr>rq_Input := Some [''x'' \<mapsto> VInt 1]\<rparr>"
  have v: "Request_Validate ?r = (None, ?r)"
    by (simp add: Request_Validate_def sample_request_def simple_config_def minutes_def)
  have stored: "ge_repo lossy_executor ''g'' = Some (sample_graph [])"
    by (simp add: lossy_executor_def sample_executor_def)
  have "accepted sample_exec_env ?r (sample_executor []) (sample_graph [])"
    using sample_accepted [of "[]"] v unfolding accepted_def sample_request_valid
    by (simp add: sample_request_def)
  then have acc: "accepted sample_exec_env ?r lossy_executor (sample_graph [])"
    by (simp add: accepted_load lossy_executor_def)
  have valid: "validate_stored LoadGraphFailed sample_exec_env (xc_GraphID lossy_context)
      (resumed_config (rq_Config sample_request) (xc_Config lossy_context)) lossy_executor = (None, lossy_executor)"
    by (simp add: validate_stored_def resumed_config_def lossy_context_def zero_config_def Let_def)
  have c: "maxStepsOrDefault (resumed_context sample_exec_env lossy_context sample_request) = 100"
    by (simp add: maxStepsOrDefault_def resumed_context_def resumed_config_def sample_request_def simple_config_def
        lossy_context_def zero_config_def Let_def minutes_def)
  have ma: "manager_answers lossy_executor" "edge_evaluator (ge_next lossy_executor)"
    using sample_answers [of "[]"] dflt.edge_evaluator_axioms by (simp_all add: lossy_executor_def manager_answers_def)
  show ?thesis
    by (rule resume_is_restart [THEN conjunct2, rule_format, OF _ _ valid _ _ ma])
      (use acc stored c v in \<open>simp_all add: lossy_executor_def sample_executor_def NewDefaultGraphExecutor_def
        lossy_context_def sample_graph_def sample_request_def simple_config_def\<close>)
qed

text \<open>
  a resumption that cannot load its graph leaves its execution behind. It returns the error,
  but the execution it registered stays registered, and its status is reported as running.
\<close>

theorem failed_resume_stays_running:
  assumes "ge_create ex \<noteq> None" and "ge_load ex (xe_load xe) cid (ge_manager ex) = (Returns c0, m')"
    and "ValidateGraph (xc_Config c0)" and "ge_repo ex (xc_GraphID c0) = None"
  shows "fst (Resume xe cid req ex) = Returns (None, Some (LoadGraphFailed ErrGraphNotFound))
    \<and> (\<exists>rs. GetStatus (generateExecutionID (xe_nano xe) (xc_GraphID c0) (xc_ThreadID c0)) (snd (Resume xe cid req ex)) = Inr rs
         \<and> rs_Status rs = ExecutionStatusRunning)"
  using assms by (auto simp: Resume_def Let_def validate_stored_def resumed_config_def Repo_Get_def GetStatus_def)

theorem failed_resume_stays_running_witness:
  "fst (Resume sample_exec_env ''old'' sample_request ((sample_executor [])\<lparr>ge_repo := NewInMemoryGraphRepository\<rparr>))
     = Returns (None, Some (LoadGraphFailed ErrGraphNotFound))"
  by (rule failed_resume_stays_running [THEN conjunct1])
    (simp_all add: sample_executor_def NewDefaultGraphExecutor_def simple_config_def NewInMemoryGraphRepository_def, simp)

subsection \<open>A full saver\<close>

text \<open>
  C17: a full saver hangs the execution. If the in-memory saver holds a checkpoint and the first one
  of an execution does not fit into what is left, then \<^verbatim>\<open>Execute\<close> never returns: it
  waits for the lock that its own eviction holds, and stays registered as running.
\<close>

theorem full_saver_hangs_execution:
  assumes "accepted xe req ex g" and "entry_node g = Some n" and "ge_process ex n (rq_Input req) = Inr (Some out)"
    and "ge_create ex = Some (service_create_op x)" and "saver_ok (ge_manager ex)" and "\<not> ms_orderHeld (ge_manager ex)"
    and "map_order (ms_accessOrder (ge_manager ex)) (env_ids (ce_saver (se_cp (xe_steps xe 0))))"
    and "Serialize x (ms_serializer (ge_manager ex)) (env_rnd (ce_saver (se_cp (xe_steps xe 0))))
           (checkpoint_of (ce_nano (se_cp (xe_steps xe 0))) (ce_time (se_cp (xe_steps xe 0)))
             ((start_context xe req)\<lparr>xc_State := Some out\<rparr>)) = Returns data"
    and "max_bytes (ge_manager ex) < ms_currentSize (ge_manager ex) + int (length data)"
    and "ms_checkpoints (ge_manager ex) \<noteq> Map.empty"
  shows "fst (Execute xe req ex) = Deadlocks
    \<and> (\<exists>rs. GetStatus (xc_ExecutionID (start_context xe req)) (snd (snd (Execute xe req ex))) = Inr rs
         \<and> rs_Status rs = ExecutionStatusRunning)"
  using assms(1)
proof (rule Execute_accepted)
  fix ex1
  let ?s = "start_context xe req"
  let ?c = "?s\<lparr>xc_State := Some out\<rparr>" and ?ce = "se_cp (xe_steps xe 0)"
  let ?cp = "checkpoint_of (ce_nano ?ce) (ce_time ?ce) ?c"
  assume ex1: "ex1 = ex\<lparr>ge_repo := ge_repo ex1\<rparr>" and g: "ge_repo ex1 (rq_GraphID req) = Some g"
    and every: "CheckpointEvery (rq_Config (snd (Request_Validate req))) \<noteq> 0"
    and maxs: "maxStepsOrDefault ?s = MaxSteps (rq_Config (snd (Request_Validate req)))"
    and exec: "fst (Execute xe req ex) = (case fst (run_registered xe (xe_start xe) ?s (register ?s ex1)) of
         Returns (rs, err) \<Rightarrow> Returns (Some rs, err) | Blocks \<Rightarrow> Blocks | Deadlocks \<Rightarrow> Deadlocks
       | Fails u \<Rightarrow> Fails u | Panics p \<Rightarrow> Panics p)"
    and exec2: "snd (snd (Execute xe req ex)) = snd (run_registered xe (xe_start xe) ?s (register ?s ex1))"
  obtain req1 where req1: "Request_Validate req = (None, req1)"
    using assms(1) unfolding accepted_def by (metis prod.collapse)
  note ok = Request_Validate_ok [OF req1]
  have parts: "ge_process ex1 = ge_process ex" "ge_create ex1 = ge_create ex" "ge_manager ex1 = ge_manager ex"
    using ex1 by (metis DefaultGraphExecutor.surjective DefaultGraphExecutor.update_convs(6)
      DefaultGraphExecutor.select_convs(1,3,5))+
  have "Checkpoint_Validate ?cp = None"
    using ok by (simp add: Checkpoint_Validate_def checkpoint_of_def generateCheckpointID_def start_context_def)
  from save_outcome_aux [OF assms(5,6,7) this assms(8)] assms(9,10)
  have "fst (MemSave x (ce_saver ?ce) ?cp (ge_manager ex)) = Deadlocks" by simp
  then obtain m where save: "MemSave x (ce_saver ?ce) ?cp (ge_manager ex) = (Deadlocks, m)" by (metis prod.collapse)
  have take: "take_checkpoint ?ce 0 ?c (register ?s ex1) = (Deadlocks, (register ?s ex1)\<lparr>ge_manager := m\<rparr>)"
    using every assms(4) save
    by (simp add: take_checkpoint_def parts start_context_def service_create_op_def CreateCheckpoint_def)
  obtain k where k: "nat (maxStepsOrDefault ?s) = Suc k"
    using ok req1 unfolding maxs by (metis Suc_pred snd_conv zero_less_nat_eq)
  have input: "xc_State ?s = rq_Input req" by (simp add: start_context_def)
  have "run_registered xe (xe_start xe) ?s (register ?s ex1) = (Deadlocks, (register ?s ex1)\<lparr>ge_manager := m\<rparr>)"
    using g assms(2,3) take k input
    by (auto simp: run_registered_def executeGraph_def Repo_Get_def start_context_def entry_node_def
        runSequentialStep_def Let_def parts split: option.splits)
  then show ?thesis unfolding exec exec2 by (simp add: GetStatus_def)
qed

text \<open>A saver with one checkpoint that takes all of its memory.\<close>

definition any_checkpoint :: "Checkpoint Externals" where
  "any_checkpoint = one_checkpoint\<lparr>x_msgpack_marshal := (\<lambda>_. Inr [1])\<rparr>"

definition full_saver :: InMemorySaver where
  "full_saver = (saved_once (sample_env 0 []) sample_checkpoint (replicate (2 ^ 20) 1) (2 ^ 20) sample_saver)
     \<lparr>ms_serializer := DefaultSerializer any_checkpoint\<rparr>"

definition full_executor :: "(saver_env, InMemorySaver) DefaultGraphExecutor" where
  "full_executor = (NewDefaultGraphExecutor (Process NewDefaultNodeProcessor) GetNextNodes
     (Some (service_create_op any_checkpoint)) (Service_LoadCheckpoint (MemLoad any_checkpoint)) full_saver
     NewInMemoryGraphRepository)\<lparr>ge_repo := [''g'' \<mapsto> sample_graph []]\<rparr>"

definition saver_exec_env :: "saver_env exec_env" where
  "saver_exec_env = \<lparr>xe_nano = 5, xe_start = 0, xe_end = 0, xe_ids = [''a'', ''b''], xe_ids' = [''a'', ''b''],
     xe_steps = (\<lambda>_. \<lparr>se_start = 0, se_cp = \<lparr>ce_nano = 0, ce_time = 0, ce_saver = sample_env 1 [''c'']\<rparr>,
       se_end = 0, se_since = 0\<rparr>), xe_load = sample_env 0 []\<rparr>"

lemma any_Serialize: "Serialize any_checkpoint (DefaultSerializer any_checkpoint) rnd c = Returns [1]"
  by (simp add: Serialize_def DefaultSerializer_def NewMsgPackCodec_def any_checkpoint_def one_checkpoint_def
      compress_def compressZstd_def CompressionNone_def CompressionGzip_def CompressionZstd_def)

theorem full_saver_hangs_execution_witness:
  "fst (Execute saver_exec_env sample_request full_executor) = Deadlocks"
proof -
  have ex: "ge_process full_executor = Process NewDefaultNodeProcessor" "ge_manager full_executor = full_saver"
    "ge_create full_executor = Some (service_create_op any_checkpoint)"
    by (simp_all add: full_executor_def NewDefaultGraphExecutor_def)
  have "validate_stored RepositoryError saver_exec_env ''g'' simple_config full_executor = (None, full_executor)"
    using sample_validates [of "[]"]
    by (simp add: validate_stored_def simple_config_def full_executor_def Repo_Get_def saver_exec_env_def Let_def
        NewDefaultGraphExecutor_def)
  then have acc: "accepted saver_exec_env sample_request full_executor (sample_graph [])"
    unfolding accepted_def sample_request_valid by (simp add: sample_request_def full_executor_def)
  obtain out where a: "ge_process full_executor (sample_node ''a'') (rq_Input sample_request) = Inr (Some out)"
    using default_process_total [of "sample_node ''a''" "rq_Input sample_request"]
    by (auto simp: default_processors sample_node_def ex)
  have entry: "entry_node (sample_graph []) = Some (sample_node ''a'')"
    by (simp add: entry_node_def sample_graph_def)
  have env: "ce_saver (se_cp (xe_steps saver_exec_env 0)) = sample_env 1 [''c'']" by (simp add: saver_exec_env_def)
  have "saver_ok full_saver" "\<not> ms_orderHeld full_saver" "ms_accessOrder full_saver = [''c'' \<mapsto> 0]"
    "ms_serializer full_saver = DefaultSerializer any_checkpoint" "ms_currentSize full_saver = 2 ^ 20"
    "max_bytes full_saver = 2 ^ 20" "ms_checkpoints full_saver \<noteq> Map.empty"
    by (simp_all add: full_saver_def saver_ok_def saved_once_def sample_max(2-) sample_checkpoint_def
        max_bytes_def sample_saver_def NewInMemorySaver_def i64_def)
  then show ?thesis
    using full_saver_hangs_execution [OF acc entry a ex(3), where data = "[1]"]
    by (simp add: ex env any_Serialize map_order_def)
qed

end
