(* ===== verification/BranchManager.thy ===== *)
theory BranchManager
  imports ExecutionData
begin

section \<open>Parallel branches (internal/app/usecases/branch_manager.go)\<close>

text \<open>
  The branch manager: specifications, branch executions and join points, each in a map under its
  ID. The objects are handed out as pointers; the model keeps the manager's view of them, and the
  one write that clients make through such a pointer (\<^verbatim>\<open>JoinPointID\<close>, which no
  operation of the manager sets) is the operation \<open>attach\<close>. UUIDs and clock readings are arguments.
  \<^verbatim>\<open>CompleteBranch\<close> runs in three critical sections with the lock released in
  between; each is a definition, and \<open>branch_step\<close> interleaves those of concurrent callers with
  the timers of the join points. Completion handlers are values of a type \<open>'h\<close> that the manager
  only stores and calls.
\<close>

subsection \<open>State\<close>

record BranchCondition =
  bcd_Type :: string
  bcd_Expression :: string
  bcd_InputPaths :: "string list"
  bcd_EventTypes :: "string list"
  bcd_Parameters :: "gstate option"

record BranchSpec =
  bs_ID :: string
  bs_Name :: string
  bs_ParentBranch :: string
  bs_Condition :: BranchCondition
  bs_Nodes :: "string list"
  bs_JoinStrategy :: string
  bs_JoinTimeout :: int
  bs_MaxConcurrent :: int
  bs_Priority :: int
  bs_Metadata :: "gstate option"
  bs_CreatedAt :: int

record BranchExecution =
  be_ID :: string
  be_BranchSpecID :: string
  be_ExecutionID :: string
  be_GraphID :: string
  be_ThreadID :: string
  be_Status :: string
  be_StartedAt :: int
  be_CompletedAt :: "int option"
  be_Results :: "gstate option"
  be_Error :: string
  be_ChildBranches :: "string list"
  be_JoinPointID :: string
  be_Context :: "gstate option"

record 'h JoinPoint =
  jp_ID :: string
  jp_Name :: string
  jp_Strategy :: string
  jp_Timeout :: int
  jp_ExpectedBranches :: "string list"
  jp_CompletedBranches :: "string list"
  jp_Results :: "string \<rightharpoonup> gstate option"
  jp_Status :: string
  jp_CreatedAt :: int
  jp_CompletedAt :: "int option"
  jp_OnCompletion :: "'h option"

record 'h BranchManager =
  bm_branches :: "string \<rightharpoonup> BranchSpec"
  bm_activeBranches :: "string \<rightharpoonup> BranchExecution"
  bm_joinPoints :: "string \<rightharpoonup> 'h JoinPoint"

definition NewBranchManager :: "'h BranchManager" where
  "NewBranchManager = \<lparr>bm_branches = Map.empty, bm_activeBranches = Map.empty, bm_joinPoints = Map.empty\<rparr>"

subsection \<open>Specifications\<close>

definition validateBranchSpec :: "BranchSpec \<Rightarrow> string option" where
  "validateBranchSpec spec =
     (if bs_Name spec = [] then Some ''branch name is required''
      else if bs_Nodes spec = [] then Some ''branch must have at least one node''
      else if bs_JoinStrategy spec \<notin> {''wait_all'', ''wait_any'', ''wait_first'', ''timeout''}
        then Some ''invalid join strategy''
      else if bs_JoinStrategy spec = ''timeout'' \<and> bs_JoinTimeout spec = 0
        then Some ''timeout strategy requires join_timeout''
      else None)"

text \<open>The specification comes back with what was written to it.\<close>

definition CreateBranchSpec ::
  "string \<Rightarrow> int \<Rightarrow> BranchSpec \<Rightarrow> 'h BranchManager \<Rightarrow> string option \<times> BranchSpec \<times> 'h BranchManager" where
  "CreateBranchSpec uuid now spec0 bm =
     (let spec = (if bs_ID spec0 = [] then spec0\<lparr>bs_ID := uuid\<rparr> else spec0) in
      case validateBranchSpec spec of
        Some err \<Rightarrow> (Some err, spec, bm)
      | None \<Rightarrow>
          (let spec1 = spec\<lparr>bs_CreatedAt := now\<rparr> in
           (None, spec1, bm\<lparr>bm_branches := (bm_branches bm)(bs_ID spec1 \<mapsto> spec1)\<rparr>)))"

definition GetBranchSpec :: "string \<Rightarrow> 'h BranchManager \<Rightarrow> string + BranchSpec" where
  "GetBranchSpec sid bm = (case bm_branches bm sid of
     None \<Rightarrow> Inl ''branch specification not found'' | Some s \<Rightarrow> Inr s)"

subsection \<open>Conditions\<close>

definition evaluateExpression :: "string \<Rightarrow> gstate option \<Rightarrow> string + bool" where
  "evaluateExpression expression ctx =
     (if expression = [] then Inr True
      else if expression = ''true'' then Inr True
      else if expression = ''false'' then Inr False
      else Inr True)"

text \<open>The path is split into one part: itself.\<close>

fun nested_loop :: "nat \<Rightarrow> gstate \<Rightarrow> string list \<Rightarrow> bool" where
  "nested_loop n current [] = True"
| "nested_loop n current (part # parts) =
     (case current part of
        None \<Rightarrow> False
      | Some (VMap nextMap) \<Rightarrow> nested_loop n nextMap parts
      | Some _ \<Rightarrow> n = 1)"

definition hasNestedValue :: "gstate \<Rightarrow> string \<Rightarrow> bool" where
  "hasNestedValue data path = nested_loop (length [path]) data [path]"

fun evaluateDataCondition :: "string list \<Rightarrow> gstate \<Rightarrow> string + bool" where
  "evaluateDataCondition [] ctx = Inr True"
| "evaluateDataCondition (path # paths) ctx =
     (if \<not> hasNestedValue ctx path then Inr False else evaluateDataCondition paths ctx)"

fun event_set :: "gval list \<Rightarrow> string list" where
  "event_set [] = []"
| "event_set (ev # evs) =
     (case ev of
        VMap m \<Rightarrow> (case m ''type'' of Some (VStr t) \<Rightarrow> t # event_set evs | _ \<Rightarrow> event_set evs)
      | _ \<Rightarrow> event_set evs)"

fun all_in :: "string list \<Rightarrow> string list \<Rightarrow> bool" where
  "all_in [] seen = True"
| "all_in (t # ts) seen = (if t \<notin> set seen then False else all_in ts seen)"

definition evaluateEventCondition :: "string list \<Rightarrow> gstate \<Rightarrow> string + bool" where
  "evaluateEventCondition eventTypes ctx =
     (case ctx ''events'' of
        Some (VList events) \<Rightarrow> Inr (all_in eventTypes (event_set events))
      | _ \<Rightarrow> Inr (eventTypes = []))"

definition evaluateBranchCondition :: "BranchCondition \<Rightarrow> gstate option \<Rightarrow> string + bool" where
  "evaluateBranchCondition cnd ctx =
     (if bcd_Type cnd = ''always'' then Inr True
      else if bcd_Type cnd = ''conditional'' then evaluateExpression (bcd_Expression cnd) ctx
      else if bcd_Type cnd = ''data_driven'' then evaluateDataCondition (bcd_InputPaths cnd) (nil_map ctx)
      else if bcd_Type cnd = ''event_driven'' then evaluateEventCondition (bcd_EventTypes cnd) (nil_map ctx)
      else Inl (''unknown condition type: '' @ bcd_Type cnd))"

subsection \<open>Branches\<close>

definition CreateBranch ::
  "string \<Rightarrow> int \<Rightarrow> string \<Rightarrow> string \<Rightarrow> string \<Rightarrow> string \<Rightarrow> gstate option \<Rightarrow> 'h BranchManager
   \<Rightarrow> (string + BranchExecution) \<times> 'h BranchManager" where
  "CreateBranch uuid now sid eid gid tid ctx bm =
     (case bm_branches bm sid of
        None \<Rightarrow> (Inl ''branch specification not found'', bm)
      | Some spec \<Rightarrow>
          (case evaluateBranchCondition (bs_Condition spec) ctx of
             Inl err \<Rightarrow> (Inl err, bm)
           | Inr False \<Rightarrow> (Inl (''branch condition not met for spec '' @ sid), bm)
           | Inr True \<Rightarrow>
               (let b = \<lparr>be_ID = uuid, be_BranchSpecID = sid, be_ExecutionID = eid, be_GraphID = gid,
                      be_ThreadID = tid, be_Status = ''pending'', be_StartedAt = now, be_CompletedAt = None,
                      be_Results = None, be_Error = [], be_ChildBranches = [], be_JoinPointID = [],
                      be_Context = ctx\<rparr>
                in (Inr b, bm\<lparr>bm_activeBranches := (bm_activeBranches bm)(uuid \<mapsto> b)\<rparr>))))"

definition GetActiveBranch :: "string \<Rightarrow> 'h BranchManager \<Rightarrow> string + BranchExecution" where
  "GetActiveBranch bid bm = (case bm_activeBranches bm bid of
     None \<Rightarrow> Inl ''active branch not found'' | Some b \<Rightarrow> Inr b)"

text \<open>\<open>ids\<close> is the order of the loop over the map.\<close>

definition ListActiveBranches :: "string list \<Rightarrow> string \<Rightarrow> 'h BranchManager \<Rightarrow> BranchExecution list" where
  "ListActiveBranches ids eid bm =
     filter (\<lambda>b. eid = [] \<or> be_ExecutionID b = eid) (map (\<lambda>i. the (bm_activeBranches bm i)) ids)"

definition CancelBranch :: "int \<Rightarrow> string \<Rightarrow> 'h BranchManager \<Rightarrow> string option \<times> 'h BranchManager" where
  "CancelBranch now bid bm =
     (case bm_activeBranches bm bid of
        None \<Rightarrow> (Some ''branch execution not found'', bm)
      | Some b \<Rightarrow> (None, bm\<lparr>bm_activeBranches := (bm_activeBranches bm)
            (bid \<mapsto> b\<lparr>be_Status := ''cancelled'', be_CompletedAt := Some now\<rparr>)\<rparr>))"

definition CleanupCompletedBranches :: "int \<Rightarrow> int \<Rightarrow> 'h BranchManager \<Rightarrow> 'h BranchManager" where
  "CleanupCompletedBranches now maxAge bm =
     (let cutoff = now - maxAge in
      bm\<lparr>bm_activeBranches := (\<lambda>k. case bm_activeBranches bm k of
           Some b \<Rightarrow> (case be_CompletedAt b of Some t \<Rightarrow> if t < cutoff then None else Some b | None \<Rightarrow> Some b)
         | None \<Rightarrow> None)\<rparr>)"

text \<open>The client's assignment \<^verbatim>\<open>branch.JoinPointID = jid\<close>.\<close>

definition attach :: "string \<Rightarrow> string \<Rightarrow> 'h BranchManager \<Rightarrow> 'h BranchManager" where
  "attach bid jid bm = bm\<lparr>bm_activeBranches :=
     (bm_activeBranches bm)(bid := map_option (be_JoinPointID_update (\<lambda>_. jid)) (bm_activeBranches bm bid))\<rparr>"

subsection \<open>Join points\<close>

text \<open>The second result says whether the timer goroutine is started.\<close>

definition CreateJoinPoint ::
  "string \<Rightarrow> int \<Rightarrow> string \<Rightarrow> string \<Rightarrow> string list \<Rightarrow> int \<Rightarrow> 'h option \<Rightarrow> 'h BranchManager
   \<Rightarrow> 'h JoinPoint \<times> bool \<times> 'h BranchManager" where
  "CreateJoinPoint uuid now name strategy expected timeout handler bm =
     (let j = \<lparr>jp_ID = uuid, jp_Name = name, jp_Strategy = strategy, jp_Timeout = timeout,
            jp_ExpectedBranches = expected, jp_CompletedBranches = [], jp_Results = Map.empty,
            jp_Status = ''waiting'', jp_CreatedAt = now, jp_CompletedAt = None, jp_OnCompletion = handler\<rparr>
      in (j, 0 < timeout, bm\<lparr>bm_joinPoints := (bm_joinPoints bm)(uuid \<mapsto> j)\<rparr>))"

definition GetJoinPoint :: "string \<Rightarrow> 'h BranchManager \<Rightarrow> string + 'h JoinPoint" where
  "GetJoinPoint jid bm = (case bm_joinPoints bm jid of
     None \<Rightarrow> Inl ''join point not found'' | Some j \<Rightarrow> Inr j)"

definition evaluateJoinCondition :: "'h JoinPoint \<Rightarrow> bool" where
  "evaluateJoinCondition j =
     (let completed = length (jp_CompletedBranches j); expected = length (jp_ExpectedBranches j) in
      if jp_Strategy j = ''wait_all'' then expected \<le> completed
      else if jp_Strategy j = ''wait_any'' then 0 < completed
      else if jp_Strategy j = ''wait_first'' then 0 < completed
      else if jp_Strategy j = ''timeout'' then expected \<le> completed
      else expected \<le> completed)"

text \<open>The body of the timer goroutine after its sleep.\<close>

definition handleJoinTimeout :: "int \<Rightarrow> string \<Rightarrow> 'h BranchManager \<Rightarrow> 'h BranchManager" where
  "handleJoinTimeout now jid bm =
     (case bm_joinPoints bm jid of
        None \<Rightarrow> bm
      | Some j \<Rightarrow> if jp_Status j = ''waiting''
          then bm\<lparr>bm_joinPoints := (bm_joinPoints bm)(jid \<mapsto> j\<lparr>jp_Status := ''timeout'', jp_CompletedAt := Some now\<rparr>)\<rparr>
          else bm)"

subsection \<open>Completing a branch\<close>

text \<open>The first critical section: the branch. It yields the join point to process.\<close>

definition complete_update ::
  "int \<Rightarrow> string \<Rightarrow> gstate option \<Rightarrow> string option \<Rightarrow> 'h BranchManager \<Rightarrow> (string + string) \<times> 'h BranchManager" where
  "complete_update now bid results err bm =
     (case bm_activeBranches bm bid of
        None \<Rightarrow> (Inl ''branch execution not found'', bm)
      | Some b \<Rightarrow>
          (let b1 = b\<lparr>be_CompletedAt := Some now, be_Results := results\<rparr>;
               b2 = (case err of
                       Some e \<Rightarrow> b1\<lparr>be_Status := ''failed'', be_Error := e\<rparr>
                     | None \<Rightarrow> b1\<lparr>be_Status := ''completed''\<rparr>)
           in (Inr (be_JoinPointID b), bm\<lparr>bm_activeBranches := (bm_activeBranches bm)(bid \<mapsto> b2)\<rparr>)))"

text \<open>The second: the join point. It yields whether the join point is to be completed.\<close>

definition join_append ::
  "string \<Rightarrow> string \<Rightarrow> gstate option \<Rightarrow> 'h BranchManager \<Rightarrow> (string + bool) \<times> 'h BranchManager" where
  "join_append jid bid results bm =
     (case bm_joinPoints bm jid of
        None \<Rightarrow> (Inl ''join point not found'', bm)
      | Some j \<Rightarrow>
          (let j1 = j\<lparr>jp_CompletedBranches := jp_CompletedBranches j @ [bid],
                      jp_Results := (jp_Results j)(bid \<mapsto> results)\<rparr>
           in (Inr (evaluateJoinCondition j1), bm\<lparr>bm_joinPoints := (bm_joinPoints bm)(jid \<mapsto> j1)\<rparr>)))"

text \<open>The third: the status. It yields the join point whose handler is to be called, if any.\<close>

definition join_finish ::
  "int \<Rightarrow> string \<Rightarrow> 'h BranchManager \<Rightarrow> ('h \<times> 'h JoinPoint) option \<times> 'h BranchManager" where
  "join_finish now jid bm =
     (case bm_joinPoints bm jid of
        None \<Rightarrow> (None, bm)
      | Some j \<Rightarrow>
          if jp_Status j \<noteq> ''waiting'' then (None, bm)
          else (let j1 = j\<lparr>jp_Status := ''completed'', jp_CompletedAt := Some now\<rparr>
                in (map_option (\<lambda>h. (h, j1)) (jp_OnCompletion j1),
                    bm\<lparr>bm_joinPoints := (bm_joinPoints bm)(jid \<mapsto> j1)\<rparr>)))"

text \<open>
  A call on its own. The handlers are run by \<open>run\<close>; the calls made are returned too.
\<close>

definition completeJoinPoint ::
  "('h \<Rightarrow> 'h JoinPoint \<Rightarrow> string option) \<Rightarrow> int \<Rightarrow> string \<Rightarrow> 'h BranchManager
   \<Rightarrow> string option \<times> 'h JoinPoint list \<times> 'h BranchManager" where
  "completeJoinPoint run now jid bm =
     (case join_finish now jid bm of
        (None, bm1) \<Rightarrow> (None, [], bm1)
      | (Some (h, j), bm1) \<Rightarrow> (run h j, [j], bm1))"

definition processBranchCompletion ::
  "('h \<Rightarrow> 'h JoinPoint \<Rightarrow> string option) \<Rightarrow> int \<Rightarrow> string \<Rightarrow> string \<Rightarrow> gstate option \<Rightarrow> 'h BranchManager
   \<Rightarrow> string option \<times> 'h JoinPoint list \<times> 'h BranchManager" where
  "processBranchCompletion run now jid bid results bm =
     (case join_append jid bid results bm of
        (Inl err, bm1) \<Rightarrow> (Some err, [], bm1)
      | (Inr shouldComplete, bm1) \<Rightarrow>
          if shouldComplete then completeJoinPoint run now jid bm1 else (None, [], bm1))"

definition CompleteBranch ::
  "('h \<Rightarrow> 'h JoinPoint \<Rightarrow> string option) \<Rightarrow> int \<Rightarrow> int \<Rightarrow> string \<Rightarrow> gstate option \<Rightarrow> string option \<Rightarrow> 'h BranchManager
   \<Rightarrow> string option \<times> 'h JoinPoint list \<times> 'h BranchManager" where
  "CompleteBranch run now now' bid results err bm =
     (case complete_update now bid results err bm of
        (Inl e, bm1) \<Rightarrow> (Some e, [], bm1)
      | (Inr jid, bm1) \<Rightarrow>
          if jid \<noteq> [] then processBranchCompletion run now' jid bid results bm1 else (None, [], bm1))"

subsection \<open>Concurrent callers\<close>

text \<open>
  Where a call of \<^verbatim>\<open>CompleteBranch\<close> stands between its critical sections: before the
  second, before the third, before the call of the handler.
\<close>

datatype 'h thread =
    AtAppend string string "gstate option"
  | AtFinish string
  | AtCall 'h string

record 'h World =
  bw_mgr :: "'h BranchManager"
  bw_threads :: "'h thread multiset"
  bw_timers :: "string multiset"
  bw_calls :: "string list"       \<comment> \<open>the join points whose handlers were called\<close>

definition NewWorld :: "'h World" where
  "NewWorld = \<lparr>bw_mgr = NewBranchManager, bw_threads = {#}, bw_timers = {#}, bw_calls = []\<rparr>"

inductive branch_step :: "'h World \<Rightarrow> 'h World \<Rightarrow> bool" where
  spec: "CreateBranchSpec uuid now s (bw_mgr w) = (r, s', bm) \<Longrightarrow> branch_step w (w\<lparr>bw_mgr := bm\<rparr>)"
| branch: "CreateBranch uuid now sid eid gid tid ctx (bw_mgr w) = (r, bm) \<Longrightarrow>
     bm_activeBranches (bw_mgr w) uuid = None \<Longrightarrow> branch_step w (w\<lparr>bw_mgr := bm\<rparr>)"
| attached: "branch_step w (w\<lparr>bw_mgr := attach bid jid (bw_mgr w)\<rparr>)"
| join: "CreateJoinPoint uuid now name strategy expected timeout handler (bw_mgr w) = (j, timer, bm) \<Longrightarrow>
     bm_joinPoints (bw_mgr w) uuid = None \<Longrightarrow> uuid \<noteq> [] \<Longrightarrow>
     branch_step w (w\<lparr>bw_mgr := bm, bw_timers := (if timer then add_mset uuid (bw_timers w) else bw_timers w)\<rparr>)"
| cancel: "CancelBranch now bid (bw_mgr w) = (r, bm) \<Longrightarrow> branch_step w (w\<lparr>bw_mgr := bm\<rparr>)"
| cleanup: "branch_step w (w\<lparr>bw_mgr := CleanupCompletedBranches now maxAge (bw_mgr w)\<rparr>)"
| complete_plain: "complete_update now bid results err (bw_mgr w) = (r, bm) \<Longrightarrow> r \<in> {Inr []} \<union> range Inl \<Longrightarrow>
     branch_step w (w\<lparr>bw_mgr := bm\<rparr>)"
| complete_join: "complete_update now bid results err (bw_mgr w) = (Inr jid, bm) \<Longrightarrow> jid \<noteq> [] \<Longrightarrow>
     branch_step w (w\<lparr>bw_mgr := bm, bw_threads := add_mset (AtAppend jid bid results) (bw_threads w)\<rparr>)"
| append: "bw_threads w = add_mset (AtAppend jid bid results) ts \<Longrightarrow>
     join_append jid bid results (bw_mgr w) = (r, bm) \<Longrightarrow>
     branch_step w (w\<lparr>bw_mgr := bm, bw_threads := (if r = Inr True then add_mset (AtFinish jid) ts else ts)\<rparr>)"
| finish: "bw_threads w = add_mset (AtFinish jid) ts \<Longrightarrow> join_finish now jid (bw_mgr w) = (r, bm) \<Longrightarrow>
     branch_step w (w\<lparr>bw_mgr := bm,
       bw_threads := (case r of Some (h, j) \<Rightarrow> add_mset (AtCall h jid) ts | None \<Rightarrow> ts)\<rparr>)"
| call: "bw_threads w = add_mset (AtCall h jid) ts \<Longrightarrow>
     branch_step w (w\<lparr>bw_threads := ts, bw_calls := bw_calls w @ [jid]\<rparr>)"
| timeout: "bw_timers w = add_mset jid ts \<Longrightarrow>
     branch_step w (w\<lparr>bw_mgr := handleJoinTimeout now jid (bw_mgr w), bw_timers := ts\<rparr>)"

inductive_cases branch_stepE: "branch_step w w'"

abbreviation branch_reachable :: "'h World \<Rightarrow> bool" where
  "branch_reachable w \<equiv> branch_step\<^sup>*\<^sup>* NewWorld w"

subsection \<open>The executor with branches\<close>

text \<open>
  A context is a map from typed keys to values; the wrapper puts the manager into it and hands
  everything on to its executor (\<open>'s\<close> is the executor's state).
\<close>

type_synonym 'v go_context = "string \<times> string \<rightharpoonup> 'v"

definition branch_key :: "string \<times> string" where
  "branch_key = (''branchManagerKey'', ''branch_manager'')"

record ('v, 'q, 'r, 't, 's) GraphExecutor =
  gx_Execute :: "'v go_context \<Rightarrow> 'q \<Rightarrow> 's \<Rightarrow> 'r \<times> 's"
  gx_Resume :: "'v go_context \<Rightarrow> string \<Rightarrow> 'q \<Rightarrow> 's \<Rightarrow> 'r \<times> 's"
  gx_Stop :: "'v go_context \<Rightarrow> string \<Rightarrow> 's \<Rightarrow> 't \<times> 's"
  gx_GetStatus :: "'v go_context \<Rightarrow> string \<Rightarrow> 's \<Rightarrow> 'r"

definition BranchAwareExecutor :: "'v \<Rightarrow> ('v, 'q, 'r, 't, 's) GraphExecutor \<Rightarrow> ('v, 'q, 'r, 't, 's) GraphExecutor" where
  "BranchAwareExecutor bm base =
     \<lparr>gx_Execute = (\<lambda>ctx req. gx_Execute base (ctx(branch_key \<mapsto> bm)) req),
      gx_Resume = (\<lambda>ctx cid req. gx_Resume base (ctx(branch_key \<mapsto> bm)) cid req),
      gx_Stop = gx_Stop base, gx_GetStatus = gx_GetStatus base\<rparr>"

definition GetBranchManager :: "'v go_context \<Rightarrow> 'v option" where
  "GetBranchManager ctx = ctx branch_key"

end
