(* ===== verification/BranchProps.thy ===== *)
theory BranchProps
  imports BranchManager
begin

section \<open>Properties of the branch manager\<close>

text \<open>
  Join points under all interleavings of concurrent callers and timers, the sequential meaning of
  the join strategies, the life of a branch, and the conditions of branches.
\<close>

subsection \<open>Effects on the join points\<close>

lemma branch_ops_joinPoints [simp]:
  "CreateBranchSpec uuid now s bm = (rs, s', bm') \<Longrightarrow> bm_joinPoints bm' = bm_joinPoints bm"
  "CreateBranch uuid now sid eid gid tid ctx bm = (rb, bm') \<Longrightarrow> bm_joinPoints bm' = bm_joinPoints bm"
  "CancelBranch now bid bm = (rc, bm') \<Longrightarrow> bm_joinPoints bm' = bm_joinPoints bm"
  "complete_update now bid results err bm = (ru, bm') \<Longrightarrow> bm_joinPoints bm' = bm_joinPoints bm"
  "bm_joinPoints (attach bid jid bm) = bm_joinPoints bm"
  "bm_joinPoints (CleanupCompletedBranches now maxAge bm) = bm_joinPoints bm"
  by (auto simp: CreateBranchSpec_def CreateBranch_def CancelBranch_def complete_update_def attach_def
      CleanupCompletedBranches_def Let_def split: option.splits sum.splits bool.splits if_splits)

text \<open>A join point with one more completion.\<close>

definition appended :: "string \<Rightarrow> gstate option \<Rightarrow> 'h JoinPoint \<Rightarrow> 'h JoinPoint" where
  "appended bid results j = j\<lparr>jp_CompletedBranches := jp_CompletedBranches j @ [bid],
     jp_Results := (jp_Results j)(bid \<mapsto> results)\<rparr>"

lemma appended_simps [simp]:
  "jp_Status (appended bid results j) = jp_Status j" "jp_OnCompletion (appended bid results j) = jp_OnCompletion j"
  "jp_CompletedBranches (appended bid results j) = jp_CompletedBranches j @ [bid]"
  "jp_CompletedAt (appended bid results j) = jp_CompletedAt j"
  "jp_Strategy (appended bid results j) = jp_Strategy j"
  "jp_ExpectedBranches (appended bid results j) = jp_ExpectedBranches j"
  "jp_Results (appended bid results j) = (jp_Results j)(bid \<mapsto> results)"
  by (simp_all add: appended_def)

lemma join_append_Some:
  "bm_joinPoints bm jid = Some j \<Longrightarrow> join_append jid bid results bm
     = (Inr (evaluateJoinCondition (appended bid results j)),
        bm\<lparr>bm_joinPoints := (bm_joinPoints bm)(jid \<mapsto> appended bid results j)\<rparr>)"
  by (simp add: join_append_def appended_def Let_def)

lemma join_append_None: "bm_joinPoints bm jid = None \<Longrightarrow> join_append jid bid results bm = (Inl ''join point not found'', bm)"
  by (simp add: join_append_def)

text \<open>The strategies differ in what they wait for.\<close>

lemma join_condition:
  "evaluateJoinCondition j \<longleftrightarrow>
     (if jp_Strategy j \<in> {''wait_any'', ''wait_first''} then jp_CompletedBranches j \<noteq> []
      else length (jp_ExpectedBranches j) \<le> length (jp_CompletedBranches j))"
  by (simp add: evaluateJoinCondition_def Let_def)

lemma evaluateJoinCondition_mono:
  assumes "evaluateJoinCondition j"
  shows "evaluateJoinCondition (appended bid results j)"
  using assms by (auto simp: join_condition split: if_splits)

subsection \<open>The invariant\<close>

definition pending_calls :: "string \<Rightarrow> 'h thread multiset \<Rightarrow> nat" where
  "pending_calls jid ts = size (filter_mset (\<lambda>t. \<exists>h. t = AtCall h jid) ts)"

lemma pending_calls_simps [simp]:
  "pending_calls jid {#} = 0"
  "pending_calls jid (add_mset (AtAppend j b r) ts) = pending_calls jid ts"
  "pending_calls jid (add_mset (AtFinish j) ts) = pending_calls jid ts"
  "pending_calls jid (add_mset (AtCall h j) ts) = (if j = jid then Suc (pending_calls jid ts) else pending_calls jid ts)"
  by (auto simp: pending_calls_def)

definition join_inv :: "string \<Rightarrow> 'h World \<Rightarrow> bool" where
  "join_inv jid w \<longleftrightarrow>
     (case bm_joinPoints (bw_mgr w) jid of
        None \<Rightarrow> count_list (bw_calls w) jid + pending_calls jid (bw_threads w) = 0
      | Some j \<Rightarrow>
          jp_Status j \<in> {''waiting'', ''completed'', ''timeout''}
          \<and> count_list (bw_calls w) jid + pending_calls jid (bw_threads w)
             = (if jp_Status j = ''completed'' \<and> jp_OnCompletion j \<noteq> None then 1 else 0)
          \<and> (jp_Status j = ''waiting'' \<longrightarrow> jp_CompletedBranches j \<noteq> [] \<longrightarrow> evaluateJoinCondition j
               \<longrightarrow> AtFinish jid \<in># bw_threads w))"

lemma join_inv_cong:
  assumes "bm_joinPoints (bw_mgr w') jid = bm_joinPoints (bw_mgr w) jid"
    and "count_list (bw_calls w') jid + pending_calls jid (bw_threads w')
      = count_list (bw_calls w) jid + pending_calls jid (bw_threads w)"
    and "AtFinish jid \<in># bw_threads w \<Longrightarrow> AtFinish jid \<in># bw_threads w'" and "join_inv jid w"
  shows "join_inv jid w'"
proof (cases "bm_joinPoints (bw_mgr w) jid")
  case None
  with assms(4) show ?thesis unfolding join_inv_def assms(1,2) by (simp only: option.case)
next
  case (Some j)
  note inv = assms(4) [unfolded join_inv_def Some option.case]
  have "jp_Status j = ''waiting'' \<longrightarrow> jp_CompletedBranches j \<noteq> [] \<longrightarrow> evaluateJoinCondition j
      \<longrightarrow> AtFinish jid \<in># bw_threads w'"
  proof (intro impI)
    assume "jp_Status j = ''waiting''" "jp_CompletedBranches j \<noteq> []" "evaluateJoinCondition j"
    then show "AtFinish jid \<in># bw_threads w'" by (intro assms(3) inv [THEN conjunct2, THEN conjunct2, rule_format])
  qed
  with inv [THEN conjunct1] inv [THEN conjunct2, THEN conjunct1] show ?thesis
    unfolding join_inv_def assms(1,2) Some option.case by (intro conjI)
qed

lemma join_inv_step:
  assumes "branch_step w w'" and "join_inv jid w"
  shows "join_inv jid w'"
  using assms(1)
proof (cases rule: branch_step.cases)
  case (join uuid now name strategy expected timeout handler j timer bm)
  then have w': "bw_calls w' = bw_calls w" "bw_threads w' = bw_threads w"
    "bm_joinPoints (bw_mgr w') = (bm_joinPoints (bw_mgr w))(uuid \<mapsto> j)"
    "jp_Status j = ''waiting''" "jp_CompletedBranches j = []"
    by (auto simp: CreateJoinPoint_def Let_def)
  show ?thesis
  proof (cases "uuid = jid")
    case True
    then show ?thesis using assms(2) join(3) by (simp add: join_inv_def w')
  next
    case False
    then show ?thesis using assms(2) by (intro join_inv_cong [of w' jid w]) (simp_all add: w')
  qed
next
  case (append jd bid results ts r bm)
  show ?thesis
  proof (cases "bm_joinPoints (bw_mgr w) jd")
    case None
    then have "w' = w\<lparr>bw_threads := ts\<rparr>" using append by (auto simp: join_append_None)
    then show ?thesis using assms(2) append(2) by (auto intro: join_inv_cong [of _ _ w])
  next
    case (Some j)
    let ?j = "appended bid results j"
    from Some append(1,3) have w': "w' = w\<lparr>bw_mgr := (bw_mgr w)\<lparr>bm_joinPoints := (bm_joinPoints (bw_mgr w))(jd \<mapsto> ?j)\<rparr>,
        bw_threads := (if evaluateJoinCondition ?j then add_mset (AtFinish jd) ts else ts)\<rparr>"
      by (auto simp: join_append_Some)
    show ?thesis
    proof (cases "jd = jid")
      case True
      then show ?thesis using assms(2) append(2) Some by (auto simp: w' join_inv_def)
    next
      case False
      then show ?thesis using assms(2) append(2) by (intro join_inv_cong [of w' jid w]) (auto simp: w')
    qed
  qed
next
  case (finish jd ts now r bm)
  show ?thesis
  proof (cases "jd = jid")
    case True
    then show ?thesis using assms(2) finish
      by (auto simp: join_finish_def join_inv_def Let_def split: option.splits if_splits)
  next
    case False
    with finish have "bm_joinPoints bm jid = bm_joinPoints (bw_mgr w) jid"
      by (auto simp: join_finish_def Let_def split: option.splits if_splits)
    then show ?thesis using assms(2) finish(1,2) False
      by (intro join_inv_cong [of w' jid w]) (auto split: option.splits)
  qed
next
  case (call h jd ts)
  then show ?thesis using assms(2) by (intro join_inv_cong [of w' jid w]) auto
next
  case (timeout jd ts now)
  show ?thesis
  proof (cases "jd = jid")
    case True
    then show ?thesis using assms(2) timeout by (auto simp: handleJoinTimeout_def join_inv_def split: option.splits)
  next
    case False
    then have "bm_joinPoints (handleJoinTimeout now jd (bw_mgr w)) jid = bm_joinPoints (bw_mgr w) jid"
      by (simp add: handleJoinTimeout_def split: option.splits)
    then show ?thesis using assms(2) timeout by (intro join_inv_cong [of w' jid w]) auto
  qed
qed (use assms(2) in \<open>auto intro!: join_inv_cong [of _ jid w]\<close>)

lemma join_inv_reachable: "branch_reachable w \<Longrightarrow> join_inv jid w"
proof (induction rule: rtranclp_induct)
  case base
  show ?case by (simp add: join_inv_def NewWorld_def NewBranchManager_def)
qed (rule join_inv_step)

text \<open>Statuses are final.\<close>

lemma status_final_step:
  assumes "branch_step w w'" and "bm_joinPoints (bw_mgr w) jid = Some j" and "jp_Status j \<noteq> ''waiting''"
  shows "\<exists>j'. bm_joinPoints (bw_mgr w') jid = Some j' \<and> jp_Status j' = jp_Status j \<and> jp_CompletedAt j' = jp_CompletedAt j"
  using assms(1)
proof (cases rule: branch_step.cases)
  case (append jd bid results ts r bm)
  then show ?thesis using assms(2,3)
    by (cases "bm_joinPoints (bw_mgr w) jd") (auto simp: join_append_None join_append_Some)
qed (use assms(2,3) in \<open>auto simp: CreateJoinPoint_def Let_def join_finish_def handleJoinTimeout_def
       split: option.splits if_splits\<close>)

lemma status_final:
  assumes "branch_step\<^sup>*\<^sup>* w w'" and "bm_joinPoints (bw_mgr w) jid = Some j" and "jp_Status j \<noteq> ''waiting''"
  shows "\<exists>j'. bm_joinPoints (bw_mgr w') jid = Some j' \<and> jp_Status j' = jp_Status j \<and> jp_CompletedAt j' = jp_CompletedAt j"
  using assms(1)
proof (induction rule: rtranclp_induct)
  case base
  show ?case using assms(2) by simp
next
  case (step u v)
  then obtain j1 where j1: "bm_joinPoints (bw_mgr u) jid = Some j1" "jp_Status j1 = jp_Status j"
    "jp_CompletedAt j1 = jp_CompletedAt j" by blast
  then show ?case using status_final_step [OF step(2) j1(1)] assms(3) by simp
qed

subsection \<open>A sample run\<close>

text \<open>A join point for one branch, and the branch that completes it.\<close>

definition sample_spec :: BranchSpec where
  "sample_spec = \<lparr>bs_ID = ''s'', bs_Name = ''s'', bs_ParentBranch = [],
     bs_Condition = \<lparr>bcd_Type = ''always'', bcd_Expression = [], bcd_InputPaths = [], bcd_EventTypes = [], bcd_Parameters = None\<rparr>,
     bs_Nodes = [''a''], bs_JoinStrategy = ''wait_all'', bs_JoinTimeout = 0, bs_MaxConcurrent = 1, bs_Priority = 0,
     bs_Metadata = None, bs_CreatedAt = 0\<rparr>"

definition sample_branch :: BranchExecution where
  "sample_branch = \<lparr>be_ID = ''b'', be_BranchSpecID = ''s'', be_ExecutionID = ''e'', be_GraphID = ''g'',
     be_ThreadID = ''t'', be_Status = ''pending'', be_StartedAt = 1, be_CompletedAt = None,
     be_Results = None, be_Error = [], be_ChildBranches = [], be_JoinPointID = ''j'', be_Context = None\<rparr>"

definition sample_join :: "string list \<Rightarrow> unit JoinPoint" where
  "sample_join expected = \<lparr>jp_ID = ''j'', jp_Name = [], jp_Strategy = ''wait_all'', jp_Timeout = 0,
     jp_ExpectedBranches = expected, jp_CompletedBranches = [], jp_Results = Map.empty, jp_Status = ''waiting'',
     jp_CreatedAt = 0, jp_CompletedAt = None, jp_OnCompletion = Some ()\<rparr>"

definition sample_manager :: "string list \<Rightarrow> unit BranchManager" where
  "sample_manager expected = \<lparr>bm_branches = [''s'' \<mapsto> sample_spec],
     bm_activeBranches = [''b'' \<mapsto> sample_branch], bm_joinPoints = [''j'' \<mapsto> sample_join expected]\<rparr>"

lemma sample_manager_reachable:
  "branch_reachable \<lparr>bw_mgr = sample_manager expected, bw_threads = {#}, bw_timers = {#}, bw_calls = []\<rparr>"
proof -
  let ?w = "\<lambda>bs as js. \<lparr>bw_mgr = \<lparr>bm_branches = bs, bm_activeBranches = as, bm_joinPoints = js\<rparr>,
    bw_threads = {#}, bw_timers = {#}, bw_calls = []\<rparr> :: unit World"
  let ?s = "[''s'' \<mapsto> sample_spec]" and ?j = "[''j'' \<mapsto> sample_join expected]"
  let ?b = "[''b'' \<mapsto> sample_branch\<lparr>be_JoinPointID := []\<rparr>]"
  have "CreateBranchSpec [] 0 sample_spec (bw_mgr NewWorld) = (None, sample_spec, bw_mgr (?w ?s Map.empty Map.empty))"
    by (simp add: NewWorld_def NewBranchManager_def CreateBranchSpec_def sample_spec_def validateBranchSpec_def Let_def)
  from branch_step.spec [OF this] have 1: "branch_step NewWorld (?w ?s Map.empty Map.empty)" by (simp add: NewWorld_def)
  have "CreateBranch ''b'' 1 ''s'' ''e'' ''g'' ''t'' None (bw_mgr (?w ?s Map.empty Map.empty))
      = (Inr (sample_branch\<lparr>be_JoinPointID := []\<rparr>), bw_mgr (?w ?s ?b Map.empty))"
    by (simp add: CreateBranch_def sample_branch_def sample_spec_def evaluateBranchCondition_def Let_def)
  from branch_step.branch [OF this] have 2: "branch_step (?w ?s Map.empty Map.empty) (?w ?s ?b Map.empty)" by simp
  have "CreateJoinPoint ''j'' 0 [] ''wait_all'' expected 0 (Some ()) (bw_mgr (?w ?s ?b Map.empty))
      = (sample_join expected, False, bw_mgr (?w ?s ?b ?j))"
    by (simp add: CreateJoinPoint_def sample_join_def Let_def)
  from branch_step.join [OF this] have 3: "branch_step (?w ?s ?b Map.empty) (?w ?s ?b ?j)" by simp
  have 4: "branch_step (?w ?s ?b ?j) (?w ?s [''b'' \<mapsto> sample_branch] ?j)"
    using branch_step.attached [where w = "?w ?s ?b ?j" and bid = "''b''" and jid = "''j''"]
    by (simp add: attach_def sample_branch_def)
  show ?thesis unfolding sample_manager_def
    using 1 2 3 4 by (meson rtranclp.rtrancl_into_rtrancl rtranclp.rtrancl_refl)
qed

subsection \<open>Properties\<close>

text \<open>The branch completes: its call passes the three critical sections and calls the handler.\<close>

definition fired_join :: "unit JoinPoint" where
  "fired_join = (sample_join [''b''])\<lparr>jp_CompletedBranches := [''b''], jp_Results := [''b'' \<mapsto> None],
     jp_Status := ''completed'', jp_CompletedAt := Some 9\<rparr>"

definition fired_world :: "unit World" where
  "fired_world = \<lparr>bw_mgr = (sample_manager [''b''])\<lparr>
       bm_activeBranches := [''b'' \<mapsto> sample_branch\<lparr>be_CompletedAt := Some 8, be_Status := ''completed''\<rparr>],
       bm_joinPoints := [''j'' \<mapsto> fired_join]\<rparr>, bw_threads = {#}, bw_timers = {#}, bw_calls = [''j'']\<rparr>"

lemma fired_world_reachable: "branch_reachable fired_world"
proof -
  let ?start = "\<lparr>bw_mgr = sample_manager [''b''], bw_threads = {#}, bw_timers = {#}, bw_calls = []\<rparr> :: unit World"
  let ?b = "[''b'' \<mapsto> sample_branch\<lparr>be_CompletedAt := Some 8, be_Status := ''completed''\<rparr>]"
  let ?w = "\<lambda>j ts. \<lparr>bw_mgr = (sample_manager [''b''])\<lparr>bm_activeBranches := ?b, bm_joinPoints := [''j'' \<mapsto> j]\<rparr>,
    bw_threads = ts, bw_timers = {#}, bw_calls = []\<rparr> :: unit World"
  let ?j = "(sample_join [''b''])\<lparr>jp_CompletedBranches := [''b''], jp_Results := [''b'' \<mapsto> None]\<rparr>"
  have "complete_update 8 ''b'' None None (bw_mgr ?start) = (Inr ''j'', bw_mgr (?w (sample_join [''b'']) {#}))"
    by (simp add: complete_update_def sample_manager_def sample_branch_def Let_def)
  from branch_step.complete_join [OF this]
  have 1: "branch_step ?start (?w (sample_join [''b'']) {#AtAppend ''j'' ''b'' None#})" by simp
  have "join_append ''j'' ''b'' None (bw_mgr (?w (sample_join [''b'']) {#AtAppend ''j'' ''b'' None#}))
      = (Inr True, bw_mgr (?w ?j {#}))"
    by (simp add: join_append_def Let_def evaluateJoinCondition_def sample_join_def sample_manager_def)
  from branch_step.append [OF _ this, of "{#}"]
  have 2: "branch_step (?w (sample_join [''b'']) {#AtAppend ''j'' ''b'' None#}) (?w ?j {#AtFinish ''j''#})" by simp
  have "join_finish 9 ''j'' (bw_mgr (?w ?j {#AtFinish ''j''#})) = (Some ((), fired_join), bw_mgr (?w fired_join {#}))"
    by (simp add: join_finish_def Let_def fired_join_def sample_join_def sample_manager_def)
  from branch_step.finish [OF _ this, of "{#}"]
  have 3: "branch_step (?w ?j {#AtFinish ''j''#}) (?w fired_join {#AtCall () ''j''#})" by simp
  have 4: "branch_step (?w fired_join {#AtCall () ''j''#}) fired_world"
    using branch_step.call [of "?w fired_join {#AtCall () ''j''#}" "()" "''j''" "{#}"] by (simp add: fired_world_def)
  from sample_manager_reachable [of "[''b'']"] 1 2 3 4 show ?thesis by (meson rtranclp.rtrancl_into_rtrancl)
qed

text \<open>
  C8: a join point fires once. In every interleaving of callers, cancellations, clean-ups and
  timers, the completion handler of a join point is called at most once, never for a join point
  that is waiting or has timed out, and exactly once when all calls have returned and it is
  completed; a status other than waiting, and its time, are final.
\<close>

theorem join_fires_once:
  assumes "branch_reachable w" and "bm_joinPoints (bw_mgr w) jid = Some j"
  shows "count_list (bw_calls w) jid \<le> 1
    \<and> (jp_Status j \<noteq> ''completed'' \<longrightarrow> jid \<notin> set (bw_calls w))
    \<and> (bw_threads w = {#} \<and> jp_Status j = ''completed'' \<and> jp_OnCompletion j \<noteq> None \<longrightarrow> count_list (bw_calls w) jid = 1)
    \<and> (jp_Status j \<noteq> ''waiting'' \<longrightarrow> (\<forall>w'. branch_step\<^sup>*\<^sup>* w w' \<longrightarrow>
         (\<exists>j'. bm_joinPoints (bw_mgr w') jid = Some j' \<and> jp_Status j' = jp_Status j \<and> jp_CompletedAt j' = jp_CompletedAt j)))"
proof -
  have inv: "count_list (bw_calls w) jid + pending_calls jid (bw_threads w)
      = (if jp_Status j = ''completed'' \<and> jp_OnCompletion j \<noteq> None then 1 else 0)"
    using join_inv_reachable [OF assms(1), of jid] assms(2) by (simp add: join_inv_def)
  then have "count_list (bw_calls w) jid \<le> 1" by (simp split: if_splits)
  moreover from inv have "jp_Status j \<noteq> ''completed'' \<longrightarrow> jid \<notin> set (bw_calls w)" by (auto simp: count_list_0_iff)
  moreover from inv have "bw_threads w = {#} \<and> jp_Status j = ''completed'' \<and> jp_OnCompletion j \<noteq> None
      \<longrightarrow> count_list (bw_calls w) jid = 1" by auto
  ultimately show ?thesis using status_final [OF _ assms(2)] by blast
qed

theorem join_fires_once_witness:
  "jp_Status fired_join = ''completed'' \<and> count_list (bw_calls fired_world) ''j'' = 1"
  using join_fires_once [OF fired_world_reachable, of "''j''" fired_join]
  by (simp add: fired_world_def fired_join_def sample_join_def)

text \<open>
  C26: no completion is lost. When no call is under way, a join point that is still waiting has no
  completion yet or its condition does not hold: two completions that meet at a join point never
  leave it waiting for each other.
\<close>

theorem join_not_lost:
  assumes "branch_reachable w" and "bm_joinPoints (bw_mgr w) jid = Some j" and "bw_threads w = {#}"
    and "jp_Status j = ''waiting''"
  shows "jp_CompletedBranches j = [] \<or> \<not> evaluateJoinCondition j"
  using join_inv_reachable [OF assms(1), of jid] assms(2-4) by (auto simp: join_inv_def)

theorem join_not_lost_witness:
  "jp_ExpectedBranches (sample_join [''b'']) = [''b'']
    \<and> (jp_CompletedBranches (sample_join [''b'']) = []) = (\<not> evaluateJoinCondition (sample_join [''b'']))"
  using join_not_lost [OF sample_manager_reachable [of "[''b'']"], of "''j''" "sample_join [''b'']"]
  by (simp add: sample_manager_def, simp add: sample_join_def evaluateJoinCondition_def)

text \<open>Completions one after the other, with the handler calls they make.\<close>

definition complete_one ::
  "('h \<Rightarrow> 'h JoinPoint \<Rightarrow> string option) \<Rightarrow> int \<Rightarrow> int \<Rightarrow> string \<times> gstate option \<times> string option
   \<Rightarrow> 'h JoinPoint list \<times> 'h BranchManager \<Rightarrow> 'h JoinPoint list \<times> 'h BranchManager" where
  "complete_one run now now' c s =
     (case c of (bid, results, err) \<Rightarrow>
        case CompleteBranch run now now' bid results err (snd s) of (_, calls, bm') \<Rightarrow> (fst s @ calls, bm'))"

definition complete_all ::
  "('h \<Rightarrow> 'h JoinPoint \<Rightarrow> string option) \<Rightarrow> int \<Rightarrow> int \<Rightarrow> (string \<times> gstate option \<times> string option) list
   \<Rightarrow> 'h BranchManager \<Rightarrow> 'h JoinPoint list \<times> 'h BranchManager" where
  "complete_all run now now' cs bm = fold (complete_one run now now') cs ([], bm)"

definition fires :: "'h JoinPoint \<Rightarrow> nat \<Rightarrow> bool" where
  "fires j n \<longleftrightarrow> 0 < n \<and> (jp_Strategy j \<in> {''wait_any'', ''wait_first''} \<or> length (jp_ExpectedBranches j) \<le> n)"

lemma complete_one_attached:
  assumes "bm_activeBranches bm bid = Some b" and "be_JoinPointID b = jid" and "jid \<noteq> []"
    and "bm_joinPoints bm jid = Some j"
  shows "\<exists>bm'. complete_one run now now' (bid, results, err) (calls, bm)
      = (calls @ (if evaluateJoinCondition (appended bid results j) \<and> jp_Status j = ''waiting'' \<and> jp_OnCompletion j \<noteq> None
                  then [(appended bid results j)\<lparr>jp_Status := ''completed'', jp_CompletedAt := Some now'\<rparr>] else []), bm')
    \<and> bm_joinPoints bm' jid = Some (if evaluateJoinCondition (appended bid results j) \<and> jp_Status j = ''waiting''
         then (appended bid results j)\<lparr>jp_Status := ''completed'', jp_CompletedAt := Some now'\<rparr>
         else appended bid results j)
    \<and> (\<forall>k. map_option be_JoinPointID (bm_activeBranches bm' k) = map_option be_JoinPointID (bm_activeBranches bm k))"
proof -
  define b2 where "b2 = (case err of
      Some e \<Rightarrow> b\<lparr>be_CompletedAt := Some now, be_Results := results, be_Status := ''failed'', be_Error := e\<rparr>
    | None \<Rightarrow> b\<lparr>be_CompletedAt := Some now, be_Results := results, be_Status := ''completed''\<rparr>)"
  define bm1 where "bm1 = bm\<lparr>bm_activeBranches := (bm_activeBranches bm)(bid \<mapsto> b2)\<rparr>"
  have "be_JoinPointID b2 = jid" using assms(2) by (simp add: b2_def split: option.splits)
  then have u: "complete_update now bid results err bm = (Inr jid, bm1)" "bm_joinPoints bm1 jid = Some j"
    "\<forall>k. map_option be_JoinPointID (bm_activeBranches bm1 k) = map_option be_JoinPointID (bm_activeBranches bm k)"
    using assms(1,2,4) by (simp_all add: complete_update_def Let_def b2_def bm1_def)
  define j1 where "j1 = appended bid results j"
  have st: "jp_Status j1 = jp_Status j" "jp_OnCompletion j1 = jp_OnCompletion j" by (simp_all add: j1_def)
  note app = join_append_Some [OF u(2), of bid results, folded j1_def]
  note defs = complete_one_def CompleteBranch_def u(1) app processBranchCompletion_def completeJoinPoint_def join_finish_def
    Let_def
  show ?thesis unfolding j1_def [symmetric]
  proof (cases "evaluateJoinCondition j1 \<and> jp_Status j = ''waiting''")
    case True
    then show "\<exists>bm'. complete_one run now now' (bid, results, err) (calls, bm)
      = (calls @ (if evaluateJoinCondition j1 \<and> jp_Status j = ''waiting'' \<and> jp_OnCompletion j \<noteq> None
                  then [j1\<lparr>jp_Status := ''completed'', jp_CompletedAt := Some now'\<rparr>] else []), bm')
      \<and> bm_joinPoints bm' jid = Some (if evaluateJoinCondition j1 \<and> jp_Status j = ''waiting''
         then j1\<lparr>jp_Status := ''completed'', jp_CompletedAt := Some now'\<rparr> else j1)
      \<and> (\<forall>k. map_option be_JoinPointID (bm_activeBranches bm' k) = map_option be_JoinPointID (bm_activeBranches bm k))"
      using assms(3) u(3) st by (cases "jp_OnCompletion j") (simp_all add: defs)
  next
    case False
    then show "\<exists>bm'. complete_one run now now' (bid, results, err) (calls, bm)
      = (calls @ (if evaluateJoinCondition j1 \<and> jp_Status j = ''waiting'' \<and> jp_OnCompletion j \<noteq> None
                  then [j1\<lparr>jp_Status := ''completed'', jp_CompletedAt := Some now'\<rparr>] else []), bm')
      \<and> bm_joinPoints bm' jid = Some (if evaluateJoinCondition j1 \<and> jp_Status j = ''waiting''
         then j1\<lparr>jp_Status := ''completed'', jp_CompletedAt := Some now'\<rparr> else j1)
      \<and> (\<forall>k. map_option be_JoinPointID (bm_activeBranches bm' k) = map_option be_JoinPointID (bm_activeBranches bm k))"
      using assms(3) u(3) st by (cases "evaluateJoinCondition j1") (simp_all add: defs)
  qed
qed

text \<open>
  what the strategies wait for. A join point completes with the first completion under
  \<^verbatim>\<open>wait_any\<close> and \<^verbatim>\<open>wait_first\<close>, and otherwise with the \<open>n\<close>-th, where \<open>n\<close> is the
  number of expected branches (at least one); it collects the last result of each branch, and calls
  its handler once. Completions are counted, not branches: one branch that completes twice
  completes a join of two.
\<close>

theorem join_counts_completions:
  assumes "bm_joinPoints bm jid = Some j" and "jid \<noteq> []" and "jp_Status j = ''waiting''" and "jp_CompletedBranches j = []"
    and "\<forall>c \<in> set cs. map_option be_JoinPointID (bm_activeBranches bm (fst c)) = Some jid"
  shows "\<exists>j'. bm_joinPoints (snd (complete_all run now now' cs bm)) jid = Some j'
    \<and> jp_CompletedBranches j' = map fst cs
    \<and> jp_Results j' = jp_Results j ++ map_of (rev (map (\<lambda>c. (fst c, fst (snd c))) cs))
    \<and> jp_Status j' = (if fires j (length cs) then ''completed'' else ''waiting'')
    \<and> length (fst (complete_all run now now' cs bm)) = (if fires j (length cs) \<and> jp_OnCompletion j \<noteq> None then 1 else 0)"
proof -
  have "\<exists>calls bm' j'. complete_all run now now' cs bm = (calls, bm') \<and> bm_joinPoints bm' jid = Some j'
    \<and> jp_CompletedBranches j' = map fst cs
    \<and> jp_Results j' = jp_Results j ++ map_of (rev (map (\<lambda>c. (fst c, fst (snd c))) cs))
    \<and> jp_Status j' = (if fires j (length cs) then ''completed'' else ''waiting'')
    \<and> length calls = (if fires j (length cs) \<and> jp_OnCompletion j \<noteq> None then 1 else 0)
    \<and> jp_Strategy j' = jp_Strategy j \<and> jp_ExpectedBranches j' = jp_ExpectedBranches j \<and> jp_OnCompletion j' = jp_OnCompletion j
    \<and> (\<forall>k. map_option be_JoinPointID (bm_activeBranches bm' k) = map_option be_JoinPointID (bm_activeBranches bm k))"
    using assms(5)
  proof (induction cs rule: rev_induct)
    case Nil
    show ?case using assms(1,3,4) by (auto simp: complete_all_def fires_def)
  next
    case (snoc c cs)
    obtain bid results err where c: "c = (bid, results, err)" by (cases c)
    from snoc obtain calls bm' j' where IH: "complete_all run now now' cs bm = (calls, bm')" "bm_joinPoints bm' jid = Some j'"
      "jp_CompletedBranches j' = map fst cs" "jp_Results j' = jp_Results j ++ map_of (rev (map (\<lambda>c. (fst c, fst (snd c))) cs))"
      "jp_Status j' = (if fires j (length cs) then ''completed'' else ''waiting'')"
      "length calls = (if fires j (length cs) \<and> jp_OnCompletion j \<noteq> None then 1 else 0)"
      "jp_Strategy j' = jp_Strategy j" "jp_ExpectedBranches j' = jp_ExpectedBranches j" "jp_OnCompletion j' = jp_OnCompletion j"
      "\<And>k. map_option be_JoinPointID (bm_activeBranches bm' k) = map_option be_JoinPointID (bm_activeBranches bm k)"
      by auto
    have "map_option be_JoinPointID (bm_activeBranches bm' bid) = Some jid" using IH(10) snoc.prems c by simp
    then obtain b where b: "bm_activeBranches bm' bid = Some b" "be_JoinPointID b = jid" by auto
    have all: "complete_all run now now' (cs @ [c]) bm = complete_one run now now' (bid, results, err) (calls, bm')"
      using IH(1) c by (simp add: complete_all_def)
    have cond: "evaluateJoinCondition (appended bid results j') = fires j (length (cs @ [c]))"
      using IH(3,7,8) by (auto simp: join_condition fires_def)
    have mono: "fires j (length cs) \<Longrightarrow> fires j (length (cs @ [c]))" by (auto simp: fires_def)
    define done2 where "done2 \<longleftrightarrow> fires j (length (cs @ [c])) \<and> jp_Status j' = ''waiting''"
    define j2 where "j2 = (if done2 then (appended bid results j')\<lparr>jp_Status := ''completed'', jp_CompletedAt := Some now'\<rparr>
      else appended bid results j')"
    define calls2 where "calls2 = calls @ (if done2 \<and> jp_OnCompletion j' \<noteq> None then [j2] else [])"
    have "\<exists>bm2. complete_all run now now' (cs @ [c]) bm = (calls2, bm2) \<and> bm_joinPoints bm2 jid = Some j2
        \<and> (\<forall>k. map_option be_JoinPointID (bm_activeBranches bm2 k) = map_option be_JoinPointID (bm_activeBranches bm' k))"
      using complete_one_attached [OF b assms(2) IH(2), of run now now' results err calls, unfolded cond]
      unfolding all calls2_def j2_def done2_def by (simp cong: if_cong conj_cong)
    then obtain bm2 where "complete_all run now now' (cs @ [c]) bm = (calls2, bm2)" "bm_joinPoints bm2 jid = Some j2"
      "\<And>k. map_option be_JoinPointID (bm_activeBranches bm2 k) = map_option be_JoinPointID (bm_activeBranches bm k)"
      using IH(10) by auto
    moreover have "jp_CompletedBranches j2 = map fst (cs @ [c])" using IH(3) c by (simp add: j2_def)
    moreover have "jp_Results j2 = jp_Results j ++ map_of (rev (map (\<lambda>c. (fst c, fst (snd c))) (cs @ [c])))"
      using IH(4) c by (simp add: j2_def)
    moreover have "jp_Strategy j2 = jp_Strategy j" "jp_ExpectedBranches j2 = jp_ExpectedBranches j"
      "jp_OnCompletion j2 = jp_OnCompletion j" using IH(7-9) by (simp_all add: j2_def)
    moreover have "jp_Status j2 = (if fires j (length (cs @ [c])) then ''completed'' else ''waiting'')"
      using IH(5) mono by (cases "fires j (length cs)") (simp_all add: j2_def done2_def)
    moreover have "length calls2 = (if fires j (length (cs @ [c])) \<and> jp_OnCompletion j \<noteq> None then 1 else 0)"
      using IH(5,6,9) mono by (cases "fires j (length cs)") (simp_all add: calls2_def done2_def)
    ultimately show ?case by blast
  qed
  then show ?thesis by auto
qed

theorem join_counts_completions_witness:
  "\<exists>j'. bm_joinPoints (snd (complete_all (\<lambda>h j. None) 5 6 [(''b'', None, None), (''b'', None, None)]
       (sample_manager [''b'', ''c'']))) ''j'' = Some j' \<and> jp_Status j' = ''completed''"
  using join_counts_completions [of "sample_manager [''b'', ''c'']" "''j''" "sample_join [''b'', ''c'']"
      "[(''b'', None, None), (''b'', None, None)]" "\<lambda>h j. None" 5 6]
  by (auto simp: sample_manager_def sample_join_def sample_branch_def fires_def)

text \<open>Cancellations and completions of one branch.\<close>

datatype branch_op = OpCancel int | OpComplete int int "gstate option" "string option"

fun branch_ops ::
  "('h \<Rightarrow> 'h JoinPoint \<Rightarrow> string option) \<Rightarrow> string \<Rightarrow> branch_op list \<Rightarrow> 'h BranchManager \<Rightarrow> 'h BranchManager" where
  "branch_ops run bid [] bm = bm"
| "branch_ops run bid (OpCancel now # ops) bm = branch_ops run bid ops (snd (CancelBranch now bid bm))"
| "branch_ops run bid (OpComplete now now' results err # ops) bm =
     branch_ops run bid ops (snd (snd (CompleteBranch run now now' bid results err bm)))"

fun op_status :: "branch_op \<Rightarrow> string" where
  "op_status (OpCancel now) = ''cancelled''"
| "op_status (OpComplete now now' results err) = (if err = None then ''completed'' else ''failed'')"

lemma CompleteBranch_activeBranches:
  "bm_activeBranches (snd (snd (CompleteBranch run now now' bid results err bm)))
     = bm_activeBranches (snd (complete_update now bid results err bm))"
proof -
  have append: "join_append jid bid results m = (r, m') \<Longrightarrow> bm_activeBranches m' = bm_activeBranches m" for jid m m' r
    by (auto simp: join_append_def Let_def split: option.splits)
  have finish: "join_finish now' jid m = (r, m') \<Longrightarrow> bm_activeBranches m' = bm_activeBranches m" for jid m m' r
    by (auto simp: join_finish_def Let_def split: option.splits if_splits)
  have comp: "bm_activeBranches (snd (snd (completeJoinPoint run now' jid m))) = bm_activeBranches m" for jid m
    by (cases "join_finish now' jid m") (auto simp: completeJoinPoint_def finish split: option.splits)
  have proc: "bm_activeBranches (snd (snd (processBranchCompletion run now' jid bid results m))) = bm_activeBranches m" for jid m
    by (cases "join_append jid bid results m") (auto simp: processBranchCompletion_def append comp split: sum.splits)
  show ?thesis by (simp add: CompleteBranch_def proc split: prod.splits sum.splits)
qed

lemma branch_ops_status:
  "bm_activeBranches bm bid = Some b \<Longrightarrow>
     map_option be_Status (bm_activeBranches (branch_ops run bid ops bm) bid)
       = Some (if ops = [] then be_Status b else op_status (last ops))"
proof (induction run bid ops bm arbitrary: b rule: branch_ops.induct)
  case (2 run bid now ops bm)
  let ?b = "b\<lparr>be_Status := ''cancelled'', be_CompletedAt := Some now\<rparr>"
  have "bm_activeBranches (snd (CancelBranch now bid bm)) bid = Some ?b" using 2(2) by (simp add: CancelBranch_def)
  from 2(1) [OF this] show ?case by (cases "ops = []") auto
next
  case (3 run bid now now' results err ops bm)
  obtain b' where b': "bm_activeBranches (snd (complete_update now bid results err bm)) bid = Some b'"
    "be_Status b' = (if err = None then ''completed'' else ''failed'')"
    using 3(2) by (simp add: complete_update_def Let_def split: option.splits)
  from 3(1) [OF b'(1) [folded CompleteBranch_activeBranches [of run now now']]] b'(2) show ?case by (cases "ops = []") auto
qed simp

text \<open>
  the last word. The status of a branch is that of the last operation on it, whatever came
  before: a cancelled branch that completes is completed, and a completed or failed one can be
  cancelled or completed again.
\<close>

theorem branch_last_word:
  assumes "bm_activeBranches bm bid = Some b"
  shows "map_option be_Status (bm_activeBranches (branch_ops run bid ops bm) bid)
      = Some (if ops = [] then be_Status b else op_status (last ops))"
  by (rule branch_ops_status [OF assms])

theorem branch_last_word_witness:
  "map_option be_Status (bm_activeBranches (branch_ops (\<lambda>h j. None) ''b'' [OpCancel 1, OpComplete 2 3 None None]
     (sample_manager [''b''])) ''b'') = Some ''completed''"
  using branch_last_word [of "sample_manager [''b'']" "''b''" sample_branch "\<lambda>h j. None"
      "[OpCancel 1, OpComplete 2 3 None None]"]
  by (simp add: sample_manager_def)

text \<open>What the conditions say.\<close>

lemma hasNestedValue_dom: "hasNestedValue data path \<longleftrightarrow> path \<in> dom data"
  by (auto simp: hasNestedValue_def split: option.splits gval.splits)

lemma evaluateDataCondition_dom: "evaluateDataCondition paths data = Inr (set paths \<subseteq> dom data)"
  by (induction paths) (auto simp: hasNestedValue_dom)

lemma all_in_subset: "all_in ts seen \<longleftrightarrow> set ts \<subseteq> set seen"
  by (induction ts) auto

lemma event_set_types: "t \<in> set (event_set evs) \<longleftrightarrow> (\<exists>m. VMap m \<in> set evs \<and> m ''type'' = Some (VStr t))"
proof (induction evs)
  case (Cons ev evs)
  show ?case
  proof (cases ev)
    case (VMap m)
    show ?thesis
    proof (cases "\<exists>s. m ''type'' = Some (VStr s)")
      case True
      then show ?thesis using Cons VMap by auto
    next
      case False
      then have "event_set (ev # evs) = event_set evs" using VMap by (auto split: option.splits gval.splits)
      then show ?thesis using Cons VMap False by auto
    qed
  qed (use Cons in auto)
qed simp

text \<open>
  when a branch is created. A branch of a known specification is created exactly if its
  condition is ``always'', a conditional expression other than ``false'' (any text is true), data
  paths that are all keys of the context, or event types that all occur among its events; the new
  branch is pending and active under its ID, and otherwise nothing changes.
\<close>

theorem branch_creation:
  assumes "bm_branches bm sid = Some spec"
  shows "(\<exists>b. fst (CreateBranch uuid now sid eid gid tid ctx bm) = Inr b) \<longleftrightarrow>
      (let cnd = bs_Condition spec in
         bcd_Type cnd = ''always''
       \<or> bcd_Type cnd = ''conditional'' \<and> bcd_Expression cnd \<noteq> ''false''
       \<or> bcd_Type cnd = ''data_driven'' \<and> set (bcd_InputPaths cnd) \<subseteq> dom (nil_map ctx)
       \<or> bcd_Type cnd = ''event_driven'' \<and> (\<forall>t \<in> set (bcd_EventTypes cnd).
           \<exists>evs m. nil_map ctx ''events'' = Some (VList evs) \<and> VMap m \<in> set evs \<and> m ''type'' = Some (VStr t)))"
    and "\<forall>b. fst (CreateBranch uuid now sid eid gid tid ctx bm) = Inr b \<longrightarrow>
      be_Status b = ''pending'' \<and> GetActiveBranch uuid (snd (CreateBranch uuid now sid eid gid tid ctx bm)) = Inr b"
    and "\<forall>err. fst (CreateBranch uuid now sid eid gid tid ctx bm) = Inl err \<longrightarrow>
      snd (CreateBranch uuid now sid eid gid tid ctx bm) = bm"
proof -
  let ?cnd = "bs_Condition spec"
  have events: "evaluateEventCondition ts c = Inr (\<forall>t \<in> set ts. \<exists>evs m. c ''events'' = Some (VList evs)
      \<and> VMap m \<in> set evs \<and> m ''type'' = Some (VStr t))" for ts c
  proof (cases "\<exists>evs. c ''events'' = Some (VList evs)")
    case True
    then show ?thesis by (auto simp: evaluateEventCondition_def all_in_subset event_set_types subset_eq)
  next
    case False
    then have "evaluateEventCondition ts c = Inr (ts = [])"
      by (auto simp: evaluateEventCondition_def split: option.splits gval.splits)
    then show ?thesis using False by (cases ts) auto
  qed
  have ok: "(\<exists>b. fst (CreateBranch uuid now sid eid gid tid ctx bm) = Inr b) \<longleftrightarrow> evaluateBranchCondition ?cnd ctx = Inr True"
    using assms by (auto simp: CreateBranch_def Let_def split: sum.splits bool.splits)
  show "(\<exists>b. fst (CreateBranch uuid now sid eid gid tid ctx bm) = Inr b) \<longleftrightarrow>
      (let cnd = bs_Condition spec in
         bcd_Type cnd = ''always''
       \<or> bcd_Type cnd = ''conditional'' \<and> bcd_Expression cnd \<noteq> ''false''
       \<or> bcd_Type cnd = ''data_driven'' \<and> set (bcd_InputPaths cnd) \<subseteq> dom (nil_map ctx)
       \<or> bcd_Type cnd = ''event_driven'' \<and> (\<forall>t \<in> set (bcd_EventTypes cnd).
           \<exists>evs m. nil_map ctx ''events'' = Some (VList evs) \<and> VMap m \<in> set evs \<and> m ''type'' = Some (VStr t)))"
    unfolding ok
    by (auto simp: evaluateBranchCondition_def evaluateExpression_def evaluateDataCondition_dom events Let_def)
qed (use assms in \<open>auto simp: CreateBranch_def GetActiveBranch_def Let_def split: sum.splits bool.splits\<close>)

theorem branch_creation_witness:
  "\<exists>b. fst (CreateBranch ''u'' 0 ''s'' ''e'' ''g'' ''t'' None (sample_manager [])) = Inr b"
  using branch_creation(1) [of "sample_manager []" "''s''" sample_spec "''u''" 0 "''e''" "''g''" "''t''" None]
  by (simp add: sample_manager_def sample_spec_def)

end
