(* ===== verification/Interrupts.thy ===== *)
theory Interrupts
  imports BranchManager MemorySaverProps ResumeProps
begin

section \<open>Interrupts (internal/app/usecases/interrupt\_manager.go)\<close>

text \<open>
  Human-in-the-loop interrupts. A request saves a checkpoint with the saver the manager was built
  with (the operation \<open>save\<close>, with the saver's state in the manager) and registers a pending
  interrupt; a response is looked up under the lock, but checked, written and sent without it: the
  three steps of \<^verbatim>\<open>RespondToInterrupt\<close> are separate definitions. The response channel
  has room for one response. Nothing reads \<^verbatim>\<open>Timeout\<close>,
  \<^verbatim>\<open>interruptPoints\<close> or \<^verbatim>\<open>defaultTimeout\<close>, and nothing sets
  \<^verbatim>\<open>CancelFunc\<close>.
\<close>

subsection \<open>State\<close>

record InterruptResponse =
  ir_Approved :: bool
  ir_Data :: "gstate option"
  ir_Message :: string
  ir_UserID :: string

record InterruptRequest =
  iq_NodeID :: string
  iq_InterruptType :: string
  iq_Message :: string
  iq_RequiredInput :: "gstate option"
  iq_Timeout :: int
  iq_UserID :: string

record InterruptContext =
  ic_ID :: string
  ic_ExecutionID :: string
  ic_GraphID :: string
  ic_ThreadID :: string
  ic_NodeID :: string
  ic_InterruptType :: string
  ic_Status :: string
  ic_RequestedAt :: int
  ic_RespondedAt :: "int option"
  ic_Timeout :: int
  ic_UserID :: string
  ic_Message :: string
  ic_RequiredInput :: "gstate option"
  ic_UserResponse :: "gstate option"
  ic_CheckpointID :: string
  ic_ResumeData :: "gstate option"
  ic_ResponseChannel :: "InterruptResponse list"

record 's InterruptManager =
  im_interrupts :: "string \<rightharpoonup> InterruptContext"
  im_interruptPoints :: "string \<rightharpoonup> bool"
  im_checkpointSaver :: 's
  im_defaultTimeout :: int

definition NewInterruptManager :: "'s \<Rightarrow> 's InterruptManager" where
  "NewInterruptManager saver = \<lparr>im_interrupts = Map.empty, im_interruptPoints = Map.empty,
     im_checkpointSaver = saver, im_defaultTimeout = minutes 5\<rparr>"

subsection \<open>Requests\<close>

definition interrupt_checkpoint :: "string \<Rightarrow> int \<Rightarrow> string \<Rightarrow> string \<Rightarrow> string \<Rightarrow> InterruptRequest \<Rightarrow> Checkpoint" where
  "interrupt_checkpoint cpid now eid gid tid req =
     \<lparr>cp_ID = cpid, cp_GraphID = gid, cp_ThreadID = tid,
      cp_State = Some [''interrupt_requested'' \<mapsto> VBool True, ''interrupt_type'' \<mapsto> VStr (iq_InterruptType req),
        ''execution_id'' \<mapsto> VStr eid, ''node_id'' \<mapsto> VStr (iq_NodeID req)],
      cp_Metadata = \<lparr>md_Step = 0, md_Source = ''interrupt_manager'', md_Writes = None, md_UserID = [],
        md_CreatedBy = ''system'', md_Tags = []\<rparr>,
      cp_Timestamp = now, cp_Version = ''1.0''\<rparr>"

text \<open>\<open>cpid\<close> and \<open>iid\<close> are the two UUIDs, \<open>now\<close> and \<open>now'\<close> the clock readings.\<close>

definition RequestInterrupt ::
  "('env \<Rightarrow> Checkpoint \<Rightarrow> 's \<Rightarrow> ('e, unit) outcome \<times> 's) \<Rightarrow> 'env \<Rightarrow> string \<Rightarrow> string \<Rightarrow> int \<Rightarrow> int
   \<Rightarrow> string \<Rightarrow> string \<Rightarrow> string \<Rightarrow> InterruptRequest \<Rightarrow> 's InterruptManager
   \<Rightarrow> ('e, InterruptContext) outcome \<times> 's InterruptManager" where
  "RequestInterrupt save env cpid iid now now' eid gid tid req im =
     (case save env (interrupt_checkpoint cpid now eid gid tid req) (im_checkpointSaver im) of
        (Fails err, s') \<Rightarrow> (Fails err, im\<lparr>im_checkpointSaver := s'\<rparr>)
      | (Blocks, s') \<Rightarrow> (Blocks, im\<lparr>im_checkpointSaver := s'\<rparr>)
      | (Deadlocks, s') \<Rightarrow> (Deadlocks, im\<lparr>im_checkpointSaver := s'\<rparr>)
      | (Panics p, s') \<Rightarrow> (Panics p, im\<lparr>im_checkpointSaver := s'\<rparr>)
      | (Returns _, s') \<Rightarrow>
          (let ic = \<lparr>ic_ID = iid, ic_ExecutionID = eid, ic_GraphID = gid, ic_ThreadID = tid,
                 ic_NodeID = iq_NodeID req, ic_InterruptType = iq_InterruptType req, ic_Status = ''pending'',
                 ic_RequestedAt = now', ic_RespondedAt = None, ic_Timeout = iq_Timeout req,
                 ic_UserID = iq_UserID req, ic_Message = iq_Message req,
                 ic_RequiredInput = iq_RequiredInput req, ic_UserResponse = None, ic_CheckpointID = cpid,
                 ic_ResumeData = None, ic_ResponseChannel = []\<rparr>
           in (Returns ic, im\<lparr>im_checkpointSaver := s', im_interrupts := (im_interrupts im)(iid \<mapsto> ic)\<rparr>)))"

subsection \<open>Responses\<close>

definition respond_check :: "string \<Rightarrow> 's InterruptManager \<Rightarrow> string option" where
  "respond_check iid im =
     (case im_interrupts im iid of
        None \<Rightarrow> Some ''interrupt not found''
      | Some ic \<Rightarrow> if ic_Status ic \<noteq> ''pending'' then Some ''interrupt already resolved'' else None)"

definition respond_write :: "int \<Rightarrow> string \<Rightarrow> InterruptResponse \<Rightarrow> 's InterruptManager \<Rightarrow> 's InterruptManager" where
  "respond_write now iid r im = im\<lparr>im_interrupts := (im_interrupts im)(iid := map_option
     (\<lambda>ic. ic\<lparr>ic_RespondedAt := Some now, ic_UserResponse := ir_Data r,
              ic_Status := (if ir_Approved r then ''approved'' else ''rejected'')\<rparr>) (im_interrupts im iid))\<rparr>"

definition respond_send :: "string \<Rightarrow> InterruptResponse \<Rightarrow> 's InterruptManager \<Rightarrow> 's InterruptManager" where
  "respond_send iid r im = im\<lparr>im_interrupts := (im_interrupts im)(iid := map_option
     (\<lambda>ic. if length (ic_ResponseChannel ic) < 1 then ic\<lparr>ic_ResponseChannel := ic_ResponseChannel ic @ [r]\<rparr> else ic)
     (im_interrupts im iid))\<rparr>"

definition RespondToInterrupt ::
  "int \<Rightarrow> string \<Rightarrow> InterruptResponse \<Rightarrow> 's InterruptManager \<Rightarrow> string option \<times> 's InterruptManager" where
  "RespondToInterrupt now iid r im =
     (case respond_check iid im of
        Some err \<Rightarrow> (Some err, im)
      | None \<Rightarrow> (None, respond_send iid r (respond_write now iid r im)))"

text \<open>
  Responders at work concurrently on one interrupt, the first with response \<open>rs ! 0\<close> and so on: each
  event is one step of one of them. A responder whose check failed has returned its error.
\<close>

datatype respond_event = DoCheck nat | DoWrite nat | DoSend nat

datatype respond_phase = Start | Checked | Written | Answered "string option"

definition respond_event ::
  "int \<Rightarrow> string \<Rightarrow> InterruptResponse list \<Rightarrow> respond_event \<Rightarrow> respond_phase list \<times> 's InterruptManager
   \<Rightarrow> respond_phase list \<times> 's InterruptManager" where
  "respond_event now iid rs ev w =
     (case w of (ps, im) \<Rightarrow>
        (case ev of
           DoCheck i \<Rightarrow> if i < length ps \<and> ps ! i = Start
             then (ps[i := (case respond_check iid im of None \<Rightarrow> Checked | Some err \<Rightarrow> Answered (Some err))], im) else w
         | DoWrite i \<Rightarrow> if i < length ps \<and> ps ! i = Checked
             then (ps[i := Written], respond_write now iid (rs ! i) im) else w
         | DoSend i \<Rightarrow> if i < length ps \<and> ps ! i = Written
             then (ps[i := Answered None], respond_send iid (rs ! i) im) else w))"

definition respond_run ::
  "int \<Rightarrow> string \<Rightarrow> InterruptResponse list \<Rightarrow> respond_event list \<Rightarrow> 's InterruptManager
   \<Rightarrow> respond_phase list \<times> 's InterruptManager" where
  "respond_run now iid rs evs im = fold (respond_event now iid rs) evs (replicate (length rs) Start, im)"

subsection \<open>The executor with interrupts\<close>

definition interrupt_key :: "string \<times> string" where
  "interrupt_key = (''interruptManagerKey'', ''interrupt_manager'')"

definition InterruptAwareExecutor :: "'v \<Rightarrow> ('v, 'q, 'r, 't, 's) GraphExecutor \<Rightarrow> ('v, 'q, 'r, 't, 's) GraphExecutor" where
  "InterruptAwareExecutor im base =
     \<lparr>gx_Execute = (\<lambda>ctx req. gx_Execute base (ctx(interrupt_key \<mapsto> im)) req),
      gx_Resume = (\<lambda>ctx cid req. gx_Resume base (ctx(interrupt_key \<mapsto> im)) cid req),
      gx_Stop = gx_Stop base, gx_GetStatus = gx_GetStatus base\<rparr>"

subsection \<open>Properties\<close>

text \<open>
  the first response decides. Of responses given one after the other to a pending interrupt,
  the first is recorded, sent to the channel and answered without an error; all later ones are
  refused and change nothing.
\<close>

theorem first_response_decides:
  assumes "im_interrupts im iid = Some ic" and "ic_Status ic = ''pending''" and "ic_ResponseChannel ic = []"
  shows "\<exists>ic'. im_interrupts (fold (\<lambda>(now, r) im. snd (RespondToInterrupt now iid r im)) rest
        (snd (RespondToInterrupt now iid r im))) iid = Some ic'
      \<and> ic_Status ic' = (if ir_Approved r then ''approved'' else ''rejected'') \<and> ic_UserResponse ic' = ir_Data r
      \<and> ic_RespondedAt ic' = Some now \<and> ic_ResponseChannel ic' = [r]
      \<and> (\<forall>now' r'. fst (RespondToInterrupt now' iid r' (fold (\<lambda>(now, r) im. snd (RespondToInterrupt now iid r im)) rest
           (snd (RespondToInterrupt now iid r im)))) = Some ''interrupt already resolved'')"
    and "fst (RespondToInterrupt now iid r im) = None"
proof -
  let ?ic = "ic\<lparr>ic_RespondedAt := Some now, ic_UserResponse := ir_Data r,
    ic_Status := (if ir_Approved r then ''approved'' else ''rejected''), ic_ResponseChannel := [r]\<rparr>"
  have first: "RespondToInterrupt now iid r im = (None, im\<lparr>im_interrupts := (im_interrupts im)(iid \<mapsto> ?ic)\<rparr>)"
    using assms by (simp add: RespondToInterrupt_def respond_check_def respond_write_def respond_send_def)
  have later: "RespondToInterrupt now' iid r' im' = (Some ''interrupt already resolved'', im')"
    if "im_interrupts im' iid = Some ?ic" for now' r' im'
    using that by (simp add: RespondToInterrupt_def respond_check_def)
  have fold: "fold (\<lambda>(now, r) im. snd (RespondToInterrupt now iid r im)) rest im' = im'"
    if "im_interrupts im' iid = Some ?ic" for im'
    using later [OF that] by (induction rest) auto
  show "fst (RespondToInterrupt now iid r im) = None" by (simp add: first)
  show "\<exists>ic'. im_interrupts (fold (\<lambda>(now, r) im. snd (RespondToInterrupt now iid r im)) rest
        (snd (RespondToInterrupt now iid r im))) iid = Some ic'
      \<and> ic_Status ic' = (if ir_Approved r then ''approved'' else ''rejected'') \<and> ic_UserResponse ic' = ir_Data r
      \<and> ic_RespondedAt ic' = Some now \<and> ic_ResponseChannel ic' = [r]
      \<and> (\<forall>now' r'. fst (RespondToInterrupt now' iid r' (fold (\<lambda>(now, r) im. snd (RespondToInterrupt now iid r im)) rest
           (snd (RespondToInterrupt now iid r im)))) = Some ''interrupt already resolved'')"
    by (simp add: first fold later)
qed

definition sample_interrupt :: InterruptContext where
  "sample_interrupt = \<lparr>ic_ID = ''i'', ic_ExecutionID = ''e'', ic_GraphID = ''g'', ic_ThreadID = ''t'', ic_NodeID = ''n'',
     ic_InterruptType = ''approval'', ic_Status = ''pending'', ic_RequestedAt = 0, ic_RespondedAt = None, ic_Timeout = 0,
     ic_UserID = [], ic_Message = [], ic_RequiredInput = None, ic_UserResponse = None, ic_CheckpointID = ''c'',
     ic_ResumeData = None, ic_ResponseChannel = []\<rparr>"

definition yes :: InterruptResponse where
  "yes = \<lparr>ir_Approved = True, ir_Data = None, ir_Message = [], ir_UserID = ''u1''\<rparr>"

definition no :: InterruptResponse where
  "no = \<lparr>ir_Approved = False, ir_Data = None, ir_Message = [], ir_UserID = ''u2''\<rparr>"

definition one_interrupt :: "unit InterruptManager" where
  "one_interrupt = (NewInterruptManager ())\<lparr>im_interrupts := [''i'' \<mapsto> sample_interrupt]\<rparr>"

theorem first_response_decides_witness:
  "fst (RespondToInterrupt 1 ''i'' yes one_interrupt) = None"
  by (rule first_response_decides(2) [of _ _ sample_interrupt]) (simp_all add: one_interrupt_def sample_interrupt_def)

text \<open>
  two responders can both win. If the second checks before the first has written, both return
  without an error; the interrupt ends with the status and data of the one that wrote last, but the
  channel delivers the response of the one that sent first: a reader of the channel sees an approval
  of an interrupt that is recorded as rejected.
\<close>

theorem responders_race:
  assumes "im_interrupts im iid = Some ic" and "ic_Status ic = ''pending''" and "ic_ResponseChannel ic = []"
  shows "\<exists>ic' im'. respond_run now iid [a, b] [DoCheck 0, DoCheck 1, DoWrite 0, DoSend 0, DoWrite 1, DoSend 1] im
        = ([Answered None, Answered None], im')
      \<and> im_interrupts im' iid = Some ic'
      \<and> ic_Status ic' = (if ir_Approved b then ''approved'' else ''rejected'') \<and> ic_UserResponse ic' = ir_Data b
      \<and> ic_ResponseChannel ic' = [a]"
  using assms
  by (simp add: respond_run_def respond_event_def respond_check_def respond_write_def respond_send_def)

theorem responders_race_witness:
  "\<exists>im' ic'. respond_run 1 ''i'' [yes, no] [DoCheck 0, DoCheck 1, DoWrite 0, DoSend 0, DoWrite 1, DoSend 1] one_interrupt
      = ([Answered None, Answered None], im') \<and> im_interrupts im' ''i'' = Some ic'
    \<and> ic_Status ic' = ''rejected'' \<and> ic_ResponseChannel ic' = [yes]"
  using responders_race [of one_interrupt "''i''" sample_interrupt 1 yes no]
  by (auto simp: one_interrupt_def sample_interrupt_def no_def)

subsection \<open>The checkpoint of an interrupt\<close>

context checkpoint_store
begin

lemma request_stored:
  assumes "inv (im_checkpointSaver im)" and "RequestInterrupt save env cpid iid now now' eid gid tid req im = (Returns ic, im')"
  shows "content (im_checkpointSaver im') cpid = Some (view (interrupt_checkpoint cpid now eid gid tid req))"
proof -
  from assms(2) obtain s' where s': "save env (interrupt_checkpoint cpid now eid gid tid req) (im_checkpointSaver im) = (Returns (), s')"
    and im': "im_checkpointSaver im' = s'"
    by (auto simp: RequestInterrupt_def Let_def split: outcome.splits prod.splits)
  from save_returns [OF assms(1) s'] im' show ?thesis by (simp add: interrupt_checkpoint_def)
qed

end

lemma RequestInterrupt_registers:
  "RequestInterrupt save env cpid iid now now' eid gid tid req im = (Returns ic, im') \<Longrightarrow>
     im_interrupts im' = (im_interrupts im)(iid \<mapsto> ic) \<and> ic_Status ic = ''pending'' \<and> ic_CheckpointID ic = cpid
       \<and> ic_ResponseChannel ic = []"
  "RequestInterrupt save env cpid iid now now' eid gid tid req im = (r, im') \<Longrightarrow> returned r = None \<Longrightarrow>
     im_interrupts im' = im_interrupts im"
  by (auto simp: RequestInterrupt_def Let_def returned_def split: outcome.splits prod.splits)

text \<open>
  an interrupt has its checkpoint. With the in-memory saver, a request that succeeds registers
  one pending interrupt, and the saver then holds a checkpoint of the interrupted node under the ID
  the interrupt names; a request whose save fails, blocks or panics registers nothing.
\<close>

theorem interrupt_has_checkpoint:
  assumes "reads_back x view (ms_serializer (im_checkpointSaver im))"
    and "RequestInterrupt (MemSave x) env cpid iid now now' eid gid tid req im = (r, im')"
  shows "case returned r of
      Some ic \<Rightarrow> im_interrupts im' = (im_interrupts im)(iid \<mapsto> ic) \<and> ic_Status ic = ''pending''
        \<and> mem_content x (im_checkpointSaver im') (ic_CheckpointID ic) = Some (view (interrupt_checkpoint cpid now eid gid tid req))
    | None \<Rightarrow> im_interrupts im' = im_interrupts im"
proof (cases "returned r")
  case None
  with RequestInterrupt_registers(2) [OF assms(2)] show ?thesis by simp
next
  case (Some ic)
  then have "r = Returns ic" by (simp add: returned_def split: outcome.splits)
  with assms(2) have req: "RequestInterrupt (MemSave x) env cpid iid now now' eid gid tid req im = (Returns ic, im')" by simp
  from mem.request_stored [of x view im, OF assms(1) req] RequestInterrupt_registers(1) [OF req] Some
  show ?thesis by simp
qed

theorem interrupt_has_checkpoint_witness:
  "\<exists>ic im'. RequestInterrupt (MemSave any_checkpoint) (sample_env 0 []) ''c'' ''i'' 1 2 ''e'' ''g'' ''t''
       \<lparr>iq_NodeID = ''n'', iq_InterruptType = ''approval'', iq_Message = [], iq_RequiredInput = None, iq_Timeout = 0, iq_UserID = []\<rparr>
       (NewInterruptManager (sample_saver\<lparr>ms_serializer := DefaultSerializer any_checkpoint\<rparr>)) = (Returns ic, im')
     \<and> im_interrupts im' ''i'' = Some ic"
proof -
  let ?req = "\<lparr>iq_NodeID = ''n'', iq_InterruptType = ''approval'', iq_Message = [], iq_RequiredInput = None, iq_Timeout = 0,
    iq_UserID = []\<rparr>"
  let ?s = "sample_saver\<lparr>ms_serializer := DefaultSerializer any_checkpoint\<rparr>"
  let ?cp = "interrupt_checkpoint ''c'' 1 ''e'' ''g'' ''t'' ?req"
  have "Deserialize any_checkpoint (DefaultSerializer any_checkpoint) d = Returns sample_checkpoint" for d
    by (simp add: Deserialize_def DefaultSerializer_def NewMsgPackCodec_def any_checkpoint_def one_checkpoint_def decompress_def
      decompressZstd_def CompressionNone_def CompressionGzip_def CompressionZstd_def)
  then have reads: "reads_back any_checkpoint (\<lambda>_. sample_checkpoint) (ms_serializer (im_checkpointSaver (NewInterruptManager ?s)))"
    by (simp add: reads_back_def NewInterruptManager_def)
  have "fst (MemSave any_checkpoint (sample_env 0 []) ?cp ?s) = Returns ()"
    using sample_max(1) by (simp add: MemSave_def Checkpoint_Validate_def interrupt_checkpoint_def any_Serialize
        checkMemoryLimit_def sample_max max_bytes_def Let_def with_order_def)
  then obtain s' where "MemSave any_checkpoint (sample_env 0 []) ?cp ?s = (Returns (), s')" by (metis prod.collapse)
  then obtain ic im' where req: "RequestInterrupt (MemSave any_checkpoint) (sample_env 0 []) ''c'' ''i'' 1 2 ''e'' ''g'' ''t'' ?req
      (NewInterruptManager ?s) = (Returns ic, im')"
    by (simp add: RequestInterrupt_def NewInterruptManager_def Let_def)
  from interrupt_has_checkpoint [OF reads req] req show ?thesis by (simp add: returned_def)
qed

subsection \<open>The wrapped executors\<close>

text \<open>The default executor behind the interface; it does not look at its context.\<close>

definition default_gx :: "'e exec_env \<Rightarrow> ('v, ExecutionRequest, exec_result, exec_error option, ('e, 'm) DefaultGraphExecutor) GraphExecutor" where
  "default_gx xe =
     \<lparr>gx_Execute = (\<lambda>ctx req ex. (case Execute xe req ex of (r, _, ex') \<Rightarrow> (r, ex'))),
      gx_Resume = (\<lambda>ctx cid req ex. Resume xe cid req ex),
      gx_Stop = (\<lambda>ctx eid ex. Exec_Stop eid ex),
      gx_GetStatus = (\<lambda>ctx eid ex. case GetStatus eid ex of Inl err \<Rightarrow> Returns (None, Some err) | Inr rs \<Rightarrow> Returns (Some rs, None))\<rparr>"

text \<open>
  the wrappers only add to the context. In either order they put both managers into the context
  of \<^verbatim>\<open>Execute\<close> and \<^verbatim>\<open>Resume\<close>, where \<^verbatim>\<open>GetBranchManager\<close> finds the branch
  manager; but the default executor never looks there, so wrapped with both it is the executor it
  was: graph executions neither branch nor stop at interrupts.
\<close>

theorem wrapped_executor_same:
  "BranchAwareExecutor bm (InterruptAwareExecutor im (default_gx xe)) = default_gx xe
    \<and> gx_Execute (BranchAwareExecutor bm (InterruptAwareExecutor im base)) ctx req
      = gx_Execute (InterruptAwareExecutor im (BranchAwareExecutor bm base)) ctx req
    \<and> GetBranchManager (ctx(branch_key \<mapsto> bm, interrupt_key \<mapsto> im)) = Some bm
    \<and> gx_Resume (BranchAwareExecutor bm (InterruptAwareExecutor im base)) ctx cid req
      = gx_Resume base (ctx(branch_key \<mapsto> bm, interrupt_key \<mapsto> im)) cid req"
  by (simp add: BranchAwareExecutor_def InterruptAwareExecutor_def default_gx_def GetBranchManager_def
      branch_key_def interrupt_key_def fun_upd_twist)

end
