(* ===== verification/PregelExecutor.thy ===== *)
theory PregelExecutor
  imports ResumeProps EngineShortestPath
begin

section \<open>The Pregel graph executor (internal/app/usecases/pregel\_executor.go)\<close>

text \<open>
  Graphs on the Pregel engine: every node becomes a vertex whose program runs the node's processor
  and sends its state along the edges. The components of the executor are those of the sequential
  one; the engine is the model of Engine, so its choices (orders of map loops, arrival of results,
  time-outs, the clock) are part of the environment of a call, as is which of the engine's events
  have been delivered to the step handler when the run returns. The workers that the engine starts
  are never stopped by this executor.
\<close>

subsection \<open>The vertex program of a node\<close>

fun merge_messages :: "PMessage list \<Rightarrow> gstate \<Rightarrow> gstate" where
  "merge_messages [] state = state"
| "merge_messages (msg # msgs) state =
     merge_messages msgs (case pm_Value msg of VMap m \<Rightarrow> state ++ m | _ \<Rightarrow> state)"

definition GraphVertex_Compute ::
  "processor \<Rightarrow> evaluator \<Rightarrow> Graph \<Rightarrow> string \<Rightarrow> gstate \<Rightarrow> PMessage list \<Rightarrow> (unit, ComputeResult) outcome" where
  "GraphVertex_Compute p nx g vid state0 messages =
     (case g_Nodes g vid of
        None \<Rightarrow> Returns \<lparr>cr_Arg = state0, cr_State = state0, cr_Messages = [], cr_Halt = True,
                  cr_Error = Some (''node '' @ vid @ '' not found'')\<rparr>
      | Some None \<Rightarrow> Panics ''nil pointer dereference''
      | Some (Some currentNode) \<Rightarrow>
          (let state = merge_messages messages state0 in
           case p currentNode (Some state) of
             Inl err \<Rightarrow> Returns \<lparr>cr_Arg = state, cr_State = state, cr_Messages = [], cr_Halt = True, cr_Error = Some err\<rparr>
           | Inr output \<Rightarrow>
               (let newState = state ++ nil_map output in
                case nx currentNode (g_Edges g) newState of
                  Fails err \<Rightarrow> Returns \<lparr>cr_Arg = state, cr_State = newState, cr_Messages = [], cr_Halt = True,
                                cr_Error = Some err\<rparr>
                | Returns [] \<Rightarrow> Returns \<lparr>cr_Arg = state, cr_State = newState, cr_Messages = [], cr_Halt = True,
                                cr_Error = None\<rparr>
                | Returns nextNodes \<Rightarrow> Returns \<lparr>cr_Arg = state, cr_State = newState,
                    cr_Messages = map (\<lambda>n. \<lparr>pm_From = vid, pm_To = n_ID n, pm_Value = VMap newState, pm_Step = 0\<rparr>) nextNodes,
                    cr_Halt = False, cr_Error = None\<rparr>
                | Blocks \<Rightarrow> Blocks | Deadlocks \<Rightarrow> Deadlocks | Panics e \<Rightarrow> Panics e)))"

text \<open>
  As a program of the engine. A program that panics takes the process with it; that result does not
  occur for the nodes and edges of a validated graph (lemma \<open>graph_program_returns\<close>).
\<close>

definition graph_program :: "processor \<Rightarrow> evaluator \<Rightarrow> Graph \<Rightarrow> vprog" where
  "graph_program p nx g = (\<lambda>calls vid state messages. case GraphVertex_Compute p nx g vid state messages of
       Returns r \<Rightarrow> r
     | _ \<Rightarrow> \<lparr>cr_Arg = state, cr_State = state, cr_Messages = [], cr_Halt = True, cr_Error = Some ''panic''\<rparr>)"

subsection \<open>State\<close>

datatype pregel_error =
    ExecError exec_error
  | PregelExecutionFailed engine_error

record ('e, 'm) PregelGraphExecutor =
  pg_process :: processor
  pg_next :: evaluator
  pg_load :: "'e \<Rightarrow> string \<Rightarrow> 'm \<Rightarrow> (cp_error, ExecutionContext) outcome \<times> 'm"
  pg_manager :: 'm
  pg_repo :: GraphRepository
  pg_executions :: "string \<rightharpoonup> ExecutionContext"

definition NewPregelGraphExecutor ::
  "processor \<Rightarrow> evaluator \<Rightarrow> ('e \<Rightarrow> string \<Rightarrow> 'm \<Rightarrow> (cp_error, ExecutionContext) outcome \<times> 'm) \<Rightarrow> 'm \<Rightarrow> GraphRepository
   \<Rightarrow> ('e, 'm) PregelGraphExecutor" where
  "NewPregelGraphExecutor p n l m r = \<lparr>pg_process = p, pg_next = n, pg_load = l, pg_manager = m, pg_repo = r,
     pg_executions = Map.empty\<rparr>"

text \<open>The choices of one call.\<close>

record 'e pregel_env =
  pv_nano :: int
  pv_start :: int
  pv_end :: int
  pv_ids :: "string list"                    \<comment> \<open>the loops of the validation\<close>
  pv_ids' :: "string list"
  pv_nodes :: "string list"                  \<comment> \<open>the loop over \<^verbatim>\<open>graphDef.Nodes\<close>\<close>
  pv_vids :: "string list"                   \<comment> \<open>the loop over the engine's vertices\<close>
  pv_final :: "string list"                  \<comment> \<open>the loop over the final states\<close>
  pv_numCPU :: int
  pv_clock :: "nat \<Rightarrow> int"
  pv_choices :: "int \<Rightarrow> StepChoices"
  pv_delivered :: "StreamEvent list \<Rightarrow> StreamEvent list"
  pv_handled :: "nat \<Rightarrow> int"
  pv_load :: 'e

subsection \<open>Running the engine\<close>

definition handler_step :: "int \<Rightarrow> StreamEvent \<Rightarrow> StepResult" where
  "handler_step now event = \<lparr>sr_StepNumber = ev_Step event, sr_NodeID = ''superstep-'' @ show_int (ev_Step event),
     sr_NodeType = ''pregel-superstep'', sr_Input = None, sr_Output = None, sr_StartTime = ev_Timestamp event * 10 ^ 9,
     sr_EndTime = now, sr_Duration = 0,
     sr_Status = (if ev_Type event = ''superstep_start'' then StepStatusRunning else StepStatusCompleted),
     sr_Error = [], sr_CheckpointID = []\<rparr>"

fun init_vertices ::
  "processor \<Rightarrow> evaluator \<Rightarrow> Graph \<Rightarrow> gstate \<Rightarrow> string list \<Rightarrow> (string \<rightharpoonup> vprog) \<times> vstates
   \<Rightarrow> ((string \<rightharpoonup> vprog) \<times> vstates) option" where
  "init_vertices p nx g state [] vs = Some vs"
| "init_vertices p nx g state (k # ks) (vertices, states) =
     (case g_Nodes g k of
        Some (Some n) \<Rightarrow> init_vertices p nx g state ks
          (vertices(n_ID n \<mapsto> graph_program p nx g), states(n_ID n \<mapsto> state))
      | _ \<Rightarrow> None)"

definition engine_config :: "ExecutionConfig \<Rightarrow> EngineConfig" where
  "engine_config c = \<lparr>ec_MaxSupersteps = (if MaxSteps c \<le> 0 then 100 else MaxSteps c),
     ec_Parallelism = (if ParallelMode c then 8 else 4), ec_ParallelismFactor = 0, ec_QueueCapacity = 0,
     ec_Timeout = ExecTimeout c, ec_RetryPolicy = \<lparr>rp_MaxRetries = 0, rp_BackoffMs = 0\<rparr>, ec_StreamOutput = True\<rparr>"

definition final_state :: "string list \<Rightarrow> vstates \<Rightarrow> gstate" where
  "final_state vids states = fold (\<lambda>v acc. acc ++ (case states v of Some s \<Rightarrow> s | None \<Rightarrow> Map.empty)) vids Map.empty"

text \<open>The error, the steps recorded, and the context.\<close>

definition executeWithPregelEngine ::
  "'e pregel_env \<Rightarrow> processor \<Rightarrow> evaluator \<Rightarrow> Graph \<Rightarrow> ExecutionContext
   \<Rightarrow> (engine_error, unit) outcome \<times> StepResult list \<times> ExecutionContext" where
  "executeWithPregelEngine pv p nx g c =
     (case init_vertices p nx g (nil_map (xc_State c)) (pv_nodes pv) (Map.empty, Map.empty) of
        None \<Rightarrow> (Panics ''nil pointer dereference'', [], c)
      | Some (vertices, initialStates) \<Rightarrow>
          (case Run (pv_vids pv) (pv_choices pv)
                  (NewEngine (pv_numCPU pv) (pv_clock pv) vertices initialStates (engine_config (xc_Config c))) of
             (r, e) \<Rightarrow>
               (let evs = pv_delivered pv (en_Events e);
                    steps = map (\<lambda>i. handler_step (pv_handled pv i) (evs ! i)) [0..<length evs]
                in case r of
                     Some err \<Rightarrow> (Fails err, steps, c)
                   | None \<Rightarrow> (Returns (), steps, c\<lparr>xc_State := Some (final_state (pv_final pv) (en_States e))\<rparr>))))"

subsection \<open>Execute, Resume, Stop, GetStatus\<close>

definition pregel_register :: "ExecutionContext \<Rightarrow> ('e, 'm) PregelGraphExecutor \<Rightarrow> ('e, 'm) PregelGraphExecutor" where
  "pregel_register c ex = ex\<lparr>pg_executions := (pg_executions ex)(xc_ExecutionID c \<mapsto> c)\<rparr>"

type_synonym pregel_result = "(unit, pregel_error ExecutionResponse option \<times> pregel_error option) outcome"

text \<open>The common end of \<^verbatim>\<open>Execute\<close> and \<^verbatim>\<open>Resume\<close>.\<close>

definition pregel_run ::
  "'e pregel_env \<Rightarrow> Graph \<Rightarrow> ExecutionContext \<Rightarrow> ('e, 'm) PregelGraphExecutor \<Rightarrow> pregel_result \<times> ('e, 'm) PregelGraphExecutor" where
  "pregel_run pv g c ex =
     (case executeWithPregelEngine pv (pg_process ex) (pg_next ex) g c of
        (r, steps, c') \<Rightarrow>
          (let response = \<lparr>rs_ExecutionID = xc_ExecutionID c, rs_GraphID = xc_GraphID c,
                 rs_ThreadID = xc_ThreadID c, rs_Status = ExecutionStatusRunning, rs_Output = None,
                 rs_Steps = steps, rs_StartTime = pv_start pv, rs_EndTime = pv_end pv,
                 rs_Duration = pv_end pv - pv_start pv, rs_Error = None\<rparr>;
               ex1 = ex\<lparr>pg_executions := (pg_executions ex)(xc_ExecutionID c := None)\<rparr>
           in case r of
                Returns _ \<Rightarrow> (Returns (Some (response\<lparr>rs_Status := ExecutionStatusCompleted, rs_Output := xc_State c'\<rparr>), None), ex1)
              | Fails err \<Rightarrow> (Returns (Some (response\<lparr>rs_Status := ExecutionStatusFailed,
                    rs_Error := Some (PregelExecutionFailed err)\<rparr>), Some (PregelExecutionFailed err)), ex1)
              | Blocks \<Rightarrow> (Blocks, ex) | Deadlocks \<Rightarrow> (Deadlocks, ex) | Panics e \<Rightarrow> (Panics e, ex)))"

definition pregel_context :: "'e pregel_env \<Rightarrow> ExecutionRequest \<Rightarrow> ExecutionContext" where
  "pregel_context pv req = \<lparr>xc_ExecutionID = generateExecutionID (pv_nano pv) (rq_GraphID req) (rq_ThreadID req),
     xc_GraphID = rq_GraphID req, xc_ThreadID = rq_ThreadID req, xc_CurrentStep = 0,
     xc_State = rq_Input req, xc_Config = rq_Config req, xc_StartTime = pv_start pv\<rparr>"

definition Pregel_Execute ::
  "'e pregel_env \<Rightarrow> ExecutionRequest \<Rightarrow> ('e, 'm) PregelGraphExecutor
   \<Rightarrow> pregel_result \<times> ExecutionRequest \<times> ('e, 'm) PregelGraphExecutor" where
  "Pregel_Execute pv req ex =
     (case Request_Validate req of
        (Some err, req') \<Rightarrow> (Returns (None, Some (ExecError (InvalidRequest err))), req', ex)
      | (None, req') \<Rightarrow>
          (case Repo_Get (rq_GraphID req') (pg_repo ex) of
             Inl err \<Rightarrow> (Returns (None, Some (ExecError (RepositoryError err))), req', ex)
           | Inr g \<Rightarrow>
               (case (if ValidateGraph (rq_Config req')
                      then ValidateCoreGraph (pv_ids pv) (pv_ids' pv)
                             (if ValidateCycles (rq_Config req') then [\<lparr>CheckCycles = True\<rparr>] else []) (Some g)
                      else (None, Some g)) of
                  (verr, g') \<Rightarrow>
                    (let g1 = (case g' of Some gr \<Rightarrow> gr | None \<Rightarrow> g);
                         ex1 = ex\<lparr>pg_repo := (pg_repo ex)(rq_GraphID req' \<mapsto> g1)\<rparr>
                     in case verr of
                          Some err \<Rightarrow> (Returns (None, Some (ExecError (GraphValidationFailed err))), req', ex1)
                        | None \<Rightarrow>
                            (let c = pregel_context pv req'
                             in case pregel_run pv g1 c (pregel_register c ex1) of (r, ex2) \<Rightarrow> (r, req', ex2))))))"

definition Pregel_Resume ::
  "'e pregel_env \<Rightarrow> string \<Rightarrow> ExecutionRequest \<Rightarrow> ('e, 'm) PregelGraphExecutor
   \<Rightarrow> pregel_result \<times> ('e, 'm) PregelGraphExecutor" where
  "Pregel_Resume pv cid req ex =
     (case pg_load ex (pv_load pv) cid (pg_manager ex) of
        (Fails err, m') \<Rightarrow> (Returns (None, Some (ExecError (CheckpointLoadFailed err))), ex\<lparr>pg_manager := m'\<rparr>)
      | (Blocks, m') \<Rightarrow> (Blocks, ex\<lparr>pg_manager := m'\<rparr>)
      | (Deadlocks, m') \<Rightarrow> (Deadlocks, ex\<lparr>pg_manager := m'\<rparr>)
      | (Panics e, m') \<Rightarrow> (Panics e, ex\<lparr>pg_manager := m'\<rparr>)
      | (Returns c0, m') \<Rightarrow>
          (let stored = xc_Config c0;
               c1 = (if 0 < MaxSteps (rq_Config req) then stored\<lparr>MaxSteps := MaxSteps (rq_Config req)\<rparr> else stored);
               c2 = (if 0 < ExecTimeout (rq_Config req) then c1\<lparr>ExecTimeout := ExecTimeout (rq_Config req)\<rparr> else c1);
               c = c0\<lparr>xc_Config := c2,
                      xc_ExecutionID := generateExecutionID (pv_nano pv) (xc_GraphID c0) (xc_ThreadID c0)\<rparr>;
               ex1 = pregel_register c (ex\<lparr>pg_manager := m'\<rparr>)
           in case Repo_Get (xc_GraphID c) (pg_repo ex1) of
                Inl err \<Rightarrow> (Returns (None, Some (ExecError (RepositoryError err))), ex1)
              | Inr g \<Rightarrow> pregel_run pv g c ex1))"

definition Pregel_Stop :: "string \<Rightarrow> ('e, 'm) PregelGraphExecutor \<Rightarrow> exec_error option \<times> ('e, 'm) PregelGraphExecutor" where
  "Pregel_Stop eid ex =
     (if pg_executions ex eid = None then (Some (ExecutionNotFound eid), ex)
      else (None, ex\<lparr>pg_executions := (pg_executions ex)(eid := None)\<rparr>))"

definition Pregel_GetStatus :: "string \<Rightarrow> ('e, 'm) PregelGraphExecutor \<Rightarrow> exec_error + pregel_error ExecutionResponse" where
  "Pregel_GetStatus eid ex = (case pg_executions ex eid of
     None \<Rightarrow> Inl (ExecutionNotFound eid)
   | Some c \<Rightarrow> Inr \<lparr>rs_ExecutionID = eid, rs_GraphID = xc_GraphID c, rs_ThreadID = xc_ThreadID c,
       rs_Status = ExecutionStatusRunning, rs_Output = None, rs_Steps = [], rs_StartTime = xc_StartTime c,
       rs_EndTime = 0, rs_Duration = 0, rs_Error = None\<rparr>)"

subsection \<open>Vertices on their own\<close>

text \<open>
  The reference: a program run on its own state, with no messages, until it halts or fails, at most
  \<open>k\<close> times.
\<close>

fun solo :: "(gstate \<Rightarrow> ComputeResult) \<Rightarrow> nat \<Rightarrow> gstate \<Rightarrow> string + gstate" where
  "solo f 0 s = Inr s"
| "solo f (Suc k) s =
     (case cr_Error (f s) of
        Some err \<Rightarrow> Inl err
      | None \<Rightarrow> if cr_Halt (f s) then Inr (cr_State (f s)) else solo f k (cr_State (f s)))"

definition solo_inv :: "(string \<Rightarrow> gstate \<Rightarrow> ComputeResult) \<Rightarrow> string list \<Rightarrow> Engine \<Rightarrow> bool" where
  "solo_inv f vids e \<longleftrightarrow> (\<forall>v \<in> set vids. \<forall>n s. program_of e v n v s [] = f v s) \<and> dom (en_Active e) = set vids
     \<and> boxes_empty e \<and> retries_nonneg e \<and> rp_MaxRetries (en_ErrorHandler e) \<le> 0
     \<and> (en_Halted e \<longrightarrow> (\<forall>v. en_Active e v \<noteq> Some True))"

text \<open>What becomes of a vertex in the remaining \<open>k\<close> supersteps.\<close>

definition rest_of :: "(string \<Rightarrow> gstate \<Rightarrow> ComputeResult) \<Rightarrow> nat \<Rightarrow> Engine \<Rightarrow> string \<Rightarrow> string + gstate" where
  "rest_of f k e v = (if en_Active e v = Some True then solo (f v) k (state_of e v) else Inr (state_of e v))"

text \<open>What one superstep does to the engine, vertex by vertex.\<close>

lemma solo_effects:
  assumes inv: "solo_inv f vids e" and dl: "so_deadline ch = None"
    and ids: "distinct (so_ids ch)" "set (so_ids ch) = set vids" and run: "runStep ch step e = (r, e')"
  shows "r = None \<longleftrightarrow> (\<forall>v \<in> set vids. en_Active e v = Some True \<longrightarrow> cr_Error (f v (state_of e v)) = None)"
    and "r = None \<Longrightarrow> en_Active e v = Some True \<Longrightarrow>
      en_Active e' v = Some (\<not> cr_Halt (f v (state_of e v))) \<and> state_of e' v = cr_State (f v (state_of e v))"
    and "r = None \<Longrightarrow> en_Active e v \<noteq> Some True \<Longrightarrow> en_Active e' v = en_Active e v \<and> state_of e' v = state_of e v"
    and "r = None \<Longrightarrow> en_Halted e' \<Longrightarrow> en_Halted e \<or> (\<forall>v \<in> set vids. en_Active e' v \<noteq> Some True)"
    and "r = None \<Longrightarrow> boxes_empty e' \<and> retries_nonneg e' \<and> en_Vertices e' = en_Vertices e \<and> en_ErrorHandler e' = en_ErrorHandler e"
proof -
  let ?c = "e\<lparr>en_Checkpoints := put_checkpoint (so_keys ch) step (en_States e) (en_Checkpoints e)\<rparr>"
  let ?s = "emitEvent ''superstep_start'' [] step (active_count (so_ids ch) ?c) ?c"
  let ?act = "{v. en_Active ?s v = Some True}"
  obtain q e3 where x: "executeSuperstep (so_ids ch) (so_arrive ch) None step ?s = (q, e3)" by fastforce
  have s: "boxes_empty ?s" "retries_nonneg ?s" "\<And>v. state_of ?s v = state_of e v" "\<And>v. program_of ?s v = program_of e v"
    "en_Active ?s = en_Active e" "rp_MaxRetries (en_ErrorHandler ?s) \<le> 0"
    using inv by (simp_all add: solo_inv_def boxes_empty_def retries_nonneg_def retry_of_def state_of_def program_of_def)
  have act: "?act \<subseteq> set vids" using inv s(5) by (auto simp: solo_inv_def)
  have result: "vr_Error (bsp_result ?s v) = cr_Error (f v (state_of e v))"
      "vr_State (bsp_result ?s v) = cr_State (f v (state_of e v))" "vr_Halt (bsp_result ?s v) = cr_Halt (f v (state_of e v))"
    if "v \<in> set vids" for v
    using inv that s GetMessages_empty [of v "en_Agg ?s"]
    by (simp_all add: bsp_result_def executeTask_def vertex_task_def Let_def solo_inv_def boxes_empty_def)
  have order: "map_order (en_Active ?s) (so_ids ch)" using inv ids s(5) by (simp add: map_order_def solo_inv_def)
  have nonneg: "0 \<le> retry_of ?s v" for v using s(2) by (simp add: retries_nonneg_def)
  have nr: "no_retries ?act ?s" using s(6) by (simp add: no_retries_def)
  note bsp = superstep_bsp [OF order nonneg nr x] and keeps = executeSuperstep_keeps [OF x]
  have r: "r = None \<longleftrightarrow> q = None" using run x dl by (cases q) (auto simp: runStep_def Let_def)
  show "r = None \<longleftrightarrow> (\<forall>v \<in> set vids. en_Active e v = Some True \<longrightarrow> cr_Error (f v (state_of e v)) = None)"
    using r bsp result(1) act s(5) by auto
  assume ok: "r = None"
  with r bsp have states: "en_States e3 = bsp_states ?act ?s" and active: "en_Active e3 = bsp_active ?act ?s" by auto
  have e': "en_Vertices e' = en_Vertices e3" "en_Active e' = en_Active e3" "en_States e' = en_States e3"
      "en_Retry e' = en_Retry e3" "en_Agg e' = ClearMessages (en_Agg e3)" "en_ErrorHandler e' = en_ErrorHandler e3"
      "en_Halted e' \<longrightarrow> en_Halted e3 \<or> \<not> hasActiveVertices (so_ids ch) e3"
    using run x dl ok r by (auto simp: runStep_def Let_def split: if_splits)
  show "en_Active e' v = Some (\<not> cr_Halt (f v (state_of e v))) \<and> state_of e' v = cr_State (f v (state_of e v))"
    if "en_Active e v = Some True"
    using that act e'(2,3) states active result [of v] s(5) by (auto simp: bsp_states_def bsp_active_def state_of_def [of e'])
  show "en_Active e' v = en_Active e v \<and> state_of e' v = state_of e v" if "en_Active e v \<noteq> Some True"
    using that e'(2,3) states active s(3,5) by (simp add: bsp_states_def bsp_active_def state_of_def)
  show "en_Halted e \<or> (\<forall>v \<in> set vids. en_Active e' v \<noteq> Some True)" if "en_Halted e'"
    using that e'(2,7) keeps ids(2) by (auto simp: hasActiveVertices_def list_ex_iff)
  show "boxes_empty e' \<and> retries_nonneg e' \<and> en_Vertices e' = en_Vertices e \<and> en_ErrorHandler e' = en_ErrorHandler e"
    using superstep_retries [OF x s(2)] e' keeps by (simp add: boxes_empty_def agg.box_wipe retries_nonneg_def retry_of_def)
qed

lemma solo_step:
  assumes inv: "solo_inv f vids e" and dl: "so_deadline ch = None"
    and ids: "distinct (so_ids ch)" "set (so_ids ch) = set vids" and run: "runStep ch step e = (r, e')"
  shows "(r = None \<longleftrightarrow> (\<forall>v \<in> set vids. en_Active e v = Some True \<longrightarrow> cr_Error (f v (state_of e v)) = None))
    \<and> (r = None \<longrightarrow> solo_inv f vids e' \<and> (\<forall>v k. v \<in> set vids \<longrightarrow> rest_of f k e' v = rest_of f (Suc k) e v))"
proof (intro conjI impI allI)
  note fx = solo_effects [OF assms]
  show "r = None \<longleftrightarrow> (\<forall>v \<in> set vids. en_Active e v = Some True \<longrightarrow> cr_Error (f v (state_of e v)) = None)" by (rule fx(1))
  assume ok: "r = None"
  have "v \<in> dom (en_Active e') \<longleftrightarrow> v \<in> dom (en_Active e)" for v
    using fx(2,3) [OF ok, of v] by (cases "en_Active e v = Some True") (simp_all add: domIff)
  then have dom: "dom (en_Active e') = set vids" using inv by (auto simp: solo_inv_def)
  have "en_Active e' v \<noteq> Some True" if "en_Halted e'" for v
    using fx(3,4) [OF ok] that dom inv by (metis domI solo_inv_def)
  then show "solo_inv f vids e'"
    using inv fx(5) [OF ok] dom by (simp add: solo_inv_def program_of_def)
  fix v k assume "v \<in> set vids"
  then show "rest_of f k e' v = rest_of f (Suc k) e v"
    using fx(1) ok fx(2,3) [OF ok, of v] by (cases "en_Active e v = Some True") (auto simp: rest_of_def)
qed

lemma solo_run:
  "sp_choices vids choices \<Longrightarrow> solo_inv f vids e \<Longrightarrow> run_steps choices step e = (r, e') \<Longrightarrow>
    (r = None \<longleftrightarrow> (\<forall>v \<in> set vids. \<exists>s. rest_of f (nat (ec_MaxSupersteps (en_Config e) - step)) e v = Inr s))
    \<and> (r = None \<longrightarrow> (\<forall>v \<in> set vids. rest_of f (nat (ec_MaxSupersteps (en_Config e) - step)) e v = Inr (state_of e' v)))"
proof (induction choices step e rule: run_steps.induct)
  case (1 choices step e)
  let ?n = "nat (ec_MaxSupersteps (en_Config e) - step)"
  show ?case
  proof (cases "step < ec_MaxSupersteps (en_Config e) \<and> \<not> en_Halted e")
    case False
    then have "r = None" "e' = e" using "1.prems"(3) by (subst (asm) run_steps.simps, auto)+
    moreover have "rest_of f ?n e v = Inr (state_of e v)" for v
      using False "1.prems"(2) by (auto simp: rest_of_def solo_inv_def)
    ultimately show ?thesis by auto
  next
    case True
    obtain q e1 where s: "runStep (choices step) step e = (q, e1)" by fastforce
    have step: "(q = None \<longleftrightarrow> (\<forall>v \<in> set vids. en_Active e v = Some True \<longrightarrow> cr_Error (f v (state_of e v)) = None))"
      "q = None \<Longrightarrow> solo_inv f vids e1 \<and> (\<forall>v k. v \<in> set vids \<longrightarrow> rest_of f k e1 v = rest_of f (Suc k) e v)"
      using solo_step [OF "1.prems"(2) _ _ _ s] "1.prems"(1) by (auto simp: sp_choices_def)
    have n: "?n = Suc (nat (ec_MaxSupersteps (en_Config e) - (step + 1)))" using True by arith
    show ?thesis
    proof (cases q)
      case (Some err)
      then have "r = Some err" using "1.prems"(3) True s by (subst (asm) run_steps.simps) simp
      moreover from Some step(1) obtain v where "v \<in> set vids" "en_Active e v = Some True" "cr_Error (f v (state_of e v)) \<noteq> None"
        by auto
      moreover from this have "rest_of f ?n e v \<noteq> Inr s'" for s' unfolding n by (auto simp: rest_of_def)
      ultimately show ?thesis by blast
    next
      case None
      then have rest: "run_steps choices (step + 1) e1 = (r, e')"
        using "1.prems"(3) True s by (subst (asm) run_steps.simps) simp
      have inv: "solo_inv f vids e1" and same: "\<And>v k. v \<in> set vids \<Longrightarrow> rest_of f k e1 v = rest_of f (Suc k) e v"
        using step(2) None by auto
      from "1.IH" [OF True s [symmetric] None "1.prems"(1) inv rest] runStep_config [OF s]
      show ?thesis unfolding n by (simp add: same)
    qed
  qed
qed

lemma solo_Run:
  assumes "\<And>v. v \<in> set vids \<Longrightarrow> \<exists>p. vertices v = Some p \<and> (\<forall>n s. p n v s [] = f v s)"
    and "sp_choices vids choices" and "rp_MaxRetries (ec_RetryPolicy config) \<le> 0"
    and "Run vids choices (NewEngine cpus clock vertices init config) = (r, e)"
  shows "(r = None \<longleftrightarrow> (\<forall>v \<in> set vids. \<exists>s. solo (f v) (nat (ec_MaxSupersteps config))
           (case init v of Some s \<Rightarrow> s | None \<Rightarrow> Map.empty) = Inr s))
    \<and> (r = None \<longrightarrow> (\<forall>v \<in> set vids. solo (f v) (nat (ec_MaxSupersteps config))
           (case init v of Some s \<Rightarrow> s | None \<Rightarrow> Map.empty) = Inr (state_of e v)))"
proof -
  let ?i = "initActiveVertices vids (startStreamingIfEnabled (NewEngine cpus clock vertices init config))"
  let ?e = "emitEvent ''execution_start'' [] 0 [''total_vertices'' \<mapsto> VInt (of_nat (length vids))] ?i"
  obtain q e1 where run: "run_steps choices 0 ?e = (q, e1)" by fastforce
  have i: "en_Vertices ?i = vertices" "en_States ?i = init" "en_Active ?i = fold (\<lambda>vid a. a(vid \<mapsto> True)) vids Map.empty"
    "en_Agg ?i = NewMessageAggregator (Some SumCombiner)" "en_Retry ?i = Map.empty" "en_ErrorHandler ?i = ec_RetryPolicy config"
    "en_Halted ?i = False" "ec_MaxSupersteps (en_Config ?i) = ec_MaxSupersteps config"
    by (simp_all add: initActiveVertices_def startStreamingIfEnabled_def NewEngine_def Let_def)
  have "\<forall>v \<in> set vids. \<forall>n s. program_of ?e v n v s [] = f v s"
    using assms(1) by (force simp: program_of_def i)
  moreover have "dom (en_Active ?e) = set vids" by (auto simp: i init_active dom_def)
  ultimately have "solo_inv f vids ?e"
    using assms(3) by (simp add: solo_inv_def boxes_empty_def retries_nonneg_def retry_of_def i
        NewMessageAggregator_def vertex_messages_def)
  from solo_run [OF assms(2) this run] have "(q = None \<longleftrightarrow> (\<forall>v \<in> set vids. \<exists>s. rest_of f (nat (ec_MaxSupersteps config)) ?e v = Inr s))
    \<and> (q = None \<longrightarrow> (\<forall>v \<in> set vids. rest_of f (nat (ec_MaxSupersteps config)) ?e v = Inr (state_of e1 v)))"
    by (simp add: i)
  moreover have "rest_of f k ?e v = solo (f v) k (case init v of Some s \<Rightarrow> s | None \<Rightarrow> Map.empty)" if "v \<in> set vids" for k v
    using that by (simp add: rest_of_def i init_active state_of_def)
  moreover have "q = r" "state_of e v = state_of e1 v" for v
    using assms(4) run by (auto simp: Run_def Let_def split: option.splits)
  ultimately show ?thesis by simp
qed

end
