(* ===== verification/PregelExecProps.thy ===== *)
theory PregelExecProps
  imports PregelExecutor
begin

section \<open>Properties of the Pregel graph executor\<close>

text \<open>
  What a graph execution on the engine amounts to: since messages never cross a superstep, every
  node runs on its own, from the input, whether an edge leads to it or not.
\<close>

subsection \<open>Programs of nodes\<close>

definition well_keyed :: "Graph \<Rightarrow> bool" where
  "well_keyed g \<longleftrightarrow> None \<notin> set (g_Edges g) \<and> (\<forall>k n. g_Nodes g k = Some n \<longrightarrow> (\<exists>m. n = Some m \<and> n_ID m = k))"

lemma graph_program_returns:
  assumes "well_keyed g" and "edge_evaluator nx"
  shows "\<exists>r. GraphVertex_Compute p nx g vid state messages = Returns r"
proof (cases "g_Nodes g vid")
  case (Some n)
  with assms(1) obtain m where m: "g_Nodes g vid = Some (Some m)" by (auto simp: well_keyed_def)
  show ?thesis
  proof (cases "p m (Some (merge_messages messages state))")
    case (Inl err)
    then show ?thesis using m by (simp add: GraphVertex_Compute_def Let_def)
  next
    case (Inr out)
    obtain ns where "nx m (g_Edges g) (merge_messages messages state ++ nil_map out) = Returns ns"
      using edge_evaluator.next_total [OF assms(2)] assms(1) unfolding well_keyed_def by metis
    then show ?thesis using m Inr by (cases ns) (simp_all add: GraphVertex_Compute_def Let_def)
  qed
qed (simp add: GraphVertex_Compute_def)

text \<open>The program of a node without messages.\<close>

definition node_step :: "processor \<Rightarrow> evaluator \<Rightarrow> Graph \<Rightarrow> string \<Rightarrow> gstate \<Rightarrow> ComputeResult" where
  "node_step p nx g k s = graph_program p nx g 0 k s []"

lemma graph_program_calls: "graph_program p nx g n k s [] = node_step p nx g k s"
  by (simp add: node_step_def graph_program_def)

lemma node_step_simps:
  assumes "g_Nodes g k = Some (Some n)"
  shows "p n (Some s) = Inl err \<Longrightarrow> cr_Error (node_step p nx g k s) = Some err"
    and "p n (Some s) = Inr out \<Longrightarrow> nx n (g_Edges g) (s ++ nil_map out) = Returns ns \<Longrightarrow>
      cr_Error (node_step p nx g k s) = None \<and> cr_State (node_step p nx g k s) = s ++ nil_map out
      \<and> cr_Halt (node_step p nx g k s) = (ns = [])"
  using assms by (auto simp: node_step_def graph_program_def GraphVertex_Compute_def Let_def split: list.splits)

lemma init_vertices_result:
  assumes "\<And>k. k \<in> set ks \<Longrightarrow> \<exists>m. g_Nodes g k = Some (Some m) \<and> n_ID m = k"
  shows "\<exists>vs' ss'. init_vertices p nx g state ks (vs, ss) = Some (vs', ss')
    \<and> (\<forall>k. vs' k = (if k \<in> set ks then Some (graph_program p nx g) else vs k))
    \<and> (\<forall>k. ss' k = (if k \<in> set ks then Some state else ss k))"
  using assms
proof (induction ks arbitrary: vs ss)
  case (Cons k ks)
  from Cons.prems [of k] obtain m where m: "g_Nodes g k = Some (Some m)" "n_ID m = k" by auto
  have "\<exists>vs' ss'. init_vertices p nx g state ks (vs(k \<mapsto> graph_program p nx g), ss(k \<mapsto> state)) = Some (vs', ss')
    \<and> (\<forall>j. vs' j = (if j \<in> set ks then Some (graph_program p nx g) else (vs(k \<mapsto> graph_program p nx g)) j))
    \<and> (\<forall>j. ss' j = (if j \<in> set ks then Some state else (ss(k \<mapsto> state)) j))"
    by (rule Cons.IH) (use Cons.prems in auto)
  then show ?case using m by auto
qed simp

subsection \<open>The run\<close>

definition alone :: "('e, 'm) PregelGraphExecutor \<Rightarrow> Graph \<Rightarrow> int \<Rightarrow> gstate option \<Rightarrow> string \<Rightarrow> string + gstate" where
  "alone ex g maxSteps input k = solo (node_step (pg_process ex) (pg_next ex) g k) (nat maxSteps) (nil_map input)"

definition merged :: "(string \<Rightarrow> string + gstate) \<Rightarrow> string list \<Rightarrow> gstate" where
  "merged out ks = fold (\<lambda>k acc. acc ++ projr (out k)) ks Map.empty"

lemma final_state_merged:
  assumes "\<And>v. v \<in> set vids \<Longrightarrow> out v = Inr (case states v of Some s \<Rightarrow> s | None \<Rightarrow> Map.empty)"
  shows "final_state vids states = merged out vids"
proof -
  have "fold (\<lambda>v acc. acc ++ (case states v of Some s \<Rightarrow> s | None \<Rightarrow> Map.empty)) vids m
      = fold (\<lambda>k acc. acc ++ projr (out k)) vids m" for m
    using assms by (induction vids arbitrary: m) auto
  then show ?thesis by (simp add: final_state_def merged_def)
qed

definition pregel_orders :: "'e pregel_env \<Rightarrow> Graph \<Rightarrow> bool" where
  "pregel_orders pv g \<longleftrightarrow> map_order (g_Nodes g) (pv_nodes pv) \<and> map_order (g_Nodes g) (pv_vids pv)
     \<and> map_order (g_Nodes g) (pv_final pv) \<and> sp_choices (pv_vids pv) (pv_choices pv)"

lemma pregel_run_alone:
  assumes "well_keyed g" and "pregel_orders pv g" and "0 < MaxSteps (xc_Config c)"
  shows "(\<exists>rs err. fst (pregel_run pv g c ex) = Returns (Some rs, err)
    \<and> (err = None \<longleftrightarrow> (\<forall>k \<in> dom (g_Nodes g). \<exists>s. alone ex g (MaxSteps (xc_Config c)) (xc_State c) k = Inr s))
    \<and> (err = None \<longrightarrow> rs_Status rs = ExecutionStatusCompleted
        \<and> rs_Output rs = Some (merged (alone ex g (MaxSteps (xc_Config c)) (xc_State c)) (pv_final pv)))
    \<and> (err \<noteq> None \<longrightarrow> rs_Status rs = ExecutionStatusFailed))
    \<and> pg_executions (snd (pregel_run pv g c ex)) = (pg_executions ex)(xc_ExecutionID c := None)"
proof -
  let ?p = "pg_process ex" and ?nx = "pg_next ex" and ?input = "nil_map (xc_State c)"
  let ?f = "node_step ?p ?nx g"
  have nodes: "set (pv_nodes pv) = dom (g_Nodes g)" "set (pv_vids pv) = dom (g_Nodes g)" "set (pv_final pv) = dom (g_Nodes g)"
    and choices: "sp_choices (pv_vids pv) (pv_choices pv)"
    using assms(2) by (auto simp: pregel_orders_def map_order_def)
  have "\<exists>m. g_Nodes g k = Some (Some m) \<and> n_ID m = k" if "k \<in> set (pv_nodes pv)" for k
    using that assms(1) nodes(1) by (auto simp: well_keyed_def)
  from init_vertices_result [OF this, of "pv_nodes pv" ?p ?nx ?input Map.empty Map.empty] obtain vs ss where
    init: "init_vertices ?p ?nx g ?input (pv_nodes pv) (Map.empty, Map.empty) = Some (vs, ss)"
    and vs: "\<And>k. k \<in> dom (g_Nodes g) \<Longrightarrow> vs k = Some (graph_program ?p ?nx g)"
    and ss: "\<And>k. k \<in> dom (g_Nodes g) \<Longrightarrow> ss k = Some ?input"
    using nodes(1) by auto
  let ?eng = "NewEngine (pv_numCPU pv) (pv_clock pv) vs ss (engine_config (xc_Config c))"
  obtain r e where run: "Run (pv_vids pv) (pv_choices pv) ?eng = (r, e)" by fastforce
  have progs: "\<exists>p. vs v = Some p \<and> (\<forall>n s. p n v s [] = ?f v s)" if "v \<in> set (pv_vids pv)" for v
    using vs [of v] that nodes(2) by (simp add: graph_program_calls)
  have "rp_MaxRetries (ec_RetryPolicy (engine_config (xc_Config c))) \<le> 0" by (simp add: engine_config_def)
  from solo_Run [OF progs choices this run]
  have solo: "r = None \<longleftrightarrow> (\<forall>k \<in> dom (g_Nodes g). \<exists>s. alone ex g (MaxSteps (xc_Config c)) (xc_State c) k = Inr s)"
    "r = None \<Longrightarrow> k \<in> dom (g_Nodes g) \<Longrightarrow> alone ex g (MaxSteps (xc_Config c)) (xc_State c) k = Inr (state_of e k)" for k
    using assms(3) ss nodes(2) by (simp_all add: alone_def engine_config_def)
  have "final_state (pv_final pv) (en_States e) = merged (alone ex g (MaxSteps (xc_Config c)) (xc_State c)) (pv_final pv)"
    if "r = None"
    by (rule final_state_merged) (use solo(2) [OF that] nodes(3) in \<open>simp add: state_of_def\<close>)
  then show ?thesis using solo(1) run init
    by (cases r) (auto simp: pregel_run_def executeWithPregelEngine_def Let_def)
qed

definition pregel_accepted :: "'e pregel_env \<Rightarrow> ExecutionRequest \<Rightarrow> ('e, 'm) PregelGraphExecutor \<Rightarrow> Graph \<Rightarrow> bool" where
  "pregel_accepted pv req ex g \<longleftrightarrow> fst (Request_Validate req) = None \<and>
     (\<exists>g0. pg_repo ex (rq_GraphID req) = Some g0 \<and>
       ValidateCoreGraph (pv_ids pv) (pv_ids' pv) (if ValidateCycles (rq_Config req) then [\<lparr>CheckCycles = True\<rparr>] else [])
         (Some g0) = (None, Some g))"

lemma Pregel_Execute_accepted:
  assumes "pregel_accepted pv req ex g"
  obtains ex1 req' where "Request_Validate req = (None, req')" and "pg_process ex1 = pg_process ex" "pg_next ex1 = pg_next ex"
    and "pg_executions ex1 = pg_executions ex" "0 < MaxSteps (rq_Config req')" "rq_Input req' = rq_Input req"
    and "fst (Pregel_Execute pv req ex) = fst (pregel_run pv g (pregel_context pv req') (pregel_register (pregel_context pv req') ex1))"
    and "snd (snd (Pregel_Execute pv req ex))
      = snd (pregel_run pv g (pregel_context pv req') (pregel_register (pregel_context pv req') ex1))"
proof -
  obtain req' where req': "Request_Validate req = (None, req')"
    using assms unfolding pregel_accepted_def by (metis prod.collapse)
  note ok = Request_Validate_ok [OF req']
  from assms obtain g0 where g0: "pg_repo ex (rq_GraphID req) = Some g0"
    "ValidateCoreGraph (pv_ids pv) (pv_ids' pv) (if ValidateCycles (rq_Config req) then [\<lparr>CheckCycles = True\<rparr>] else [])
         (Some g0) = (None, Some g)" by (auto simp: pregel_accepted_def)
  let ?ex1 = "ex\<lparr>pg_repo := (pg_repo ex)(rq_GraphID req' \<mapsto> g)\<rparr>"
  let ?c = "pregel_context pv req'"
  obtain q ex2 where run: "pregel_run pv g ?c (pregel_register ?c ?ex1) = (q, ex2)" by fastforce
  have "Pregel_Execute pv req ex = (q, req', ex2)"
    using g0 ok req' run by (simp add: Pregel_Execute_def Repo_Get_def Let_def)
  then show ?thesis by (intro that [of req' ?ex1]) (use req' ok run in simp_all)
qed

subsection \<open>Properties\<close>

text \<open>
  C4: nodes run alone. An accepted execution without time-outs returns, for every scheduling of the
  workers; it completes exactly if no node, run by itself on the input until it has no next node or
  \<^verbatim>\<open>MaxSteps\<close> times over, fails; and then its output merges the states of all nodes of the graph,
  in the order in which Go ranges over them. No node sees what another has computed, nodes that no
  edge reaches run like the others, and edges only decide how often a node repeats.
\<close>

theorem pregel_runs_nodes_alone:
  assumes "pregel_accepted pv req ex g" and "well_keyed g" and "pregel_orders pv g" and "edge_evaluator (pg_next ex)"
  shows "(\<forall>k s ms. \<exists>r. GraphVertex_Compute (pg_process ex) (pg_next ex) g k s ms = Returns r)
    \<and> (\<exists>rs err. fst (Pregel_Execute pv req ex) = Returns (Some rs, err)
    \<and> (let out = alone ex g (MaxSteps (rq_Config (snd (Request_Validate req)))) (rq_Input req) in
        (err = None \<longleftrightarrow> (\<forall>k \<in> dom (g_Nodes g). \<exists>s. out k = Inr s))
      \<and> (err = None \<longrightarrow> rs_Status rs = ExecutionStatusCompleted \<and> rs_Output rs = Some (merged out (pv_final pv)))
      \<and> (err \<noteq> None \<longrightarrow> rs_Status rs = ExecutionStatusFailed)))
    \<and> pg_executions (snd (snd (Pregel_Execute pv req ex)))
      = (pg_executions ex)(generateExecutionID (pv_nano pv) (rq_GraphID req) (rq_ThreadID req) := None)"
  using assms(1)
proof (rule Pregel_Execute_accepted)
  fix ex1 req'
  assume req': "Request_Validate req = (None, req')" and parts: "pg_process ex1 = pg_process ex" "pg_next ex1 = pg_next ex"
    "pg_executions ex1 = pg_executions ex" and max: "0 < MaxSteps (rq_Config req')" "rq_Input req' = rq_Input req"
    and exec: "fst (Pregel_Execute pv req ex)
      = fst (pregel_run pv g (pregel_context pv req') (pregel_register (pregel_context pv req') ex1))"
    "snd (snd (Pregel_Execute pv req ex))
      = snd (pregel_run pv g (pregel_context pv req') (pregel_register (pregel_context pv req') ex1))"
  let ?c = "pregel_context pv req'"
  have c: "xc_Config ?c = rq_Config req'" "xc_State ?c = rq_Input req"
    "xc_ExecutionID ?c = generateExecutionID (pv_nano pv) (rq_GraphID req) (rq_ThreadID req)"
    using Request_Validate_ok [OF req'] by (simp_all add: pregel_context_def)
  have alone: "alone (pregel_register ?c ex1) g m s = alone ex g m s" for m s
    by (simp add: alone_def [abs_def] pregel_register_def parts)
  have "0 < MaxSteps (xc_Config ?c)" using max c by simp
  from pregel_run_alone [OF assms(2,3) this, of "pregel_register ?c ex1"] graph_program_returns [OF assms(2,4)] show ?thesis
    unfolding exec alone c using req' by (simp add: Let_def pregel_register_def parts c)
qed

text \<open>Two nodes without edges, the second unreachable: its output is there nevertheless.\<close>

lemma solo_numeral [simp]:
  "solo f (numeral k) s =
     (case cr_Error (f s) of
        Some err \<Rightarrow> Inl err
      | None \<Rightarrow> if cr_Halt (f s) then Inr (cr_State (f s)) else solo f (pred_numeral k) (cr_State (f s)))"
  by (simp add: numeral_eq_Suc)

definition sample_pregel :: "(unit, unit) PregelGraphExecutor" where
  "sample_pregel = NewPregelGraphExecutor (Process NewDefaultNodeProcessor) GetNextNodes
     (\<lambda>_ cid m. (Fails ErrCheckpointNotFound, m)) () [''g'' \<mapsto> sample_graph []]"

definition sample_pregel_env :: "unit pregel_env" where
  "sample_pregel_env = \<lparr>pv_nano = 5, pv_start = 0, pv_end = 0, pv_ids = [''a'', ''b''], pv_ids' = [''a'', ''b''],
     pv_nodes = [''a'', ''b''], pv_vids = [''a'', ''b''], pv_final = [''a'', ''b''], pv_numCPU = 1, pv_clock = (\<lambda>_. 0),
     pv_choices = (\<lambda>_. \<lparr>so_ids = [''a'', ''b''], so_arrive = (\<lambda>_. 0), so_deadline = None, so_keys = []\<rparr>),
     pv_delivered = (\<lambda>evs. evs), pv_handled = (\<lambda>_. 0), pv_load = ()\<rparr>"

theorem pregel_runs_nodes_alone_witness:
  "\<exists>rs out. fst (Pregel_Execute sample_pregel_env sample_request sample_pregel) = Returns (Some rs, None)
    \<and> rs_Output rs = Some out \<and> out ''processed_by'' = Some (VStr ''b'')"
proof -
  let ?g = "sample_graph []"
  have acc: "pregel_accepted sample_pregel_env sample_request sample_pregel ?g"
    using sample_validates [of "[]"]
    by (simp add: pregel_accepted_def sample_request_valid) (simp add: sample_pregel_def NewPregelGraphExecutor_def
        sample_request_def simple_config_def sample_pregel_env_def)
  have keyed: "well_keyed ?g" by (auto simp: well_keyed_def sample_graph_def sample_node_def split: if_splits)
  have orders: "pregel_orders sample_pregel_env ?g"
    using sample_order by (simp add: pregel_orders_def sample_pregel_env_def sp_choices_def)
  have parts: "pg_next sample_pregel = GetNextNodes" "pg_process sample_pregel = Process NewDefaultNodeProcessor"
    by (simp_all add: sample_pregel_def NewPregelGraphExecutor_def)
  have req: "MaxSteps (rq_Config sample_request) = 100" "rq_Input sample_request = None"
    by (simp_all add: sample_request_def simple_config_def)
  have node: "g_Nodes ?g k = Some (Some (sample_node k))" if "k \<in> {''a'', ''b''}" for k
    using that by (auto simp: sample_graph_def)
  have proc: "Process NewDefaultNodeProcessor (sample_node k) (Some Map.empty)
      = Inr (Some [''processed_by'' \<mapsto> VStr k, ''node_type'' \<mapsto> VStr NodeTypeFunction])" for k
    by (simp add: Process_def NewDefaultNodeProcessor_def RegisterProcessor_def node_type_defs sample_node_def
        FunctionNode_Process_def)
  have nx: "GetNextNodes (sample_node k) (g_Edges ?g) st = Returns []" for k st
    by (simp add: sample_graph_def GetNextNodes_def)
  have out: "alone sample_pregel ?g 100 None k = Inr [''processed_by'' \<mapsto> VStr k, ''node_type'' \<mapsto> VStr NodeTypeFunction]"
    if "k \<in> {''a'', ''b''}" for k
    using node_step_simps(2) [where p = "Process NewDefaultNodeProcessor" and nx = GetNextNodes and s = Map.empty,
        OF node [OF that] proc nx] by (simp add: alone_def parts)
  have dom: "dom (g_Nodes ?g) = {''a'', ''b''}" by (auto simp: sample_graph_def)
  have final: "pv_final sample_pregel_env = [''a'', ''b'']" by (simp add: sample_pregel_env_def)
  show ?thesis
    using pregel_runs_nodes_alone [OF acc keyed orders] dflt.edge_evaluator_axioms
    by (auto simp: Let_def sample_request_valid req parts dom final merged_def out)
qed

end
