(* ===== verification/StreamingExecutor.thy ===== *)
theory StreamingExecutor
  imports Interrupts InMemoryChannel BufferedChannel
begin

section \<open>The streaming executor (internal/app/usecases/streaming\_executor.go)\<close>

text \<open>
  An executor around another one that publishes events to subscribers, hooks and a channel. What is
  not under its control is an argument: the executor below it is any \<^verbatim>\<open>GraphExecutor\<close>,
  the channel any \<open>Send\<close>, hooks and subscribers are functions on a state of their own. Hooks
  return (a hook that does not would hold up the execution) and do not keep the pointers they get.
  Publishing to a subscriber only starts a goroutine: what has been started is recorded in
  \<open>sx_spawned\<close>, and \<open>deliver_step\<close> lets the goroutines run in any order. Errors that are
  only printed go to \<open>sx_printed\<close>.
\<close>

subsection \<open>Events and the event bus\<close>

record ExecutionEvent =
  ee_Type :: string
  ee_ExecutionID :: string
  ee_GraphID :: string
  ee_ThreadID :: string
  ee_NodeID :: string
  ee_Step :: int
  ee_Timestamp :: int
  ee_Data :: "gstate option"
  ee_Error :: string

text \<open>The zero value, with the fields that a literal leaves out.\<close>

definition zero_event :: ExecutionEvent where
  "zero_event = \<lparr>ee_Type = [], ee_ExecutionID = [], ee_GraphID = [], ee_ThreadID = [], ee_NodeID = [],
     ee_Step = 0, ee_Timestamp = 0, ee_Data = None, ee_Error = []\<rparr>"

text \<open>A subscriber: a name for it, and the event types it asks for.\<close>

record 'u EventSubscriber =
  su_Handler :: 'u
  su_GetEventTypes :: "string list"

type_synonym 'u EventBus = "string \<Rightarrow> 'u list"

definition NewEventBus :: "'u EventBus" where
  "NewEventBus = (\<lambda>_. [])"

fun Bus_Subscribe :: "'u \<Rightarrow> string list \<Rightarrow> 'u EventBus \<Rightarrow> 'u EventBus" where
  "Bus_Subscribe u [] eb = eb"
| "Bus_Subscribe u (t # ts) eb = Bus_Subscribe u ts (eb(t := eb t @ [u]))"

text \<open>The goroutines that publishing starts.\<close>

definition Bus_Publish :: "ExecutionEvent \<Rightarrow> 'u EventBus \<Rightarrow> ('u \<times> ExecutionEvent) list" where
  "Bus_Publish ev eb = map (\<lambda>u. (u, ev)) (eb (ee_Type ev))"

subsection \<open>State\<close>

datatype notice =
    NodeHookError string
  | ExecutionHookError string
  | StreamFailed chan_error

type_synonym 'w NodeFinishedHook = "string \<Rightarrow> StepResult \<Rightarrow> 'w \<Rightarrow> string option \<times> StepResult \<times> 'w"
type_synonym 'w ExecutionHook = "ExecutionEvent \<Rightarrow> 'w \<Rightarrow> string option \<times> 'w"

type_synonym 'e stream_result = "(unit, 'e ExecutionResponse option \<times> 'e option) outcome"

record ('v, 'e, 's, 'c, 'w, 'u) StreamingExecutor =
  sx_baseExecutor :: "('v, ExecutionRequest, 'e stream_result, 'e option, 's) GraphExecutor"
  sx_base :: 's
  sx_eventBus :: "'u EventBus"
  sx_streamingChannel :: "(select_arm \<Rightarrow> Message \<Rightarrow> 'c \<Rightarrow> (chan_error, unit) outcome \<times> 'c) option"
  sx_channel :: 'c
  sx_nodeHooks :: "'w NodeFinishedHook list"
  sx_executionHooks :: "'w ExecutionHook list"
  sx_world :: 'w
  sx_spawned :: "('u \<times> ExecutionEvent) list"
  sx_printed :: "notice list"

definition NewStreamingExecutor ::
  "('v, ExecutionRequest, 'e stream_result, 'e option, 's) GraphExecutor \<Rightarrow> 's
   \<Rightarrow> (select_arm \<Rightarrow> Message \<Rightarrow> 'c \<Rightarrow> (chan_error, unit) outcome \<times> 'c) option \<Rightarrow> 'c \<Rightarrow> 'w
   \<Rightarrow> ('v, 'e, 's, 'c, 'w, 'u) StreamingExecutor" where
  "NewStreamingExecutor b st ch c w =
     \<lparr>sx_baseExecutor = b, sx_base = st, sx_eventBus = NewEventBus, sx_streamingChannel = ch, sx_channel = c,
      sx_nodeHooks = [], sx_executionHooks = [], sx_world = w, sx_spawned = [], sx_printed = []\<rparr>"

definition AddNodeFinishedHook ::
  "'w NodeFinishedHook \<Rightarrow> ('v, 'e, 's, 'c, 'w, 'u) StreamingExecutor \<Rightarrow> ('v, 'e, 's, 'c, 'w, 'u) StreamingExecutor" where
  "AddNodeFinishedHook hook se = se\<lparr>sx_nodeHooks := sx_nodeHooks se @ [hook]\<rparr>"

definition AddExecutionHook ::
  "'w ExecutionHook \<Rightarrow> ('v, 'e, 's, 'c, 'w, 'u) StreamingExecutor \<Rightarrow> ('v, 'e, 's, 'c, 'w, 'u) StreamingExecutor" where
  "AddExecutionHook hook se = se\<lparr>sx_executionHooks := sx_executionHooks se @ [hook]\<rparr>"

definition Stream_Subscribe ::
  "'u EventSubscriber \<Rightarrow> ('v, 'e, 's, 'c, 'w, 'u) StreamingExecutor \<Rightarrow> ('v, 'e, 's, 'c, 'w, 'u) StreamingExecutor" where
  "Stream_Subscribe u se =
     se\<lparr>sx_eventBus := Bus_Subscribe (su_Handler u) (su_GetEventTypes u) (sx_eventBus se)\<rparr>"

text \<open>
  The choices of a call. The events of a call are numbered from 0: \<open>sv_now\<close> is the clock when
  event \<open>i\<close> is made, \<open>sv_nano\<close> when it is sent, \<open>sv_arm\<close> the arm the channel's select
  takes. \<open>sv_payload\<close> and \<open>sv_value\<close> box an event and the streaming data into interface
  values, \<open>sv_text\<close> is \<^verbatim>\<open>err.Error()\<close>, \<open>sv_rfc3339\<close> formats a time in the local zone.
\<close>

record ('v, 'e) stream_env =
  sv_now :: "nat \<Rightarrow> int"
  sv_start :: int
  sv_nano :: "nat \<Rightarrow> int"
  sv_arm :: "nat \<Rightarrow> select_arm"
  sv_payload :: "ExecutionEvent \<Rightarrow> gval"
  sv_value :: "gstate \<Rightarrow> 'v"
  sv_text :: "'e \<Rightarrow> string"
  sv_rfc3339 :: "int \<Rightarrow> string"

subsection \<open>Publishing\<close>

definition event_message :: "('v, 'e) stream_env \<Rightarrow> nat \<Rightarrow> ExecutionEvent \<Rightarrow> Message" where
  "event_message sv i ev =
     \<lparr>m_ID = ''exec-event-'' @ show_int (sv_nano sv i), m_Type = MessageTypeData, m_Source = ''streaming-executor'',
      m_Target = ''event-monitor'', m_Payload = sv_payload sv ev,
      m_Headers = [''event-type'' \<mapsto> ee_Type ev, ''execution-id'' \<mapsto> ee_ExecutionID ev,
                   ''timestamp'' \<mapsto> sv_rfc3339 sv (ee_Timestamp ev)],
      m_Metadata = Map.empty\<rparr>"

definition streamEvent ::
  "('v, 'e) stream_env \<Rightarrow> nat \<Rightarrow> ExecutionEvent \<Rightarrow> ('v, 'e, 's, 'c, 'w, 'u) StreamingExecutor
   \<Rightarrow> (unit, unit) outcome \<times> ('v, 'e, 's, 'c, 'w, 'u) StreamingExecutor" where
  "streamEvent sv i ev se =
     (case sx_streamingChannel se of
        None \<Rightarrow> (Returns (), se)
      | Some snd_op \<Rightarrow>
          (case snd_op (sv_arm sv i) (event_message sv i ev) (sx_channel se) of
             (r, c) \<Rightarrow>
               (let se1 = se\<lparr>sx_channel := c\<rparr>
                in case r of
                     Returns _ \<Rightarrow> (Returns (), se1)
                   | Fails err \<Rightarrow> (Returns (), se1\<lparr>sx_printed := sx_printed se1 @ [StreamFailed err]\<rparr>)
                   | Blocks \<Rightarrow> (Blocks, se1)
                   | Deadlocks \<Rightarrow> (Deadlocks, se1)
                   | Panics e \<Rightarrow> (Panics e, se1))))"

fun call_hooks :: "'w ExecutionHook list \<Rightarrow> ExecutionEvent \<Rightarrow> notice list \<times> 'w \<Rightarrow> notice list \<times> 'w" where
  "call_hooks [] ev (ns, w) = (ns, w)"
| "call_hooks (hook # hooks) ev (ns, w) =
     (case hook ev w of
        (Some err, w') \<Rightarrow> call_hooks hooks ev (ns @ [ExecutionHookError err], w')
      | (None, w') \<Rightarrow> call_hooks hooks ev (ns, w'))"

definition publishEvent ::
  "('v, 'e) stream_env \<Rightarrow> nat \<Rightarrow> ExecutionEvent \<Rightarrow> ('v, 'e, 's, 'c, 'w, 'u) StreamingExecutor
   \<Rightarrow> (unit, unit) outcome \<times> ('v, 'e, 's, 'c, 'w, 'u) StreamingExecutor" where
  "publishEvent sv i ev se =
     (let se1 = se\<lparr>sx_spawned := sx_spawned se @ Bus_Publish ev (sx_eventBus se)\<rparr>
      in case call_hooks (sx_executionHooks se1) ev (sx_printed se1, sx_world se1) of
           (ns, w) \<Rightarrow> streamEvent sv i ev (se1\<lparr>sx_printed := ns, sx_world := w\<rparr>))"

fun node_hooks :: "'w NodeFinishedHook list \<Rightarrow> string \<Rightarrow> StepResult \<Rightarrow> notice list \<times> 'w \<Rightarrow> StepResult \<times> notice list \<times> 'w" where
  "node_hooks [] nid step (ns, w) = (step, ns, w)"
| "node_hooks (hook # hooks) nid step (ns, w) =
     (case hook nid step w of
        (Some err, step', w') \<Rightarrow> node_hooks hooks nid step' (ns @ [NodeHookError err], w')
      | (None, step', w') \<Rightarrow> node_hooks hooks nid step' (ns, w'))"

definition callNodeFinishedHooks ::
  "string \<Rightarrow> StepResult \<Rightarrow> ('v, 'e, 's, 'c, 'w, 'u) StreamingExecutor
   \<Rightarrow> StepResult \<times> ('v, 'e, 's, 'c, 'w, 'u) StreamingExecutor" where
  "callNodeFinishedHooks nid step se =
     (case node_hooks (sx_nodeHooks se) nid step (sx_printed se, sx_world se) of
        (step', ns, w) \<Rightarrow> (step', se\<lparr>sx_printed := ns, sx_world := w\<rparr>))"

subsection \<open>Execute\<close>

definition started_event :: "('v, 'e) stream_env \<Rightarrow> ExecutionRequest \<Rightarrow> ExecutionEvent" where
  "started_event sv req = zero_event\<lparr>ee_Type := ''started'', ee_GraphID := rq_GraphID req,
     ee_ThreadID := rq_ThreadID req, ee_Timestamp := sv_now sv 0,
     ee_Data := Some [''input'' \<mapsto> VMap (nil_map (rq_Input req)), ''config'' \<mapsto> VConfig (rq_Config req)]\<rparr>"

definition failed_event ::
  "('v, 'e) stream_env \<Rightarrow> nat \<Rightarrow> ExecutionRequest \<Rightarrow> 'e ExecutionResponse \<Rightarrow> 'e \<Rightarrow> ExecutionEvent" where
  "failed_event sv i req rs err = zero_event\<lparr>ee_Type := ''failed'', ee_ExecutionID := rs_ExecutionID rs,
     ee_GraphID := rq_GraphID req, ee_ThreadID := rq_ThreadID req, ee_Timestamp := sv_now sv i,
     ee_Error := sv_text sv err\<rparr>"

definition completed_event ::
  "('v, 'e) stream_env \<Rightarrow> nat \<Rightarrow> ExecutionRequest \<Rightarrow> 'e ExecutionResponse \<Rightarrow> ExecutionEvent" where
  "completed_event sv i req rs = zero_event\<lparr>ee_Type := ''completed'', ee_ExecutionID := rs_ExecutionID rs,
     ee_GraphID := rq_GraphID req, ee_ThreadID := rq_ThreadID req, ee_Timestamp := sv_now sv i,
     ee_Data := Some [''output'' \<mapsto> VMap (nil_map (rs_Output rs)),
        ''steps'' \<mapsto> VInt (word_of_int (int (length (rs_Steps rs)))), ''duration'' \<mapsto> VDuration (rs_Duration rs)]\<rparr>"

definition node_started_event :: "'e ExecutionResponse \<Rightarrow> StepResult \<Rightarrow> ExecutionEvent" where
  "node_started_event rs step = zero_event\<lparr>ee_Type := ''node_started'', ee_ExecutionID := rs_ExecutionID rs,
     ee_GraphID := rs_GraphID rs, ee_ThreadID := rs_ThreadID rs, ee_NodeID := sr_NodeID step,
     ee_Step := sr_StepNumber step, ee_Timestamp := sr_StartTime step\<rparr>"

text \<open>An empty \<^verbatim>\<open>step.Error\<close> leaves the field at its zero value, which is the empty string too.\<close>

definition node_finished_event :: "'e ExecutionResponse \<Rightarrow> StepResult \<Rightarrow> ExecutionEvent" where
  "node_finished_event rs step =
     (let ev = zero_event\<lparr>ee_Type := ''node_finished'', ee_ExecutionID := rs_ExecutionID rs,
            ee_GraphID := rs_GraphID rs, ee_ThreadID := rs_ThreadID rs, ee_NodeID := sr_NodeID step,
            ee_Step := sr_StepNumber step, ee_Timestamp := sr_EndTime step,
            ee_Data := Some [''duration'' \<mapsto> VDuration (sr_Duration step), ''status'' \<mapsto> VStr (sr_Status step),
               ''output'' \<mapsto> VMap (nil_map (sr_Output step))]\<rparr>
      in if sr_Error step \<noteq> [] then ev\<lparr>ee_Error := sr_Error step\<rparr> else ev)"

text \<open>
  The loop over the steps: those before \<open>k\<close> are done. A publication that does not return ends
  the loop with its outcome.
\<close>

fun enhance_loop ::
  "('v, 'e) stream_env \<Rightarrow> 'e ExecutionResponse \<Rightarrow> nat \<Rightarrow> StepResult list
   \<Rightarrow> ('v, 'e, 's, 'c, 'w, 'u) StreamingExecutor
   \<Rightarrow> (unit, StepResult list) outcome \<times> ('v, 'e, 's, 'c, 'w, 'u) StreamingExecutor" where
  "enhance_loop sv rs k [] se = (Returns [], se)"
| "enhance_loop sv rs k (step # steps) se =
     and_then (publishEvent sv (1 + 2 * k) (node_started_event rs step) se) (\<lambda>_ se1.
     and_then (publishEvent sv (2 + 2 * k) (node_finished_event rs step) se1) (\<lambda>_ se2.
       case callNodeFinishedHooks (sr_NodeID step) step se2 of
         (step', se3) \<Rightarrow>
           and_then (enhance_loop sv rs (Suc k) steps se3) (\<lambda>rest se4. (Returns (step' # rest), se4))))"

definition enhanceResponseWithStreaming ::
  "('v, 'e) stream_env \<Rightarrow> 'e ExecutionResponse \<Rightarrow> ('v, 'e, 's, 'c, 'w, 'u) StreamingExecutor
   \<Rightarrow> (unit, 'e ExecutionResponse) outcome \<times> ('v, 'e, 's, 'c, 'w, 'u) StreamingExecutor" where
  "enhanceResponseWithStreaming sv rs se =
     and_then (enhance_loop sv rs 0 (rs_Steps rs) se) (\<lambda>steps se'. (Returns (rs\<lparr>rs_Steps := steps\<rparr>), se'))"

definition createStreamingContext :: "('v, 'e) stream_env \<Rightarrow> ExecutionRequest \<Rightarrow> 'v go_context \<Rightarrow> 'v go_context" where
  "createStreamingContext sv req ctx =
     ctx((''streamingDataKey'', ''streaming_data'') \<mapsto> sv_value sv
       [''streaming_enabled'' \<mapsto> VBool True, ''graph_id'' \<mapsto> VStr (rq_GraphID req),
        ''thread_id'' \<mapsto> VStr (rq_ThreadID req), ''start_time'' \<mapsto> VTime (sv_start sv)])"

text \<open>A nil response without an error is dereferenced by the loop over its steps.\<close>

definition executeWithStreaming ::
  "('v, 'e) stream_env \<Rightarrow> 'v go_context \<Rightarrow> ExecutionRequest \<Rightarrow> ('v, 'e, 's, 'c, 'w, 'u) StreamingExecutor
   \<Rightarrow> 'e stream_result \<times> ('v, 'e, 's, 'c, 'w, 'u) StreamingExecutor" where
  "executeWithStreaming sv ctx req se =
     (case gx_Execute (sx_baseExecutor se) (createStreamingContext sv req ctx) req (sx_base se) of
        (r, st) \<Rightarrow>
          and_then (r, se\<lparr>sx_base := st\<rparr>) (\<lambda>(resp, err) se1.
            case err of
              Some e \<Rightarrow> (Returns (resp, Some e), se1)
            | None \<Rightarrow>
                (case resp of
                   None \<Rightarrow> (Panics ''nil pointer dereference'', se1)
                 | Some rs \<Rightarrow> and_then (enhanceResponseWithStreaming sv rs se1) (\<lambda>rs' se2. (Returns (Some rs', None), se2)))))"

text \<open>The event that closes a run, and its publication.\<close>

definition closing_event ::
  "('v, 'e) stream_env \<Rightarrow> nat \<Rightarrow> ExecutionRequest \<Rightarrow> 'e ExecutionResponse \<times> 'e option \<Rightarrow> ExecutionEvent" where
  "closing_event sv i req r = (case r of
     (rs, Some err) \<Rightarrow> failed_event sv i req rs err
   | (rs, None) \<Rightarrow> completed_event sv i req rs)"

definition Stream_Execute ::
  "('v, 'e) stream_env \<Rightarrow> 'v go_context \<Rightarrow> ExecutionRequest \<Rightarrow> ('v, 'e, 's, 'c, 'w, 'u) StreamingExecutor
   \<Rightarrow> 'e stream_result \<times> ('v, 'e, 's, 'c, 'w, 'u) StreamingExecutor" where
  "Stream_Execute sv ctx req se =
     and_then (publishEvent sv 0 (started_event sv req) se) (\<lambda>_ se1.
     and_then (executeWithStreaming sv ctx req se1) (\<lambda>(resp, err) se2.
       case resp of
         None \<Rightarrow> (Panics ''nil pointer dereference'', se2)
       | Some rs \<Rightarrow>
           (let i = (if err = None then 1 + 2 * length (rs_Steps rs) else 1)
            in and_then (publishEvent sv i (closing_event sv i req (rs, err)) se2)
                 (\<lambda>_ se3. (Returns (Some rs, err), se3)))))"

subsection \<open>Resume, Stop, GetStatus\<close>

definition Stream_Resume ::
  "('v, 'e) stream_env \<Rightarrow> 'v go_context \<Rightarrow> string \<Rightarrow> ExecutionRequest \<Rightarrow> ('v, 'e, 's, 'c, 'w, 'u) StreamingExecutor
   \<Rightarrow> 'e stream_result \<times> ('v, 'e, 's, 'c, 'w, 'u) StreamingExecutor" where
  "Stream_Resume sv ctx cid req se =
     and_then (publishEvent sv 0 (zero_event\<lparr>ee_Type := ''resume_started'', ee_GraphID := rq_GraphID req,
          ee_ThreadID := rq_ThreadID req, ee_Timestamp := sv_now sv 0,
          ee_Data := Some [''checkpoint_id'' \<mapsto> VStr cid]\<rparr>) se) (\<lambda>_ se1.
       case gx_Resume (sx_baseExecutor se1) ctx cid req (sx_base se1) of (r, st) \<Rightarrow> (r, se1\<lparr>sx_base := st\<rparr>))"

definition Stream_Stop ::
  "('v, 'e) stream_env \<Rightarrow> 'v go_context \<Rightarrow> string \<Rightarrow> ('v, 'e, 's, 'c, 'w, 'u) StreamingExecutor
   \<Rightarrow> (unit, 'e option) outcome \<times> ('v, 'e, 's, 'c, 'w, 'u) StreamingExecutor" where
  "Stream_Stop sv ctx eid se =
     and_then (publishEvent sv 0 (zero_event\<lparr>ee_Type := ''stopped'', ee_ExecutionID := eid, ee_Timestamp := sv_now sv 0\<rparr>) se) (\<lambda>_ se1.
       case gx_Stop (sx_baseExecutor se1) ctx eid (sx_base se1) of (r, st) \<Rightarrow> (Returns r, se1\<lparr>sx_base := st\<rparr>))"

definition Stream_GetStatus ::
  "'v go_context \<Rightarrow> string \<Rightarrow> ('v, 'e, 's, 'c, 'w, 'u) StreamingExecutor \<Rightarrow> 'e stream_result" where
  "Stream_GetStatus ctx eid se = gx_GetStatus (sx_baseExecutor se) ctx eid (sx_base se)"

subsection \<open>Built-in subscribers\<close>

text \<open>The logging subscriber only prints; its event types are what matters to the bus.\<close>

definition Logging_GetEventTypes :: "string list" where
  "Logging_GetEventTypes = [''started'', ''node_started'', ''node_finished'', ''completed'', ''failed'', ''stopped'']"

record MetricsSubscriber =
  mx_ExecutionCounts :: "string \<rightharpoonup> int"
  mx_NodeDurations :: "string \<rightharpoonup> int list"
  mx_ExecutionTimes :: "string \<rightharpoonup> int"
  mx_EventCounts :: "string \<rightharpoonup> int"

definition NewMetricsSubscriber :: MetricsSubscriber where
  "NewMetricsSubscriber = \<lparr>mx_ExecutionCounts = Map.empty, mx_NodeDurations = Map.empty,
     mx_ExecutionTimes = Map.empty, mx_EventCounts = Map.empty\<rparr>"

definition increment :: "string \<Rightarrow> (string \<rightharpoonup> int) \<Rightarrow> string \<rightharpoonup> int" where
  "increment k m = m(k \<mapsto> (case m k of Some n \<Rightarrow> n + 1 | None \<Rightarrow> 1))"

text \<open>\<^verbatim>\<open>event.Data["duration"].(time.Duration)\<close>\<close>

definition event_duration :: "ExecutionEvent \<Rightarrow> int option" where
  "event_duration ev = (case nil_map (ee_Data ev) ''duration'' of Some (VDuration d) \<Rightarrow> Some d | _ \<Rightarrow> None)"

definition Subscriber_HandleEvent :: "ExecutionEvent \<Rightarrow> MetricsSubscriber \<Rightarrow> MetricsSubscriber" where
  "Subscriber_HandleEvent ev m =
     (let m1 = m\<lparr>mx_EventCounts := increment (ee_Type ev) (mx_EventCounts m)\<rparr>
      in if ee_Type ev = ''completed'' \<or> ee_Type ev = ''failed'' then
           (let m2 = m1\<lparr>mx_ExecutionCounts := increment (ee_Type ev) (mx_ExecutionCounts m1)\<rparr>
            in case event_duration ev of
                 Some d \<Rightarrow> m2\<lparr>mx_ExecutionTimes := (mx_ExecutionTimes m2)(ee_ExecutionID ev \<mapsto> d)\<rparr>
               | None \<Rightarrow> m2)
         else if ee_Type ev = ''node_finished'' then
           (case event_duration ev of
              Some d \<Rightarrow> m1\<lparr>mx_NodeDurations := (mx_NodeDurations m1)(ee_NodeID ev \<mapsto>
                  (case mx_NodeDurations m1 (ee_NodeID ev) of Some ds \<Rightarrow> ds @ [d] | None \<Rightarrow> [d]))\<rparr>
            | None \<Rightarrow> m1)
         else m1)"

definition Metrics_GetEventTypes :: "string list" where
  "Metrics_GetEventTypes = [''started'', ''node_finished'', ''completed'', ''failed'']"

record SubscriberMetrics =
  mr_execution_counts :: "string \<rightharpoonup> int"
  mr_avg_node_durations :: "string \<rightharpoonup> int"
  mr_execution_times :: "string \<rightharpoonup> int"
  mr_event_counts :: "string \<rightharpoonup> int"

text \<open>The sum wraps at 64 bits; the division of Go truncates.\<close>

fun total_duration :: "int \<Rightarrow> int list \<Rightarrow> int" where
  "total_duration acc [] = acc"
| "total_duration acc (d # ds) = total_duration (i64 (acc + d)) ds"

definition average_duration :: "int list \<Rightarrow> int option" where
  "average_duration ds = (if 0 < length ds then Some (total_duration 0 ds sdiv int (length ds)) else None)"

definition GetMetrics :: "MetricsSubscriber \<Rightarrow> SubscriberMetrics" where
  "GetMetrics m = \<lparr>mr_execution_counts = mx_ExecutionCounts m,
     mr_avg_node_durations = (\<lambda>node. Option.bind (mx_NodeDurations m node) average_duration),
     mr_execution_times = mx_ExecutionTimes m, mr_event_counts = mx_EventCounts m\<rparr>"

text \<open>A started goroutine runs its handler, whichever is next.\<close>

inductive deliver_step ::
  "('u \<Rightarrow> ExecutionEvent \<Rightarrow> 'w \<Rightarrow> 'w) \<Rightarrow> ('u \<times> ExecutionEvent) multiset \<times> 'w
   \<Rightarrow> ('u \<times> ExecutionEvent) multiset \<times> 'w \<Rightarrow> bool" for handle where
  deliver: "deliver_step handle (add_mset (u, ev) ts, w) (ts, handle u ev w)"

end
