(* ===== verification/StreamProps.thy ===== *)
theory StreamProps
  imports StreamingExecutor
begin

section \<open>Properties of the streaming executor\<close>

text \<open>
  What a run publishes, in which order, and what becomes of it in a bounded channel. The client of
  the channel is a run; what it needs of the channel is the locale \<open>open_channel\<close>, which the
  in-memory and the buffered channel interpret.
\<close>

subsection \<open>A channel that accepts while it has room\<close>

locale open_channel = bounded_channel +
  fixes ready :: "'a \<Rightarrow> bool"
  assumes ready_inv: "ready c \<Longrightarrow> inv c"
    and accepts: "ready c \<Longrightarrow> Message_Validate m = None \<Longrightarrow> length (contents c) < capacity c \<Longrightarrow>
      \<exists>c'. snd_op ArmChan m c = (Returns (), c') \<and> ready c'"
    and waits: "ready c \<Longrightarrow> Message_Validate m = None \<Longrightarrow> capacity c \<le> length (contents c) \<Longrightarrow>
      snd_op ArmChan m c = (Blocks, c)"
begin

lemma accept_one:
  assumes "ready c" and "Message_Validate m = None" and "length (contents c) < capacity c"
  shows "\<exists>c'. snd_op ArmChan m c = (Returns (), c') \<and> ready c' \<and> contents c' = contents c @ [view m]
    \<and> capacity c' = capacity c"
  using accepts [OF assms] send_contents [OF ready_inv [OF assms(1)]] send_capacity by fastforce

end

interpretation inmem_open: open_channel InMem_Send InMem_Receive inmem_contents "\<lambda>m. m" inmem_open InMem_Cap inmem_open
  by unfold_locales (auto simp: inmem_ops inmem_open_def inmem_inv_def InMem_Cap_def)

definition buf_ready :: "BufChan \<Rightarrow> bool" where
  "buf_ready c \<longleftrightarrow> buf_inv c \<and> \<not> bc_closed c"

interpretation buf_open: open_channel Buf_Send Buf_Receive bc_buffer "\<lambda>m. m" buf_inv "\<lambda>c. nat (Buf_Cap c)" buf_ready
  by unfold_locales (auto simp: buf_ops buf_ready_def buf_inv_def Buf_Cap_def)

subsection \<open>Publishing a list of events\<close>

fun publish_all ::
  "('v, 'e) stream_env \<Rightarrow> nat \<Rightarrow> ExecutionEvent list \<Rightarrow> ('v, 'e, 's, 'c, 'w, 'u) StreamingExecutor
   \<Rightarrow> (unit, unit) outcome \<times> ('v, 'e, 's, 'c, 'w, 'u) StreamingExecutor" where
  "publish_all sv i [] se = (Returns (), se)"
| "publish_all sv i (ev # evs) se = and_then (publishEvent sv i ev se) (\<lambda>_ se1. publish_all sv (Suc i) evs se1)"

text \<open>What publishing leaves alone.\<close>

definition same_frame :: "('v, 'e, 's, 'c, 'w, 'u) StreamingExecutor \<Rightarrow> ('v, 'e, 's, 'c, 'w, 'u) StreamingExecutor \<Rightarrow> bool" where
  "same_frame se se' \<longleftrightarrow> sx_baseExecutor se' = sx_baseExecutor se \<and> sx_base se' = sx_base se
     \<and> sx_eventBus se' = sx_eventBus se \<and> sx_streamingChannel se' = sx_streamingChannel se
     \<and> sx_nodeHooks se' = sx_nodeHooks se \<and> sx_executionHooks se' = sx_executionHooks se"

lemma same_frame_refl [simp]: "same_frame se se"
  by (simp add: same_frame_def)

lemma same_frame_trans: "same_frame a b \<Longrightarrow> same_frame b c \<Longrightarrow> same_frame a c"
  by (simp add: same_frame_def)

lemma event_message_valid [simp]: "Message_Validate (event_message sv i ev) = None"
  by (simp add: Message_Validate_def event_message_def MessageTypeData_def)

lemma streamEvent_keeps:
  assumes "streamEvent sv i ev se = (r, se')"
  shows "same_frame se se' \<and> sx_spawned se' = sx_spawned se \<and> sx_world se' = sx_world se"
  using assms by (auto simp: streamEvent_def same_frame_def Let_def split: option.splits prod.splits outcome.splits)

lemma publishEvent_keeps:
  assumes "publishEvent sv i ev se = (r, se')"
  shows "same_frame se se' \<and> sx_spawned se' = sx_spawned se @ Bus_Publish ev (sx_eventBus se)"
proof -
  obtain ns w where "call_hooks (sx_executionHooks se) ev (sx_printed se, sx_world se) = (ns, w)" by fastforce
  then show ?thesis using assms streamEvent_keeps [of sv i ev _ r se']
    by (auto simp: publishEvent_def same_frame_def Let_def)
qed

lemma publish_all_keeps:
  assumes "publish_all sv i evs se = (Returns u, se')"
  shows "same_frame se se' \<and> sx_spawned se' = sx_spawned se @ concat (map (\<lambda>ev. Bus_Publish ev (sx_eventBus se)) evs)"
  using assms
proof (induction evs arbitrary: i se)
  case (Cons ev evs)
  from Cons.prems obtain se1 where 1: "publishEvent sv i ev se = (Returns (), se1)"
    and 2: "publish_all sv (Suc i) evs se1 = (Returns u, se')"
    by (auto simp: and_then_Returns)
  from publishEvent_keeps [OF 1] Cons.IH [OF 2] show ?case by (auto simp: same_frame_def)
qed simp

lemma publish_all_append:
  "publish_all sv i (as @ bs) se = and_then (publish_all sv i as se) (\<lambda>_ se1. publish_all sv (i + length as) bs se1)"
proof (induction as arbitrary: i se)
  case (Cons a as)
  then show ?case by (cases "publishEvent sv i a se"; cases "fst (publishEvent sv i a se)") auto
qed simp

text \<open>Without a channel publishing always returns.\<close>

lemma publish_no_channel:
  assumes "sx_streamingChannel se = None"
  shows "fst (publishEvent sv i ev se) = Returns ()"
proof -
  obtain ns w where "call_hooks (sx_executionHooks se) ev (sx_printed se, sx_world se) = (ns, w)" by fastforce
  then show ?thesis using assms by (simp add: publishEvent_def streamEvent_def Let_def)
qed

subsection \<open>Publishing into a channel with room\<close>

definition event_messages :: "('v, 'e) stream_env \<Rightarrow> nat \<Rightarrow> ExecutionEvent list \<Rightarrow> Message list" where
  "event_messages sv i evs = map (\<lambda>k. event_message sv (i + k) (evs ! k)) [0..<length evs]"

lemma event_messages_Nil [simp]: "event_messages sv i [] = []"
  by (simp add: event_messages_def)

lemma event_messages_Cons [simp]: "event_messages sv i (ev # evs) = event_message sv i ev # event_messages sv (Suc i) evs"
proof -
  have "[0..<Suc (length evs)] = 0 # map Suc [0..<length evs]" by (simp add: map_Suc_upt upt_conv_Cons del: upt_Suc)
  then show ?thesis by (simp add: event_messages_def comp_def del: upt_Suc)
qed

lemma length_event_messages [simp]: "length (event_messages sv i evs) = length evs"
  by (simp add: event_messages_def)

context open_channel
begin

lemma publish_accepted:
  fixes se :: "('v, 'e, 's, 'a, 'w, 'u) StreamingExecutor"
  assumes "sx_streamingChannel se = Some snd_op" and "ready (sx_channel se)" and "sv_arm sv i = ArmChan"
    and "length (contents (sx_channel se)) < capacity (sx_channel se)"
  shows "\<exists>se'. publishEvent sv i ev se = (Returns (), se') \<and> ready (sx_channel se')
    \<and> contents (sx_channel se') = contents (sx_channel se) @ [view (event_message sv i ev)]
    \<and> capacity (sx_channel se') = capacity (sx_channel se)"
proof -
  obtain ns w where hooks: "call_hooks (sx_executionHooks se) ev (sx_printed se, sx_world se) = (ns, w)" by fastforce
  from accept_one [OF assms(2) event_message_valid [of sv i ev] assms(4)] hooks show ?thesis
    using assms(1,3) by (auto simp: publishEvent_def streamEvent_def Let_def)
qed

lemma publish_full:
  fixes se :: "('v, 'e, 's, 'a, 'w, 'u) StreamingExecutor"
  assumes "sx_streamingChannel se = Some snd_op" and "ready (sx_channel se)" and "sv_arm sv i = ArmChan"
    and "capacity (sx_channel se) \<le> length (contents (sx_channel se))"
  shows "fst (publishEvent sv i ev se) = Blocks"
proof -
  obtain ns w where hooks: "call_hooks (sx_executionHooks se) ev (sx_printed se, sx_world se) = (ns, w)" by fastforce
  from waits [OF assms(2) event_message_valid [of sv i ev] assms(4)] hooks show ?thesis
    using assms(1,3) by (simp add: publishEvent_def streamEvent_def Let_def)
qed

lemma publish_all_room:
  fixes se :: "('v, 'e, 's, 'a, 'w, 'u) StreamingExecutor"
  assumes "sx_streamingChannel se = Some snd_op" and "ready (sx_channel se)" and "\<And>i. sv_arm sv i = ArmChan"
    and "length (contents (sx_channel se)) + length evs \<le> capacity (sx_channel se)"
  shows "\<exists>se'. publish_all sv i evs se = (Returns (), se') \<and> ready (sx_channel se') \<and> same_frame se se'
    \<and> contents (sx_channel se') = contents (sx_channel se) @ map view (event_messages sv i evs)
    \<and> capacity (sx_channel se') = capacity (sx_channel se)"
  using assms
proof (induction evs arbitrary: i se)
  case (Cons ev evs)
  obtain se1 where 1: "publishEvent sv i ev se = (Returns (), se1)" "ready (sx_channel se1)"
    "contents (sx_channel se1) = contents (sx_channel se) @ [view (event_message sv i ev)]"
    "capacity (sx_channel se1) = capacity (sx_channel se)"
    using publish_accepted [OF Cons.prems(1,2), of sv i ev] Cons.prems(3,4) by auto
  note frame = publishEvent_keeps [OF 1(1)]
  have "\<exists>se'. publish_all sv (Suc i) evs se1 = (Returns (), se') \<and> ready (sx_channel se') \<and> same_frame se1 se'
    \<and> contents (sx_channel se') = contents (sx_channel se1) @ map view (event_messages sv (Suc i) evs)
    \<and> capacity (sx_channel se') = capacity (sx_channel se1)"
    by (rule Cons.IH) (use Cons.prems 1 frame in \<open>auto simp: same_frame_def\<close>)
  then show ?case using 1 frame by (auto intro: same_frame_trans)
qed (simp add: same_frame_def)

lemma publish_all_blocks:
  fixes se :: "('v, 'e, 's, 'a, 'w, 'u) StreamingExecutor"
  assumes "sx_streamingChannel se = Some snd_op" and "ready (sx_channel se)" and "\<And>i. sv_arm sv i = ArmChan"
    and "capacity (sx_channel se) < length (contents (sx_channel se)) + length evs"
  shows "fst (publish_all sv i evs se) = Blocks"
  using assms
proof (induction evs arbitrary: i se)
  case (Cons ev evs)
  show ?case
  proof (cases "length (contents (sx_channel se)) < capacity (sx_channel se)")
    case True
    obtain se1 where 1: "publishEvent sv i ev se = (Returns (), se1)" "ready (sx_channel se1)"
      "length (contents (sx_channel se1)) = Suc (length (contents (sx_channel se)))"
      "capacity (sx_channel se1) = capacity (sx_channel se)"
      using publish_accepted [OF Cons.prems(1,2,3) True, of i ev] by auto
    have "fst (publish_all sv (Suc i) evs se1) = Blocks"
      by (rule Cons.IH) (use Cons.prems 1 publishEvent_keeps [OF 1(1)] in \<open>auto simp: same_frame_def\<close>)
    then show ?thesis using 1 by simp
  next
    case False
    then have "fst (publishEvent sv i ev se) = Blocks"
      by (intro publish_full Cons.prems) simp
    then show ?thesis by (cases "publishEvent sv i ev se") simp
  qed
next
  case Nil
  then show ?case using bound [OF ready_inv [OF Nil.prems(2)]] by simp
qed

end

subsection \<open>A run as a list of events\<close>

definition node_events :: "'e ExecutionResponse \<Rightarrow> StepResult list \<Rightarrow> ExecutionEvent list" where
  "node_events rs steps = concat (map (\<lambda>step. [node_started_event rs step, node_finished_event rs step]) steps)"

definition completed_events :: "('v, 'e) stream_env \<Rightarrow> ExecutionRequest \<Rightarrow> 'e ExecutionResponse \<Rightarrow> ExecutionEvent list" where
  "completed_events sv req rs = started_event sv req # node_events rs (rs_Steps rs)
     @ [completed_event sv (1 + 2 * length (rs_Steps rs)) req rs]"

lemma length_node_events [simp]: "length (node_events rs steps) = 2 * length steps"
  by (induction steps) (simp_all add: node_events_def)

lemma length_completed_events [simp]: "length (completed_events sv req rs) = 2 * length (rs_Steps rs) + 2"
  by (simp add: completed_events_def)

lemma event_types:
  "ee_Type (started_event sv req) = ''started''" "ee_Type (node_started_event rs step) = ''node_started''"
  "ee_Type (node_finished_event rs step) = ''node_finished''" "ee_Type (completed_event sv i req rs) = ''completed''"
  "ee_Type (failed_event sv i req rs err) = ''failed''"
  by (simp_all add: started_event_def node_started_event_def node_finished_event_def completed_event_def failed_event_def Let_def)

lemma completed_event_types:
  "map ee_Type (completed_events sv req rs)
    = ''started'' # concat (replicate (length (rs_Steps rs)) [''node_started'', ''node_finished'']) @ [''completed'']"
proof -
  have "map ee_Type (node_events rs steps) = concat (replicate (length steps) [''node_started'', ''node_finished''])" for steps
    by (induction steps) (simp_all add: node_events_def event_types)
  then show ?thesis by (simp add: completed_events_def event_types)
qed

lemma enhance_publishes:
  assumes "sx_nodeHooks se = []"
  shows "enhance_loop sv rs k steps se
    = and_then (publish_all sv (1 + 2 * k) (node_events rs steps) se) (\<lambda>_ se'. (Returns steps, se'))"
  using assms
proof (induction steps arbitrary: k se)
  case Nil
  then show ?case by (simp add: node_events_def)
next
  case (Cons step steps)
  let ?s = "node_started_event rs step" and ?f = "node_finished_event rs step"
  obtain r1 se1 where 1: "publishEvent sv (1 + 2 * k) ?s se = (r1, se1)" by fastforce
  obtain r2 se2 where 2: "publishEvent sv (2 + 2 * k) ?f se1 = (r2, se2)" by fastforce
  from publishEvent_keeps [OF 1] publishEvent_keeps [OF 2] Cons.prems have "sx_nodeHooks se2 = []"
    by (simp add: same_frame_def)
  from Cons.IH [OF this, of "Suc k"] this 1 2 show ?case
    by (cases r1; cases r2; cases "publish_all sv (3 + 2 * k) (node_events rs steps) se2";
        cases "fst (publish_all sv (3 + 2 * k) (node_events rs steps) se2)")
      (simp_all add: node_events_def callNodeFinishedHooks_def numeral_eq_Suc)
qed

text \<open>An execution whose base executor completes.\<close>

lemma Stream_Execute_completed:
  assumes "gx_Execute (sx_baseExecutor se) (createStreamingContext sv req ctx) req (sx_base se) = (Returns (Some rs, None), st)"
    and "sx_nodeHooks se = []"
  shows "Stream_Execute sv ctx req se
    = and_then (publishEvent sv 0 (started_event sv req) se) (\<lambda>_ se1.
      and_then (publish_all sv 1 (tl (completed_events sv req rs)) (se1\<lparr>sx_base := st\<rparr>)) (\<lambda>_ se2. (Returns (Some rs, None), se2)))"
  unfolding Stream_Execute_def
proof (rule and_then_cong)
  fix u se1
  assume "publishEvent sv 0 (started_event sv req) se = (Returns u, se1)"
  from publishEvent_keeps [OF this] assms have frame: "sx_baseExecutor se1 = sx_baseExecutor se" "sx_base se1 = sx_base se"
    "sx_nodeHooks se1 = []" by (simp_all add: same_frame_def)
  let ?p = "publish_all sv 1 (node_events rs (rs_Steps rs)) (se1\<lparr>sx_base := st\<rparr>)"
  have "executeWithStreaming sv ctx req se1 = and_then ?p (\<lambda>_ se2. (Returns (Some rs, None), se2))"
    using assms(1) frame enhance_publishes [of "se1\<lparr>sx_base := st\<rparr>" sv rs 0 "rs_Steps rs"]
    by (cases ?p; cases "fst ?p") (simp_all add: executeWithStreaming_def enhanceResponseWithStreaming_def)
  then show "and_then (executeWithStreaming sv ctx req se1) (\<lambda>(resp, err) se2. case resp of
        None \<Rightarrow> (Panics ''nil pointer dereference'', se2)
      | Some rs \<Rightarrow> (let i = (if err = None then 1 + 2 * length (rs_Steps rs) else 1)
          in and_then (publishEvent sv i (closing_event sv i req (rs, err)) se2) (\<lambda>_ se3. (Returns (Some rs, err), se3))))
      = and_then (publish_all sv 1 (tl (completed_events sv req rs)) (se1\<lparr>sx_base := st\<rparr>)) (\<lambda>_ se2. (Returns (Some rs, None), se2))"
    unfolding completed_events_def list.sel publish_all_append
    by (cases ?p; cases "fst ?p"; cases "publishEvent sv (1 + 2 * length (rs_Steps rs))
          (completed_event sv (1 + 2 * length (rs_Steps rs)) req rs) (snd ?p)";
        cases "fst (publishEvent sv (1 + 2 * length (rs_Steps rs))
          (completed_event sv (1 + 2 * length (rs_Steps rs)) req rs) (snd ?p))")
      (simp_all add: closing_event_def)
qed simp

context open_channel
begin

lemma execute_room:
  fixes se :: "('v, 'e, 's, 'a, 'w, 'u) StreamingExecutor"
  assumes base: "gx_Execute (sx_baseExecutor se) (createStreamingContext sv req ctx) req (sx_base se) = (Returns (Some rs, None), st)"
    and hooks: "sx_nodeHooks se = []" and ch: "sx_streamingChannel se = Some snd_op" "ready (sx_channel se)"
    and arms: "\<And>i. sv_arm sv i = ArmChan"
    and room: "length (contents (sx_channel se)) + (2 * length (rs_Steps rs) + 2) \<le> capacity (sx_channel se)"
  shows "\<exists>se'. Stream_Execute sv ctx req se = (Returns (Some rs, None), se')
    \<and> contents (sx_channel se') = contents (sx_channel se) @ map view (event_messages sv 0 (completed_events sv req rs))
    \<and> sx_spawned se' = sx_spawned se @ concat (map (\<lambda>ev. Bus_Publish ev (sx_eventBus se)) (completed_events sv req rs))"
proof -
  let ?e0 = "started_event sv req" and ?evs = "tl (completed_events sv req rs)"
  have evs: "completed_events sv req rs = ?e0 # ?evs" by (simp add: completed_events_def)
  obtain se1 where 1: "publishEvent sv 0 ?e0 se = (Returns (), se1)" "ready (sx_channel se1)"
    "contents (sx_channel se1) = contents (sx_channel se) @ [view (event_message sv 0 ?e0)]"
    "capacity (sx_channel se1) = capacity (sx_channel se)"
    using publish_accepted [OF ch arms, of 0 ?e0] room by auto
  note frame = publishEvent_keeps [OF 1(1)]
  obtain se2 where 2: "publish_all sv 1 ?evs (se1\<lparr>sx_base := st\<rparr>) = (Returns (), se2)"
    "contents (sx_channel se2) = contents (sx_channel se1) @ map view (event_messages sv 1 ?evs)"
    using publish_all_room [of "se1\<lparr>sx_base := st\<rparr>" sv ?evs 1] 1 frame ch arms room
    by (auto simp: same_frame_def)
  have "Stream_Execute sv ctx req se = (Returns (Some rs, None), se2)"
    using Stream_Execute_completed [OF base hooks] 1(1) 2(1) by simp
  moreover have "contents (sx_channel se2)
      = contents (sx_channel se) @ map view (event_messages sv 0 (completed_events sv req rs))"
    using 1(3) 2(2) by (subst evs) simp
  moreover have "sx_spawned se2
      = sx_spawned se @ concat (map (\<lambda>ev. Bus_Publish ev (sx_eventBus se)) (completed_events sv req rs))"
    using publish_all_keeps [OF 2(1)] frame by (subst evs) (simp add: same_frame_def)
  ultimately show ?thesis by blast
qed

lemma execute_no_room:
  fixes se :: "('v, 'e, 's, 'a, 'w, 'u) StreamingExecutor"
  assumes base: "gx_Execute (sx_baseExecutor se) (createStreamingContext sv req ctx) req (sx_base se) = (Returns (Some rs, None), st)"
    and hooks: "sx_nodeHooks se = []" and ch: "sx_streamingChannel se = Some snd_op" "ready (sx_channel se)"
    and arms: "\<And>i. sv_arm sv i = ArmChan"
    and room: "capacity (sx_channel se) < length (contents (sx_channel se)) + (2 * length (rs_Steps rs) + 2)"
  shows "fst (Stream_Execute sv ctx req se) = Blocks"
proof (cases "length (contents (sx_channel se)) < capacity (sx_channel se)")
  case True
  let ?e0 = "started_event sv req" and ?evs = "tl (completed_events sv req rs)"
  obtain se1 where 1: "publishEvent sv 0 ?e0 se = (Returns (), se1)" "ready (sx_channel se1)"
    "length (contents (sx_channel se1)) = Suc (length (contents (sx_channel se)))"
    "capacity (sx_channel se1) = capacity (sx_channel se)"
    using publish_accepted [OF ch arms True, of 0 ?e0] by auto
  have "fst (publish_all sv 1 ?evs (se1\<lparr>sx_base := st\<rparr>)) = Blocks"
    by (rule publish_all_blocks) (use publishEvent_keeps [OF 1(1)] 1 ch arms room in \<open>auto simp: same_frame_def\<close>)
  then show ?thesis using Stream_Execute_completed [OF base hooks] 1(1)
    by (cases "publish_all sv 1 ?evs (se1\<lparr>sx_base := st\<rparr>)") simp
next
  case False
  then have "fst (publishEvent sv 0 (started_event sv req) se) = Blocks"
    by (intro publish_full ch arms) simp
  then show ?thesis using Stream_Execute_completed [OF base hooks]
    by (cases "publishEvent sv 0 (started_event sv req) se") simp
qed

end

subsection \<open>Properties\<close>

lemma default_gx_walk:
  assumes "accepted xe req ex g" and "manager_answers ex" and "edge_evaluator (ge_next ex)"
    and "graph_walk ex g (MaxSteps (rq_Config (snd (Request_Validate req)))) (rq_Input req) = (visits, err)"
  shows "\<exists>ex'. gx_Execute (default_gx xe) ctx req ex = (Returns (Some (response_of xe (start_context xe req) (visits, err)), err), ex')"
  using Execute_walk [OF assms(1-3)] assms(4)
  by (cases "Execute xe req ex") (auto simp: default_gx_def Let_def)

text \<open>The sample run of the default executor, streamed.\<close>

definition sample_stream_env :: "(gval, exec_error) stream_env" where
  "sample_stream_env = \<lparr>sv_now = (\<lambda>i. int i), sv_start = 0, sv_nano = (\<lambda>i. int i), sv_arm = (\<lambda>_. ArmChan),
     sv_payload = (\<lambda>ev. VStr (ee_Type ev)), sv_value = VMap, sv_text = (\<lambda>_. ''error''), sv_rfc3339 = show_int\<rparr>"

definition sample_stream ::
  "(select_arm \<Rightarrow> Message \<Rightarrow> 'c \<Rightarrow> (chan_error, unit) outcome \<times> 'c) option \<Rightarrow> 'c
   \<Rightarrow> (gval, exec_error, (unit, unit) DefaultGraphExecutor, 'c, unit, unit) StreamingExecutor" where
  "sample_stream ch c = NewStreamingExecutor (default_gx sample_exec_env) (sample_executor [typed_edge ''a'' ''b'']) ch c ()"

lemma sample_stream_parts [simp]:
  "sx_baseExecutor (sample_stream ch c) = default_gx sample_exec_env"
  "sx_base (sample_stream ch c) = sample_executor [typed_edge ''a'' ''b'']" "sx_nodeHooks (sample_stream ch c) = []"
  "sx_executionHooks (sample_stream ch c) = []" "sx_spawned (sample_stream ch c) = []"
  "sx_eventBus (sample_stream ch c) = NewEventBus"
  "sx_streamingChannel (sample_stream ch c) = ch" "sx_channel (sample_stream ch c) = c"
  by (simp_all add: sample_stream_def NewStreamingExecutor_def)

lemma sample_run_accepted:
  "accepted sample_exec_env sample_request (sample_executor [typed_edge ''a'' ''b'']) (sample_graph [typed_edge ''a'' ''b''])"
  by (rule sample_accepted) simp

lemma sample_stream_walk:
  "\<exists>visits. graph_walk (sample_executor [typed_edge ''a'' ''b'']) (sample_graph [typed_edge ''a'' ''b''])
      (MaxSteps (rq_Config (snd (Request_Validate sample_request)))) (rq_Input sample_request) = (visits, None) \<and> length visits = 2"
  using sample_walk by (auto simp: sample_request_valid sample_request_parts)

text \<open>What the default executor answers to a request it rejects.\<close>

lemma rejected_base:
  assumes "fst (Request_Validate req) \<noteq> None \<or> ge_repo ex (rq_GraphID req) = None"
  shows "\<exists>err ex'. \<forall>ctx. gx_Execute (default_gx xe) ctx req ex = (Returns (None, Some err), ex')"
proof (cases "Request_Validate req")
  case (Pair e req')
  show ?thesis
  proof (cases e)
    case (Some err)
    then show ?thesis using Pair by (simp add: default_gx_def Execute_def)
  next
    case None
    then have "rq_GraphID req' = rq_GraphID req" "ValidateGraph (rq_Config req')" using Pair Request_Validate_ok by blast+
    then show ?thesis using None Pair assms by (simp add: default_gx_def Execute_def validate_stored_def Repo_Get_def)
  qed
qed

text \<open>
  C13: the stream of a run. Around the default executor, a completed execution of \<open>n\<close> steps
  returns the response of that executor and publishes \<open>2 n + 2\<close> events: started, then node
  started and node finished for each step in order, then completed. Every subscriber is started on
  the events of its types in that order, and a buffered channel with room for them holds one message
  per event, in order.
\<close>

theorem stream_of_execution:
  assumes "accepted xe req ex g" and "manager_answers ex" and "edge_evaluator (ge_next ex)"
    and "graph_walk ex g (MaxSteps (rq_Config (snd (Request_Validate req)))) (rq_Input req) = (visits, None)"
    and "sx_baseExecutor se = default_gx xe" and "sx_base se = ex" and "sx_nodeHooks se = []"
    and "sx_streamingChannel se = Some Buf_Send" and "buf_ready (sx_channel se)" and "\<And>i. sv_arm sv i = ArmChan"
    and "length (bc_buffer (sx_channel se)) + (2 * length visits + 2) \<le> nat (Buf_Cap (sx_channel se))"
  shows "\<exists>rs se'. Stream_Execute sv ctx req se = (Returns (Some rs, None), se')
    \<and> fst (Execute xe req ex) = Returns (Some rs, None) \<and> length (rs_Steps rs) = length visits
    \<and> bc_buffer (sx_channel se') = bc_buffer (sx_channel se) @ event_messages sv 0 (completed_events sv req rs)
    \<and> sx_spawned se' = sx_spawned se @ concat (map (\<lambda>ev. Bus_Publish ev (sx_eventBus se)) (completed_events sv req rs))
    \<and> map ee_Type (completed_events sv req rs)
      = ''started'' # concat (replicate (length visits) [''node_started'', ''node_finished'']) @ [''completed'']"
proof -
  let ?rs = "response_of xe (start_context xe req) (visits, None)"
  obtain ex' where "gx_Execute (default_gx xe) (createStreamingContext sv req ctx) req ex = (Returns (Some ?rs, None), ex')"
    using default_gx_walk [OF assms(1-4)] by blast
  moreover have "length (rs_Steps ?rs) = length visits" by (simp add: response_of_def)
  moreover have "fst (Execute xe req ex) = Returns (Some ?rs, None)"
    using Execute_walk [OF assms(1-3)] assms(4) by (simp add: Let_def)
  ultimately show ?thesis
    using buf_open.execute_room [of se sv req ctx ?rs ex'] assms(5-11) completed_event_types [of sv req ?rs] by auto
qed

theorem stream_of_execution_witness:
  "\<exists>rs se'. Stream_Execute sample_stream_env Map.empty sample_request
        (sample_stream (Some Buf_Send) (NewBufferedChannel \<lparr>bcc_MaxSize = 6, bcc_Timeout = 0\<rparr>)) = (Returns (Some rs, None), se')
    \<and> map m_Payload (bc_buffer (sx_channel se')) = map VStr [''started'', ''node_started'', ''node_finished'',
        ''node_started'', ''node_finished'', ''completed'']"
proof -
  let ?c = "NewBufferedChannel \<lparr>bcc_MaxSize = 6, bcc_Timeout = 0\<rparr>" and ?req = sample_request
  let ?se = "sample_stream (Some Buf_Send) ?c"
  obtain visits where walk: "graph_walk (sample_executor [typed_edge ''a'' ''b'']) (sample_graph [typed_edge ''a'' ''b''])
      (MaxSteps (rq_Config (snd (Request_Validate ?req)))) (rq_Input ?req) = (visits, None)" "length visits = 2"
    using sample_stream_walk by blast
  have c: "buf_ready ?c" "bc_buffer ?c = []" "nat (Buf_Cap ?c) = 6"
    by (simp_all add: NewBufferedChannel_def buf_ready_def buf_inv_def Buf_Cap_def)
  obtain rs se' where run: "Stream_Execute sample_stream_env Map.empty ?req ?se = (Returns (Some rs, None), se')"
    "bc_buffer (sx_channel se') = event_messages sample_stream_env 0 (completed_events sample_stream_env ?req rs)"
    "map ee_Type (completed_events sample_stream_env ?req rs)
      = ''started'' # concat (replicate 2 [''node_started'', ''node_finished'']) @ [''completed'']"
    using stream_of_execution [OF sample_run_accepted sample_answers(1) sample_evaluator walk(1), of ?se sample_stream_env Map.empty]
      c walk(2) by (auto simp: sample_stream_env_def)
  have "map m_Payload (event_messages sample_stream_env i evs) = map VStr (map ee_Type evs)" for i evs
    by (induction evs arbitrary: i) (simp_all add: event_message_def sample_stream_env_def)
  then show ?thesis using run by (simp add: numeral_2_eq_2 del: map_map)
qed

text \<open>
  a stream that nobody reads holds up the run. If the channel has no room for the events of a
  completed execution and its select does not time out, \<^verbatim>\<open>Execute\<close> waits, although the
  executor below it returns a response.
\<close>

theorem unread_stream_blocks:
  assumes "accepted xe req ex g" and "manager_answers ex" and "edge_evaluator (ge_next ex)"
    and "graph_walk ex g (MaxSteps (rq_Config (snd (Request_Validate req)))) (rq_Input req) = (visits, None)"
    and "sx_baseExecutor se = default_gx xe" and "sx_base se = ex" and "sx_nodeHooks se = []"
    and "sx_streamingChannel se = Some InMem_Send" and "inmem_open (sx_channel se)" and "\<And>i. sv_arm sv i = ArmChan"
    and "InMem_Cap (sx_channel se) < length (inmem_contents (sx_channel se)) + (2 * length visits + 2)"
  shows "fst (Stream_Execute sv ctx req se) = Blocks \<and> (\<exists>rs. fst (Execute xe req ex) = Returns (Some rs, None))"
proof -
  let ?rs = "response_of xe (start_context xe req) (visits, None)"
  obtain ex' where "gx_Execute (default_gx xe) (createStreamingContext sv req ctx) req ex = (Returns (Some ?rs, None), ex')"
    using default_gx_walk [OF assms(1-4)] by blast
  moreover have "length (rs_Steps ?rs) = length visits" by (simp add: response_of_def)
  moreover have "fst (Execute xe req ex) = Returns (Some ?rs, None)"
    using Execute_walk [OF assms(1-3)] assms(4) by (simp add: Let_def)
  ultimately show ?thesis
    using inmem_open.execute_no_room [of se sv req ctx ?rs ex'] assms(5-11) by simp
qed

theorem unread_stream_blocks_witness:
  "fst (Stream_Execute sample_stream_env Map.empty sample_request
      (sample_stream (Some InMem_Send) (NewInMemoryChannel \<lparr>imc_BufferSize = 5, imc_Timeout = 0\<rparr>))) = Blocks"
proof -
  let ?c = "NewInMemoryChannel \<lparr>imc_BufferSize = 5, imc_Timeout = 0\<rparr>" and ?req = sample_request
  let ?se = "sample_stream (Some InMem_Send) ?c"
  obtain visits where walk: "graph_walk (sample_executor [typed_edge ''a'' ''b'']) (sample_graph [typed_edge ''a'' ''b''])
      (MaxSteps (rq_Config (snd (Request_Validate ?req)))) (rq_Input ?req) = (visits, None)" "length visits = 2"
    using sample_stream_walk by blast
  have c: "inmem_open ?c" "inmem_contents ?c = []" "InMem_Cap ?c = 5"
    by (simp_all add: NewInMemoryChannel_def inmem_open_def inmem_inv_def make_chan_def InMem_Cap_def)
  show ?thesis
    using unread_stream_blocks [OF sample_run_accepted sample_answers(1) sample_evaluator walk(1), of ?se sample_stream_env Map.empty]
      c walk(2) by (simp add: sample_stream_env_def)
qed

text \<open>
  a failed run hides its steps. If the executor below fails with a response, the stream has
  started and failed only: no event for the steps that did run, and the failed event has no data,
  so that no duration is recorded for it.
\<close>

theorem failed_run_hides_steps:
  assumes "gx_Execute (sx_baseExecutor se) (createStreamingContext sv req ctx) req (sx_base se) = (Returns (Some rs, Some err), st)"
    and "sx_streamingChannel se = None"
  shows "\<exists>se'. Stream_Execute sv ctx req se = (Returns (Some rs, Some err), se')
    \<and> sx_spawned se' = sx_spawned se @ Bus_Publish (started_event sv req) (sx_eventBus se)
        @ Bus_Publish (failed_event sv 1 req rs err) (sx_eventBus se)
    \<and> ee_Data (failed_event sv 1 req rs err) = None \<and> ee_ExecutionID (failed_event sv 1 req rs err) = rs_ExecutionID rs"
proof -
  obtain se1 where 1: "publishEvent sv 0 (started_event sv req) se = (Returns (), se1)"
    using publish_no_channel [OF assms(2)] by (metis prod.collapse)
  note f1 = publishEvent_keeps [OF 1]
  let ?ev = "failed_event sv 1 req rs err"
  from f1 assms(2) have "sx_streamingChannel (se1\<lparr>sx_base := st\<rparr>) = None" by (simp add: same_frame_def)
  then obtain se2 where 2: "publishEvent sv 1 ?ev (se1\<lparr>sx_base := st\<rparr>) = (Returns (), se2)"
    using publish_no_channel by (metis prod.collapse)
  have "Stream_Execute sv ctx req se = (Returns (Some rs, Some err), se2)"
    using 1 2 f1 assms(1) by (simp add: Stream_Execute_def executeWithStreaming_def same_frame_def closing_event_def)
  moreover have "sx_spawned se2 = sx_spawned se @ Bus_Publish (started_event sv req) (sx_eventBus se) @ Bus_Publish ?ev (sx_eventBus se)"
    using publishEvent_keeps [OF 2] f1 by (simp add: same_frame_def)
  ultimately show ?thesis by (auto simp: failed_event_def zero_event_def)
qed

text \<open>The sample graph with a processor that fails at its second node.\<close>

definition failing_executor :: "(unit, unit) DefaultGraphExecutor" where
  "failing_executor = (sample_executor [typed_edge ''a'' ''b''])
     \<lparr>ge_process := \<lambda>n st. if n_ID n = ''b'' then Inl ''boom'' else Inr st\<rparr>"

lemma failing_run:
  "\<exists>rs ex'. gx_Execute (default_gx sample_exec_env) ctx sample_request failing_executor
    = (Returns (Some rs, Some (NodeExecutionFailed ''b'' ''boom'')), ex') \<and> length (rs_Steps rs) = 1"
proof -
  let ?es = "[typed_edge ''a'' ''b'']"
  have "validate_stored RepositoryError sample_exec_env ''g'' simple_config failing_executor = (None, failing_executor)"
    using sample_validates [of ?es]
    by (simp add: validate_stored_def simple_config_def sample_executor_def Repo_Get_def sample_exec_env_def Let_def
        NewDefaultGraphExecutor_def failing_executor_def)
  then have acc: "accepted sample_exec_env sample_request failing_executor (sample_graph ?es)"
    unfolding accepted_def sample_request_valid by (simp add: sample_request_def sample_executor_def failing_executor_def)
  have answers: "manager_answers failing_executor" "edge_evaluator (ge_next failing_executor)"
    using sample_answers(1) [of ?es] sample_evaluator [of ?es] by (simp_all add: failing_executor_def manager_answers_def)
  have f: "follow GetNextNodes [Some (typed_edge ''a'' ''b'')] (sample_node ''a'') None = Some (placeholder_node ''b'')"
    by (simp add: follow_def GetNextNodes_def typed_edge_def sample_edge_def sample_node_def placeholder_node_def Evaluate_def)
  have "graph_walk failing_executor (sample_graph ?es) 100 None
      = ([(sample_node ''a'', None)], Some (NodeExecutionFailed ''b'' ''boom''))"
    using f by (simp add: graph_walk_def failing_executor_def sample_answers entry_node_def sample_graph_def
        walk_numeral, simp add: sample_node_def placeholder_node_def)
  then show ?thesis
    using default_gx_walk [OF acc answers, of "[(sample_node ''a'', None)]" "Some (NodeExecutionFailed ''b'' ''boom'')" ctx]
    by (auto simp: sample_request_valid sample_request_parts response_of_def)
qed

theorem failed_run_hides_steps_witness:
  "\<exists>rs se'. length (rs_Steps rs) = 1 \<and> Stream_Execute sample_stream_env Map.empty sample_request
      ((sample_stream None ())\<lparr>sx_base := failing_executor, sx_eventBus := Bus_Subscribe () Metrics_GetEventTypes NewEventBus\<rparr>)
        = (Returns (Some rs, Some (NodeExecutionFailed ''b'' ''boom'')), se')
    \<and> map (ee_Type \<circ> snd) (sx_spawned se') = [''started'', ''failed'']"
proof -
  let ?se = "(sample_stream None ())\<lparr>sx_base := failing_executor, sx_eventBus := Bus_Subscribe () Metrics_GetEventTypes NewEventBus\<rparr>"
  obtain rs ex' where run: "gx_Execute (default_gx sample_exec_env) (createStreamingContext sample_stream_env sample_request Map.empty)
      sample_request failing_executor = (Returns (Some rs, Some (NodeExecutionFailed ''b'' ''boom'')), ex')" "length (rs_Steps rs) = 1"
    using failing_run by blast
  have pub: "map (ee_Type \<circ> snd) (Bus_Publish ev (Bus_Subscribe () Metrics_GetEventTypes NewEventBus))
      = (if ee_Type ev \<in> {''started'', ''failed''} then [ee_Type ev] else [])" if "ee_Type ev \<in> {''started'', ''failed''}" for ev
    using that by (auto simp: Bus_Publish_def Metrics_GetEventTypes_def NewEventBus_def)
  from failed_run_hides_steps [of ?se sample_stream_env sample_request Map.empty rs "NodeExecutionFailed ''b'' ''boom''" ex'] run
  show ?thesis by (auto simp: pub event_types)
qed

text \<open>
  a rejected request crashes the streaming executor. The default executor answers a request
  that is invalid, or whose graph is missing, with an error and no response; the streaming executor
  reads the execution ID of that response to make its failed event, and panics.
\<close>

theorem rejected_request_panics:
  fixes se :: "('v, exec_error, ('e, 'm) DefaultGraphExecutor, 'c, 'w, 'u) StreamingExecutor"
  assumes "fst (Request_Validate req) \<noteq> None \<or> ge_repo ex (rq_GraphID req) = None"
    and "sx_baseExecutor se = default_gx xe" and "sx_base se = ex" and "sx_streamingChannel se = None"
  shows "(\<exists>err. fst (Execute xe req ex) = Returns (None, Some err))
    \<and> (\<exists>msg. fst (Stream_Execute sv ctx req se) = Panics msg)
    \<and> sx_spawned (snd (Stream_Execute sv ctx req se)) = sx_spawned se @ Bus_Publish (started_event sv req) (sx_eventBus se)"
proof -
  obtain err ex' where base: "gx_Execute (default_gx xe) ctx' req ex = (Returns (None, Some err), ex')"
      for ctx' :: "'v go_context"
    using rejected_base [OF assms(1), of xe] by blast
  then have "fst (Execute xe req ex) = Returns (None, Some err)"
    by (cases "Execute xe req ex") (simp add: default_gx_def)
  obtain se1 where 1: "publishEvent sv 0 (started_event sv req) se = (Returns (), se1)"
    using publish_no_channel [OF assms(4)] by (metis prod.collapse)
  note f1 = publishEvent_keeps [OF 1]
  have "Stream_Execute sv ctx req se = (Panics ''nil pointer dereference'', se1\<lparr>sx_base := ex'\<rparr>)"
    using 1 f1 base assms(2,3) by (simp add: Stream_Execute_def executeWithStreaming_def same_frame_def)
  with f1 \<open>fst (Execute xe req ex) = _\<close> show ?thesis by simp
qed

theorem rejected_request_panics_witness:
  "\<exists>msg. fst (Stream_Execute sample_stream_env Map.empty (sample_request\<lparr>rq_GraphID := []\<rparr>) (sample_stream None ())) = Panics msg"
  using rejected_request_panics [of "sample_request\<lparr>rq_GraphID := []\<rparr>" "sample_executor [typed_edge ''a'' ''b'']"
      "sample_stream None ()" sample_exec_env sample_stream_env Map.empty]
  by (simp add: Request_Validate_def)

end
