(* ===== verification/StreamMetrics.thy ===== *)
theory StreamMetrics
  imports StreamProps
begin

section \<open>The metrics subscriber\<close>

text \<open>
  What \<^verbatim>\<open>MetricsSubscriber\<close> reports after its goroutines have run, in closed form, and
  that the order in which they ran does not matter.
\<close>

subsection \<open>Counting\<close>

definition tally :: "'a list \<Rightarrow> 'a \<rightharpoonup> int" where
  "tally xs = (\<lambda>k. if k \<in> set xs then Some (int (count_list xs k)) else None)"

lemma tally_mset: "mset xs = mset ys \<Longrightarrow> tally xs = tally ys"
  using mset_eq_setD [of xs ys] mset_eq_length_filter [of xs ys] by (auto simp: tally_def fun_eq_iff)

lemma increment_tally: "increment k (tally xs) = tally (xs @ [k])"
  by (auto simp: increment_def tally_def count_list_0_iff fun_eq_iff)

subsection \<open>The report in closed form\<close>

abbreviation ends_run :: "ExecutionEvent \<Rightarrow> bool" where
  "ends_run ev \<equiv> ee_Type ev = ''completed'' \<or> ee_Type ev = ''failed''"

definition run_times :: "ExecutionEvent list \<Rightarrow> (string \<times> int) list" where
  "run_times evs = List.map_filter (\<lambda>ev. if ends_run ev then map_option (\<lambda>d. (ee_ExecutionID ev, d)) (event_duration ev) else None) evs"

definition node_times :: "string \<Rightarrow> ExecutionEvent list \<Rightarrow> int list" where
  "node_times node evs = List.map_filter (\<lambda>ev. if ee_Type ev = ''node_finished'' \<and> ee_NodeID ev = node then event_duration ev else None) evs"

lemma map_filter_snoc: "List.map_filter f (xs @ [x]) = List.map_filter f xs @ (case f x of Some y \<Rightarrow> [y] | None \<Rightarrow> [])"
  by (induction xs) (auto simp: List.map_filter_simps split: option.splits)

lemma mset_map_filter: "mset (List.map_filter f xs) = {# the (f x). x \<in># filter_mset (\<lambda>x. f x \<noteq> None) (mset xs) #}"
  by (simp add: List.map_filter_def comp_def)

lemma map_filter_mset_cong: "mset xs = mset ys \<Longrightarrow> mset (List.map_filter f xs) = mset (List.map_filter f ys)"
  by (simp add: mset_map_filter)

definition metrics_of :: "ExecutionEvent list \<Rightarrow> MetricsSubscriber" where
  "metrics_of evs = \<lparr>mx_ExecutionCounts = tally (map ee_Type (filter ends_run evs)),
     mx_NodeDurations = (\<lambda>node. if node_times node evs = [] then None else Some (node_times node evs)),
     mx_ExecutionTimes = map_of (rev (run_times evs)), mx_EventCounts = tally (map ee_Type evs)\<rparr>"

lemma metrics_closed: "fold Subscriber_HandleEvent evs NewMetricsSubscriber = metrics_of evs"
proof (induction evs rule: rev_induct)
  case Nil
  show ?case by (simp add: NewMetricsSubscriber_def metrics_of_def tally_def run_times_def node_times_def List.map_filter_simps)
next
  case (snoc ev evs)
  have durations: "(\<lambda>node. if node_times node (evs @ [ev]) = [] then None else Some (node_times node (evs @ [ev])))
      = (if ee_Type ev = ''node_finished'' then (case event_duration ev of
          Some d \<Rightarrow> (mx_NodeDurations (metrics_of evs))(ee_NodeID ev \<mapsto>
             (case mx_NodeDurations (metrics_of evs) (ee_NodeID ev) of Some ds \<Rightarrow> ds @ [d] | None \<Rightarrow> [d]))
        | None \<Rightarrow> mx_NodeDurations (metrics_of evs)) else mx_NodeDurations (metrics_of evs))"
    by (auto simp: fun_eq_iff metrics_of_def node_times_def map_filter_snoc split: option.splits)
  have times: "map_of (rev (run_times (evs @ [ev]))) = (if ends_run ev then (case event_duration ev of
      Some d \<Rightarrow> (map_of (rev (run_times evs)))(ee_ExecutionID ev \<mapsto> d) | None \<Rightarrow> map_of (rev (run_times evs)))
      else map_of (rev (run_times evs)))"
    by (auto simp: run_times_def map_filter_snoc split: option.splits)
  show ?case
    using snoc.IH
    by (auto simp: Subscriber_HandleEvent_def Let_def metrics_of_def [of "evs @ [ev]"] durations times increment_tally
        split: option.splits) (auto simp: metrics_of_def increment_tally)
qed

lemma total_duration_sum: "total_duration acc ds = (if ds = [] then acc else i64 (acc + sum_list ds))"
proof (induction ds arbitrary: acc)
  case (Cons d ds)
  then show ?case by (auto simp: i64_def algebra_simps mod_simps)
qed simp

lemma average_duration_mset: "mset ds = mset ds' \<Longrightarrow> average_duration ds = average_duration ds'"
  by (auto simp: average_duration_def total_duration_sum dest: mset_eq_length arg_cong [of _ _ sum_mset]
      simp flip: sum_mset_sum_list)

text \<open>Running all started goroutines is running the handler over the events in some order.\<close>

lemma deliver_all:
  assumes "(deliver_step handle)\<^sup>*\<^sup>* (ts, w) ({#}, w')"
  shows "\<exists>xs. mset xs = ts \<and> w' = fold (\<lambda>(u, ev). handle u ev) xs w"
  using assms
proof (induction "(ts, w)" arbitrary: ts w rule: converse_rtranclp_induct)
  case base
  show ?case by simp
next
  case (step y)
  from step(1) obtain u ev rest where y: "ts = add_mset (u, ev) rest" "y = (rest, handle u ev w)"
    by (auto elim: deliver_step.cases)
  from step(3) [OF y(2)] obtain xs where "mset xs = rest" "w' = fold (\<lambda>(u, ev). handle u ev) xs (handle u ev w)" by blast
  with y(1) show ?case by (intro exI [of _ "(u, ev) # xs"]) simp
qed

lemma map_of_mset:
  assumes "mset xs = mset ys" and "distinct (map fst xs)"
  shows "map_of xs = map_of ys"
proof (rule ext)
  fix k
  have "mset (map fst xs) = mset (map fst ys)" using assms(1) by simp
  from mset_eq_imp_distinct_iff [OF this] assms(2) have d: "distinct (map fst ys)" by simp
  show "map_of xs k = map_of ys k"
    using map_of_eq_Some_iff [OF assms(2), of k] map_of_eq_Some_iff [OF d, of k] mset_eq_setD [OF assms(1)]
    by (cases "map_of xs k"; cases "map_of ys k") auto
qed

lemma GetMetrics_mset:
  assumes "mset evs = mset evs'" and "distinct (map fst (run_times evs))"
  shows "GetMetrics (metrics_of evs) = GetMetrics (metrics_of evs')"
proof -
  have "average_duration (node_times n evs) = average_duration (node_times n evs')"
    and "node_times n evs = [] \<longleftrightarrow> node_times n evs' = []" for n
    using map_filter_mset_cong [OF assms(1), of "\<lambda>ev. if ee_Type ev = ''node_finished'' \<and> ee_NodeID ev = n then event_duration ev else None"]
    by (auto simp: node_times_def intro: average_duration_mset)
  moreover have times: "mset (rev (run_times evs)) = mset (rev (run_times evs'))"
    using map_filter_mset_cong [OF assms(1)] by (simp add: run_times_def)
  moreover have "map_of (rev (run_times evs)) = map_of (rev (run_times evs'))"
    by (rule map_of_mset [OF times]) (use assms(2) in \<open>simp flip: rev_map\<close>)
  moreover have "tally (map ee_Type evs) = tally (map ee_Type evs')"
    "tally (map ee_Type (filter ends_run evs)) = tally (map ee_Type (filter ends_run evs'))"
    using assms(1) by (auto intro!: tally_mset simp: mset_filter)
  ultimately show ?thesis by (simp add: metrics_of_def GetMetrics_def fun_eq_iff)
qed

text \<open>
  metrics do not depend on the schedule. However the goroutines of the published events
  interleave, once all have run the subscriber reports the number of events of each type, the number
  of completed and failed runs, the total time of each run, and for each node the average of its
  durations (their sum wrapping at 64 bits), if no two runs that end share an execution ID.
\<close>

theorem metrics_any_schedule:
  assumes "(deliver_step (\<lambda>u. Subscriber_HandleEvent))\<^sup>*\<^sup>* (mset started, NewMetricsSubscriber) ({#}, m)"
    and "distinct (map fst (run_times (map snd started)))"
  shows "GetMetrics m = \<lparr>mr_execution_counts = tally (map ee_Type (filter ends_run (map snd started))),
     mr_avg_node_durations = (\<lambda>node. average_duration (node_times node (map snd started))),
     mr_execution_times = map_of (run_times (map snd started)),
     mr_event_counts = tally (map ee_Type (map snd started))\<rparr>"
proof -
  obtain xs where xs: "mset xs = mset started" "m = fold (\<lambda>(u, ev). Subscriber_HandleEvent ev) xs NewMetricsSubscriber"
    using deliver_all [OF assms(1)] by blast
  have "m = metrics_of (map snd xs)"
    using xs(2) metrics_closed [of "map snd xs"] by (simp add: fold_map comp_def case_prod_unfold)
  moreover have evs: "mset (map snd started) = mset (map snd xs)" using xs(1) by simp
  ultimately have "GetMetrics m = GetMetrics (metrics_of (map snd started))"
    using GetMetrics_mset [OF evs assms(2)] by simp
  moreover have "map_of (rev (run_times (map snd started))) = map_of (run_times (map snd started))"
    by (rule map_of_mset) (use assms(2) in \<open>simp_all flip: rev_map\<close>)
  ultimately show ?thesis by (auto simp: GetMetrics_def metrics_of_def fun_eq_iff average_duration_def)
qed

text \<open>Two durations of one node and the end of the run, delivered last first.\<close>

definition timed_event :: "string \<Rightarrow> int \<Rightarrow> ExecutionEvent" where
  "timed_event type d = zero_event\<lparr>ee_Type := type, ee_ExecutionID := ''x'', ee_NodeID := ''a'',
     ee_Data := Some [''duration'' \<mapsto> VDuration d]\<rparr>"

theorem metrics_any_schedule_witness:
  "\<exists>m. (deliver_step (\<lambda>u::unit. Subscriber_HandleEvent))\<^sup>*\<^sup>*
      ({#((), timed_event ''node_finished'' 3), ((), timed_event ''node_finished'' 6), ((), timed_event ''completed'' 9)#},
       NewMetricsSubscriber) ({#}, m)
    \<and> mr_avg_node_durations (GetMetrics m) ''a'' = Some 4 \<and> mr_execution_times (GetMetrics m) ''x'' = Some 9
    \<and> mr_event_counts (GetMetrics m) ''node_finished'' = Some 2"
proof -
  let ?a = "timed_event ''node_finished'' 3" and ?b = "timed_event ''node_finished'' 6" and ?c = "timed_event ''completed'' 9"
  let ?h = "\<lambda>u::unit. Subscriber_HandleEvent" and ?started = "[((), ?a), ((), ?b), ((), ?c)]"
  define m where "m = ?h () ?a (?h () ?b (?h () ?c NewMetricsSubscriber))"
  have 1: "deliver_step ?h (mset ?started, NewMetricsSubscriber) ({#((), ?a), ((), ?b)#}, ?h () ?c NewMetricsSubscriber)"
    using deliver_step.deliver [of ?h "()" ?c "{#((), ?a), ((), ?b)#}"] by (simp add: add_mset_commute)
  have 2: "deliver_step ?h ({#((), ?a), ((), ?b)#}, ?h () ?c NewMetricsSubscriber)
      ({#((), ?a)#}, ?h () ?b (?h () ?c NewMetricsSubscriber))"
    using deliver_step.deliver [of ?h "()" ?b "{#((), ?a)#}"] by (simp add: add_mset_commute)
  have 3: "deliver_step ?h ({#((), ?a)#}, ?h () ?b (?h () ?c NewMetricsSubscriber)) ({#}, m)"
    using deliver_step.deliver [of ?h "()" ?a "{#}"] by (simp add: m_def)
  have run: "(deliver_step ?h)\<^sup>*\<^sup>* (mset ?started, NewMetricsSubscriber) ({#}, m)"
    using 1 2 3 by (meson converse_rtranclp_into_rtranclp rtranclp.rtrancl_refl)
  have times: "run_times (map snd ?started) = [(''x'', 9)]" "node_times ''a'' (map snd ?started) = [3, 6]"
    by (simp_all add: run_times_def node_times_def timed_event_def zero_event_def event_duration_def nil_map_def
        List.map_filter_simps)
  have avg: "average_duration [3, 6] = Some 4" by (simp add: average_duration_def i64_def)
  have "mr_avg_node_durations (GetMetrics m) ''a'' = Some 4 \<and> mr_execution_times (GetMetrics m) ''x'' = Some 9
      \<and> mr_event_counts (GetMetrics m) ''node_finished'' = Some 2"
    using metrics_any_schedule [OF run] times avg by (simp add: tally_def timed_event_def zero_event_def)
  with run show ?thesis by auto
qed

end
