(* ===== verification/EnhancedState.thy ===== *)
theory EnhancedState
  imports StreamProps PersistentProps
begin

section \<open>The enhanced state service (internal/app/services/enhanced\_state.go)\<close>

text \<open>
  The state service with a channel per execution: saving a state broadcasts it, and an update can be
  received from the channel. The channel is one of the three implementations. Contexts and messages
  are values: a caller that goes on to change the map it saved would change the message in an
  in-memory channel too, which is not modelled. Hooks return, only read the contexts they get, and
  do not call the service (\<^verbatim>\<open>UpdateState\<close> runs them while it holds the lock). Errors
  that are only printed are collected.
\<close>

subsection \<open>Channels of any type\<close>

datatype service_channel =
    ViaInMemory InMemChan
  | ViaBuffered BufChan
  | ViaPersistent PersistentChannel

text \<open>What a call on a channel depends on: the select arm; the file system and the clock.\<close>

record chan_call =
  cc_arm :: select_arm
  cc_env :: Env
  cc_io :: io_fault
  cc_now :: int

definition service_send :: "chan_call \<Rightarrow> Message \<Rightarrow> service_channel \<Rightarrow> (chan_error, unit) outcome \<times> service_channel" where
  "service_send cc m ch = (case ch of
     ViaInMemory c \<Rightarrow> map_prod id ViaInMemory (InMem_Send (cc_arm cc) m c)
   | ViaBuffered c \<Rightarrow> map_prod id ViaBuffered (Buf_Send (cc_arm cc) m c)
   | ViaPersistent c \<Rightarrow> map_prod id ViaPersistent (PC_Send (cc_env cc) (cc_io cc) (cc_now cc) m c))"

definition service_receive :: "chan_call \<Rightarrow> service_channel \<Rightarrow> (chan_error, Message) outcome \<times> service_channel" where
  "service_receive cc ch = (case ch of
     ViaInMemory c \<Rightarrow> map_prod id ViaInMemory (InMem_Receive (cc_arm cc) c)
   | ViaBuffered c \<Rightarrow> map_prod id ViaBuffered (Buf_Receive (cc_arm cc) c)
   | ViaPersistent c \<Rightarrow> map_prod id ViaPersistent (PC_Receive (cc_env cc) (cc_io cc) c))"

definition service_close :: "chan_call \<Rightarrow> service_channel \<Rightarrow> (chan_error, unit) outcome" where
  "service_close cc ch = (case ch of
     ViaInMemory c \<Rightarrow> fst (InMem_Close c)
   | ViaBuffered c \<Rightarrow> Returns ()
   | ViaPersistent c \<Rightarrow> (case fst (PC_Close (cc_io cc) c) of None \<Rightarrow> Returns () | Some err \<Rightarrow> Fails err))"

subsection \<open>State\<close>

datatype state_error =
    StateNotFound string
  | NoChannel string
  | UnsupportedChannel string
  | CreatePersistentFailed chan_error
  | BroadcastFailed chan_error
  | ReceiveFailed chan_error
  | InvalidUpdateFormat

type_synonym 'w StateChangeHook =
  "string \<Rightarrow> ExecutionContext option \<Rightarrow> ExecutionContext \<Rightarrow> 'w \<Rightarrow> string option \<times> 'w"

record 'w EnhancedStateService =
  es_states :: "string \<rightharpoonup> ExecutionContext"
  es_channels :: "string \<rightharpoonup> service_channel"
  es_stateChangeHooks :: "'w StateChangeHook list"
  es_world :: 'w
  es_printed :: "string list"

definition NewEnhancedStateService :: "'w \<Rightarrow> 'w EnhancedStateService" where
  "NewEnhancedStateService w = \<lparr>es_states = Map.empty, es_channels = Map.empty, es_stateChangeHooks = [],
     es_world = w, es_printed = []\<rparr>"

definition AddStateChangeHook :: "'w StateChangeHook \<Rightarrow> 'w EnhancedStateService \<Rightarrow> 'w EnhancedStateService" where
  "AddStateChangeHook hook s = s\<lparr>es_stateChangeHooks := es_stateChangeHooks s @ [hook]\<rparr>"

text \<open>
  \<open>disk\<close> is the directory \<^verbatim>\<open>state-<id>\<close> and \<open>entries\<close> its listing. A channel that the
  execution already has is replaced and stays open.
\<close>

definition CreateChannel ::
  "RuntimeConfig \<Rightarrow> chan_call \<Rightarrow> string list \<Rightarrow> (string \<rightharpoonup> pfile) \<Rightarrow> string \<Rightarrow> string \<Rightarrow> 'w EnhancedStateService
   \<Rightarrow> (state_error + service_channel) \<times> 'w EnhancedStateService" where
  "CreateChannel rc cc entries disk eid channelType s =
     (let r = (if channelType = ''inmemory'' then Inr (ViaInMemory (DefaultInMemoryChannel rc))
               else if channelType = ''buffered'' then Inr (ViaBuffered (DefaultBufferedChannel rc))
               else if channelType = ''persistent'' then
                 (case DefaultPersistentChannel (cc_env cc) rc (cc_now cc) entries disk (''state-'' @ eid) of
                    Inl err \<Rightarrow> Inl (CreatePersistentFailed err)
                  | Inr c \<Rightarrow> Inr (ViaPersistent c))
               else Inl (UnsupportedChannel channelType))
      in case r of
           Inl err \<Rightarrow> (Inl err, s)
         | Inr ch \<Rightarrow> (Inr ch, s\<lparr>es_channels := (es_channels s)(eid \<mapsto> ch)\<rparr>))"

fun notify_hooks ::
  "'w StateChangeHook list \<Rightarrow> string \<Rightarrow> ExecutionContext option \<Rightarrow> ExecutionContext \<Rightarrow> string list \<times> 'w \<Rightarrow> string list \<times> 'w" where
  "notify_hooks [] eid old new (ps, w) = (ps, w)"
| "notify_hooks (hook # hooks) eid old new (ps, w) =
     (case hook eid old new w of
        (Some err, w') \<Rightarrow> notify_hooks hooks eid old new (ps @ [''State change hook error: '' @ err], w')
      | (None, w') \<Rightarrow> notify_hooks hooks eid old new (ps, w'))"

definition run_hooks ::
  "string \<Rightarrow> ExecutionContext option \<Rightarrow> ExecutionContext \<Rightarrow> 'w EnhancedStateService \<Rightarrow> 'w EnhancedStateService" where
  "run_hooks eid old new s =
     (case notify_hooks (es_stateChangeHooks s) eid old new (es_printed s, es_world s) of
        (ps, w) \<Rightarrow> s\<lparr>es_printed := ps, es_world := w\<rparr>)"

subsection \<open>Saving and loading\<close>

definition state_message :: "int \<Rightarrow> int \<Rightarrow> ExecutionContext \<Rightarrow> Message" where
  "state_message nano now c =
     \<lparr>m_ID = ''state-update-'' @ show_int nano, m_Type = MessageTypeData, m_Source = ''state-service'',
      m_Target = xc_ExecutionID c,
      m_Payload = VMap [''execution_id'' \<mapsto> VStr (xc_ExecutionID c), ''step'' \<mapsto> VInt (word_of_int (xc_CurrentStep c)),
         ''state'' \<mapsto> VMap (nil_map (xc_State c)), ''timestamp'' \<mapsto> VTime now],
      m_Headers = Map.empty, m_Metadata = Map.empty\<rparr>"

definition SaveStateWithChannel ::
  "chan_call \<Rightarrow> int \<Rightarrow> ExecutionContext \<Rightarrow> 'w EnhancedStateService \<Rightarrow> (state_error, unit) outcome \<times> 'w EnhancedStateService" where
  "SaveStateWithChannel cc nano c s =
     (let eid = xc_ExecutionID c;
          oldState = es_states s eid;
          stateCopy = copy_context c;
          s1 = run_hooks eid oldState stateCopy (s\<lparr>es_states := (es_states s)(eid \<mapsto> stateCopy)\<rparr>)
      in case es_channels s1 eid of
           None \<Rightarrow> (Returns (), s1)
         | Some ch \<Rightarrow>
             (case service_send cc (state_message nano (cc_now cc) c) ch of
                (r, ch') \<Rightarrow>
                  (let s2 = s1\<lparr>es_channels := (es_channels s1)(eid \<mapsto> ch')\<rparr>
                   in (case r of
                         Returns _ \<Rightarrow> Returns ()
                       | Fails err \<Rightarrow> Fails (BroadcastFailed err)
                       | Blocks \<Rightarrow> Blocks | Deadlocks \<Rightarrow> Deadlocks | Panics e \<Rightarrow> Panics e, s2))))"

definition LoadStateWithChannel :: "string \<Rightarrow> 'w EnhancedStateService \<Rightarrow> state_error + ExecutionContext" where
  "LoadStateWithChannel eid s = (case es_states s eid of
     None \<Rightarrow> Inl (StateNotFound eid) | Some c \<Rightarrow> Inr (copy_context c))"

definition Enhanced_UpdateState :: "string \<Rightarrow> gstate \<Rightarrow> 'w EnhancedStateService \<Rightarrow> state_error option \<times> 'w EnhancedStateService" where
  "Enhanced_UpdateState eid updates s =
     (case es_states s eid of
        None \<Rightarrow> (Some (StateNotFound eid), s)
      | Some st \<Rightarrow>
          (let oldState = copy_context st;
               st1 = st\<lparr>xc_State := Some (nil_map (xc_State st) ++ updates)\<rparr>
           in (None, run_hooks eid (Some oldState) st1 (s\<lparr>es_states := (es_states s)(eid \<mapsto> st1)\<rparr>))))"

definition UpdateStateViaChannel ::
  "chan_call \<Rightarrow> string \<Rightarrow> 'w EnhancedStateService \<Rightarrow> (state_error, unit) outcome \<times> 'w EnhancedStateService" where
  "UpdateStateViaChannel cc eid s =
     (case es_channels s eid of
        None \<Rightarrow> (Fails (NoChannel eid), s)
      | Some ch \<Rightarrow>
          (case service_receive cc ch of
             (r, ch') \<Rightarrow>
               (let s1 = s\<lparr>es_channels := (es_channels s)(eid \<mapsto> ch')\<rparr>
                in case r of
                     Returns update \<Rightarrow>
                       (case m_Payload update of
                          VMap updateMap \<Rightarrow>
                            (case updateMap ''state'' of
                               Some (VMap stateData) \<Rightarrow>
                                 (case Enhanced_UpdateState eid stateData s1 of
                                    (Some err, s2) \<Rightarrow> (Fails err, s2) | (None, s2) \<Rightarrow> (Returns (), s2))
                             | _ \<Rightarrow> (Fails InvalidUpdateFormat, s1))
                        | _ \<Rightarrow> (Fails InvalidUpdateFormat, s1))
                   | Fails err \<Rightarrow> (Fails (ReceiveFailed err), s1)
                   | Blocks \<Rightarrow> (Blocks, s1) | Deadlocks \<Rightarrow> (Deadlocks, s1) | Panics e \<Rightarrow> (Panics e, s1))))"

definition Enhanced_SaveState ::
  "chan_call \<Rightarrow> int \<Rightarrow> ExecutionContext \<Rightarrow> 'w EnhancedStateService \<Rightarrow> (state_error, unit) outcome \<times> 'w EnhancedStateService" where
  "Enhanced_SaveState cc nano c s = SaveStateWithChannel cc nano c s"

definition Enhanced_LoadState :: "string \<Rightarrow> 'w EnhancedStateService \<Rightarrow> state_error + ExecutionContext" where
  "Enhanced_LoadState eid s = LoadStateWithChannel eid s"

text \<open>An error of the channel's \<^verbatim>\<open>Close\<close> is printed; a panic would leave the states as they were.\<close>

definition Enhanced_CleanupState :: "chan_call \<Rightarrow> string \<Rightarrow> 'w EnhancedStateService \<Rightarrow> (unit, unit) outcome \<times> 'w EnhancedStateService" where
  "Enhanced_CleanupState cc eid s =
     (let removed = (\<lambda>s'. s'\<lparr>es_states := (es_states s')(eid := None)\<rparr>)
      in case es_channels s eid of
           None \<Rightarrow> (Returns (), removed s)
         | Some ch \<Rightarrow>
             (let s1 = s\<lparr>es_channels := (es_channels s)(eid := None)\<rparr>
              in case service_close cc ch of
                   Returns _ \<Rightarrow> (Returns (), removed s1)
                 | Fails err \<Rightarrow> (Returns (), removed (s1\<lparr>es_printed := es_printed s1 @ [''Error closing channel'']\<rparr>))
                 | Blocks \<Rightarrow> (Blocks, s) | Deadlocks \<Rightarrow> (Deadlocks, s) | Panics e \<Rightarrow> (Panics e, s)))"

definition Enhanced_GetActiveStates :: "'w EnhancedStateService \<Rightarrow> nat" where
  "Enhanced_GetActiveStates s = card (dom (es_states s))"

definition GetActiveChannels :: "'w EnhancedStateService \<Rightarrow> nat" where
  "GetActiveChannels s = card (dom (es_channels s))"

end
