(* ===== verification/EnhancedStateProps.thy ===== *)
theory EnhancedStateProps
  imports EnhancedState
begin

section \<open>Properties of the enhanced state service\<close>

text \<open>
  On its states the enhanced service is the plain state service, whatever its channels and hooks do;
  and what a service that reads its own broadcasts ends up with.
\<close>

lemma run_hooks_simps [simp]:
  "es_states (run_hooks eid old new s) = es_states s" "es_channels (run_hooks eid old new s) = es_channels s"
  "es_stateChangeHooks (run_hooks eid old new s) = es_stateChangeHooks s"
  by (simp_all add: run_hooks_def split: prod.splits)

subsection \<open>The channels stay usable\<close>

text \<open>An in-memory channel whose flag disagrees with its Go channel would panic when it is closed.\<close>

definition channels_ok :: "'w EnhancedStateService \<Rightarrow> bool" where
  "channels_ok s \<longleftrightarrow> (\<forall>eid c. es_channels s eid = Some (ViaInMemory c) \<longrightarrow> inmem_inv c)"

lemma channels_ok_upd:
  "channels_ok s \<Longrightarrow> es_channels s' = (es_channels s)(eid \<mapsto> ch) \<Longrightarrow> (\<And>c. ch = ViaInMemory c \<Longrightarrow> inmem_inv c) \<Longrightarrow> channels_ok s'"
  by (auto simp: channels_ok_def)

lemma channels_ok_drop:
  "channels_ok s \<Longrightarrow> es_channels s' = (es_channels s)(eid := None) \<or> es_channels s' = es_channels s \<Longrightarrow> channels_ok s'"
  by (auto simp: channels_ok_def split: if_splits)

lemma service_send_inv:
  assumes "service_send cc m ch = (r, ch')" and "\<And>c. ch = ViaInMemory c \<Longrightarrow> inmem_inv c"
  shows "ch' = ViaInMemory c' \<Longrightarrow> inmem_inv c'"
  using assms by (cases ch) (auto simp: service_send_def map_prod_def split: prod.splits dest: InMem_Send_inv)

lemma service_receive_inv:
  assumes "service_receive cc ch = (r, ch')" and "\<And>c. ch = ViaInMemory c \<Longrightarrow> inmem_inv c"
  shows "ch' = ViaInMemory c' \<Longrightarrow> inmem_inv c'"
  using assms by (cases ch) (auto simp: service_receive_def map_prod_def split: prod.splits dest: InMem_Receive_inv)

lemma service_close_ends:
  assumes "\<And>c. ch = ViaInMemory c \<Longrightarrow> inmem_inv c"
  shows "service_close cc ch = Returns () \<or> (\<exists>err. service_close cc ch = Fails err)"
proof (cases ch)
  case (ViaInMemory c)
  obtain r c' where "InMem_Close c = (r, c')" by fastforce
  with InMem_Close_inv [OF assms [OF ViaInMemory] this] ViaInMemory show ?thesis by (simp add: service_close_def)
qed (auto simp: service_close_def split: option.splits)

subsection \<open>The operations on the states\<close>

lemma save_states:
  assumes "SaveStateWithChannel cc nano c s = (r, s')"
  shows "es_states s' = SaveState c (es_states s)" and "channels_ok s \<Longrightarrow> channels_ok s'"
proof -
  let ?s1 = "run_hooks (xc_ExecutionID c) (es_states s (xc_ExecutionID c)) (copy_context c)
    (s\<lparr>es_states := (es_states s)(xc_ExecutionID c \<mapsto> copy_context c)\<rparr>)"
  consider (plain) "es_channels s (xc_ExecutionID c) = None" "s' = ?s1"
    | (sent) ch q ch' where "es_channels s (xc_ExecutionID c) = Some ch"
        "service_send cc (state_message nano (cc_now cc) c) ch = (q, ch')"
        "s' = ?s1\<lparr>es_channels := (es_channels s)(xc_ExecutionID c \<mapsto> ch')\<rparr>"
    using assms by (auto simp: SaveStateWithChannel_def Let_def split: option.splits prod.splits)
  then have *: "es_states s' = SaveState c (es_states s) \<and> (channels_ok s \<longrightarrow> channels_ok s')"
  proof cases
    case plain
    then show ?thesis by (simp add: SaveState_def channels_ok_def)
  next
    case sent
    have "channels_ok s'" if ok: "channels_ok s"
    proof (rule channels_ok_upd [OF ok])
      show "es_channels s' = (es_channels s)(xc_ExecutionID c \<mapsto> ch')" using sent(3) by simp
      fix k assume "ch' = ViaInMemory k"
      then show "inmem_inv k"
        by (rule service_send_inv [OF sent(2), rotated]) (use ok sent(1) in \<open>auto simp: channels_ok_def\<close>)
    qed
    then show ?thesis using sent by (simp add: SaveState_def)
  qed
  then show "es_states s' = SaveState c (es_states s)" "channels_ok s \<Longrightarrow> channels_ok s'" by simp_all
qed

lemma update_states:
  assumes "Enhanced_UpdateState eid updates s = (r, s')"
  shows "es_states s' = snd (UpdateState eid updates (es_states s)) \<and> es_channels s' = es_channels s
    \<and> (r = None \<longleftrightarrow> fst (UpdateState eid updates (es_states s)) = None)"
  using assms by (auto simp: Enhanced_UpdateState_def UpdateState_def Let_def split: option.splits)

lemma cleanup_states:
  assumes "Enhanced_CleanupState cc eid s = (r, s')" and "channels_ok s"
  shows "r = Returns ()" "es_states s' = CleanupState eid (es_states s)" "channels_ok s'" "es_channels s' eid = None"
proof -
  have "r = Returns () \<and> es_states s' = CleanupState eid (es_states s) \<and> channels_ok s' \<and> es_channels s' eid = None"
  proof (cases "es_channels s eid")
    case None
    then show ?thesis using assms by (auto simp: Enhanced_CleanupState_def CleanupState_def channels_ok_def)
  next
    case (Some ch)
    have "service_close cc ch = Returns () \<or> (\<exists>err. service_close cc ch = Fails err)"
      by (rule service_close_ends) (use assms(2) Some in \<open>auto simp: channels_ok_def\<close>)
    then show ?thesis using assms Some
      by (auto simp: Enhanced_CleanupState_def CleanupState_def channels_ok_def Let_def split: if_splits)
  qed
  then show "r = Returns ()" "es_states s' = CleanupState eid (es_states s)" "channels_ok s'" "es_channels s' eid = None"
    by simp_all
qed

lemma create_states:
  assumes "CreateChannel rc cc entries disk eid ty s = (r, s')"
  shows "es_states s' = es_states s" and "channels_ok s \<Longrightarrow> channels_ok s'"
proof -
  have "inmem_inv (DefaultInMemoryChannel rc)"
    using NewInMemoryChannel_open by (auto simp: DefaultInMemoryChannel_def Let_def inmem_open_def)
  then show "es_states s' = es_states s" "channels_ok s \<Longrightarrow> channels_ok s'"
    using assms by (auto simp: CreateChannel_def Let_def channels_ok_def split: if_splits sum.splits)
qed

subsection \<open>Refinement\<close>

text \<open>Operations of the enhanced service, and those of the plain one that they amount to.\<close>

datatype enhanced_op =
    EnhCreate RuntimeConfig chan_call "string list" "string \<rightharpoonup> pfile" string string
  | EnhSave chan_call int ExecutionContext
  | EnhUpdate string gstate
  | EnhCleanup chan_call string

fun enhanced_run :: "enhanced_op list \<Rightarrow> 'w EnhancedStateService \<Rightarrow> 'w EnhancedStateService" where
  "enhanced_run [] s = s"
| "enhanced_run (EnhCreate rc cc entries disk eid ty # ops) s = enhanced_run ops (snd (CreateChannel rc cc entries disk eid ty s))"
| "enhanced_run (EnhSave cc nano c # ops) s = enhanced_run ops (snd (Enhanced_SaveState cc nano c s))"
| "enhanced_run (EnhUpdate eid u # ops) s = enhanced_run ops (snd (Enhanced_UpdateState eid u s))"
| "enhanced_run (EnhCleanup cc eid # ops) s = enhanced_run ops (snd (Enhanced_CleanupState cc eid s))"

fun plain_ops :: "enhanced_op list \<Rightarrow> state_op list" where
  "plain_ops [] = []"
| "plain_ops (EnhCreate _ _ _ _ _ _ # ops) = plain_ops ops"
| "plain_ops (EnhSave _ _ c # ops) = OpSaveState c # plain_ops ops"
| "plain_ops (EnhUpdate eid u # ops) = OpUpdateState eid u # plain_ops ops"
| "plain_ops (EnhCleanup _ eid # ops) = OpCleanupState eid # plain_ops ops"

lemma enhanced_run_states:
  "channels_ok s \<Longrightarrow> es_states (enhanced_run ops s) = state_run (plain_ops ops) (es_states s) \<and> channels_ok (enhanced_run ops s)"
proof (induction ops arbitrary: s)
  case (Cons op ops)
  show ?case
  proof (cases op)
    case (EnhCreate rc cc entries disk eid ty)
    obtain r s' where "CreateChannel rc cc entries disk eid ty s = (r, s')" by fastforce
    with create_states [OF this] Cons EnhCreate show ?thesis by simp
  next
    case (EnhSave cc nano c)
    obtain r s' where "SaveStateWithChannel cc nano c s = (r, s')" by fastforce
    with save_states [OF this] Cons EnhSave show ?thesis by (simp add: Enhanced_SaveState_def)
  next
    case (EnhUpdate eid u)
    obtain r s' where u: "Enhanced_UpdateState eid u s = (r, s')" by fastforce
    from update_states [OF u] Cons.prems have "channels_ok s'" by (simp add: channels_ok_def)
    with u update_states [OF u] Cons.IH [OF this] EnhUpdate show ?thesis by simp
  next
    case (EnhCleanup cc eid)
    obtain r s' where "Enhanced_CleanupState cc eid s = (r, s')" by fastforce
    with cleanup_states [OF this Cons.prems] Cons.IH EnhCleanup show ?thesis by simp
  qed
qed simp


subsection \<open>Reading one's own broadcasts\<close>

definition sample_saved :: "string \<Rightarrow> gstate option \<Rightarrow> ExecutionContext" where
  "sample_saved eid st = \<lparr>xc_ExecutionID = eid, xc_GraphID = ''g'', xc_ThreadID = ''t'', xc_CurrentStep = 1,
     xc_State = st, xc_Config = zero_config, xc_StartTime = 0\<rparr>"

definition sample_call :: chan_call where
  "sample_call = \<lparr>cc_arm = ArmChan, cc_env = \<lparr>env_time_text = show_int, env_file_size = \<lambda>_. 1\<rparr>, cc_io = NoFault, cc_now = 0\<rparr>"


text \<open>The state of an execution, and a save and an update over a buffered channel with room.\<close>

definition saves :: "(chan_call \<times> int \<times> ExecutionContext) list \<Rightarrow> 'w EnhancedStateService \<Rightarrow> 'w EnhancedStateService" where
  "saves cs s = fold (\<lambda>(cc, nano, c) s. snd (SaveStateWithChannel cc nano c s)) cs s"

definition receives :: "chan_call list \<Rightarrow> string \<Rightarrow> 'w EnhancedStateService \<Rightarrow> 'w EnhancedStateService" where
  "receives ccs eid s = fold (\<lambda>cc s. snd (UpdateStateViaChannel cc eid s)) ccs s"

definition pending :: "string \<Rightarrow> Message list \<Rightarrow> 'w EnhancedStateService \<Rightarrow> bool" where
  "pending eid ms s \<longleftrightarrow> (\<exists>b. es_channels s eid = Some (ViaBuffered b) \<and> buf_ready b \<and> bc_buffer b = ms
     \<and> length ms \<le> nat (Buf_Cap b))"

abbreviation message_of :: "chan_call \<times> int \<times> ExecutionContext \<Rightarrow> Message" where
  "message_of c \<equiv> state_message (fst (snd c)) (cc_now (fst c)) (snd (snd c))"

lemma save_pending:
  assumes "es_channels s eid = Some (ViaBuffered b)" and "buf_ready b" and "length (bc_buffer b) < nat (Buf_Cap b)"
    and "xc_ExecutionID c = eid" and "eid \<noteq> []"
  shows "\<exists>b'. SaveStateWithChannel cc nano c s = (Returns (), snd (SaveStateWithChannel cc nano c s))
    \<and> es_channels (snd (SaveStateWithChannel cc nano c s)) eid = Some (ViaBuffered b') \<and> buf_ready b'
    \<and> bc_buffer b' = bc_buffer b @ [state_message nano (cc_now cc) c] \<and> Buf_Cap b' = Buf_Cap b"
proof -
  have "Message_Validate (state_message nano (cc_now cc) c) = None"
    using assms(4,5) by (simp add: Message_Validate_def state_message_def MessageTypeData_def)
  then show ?thesis using assms(1-4)
    by (auto simp: SaveStateWithChannel_def Let_def service_send_def buf_ops buf_ready_def buf_inv_def Buf_Cap_def)
qed

lemma saves_pending:
  assumes "es_channels s eid = Some (ViaBuffered b)" and "buf_ready b"
    and "length (bc_buffer b) + length cs \<le> nat (Buf_Cap b)"
    and "\<forall>c \<in> set cs. xc_ExecutionID (snd (snd c)) = eid" and "eid \<noteq> []"
  shows "pending eid (bc_buffer b @ map message_of cs) (saves cs s)
    \<and> es_states (saves cs s) eid = (if cs = [] then es_states s eid else Some (copy_context (snd (snd (last cs)))))"
  using assms
proof (induction cs arbitrary: s b)
  case Nil
  then show ?case by (simp add: saves_def pending_def)
next
  case (Cons c cs)
  obtain cc nano x where c: "c = (cc, nano, x)" by (cases c)
  let ?s1 = "snd (SaveStateWithChannel cc nano x s)"
  have x: "xc_ExecutionID x = eid" using Cons.prems(4) c by simp
  obtain b' where b': "es_channels ?s1 eid = Some (ViaBuffered b')" "buf_ready b'"
    "bc_buffer b' = bc_buffer b @ [state_message nano (cc_now cc) x]" "Buf_Cap b' = Buf_Cap b"
    using save_pending [OF Cons.prems(1,2) _ x Cons.prems(5), of cc nano] Cons.prems(3) by auto
  have st: "es_states ?s1 eid = Some (copy_context x)"
    using save_states(1) [of cc nano x s "fst (SaveStateWithChannel cc nano x s)" ?s1] x by (simp add: SaveState_def)
  have "pending eid (bc_buffer b' @ map message_of cs) (saves cs ?s1)
      \<and> es_states (saves cs ?s1) eid = (if cs = [] then es_states ?s1 eid else Some (copy_context (snd (snd (last cs)))))"
    by (rule Cons.IH) (use Cons.prems b' in auto)
  then show ?case using b'(3) st c by (simp add: saves_def)
qed

lemma receive_pending:
  assumes "pending eid (state_message nano now c # ms) s" and "es_states s eid = Some st"
  shows "pending eid ms (snd (UpdateStateViaChannel cc eid s))
    \<and> es_states (snd (UpdateStateViaChannel cc eid s)) eid
      = Some (st\<lparr>xc_State := Some (nil_map (xc_State st) ++ nil_map (xc_State c))\<rparr>)"
proof -
  obtain b where b: "es_channels s eid = Some (ViaBuffered b)" "buf_ready b" "bc_buffer b = state_message nano now c # ms"
      "length (bc_buffer b) \<le> nat (Buf_Cap b)"
    using assms(1) by (auto simp: pending_def)
  then show ?thesis using assms(2)
    by (auto simp: UpdateStateViaChannel_def service_receive_def buf_ops state_message_def Enhanced_UpdateState_def
        pending_def buf_ready_def buf_inv_def Buf_Cap_def Let_def)
qed

lemma receives_pending:
  assumes "pending eid (map message_of cs) s" and "es_states s eid = Some st" and "length ccs = length cs"
  shows "pending eid [] (receives ccs eid s)
    \<and> es_states (receives ccs eid s) eid
      = Some (if cs = [] then st else st\<lparr>xc_State := Some (fold (\<lambda>c m. m ++ nil_map (xc_State (snd (snd c)))) cs (nil_map (xc_State st)))\<rparr>)"
  using assms
proof (induction cs arbitrary: s st ccs)
  case Nil
  then show ?case by (simp add: receives_def)
next
  case (Cons c cs)
  then obtain cc rest where ccs: "ccs = cc # rest" "length rest = length cs" by (cases ccs) auto
  let ?s1 = "snd (UpdateStateViaChannel cc eid s)"
  have 1: "pending eid (map message_of cs) ?s1"
    "es_states ?s1 eid = Some (st\<lparr>xc_State := Some (nil_map (xc_State st) ++ nil_map (xc_State (snd (snd c))))\<rparr>)"
    using receive_pending [of eid _ _ "snd (snd c)" "map message_of cs" s st cc] Cons.prems by simp_all
  from Cons.IH [OF 1 ccs(2)] show ?case by (simp add: receives_def ccs nil_map_def)
qed

text \<open>
  broadcasts are replayed. If an execution is saved \<open>n\<close> times over a buffered channel with room
  and then updated from the channel \<open>n\<close> times, the channel is empty again and the state is the union
  of all saved states, the later ones winning: an entry that a later save had removed is back.
\<close>

theorem replay_restores_removed:
  assumes "es_channels s eid = Some (ViaBuffered b)" and "buf_ready b" and "bc_buffer b = []"
    and "length cs \<le> nat (Buf_Cap b)" and "cs \<noteq> []" and "eid \<noteq> []"
    and "\<forall>c \<in> set cs. xc_ExecutionID (snd (snd c)) = eid" and "length ccs = length cs"
  shows "Enhanced_LoadState eid (saves cs s) = Inr (copy_context (snd (snd (last cs))))
    \<and> Enhanced_LoadState eid (receives ccs eid (saves cs s))
      = Inr ((snd (snd (last cs)))\<lparr>xc_State := Some (fold (\<lambda>c m. m ++ nil_map (xc_State (snd (snd c)))) cs Map.empty)\<rparr>)"
proof -
  have saved: "pending eid (map message_of cs) (saves cs s)" "es_states (saves cs s) eid = Some (copy_context (snd (snd (last cs))))"
    using saves_pending [OF assms(1,2) _ assms(7,6)] assms(3-5) by simp_all
  have merged: "fold (\<lambda>c m. m ++ nil_map (xc_State (snd (snd c)))) cs m0
      = (\<lambda>k. case fold (\<lambda>c m. m ++ nil_map (xc_State (snd (snd c)))) cs Map.empty k of None \<Rightarrow> m0 k | Some v \<Rightarrow> Some v)" for m0
    by (induction cs rule: rev_induct) (auto simp: fun_eq_iff map_add_def split: option.splits)
  have "fold (\<lambda>c m. m ++ nil_map (xc_State (snd (snd c)))) cs (nil_map (xc_State (snd (snd (last cs)))))
      = fold (\<lambda>c m. m ++ nil_map (xc_State (snd (snd c)))) cs Map.empty"
    using assms(5) unfolding merged [of "nil_map (xc_State (snd (snd (last cs))))"]
    by (cases cs rule: rev_cases) (auto simp: fun_eq_iff map_add_def split: option.splits)
  then show ?thesis
    using receives_pending [OF saved assms(8)] saved(2) assms(5)
    by (simp add: Enhanced_LoadState_def LoadStateWithChannel_def copy_context_def nil_map_def)
qed

theorem replay_restores_removed_witness:
  "\<exists>c. Enhanced_LoadState ''e'' (receives [sample_call, sample_call] ''e''
      (saves [(sample_call, 1, sample_saved ''e'' (Some [''k'' \<mapsto> VBool True])), (sample_call, 2, sample_saved ''e'' None)]
        ((NewEnhancedStateService ())\<lparr>es_channels := [''e'' \<mapsto> ViaBuffered (NewBufferedChannel \<lparr>bcc_MaxSize = 2, bcc_Timeout = 0\<rparr>)]\<rparr>)))
      = Inr c \<and> xc_State c = Some [''k'' \<mapsto> VBool True]"
  using replay_restores_removed [of "(NewEnhancedStateService ())\<lparr>es_channels := [''e'' \<mapsto> ViaBuffered (NewBufferedChannel \<lparr>bcc_MaxSize = 2, bcc_Timeout = 0\<rparr>)]\<rparr>"
      "''e''" "NewBufferedChannel \<lparr>bcc_MaxSize = 2, bcc_Timeout = 0\<rparr>"
      "[(sample_call, 1, sample_saved ''e'' (Some [''k'' \<mapsto> VBool True])), (sample_call, 2, sample_saved ''e'' None)]"
      "[sample_call, sample_call]"]
  by (simp add: NewBufferedChannel_def buf_ready_def buf_inv_def Buf_Cap_def sample_saved_def nil_map_def)

end
