(* ===== verification/StreamingCheckpoint.thy ===== *)
theory StreamingCheckpoint
  imports CheckpointService StreamProps
begin

section \<open>The streaming checkpoint service (internal/app/services/streaming\_checkpoint.go)\<close>

text \<open>
  The checkpoint service with hooks and an event channel. The saver is any implementation of the
  interface of internal/core/checkpoint/saver.go, the channel any \<open>Send\<close>. Every operation first
  calls the saver; then it runs the hooks, whose errors are only printed, and sends its event, whose
  error is only printed too, but which may wait. Hooks return and only read the context they get.
\<close>

subsection \<open>Savers and state\<close>

record ('env, 's) Saver =
  sp_Save :: "'env \<Rightarrow> Checkpoint \<Rightarrow> 's \<Rightarrow> (cp_error, unit) outcome \<times> 's"
  sp_Load :: "'env \<Rightarrow> string \<Rightarrow> 's \<Rightarrow> (cp_error, Checkpoint) outcome \<times> 's"
  sp_List :: "'env \<Rightarrow> Filter \<Rightarrow> 's \<Rightarrow> (cp_error, Checkpoint list) outcome \<times> 's"
  sp_Delete :: "'env \<Rightarrow> string \<Rightarrow> 's \<Rightarrow> (cp_error, unit) outcome \<times> 's"

record CheckpointEvent =
  ce_Type :: string
  ce_CheckpointID :: string
  ce_ExecutionID :: string
  ce_ThreadID :: string
  ce_Timestamp :: int
  ce_Metadata :: "gstate option"

type_synonym 'w CheckpointHook = "string \<Rightarrow> string \<Rightarrow> ExecutionContext \<Rightarrow> 'w \<Rightarrow> string option \<times> 'w"

datatype cp_notice = CheckpointHookError string | StreamEventFailed chan_error | AutoSaved string

record ('env, 's, 'c, 'w) StreamingCheckpointService =
  sc_saver :: "('env, 's) Saver"
  sc_store :: 's
  sc_eventChannel :: "(select_arm \<Rightarrow> Message \<Rightarrow> 'c \<Rightarrow> (chan_error, unit) outcome \<times> 'c) option"
  sc_channel :: 'c
  sc_hooks :: "'w CheckpointHook list"
  sc_world :: 'w
  sc_autoSave :: bool
  sc_saveInterval :: int
  sc_printed :: "cp_notice list"

text \<open>
  What one call depends on: the clock for the checkpoint's ID, the stream ID, its time stamp, the
  event's time stamp and message ID; the saver's environment; the select arm; the boxing of an event
  as a payload and the formatting of its time.
\<close>

record 'env cp_call =
  sk_nano :: int
  sk_stream :: int
  sk_time :: int
  sk_event :: int
  sk_message :: int
  sk_saver :: 'env
  sk_arm :: select_arm
  sk_payload :: "CheckpointEvent \<Rightarrow> gval"
  sk_rfc3339 :: "int \<Rightarrow> string"

definition NewStreamingCheckpointService ::
  "('env, 's) Saver \<Rightarrow> 's \<Rightarrow> (select_arm \<Rightarrow> Message \<Rightarrow> 'c \<Rightarrow> (chan_error, unit) outcome \<times> 'c) option \<Rightarrow> 'c \<Rightarrow> 'w
   \<Rightarrow> ('env, 's, 'c, 'w) StreamingCheckpointService" where
  "NewStreamingCheckpointService sv st ch c w = \<lparr>sc_saver = sv, sc_store = st, sc_eventChannel = ch, sc_channel = c,
     sc_hooks = [], sc_world = w, sc_autoSave = False, sc_saveInterval = seconds 30, sc_printed = []\<rparr>"

definition EnableAutoSave ::
  "int \<Rightarrow> ('env, 's, 'c, 'w) StreamingCheckpointService \<Rightarrow> ('env, 's, 'c, 'w) StreamingCheckpointService" where
  "EnableAutoSave interval s = s\<lparr>sc_autoSave := True, sc_saveInterval := interval\<rparr>"

definition AddCheckpointHook ::
  "'w CheckpointHook \<Rightarrow> ('env, 's, 'c, 'w) StreamingCheckpointService \<Rightarrow> ('env, 's, 'c, 'w) StreamingCheckpointService" where
  "AddCheckpointHook hook s = s\<lparr>sc_hooks := sc_hooks s @ [hook]\<rparr>"

definition generateStreamingCheckpointID :: "int \<Rightarrow> ExecutionContext \<Rightarrow> string" where
  "generateStreamingCheckpointID nano c =
     ''stream-checkpoint-'' @ xc_GraphID c @ ''-'' @ xc_ThreadID c @ ''-'' @ show_int (xc_CurrentStep c)
       @ ''-'' @ show_int nano"

definition generateStandardID :: "int \<Rightarrow> ExecutionContext \<Rightarrow> string" where
  "generateStandardID nano c =
     ''checkpoint-'' @ xc_GraphID c @ ''-'' @ xc_ThreadID c @ ''-'' @ show_int (xc_CurrentStep c)
       @ ''-'' @ show_int nano"

subsection \<open>Events\<close>

definition checkpoint_message :: "'env cp_call \<Rightarrow> CheckpointEvent \<Rightarrow> Message" where
  "checkpoint_message k ev =
     \<lparr>m_ID = ''checkpoint-event-'' @ show_int (sk_message k), m_Type = MessageTypeData, m_Source = ''checkpoint-service'',
      m_Target = ''streaming-monitor'', m_Payload = sk_payload k ev,
      m_Headers = [''event-type'' \<mapsto> ce_Type ev, ''timestamp'' \<mapsto> sk_rfc3339 k (ce_Timestamp ev)], m_Metadata = Map.empty\<rparr>"

definition Checkpoint_streamEvent ::
  "'env cp_call \<Rightarrow> CheckpointEvent \<Rightarrow> ('env, 's, 'c, 'w) StreamingCheckpointService
   \<Rightarrow> (cp_error, unit) outcome \<times> ('env, 's, 'c, 'w) StreamingCheckpointService" where
  "Checkpoint_streamEvent k ev s =
     (case sc_eventChannel s of
        None \<Rightarrow> (Returns (), s)
      | Some snd_op \<Rightarrow>
          (case snd_op (sk_arm k) (checkpoint_message k ev) (sc_channel s) of
             (r, c) \<Rightarrow>
               (let s1 = s\<lparr>sc_channel := c\<rparr>
                in case r of
                     Returns _ \<Rightarrow> (Returns (), s1)
                   | Fails err \<Rightarrow> (Returns (), s1\<lparr>sc_printed := sc_printed s1 @ [StreamEventFailed err]\<rparr>)
                   | Blocks \<Rightarrow> (Blocks, s1)
                   | Deadlocks \<Rightarrow> (Deadlocks, s1)
                   | Panics e \<Rightarrow> (Panics e, s1))))"

definition checkpoint_event :: "'env cp_call \<Rightarrow> string \<Rightarrow> string \<Rightarrow> ExecutionContext \<Rightarrow> CheckpointEvent" where
  "checkpoint_event k ty cid c = \<lparr>ce_Type = ty, ce_CheckpointID = cid, ce_ExecutionID = xc_ExecutionID c,
     ce_ThreadID = xc_ThreadID c, ce_Timestamp = sk_event k,
     ce_Metadata = Some [''step'' \<mapsto> VInt (word_of_int (xc_CurrentStep c)), ''graph_id'' \<mapsto> VStr (xc_GraphID c)]\<rparr>"

definition streamCheckpointEvent ::
  "'env cp_call \<Rightarrow> string \<Rightarrow> string \<Rightarrow> ExecutionContext \<Rightarrow> ('env, 's, 'c, 'w) StreamingCheckpointService
   \<Rightarrow> (cp_error, unit) outcome \<times> ('env, 's, 'c, 'w) StreamingCheckpointService" where
  "streamCheckpointEvent k ty cid c s = Checkpoint_streamEvent k (checkpoint_event k ty cid c) s"

fun checkpoint_hooks ::
  "'w CheckpointHook list \<Rightarrow> string \<Rightarrow> string \<Rightarrow> ExecutionContext \<Rightarrow> cp_notice list \<times> 'w \<Rightarrow> cp_notice list \<times> 'w" where
  "checkpoint_hooks [] ty cid c (ns, w) = (ns, w)"
| "checkpoint_hooks (hook # hooks) ty cid c (ns, w) =
     (case hook ty cid c w of
        (Some err, w') \<Rightarrow> checkpoint_hooks hooks ty cid c (ns @ [CheckpointHookError err], w')
      | (None, w') \<Rightarrow> checkpoint_hooks hooks ty cid c (ns, w'))"

definition notify_checkpoint ::
  "string \<Rightarrow> string \<Rightarrow> ExecutionContext \<Rightarrow> ('env, 's, 'c, 'w) StreamingCheckpointService
   \<Rightarrow> ('env, 's, 'c, 'w) StreamingCheckpointService" where
  "notify_checkpoint ty cid c s =
     (case checkpoint_hooks (sc_hooks s) ty cid c (sc_printed s, sc_world s) of
        (ns, w) \<Rightarrow> s\<lparr>sc_printed := ns, sc_world := w\<rparr>)"

subsection \<open>Creating\<close>

text \<open>A call of the saver: the store changes, an error is wrapped.\<close>

definition saver_call ::
  "string \<Rightarrow> (cp_error, 'a) outcome \<times> 's \<Rightarrow> ('env, 's, 'c, 'w) StreamingCheckpointService
   \<Rightarrow> (cp_error, 'a) outcome \<times> ('env, 's, 'c, 'w) StreamingCheckpointService" where
  "saver_call what rs s =
     (let s1 = s\<lparr>sc_store := snd rs\<rparr>
      in (case fst rs of
            Returns a \<Rightarrow> Returns a | Fails err \<Rightarrow> Fails (Wrapped what err)
          | Blocks \<Rightarrow> Blocks | Deadlocks \<Rightarrow> Deadlocks | Panics e \<Rightarrow> Panics e, s1))"

definition streaming_checkpoint_of :: "'env cp_call \<Rightarrow> ExecutionContext \<Rightarrow> Checkpoint" where
  "streaming_checkpoint_of k c =
     \<lparr>cp_ID = generateStandardID (sk_nano k) c, cp_GraphID = xc_GraphID c, cp_ThreadID = xc_ThreadID c,
      cp_State = xc_State c,
      cp_Metadata = \<lparr>md_Step = xc_CurrentStep c, md_Source = ''streaming_checkpoint_service'',
        md_Writes = Some [''execution_id'' \<mapsto> VStr (xc_ExecutionID c), ''config'' \<mapsto> VConfig (xc_Config c),
          ''start_time'' \<mapsto> VTime (xc_StartTime c), ''stream_id'' \<mapsto> VStr (''stream-'' @ show_int (sk_stream k))],
        md_UserID = [], md_CreatedBy = ''flowgraph'', md_Tags = [''streaming'', ''auto-generated'']\<rparr>,
      cp_Timestamp = sk_time k, cp_Version = ''1.0''\<rparr>"

definition Streaming_CreateCheckpoint ::
  "'env cp_call \<Rightarrow> ExecutionContext \<Rightarrow> ('env, 's, 'c, 'w) StreamingCheckpointService
   \<Rightarrow> (cp_error, string) outcome \<times> ('env, 's, 'c, 'w) StreamingCheckpointService" where
  "Streaming_CreateCheckpoint k c s =
     (let cid = generateStandardID (sk_nano k) c
      in and_then (saver_call ''failed to save checkpoint''
                     (sp_Save (sc_saver s) (sk_saver k) (streaming_checkpoint_of k c) (sc_store s)) s) (\<lambda>_ s1.
         and_then (streamCheckpointEvent k ''created'' cid c (notify_checkpoint ''created'' cid c s1)) (\<lambda>_ s2.
           (Returns cid, s2))))"

definition stream_data_checkpoint :: "'env cp_call \<Rightarrow> ExecutionContext \<Rightarrow> gstate option \<Rightarrow> Checkpoint" where
  "stream_data_checkpoint k c streamData =
     \<lparr>cp_ID = generateStreamingCheckpointID (sk_nano k) c, cp_GraphID = xc_GraphID c, cp_ThreadID = xc_ThreadID c,
      cp_State = xc_State c,
      cp_Metadata = \<lparr>md_Step = xc_CurrentStep c, md_Source = ''streaming_executor'',
        md_Writes = Some [''execution_id'' \<mapsto> VStr (xc_ExecutionID c), ''config'' \<mapsto> VConfig (xc_Config c),
          ''start_time'' \<mapsto> VTime (xc_StartTime c), ''stream_data'' \<mapsto> VMap (nil_map streamData),
          ''streaming_id'' \<mapsto> VStr (''stream-'' @ show_int (sk_stream k))],
        md_UserID = [], md_CreatedBy = ''flowgraph-streaming'', md_Tags = [''streaming'', ''real-time'', ''node-finished'']\<rparr>,
      cp_Timestamp = sk_time k, cp_Version = ''1.1''\<rparr>"

definition CreateStreamingCheckpoint ::
  "'env cp_call \<Rightarrow> ExecutionContext \<Rightarrow> gstate option \<Rightarrow> ('env, 's, 'c, 'w) StreamingCheckpointService
   \<Rightarrow> (cp_error, string) outcome \<times> ('env, 's, 'c, 'w) StreamingCheckpointService" where
  "CreateStreamingCheckpoint k c streamData s =
     (let cid = generateStreamingCheckpointID (sk_nano k) c
      in and_then (saver_call ''failed to save streaming checkpoint''
                     (sp_Save (sc_saver s) (sk_saver k) (stream_data_checkpoint k c streamData) (sc_store s)) s) (\<lambda>_ s1.
         and_then (streamCheckpointEvent k ''streaming_created'' cid c s1) (\<lambda>_ s2. (Returns cid, s2))))"

subsection \<open>Loading, listing, deleting, saving on a timer\<close>

definition Streaming_LoadCheckpoint ::
  "'env cp_call \<Rightarrow> string \<Rightarrow> ('env, 's, 'c, 'w) StreamingCheckpointService
   \<Rightarrow> (cp_error, ExecutionContext) outcome \<times> ('env, 's, 'c, 'w) StreamingCheckpointService" where
  "Streaming_LoadCheckpoint k cid s =
     and_then (saver_call ''failed to load checkpoint'' (sp_Load (sc_saver s) (sk_saver k) cid (sc_store s)) s) (\<lambda>cp s1.
       let c = context_of cp
       in and_then (streamCheckpointEvent k ''loaded'' cid c (notify_checkpoint ''loaded'' cid c s1)) (\<lambda>_ s2. (Returns c, s2)))"

definition Streaming_ListCheckpoints ::
  "'env cp_call \<Rightarrow> string \<Rightarrow> ('env, 's, 'c, 'w) StreamingCheckpointService
   \<Rightarrow> (cp_error, string list) outcome \<times> ('env, 's, 'c, 'w) StreamingCheckpointService" where
  "Streaming_ListCheckpoints k threadID s =
     and_then (saver_call ''failed to list checkpoints''
       (sp_List (sc_saver s) (sk_saver k) \<lparr>fl_GraphID = [], fl_ThreadID = threadID, fl_Limit = 100, fl_Offset = 0,
          fl_Since = None, fl_Before = None, fl_Tags = []\<rparr> (sc_store s)) s) (\<lambda>cps s1. (Returns (map cp_ID cps), s1))"

definition Streaming_DeleteCheckpoint ::
  "'env cp_call \<Rightarrow> string \<Rightarrow> ('env, 's, 'c, 'w) StreamingCheckpointService
   \<Rightarrow> (cp_error, unit) outcome \<times> ('env, 's, 'c, 'w) StreamingCheckpointService" where
  "Streaming_DeleteCheckpoint k cid s =
     and_then (saver_call ''failed to delete checkpoint'' (sp_Delete (sc_saver s) (sk_saver k) cid (sc_store s)) s) (\<lambda>_ s1.
       Checkpoint_streamEvent k \<lparr>ce_Type = ''deleted'', ce_CheckpointID = cid, ce_ExecutionID = [], ce_ThreadID = [],
         ce_Timestamp = sk_event k, ce_Metadata = None\<rparr> s1)"

text \<open>
  The goroutine of \<^verbatim>\<open>StartAutoSave\<close>: \<open>ticks\<close> are the ticks it takes before the context
  is done, with the execution context as it is then (it is shared). A failed save is skipped.
\<close>

fun autosave_loop ::
  "('env cp_call \<times> ExecutionContext) list \<Rightarrow> ('env, 's, 'c, 'w) StreamingCheckpointService
   \<Rightarrow> (unit, unit) outcome \<times> ('env, 's, 'c, 'w) StreamingCheckpointService" where
  "autosave_loop [] s = (Returns (), s)"
| "autosave_loop ((k, c) # ticks) s =
     (case Streaming_CreateCheckpoint k c s of
        (Returns cid, s1) \<Rightarrow> autosave_loop ticks (s1\<lparr>sc_printed := sc_printed s1 @ [AutoSaved cid]\<rparr>)
      | (Fails err, s1) \<Rightarrow> autosave_loop ticks s1
      | (Blocks, s1) \<Rightarrow> (Blocks, s1) | (Deadlocks, s1) \<Rightarrow> (Deadlocks, s1) | (Panics e, s1) \<Rightarrow> (Panics e, s1))"

definition StartAutoSave ::
  "('env cp_call \<times> ExecutionContext) list \<Rightarrow> ('env, 's, 'c, 'w) StreamingCheckpointService
   \<Rightarrow> (unit, unit) outcome \<times> ('env, 's, 'c, 'w) StreamingCheckpointService" where
  "StartAutoSave ticks s =
     (if \<not> sc_autoSave s then (Returns (), s)
      else if sc_saveInterval s \<le> 0 then (Panics ''non-positive interval for NewTicker'', s)
      else autosave_loop ticks s)"

end
