(* ===== verification/StreamingCheckpointProps.thy ===== *)
theory StreamingCheckpointProps
  imports StreamingCheckpoint
begin

section \<open>Properties of the streaming checkpoint service\<close>

text \<open>
  The event channel as a journal of the saver. The service is a client of two contracts at once: a
  saver (\<open>checkpoint_store\<close>) and a channel that accepts while it has room (\<open>open_channel\<close>).
\<close>

subsection \<open>Runs of a client\<close>

datatype 'env service_op =
    JCreate "'env cp_call" ExecutionContext
  | JStream "'env cp_call" ExecutionContext "gstate option"
  | JLoad "'env cp_call" string
  | JDelete "'env cp_call" string

text \<open>The event of a call that returns without an error; \<open>None\<close> if the call does not return.\<close>

definition entry_of ::
  "('a \<Rightarrow> 'ev list) \<Rightarrow> (cp_error, 'a) outcome \<times> 's \<Rightarrow> ('ev list \<times> 's) option" where
  "entry_of ev rs = (case fst rs of Returns a \<Rightarrow> Some (ev a, snd rs) | Fails _ \<Rightarrow> Some ([], snd rs) | _ \<Rightarrow> None)"

definition deleted_event :: "'env cp_call \<Rightarrow> string \<Rightarrow> CheckpointEvent" where
  "deleted_event k cid = \<lparr>ce_Type = ''deleted'', ce_CheckpointID = cid, ce_ExecutionID = [], ce_ThreadID = [],
     ce_Timestamp = sk_event k, ce_Metadata = None\<rparr>"

fun service_step ::
  "'env service_op \<Rightarrow> ('env, 's, 'c, 'w) StreamingCheckpointService
   \<Rightarrow> (('env cp_call \<times> CheckpointEvent) list \<times> ('env, 's, 'c, 'w) StreamingCheckpointService) option" where
  "service_step (JCreate k c) s =
     entry_of (\<lambda>cid. [(k, checkpoint_event k ''created'' cid c)]) (Streaming_CreateCheckpoint k c s)"
| "service_step (JStream k c d) s =
     entry_of (\<lambda>cid. [(k, checkpoint_event k ''streaming_created'' cid c)]) (CreateStreamingCheckpoint k c d s)"
| "service_step (JLoad k cid) s =
     entry_of (\<lambda>c. [(k, checkpoint_event k ''loaded'' cid c)]) (Streaming_LoadCheckpoint k cid s)"
| "service_step (JDelete k cid) s = entry_of (\<lambda>_. [(k, deleted_event k cid)]) (Streaming_DeleteCheckpoint k cid s)"

fun service_run ::
  "'env service_op list \<Rightarrow> ('env, 's, 'c, 'w) StreamingCheckpointService
   \<Rightarrow> (('env cp_call \<times> CheckpointEvent) list \<times> ('env, 's, 'c, 'w) StreamingCheckpointService) option" where
  "service_run [] s = Some ([], s)"
| "service_run (op # ops) s =
     (case service_step op s of
        None \<Rightarrow> None
      | Some (es, s1) \<Rightarrow> map_option (\<lambda>(fs, s2). (es @ fs, s2)) (service_run ops s1))"

text \<open>The identifiers that a journal leaves alive.\<close>

definition replay_event :: "CheckpointEvent \<Rightarrow> string set \<Rightarrow> string set" where
  "replay_event ev ids =
     (if ce_Type ev = ''created'' \<or> ce_Type ev = ''streaming_created'' then insert (ce_CheckpointID ev) ids
      else if ce_Type ev = ''deleted'' then ids - {ce_CheckpointID ev} else ids)"

definition journal_messages :: "('env cp_call \<times> CheckpointEvent) list \<Rightarrow> Message list" where
  "journal_messages es = map (\<lambda>(k, ev). checkpoint_message k ev) es"

fun op_call :: "'env service_op \<Rightarrow> 'env cp_call" where
  "op_call (JCreate k c) = k" | "op_call (JStream k c d) = k" | "op_call (JLoad k cid) = k" | "op_call (JDelete k cid) = k"

lemma checkpoint_message_valid [simp]: "Message_Validate (checkpoint_message k ev) = None"
  by (simp add: Message_Validate_def checkpoint_message_def MessageTypeData_def)

lemma entry_of_simps [simp]:
  "entry_of ev (Returns a, s) = Some (ev a, s)" "entry_of ev (Fails e, s) = Some ([], s)"
  "entry_of ev (Blocks, s) = None" "entry_of ev (Deadlocks, s) = None" "entry_of ev (Panics p, s) = None"
  by (simp_all add: entry_of_def)

lemma saver_call_simps [simp]:
  "saver_call what (Returns a, st) s = (Returns a, s\<lparr>sc_store := st\<rparr>)"
  "saver_call what (Fails e, st) s = (Fails (Wrapped what e), s\<lparr>sc_store := st\<rparr>)"
  "saver_call what (Blocks, st) s = (Blocks, s\<lparr>sc_store := st\<rparr>)"
  "saver_call what (Deadlocks, st) s = (Deadlocks, s\<lparr>sc_store := st\<rparr>)"
  "saver_call what (Panics p, st) s = (Panics p, s\<lparr>sc_store := st\<rparr>)"
  by (simp_all add: saver_call_def Let_def)

lemma notify_checkpoint_simps [simp]:
  "sc_saver (notify_checkpoint ty cid c s) = sc_saver s" "sc_store (notify_checkpoint ty cid c s) = sc_store s"
  "sc_eventChannel (notify_checkpoint ty cid c s) = sc_eventChannel s"
  "sc_channel (notify_checkpoint ty cid c s) = sc_channel s" "sc_hooks (notify_checkpoint ty cid c s) = sc_hooks s"
  by (simp_all add: notify_checkpoint_def split: prod.splits)

subsection \<open>The journal\<close>

locale journaled_store =
  store: checkpoint_store save load delete content cview sinv +
  sink: open_channel snd_op rcv_op contents mview cinv capacity ready
  for save :: "'env \<Rightarrow> Checkpoint \<Rightarrow> 's \<Rightarrow> (cp_error, unit) outcome \<times> 's"
    and load :: "'env \<Rightarrow> string \<Rightarrow> 's \<Rightarrow> (cp_error, Checkpoint) outcome \<times> 's"
    and delete :: "'env \<Rightarrow> string \<Rightarrow> 's \<Rightarrow> (cp_error, unit) outcome \<times> 's"
    and content :: "'s \<Rightarrow> string \<rightharpoonup> Checkpoint" and cview :: "Checkpoint \<Rightarrow> Checkpoint" and sinv :: "'s \<Rightarrow> bool"
    and snd_op :: "select_arm \<Rightarrow> Message \<Rightarrow> 'c \<Rightarrow> (chan_error, unit) outcome \<times> 'c"
    and rcv_op :: "select_arm \<Rightarrow> 'c \<Rightarrow> (chan_error, Message) outcome \<times> 'c"
    and contents :: "'c \<Rightarrow> Message list" and mview :: "Message \<Rightarrow> Message" and cinv :: "'c \<Rightarrow> bool"
    and capacity :: "'c \<Rightarrow> nat" and ready :: "'c \<Rightarrow> bool"
begin

text \<open>A service on this saver and this channel, with room for \<open>n\<close> more events.\<close>

definition serves :: "nat \<Rightarrow> ('env, 's, 'c, 'w) StreamingCheckpointService \<Rightarrow> bool" where
  "serves n s \<longleftrightarrow> sp_Save (sc_saver s) = save \<and> sp_Load (sc_saver s) = load \<and> sp_Delete (sc_saver s) = delete
     \<and> sinv (sc_store s) \<and> sc_eventChannel s = Some snd_op \<and> ready (sc_channel s)
     \<and> length (contents (sc_channel s)) + n \<le> capacity (sc_channel s)"

text \<open>The channel has the new messages, and what is stored is alive in the journal.\<close>

definition journaled ::
  "('env, 's, 'c, 'w) StreamingCheckpointService \<Rightarrow> ('env cp_call \<times> CheckpointEvent) list
   \<Rightarrow> ('env, 's, 'c, 'w) StreamingCheckpointService \<Rightarrow> bool" where
  "journaled s es s' \<longleftrightarrow> contents (sc_channel s') = contents (sc_channel s) @ map mview (journal_messages es)
     \<and> (\<forall>ids. dom (content (sc_store s)) \<subseteq> ids \<longrightarrow> dom (content (sc_store s')) \<subseteq> fold replay_event (map snd es) ids)"

lemma stream_accepted:
  assumes "serves (Suc n) s" and "sk_arm k = ArmChan"
  shows "\<exists>c'. Checkpoint_streamEvent k ev s = (Returns (), s\<lparr>sc_channel := c'\<rparr>) \<and> ready c'
    \<and> contents c' = contents (sc_channel s) @ [mview (checkpoint_message k ev)] \<and> capacity c' = capacity (sc_channel s)"
  using sink.accept_one [of "sc_channel s" "checkpoint_message k ev"] assms
  by (auto simp: serves_def Checkpoint_streamEvent_def Let_def)

text \<open>Every operation: a call of the saver, hooks that leave the rest alone, the event.\<close>

lemma one_event:
  assumes "serves (Suc n) s" and "sk_arm k = ArmChan" and "sinv st"
    and "\<And>ids. dom (content (sc_store s)) \<subseteq> ids \<Longrightarrow> dom (content st) \<subseteq> replay_event ev ids"
    and "sc_saver s1 = sc_saver s" and "sc_store s1 = st" and "sc_eventChannel s1 = sc_eventChannel s"
    and "sc_channel s1 = sc_channel s"
  shows "\<exists>s'. Checkpoint_streamEvent k ev s1 = (Returns (), s') \<and> serves n s' \<and> journaled s [(k, ev)] s'"
proof -
  have "serves (Suc n) s1" using assms by (simp add: serves_def)
  from stream_accepted [OF this assms(2), of ev] obtain c' where
    c': "Checkpoint_streamEvent k ev s1 = (Returns (), s1\<lparr>sc_channel := c'\<rparr>)" "ready c'"
    "contents c' = contents (sc_channel s) @ [mview (checkpoint_message k ev)]" "capacity c' = capacity (sc_channel s)"
    using assms(8) by auto
  then show ?thesis using assms by (auto simp: serves_def journaled_def journal_messages_def)
qed

text \<open>A call that fails has no event.\<close>

lemma no_event:
  assumes "serves (Suc n) s" and "sinv st" and "content st \<subseteq>\<^sub>m content (sc_store s)"
  shows "serves n (s\<lparr>sc_store := st\<rparr>) \<and> journaled s [] (s\<lparr>sc_store := st\<rparr>)"
  using assms by (auto simp: serves_def journaled_def journal_messages_def dest: map_le_implies_dom_le)

lemma serves_fields:
  assumes "serves n s"
  shows "sp_Save (sc_saver s) = save" "sp_Load (sc_saver s) = load" "sp_Delete (sc_saver s) = delete" "sinv (sc_store s)"
  using assms by (simp_all add: serves_def)

lemma create_journaled:
  assumes "serves (Suc n) s" and "sk_arm k = ArmChan" and "service_step (JCreate k c) s = Some (es, s')"
  shows "length es \<le> 1 \<and> serves n s' \<and> journaled s es s'"
proof -
  note sv = serves_fields [OF assms(1)]
  obtain r st where call: "save (sk_saver k) (streaming_checkpoint_of k c) (sc_store s) = (r, st)" by fastforce
  note inv = store.save_inv [OF sv(4) call]
  show ?thesis
  proof (cases r)
    case (Returns u)
    let ?cid = "generateStandardID (sk_nano k) c"
    have "\<exists>s'. Checkpoint_streamEvent k (checkpoint_event k ''created'' ?cid c)
        (notify_checkpoint ''created'' ?cid c (s\<lparr>sc_store := st\<rparr>)) = (Returns (), s') \<and> serves n s'
        \<and> journaled s [(k, checkpoint_event k ''created'' ?cid c)] s'"
      by (rule one_event [OF assms(1) _ inv])
        (use store.save_returns [OF sv(4)] call Returns assms(2) in
          \<open>auto simp: replay_event_def checkpoint_event_def streaming_checkpoint_of_def split: if_splits\<close>)
    then show ?thesis using assms(3) call Returns sv
      by (auto simp: Streaming_CreateCheckpoint_def streamCheckpointEvent_def Let_def)
  next
    case (Fails e)
    then show ?thesis using assms(3) call sv no_event [OF assms(1) inv] store.save_fails [OF sv(4)]
      by (auto simp: Streaming_CreateCheckpoint_def Let_def)
  qed (use assms(3) call sv in \<open>auto simp: Streaming_CreateCheckpoint_def Let_def\<close>)
qed

lemma stream_journaled:
  assumes "serves (Suc n) s" and "sk_arm k = ArmChan" and "service_step (JStream k c d) s = Some (es, s')"
  shows "length es \<le> 1 \<and> serves n s' \<and> journaled s es s'"
proof -
  note sv = serves_fields [OF assms(1)]
  obtain r st where call: "save (sk_saver k) (stream_data_checkpoint k c d) (sc_store s) = (r, st)" by fastforce
  note inv = store.save_inv [OF sv(4) call]
  show ?thesis
  proof (cases r)
    case (Returns u)
    let ?cid = "generateStreamingCheckpointID (sk_nano k) c"
    have "\<exists>s'. Checkpoint_streamEvent k (checkpoint_event k ''streaming_created'' ?cid c) (s\<lparr>sc_store := st\<rparr>) = (Returns (), s')
        \<and> serves n s' \<and> journaled s [(k, checkpoint_event k ''streaming_created'' ?cid c)] s'"
      by (rule one_event [OF assms(1) _ inv])
        (use store.save_returns [OF sv(4)] call Returns assms(2) in
          \<open>auto simp: replay_event_def checkpoint_event_def stream_data_checkpoint_def split: if_splits\<close>)
    then show ?thesis using assms(3) call Returns sv
      by (auto simp: CreateStreamingCheckpoint_def streamCheckpointEvent_def Let_def)
  next
    case (Fails e)
    then show ?thesis using assms(3) call sv no_event [OF assms(1) inv] store.save_fails [OF sv(4)]
      by (auto simp: CreateStreamingCheckpoint_def Let_def)
  qed (use assms(3) call sv in \<open>auto simp: CreateStreamingCheckpoint_def Let_def\<close>)
qed

lemma load_journaled:
  assumes "serves (Suc n) s" and "sk_arm k = ArmChan" and "service_step (JLoad k cid) s = Some (es, s')"
  shows "length es \<le> 1 \<and> serves n s' \<and> journaled s es s'"
proof -
  note sv = serves_fields [OF assms(1)]
  obtain r st where call: "load (sk_saver k) cid (sc_store s) = (r, st)" by fastforce
  note inv = store.load_inv [OF sv(4) call]
  show ?thesis
  proof (cases r)
    case (Returns cp)
    let ?c = "context_of cp"
    have "\<exists>s'. Checkpoint_streamEvent k (checkpoint_event k ''loaded'' cid ?c)
        (notify_checkpoint ''loaded'' cid ?c (s\<lparr>sc_store := st\<rparr>)) = (Returns (), s') \<and> serves n s'
        \<and> journaled s [(k, checkpoint_event k ''loaded'' cid ?c)] s'"
      by (rule one_event [OF assms(1) _ inv])
        (use store.load_returns [OF sv(4)] call Returns assms(2) in
          \<open>auto simp: replay_event_def checkpoint_event_def\<close>)
    then show ?thesis using assms(3) call Returns sv
      by (auto simp: Streaming_LoadCheckpoint_def streamCheckpointEvent_def Let_def)
  next
    case (Fails e)
    then show ?thesis using assms(3) call sv no_event [OF assms(1) inv] store.load_fails [OF sv(4)]
      by (auto simp: Streaming_LoadCheckpoint_def)
  qed (use assms(3) call sv in \<open>auto simp: Streaming_LoadCheckpoint_def\<close>)
qed

lemma delete_journaled:
  assumes "serves (Suc n) s" and "sk_arm k = ArmChan" and "service_step (JDelete k cid) s = Some (es, s')"
  shows "length es \<le> 1 \<and> serves n s' \<and> journaled s es s'"
proof -
  note sv = serves_fields [OF assms(1)]
  obtain r st where call: "delete (sk_saver k) cid (sc_store s) = (r, st)" by fastforce
  note inv = store.delete_inv [OF sv(4) call]
  show ?thesis
  proof (cases r)
    case (Returns u)
    have "\<exists>s'. Checkpoint_streamEvent k (deleted_event k cid) (s\<lparr>sc_store := st\<rparr>) = (Returns (), s') \<and> serves n s'
        \<and> journaled s [(k, deleted_event k cid)] s'"
      by (rule one_event [OF assms(1) _ inv])
        (use store.delete_returns [OF sv(4)] call Returns assms(2) in
          \<open>auto simp: replay_event_def deleted_event_def split: if_splits\<close>)
    then show ?thesis using assms(3) call Returns sv
      by (auto simp: Streaming_DeleteCheckpoint_def deleted_event_def)
  next
    case (Fails e)
    then show ?thesis using assms(3) call sv no_event [OF assms(1) inv] store.delete_fails [OF sv(4)]
      by (auto simp: Streaming_DeleteCheckpoint_def)
  qed (use assms(3) call sv in \<open>auto simp: Streaming_DeleteCheckpoint_def\<close>)
qed

lemma step_journaled:
  assumes "serves (Suc n) s" and "sk_arm (op_call op) = ArmChan" and "service_step op s = Some (es, s')"
  shows "length es \<le> 1 \<and> serves n s' \<and> journaled s es s'"
proof (cases op)
  case (JCreate k c) then show ?thesis using create_journaled [OF assms(1)] assms(2,3) by (metis op_call.simps)
next
  case (JStream k c d) then show ?thesis using stream_journaled [OF assms(1)] assms(2,3) by (metis op_call.simps)
next
  case (JLoad k cid) then show ?thesis using load_journaled [OF assms(1)] assms(2,3) by (metis op_call.simps)
next
  case (JDelete k cid) then show ?thesis using delete_journaled [OF assms(1)] assms(2,3) by (metis op_call.simps)
qed

lemma run_journaled:
  "serves (length ops) s \<Longrightarrow> (\<And>op. op \<in> set ops \<Longrightarrow> sk_arm (op_call op) = ArmChan) \<Longrightarrow> service_run ops s = Some (es, s')
    \<Longrightarrow> journaled s es s'"
proof (induction ops arbitrary: s es)
  case Nil
  then show ?case by (simp add: journaled_def journal_messages_def)
next
  case (Cons op ops)
  from Cons.prems(3) obtain e1 s1 es2 where step: "service_step op s = Some (e1, s1)"
    and run: "service_run ops s1 = Some (es2, s')" and es: "es = e1 @ es2"
    by (auto split: option.splits)
  from step_journaled [OF _ _ step] Cons.prems(1,2) have 1: "serves (length ops) s1" "journaled s e1 s1" by auto
  have "journaled s1 es2 s'" by (rule Cons.IH [OF 1(1) _ run]) (use Cons.prems(2) in simp)
  with 1(2) show ?case by (simp add: journaled_def journal_messages_def es)
qed

end


subsection \<open>The in-memory saver and a buffered channel\<close>

interpretation journal: journaled_store "MemSave x" "MemLoad x" "\<lambda>_. MemDelete" "mem_content x" view
  "\<lambda>s. reads_back x view (ms_serializer s)" Buf_Send Buf_Receive bc_buffer "\<lambda>m. m" buf_inv "\<lambda>c. nat (Buf_Cap c)" buf_ready
  by unfold_locales

definition memory_saver :: "Checkpoint Externals \<Rightarrow> (saver_env, InMemorySaver) Saver" where
  "memory_saver x = \<lparr>sp_Save = MemSave x, sp_Load = MemLoad x,
     sp_List = (\<lambda>env f s. MemList (map (\<lambda>i. (i, env_now env)) (env_ids env)) f s), sp_Delete = (\<lambda>_. MemDelete)\<rparr>"


text \<open>A service whose checkpoints all encode as one byte; one create.\<close>

definition sample_cp_call :: "saver_env cp_call" where
  "sample_cp_call = \<lparr>sk_nano = 7, sk_stream = 8, sk_time = 9, sk_event = 10, sk_message = 11, sk_saver = sample_env 0 [],
     sk_arm = ArmChan, sk_payload = (\<lambda>_. VNil), sk_rfc3339 = show_int\<rparr>"

definition sample_service :: "(saver_env, InMemorySaver, BufChan, unit) StreamingCheckpointService" where
  "sample_service = NewStreamingCheckpointService (memory_saver any_checkpoint)
     (sample_saver\<lparr>ms_serializer := DefaultSerializer any_checkpoint\<rparr>) (Some Buf_Send) (NewBufferedChannel \<lparr>bcc_MaxSize = 2, bcc_Timeout = 0\<rparr>) ()"

lemma any_Deserialize: "Deserialize any_checkpoint (DefaultSerializer any_checkpoint) d = Returns sample_checkpoint"
  by (simp add: Deserialize_def DefaultSerializer_def NewMsgPackCodec_def any_checkpoint_def one_checkpoint_def decompress_def
      decompressZstd_def CompressionNone_def CompressionGzip_def CompressionZstd_def)

lemma sample_service_simps [simp]:
  "sc_saver sample_service = memory_saver any_checkpoint" "sc_eventChannel sample_service = Some Buf_Send"
  "sc_store sample_service = sample_saver\<lparr>ms_serializer := DefaultSerializer any_checkpoint\<rparr>"
  "sc_channel sample_service = NewBufferedChannel \<lparr>bcc_MaxSize = 2, bcc_Timeout = 0\<rparr>" "sc_hooks sample_service = []"
  by (simp_all add: sample_service_def NewStreamingCheckpointService_def)

definition running_context :: ExecutionContext where
  "running_context = \<lparr>xc_ExecutionID = ''e'', xc_GraphID = ''g'', xc_ThreadID = ''t'', xc_CurrentStep = 1,
     xc_State = Some Map.empty, xc_Config = zero_config, xc_StartTime = 0\<rparr>"

lemma running_fields: "xc_GraphID running_context = ''g''" "xc_ThreadID running_context = ''t''"
  "xc_State running_context = Some Map.empty" "xc_CurrentStep running_context = 1"
  by (simp_all add: running_context_def)

lemma sample_ID: "generateStandardID 7 running_context = ''checkpoint-g-t-1-7''"
  by code_simp

lemma sample_cp_saved:
  "\<exists>st. MemSave any_checkpoint (sample_env 0 []) (streaming_checkpoint_of sample_cp_call running_context)
     (sc_store sample_service) = (Returns (), st)"
proof -
  have "fst (MemSave any_checkpoint (sample_env 0 []) (streaming_checkpoint_of sample_cp_call running_context)
      (sc_store sample_service)) = Returns ()"
    using sample_max(1) by (simp add: MemSave_def Checkpoint_Validate_def streaming_checkpoint_of_def any_Serialize
        sample_cp_call_def sample_ID running_fields checkMemoryLimit_def sample_max max_bytes_def Let_def with_order_def)
  then show ?thesis by (metis prod.collapse)
qed


end
