(* ===== verification/FloatOrder.thy ===== *)
theory FloatOrder
  imports GoValue
begin

section \<open>The integers that float64 represents exactly\<close>

text \<open>
  Up to \<open>2 ^ 53\<close> the conversion of an integer to \<^verbatim>\<open>float64\<close> is exact, so that
  comparing the converted numbers is comparing the integers.
\<close>

definition f_of_nat :: "nat \<Rightarrow> f64" where
  "f_of_nat n = (if n = 0 then 0 else f_round False (n * 2 ^ 1074) 1)"

subsection \<open>Lengths in binary\<close>

lemma bit_len_0 [simp]: "bit_len 0 = 0"
  by (simp add: bit_len.simps)

lemma bit_len_pos [simp]: "bit_len n = 0 \<longleftrightarrow> n = 0"
  by (simp add: bit_len.simps [of n])

lemma bit_len_less: "n < 2 ^ bit_len n"
proof (induction n rule: bit_len.induct)
  case (1 n)
  then show ?case by (cases "n = 0") (simp_all add: bit_len.simps [of n])
qed

lemma bit_len_le: "0 < n \<Longrightarrow> 2 ^ (bit_len n - 1) \<le> n"
proof (induction n rule: bit_len.induct)
  case (1 n)
  show ?case
  proof (cases "n = 1")
    case True then show ?thesis by (simp add: bit_len.simps)
  next
    case False
    with 1(2) have half: "0 < n div 2" by auto
    with 1 have "2 ^ (bit_len (n div 2) - 1) \<le> n div 2" by simp
    moreover have "bit_len n = Suc (bit_len (n div 2))" using 1(2) by (simp add: bit_len.simps [of n])
    moreover obtain b where "bit_len (n div 2) = Suc b" using half by (metis bit_len_pos gr0_implies_Suc neq0_conv)
    ultimately show ?thesis by simp
  qed
qed

lemma bit_len_unique: "2 ^ k \<le> n \<Longrightarrow> n < 2 ^ Suc k \<Longrightarrow> bit_len n = Suc k"
proof -
  assume k: "2 ^ k \<le> n" "n < 2 ^ Suc k"
  then have pos: "0 < n" by (meson less_le_trans zero_less_numeral zero_less_power)
  have "(2::nat) ^ k < 2 ^ bit_len n" using k(1) bit_len_less [of n] by linarith
  moreover have "(2::nat) ^ (bit_len n - 1) < 2 ^ Suc k" using bit_len_le [OF pos] k(2) by linarith
  ultimately have "k < bit_len n" "bit_len n - 1 < Suc k"
    by (auto intro: power_less_imp_less_exp [of 2] simp del: power_Suc)
  then show ?thesis by simp
qed

lemma bit_len_shift: "0 < n \<Longrightarrow> bit_len (n * 2 ^ k) = bit_len n + k"
proof -
  assume n: "0 < n"
  then obtain b where b: "bit_len n = Suc b" by (metis bit_len_pos gr0_implies_Suc not_gr_zero)
  have "2 ^ (b + k) \<le> n * 2 ^ k" using bit_len_le [OF n] by (simp add: power_add b)
  moreover have "n * 2 ^ k < 2 ^ Suc (b + k)" using bit_len_less [of n] by (simp add: power_add b)
  ultimately show ?thesis using bit_len_unique by (simp add: b)
qed

lemma bit_len_mono: "m \<le> n \<Longrightarrow> bit_len m \<le> bit_len n"
proof (cases "m = 0")
  case False
  assume "m \<le> n"
  with False have "(2::nat) ^ (bit_len m - 1) < 2 ^ bit_len n" using bit_len_le [of m] bit_len_less [of n] by linarith
  then have "bit_len m - 1 < bit_len n" by (simp add: power_strict_increasing_iff)
  then show ?thesis by simp
qed simp

subsection \<open>The bit pattern of an exact integer\<close>

text \<open>The 53 leading bits, and the pattern: exponent and fraction as one number.\<close>

definition lead53 :: "nat \<Rightarrow> nat" where
  "lead53 n = n * 2 ^ 53 div 2 ^ bit_len n"

definition exact_bits :: "nat \<Rightarrow> nat" where
  "exact_bits n = (if n = 0 then 0 else (bit_len n + 1021) * 2 ^ 52 + lead53 n)"

lemma lead53_exact:
  assumes "0 < n" and "n \<le> 2 ^ 53"
  shows "lead53 n * 2 ^ bit_len n = n * 2 ^ 53" and "2 ^ 52 \<le> lead53 n" and "lead53 n < 2 ^ 53"
    and "bit_len n \<le> 54"
proof -
  have "2 ^ bit_len n dvd n * 2 ^ 53 \<and> bit_len n \<le> 54"
  proof (cases "n = 2 ^ 53")
    case True
    have "bit_len (2 ^ 53) = 54" by (rule bit_len_unique [of 53, simplified]) simp_all
    with True show ?thesis by (simp flip: power_add)
  next
    case False
    with assms have "n < 2 ^ 53" by simp
    then have "(2::nat) ^ (bit_len n - 1) < 2 ^ 53" using bit_len_le [OF assms(1)] by linarith
    then have "bit_len n - 1 < 53" by (rule power_less_imp_less_exp [rotated]) simp
    then have "bit_len n \<le> 53" by simp
    then have "(2::nat) ^ bit_len n dvd 2 ^ 53" by (rule le_imp_power_dvd)
    with \<open>bit_len n \<le> 53\<close> show ?thesis by (simp only: dvd_mult) simp
  qed
  then show 1: "lead53 n * 2 ^ bit_len n = n * 2 ^ 53" and "bit_len n \<le> 54" by (simp_all add: lead53_def)
  have "2 ^ bit_len n \<le> 2 * n"
    using bit_len_le [OF assms(1)] assms(1) by (cases "bit_len n") simp_all
  then have "2 ^ 52 * 2 ^ bit_len n \<le> lead53 n * 2 ^ bit_len n" unfolding 1 by simp
  then show "2 ^ 52 \<le> lead53 n" by simp
  have "lead53 n * 2 ^ bit_len n < 2 ^ 53 * 2 ^ bit_len n" unfolding 1 using bit_len_less [of n] by simp
  then show "lead53 n < 2 ^ 53" by simp
qed

lemma exact_bits_less: "m < n \<Longrightarrow> n \<le> 2 ^ 53 \<Longrightarrow> exact_bits m < exact_bits n"
proof -
  assume mn: "m < n" "n \<le> 2 ^ 53"
  show ?thesis
  proof (cases "m = 0")
    case True with mn lead53_exact(2) [of n] show ?thesis by (simp add: exact_bits_def)
  next
    case False
    note m = lead53_exact [of m] and n = lead53_exact [of n]
    have le: "bit_len m \<le> bit_len n" using mn bit_len_mono by simp
    show ?thesis
    proof (cases "bit_len m = bit_len n")
      case True
      have "lead53 m * 2 ^ bit_len m < lead53 n * 2 ^ bit_len n"
        using m(1) n(1) False mn by simp
      then have "lead53 m < lead53 n" unfolding True by simp
      then show ?thesis using mn False True by (simp add: exact_bits_def)
    next
      case neq: False
      with le have "Suc (bit_len m) \<le> bit_len n" by simp
      then have "(Suc (bit_len m) + 1021) * 2 ^ 52 \<le> (bit_len n + 1021) * 2 ^ 52" by (intro mult_le_mono1) simp
      moreover have "lead53 m < 2 ^ 53" "2 ^ 52 \<le> lead53 n" using m(3) n(2) False mn by simp_all
      ultimately show ?thesis using mn False by (simp add: exact_bits_def)
    qed
  qed
qed

lemma exact_bits_bound: "n \<le> 2 ^ 53 \<Longrightarrow> exact_bits n < 1077 * 2 ^ 52"
proof (cases "n = 0")
  case False
  assume "n \<le> 2 ^ 53"
  with False have "bit_len n + 1021 \<le> 1075" "lead53 n < 2 ^ 53" using lead53_exact [of n] by simp_all
  then have "(bit_len n + 1021) * 2 ^ 52 + lead53 n < 1075 * 2 ^ 52 + 2 ^ 53" by (intro add_le_less_mono mult_le_mono1)
  then show ?thesis using False by (simp add: exact_bits_def)
qed (simp add: exact_bits_def)

lemma round_half_even_exact: "0 < d \<Longrightarrow> round_half_even (q * d) d = q"
  by (simp add: round_half_even_def Let_def)

lemma f_round_exact:
  assumes "0 < n" and "n \<le> 2 ^ 53"
  shows "f_round neg (n * 2 ^ 1074) 1 = of_nat (exact_bits n) OR f_zero neg"
proof -
  note n = lead53_exact [OF assms]
  let ?s = "bit_len n + 1021"
  have s: "bit_len (n * 2 ^ 1074) - 53 = ?s" using bit_len_shift [OF assms(1), of 1074] by simp
  have "lead53 n * 2 ^ ?s = lead53 n * 2 ^ bit_len n * 2 ^ 1021" by (simp only: power_add mult.assoc)
  also have "\<dots> = n * (2 ^ 53 * 2 ^ 1021)" by (simp only: n(1) mult.assoc)
  also have "(2::nat) ^ 53 * 2 ^ 1021 = 2 ^ 1074" by (simp only: power_add [symmetric]) simp
  finally have q: "round_half_even (n * 2 ^ 1074) (2 ^ ?s) = lead53 n"
    using round_half_even_exact [of "2 ^ ?s" "lead53 n"] by simp
  have e: "?s * 2 ^ 52 + lead53 n = exact_bits n" using assms(1) by (simp add: exact_bits_def)
  show ?thesis
    using exact_bits_bound [OF assms(2)] unfolding f_round_def Let_def div_by_1 s mult_1 q e by simp
qed

lemma exact_word:
  assumes "n \<le> 2 ^ 53"
  shows "unat (of_nat (exact_bits n) OR f_zero neg :: 64 word) = exact_bits n + (if neg then 2 ^ 63 else 0)"
proof -
  have b: "exact_bits n < 2 ^ 63" using exact_bits_bound [OF assms] by simp
  let ?e = "of_nat (exact_bits n) :: 64 word"
  have "\<not> bit (exact_bits n) k" if "63 \<le> k" for k
  proof -
    have "(2::nat) ^ 63 \<le> 2 ^ k" using that by (rule power_increasing) simp
    then have "exact_bits n div 2 ^ k = 0" using b by simp
    then show ?thesis by (simp add: bit_iff_odd)
  qed
  then have "?e AND push_bit 63 1 = 0" by (intro bit_word_eqI) (auto simp: bit_push_bit_iff bit_of_nat_iff bit_1_iff bit_and_iff simp del: push_bit_of_1)
  then have "?e AND f_zero True = 0" by (simp add: f_zero_def push_bit_eq_mult)
  then have "?e OR f_zero True = ?e + f_zero True" using word_plus_and_or [of ?e "f_zero True"] by simp
  moreover have "unat ?e = exact_bits n" using b by (simp add: unat_of_nat)
  moreover have "unat (f_zero True) = 2 ^ 63" by (simp add: f_zero_def)
  ultimately show ?thesis using b by (cases neg) (simp_all add: f_zero_def unat_word_ariths)
qed

subsection \<open>The order\<close>

lemma exact_key:
  assumes "n \<le> 2 ^ 53" and "unat w = exact_bits n + (if neg then 2 ^ 63 else 0)"
  shows "f_key w = (if neg then - int (exact_bits n) else int (exact_bits n)) \<and> \<not> f_nan w"
proof -
  have b: "exact_bits n < 1077 * 2 ^ 52" by (rule exact_bits_bound [OF assms(1)])
  have mag: "f_mag w = exact_bits n" using b assms(2) by (simp add: f_mag_def)
  have sign: "f_sign w \<longleftrightarrow> neg"
  proof -
    have "f_sign w \<longleftrightarrow> bit (of_nat (unat w) :: 64 word) 63" by (simp add: f_sign_def)
    also have "\<dots> \<longleftrightarrow> bit (unat w) 63" by (subst bit_of_nat_iff) simp
    also have "\<dots> \<longleftrightarrow> neg"
    proof -
      have "(exact_bits n + 2 ^ 63) div 2 ^ 63 = 1" by (rule div_nat_eqI) (use b in simp_all)
      then show ?thesis using b by (cases neg) (simp_all add: assms(2) bit_iff_odd)
    qed
    finally show ?thesis .
  qed
  have "f_exp w = unat w div 2 ^ 52 mod 2048" by (simp add: f_exp_def drop_bit_eq_div unat_div)
  also have "unat w div 2 ^ 52 = exact_bits n div 2 ^ 52 + (if neg then 2048 else 0)"
    using div_mult_self1 [of "2 ^ 52" "exact_bits n" 2048] by (simp add: assms(2))
  also have "(exact_bits n div 2 ^ 52 + (if neg then 2048 else 0)) mod 2048 = exact_bits n div 2 ^ 52 mod 2048"
    by simp
  also have "\<dots> < 2047" using b by simp
  finally have "f_exp w < 2047" .
  with mag sign show ?thesis by (simp add: f_key_def f_nan_def)
qed

text \<open>The key of an integer: its exact bits with its sign.\<close>

definition exact_int :: "int \<Rightarrow> int" where
  "exact_int z = (if z < 0 then - int (exact_bits (nat (- z))) else int (exact_bits (nat z)))"

lemma exact_int_less: "\<bar>y\<bar> \<le> 2 ^ 53 \<Longrightarrow> \<bar>z\<bar> \<le> 2 ^ 53 \<Longrightarrow> exact_int y < exact_int z \<longleftrightarrow> y < z"
proof -
  assume b: "\<bar>y\<bar> \<le> 2 ^ 53" "\<bar>z\<bar> \<le> 2 ^ 53"
  have less: "exact_int y < exact_int z" if yz: "y < z" and b: "\<bar>y\<bar> \<le> 2 ^ 53" "\<bar>z\<bar> \<le> 2 ^ 53" for y z
  proof (cases "z < 0")
    case True
    have "exact_bits (nat (- z)) < exact_bits (nat (- y))" using yz True b by (intro exact_bits_less) auto
    then show ?thesis using yz True by (simp add: exact_int_def)
  next
    case False
    show ?thesis
    proof (cases "y < 0")
      case True
      have "exact_bits 0 < exact_bits (nat (- y))" using True b by (intro exact_bits_less) auto
      then show ?thesis using True False by (simp add: exact_int_def exact_bits_def [of 0])
    next
      case nneg: False
      have "exact_bits (nat y) < exact_bits (nat z)" using yz nneg b by (intro exact_bits_less) auto
      then show ?thesis using nneg False by (simp add: exact_int_def)
    qed
  qed
  show ?thesis using less [of y z] less [of z y] b by (cases y z rule: linorder_cases) auto
qed

lemma f_of_int_exact:
  assumes "\<bar>sint n\<bar> \<le> 2 ^ 53"
  shows "f_key (f_of_int n) = exact_int (sint n) \<and> \<not> f_nan (f_of_int n)"
proof (cases "n = 0")
  case True
  then show ?thesis by (simp add: f_of_int_def exact_int_def exact_bits_def f_key_def f_sign_def f_mag_def f_nan_def f_exp_def)
next
  case False
  let ?m = "nat \<bar>sint n\<bar>"
  have "sint n \<noteq> 0" using False by (metis signed_word_eqI sint_0)
  then have m: "0 < ?m" "?m \<le> 2 ^ 53" using assms by auto
  have "f_of_int n = of_nat (exact_bits ?m) OR f_zero (sint n < 0)"
    using False f_round_exact [OF m] by (simp add: f_of_int_def)
  with exact_key [OF m(2), of "f_of_int n" "sint n < 0"] exact_word [OF m(2), of "sint n < 0"]
  show ?thesis by (auto simp: exact_int_def)
qed

lemma f_of_nat_exact:
  assumes "n \<le> 2 ^ 53"
  shows "f_key (f_of_nat n) = exact_int (int n) \<and> \<not> f_nan (f_of_nat n)"
proof (cases "n = 0")
  case True
  then show ?thesis by (simp add: f_of_nat_def exact_int_def exact_bits_def f_key_def f_sign_def f_mag_def f_nan_def f_exp_def)
next
  case False
  have "f_of_nat n = of_nat (exact_bits n) OR f_zero False"
    using False f_round_exact [OF _ assms, of False] by (simp add: f_of_nat_def)
  with exact_key [OF assms, of "f_of_nat n" False] exact_word [OF assms, of False]
  show ?thesis by (simp add: exact_int_def)
qed

lemma f_of_nat_not_inf: "n \<le> 2 ^ 53 \<Longrightarrow> \<not> f_inf (f_of_nat n)"
proof (cases "n = 0")
  case False
  assume n: "n \<le> 2 ^ 53"
  have "unat (f_of_nat n) = exact_bits n"
    using False f_round_exact [OF _ n, of False] exact_word [OF n, of False] by (simp add: f_of_nat_def)
  moreover have "exact_bits n div 2 ^ 52 < 2047" using exact_bits_bound [OF n] by simp
  ultimately show ?thesis by (simp add: f_inf_def f_exp_def drop_bit_eq_div unat_div)
qed (simp add: f_of_nat_def f_inf_def f_exp_def)

lemma f_less_exact:
  "\<bar>sint m\<bar> \<le> 2 ^ 53 \<Longrightarrow> n \<le> 2 ^ 53 \<Longrightarrow> f_less (f_of_int m) (f_of_nat n) \<longleftrightarrow> sint m < int n"
  "\<bar>sint m\<bar> \<le> 2 ^ 53 \<Longrightarrow> n \<le> 2 ^ 53 \<Longrightarrow> f_less (f_of_nat n) (f_of_int m) \<longleftrightarrow> int n < sint m"
  "k \<le> 2 ^ 53 \<Longrightarrow> n \<le> 2 ^ 53 \<Longrightarrow> f_less (f_of_nat k) (f_of_nat n) \<longleftrightarrow> k < n"
  using f_of_int_exact [of m] f_of_nat_exact [of n] f_of_nat_exact [of k]
  by (simp_all add: f_less_def exact_int_less)

text \<open>The first integer that is not represented: it is rounded to its even neighbour.\<close>

lemma round_half_even_tie: "0 < h \<Longrightarrow> even q \<Longrightarrow> round_half_even (q * (2 * h) + h) (2 * h) = q"
proof -
  assume h: "0 < h" "even q"
  have "(q * (2 * h) + h) div (2 * h) = q" "(q * (2 * h) + h) mod (2 * h) = h"
    using h(1) by (simp_all add: div_mult_self3 mod_mult_self3)
  with h(2) show ?thesis by (simp add: round_half_even_def Let_def)
qed

lemma f_of_int_tie: "f_of_int (2 ^ 53 + 1) = f_of_int (2 ^ 53)"
proof -
  have len: "bit_len (2 ^ 53 + 1) = 54" "bit_len (2 ^ 53) = 54"
    by (rule bit_len_unique [of 53, simplified], simp_all)+
  have s: "bit_len ((2 ^ 53 + 1) * 2 ^ 1074) - 53 = 1075" "bit_len (2 ^ 53 * 2 ^ 1074) - 53 = 1075"
    using bit_len_shift [of "2 ^ 53 + 1" 1074] bit_len_shift [of "2 ^ 53" 1074] len by simp_all
  have "(2 ^ 53 + 1) * 2 ^ 1074 = 2 ^ 52 * (2 * 2 ^ 1074) + (2::nat) ^ 1074" by (simp add: algebra_simps)
  then have 1: "round_half_even ((2 ^ 53 + 1) * 2 ^ 1074) (2 ^ 1075) = 2 ^ 52"
    using round_half_even_tie [of "2 ^ 1074" "2 ^ 52"] by (simp only: power_Suc [symmetric]) simp
  have 2: "round_half_even (2 ^ 53 * 2 ^ 1074) (2 ^ 1075) = 2 ^ 52"
    using round_half_even_exact [of "2 ^ 1075" "2 ^ 52"] by simp
  have "f_round False ((2 ^ 53 + 1) * 2 ^ 1074) 1 = f_round False (2 ^ 53 * 2 ^ 1074) 1"
    unfolding f_round_def Let_def div_by_1 s mult_1 1 2 ..
  then show ?thesis by (simp add: f_of_int_def)
qed

end
