(* ===== verification/StructValidation.thy ===== *)
theory StructValidation
  imports FloatOrder
begin

section \<open>Validation of structs by their tags (pkg/validation/validator.go)\<close>

text \<open>
  \<^verbatim>\<open>ValidateStruct\<close> walks over the exported fields of a struct, reads the rules of
  the \<^verbatim>\<open>validate\<close> tag and collects the violations; a struct without violations is
  handed to its own \<^verbatim>\<open>Validate\<close> method. A struct is what reflection shows of it.
\<close>

subsection \<open>What reflection shows\<close>

datatype reflected =
    RInvalid                                        \<comment> \<open>a nil interface\<close>
  | RString string
  | RInt "64 word"                                  \<comment> \<open>the signed kinds\<close>
  | RUint "64 word"                                 \<comment> \<open>the unsigned kinds\<close>
  | RFloat f64
  | RBool bool
  | RPtr "reflected option"
  | RInterface "reflected option"
  | RSlice "reflected list option"
  | RArray "reflected list"
  | RMap "(string \<times> reflected) list option"       \<comment> \<open>its entries, in some order\<close>
  | RTime int                                       \<comment> \<open>a \<open>time.Time\<close>, a struct\<close>
  | ROther string                                   \<comment> \<open>other structs, functions, channels: the type\<close>

record ValidationError =
  ve_Field :: string
  ve_Value :: reflected
  ve_Message :: string

datatype val_error =
    ValidationErrors "ValidationError list"
  | NotAStruct string
  | CustomError string

text \<open>A field: its name, whether it is exported, its \<^verbatim>\<open>validate\<close> tag and its value.\<close>

record struct_field =
  sf_Name :: string
  sf_exported :: bool
  sf_tag :: string
  sf_value :: reflected

text \<open>
  A struct with the results of its \<^verbatim>\<open>Validate\<close> methods, where it has them: one with a
  value receiver is also in the method set of the pointer, one with a pointer receiver only there.
\<close>

record go_struct =
  gs_fields :: "struct_field list"
  gs_value_Validate :: "val_error option option"
  gs_pointer_Validate :: "val_error option option"

datatype go_arg = ArgStruct go_struct | ArgPtr go_struct | ArgOther string

definition Error_text :: "(reflected \<Rightarrow> string) \<Rightarrow> ValidationError \<Rightarrow> string" where
  "Error_text fmt_v e = ''validation error on field '' @ [CHR 0x27] @ ve_Field e @ [CHR 0x27] @ '': '' @ ve_Message e
     @ '' (got: '' @ fmt_v (ve_Value e) @ '')''"

fun join_strings :: "string \<Rightarrow> string list \<Rightarrow> string" where
  "join_strings sep [] = []"
| "join_strings sep [x] = x"
| "join_strings sep (x # y # xs) = x @ sep @ join_strings sep (y # xs)"

definition Errors_text :: "(reflected \<Rightarrow> string) \<Rightarrow> ValidationError list \<Rightarrow> string" where
  "Errors_text fmt_v es = (if es = [] then ''no validation errors'' else join_strings ''; '' (map (Error_text fmt_v) es))"

subsection \<open>Strings and numbers of the standard library\<close>

fun split_on :: "char \<Rightarrow> string \<Rightarrow> string list" where
  "split_on sep [] = [[]]"
| "split_on sep (c # cs) = (if c = sep then [] # split_on sep cs else (case split_on sep cs of x # xs \<Rightarrow> (c # x) # xs | [] \<Rightarrow> [[c]]))"

definition is_space :: "char \<Rightarrow> bool" where
  "is_space c \<longleftrightarrow> c \<in> set [CHR '' '', CHR 0x09, CHR 0x0A, CHR 0x0B, CHR 0x0C, CHR 0x0D]"

definition trim_space :: "string \<Rightarrow> string" where
  "trim_space s = rev (dropWhile is_space (rev (dropWhile is_space s)))"

definition has_prefix :: "string \<Rightarrow> string \<Rightarrow> bool" where
  "has_prefix p s \<longleftrightarrow> take (length p) s = p"

text \<open>
  \<^verbatim>\<open>strconv.ParseFloat\<close> on decimal digits, the only numbers the tags of the repository
  use; a number too large is a range error. A text with another character than those of numbers,
  \<^verbatim>\<open>inf\<close> and \<^verbatim>\<open>nan\<close> is a syntax error. The other syntaxes are the argument.
\<close>

definition number_char :: "char \<Rightarrow> bool" where
  "number_char c \<longleftrightarrow> c \<in> set ''0123456789+-._abcdefABCDEFxXpPiInNtTyY''"

definition ParseFloat :: "(string \<Rightarrow> f64 option) \<Rightarrow> string \<Rightarrow> f64 option" where
  "ParseFloat other s =
     (if s \<noteq> [] \<and> list_all is_digit s
      then (let x = f_of_nat (scan_digits 0 s) in if f_inf x then None else Some x)
      else if \<not> list_all number_char s then None
      else other s)"

subsection \<open>The rules\<close>

fun isZero :: "reflected \<Rightarrow> bool" where
  "isZero (RString s) = (s = [])"
| "isZero (RInt n) = (n = 0)"
| "isZero (RUint n) = (n = 0)"
| "isZero (RFloat x) = f_equal x 0"
| "isZero (RBool b) = (\<not> b)"
| "isZero (RPtr p) = (p = None)"
| "isZero (RInterface p) = (p = None)"
| "isZero (RSlice xs) = (xs = None)"
| "isZero (RMap m) = (m = None)"
| "isZero _ = False"

text \<open>The number that a rule compares, and whether it is a length; \<open>None\<close> for the other kinds.\<close>

fun actual_value :: "reflected \<Rightarrow> (f64 \<times> bool) option" where
  "actual_value (RInt n) = Some (f_of_int n, False)"
| "actual_value (RUint n) = Some (f_of_nat (unat n), False)"
| "actual_value (RFloat x) = Some (x, False)"
| "actual_value (RString s) = Some (f_of_nat (length s), True)"
| "actual_value (RSlice xs) = Some (f_of_nat (case xs of None \<Rightarrow> 0 | Some xs \<Rightarrow> length xs), True)"
| "actual_value (RArray xs) = Some (f_of_nat (length xs), True)"
| "actual_value (RMap m) = Some (f_of_nat (case m of None \<Rightarrow> 0 | Some m \<Rightarrow> length m), True)"
| "actual_value _ = None"

definition compareValue ::
  "(string \<Rightarrow> f64 option) \<Rightarrow> string \<Rightarrow> reflected \<Rightarrow> string \<Rightarrow> bool \<Rightarrow> ValidationError option" where
  "compareValue other fieldName v limitStr isMin =
     (case ParseFloat other limitStr of
        None \<Rightarrow> Some \<lparr>ve_Field = fieldName, ve_Value = v,
                  ve_Message = ''invalid '' @ (if isMin then ''min'' else ''max'') @ '' value: '' @ limitStr\<rparr>
      | Some limit \<Rightarrow>
          (case actual_value v of
             None \<Rightarrow> None
           | Some (actual, isLength) \<Rightarrow>
               if (if isMin then f_less actual limit else f_less limit actual)
               then Some \<lparr>ve_Field = fieldName, ve_Value = v,
                      ve_Message = (if isLength then ''length must be '' else ''value must be '')
                        @ (if isMin then ''>='' else ''<='') @ '' '' @ limitStr\<rparr>
               else None))"

definition validateMin :: "(string \<Rightarrow> f64 option) \<Rightarrow> string \<Rightarrow> reflected \<Rightarrow> string \<Rightarrow> ValidationError option" where
  "validateMin other fieldName v minStr = compareValue other fieldName v minStr True"

definition validateMax :: "(string \<Rightarrow> f64 option) \<Rightarrow> string \<Rightarrow> reflected \<Rightarrow> string \<Rightarrow> ValidationError option" where
  "validateMax other fieldName v maxStr = compareValue other fieldName v maxStr False"

definition validate_rule :: "(string \<Rightarrow> f64 option) \<Rightarrow> string \<Rightarrow> reflected \<Rightarrow> string \<Rightarrow> ValidationError option" where
  "validate_rule other fieldName v rule =
     (if rule = ''required''
      then (if isZero v then Some \<lparr>ve_Field = fieldName, ve_Value = v, ve_Message = ''field is required''\<rparr> else None)
      else if has_prefix ''min='' rule then validateMin other fieldName v (drop 4 rule)
      else if has_prefix ''max='' rule then validateMax other fieldName v (drop 4 rule)
      else None)"

fun validate_rules :: "(string \<Rightarrow> f64 option) \<Rightarrow> string \<Rightarrow> reflected \<Rightarrow> string list \<Rightarrow> ValidationError list \<Rightarrow> ValidationError list" where
  "validate_rules other fieldName v [] errors = errors"
| "validate_rules other fieldName v (rule # rules) errors =
     (case validate_rule other fieldName v (trim_space rule) of
        Some err \<Rightarrow> validate_rules other fieldName v rules (errors @ [err])
      | None \<Rightarrow> validate_rules other fieldName v rules errors)"

definition validateField :: "(string \<Rightarrow> f64 option) \<Rightarrow> string \<Rightarrow> reflected \<Rightarrow> string \<Rightarrow> ValidationError list" where
  "validateField other fieldName v tag = validate_rules other fieldName v (split_on (CHR '','') tag) []"

fun validate_fields :: "(string \<Rightarrow> f64 option) \<Rightarrow> struct_field list \<Rightarrow> ValidationError list \<Rightarrow> ValidationError list" where
  "validate_fields other [] errors = errors"
| "validate_fields other (f # fs) errors =
     (if \<not> sf_exported f then validate_fields other fs errors
      else if sf_tag f \<noteq> [] then validate_fields other fs (errors @ validateField other (sf_Name f) (sf_value f) (sf_tag f))
      else validate_fields other fs errors)"

text \<open>The struct behind the argument, and the result of the method the argument itself has.\<close>

definition ValidateStruct :: "(string \<Rightarrow> f64 option) \<Rightarrow> go_arg \<Rightarrow> val_error option" where
  "ValidateStruct other v =
     (case (case v of ArgStruct s \<Rightarrow> Inr (s, gs_value_Validate s)
                    | ArgPtr s \<Rightarrow> Inr (s, case gs_value_Validate s of None \<Rightarrow> gs_pointer_Validate s | r \<Rightarrow> r)
                    | ArgOther t \<Rightarrow> Inl t) of
        Inl t \<Rightarrow> Some (NotAStruct (''ValidateStruct only accepts structs; got '' @ t))
      | Inr (s, validate) \<Rightarrow>
          (let errors = validate_fields other (gs_fields s) []
           in if errors \<noteq> [] then Some (ValidationErrors errors)
              else (case validate of Some r \<Rightarrow> r | None \<Rightarrow> None)))"

end
