(* ===== verification/StructProps.thy ===== *)
theory StructProps
  imports StructValidation
begin

section \<open>Properties of the tag validation\<close>

text \<open>What a rule accepts, and that the loops collect exactly the violations, in order.\<close>

definition accepts :: "(string \<Rightarrow> f64 option) \<Rightarrow> reflected \<Rightarrow> string \<Rightarrow> bool" where
  "accepts other v rule \<longleftrightarrow>
     (if rule = ''required'' then \<not> isZero v
      else if has_prefix ''min='' rule \<or> has_prefix ''max='' rule
      then (case ParseFloat other (drop 4 rule) of
              None \<Rightarrow> False
            | Some limit \<Rightarrow>
                (case actual_value v of
                   None \<Rightarrow> True
                 | Some (actual, _) \<Rightarrow>
                     if has_prefix ''min='' rule then \<not> f_less actual limit else \<not> f_less limit actual))
      else True)"

definition tag_rules :: "string \<Rightarrow> string list" where
  "tag_rules tag = map trim_space (split_on (CHR '','') tag)"

definition field_errors :: "(string \<Rightarrow> f64 option) \<Rightarrow> struct_field \<Rightarrow> ValidationError list" where
  "field_errors other f = List.map_filter (validate_rule other (sf_Name f) (sf_value f)) (tag_rules (sf_tag f))"

lemma validate_rule_accepts: "validate_rule other n v rule = None \<longleftrightarrow> accepts other v rule"
  by (auto simp: validate_rule_def validateMin_def validateMax_def compareValue_def accepts_def split: option.splits)

lemma map_filter_Nil: "List.map_filter g xs = [] \<longleftrightarrow> (\<forall>x\<in>set xs. g x = None)"
  by (induction xs) (auto simp: List.map_filter_simps split: option.splits)

lemma validate_rules_collects:
  "validate_rules other n v rules errors = errors @ List.map_filter (validate_rule other n v) (map trim_space rules)"
  by (induction rules arbitrary: errors) (auto simp: List.map_filter_simps split: option.splits)

lemma validateField_errors: "validateField other (sf_Name f) (sf_value f) (sf_tag f) = field_errors other f"
  by (simp add: validateField_def validate_rules_collects field_errors_def tag_rules_def)

lemma no_tag_no_errors [simp]: "sf_tag f = [] \<Longrightarrow> field_errors other f = []"
  by (simp add: field_errors_def tag_rules_def trim_space_def validate_rule_def has_prefix_def List.map_filter_simps)

lemma validate_fields_collects:
  "validate_fields other fs errors = errors @ concat (map (field_errors other) (filter sf_exported fs))"
  by (induction fs arbitrary: errors) (auto simp: validateField_errors)

text \<open>
  the validation of a pointer to a struct succeeds exactly when every rule of every exported
  field accepts the field's value and the method of the struct (or of the pointer) returns
  \<^verbatim>\<open>nil\<close>; when a rule is violated the error lists one entry per violated rule, field
  after field in the order of the declaration and rule after rule in the order of the tag, and the
  method is not called.
\<close>

theorem validate_struct_spec:
  "ValidateStruct other (ArgPtr s) =
     (if \<exists>f\<in>set (gs_fields s). sf_exported f \<and> (\<exists>rule\<in>set (tag_rules (sf_tag f)). \<not> accepts other (sf_value f) rule)
      then Some (ValidationErrors (concat (map (field_errors other) (filter sf_exported (gs_fields s)))))
      else case gs_value_Validate s of
             Some r \<Rightarrow> r
           | None \<Rightarrow> (case gs_pointer_Validate s of Some r \<Rightarrow> r | None \<Rightarrow> None))"
proof -
  define es where "es = concat (map (field_errors other) (filter sf_exported (gs_fields s)))"
  have "field_errors other f = [] \<longleftrightarrow> (\<forall>rule\<in>set (tag_rules (sf_tag f)). accepts other (sf_value f) rule)" for f
    by (simp add: field_errors_def map_filter_Nil validate_rule_accepts)
  then have some: "es \<noteq> [] \<longleftrightarrow>
      (\<exists>f\<in>set (gs_fields s). sf_exported f \<and> (\<exists>rule\<in>set (tag_rules (sf_tag f)). \<not> accepts other (sf_value f) rule))"
    by (auto simp: es_def)
  have fields: "validate_fields other (gs_fields s) [] = es" by (simp only: validate_fields_collects es_def append_Nil)
  have "ValidateStruct other (ArgPtr s) =
      (if es \<noteq> [] then Some (ValidationErrors es)
       else case gs_value_Validate s of None \<Rightarrow> (case gs_pointer_Validate s of Some r \<Rightarrow> r | None \<Rightarrow> None) | Some r \<Rightarrow> r)"
    unfolding ValidateStruct_def go_arg.case sum.case prod.case fields by (simp add: Let_def split: option.splits)
  then show ?thesis by (simp only: some [symmetric] es_def [symmetric])
qed

subsection \<open>Limits\<close>

lemma digit_not_space: "is_digit c \<Longrightarrow> \<not> is_space c"
  by (auto simp: is_digit_def is_space_def)

lemma trim_space_id: "(\<And>c. c \<in> set s \<Longrightarrow> \<not> is_space c) \<Longrightarrow> trim_space s = s"
proof -
  assume s: "\<And>c. c \<in> set s \<Longrightarrow> \<not> is_space c"
  have "dropWhile is_space xs = xs" if "set xs \<subseteq> set s" for xs using that s by (cases xs) auto
  then show ?thesis by (simp add: trim_space_def)
qed

lemma split_on_last: "sep \<notin> set xs \<Longrightarrow> split_on sep xs = [xs]"
  by (induction xs) auto

lemma split_on_append: "sep \<notin> set xs \<Longrightarrow> split_on sep (xs @ sep # ys) = xs # split_on sep ys"
  by (induction xs) auto

definition limit_tag :: "nat \<Rightarrow> nat \<Rightarrow> string" where
  "limit_tag lo hi = ''min='' @ digits_of lo @ '','' @ ''max='' @ digits_of hi"

lemma limit_rules: "tag_rules (limit_tag lo hi) = [''min='' @ digits_of lo, ''max='' @ digits_of hi]"
proof -
  have comma: "CHR '','' \<notin> set (digits_of n)" for n
    using digits_of_digits [of "CHR '',''" n] by (auto simp: is_digit_def)
  have "split_on (CHR '','') (limit_tag lo hi) = [''min='' @ digits_of lo, ''max='' @ digits_of hi]"
    using split_on_append [of "CHR '',''" "''min='' @ digits_of lo" "''max='' @ digits_of hi"]
      split_on_last [of "CHR '',''" "''max='' @ digits_of hi"] comma
    by (simp add: limit_tag_def)
  moreover have "trim_space (''min='' @ digits_of n) = ''min='' @ digits_of n"
    "trim_space (''max='' @ digits_of n) = ''max='' @ digits_of n" for n
    using digits_of_digits digit_not_space by (intro trim_space_id; auto simp: is_space_def)+
  ultimately show ?thesis by (simp add: tag_rules_def)
qed

lemma ParseFloat_digits: "n \<le> 2 ^ 53 \<Longrightarrow> ParseFloat other (digits_of n) = Some (f_of_nat n)"
  using digits_of_digits [of _ n] f_of_nat_not_inf [of n] by (auto simp: ParseFloat_def list_all_iff Let_def)

lemma limit_accepts:
  assumes "lo \<le> 2 ^ 53" and "hi \<le> 2 ^ 53" and "actual_value v = Some (x, b)"
  shows "validateField other name v (limit_tag lo hi) = []
    \<longleftrightarrow> \<not> f_less x (f_of_nat lo) \<and> \<not> f_less (f_of_nat hi) x"
proof -
  have "validateField other name v (limit_tag lo hi) = [] \<longleftrightarrow> (\<forall>rule\<in>set (tag_rules (limit_tag lo hi)). accepts other v rule)"
    by (simp add: validateField_def validate_rules_collects tag_rules_def map_filter_Nil validate_rule_accepts)
  then show ?thesis using assms by (simp add: limit_rules accepts_def has_prefix_def ParseFloat_digits)
qed

text \<open>
  C38: up to \<open>2 ^ 53\<close> the limits of a tag are exact, although they are compared as
  \<^verbatim>\<open>float64\<close>: a number is accepted exactly between them, and a string, a slice or a
  map exactly when its length (of a string: in bytes) is. Beyond they are not:
  \<open>2 ^ 53 + 1\<close> passes a maximum of \<open>2 ^ 53\<close>.
\<close>

theorem limits_exact:
  assumes "lo \<le> 2 ^ 53" and "hi \<le> 2 ^ 53" and "\<bar>sint n\<bar> \<le> 2 ^ 53" and "length s \<le> 2 ^ 53"
  shows "(validateField other name (RInt n) (limit_tag lo hi) = [] \<longleftrightarrow> int lo \<le> sint n \<and> sint n \<le> int hi)
    \<and> (validateField other name (RString s) (limit_tag lo hi) = [] \<longleftrightarrow> lo \<le> length s \<and> length s \<le> hi)
    \<and> validateField other name (RInt (2 ^ 53 + 1)) (limit_tag 0 (2 ^ 53)) = []"
proof -
  have "sint (2 ^ 53 :: 64 word) = 2 ^ 53" by simp
  then have "\<not> f_less (f_of_int (2 ^ 53 + 1)) (f_of_nat 0)" "\<not> f_less (f_of_nat (2 ^ 53)) (f_of_int (2 ^ 53 + 1))"
    using f_less_exact(1) [of "2 ^ 53" 0] f_less_exact(2) [of "2 ^ 53" "2 ^ 53"] unfolding f_of_int_tie by simp_all
  then have "validateField other name (RInt (2 ^ 53 + 1)) (limit_tag 0 (2 ^ 53)) = []"
    using limit_accepts [of 0 "2 ^ 53" "RInt (2 ^ 53 + 1)" "f_of_int (2 ^ 53 + 1)" False other name] by simp
  moreover have "validateField other name (RInt n) (limit_tag lo hi) = [] \<longleftrightarrow> int lo \<le> sint n \<and> sint n \<le> int hi"
    using limit_accepts [OF assms(1,2), of "RInt n"] f_less_exact(1) [OF assms(3,1)] f_less_exact(2) [OF assms(3,2)] by auto
  moreover have "validateField other name (RString s) (limit_tag lo hi) = [] \<longleftrightarrow> lo \<le> length s \<and> length s \<le> hi"
    using limit_accepts [OF assms(1,2), of "RString s"] f_less_exact(3) [OF assms(4,1)] f_less_exact(3) [OF assms(2,4)] by auto
  ultimately show ?thesis by blast
qed

theorem limits_exact_witness:
  "(validateField (\<lambda>_. None) ''Age'' (RInt 25) (limit_tag 18 120) = [] \<longleftrightarrow> True)
    \<and> (validateField (\<lambda>_. None) ''Age'' (RString ''x'') (limit_tag 18 120) = [] \<longleftrightarrow> False)"
  using limits_exact [of 18 120 25 "''x''" "\<lambda>_. None" "''Age''"] by simp

end
