(* ===== verification/ValidationModels.thy ===== *)
theory ValidationModels
  imports StructProps
begin

section \<open>The configuration models (pkg/validation/models.go)\<close>

text \<open>
  The configuration structs, what reflection shows of them with their \<^verbatim>\<open>validate\<close>
  tags, and the two models that have a \<^verbatim>\<open>Validate\<close> method. A map is the list of its
  entries, a pointer an option, a duration its number of nanoseconds.
\<close>

type_synonym any_map = "(string \<times> reflected) list option"

definition tagged :: "string \<Rightarrow> string \<Rightarrow> reflected \<Rightarrow> struct_field" where
  "tagged n t v = \<lparr>sf_Name = n, sf_exported = True, sf_tag = t, sf_value = v\<rparr>"

subsection \<open>The models\<close>

record RetryPolicyConfig =
  rpc_MaxRetries :: "64 word"
  rpc_BackoffFactor :: f64
  rpc_BaseDelay :: "64 word"
  rpc_MaxDelay :: "64 word"

definition RetryPolicyConfig_fields :: "RetryPolicyConfig \<Rightarrow> struct_field list" where
  "RetryPolicyConfig_fields c =
     [tagged ''MaxRetries'' ''min=0,max=10'' (RInt (rpc_MaxRetries c)),
      tagged ''BackoffFactor'' ''min=1,max=10'' (RFloat (rpc_BackoffFactor c)),
      tagged ''BaseDelay'' ''min=100ms,max=60s'' (RInt (rpc_BaseDelay c)),
      tagged ''MaxDelay'' ''min=1s,max=300s'' (RInt (rpc_MaxDelay c))]"

record ChannelConfig =
  chc_Type :: string
  chc_BufferSize :: "64 word option"
  chc_MaxSizeMB :: "64 word option"
  chc_PersistPath :: "string option"

definition ChannelConfig_fields :: "ChannelConfig \<Rightarrow> struct_field list" where
  "ChannelConfig_fields c =
     [tagged ''Type'' ''required,oneof=inmemory buffered persistent'' (RString (chc_Type c)),
      tagged ''BufferSize'' ''omitempty,min=1,max=10000'' (RPtr (map_option RInt (chc_BufferSize c))),
      tagged ''MaxSizeMB'' ''omitempty,min=1,max=1000'' (RPtr (map_option RInt (chc_MaxSizeMB c))),
      tagged ''PersistPath'' ''omitempty,min=1'' (RPtr (map_option RString (chc_PersistPath c)))]"

record GraphRuntimeConfig =
  rtc_MaxConcurrency :: "64 word"
  rtc_Timeout :: "64 word"
  rtc_RetryPolicy :: "RetryPolicyConfig option"
  rtc_CheckpointMode :: string
  rtc_ChannelConfig :: "ChannelConfig option"

definition GraphRuntimeConfig_fields :: "GraphRuntimeConfig \<Rightarrow> struct_field list" where
  "GraphRuntimeConfig_fields c =
     [tagged ''MaxConcurrency'' ''min=1,max=100'' (RInt (rtc_MaxConcurrency c)),
      tagged ''Timeout'' ''min=1s,max=3600s'' (RInt (rtc_Timeout c)),
      tagged ''RetryPolicy'' [] (RPtr (map_option (\<lambda>_. ROther ''RetryPolicyConfig'') (rtc_RetryPolicy c))),
      tagged ''CheckpointMode'' ''oneof=none manual automatic'' (RString (rtc_CheckpointMode c)),
      tagged ''ChannelConfig'' [] (RPtr (map_option (\<lambda>_. ROther ''ChannelConfig'') (rtc_ChannelConfig c)))]"

record NodeConfig =
  ndc_ID :: string
  ndc_Name :: string
  ndc_Type :: string
  ndc_Enabled :: bool
  ndc_Timeout :: "64 word option"
  ndc_Retries :: "64 word"
  ndc_Config :: any_map
  ndc_Tags :: "string list option"
  ndc_CreatedAt :: int
  ndc_UpdatedAt :: int

definition NodeConfig_fields :: "NodeConfig \<Rightarrow> struct_field list" where
  "NodeConfig_fields c =
     [tagged ''ID'' ''required,node_id'' (RString (ndc_ID c)),
      tagged ''Name'' ''required,min=1,max=100'' (RString (ndc_Name c)),
      tagged ''Type'' ''required,oneof=function tool condition'' (RString (ndc_Type c)),
      tagged ''Enabled'' [] (RBool (ndc_Enabled c)),
      tagged ''Timeout'' ''omitempty,min=1s,max=300s'' (RPtr (map_option RInt (ndc_Timeout c))),
      tagged ''Retries'' ''min=0,max=10'' (RInt (ndc_Retries c)),
      tagged ''Config'' [] (RMap (ndc_Config c)),
      tagged ''Tags'' ''dive,alphanum'' (RSlice (map_option (map RString) (ndc_Tags c))),
      tagged ''CreatedAt'' [] (RTime (ndc_CreatedAt c)),
      tagged ''UpdatedAt'' [] (RTime (ndc_UpdatedAt c))]"

record EdgeConfig =
  edc_ID :: string
  edc_Source :: string
  edc_Target :: string
  edc_Condition :: "string option"
  edc_Weight :: "f64 option"
  edc_Metadata :: any_map
  edc_CreatedAt :: int

definition EdgeConfig_fields :: "EdgeConfig \<Rightarrow> struct_field list" where
  "EdgeConfig_fields c =
     [tagged ''ID'' ''required,edge_id'' (RString (edc_ID c)),
      tagged ''Source'' ''required,node_id'' (RString (edc_Source c)),
      tagged ''Target'' ''required,node_id'' (RString (edc_Target c)),
      tagged ''Condition'' ''omitempty,min=1'' (RPtr (map_option RString (edc_Condition c))),
      tagged ''Weight'' ''omitempty,min=0,max=1'' (RPtr (map_option RFloat (edc_Weight c))),
      tagged ''Metadata'' [] (RMap (edc_Metadata c)),
      tagged ''CreatedAt'' [] (RTime (edc_CreatedAt c))]"

record GraphConfigModel =
  grc_ID :: string
  grc_Name :: string
  grc_Description :: "string option"
  grc_Version :: string
  grc_State :: string
  grc_Nodes :: "NodeConfig list option"
  grc_Edges :: "EdgeConfig list option"
  grc_Config :: "GraphRuntimeConfig option"
  grc_CreatedAt :: int
  grc_UpdatedAt :: int

definition GraphConfig_fields :: "GraphConfigModel \<Rightarrow> struct_field list" where
  "GraphConfig_fields c =
     [tagged ''ID'' ''required,uuid4'' (RString (grc_ID c)),
      tagged ''Name'' ''required,min=1,max=200'' (RString (grc_Name c)),
      tagged ''Description'' ''omitempty,max=1000'' (RPtr (map_option RString (grc_Description c))),
      tagged ''Version'' ''required,semver'' (RString (grc_Version c)),
      tagged ''State'' ''required,graph_state'' (RString (grc_State c)),
      tagged ''Nodes'' ''required,min=1,dive,required'' (RSlice (map_option (map (\<lambda>_. ROther ''NodeConfig'')) (grc_Nodes c))),
      tagged ''Edges'' ''dive,required'' (RSlice (map_option (map (\<lambda>_. ROther ''EdgeConfig'')) (grc_Edges c))),
      tagged ''Config'' ''omitempty'' (RPtr (map_option (\<lambda>_. ROther ''GraphRuntimeConfig'') (grc_Config c))),
      tagged ''CreatedAt'' [] (RTime (grc_CreatedAt c)),
      tagged ''UpdatedAt'' [] (RTime (grc_UpdatedAt c))]"

record MessageConfig =
  msc_ID :: string
  msc_Type :: string
  msc_Source :: string
  msc_Target :: string
  msc_Payload :: "reflected option"
  msc_Headers :: "(string \<times> string) list option"
  msc_Metadata :: any_map
  msc_TTL :: "64 word option"

definition MessageConfig_fields :: "MessageConfig \<Rightarrow> struct_field list" where
  "MessageConfig_fields c =
     [tagged ''ID'' ''required,uuid4'' (RString (msc_ID c)),
      tagged ''Type'' ''required,message_type'' (RString (msc_Type c)),
      tagged ''Source'' ''required,node_id'' (RString (msc_Source c)),
      tagged ''Target'' ''required,node_id'' (RString (msc_Target c)),
      tagged ''Payload'' [] (RInterface (msc_Payload c)),
      tagged ''Headers'' [] (RMap (map_option (map (\<lambda>(k, v). (k, RString v))) (msc_Headers c))),
      tagged ''Metadata'' [] (RMap (msc_Metadata c)),
      tagged ''TTL'' ''omitempty,min=1s,max=86400s'' (RPtr (map_option RInt (msc_TTL c)))]"

record CheckpointConfig =
  ckc_ID :: string
  ckc_GraphID :: string
  ckc_State :: any_map
  ckc_Version :: "64 word"
  ckc_Metadata :: any_map
  ckc_CreatedAt :: int
  ckc_ExpiresAt :: "int option"

definition CheckpointConfig_fields :: "CheckpointConfig \<Rightarrow> struct_field list" where
  "CheckpointConfig_fields c =
     [tagged ''ID'' ''required,uuid4'' (RString (ckc_ID c)),
      tagged ''GraphID'' ''required,uuid4'' (RString (ckc_GraphID c)),
      tagged ''State'' ''required'' (RMap (ckc_State c)),
      tagged ''Version'' ''min=1'' (RInt (ckc_Version c)),
      tagged ''Metadata'' [] (RMap (ckc_Metadata c)),
      tagged ''CreatedAt'' [] (RTime (ckc_CreatedAt c)),
      tagged ''ExpiresAt'' [] (RPtr (map_option RTime (ckc_ExpiresAt c)))]"

record APIRequest =
  arq_RequestID :: string
  arq_Method :: string
  arq_Path :: string
  arq_Headers :: "(string \<times> string) list option"
  arq_Body :: "reflected option"
  arq_Timestamp :: int

definition APIRequest_fields :: "APIRequest \<Rightarrow> struct_field list" where
  "APIRequest_fields c =
     [tagged ''RequestID'' ''required,uuid4'' (RString (arq_RequestID c)),
      tagged ''Method'' ''required,oneof=GET POST PUT DELETE PATCH'' (RString (arq_Method c)),
      tagged ''Path'' ''required,uri'' (RString (arq_Path c)),
      tagged ''Headers'' [] (RMap (map_option (map (\<lambda>(k, v). (k, RString v))) (arq_Headers c))),
      tagged ''Body'' [] (RInterface (arq_Body c)),
      tagged ''Timestamp'' [] (RTime (arq_Timestamp c))]"

record APIResponse =
  ars_RequestID :: string
  ars_StatusCode :: "64 word"
  ars_Headers :: "(string \<times> string) list option"
  ars_Body :: "reflected option"
  ars_Errors :: "ValidationError list option"
  ars_Timestamp :: int

definition APIResponse_fields :: "APIResponse \<Rightarrow> struct_field list" where
  "APIResponse_fields c =
     [tagged ''RequestID'' ''required,uuid4'' (RString (ars_RequestID c)),
      tagged ''StatusCode'' ''min=100,max=599'' (RInt (ars_StatusCode c)),
      tagged ''Headers'' [] (RMap (map_option (map (\<lambda>(k, v). (k, RString v))) (ars_Headers c))),
      tagged ''Body'' [] (RInterface (ars_Body c)),
      tagged ''Errors'' [] (RSlice (map_option (map (\<lambda>_. ROther ''ValidationError'')) (ars_Errors c))),
      tagged ''Timestamp'' [] (RTime (ars_Timestamp c))]"

subsection \<open>Custom validation\<close>

definition NodeConfig_Validate :: "NodeConfig \<Rightarrow> val_error option" where
  "NodeConfig_Validate c =
     (case ndc_Timeout c of
        Some d \<Rightarrow>
          if ndc_Type c = ''condition'' \<and> 60 * 10 ^ 9 < sint d
          then Some (ValidationErrors [\<lparr>ve_Field = ''timeout'', ve_Value = RPtr (Some (RInt d)),
                 ve_Message = ''condition nodes cannot have timeout > 60s''\<rparr>])
          else None
      | None \<Rightarrow> None)"

definition string_error :: "string \<Rightarrow> string \<Rightarrow> string \<Rightarrow> ValidationError" where
  "string_error fld v msg = \<lparr>ve_Field = fld, ve_Value = RString v, ve_Message = msg\<rparr>"

text \<open>The map \<^verbatim>\<open>nodeIDs\<close>: an absent key reads as \<^verbatim>\<open>false\<close>.\<close>

fun check_nodes ::
  "NodeConfig list \<Rightarrow> (string \<Rightarrow> bool) \<Rightarrow> ValidationError list \<Rightarrow> (string \<Rightarrow> bool) \<times> ValidationError list" where
  "check_nodes [] nodeIDs errors = (nodeIDs, errors)"
| "check_nodes (node # nodes) nodeIDs errors =
     check_nodes nodes (nodeIDs(ndc_ID node := True))
       (if nodeIDs (ndc_ID node) then errors @ [string_error ''nodes'' (ndc_ID node) ''duplicate node ID''] else errors)"

fun check_edges :: "EdgeConfig list \<Rightarrow> (string \<Rightarrow> bool) \<Rightarrow> ValidationError list \<Rightarrow> ValidationError list" where
  "check_edges [] nodeIDs errors = errors"
| "check_edges (edge # edges) nodeIDs errors =
     (let errors1 = (if \<not> nodeIDs (edc_Source edge)
                     then errors @ [string_error ''edges.source'' (edc_Source edge) ''source node does not exist''] else errors);
          errors2 = (if \<not> nodeIDs (edc_Target edge)
                     then errors1 @ [string_error ''edges.target'' (edc_Target edge) ''target node does not exist''] else errors1)
      in check_edges edges nodeIDs errors2)"

definition slice :: "'a list option \<Rightarrow> 'a list" where
  "slice xs = (case xs of None \<Rightarrow> [] | Some ys \<Rightarrow> ys)"

definition GraphConfig_Validate :: "GraphConfigModel \<Rightarrow> val_error option" where
  "GraphConfig_Validate c =
     (case check_nodes (slice (grc_Nodes c)) (\<lambda>_. False) [] of
        (nodeIDs, errors) \<Rightarrow>
          (let errors' = check_edges (slice (grc_Edges c)) nodeIDs errors
           in if errors' \<noteq> [] then Some (ValidationErrors errors') else None))"

text \<open>Both methods have pointer receivers.\<close>

definition NodeConfig_struct :: "NodeConfig \<Rightarrow> go_struct" where
  "NodeConfig_struct c = \<lparr>gs_fields = NodeConfig_fields c, gs_value_Validate = None,
     gs_pointer_Validate = Some (NodeConfig_Validate c)\<rparr>"

definition GraphConfig_struct :: "GraphConfigModel \<Rightarrow> go_struct" where
  "GraphConfig_struct c = \<lparr>gs_fields = GraphConfig_fields c, gs_value_Validate = None,
     gs_pointer_Validate = Some (GraphConfig_Validate c)\<rparr>"

subsection \<open>Graph configurations\<close>

lemma check_nodes_ids: "fst (check_nodes nodes ids errors) = (\<lambda>i. ids i \<or> i \<in> ndc_ID ` set nodes)"
  by (induction nodes arbitrary: ids errors) auto

lemma check_nodes_errors:
  "\<exists>es. snd (check_nodes nodes ids errors) = errors @ es
     \<and> (es = [] \<longleftrightarrow> distinct (map ndc_ID nodes) \<and> (\<forall>n\<in>set nodes. \<not> ids (ndc_ID n)))"
proof (induction nodes arbitrary: ids errors)
  case (Cons n nodes)
  let ?e = "if ids (ndc_ID n) then errors @ [string_error ''nodes'' (ndc_ID n) ''duplicate node ID''] else errors"
  from Cons.IH [of "ids(ndc_ID n := True)" ?e] obtain es where
    es: "snd (check_nodes nodes (ids(ndc_ID n := True)) ?e) = ?e @ es"
    "es = [] \<longleftrightarrow> distinct (map ndc_ID nodes) \<and> (\<forall>m\<in>set nodes. \<not> (ids(ndc_ID n := True)) (ndc_ID m))" by blast
  show ?case
    by (rule exI [of _ "(if ids (ndc_ID n) then [string_error ''nodes'' (ndc_ID n) ''duplicate node ID''] else []) @ es"])
      (use es in \<open>auto simp: image_iff\<close>)
qed simp

definition dangling :: "(string \<Rightarrow> bool) \<Rightarrow> EdgeConfig \<Rightarrow> ValidationError list" where
  "dangling ids e =
     (if ids (edc_Source e) then [] else [string_error ''edges.source'' (edc_Source e) ''source node does not exist''])
     @ (if ids (edc_Target e) then [] else [string_error ''edges.target'' (edc_Target e) ''target node does not exist''])"

lemma check_edges_errors: "check_edges edges ids errors = errors @ concat (map (dangling ids) edges)"
  by (induction edges arbitrary: errors) (simp_all add: dangling_def)

text \<open>A graph is well formed when its nodes have distinct IDs and its edges join existing nodes.\<close>

definition config_wf :: "GraphConfigModel \<Rightarrow> bool" where
  "config_wf c \<longleftrightarrow> distinct (map ndc_ID (slice (grc_Nodes c)))
     \<and> (\<forall>e\<in>set (slice (grc_Edges c)). edc_Source e \<in> ndc_ID ` set (slice (grc_Nodes c))
          \<and> edc_Target e \<in> ndc_ID ` set (slice (grc_Nodes c)))"

lemma GraphConfig_Validate_wf: "GraphConfig_Validate c = None \<longleftrightarrow> config_wf c"
proof -
  obtain ids errors where ce: "check_nodes (slice (grc_Nodes c)) (\<lambda>_. False) [] = (ids, errors)" by fastforce
  have ids: "ids = (\<lambda>i. i \<in> ndc_ID ` set (slice (grc_Nodes c)))"
    using check_nodes_ids [of "slice (grc_Nodes c)" "\<lambda>_. False" "[]"] ce by simp
  have errors: "errors = [] \<longleftrightarrow> distinct (map ndc_ID (slice (grc_Nodes c)))"
    using check_nodes_errors [of "slice (grc_Nodes c)" "\<lambda>_. False" "[]"] ce by auto
  have "dangling ids e = [] \<longleftrightarrow> ids (edc_Source e) \<and> ids (edc_Target e)" for e by (simp add: dangling_def)
  then show ?thesis using errors
    by (simp add: GraphConfig_Validate_def ce check_edges_errors Let_def config_wf_def ids)
qed

subsection \<open>The models under the tag validation\<close>

lemma accepts_length:
  assumes "actual_value v = Some (f_of_nat k, b)" and "k \<le> 2 ^ 53" and "n \<le> 2 ^ 53"
  shows "accepts other v (''min='' @ digits_of n) \<longleftrightarrow> n \<le> k" and "accepts other v (''max='' @ digits_of n) \<longleftrightarrow> k \<le> n"
  using assms f_less_exact(3) [OF assms(2,3)] f_less_exact(3) [OF assms(3,2)]
  by (auto simp: accepts_def has_prefix_def ParseFloat_digits)

lemma digits_simps: "digits_of 1 = ''1''" "digits_of 200 = ''200''" "digits_of 1000 = ''1000''"
  by code_simp+

lemmas accepts_limits = accepts_length [where n = 1, unfolded digits_simps, simplified]
  accepts_length [where n = 200, unfolded digits_simps, simplified] accepts_length [where n = 1000, unfolded digits_simps, simplified]

lemma accepts_required: "accepts other v ''required'' \<longleftrightarrow> \<not> isZero v"
  by (simp add: accepts_def)

lemma accepts_pointer: "ParseFloat other (drop 4 rule) = Some x \<Longrightarrow> rule \<noteq> ''required'' \<Longrightarrow> accepts other (RPtr p) rule"
  by (simp add: accepts_def)

lemma accepts_other:
  "rule \<noteq> ''required'' \<Longrightarrow> \<not> has_prefix ''min='' rule \<Longrightarrow> \<not> has_prefix ''max='' rule \<Longrightarrow> accepts other v rule"
  by (simp add: accepts_def)

lemma tag_rules_simps:
  "tag_rules [] = [[]]"
  "tag_rules ''required'' = [''required'']"
  "tag_rules ''required,uuid4'' = [''required'', ''uuid4'']"
  "tag_rules ''required,semver'' = [''required'', ''semver'']"
  "tag_rules ''required,graph_state'' = [''required'', ''graph_state'']"
  "tag_rules ''required,min=1,max=200'' = [''required'', ''min=1'', ''max=200'']"
  "tag_rules ''omitempty,max=1000'' = [''omitempty'', ''max=1000'']"
  "tag_rules ''required,min=1,dive,required'' = [''required'', ''min=1'', ''dive'', ''required'']"
  "tag_rules ''dive,required'' = [''dive'', ''required'']"
  "tag_rules ''omitempty'' = [''omitempty'']"
  "tag_rules ''omitempty,min=1s,max=300s'' = [''omitempty'', ''min=1s'', ''max=300s'']"
  by code_simp+

lemma ParseFloat_1000: "ParseFloat other ''1000'' = Some (f_of_nat 1000)"
  using ParseFloat_digits [of 1000 other] by (simp add: digits_simps)

text \<open>
  a graph configuration passes \<^verbatim>\<open>ValidateStruct\<close> exactly when its ID, name, version
  and state are not empty, the name has at most 200 bytes, there is at least one node, the edges
  are not a nil slice (\<^verbatim>\<open>dive,required\<close> is read as a rule on the slice itself), the node
  IDs are distinct, and every edge joins nodes of the configuration: the uniqueness and the references of
  the method, the presence and length rules of the tags. The format rules of the same tags
  (\<^verbatim>\<open>uuid4\<close>, \<^verbatim>\<open>semver\<close>, \<^verbatim>\<open>graph\_state\<close>), the
  nested structs and the limit on the description (a pointer) are not looked at.
\<close>

theorem graph_config_accepted:
  assumes "length (grc_Name c) \<le> 2 ^ 53" and "length (slice (grc_Nodes c)) \<le> 2 ^ 53"
  shows "ValidateStruct other (ArgPtr (GraphConfig_struct c)) = None \<longleftrightarrow>
    grc_ID c \<noteq> [] \<and> grc_Name c \<noteq> [] \<and> length (grc_Name c) \<le> 200 \<and> grc_Version c \<noteq> [] \<and> grc_State c \<noteq> []
    \<and> slice (grc_Nodes c) \<noteq> [] \<and> grc_Edges c \<noteq> None \<and> config_wf c"
proof -
  define ok where "ok \<longleftrightarrow> (\<forall>f\<in>set (GraphConfig_fields c). sf_exported f \<longrightarrow>
      (\<forall>rule\<in>set (tag_rules (sf_tag f)). accepts other (sf_value f) rule))"
  have "ok \<longleftrightarrow> grc_ID c \<noteq> [] \<and> grc_Name c \<noteq> [] \<and> length (grc_Name c) \<le> 200 \<and> grc_Version c \<noteq> [] \<and> grc_State c \<noteq> []
    \<and> slice (grc_Nodes c) \<noteq> [] \<and> grc_Edges c \<noteq> None"
    using assms unfolding slice_def
    by (auto simp: ok_def GraphConfig_fields_def tagged_def tag_rules_simps accepts_required accepts_other has_prefix_def
        accepts_limits accepts_pointer ParseFloat_1000 Suc_le_eq split: option.splits)
  moreover have "ValidateStruct other (ArgPtr (GraphConfig_struct c)) = None \<longleftrightarrow> ok \<and> GraphConfig_Validate c = None"
  proof -
    have "ok \<longleftrightarrow> validate_fields other (GraphConfig_fields c) [] = []"
      by (auto simp: ok_def validate_fields_collects field_errors_def map_filter_Nil validate_rule_accepts)
    then show ?thesis by (simp add: ValidateStruct_def GraphConfig_struct_def Let_def)
  qed
  ultimately show ?thesis by (simp add: GraphConfig_Validate_wf)
qed

definition sample_node_config :: "string \<Rightarrow> NodeConfig" where
  "sample_node_config i = \<lparr>ndc_ID = i, ndc_Name = i, ndc_Type = ''function'', ndc_Enabled = True, ndc_Timeout = None,
     ndc_Retries = 0, ndc_Config = None, ndc_Tags = None, ndc_CreatedAt = 0, ndc_UpdatedAt = 0\<rparr>"

definition sample_graph_config :: GraphConfigModel where
  "sample_graph_config = \<lparr>grc_ID = ''no uuid'', grc_Name = ''g'', grc_Description = None, grc_Version = ''?'', grc_State = ''?'',
     grc_Nodes = Some [sample_node_config ''a'', sample_node_config ''b''],
     grc_Edges = Some [\<lparr>edc_ID = [], edc_Source = ''a'', edc_Target = ''b'', edc_Condition = None, edc_Weight = None,
       edc_Metadata = None, edc_CreatedAt = 0\<rparr>], grc_Config = None, grc_CreatedAt = 0, grc_UpdatedAt = 0\<rparr>"

theorem graph_config_accepted_witness:
  "ValidateStruct (\<lambda>_. None) (ArgPtr (GraphConfig_struct sample_graph_config)) = None"
  using graph_config_accepted [of sample_graph_config "\<lambda>_. None"]
  by (simp add: sample_graph_config_def sample_node_config_def config_wf_def slice_def)

lemma bad_limit: "ParseFloat other ''1s'' = None"
  by (simp add: ParseFloat_def number_char_def is_digit_def)

text \<open>
  no node configuration ever passes \<^verbatim>\<open>ValidateStruct\<close>: the limits of its timeout
  are durations, which the tag validation reports as an invalid minimum, even for a node without a
  timeout. The same struct is accepted by the other validator, which knows durations.
\<close>

theorem node_config_rejected:
  "\<exists>es. ValidateStruct other (ArgPtr (NodeConfig_struct c)) = Some (ValidationErrors es)
     \<and> \<lparr>ve_Field = ''Timeout'', ve_Value = RPtr (map_option RInt (ndc_Timeout c)),
         ve_Message = ''invalid min value: 1s''\<rparr> \<in> set es"
proof -
  let ?v = "RPtr (map_option RInt (ndc_Timeout c))"
  let ?f = "tagged ''Timeout'' ''omitempty,min=1s,max=300s'' ?v"
  let ?e = "\<lparr>ve_Field = ''Timeout'', ve_Value = ?v, ve_Message = ''invalid min value: 1s''\<rparr>"
  let ?es = "concat (map (field_errors other) (filter sf_exported (NodeConfig_fields c)))"
  have f: "?f \<in> set (filter sf_exported (NodeConfig_fields c))" by (simp add: NodeConfig_fields_def tagged_def)
  have "validate_rule other ''Timeout'' ?v ''min=1s'' = Some ?e"
    by (simp add: validate_rule_def has_prefix_def validateMin_def compareValue_def bad_limit)
  then have "?e \<in> set (field_errors other ?f)"
    by (auto simp: field_errors_def tagged_def tag_rules_simps map_filter_def)
  with f have e: "?e \<in> set ?es" by (simp only: set_concat set_map UN_iff image_iff) blast
  then have "?es \<noteq> []" by (cases ?es) simp_all
  then have "ValidateStruct other (ArgPtr (NodeConfig_struct c)) = Some (ValidationErrors ?es)"
    by (simp only: ValidateStruct_def NodeConfig_struct_def go_struct.simps go_arg.case sum.case prod.case
        validate_fields_collects append_Nil Let_def if_True not_False_eq_True)
  with e show ?thesis by blast
qed

end
