(* ===== verification/FieldRules.thy ===== *)
theory FieldRules
  imports ValidationModels
begin

section \<open>Field formats and configured validation (pkg/validation/enhanced.go)\<close>

text \<open>
  The custom rules registered with go-playground/validator, its error messages, and validation under
  a configuration. The validator itself is a parameter: what it says about a struct.
\<close>

subsection \<open>Regular expressions\<close>

text \<open>
  The patterns of this file are sequences of pieces, anchored at both ends: a character of a class, a
  class repeated at least once, an optional group. Matching is on bytes: all classes are ASCII.
\<close>

datatype piece = One "char \<Rightarrow> bool" | Many "char \<Rightarrow> bool" | Opt "piece list"

fun piece_size :: "piece \<Rightarrow> nat" where
  "piece_size (One p) = 1" | "piece_size (Many p) = 1" | "piece_size (Opt ps) = Suc (sum_list (map piece_size ps))"

function (sequential) rx_match :: "piece list \<Rightarrow> string \<Rightarrow> bool" where
  "rx_match [] s = (s = [])"
| "rx_match (One p # ps) [] = False"
| "rx_match (One p # ps) (c # cs) = (p c \<and> rx_match ps cs)"
| "rx_match (Many p # ps) [] = False"
| "rx_match (Many p # ps) (c # cs) = (p c \<and> (rx_match ps cs \<or> rx_match (Many p # ps) cs))"
| "rx_match (Opt qs # ps) s = (rx_match (qs @ ps) s \<or> rx_match ps s)"
  by pat_completeness auto
termination
  by (relation "measures [\<lambda>(ps, s). length s, \<lambda>(ps, s). sum_list (map piece_size ps)]") auto

definition literal :: "string \<Rightarrow> piece list" where
  "literal s = map (\<lambda>c. One (\<lambda>d. d = c)) s"

definition between :: "char \<Rightarrow> char \<Rightarrow> char \<Rightarrow> bool" where
  "between a b c \<longleftrightarrow> (of_char a :: nat) \<le> of_char c \<and> (of_char c :: nat) \<le> of_char b"

definition lower_alnum :: "char \<Rightarrow> bool" where
  "lower_alnum c \<longleftrightarrow> between (CHR ''a'') (CHR ''z'') c \<or> between (CHR ''0'') (CHR ''9'') c"

definition word_char :: "char \<Rightarrow> bool" where
  "word_char c \<longleftrightarrow> lower_alnum c \<or> between (CHR ''A'') (CHR ''Z'') c \<or> c = CHR ''_''"

text \<open>The classes \<^verbatim>\<open>[a-zA-Z0-9\_-]\<close>, \<^verbatim>\<open>[0-9a-f]\<close>, \<^verbatim>\<open>[\w.-]\<close>.\<close>

definition id_char :: "char \<Rightarrow> bool" where
  "id_char c \<longleftrightarrow> word_char c \<or> c = CHR ''-''"

definition hex_char :: "char \<Rightarrow> bool" where
  "hex_char c \<longleftrightarrow> between (CHR ''0'') (CHR ''9'') c \<or> between (CHR ''a'') (CHR ''f'') c"

definition version_char :: "char \<Rightarrow> bool" where
  "version_char c \<longleftrightarrow> id_char c \<or> c = CHR ''.''"

subsection \<open>The rules\<close>

definition validateNodeID :: "string \<Rightarrow> bool" where
  "validateNodeID nodeID = (if nodeID = [] then False
     else rx_match [Many id_char] nodeID \<and> 1 \<le> length nodeID \<and> length nodeID \<le> 100)"

definition edge_pattern :: "piece list" where
  "edge_pattern = [Many id_char] @ literal ''->'' @ [Many id_char, Opt (literal '':'' @ [Many id_char])]"

definition validateEdgeID :: "string \<Rightarrow> bool" where
  "validateEdgeID edgeID = (if edgeID = [] then False else rx_match edge_pattern edgeID)"

definition validateGraphState :: "string \<Rightarrow> bool" where
  "validateGraphState state = (state \<in> set [''pending'', ''running'', ''completed'', ''failed'', ''cancelled'', ''paused''])"

definition validateChannelName :: "string \<Rightarrow> bool" where
  "validateChannelName channelName = (if channelName = [] then False
     else rx_match [Many (\<lambda>c. lower_alnum c \<or> c = CHR ''_'')] channelName \<and> 1 \<le> length channelName
       \<and> length channelName \<le> 50)"

definition validateMessageType :: "string \<Rightarrow> bool" where
  "validateMessageType msgType = (msgType \<in> set [''data'', ''control'', ''error'', ''heartbeat''])"

definition uuid_pattern :: "piece list" where
  "uuid_pattern = replicate 8 (One hex_char) @ literal ''-'' @ replicate 4 (One hex_char) @ literal ''-4''
     @ replicate 3 (One hex_char) @ literal ''-'' @ [One (\<lambda>c. c \<in> set ''89ab'')] @ replicate 3 (One hex_char)
     @ literal ''-'' @ replicate 12 (One hex_char)"

definition validateUUID4 :: "string \<Rightarrow> bool" where
  "validateUUID4 uuid = (if uuid = [] then False else rx_match uuid_pattern uuid)"

definition semver_pattern :: "piece list" where
  "semver_pattern = [Many is_digit] @ literal ''.'' @ [Many is_digit] @ literal ''.'' @ [Many is_digit,
     Opt (literal ''-'' @ [Many version_char]), Opt (literal ''+'' @ [Many version_char])]"

definition validateSemVer :: "string \<Rightarrow> bool" where
  "validateSemVer version = (if version = [] then False else rx_match semver_pattern version)"

text \<open>The rules as \<^verbatim>\<open>init\<close> registers them.\<close>

definition custom_rules :: "string \<rightharpoonup> (string \<Rightarrow> bool)" where
  "custom_rules = [''node_id'' \<mapsto> validateNodeID, ''edge_id'' \<mapsto> validateEdgeID, ''graph_state'' \<mapsto> validateGraphState,
     ''channel_name'' \<mapsto> validateChannelName, ''message_type'' \<mapsto> validateMessageType, ''uuid4'' \<mapsto> validateUUID4,
     ''semver'' \<mapsto> validateSemVer]"

text \<open>The name of a field in errors: from its \<^verbatim>\<open>json\<close> tag.\<close>

definition field_name :: "string \<Rightarrow> string \<Rightarrow> string" where
  "field_name json_tag go_name =
     (let name = hd (split_on (CHR '','') json_tag)
      in if name = ''-'' then [] else if name = [] then go_name else name)"

subsection \<open>Validation with the library\<close>

text \<open>What the library reports of a field, and its two kinds of result.\<close>

record FieldError =
  fe_Tag :: string
  fe_Field :: string
  fe_Value :: reflected
  fe_Param :: string

datatype playground_error = PlaygroundErrors "FieldError list" | InvalidArgument

definition getErrorMessage :: "FieldError \<Rightarrow> string" where
  "getErrorMessage fe =
     (if fe_Tag fe = ''required'' then ''field is required''
      else if fe_Tag fe = ''min'' then ''minimum value/length is '' @ fe_Param fe
      else if fe_Tag fe = ''max'' then ''maximum value/length is '' @ fe_Param fe
      else if fe_Tag fe = ''len'' then ''length must be exactly '' @ fe_Param fe
      else if fe_Tag fe = ''email'' then ''must be a valid email address''
      else if fe_Tag fe = ''url'' then ''must be a valid URL''
      else if fe_Tag fe = ''uuid'' then ''must be a valid UUID''
      else if fe_Tag fe = ''node_id'' then ''must be a valid node identifier (alphanumeric, underscore, hyphen)''
      else if fe_Tag fe = ''edge_id'' then ''must be a valid edge identifier''
      else if fe_Tag fe = ''graph_state'' then ''must be a valid graph state value''
      else if fe_Tag fe = ''channel_name'' then ''must be a valid channel name''
      else if fe_Tag fe = ''message_type'' then ''must be a valid message type (data, control, error, heartbeat)''
      else ''validation failed: '' @ fe_Tag fe)"

fun formatValidationErrors :: "playground_error \<Rightarrow> ValidationError list" where
  "formatValidationErrors (PlaygroundErrors fes) =
     map (\<lambda>fe. \<lparr>ve_Field = fe_Field fe, ve_Value = fe_Value fe, ve_Message = getErrorMessage fe\<rparr>) fes"
| "formatValidationErrors InvalidArgument = []"

text \<open>
  An error is returned whenever the library returns one, also with an empty list: the list is
  converted to the interface \<^verbatim>\<open>error\<close>, which is then not nil.
\<close>

definition ValidateWithPlayground :: "('s \<Rightarrow> playground_error option) \<Rightarrow> 's \<Rightarrow> ValidationError list option" where
  "ValidateWithPlayground Struct s =
     (case Struct s of Some err \<Rightarrow> Some (formatValidationErrors err) | None \<Rightarrow> None)"

record ValidationConfig =
  vc_StrictMode :: bool
  vc_SkipMissing :: bool
  vc_MaxErrors :: int

definition DefaultValidationConfig :: ValidationConfig where
  "DefaultValidationConfig = \<lparr>vc_StrictMode = True, vc_SkipMissing = False, vc_MaxErrors = 10\<rparr>"

definition ValidateWithConfig ::
  "('s \<Rightarrow> playground_error option) \<Rightarrow> 's \<Rightarrow> ValidationConfig option \<Rightarrow> ValidationError list option" where
  "ValidateWithConfig Struct s config =
     (let cfg = (case config of None \<Rightarrow> DefaultValidationConfig | Some c \<Rightarrow> c)
      in case ValidateWithPlayground Struct s of
           Some errors \<Rightarrow>
             if 0 < vc_MaxErrors cfg \<and> vc_MaxErrors cfg < int (length errors)
             then Some (take (nat (vc_MaxErrors cfg)) errors) else Some errors
         | None \<Rightarrow> None)"

subsection \<open>Errors as JSON\<close>

record ErrorResponse =
  er_Errors :: "ValidationError list"
  er_Count :: int

definition MarshalValidationErrors :: "(ErrorResponse \<Rightarrow> string + 'b) \<Rightarrow> ValidationError list \<Rightarrow> string + 'b" where
  "MarshalValidationErrors marshal errors = marshal \<lparr>er_Errors = errors, er_Count = int (length errors)\<rparr>"

definition UnmarshalValidationErrors :: "('b \<Rightarrow> string + ErrorResponse) \<Rightarrow> 'b \<Rightarrow> string + ValidationError list" where
  "UnmarshalValidationErrors unmarshal data =
     (case unmarshal data of Inl err \<Rightarrow> Inl err | Inr response \<Rightarrow> Inr (er_Errors response))"

end
