(* ===== verification/HttpMiddleware.thy ===== *)
theory HttpMiddleware
  imports FieldRules
begin

section \<open>Request validation (pkg/validation/middleware.go)\<close>

text \<open>
  HTTP handlers that check a request and either answer it with an error or hand it to the next
  handler. A request is its query, its headers and the unread part of its body; the handler behind
  has a state of its own. The JSON decoder and encoder and the struct validator are arguments; the
  order in which a handler visits its rules is an argument of the handler.
\<close>

subsection \<open>Requests and responses\<close>

record HttpRequest =
  hr_query :: "string \<Rightarrow> string"       \<comment> \<open>\<open>Query().Get\<close>: empty when absent\<close>
  hr_header :: "string \<Rightarrow> string"      \<comment> \<open>\<open>Header.Get\<close>\<close>
  hr_body :: string

record ResponseWriter =
  rw_header :: "string \<rightharpoonup> string"
  rw_status :: "int option"
  rw_body :: string

type_synonym 'x http_handler = "HttpRequest \<Rightarrow> ResponseWriter \<times> 'x \<Rightarrow> ResponseWriter \<times> 'x"

definition StatusOK :: int where "StatusOK = 200"
definition StatusBadRequest :: int where "StatusBadRequest = 400"
definition StatusUnauthorized :: int where "StatusUnauthorized = 401"

text \<open>The first status counts; writing without one sends 200.\<close>

definition WriteHeader :: "int \<Rightarrow> ResponseWriter \<Rightarrow> ResponseWriter" where
  "WriteHeader code w = (case rw_status w of None \<Rightarrow> w\<lparr>rw_status := Some code\<rparr> | Some _ \<Rightarrow> w)"

definition Write_body :: "string \<Rightarrow> ResponseWriter \<Rightarrow> ResponseWriter" where
  "Write_body data w = (let w1 = WriteHeader StatusOK w in w1\<lparr>rw_body := rw_body w1 @ data\<rparr>)"

type_synonym encoder = "ErrorResponse \<Rightarrow> string + string"

definition fallback_body :: string where
  "fallback_body = ''{'' @ [CHR 0x22] @ ''error'' @ [CHR 0x22] @ '':'' @ [CHR 0x22] @ ''validation failed'' @ [CHR 0x22] @ '',''
     @ [CHR 0x22] @ ''message'' @ [CHR 0x22] @ '':'' @ [CHR 0x22] @ ''internal validation error'' @ [CHR 0x22] @ ''}''"

definition writeErrorResponse :: "encoder \<Rightarrow> int \<Rightarrow> ValidationError list \<Rightarrow> ResponseWriter \<Rightarrow> ResponseWriter" where
  "writeErrorResponse marshal statusCode errors w =
     (let w1 = w\<lparr>rw_header := (rw_header w)(''Content-Type'' \<mapsto> ''application/json'')\<rparr>;
          w2 = WriteHeader statusCode w1
      in case MarshalValidationErrors marshal errors of
           Inl _ \<Rightarrow> Write_body fallback_body w2
         | Inr errorData \<Rightarrow> Write_body errorData w2)"

subsection \<open>Helpers\<close>

fun all_id_chars :: "string \<Rightarrow> bool" where
  "all_id_chars [] = True"
| "all_id_chars (r # rs) =
     (if \<not> (between (CHR ''a'') (CHR ''z'') r \<or> between (CHR ''A'') (CHR ''Z'') r \<or> between (CHR ''0'') (CHR ''9'') r
            \<or> r = CHR ''_'' \<or> r = CHR ''-'') then False
      else all_id_chars rs)"

definition isValidNodeID :: "string \<Rightarrow> bool" where
  "isValidNodeID s = (if length s = 0 \<or> 100 < length s then False else all_id_chars s)"

fun all_digit_chars :: "string \<Rightarrow> bool" where
  "all_digit_chars [] = True"
| "all_digit_chars (r # rs) =
     (if (of_char r :: nat) < of_char (CHR ''0'') \<or> (of_char (CHR ''9'') :: nat) < of_char r then False else all_digit_chars rs)"

definition isNumeric :: "string \<Rightarrow> bool" where
  "isNumeric s = (if s = [] then False else all_digit_chars s)"

definition isBearerToken :: "string \<Rightarrow> bool" where
  "isBearerToken s \<longleftrightarrow> 7 < length s \<and> take 7 s = ''Bearer '' \<and> 0 < length (drop 7 s)"

subsection \<open>The handlers\<close>

record Middleware =
  mw_config :: ValidationConfig

definition NewMiddleware :: "ValidationConfig option \<Rightarrow> Middleware" where
  "NewMiddleware config = \<lparr>mw_config = (case config of None \<Rightarrow> DefaultValidationConfig | Some c \<Rightarrow> c)\<rparr>"

text \<open>
  The decoder takes a value off the body. The branch for an error that is not a list of validation
  errors (status 500) cannot be taken: \<^verbatim>\<open>ValidateWithConfig\<close> returns no other.
\<close>

definition ValidateJSON ::
  "(string \<Rightarrow> (string + 's) \<times> string) \<Rightarrow> ('s \<Rightarrow> playground_error option) \<Rightarrow> encoder \<Rightarrow> Middleware
   \<Rightarrow> 'x http_handler \<Rightarrow> 'x http_handler" where
  "ValidateJSON decode Struct marshal m next_handler r wx =
     (case decode (hr_body r) of
        (Inl err, rest) \<Rightarrow>
          (writeErrorResponse marshal StatusBadRequest
             [\<lparr>ve_Field = ''request_body'', ve_Value = RInvalid, ve_Message = ''invalid JSON: '' @ err\<rparr>] (fst wx), snd wx)
      | (Inr val, rest) \<Rightarrow>
          (case ValidateWithConfig Struct val (Some (mw_config m)) of
             Some errors \<Rightarrow> (writeErrorResponse marshal StatusBadRequest errors (fst wx), snd wx)
           | None \<Rightarrow> next_handler (r\<lparr>hr_body := rest\<rparr>) wx))"

definition query_rule :: "string \<Rightarrow> string \<Rightarrow> string \<Rightarrow> ValidationError option" where
  "query_rule param rule v =
     (if rule = ''required'' then (if v = [] then Some (string_error param v ''parameter is required'') else None)
      else if rule = ''node_id'' then
        (if v \<noteq> [] \<and> \<not> isValidNodeID v then Some (string_error param v ''must be a valid node identifier'') else None)
      else if rule = ''numeric'' then
        (if v \<noteq> [] \<and> \<not> isNumeric v then Some (string_error param v ''must be numeric'') else None)
      else None)"

definition header_rule :: "string \<Rightarrow> string \<Rightarrow> string \<Rightarrow> ValidationError option" where
  "header_rule header rule v =
     (if rule = ''required'' then (if v = [] then Some (string_error header v ''header is required'') else None)
      else if rule = ''bearer_token'' then
        (if v \<noteq> [] \<and> \<not> isBearerToken v then Some (string_error header v ''must be a valid bearer token'') else None)
      else None)"

text \<open>The loop over the rules, in the order of the keys \<open>ks\<close>.\<close>

fun rules_loop ::
  "(string \<Rightarrow> string \<Rightarrow> string \<Rightarrow> ValidationError option) \<Rightarrow> (string \<Rightarrow> string) \<Rightarrow> (string \<rightharpoonup> string) \<Rightarrow> string list
   \<Rightarrow> ValidationError list \<Rightarrow> ValidationError list" where
  "rules_loop check get rules [] errors = errors"
| "rules_loop check get rules (k # ks) errors =
     (case rules k of
        None \<Rightarrow> rules_loop check get rules ks errors
      | Some rule \<Rightarrow>
          (case check k rule (get k) of
             None \<Rightarrow> rules_loop check get rules ks errors
           | Some err \<Rightarrow> rules_loop check get rules ks (errors @ [err])))"

definition ValidateQueryParams ::
  "string list \<Rightarrow> encoder \<Rightarrow> (string \<rightharpoonup> string) \<Rightarrow> 'x http_handler \<Rightarrow> 'x http_handler" where
  "ValidateQueryParams ks marshal paramRules next_handler r wx =
     (let errors = rules_loop query_rule (hr_query r) paramRules ks []
      in if errors \<noteq> [] then (writeErrorResponse marshal StatusBadRequest errors (fst wx), snd wx)
         else next_handler r wx)"

definition ValidateHeaders ::
  "string list \<Rightarrow> encoder \<Rightarrow> (string \<rightharpoonup> string) \<Rightarrow> 'x http_handler \<Rightarrow> 'x http_handler" where
  "ValidateHeaders ks marshal headerRules next_handler r wx =
     (let errors = rules_loop header_rule (hr_header r) headerRules ks []
      in if errors \<noteq> [] then (writeErrorResponse marshal StatusUnauthorized errors (fst wx), snd wx)
         else next_handler r wx)"

subsection \<open>The fluent interface\<close>

record 'x RequestValidator =
  rv_middleware :: Middleware
  rv_handlers :: "('x http_handler \<Rightarrow> 'x http_handler) list"

definition NewRequestValidator :: "ValidationConfig option \<Rightarrow> 'x RequestValidator" where
  "NewRequestValidator config = \<lparr>rv_middleware = NewMiddleware config, rv_handlers = []\<rparr>"

definition RV_JSON ::
  "(string \<Rightarrow> (string + 's) \<times> string) \<Rightarrow> ('s \<Rightarrow> playground_error option) \<Rightarrow> encoder
   \<Rightarrow> 'x RequestValidator \<Rightarrow> 'x RequestValidator" where
  "RV_JSON decode Struct marshal rv =
     rv\<lparr>rv_handlers := rv_handlers rv @ [ValidateJSON decode Struct marshal (rv_middleware rv)]\<rparr>"

definition RV_QueryParams ::
  "string list \<Rightarrow> encoder \<Rightarrow> (string \<rightharpoonup> string) \<Rightarrow> 'x RequestValidator \<Rightarrow> 'x RequestValidator" where
  "RV_QueryParams ks marshal rules rv = rv\<lparr>rv_handlers := rv_handlers rv @ [ValidateQueryParams ks marshal rules]\<rparr>"

definition RV_Headers ::
  "string list \<Rightarrow> encoder \<Rightarrow> (string \<rightharpoonup> string) \<Rightarrow> 'x RequestValidator \<Rightarrow> 'x RequestValidator" where
  "RV_Headers ks marshal rules rv = rv\<lparr>rv_handlers := rv_handlers rv @ [ValidateHeaders ks marshal rules]\<rparr>"

text \<open>The loop that wraps the handlers from the last to the first: \<open>i\<close> are left to wrap.\<close>

fun build_loop :: "nat \<Rightarrow> ('h \<Rightarrow> 'h) list \<Rightarrow> 'h \<Rightarrow> 'h" where
  "build_loop 0 handlers handler = handler"
| "build_loop (Suc i) handlers handler = build_loop i handlers ((handlers ! i) handler)"

definition RV_Build :: "'x RequestValidator \<Rightarrow> 'x http_handler \<Rightarrow> 'x http_handler" where
  "RV_Build rv next_handler = build_loop (length (rv_handlers rv)) (rv_handlers rv) next_handler"

end
