(* ===== verification/ValidationProps.thy ===== *)
theory ValidationProps
  imports HttpMiddleware
begin

section \<open>Properties of the field formats and of request validation\<close>

text \<open>
  The languages of the regular expressions and of the checks of IDs, what a validation configuration
  leaves of the errors, and in which order the handlers of a chain answer a request.
\<close>

subsection \<open>What the patterns match\<close>

lemma rx_one: "rx_match (One p # ps) s \<longleftrightarrow> (\<exists>c cs. s = c # cs \<and> p c \<and> rx_match ps cs)"
  by (cases s) simp_all

lemma rx_many:
  "rx_match (Many p # ps) s \<longleftrightarrow> (\<exists>u v. s = u @ v \<and> u \<noteq> [] \<and> list_all p u \<and> rx_match ps v)"
proof (induction s)
  case (Cons c cs)
  show ?case
  proof
    assume "rx_match (Many p # ps) (c # cs)"
    then have c: "p c" and rest: "rx_match ps cs \<or> rx_match (Many p # ps) cs" by simp_all
    from rest show "\<exists>u v. c # cs = u @ v \<and> u \<noteq> [] \<and> list_all p u \<and> rx_match ps v"
    proof
      assume "rx_match ps cs"
      with c show ?thesis by (intro exI [of _ "[c]"] exI [of _ cs]) simp
    next
      assume "rx_match (Many p # ps) cs"
      with Cons obtain u v where "cs = u @ v" "list_all p u" "rx_match ps v" by blast
      with c show ?thesis by (intro exI [of _ "c # u"] exI [of _ v]) simp
    qed
  next
    assume "\<exists>u v. c # cs = u @ v \<and> u \<noteq> [] \<and> list_all p u \<and> rx_match ps v"
    then obtain u v where uv: "c # cs = u @ v" "u \<noteq> []" "list_all p u" "rx_match ps v" by blast
    then obtain u' where u': "u = c # u'" by (cases u) auto
    show "rx_match (Many p # ps) (c # cs)"
    proof (cases "u' = []")
      case True with uv u' show ?thesis by simp
    next
      case False
      with uv u' have "rx_match (Many p # ps) cs" using Cons by auto
      with uv u' show ?thesis by simp
    qed
  qed
qed simp

lemma rx_literal: "rx_match (literal l @ ps) s \<longleftrightarrow> (\<exists>v. s = l @ v \<and> rx_match ps v)"
  by (induction l arbitrary: s) (auto simp: literal_def rx_one)

lemma rx_classes: "rx_match (map One ps) s \<longleftrightarrow> list_all2 (\<lambda>p c. p c) ps s"
  by (induction ps arbitrary: s) (auto simp: rx_one list_all2_Cons1)

lemma rx_end: "rx_match [Many p] s \<longleftrightarrow> s \<noteq> [] \<and> list_all p s"
  by (auto simp: rx_many)

subsection \<open>Identifiers\<close>

lemma all_id_chars_all: "all_id_chars s \<longleftrightarrow> list_all id_char s"
  by (induction s) (auto simp: id_char_def word_char_def lower_alnum_def)

lemma all_digit_chars_all: "all_digit_chars s \<longleftrightarrow> list_all is_digit s"
  by (induction s) (auto simp: is_digit_def)

text \<open>
  the two checks of a node identifier, the regular expression registered with the validator and
  the loop of the middleware, accept the same strings: one to a hundred letters, digits, underscores
  and hyphens.
\<close>

theorem node_id_checks_agree:
  "validateNodeID s = isValidNodeID s
   \<and> (isValidNodeID s \<longleftrightarrow> 1 \<le> length s \<and> length s \<le> 100 \<and> list_all id_char s)"
  by (auto simp: validateNodeID_def isValidNodeID_def rx_end all_id_chars_all Suc_le_eq)

text \<open>An edge ID is made of a source, a target and possibly a condition.\<close>

definition edge_text :: "string \<times> string \<times> string option \<Rightarrow> string" where
  "edge_text = (\<lambda>(a, b, c). a @ ''->'' @ b @ (case c of None \<Rightarrow> [] | Some t \<Rightarrow> '':'' @ t))"

definition id_text :: "string \<Rightarrow> bool" where
  "id_text s \<longleftrightarrow> s \<noteq> [] \<and> list_all id_char s"

definition edge_parts :: "string \<times> string \<times> string option \<Rightarrow> bool" where
  "edge_parts = (\<lambda>(a, b, c). id_text a \<and> id_text b \<and> (case c of None \<Rightarrow> True | Some t \<Rightarrow> id_text t))"

lemma edge_pattern_parts: "rx_match edge_pattern s \<longleftrightarrow> (\<exists>x. edge_parts x \<and> s = edge_text x)"
proof -
  let ?opt = "[Opt (literal '':'' @ [Many id_char])]"
  have opt: "rx_match ?opt v \<longleftrightarrow> (\<exists>c. (case c of None \<Rightarrow> True | Some t \<Rightarrow> id_text t)
      \<and> v = (case c of None \<Rightarrow> [] | Some t \<Rightarrow> '':'' @ t))" for v
  proof -
    have "rx_match ?opt v \<longleftrightarrow> (\<exists>t. v = '':'' @ t \<and> id_text t) \<or> v = []"
      using rx_literal [of "'':''" "[Many id_char]" v] by (simp add: rx_end id_text_def)
    then show ?thesis by (auto split: option.splits intro: exI [of _ "None"] exI [of _ "Some _"])
  qed
  have "rx_match edge_pattern s \<longleftrightarrow>
      (\<exists>a b v. s = a @ ''->'' @ b @ v \<and> id_text a \<and> id_text b \<and> rx_match ?opt v)"
    unfolding edge_pattern_def append_Cons append_Nil rx_many rx_literal id_text_def by blast
  also have "\<dots> \<longleftrightarrow> (\<exists>x. edge_parts x \<and> s = edge_text x)"
    unfolding opt edge_parts_def edge_text_def by auto
  finally show ?thesis .
qed

text \<open>Reading an edge ID back: the first \<open>>\<close> and the first colon are the separators.\<close>

definition edge_split :: "string \<Rightarrow> string \<times> string \<times> string option" where
  "edge_split s =
     (let rest = tl (dropWhile (\<lambda>c. c \<noteq> CHR ''>'') s); cond = dropWhile (\<lambda>c. c \<noteq> CHR '':'') rest
      in (butlast (takeWhile (\<lambda>c. c \<noteq> CHR ''>'') s), takeWhile (\<lambda>c. c \<noteq> CHR '':'') rest,
          case cond of [] \<Rightarrow> None | _ # t \<Rightarrow> Some t))"

lemma id_text_chars: "id_text s \<Longrightarrow> c \<in> set s \<Longrightarrow> c \<noteq> CHR ''>'' \<and> c \<noteq> CHR '':''"
  by (auto simp: id_text_def list_all_iff id_char_def word_char_def lower_alnum_def between_def)

lemma edge_split_text: "edge_parts x \<Longrightarrow> edge_split (edge_text x) = x"
proof -
  assume parts: "edge_parts x"
  obtain a b c where x: "x = (a, b, c)" by (cases x)
  with parts have ids: "id_text a" "id_text b" by (simp_all add: edge_parts_def)
  let ?tail = "b @ (case c of None \<Rightarrow> [] | Some t \<Rightarrow> '':'' @ t)"
  have shape: "edge_text x = (a @ ''-'') @ CHR ''>'' # ?tail" by (simp add: edge_text_def x)
  have a: "\<forall>d\<in>set (a @ ''-''). d \<noteq> CHR ''>''" using id_text_chars [OF ids(1)] by auto
  have "takeWhile (\<lambda>d. d \<noteq> CHR ''>'') (edge_text x) = a @ ''-''"
    unfolding shape using a by (subst takeWhile_append2) auto
  moreover have "dropWhile (\<lambda>d. d \<noteq> CHR ''>'') (edge_text x) = CHR ''>'' # ?tail"
    unfolding shape using a by (subst dropWhile_append2) auto
  moreover have "takeWhile (\<lambda>d. d \<noteq> CHR '':'') ?tail = b" "dropWhile (\<lambda>d. d \<noteq> CHR '':'') ?tail = drop (length b) ?tail"
    using id_text_chars [OF ids(2)] by (auto simp: takeWhile_append2 dropWhile_append2 split: option.split)
  ultimately show ?thesis by (simp add: edge_split_def x Let_def split: option.split)
qed

text \<open>
  an edge ID is accepted exactly when it is \<open>source->target\<close> or
  \<open>source->target:condition\<close> for identifiers without separators, and these parts are unique:
  an accepted ID can be read back.
\<close>

theorem edge_id_unique_parts:
  "(validateEdgeID s \<longleftrightarrow> (\<exists>!x. edge_parts x \<and> s = edge_text x))
   \<and> (validateEdgeID s \<longleftrightarrow> edge_parts (edge_split s) \<and> s = edge_text (edge_split s))"
proof -
  have "\<not> rx_match edge_pattern []" by (simp add: edge_pattern_def)
  then have "validateEdgeID s \<longleftrightarrow> (\<exists>x. edge_parts x \<and> s = edge_text x)"
    by (auto simp: validateEdgeID_def edge_pattern_parts)
  moreover have "(\<exists>x. edge_parts x \<and> s = edge_text x) \<longleftrightarrow> edge_parts (edge_split s) \<and> s = edge_text (edge_split s)"
    using edge_split_text by metis
  moreover have "(\<exists>x. edge_parts x \<and> s = edge_text x) \<longleftrightarrow> (\<exists>!x. edge_parts x \<and> s = edge_text x)"
    using edge_split_text by metis
  ultimately show ?thesis by blast
qed

subsection \<open>The other formats\<close>

definition uuid_classes :: "(char \<Rightarrow> bool) list" where
  "uuid_classes = replicate 8 hex_char @ [\<lambda>c. c = CHR ''-''] @ replicate 4 hex_char @ [\<lambda>c. c = CHR ''-'', \<lambda>c. c = CHR ''4'']
     @ replicate 3 hex_char @ [\<lambda>c. c = CHR ''-'', \<lambda>c. c \<in> set ''89ab''] @ replicate 3 hex_char
     @ [\<lambda>c. c = CHR ''-''] @ replicate 12 hex_char"

lemma uuid_pattern_classes: "uuid_pattern = map One uuid_classes"
  by (simp add: uuid_pattern_def uuid_classes_def literal_def)

lemma uuid_positions: "validateUUID4 s \<longleftrightarrow> length s = 36 \<and> (\<forall>i<36. (uuid_classes ! i) (s ! i))"
proof -
  have len: "length uuid_classes = 36" by (simp add: uuid_classes_def)
  then have "\<not> list_all2 (\<lambda>p c. p c) uuid_classes []" by auto
  then have "validateUUID4 s \<longleftrightarrow> list_all2 (\<lambda>p c. p c) uuid_classes s"
    by (auto simp: validateUUID4_def uuid_pattern_classes rx_classes)
  then show ?thesis by (auto simp: list_all2_conv_all_nth len)
qed

text \<open>Precedence rules of semantic versions are not checked: numbers may have leading zeros.\<close>

lemma semver_leading_zero: "validateSemVer ''01.0.0''"
  by code_simp

subsection \<open>Validation under a configuration\<close>

text \<open>
  validation under a configuration fails exactly when the library reports an error, and then
  returns its first errors in order, as many as the configuration allows (ten by default, all of them
  for a limit that is not positive), each with the field and the value the library names. A struct
  the library cannot validate at all is an error with an empty list.
\<close>

theorem config_limits_errors:
  "(ValidateWithConfig Struct s config = None \<longleftrightarrow> Struct s = None)
   \<and> ValidateWithConfig Struct s config =
       map_option (\<lambda>err. let all = formatValidationErrors err; limit = vc_MaxErrors (case config of None \<Rightarrow> DefaultValidationConfig | Some c \<Rightarrow> c)
                         in if 0 < limit then take (nat limit) all else all) (Struct s)
   \<and> (Struct s = Some InvalidArgument \<longrightarrow> ValidateWithConfig Struct s config = Some [])"
  by (auto simp: ValidateWithConfig_def ValidateWithPlayground_def Let_def split: option.splits)

subsection \<open>Chains of request validators\<close>

text \<open>What a validator of the fluent interface checks, and what a request passes through.\<close>

datatype 's stage =
    StJSON "string \<Rightarrow> (string + 's) \<times> string" "'s \<Rightarrow> playground_error option"
  | StQuery "string list" "string \<rightharpoonup> string"
  | StHeaders "string list" "string \<rightharpoonup> string"

fun add_stage :: "encoder \<Rightarrow> 's stage \<Rightarrow> 'x RequestValidator \<Rightarrow> 'x RequestValidator" where
  "add_stage marshal (StJSON decode Struct) rv = RV_JSON decode Struct marshal rv"
| "add_stage marshal (StQuery ks rules) rv = RV_QueryParams ks marshal rules rv"
| "add_stage marshal (StHeaders ks rules) rv = RV_Headers ks marshal rules rv"

text \<open>The verdict of one validator: a status with errors, or the request as the next one sees it.\<close>

fun check_stage :: "ValidationConfig option \<Rightarrow> 's stage \<Rightarrow> HttpRequest \<Rightarrow> (int \<times> ValidationError list) + HttpRequest" where
  "check_stage config (StJSON decode Struct) r =
     (case decode (hr_body r) of
        (Inl err, rest) \<Rightarrow>
          Inl (400, [\<lparr>ve_Field = ''request_body'', ve_Value = RInvalid, ve_Message = ''invalid JSON: '' @ err\<rparr>])
      | (Inr v, rest) \<Rightarrow>
          (case ValidateWithConfig Struct v config of
             Some errors \<Rightarrow> Inl (400, errors) | None \<Rightarrow> Inr (r\<lparr>hr_body := rest\<rparr>)))"
| "check_stage config (StQuery ks rules) r =
     (case List.map_filter (\<lambda>k. Option.bind (rules k) (\<lambda>rule. query_rule k rule (hr_query r k))) ks of
        [] \<Rightarrow> Inr r | errors \<Rightarrow> Inl (400, errors))"
| "check_stage config (StHeaders ks rules) r =
     (case List.map_filter (\<lambda>k. Option.bind (rules k) (\<lambda>rule. header_rule k rule (hr_header r k))) ks of
        [] \<Rightarrow> Inr r | errors \<Rightarrow> Inl (401, errors))"

fun check_stages :: "ValidationConfig option \<Rightarrow> 's stage list \<Rightarrow> HttpRequest \<Rightarrow> (int \<times> ValidationError list) + HttpRequest" where
  "check_stages config [] r = Inr r"
| "check_stages config (st # sts) r =
     (case check_stage config st r of Inl fail \<Rightarrow> Inl fail | Inr r' \<Rightarrow> check_stages config sts r')"

definition serve ::
  "encoder \<Rightarrow> (int \<times> ValidationError list) + HttpRequest \<Rightarrow> 'x http_handler \<Rightarrow> ResponseWriter \<times> 'x \<Rightarrow> ResponseWriter \<times> 'x" where
  "serve marshal verdict next_handler wx =
     (case verdict of
        Inl (status, errors) \<Rightarrow> (writeErrorResponse marshal status errors (fst wx), snd wx)
      | Inr r \<Rightarrow> next_handler r wx)"

definition stage_handler :: "encoder \<Rightarrow> ValidationConfig option \<Rightarrow> 's stage \<Rightarrow> 'x http_handler \<Rightarrow> 'x http_handler" where
  "stage_handler marshal config st next_handler r wx =
     (case st of
        StJSON decode Struct \<Rightarrow> ValidateJSON decode Struct marshal (NewMiddleware config) next_handler r wx
      | StQuery ks rules \<Rightarrow> ValidateQueryParams ks marshal rules next_handler r wx
      | StHeaders ks rules \<Rightarrow> ValidateHeaders ks marshal rules next_handler r wx)"

lemma rules_loop_errors:
  "rules_loop check get rules ks errors = errors @ List.map_filter (\<lambda>k. Option.bind (rules k) (\<lambda>rule. check k rule (get k))) ks"
  by (induction ks arbitrary: errors) (auto simp: List.map_filter_simps split: option.splits)

lemma ValidateWithConfig_new: "ValidateWithConfig Struct v (Some (mw_config (NewMiddleware config))) = ValidateWithConfig Struct v config"
  by (simp add: ValidateWithConfig_def NewMiddleware_def split: option.splits)

lemma stage_handler_checks:
  "stage_handler marshal config st next_handler r wx = serve marshal (check_stage config st r) next_handler wx"
  by (cases st) (auto simp: stage_handler_def serve_def ValidateJSON_def ValidateQueryParams_def ValidateHeaders_def
      rules_loop_errors ValidateWithConfig_new StatusBadRequest_def StatusUnauthorized_def Let_def
      split: prod.splits sum.splits option.splits list.splits)

lemma build_loop_foldr: "i \<le> length hs \<Longrightarrow> build_loop i hs h = foldr (\<lambda>f. f) (take i hs) h"
  by (induction i arbitrary: h) (simp_all add: take_Suc_conv_app_nth)

lemma add_stages:
  "rv_handlers (fold (add_stage marshal) sts rv) = rv_handlers rv @ map (stage_handler marshal config) sts
   \<and> rv_middleware (fold (add_stage marshal) sts rv) = rv_middleware rv"
  if "rv_middleware rv = NewMiddleware config"
  using that
proof (induction sts arbitrary: rv)
  case (Cons st sts)
  have "rv_handlers (add_stage marshal st rv) = rv_handlers rv @ [stage_handler marshal config st]
      \<and> rv_middleware (add_stage marshal st rv) = rv_middleware rv"
    using Cons.prems by (cases st) (auto simp: RV_JSON_def RV_QueryParams_def RV_Headers_def stage_handler_def fun_eq_iff)
  with Cons.IH [of "add_stage marshal st rv"] Cons.prems show ?case by simp
qed simp

lemma build_serves:
  fixes next_handler :: "'x http_handler"
  shows "RV_Build (fold (add_stage marshal) sts (NewRequestValidator config)) next_handler r wx
     = serve marshal (check_stages config sts r) next_handler wx"
proof -
  have "rv_handlers (fold (add_stage marshal) sts (NewRequestValidator config))
      = (map (stage_handler marshal config) sts :: ('x http_handler \<Rightarrow> 'x http_handler) list)"
    using add_stages [of "NewRequestValidator config :: 'x RequestValidator" config marshal sts]
    by (simp add: NewRequestValidator_def)
  then have "RV_Build (fold (add_stage marshal) sts (NewRequestValidator config)) next_handler
      = foldr (\<lambda>f. f) (map (stage_handler marshal config) sts) next_handler"
    by (simp add: RV_Build_def build_loop_foldr)
  moreover have "foldr (\<lambda>f. f) (map (stage_handler marshal config) sts) next_handler r wx
      = serve marshal (check_stages config sts r) next_handler wx"
    by (induction sts arbitrary: r) (simp_all add: serve_def stage_handler_checks split: sum.splits)
  ultimately show ?thesis by simp
qed

text \<open>
  a request goes through the validators in the order in which they were added, although the
  handler is built from the last to the first: the first one that objects answers, with its status
  and its errors, and nothing behind it runs; if none objects the handler behind gets the request,
  without the JSON values that were decoded from its body.
\<close>

theorem first_failure_answers:
  "RV_Build (fold (add_stage marshal) sts (NewRequestValidator config)) next_handler r wx
     = serve marshal (check_stages config sts r) next_handler wx"
  by (rule build_serves)

text \<open>
  a chain with two validators of the JSON body never reaches the handler behind it, when the body
  holds one JSON value: the first one decodes the value off the body, and the second one answers 400,
  because nothing is left.
\<close>

theorem second_json_starves:
  assumes "decode (hr_body r) = (Inr v, rest)" and "decode rest = (Inl eof, rest')"
  shows "\<exists>errors. RV_Build (RV_JSON decode Struct2 marshal (RV_JSON decode Struct marshal (NewRequestValidator config)))
      next_handler r wx = (writeErrorResponse marshal 400 errors (fst wx), snd wx)"
proof -
  have "RV_Build (RV_JSON decode Struct2 marshal (RV_JSON decode Struct marshal (NewRequestValidator config))) next_handler r wx
      = serve marshal (check_stages config [StJSON decode Struct, StJSON decode Struct2] r) next_handler wx"
    using build_serves [of marshal "[StJSON decode Struct, StJSON decode Struct2]" config next_handler r wx] by simp
  also have "\<exists>errors. check_stages config [StJSON decode Struct, StJSON decode Struct2] r = Inl (400, errors)"
    using assms by (simp split: option.split)
  then have "\<exists>errors. serve marshal (check_stages config [StJSON decode Struct, StJSON decode Struct2] r) next_handler wx
      = (writeErrorResponse marshal 400 errors (fst wx), snd wx)" by (auto simp: serve_def)
  finally show ?thesis .
qed

theorem second_json_starves_witness:
  "\<exists>errors. RV_Build (RV_JSON (\<lambda>b. (if b = [] then Inl ''EOF'' else Inr b, [])) (\<lambda>_. None) (\<lambda>_. Inr [])
      (RV_JSON (\<lambda>b. (if b = [] then Inl ''EOF'' else Inr b, [])) (\<lambda>_. None) (\<lambda>_. Inr []) (NewRequestValidator None)))
      (\<lambda>r (w, x). (Write_body ''ok'' w, x + 1)) \<lparr>hr_query = \<lambda>_. [], hr_header = \<lambda>_. [], hr_body = ''{}''\<rparr>
      (\<lparr>rw_header = Map.empty, rw_status = None, rw_body = []\<rparr>, 0 :: nat)
    = (writeErrorResponse (\<lambda>_. Inr []) 400 errors \<lparr>rw_header = Map.empty, rw_status = None, rw_body = []\<rparr>, 0)"
  using second_json_starves [of "\<lambda>b. (if b = [] then Inl ''EOF'' else Inr b, [])"
      "\<lparr>hr_query = \<lambda>_. [], hr_header = \<lambda>_. [], hr_body = ''{}''\<rparr>" "''{}''" "[]" "''EOF''" "[]" "\<lambda>_. None" "\<lambda>_. Inr []" "\<lambda>_. None" None
      "\<lambda>r (w, x). (Write_body ''ok'' w, x + 1)" "(\<lparr>rw_header = Map.empty, rw_status = None, rw_body = []\<rparr>, 0 :: nat)"]
  by simp

end
