(* ===== verification/Prebuilt.thy ===== *)
theory Prebuilt
  imports Executor
begin

section \<open>Prebuilt graphs (pkg/prebuilt/types.go, pkg/prebuilt/rag/simple.go)\<close>

text \<open>
  The registry of builders and the builder of simple retrieval pipelines with its configurations. A
  configuration is passed as \<^verbatim>\<open>any\<close>: a value of another type is \<open>OtherConfig\<close>.
\<close>

subsection \<open>Builders and their registry\<close>

datatype build_error = BuildError string | InvalidConfiguration string | CoreValidationFailed graph_error

record 'c BuildFunc =
  bf_NameStr :: string
  bf_Fn :: "'c \<Rightarrow> build_error + Graph"

definition BuildFunc_Name :: "'c BuildFunc \<Rightarrow> string" where
  "BuildFunc_Name b = bf_NameStr b"

definition BuildFunc_Build :: "'c \<Rightarrow> 'c BuildFunc \<Rightarrow> build_error + Graph" where
  "BuildFunc_Build cfg b = bf_Fn b cfg"

definition NewBuildFunc :: "string \<Rightarrow> ('c \<Rightarrow> build_error + Graph) \<Rightarrow> 'c BuildFunc" where
  "NewBuildFunc name fn = \<lparr>bf_NameStr = name, bf_Fn = fn\<rparr>"

type_synonym 'c Registry = "string \<rightharpoonup> 'c BuildFunc"

definition NewRegistry :: "unit \<Rightarrow> 'c Registry" where
  "NewRegistry u = Map.empty"

definition Registry_Register :: "'c BuildFunc \<Rightarrow> 'c Registry \<Rightarrow> 'c Registry" where
  "Registry_Register b r = r(BuildFunc_Name b \<mapsto> b)"

definition MustRegister :: "'c BuildFunc \<Rightarrow> 'c Registry \<Rightarrow> (unit, unit) outcome \<times> 'c Registry" where
  "MustRegister b r =
     (if r (BuildFunc_Name b) \<noteq> None then (Panics (''prebuilt already registered: '' @ BuildFunc_Name b), r)
      else (Returns (), r(BuildFunc_Name b \<mapsto> b)))"

definition Registry_Get :: "string \<Rightarrow> 'c Registry \<Rightarrow> 'c BuildFunc option" where
  "Registry_Get name r = r name"

subsection \<open>Configurations\<close>

record RAGNodeConfig =
  rn_ID :: string
  rn_Name :: string
  rn_Type :: string
  rn_Func :: string

record RAGEdgeConfig =
  re_ID :: string
  re_Source :: string
  re_Target :: string

record SimpleRAGConfig =
  rg_ID :: string
  rg_Name :: string
  rg_EntryPoint :: string
  rg_Nodes :: "RAGNodeConfig list"
  rg_Edges :: "RAGEdgeConfig list"

datatype any_config = SimpleRAG SimpleRAGConfig | OtherConfig string

fun find_entry :: "string \<Rightarrow> RAGNodeConfig list \<Rightarrow> bool" where
  "find_entry entry [] = False"
| "find_entry entry (node # nodes) = (if rn_ID node = entry then True else find_entry entry nodes)"

text \<open>The map \<^verbatim>\<open>nodeIDs\<close>: an absent key reads as \<^verbatim>\<open>false\<close>.\<close>

fun validate_ids :: "RAGNodeConfig list \<Rightarrow> (string \<Rightarrow> bool) \<Rightarrow> string + (string \<Rightarrow> bool)" where
  "validate_ids [] nodeIDs = Inr nodeIDs"
| "validate_ids (node # nodes) nodeIDs =
     (if rn_ID node = [] then Inl ''node ID cannot be empty''
      else if nodeIDs (rn_ID node) then Inl (''duplicate node ID: '' @ rn_ID node)
      else validate_ids nodes (nodeIDs(rn_ID node := True)))"

definition quoted :: "string \<Rightarrow> string" where
  "quoted s = [CHR 0x27] @ s @ [CHR 0x27]"

fun validate_refs :: "RAGEdgeConfig list \<Rightarrow> (string \<Rightarrow> bool) \<Rightarrow> string option" where
  "validate_refs [] nodeIDs = None"
| "validate_refs (edge # edges) nodeIDs =
     (if \<not> nodeIDs (re_Source edge) then Some (''edge source '' @ quoted (re_Source edge) @ '' references non-existent node'')
      else if \<not> nodeIDs (re_Target edge) then Some (''edge target '' @ quoted (re_Target edge) @ '' references non-existent node'')
      else validate_refs edges nodeIDs)"

definition ValidateConfig :: "SimpleRAGConfig \<Rightarrow> string option" where
  "ValidateConfig cfg =
     (if rg_ID cfg = [] then Some ''config ID cannot be empty''
      else if rg_Nodes cfg = [] then Some ''config must have at least one node''
      else if rg_EntryPoint cfg \<noteq> [] \<and> \<not> find_entry (rg_EntryPoint cfg) (rg_Nodes cfg)
      then Some (''entry point '' @ quoted (rg_EntryPoint cfg) @ '' not found in nodes'')
      else (case validate_ids (rg_Nodes cfg) (\<lambda>_. False) of
              Inl err \<Rightarrow> Some err
            | Inr nodeIDs \<Rightarrow> validate_refs (rg_Edges cfg) nodeIDs))"

subsection \<open>The builder\<close>

definition rag_node :: "RAGNodeConfig \<Rightarrow> Node" where
  "rag_node n = \<lparr>n_ID = rn_ID n, n_Type = rn_Type n, n_Name = rn_Name n, n_Function = [],
     n_Config = [''func'' \<mapsto> VStr (rn_Func n)], n_Retries = 0, n_Timeout = 0, n_Conditional = None,
     n_CreatedAt = 0, n_UpdatedAt = 0\<rparr>"

definition rag_edge :: "RAGEdgeConfig \<Rightarrow> Edge" where
  "rag_edge e = \<lparr>e_ID = re_ID e, e_Source = re_Source e, e_Target = re_Target e, e_Type = [], e_Condition = [],
     e_Weight = 0, e_Properties = Map.empty\<rparr>"

fun build_nodes :: "RAGNodeConfig list \<Rightarrow> (string \<rightharpoonup> Node option) \<Rightarrow> build_error + (string \<rightharpoonup> Node option)" where
  "build_nodes [] nodes = Inr nodes"
| "build_nodes (n # ns) nodes =
     (if rn_ID n = [] then Inl (BuildError ''node ID cannot be empty'')
      else if rn_Type n = [] then Inl (BuildError (''node type cannot be empty for node '' @ rn_ID n))
      else build_nodes ns (nodes(rn_ID n \<mapsto> Some (rag_node n))))"

fun build_edges :: "RAGEdgeConfig list \<Rightarrow> Edge option list \<Rightarrow> build_error + Edge option list" where
  "build_edges [] edges = Inr edges"
| "build_edges (e # es) edges =
     (if re_ID e = [] then Inl (BuildError ''edge ID cannot be empty'')
      else if re_Source e = [] \<or> re_Target e = []
      then Inl (BuildError (''edge source and target cannot be empty for edge '' @ re_ID e))
      else build_edges es (edges @ [Some (rag_edge e)]))"

definition zero_graph :: Graph where
  "zero_graph = \<lparr>g_ID = [], g_Name = [], g_Nodes = Map.empty, g_Edges = [], g_EntryPoint = [], g_State = Map.empty,
     g_Config = \<lparr>gc_Interrupts = [], gc_MaxIterations = 0, gc_Timeout = 0, gc_Metadata = Map.empty\<rparr>,
     g_CreatedAt = 0, g_UpdatedAt = 0\<rparr>"

definition build_simple_rag :: "any_config \<Rightarrow> build_error + Graph" where
  "build_simple_rag cfg =
     (case cfg of
        OtherConfig t \<Rightarrow> Inl (BuildError ''invalid config type for simple_rag, expected SimpleRAGConfig'')
      | SimpleRAG c \<Rightarrow>
          (case ValidateConfig c of
             Some err \<Rightarrow> Inl (InvalidConfiguration err)
           | None \<Rightarrow>
               (let gid = (if rg_ID c = [] then ''prebuilt-simple-rag'' else rg_ID c);
                    name = (if rg_Name c = [] then ''Prebuilt: Simple RAG'' else rg_Name c);
                    entry = (if rg_EntryPoint c = [] \<and> rg_Nodes c \<noteq> [] then rn_ID (hd (rg_Nodes c)) else rg_EntryPoint c)
                in case build_nodes (rg_Nodes c) Map.empty of
                     Inl err \<Rightarrow> Inl err
                   | Inr nodes \<Rightarrow>
                       (case build_edges (rg_Edges c) [] of
                          Inl err \<Rightarrow> Inl err
                        | Inr edges \<Rightarrow>
                            (let g = zero_graph\<lparr>g_ID := gid, g_Name := name, g_EntryPoint := entry, g_Nodes := nodes,
                                       g_Edges := edges\<rparr>
                             in case Graph_Validate g of
                                  Some err \<Rightarrow> Inl (CoreValidationFailed err)
                                | None \<Rightarrow> Inr g)))))"

definition NewSimpleRAG :: "any_config BuildFunc" where
  "NewSimpleRAG = NewBuildFunc ''simple_rag'' build_simple_rag"

text \<open>\<^verbatim>\<open>DefaultRegistry\<close> after \<^verbatim>\<open>init\<close>.\<close>

definition DefaultRegistry :: "any_config Registry" where
  "DefaultRegistry = snd (MustRegister NewSimpleRAG (NewRegistry ()))"

subsection \<open>Ready-made configurations\<close>

definition rag_n :: "string \<Rightarrow> string \<Rightarrow> string \<Rightarrow> string \<Rightarrow> RAGNodeConfig" where
  "rag_n i name ty f = \<lparr>rn_ID = i, rn_Name = name, rn_Type = ty, rn_Func = f\<rparr>"

definition rag_e :: "string \<Rightarrow> string \<Rightarrow> RAGEdgeConfig" where
  "rag_e a b = \<lparr>re_ID = a @ ''-to-'' @ b, re_Source = a, re_Target = b\<rparr>"

definition DefaultSimpleRAGConfig :: SimpleRAGConfig where
  "DefaultSimpleRAGConfig =
     \<lparr>rg_ID = ''simple-rag-default'', rg_Name = ''Default Simple RAG Pipeline'', rg_EntryPoint = ''query'',
      rg_Nodes =
        [rag_n ''query'' ''Query Processing Node'' ''processor'' ''query_processor'',
         rag_n ''retrieval'' ''Document Retrieval Node'' ''retriever'' ''document_retriever'',
         rag_n ''context'' ''Context Formation Node'' ''processor'' ''context_formatter'',
         rag_n ''generation'' ''Response Generation Node'' ''generator'' ''response_generator''],
      rg_Edges = [rag_e ''query'' ''retrieval'', rag_e ''retrieval'' ''context'', rag_e ''context'' ''generation'']\<rparr>"

definition CustomSimpleRAGConfig ::
  "string \<Rightarrow> string \<Rightarrow> string \<Rightarrow> RAGNodeConfig list \<Rightarrow> RAGEdgeConfig list \<Rightarrow> SimpleRAGConfig" where
  "CustomSimpleRAGConfig cid name entryPoint nodes edges =
     \<lparr>rg_ID = (if cid = [] then ''custom-simple-rag'' else cid),
      rg_Name = (if name = [] then ''Custom Simple RAG Pipeline'' else name),
      rg_EntryPoint = (if entryPoint = [] \<and> nodes \<noteq> [] then rn_ID (hd nodes) else entryPoint),
      rg_Nodes = nodes, rg_Edges = edges\<rparr>"

definition QARAGConfig :: "string \<Rightarrow> string \<Rightarrow> SimpleRAGConfig" where
  "QARAGConfig vectorDBFunc llmFunc =
     \<lparr>rg_ID = ''qa-rag'', rg_Name = ''Question-Answer RAG Pipeline'', rg_EntryPoint = ''question'',
      rg_Nodes =
        [rag_n ''question'' ''Question Input Node'' ''input'' ''question_input'',
         rag_n ''embedding'' ''Question Embedding Node'' ''processor'' ''text_embedder'',
         rag_n ''search'' ''Vector Search Node'' ''retriever'' vectorDBFunc,
         rag_n ''rerank'' ''Result Reranking Node'' ''processor'' ''result_reranker'',
         rag_n ''answer'' ''Answer Generation Node'' ''generator'' llmFunc],
      rg_Edges = [rag_e ''question'' ''embedding'', rag_e ''embedding'' ''search'', rag_e ''search'' ''rerank'',
        rag_e ''rerank'' ''answer'']\<rparr>"

end
