(* ===== verification/Float32.thy ===== *)
theory Float32
  imports GoValue
begin

section \<open>Conversions of floating-point numbers\<close>

text \<open>
  \<^verbatim>\<open>float32\<close> as bit patterns, with the conversion from \<^verbatim>\<open>float64\<close>, and the conversion of a
  \<^verbatim>\<open>float64\<close> to \<^verbatim>\<open>int\<close>. Go leaves open what a value out of range gives; the model
  takes the least integer, as amd64 does.
\<close>

type_synonym f32 = "32 word"

definition f32_round :: "bool \<Rightarrow> nat \<Rightarrow> nat \<Rightarrow> f32" where
  "f32_round neg n d =
     (let s = bit_len (n div d) - 24;
          e = s * 2 ^ 23 + round_half_even n (d * 2 ^ s)
      in (if 0x7F800000 \<le> e then 0x7F800000 else of_nat e) OR (if neg then 0x80000000 else 0))"

text \<open>A unit of \<^verbatim>\<open>float32\<close>, \<open>2 ^ -149\<close>, is \<open>2 ^ 925\<close> units of \<^verbatim>\<open>float64\<close>.\<close>

definition f32_of_f64 :: "f64 \<Rightarrow> f32" where
  "f32_of_f64 w =
     (if f_nan w then 0x7FC00000
      else if f_inf w then 0x7F800000 OR (if f_sign w then 0x80000000 else 0)
      else f32_round (f_sign w) (f_units w) (2 ^ 925))"

definition f32_is_zero :: "f32 \<Rightarrow> bool" where
  "f32_is_zero w \<longleftrightarrow> unat w mod 2 ^ 31 = 0"

definition f_to_int :: "f64 \<Rightarrow> int" where
  "f_to_int w =
     (let n = int (f_units w div 2 ^ 1074); m = (if f_sign w then - n else n) in
      if f_nan w \<or> f_inf w \<or> m < - (2 ^ 63) \<or> 2 ^ 63 \<le> m then - (2 ^ 63) else m)"

end
