(* ===== verification/RagRuntime.thy ===== *)
theory RagRuntime
  imports Prebuilt Float32
begin

section \<open>Functions of retrieval pipelines (pkg/prebuilt/rag/enhanced.go)\<close>

text \<open>
  The registry of named functions, the node processor that looks functions up in it, the runtime that
  is to combine both with the graph runtime, and the functions that come with the package. Their maps
  hold slices of numbers, of maps and of any values (\<open>RList\<close>, where an element is not a
  \<^typ>\<open>gval\<close>) and \<^verbatim>\<open>float32\<close> numbers besides the usual values; what \<^verbatim>\<open>%v\<close> prints is
  an argument.
\<close>

datatype rag_val =
    RVal gval
  | RFloats "f64 list"
  | RMaps "(string \<Rightarrow> gval option) list"
  | RF32 f32
  | RF32s "f32 list"
  | RList "rag_val list"

type_synonym rag_map = "string \<rightharpoonup> rag_val"

subsection \<open>Processors and their registry\<close>

text \<open>A nil map is \<open>None\<close>: reading it finds nothing, writing to it panics.\<close>

record ProcessorFunc =
  pf_name :: string
  pf_fn :: "rag_map option \<Rightarrow> string + rag_map option"

definition ProcessorFunc_Process :: "rag_map option \<Rightarrow> ProcessorFunc \<Rightarrow> string + rag_map option" where
  "ProcessorFunc_Process input p = pf_fn p input"

definition ProcessorFunc_Name :: "ProcessorFunc \<Rightarrow> string" where
  "ProcessorFunc_Name p = pf_name p"

definition NewProcessorFunc :: "string \<Rightarrow> (rag_map option \<Rightarrow> string + rag_map option) \<Rightarrow> ProcessorFunc" where
  "NewProcessorFunc name fn = \<lparr>pf_name = name, pf_fn = fn\<rparr>"

type_synonym RAGFunctionRegistry = "string \<rightharpoonup> ProcessorFunc"

definition NewRAGFunctionRegistry :: "unit \<Rightarrow> RAGFunctionRegistry" where
  "NewRAGFunctionRegistry u = Map.empty"

definition RAG_Register :: "ProcessorFunc \<Rightarrow> RAGFunctionRegistry \<Rightarrow> RAGFunctionRegistry" where
  "RAG_Register p r = r(ProcessorFunc_Name p \<mapsto> p)"

definition RegisterFunc ::
  "string \<Rightarrow> (rag_map option \<Rightarrow> string + rag_map option) \<Rightarrow> RAGFunctionRegistry \<Rightarrow> RAGFunctionRegistry" where
  "RegisterFunc name fn r = r(name \<mapsto> NewProcessorFunc name fn)"

definition RAG_Get :: "string \<Rightarrow> RAGFunctionRegistry \<Rightarrow> ProcessorFunc option" where
  "RAG_Get name r = r name"

subsection \<open>The node processor\<close>

definition input_of :: "rag_map option \<Rightarrow> rag_map" where
  "input_of input = (case input of None \<Rightarrow> Map.empty | Some m \<Rightarrow> m)"

definition RAGNode_Process ::
  "RAGFunctionRegistry \<Rightarrow> Node \<Rightarrow> rag_map option \<Rightarrow> (string, rag_map) outcome" where
  "RAGNode_Process registry node input =
     (case n_Config node ''func'' of
        None \<Rightarrow> Fails (''no function specified in node config for node '' @ n_ID node)
      | Some (VStr funcName) \<Rightarrow>
          (case RAG_Get funcName registry of
             None \<Rightarrow> Fails (''function '' @ quoted funcName @ '' not found in registry for node '' @ n_ID node)
           | Some p \<Rightarrow>
               (case ProcessorFunc_Process input p of
                  Inl err \<Rightarrow> Fails (''error executing function '' @ quoted funcName @ '' in node '' @ n_ID node @ '': '' @ err)
                | Inr None \<Rightarrow> Panics ''assignment to entry in nil map''
                | Inr (Some output) \<Rightarrow>
                    Returns (output(''_node_id'' \<mapsto> RVal (VStr (n_ID node)), ''_function_name'' \<mapsto> RVal (VStr funcName),
                      ''_node_type'' \<mapsto> RVal (VStr (n_Type node))))))
      | Some _ \<Rightarrow> Fails (''function name must be a string for node '' @ n_ID node))"

subsection \<open>The runtime\<close>

text \<open>The node processor holds the registry itself, so it is a function of the registry.\<close>

record EnhancedRAGRuntime =
  er_runtime :: Runtime
  er_functionRegistry :: RAGFunctionRegistry

definition NewEnhancedRAGRuntime :: "Checkpoint Externals \<Rightarrow> EnhancedRAGRuntime" where
  "NewEnhancedRAGRuntime x = \<lparr>er_runtime = NewRuntime x, er_functionRegistry = NewRAGFunctionRegistry ()\<rparr>"

definition RegisterRAGFunction ::
  "string \<Rightarrow> (rag_map option \<Rightarrow> string + rag_map option) \<Rightarrow> EnhancedRAGRuntime \<Rightarrow> EnhancedRAGRuntime" where
  "RegisterRAGFunction name fn r = r\<lparr>er_functionRegistry := RegisterFunc name fn (er_functionRegistry r)\<rparr>"

definition RegisterRAGProcessor :: "ProcessorFunc \<Rightarrow> EnhancedRAGRuntime \<Rightarrow> EnhancedRAGRuntime" where
  "RegisterRAGProcessor p r = r\<lparr>er_functionRegistry := RAG_Register p (er_functionRegistry r)\<rparr>"

definition GetRuntime :: "EnhancedRAGRuntime \<Rightarrow> Runtime" where
  "GetRuntime r = er_runtime r"

definition GetFunctionRegistry :: "EnhancedRAGRuntime \<Rightarrow> RAGFunctionRegistry" where
  "GetFunctionRegistry r = er_functionRegistry r"

definition ExecuteRAGGraph ::
  "string list \<Rightarrow> string list \<Rightarrow> saver_env exec_env \<Rightarrow> Graph \<Rightarrow> string \<Rightarrow> gstate option \<Rightarrow> EnhancedRAGRuntime
   \<Rightarrow> exec_result \<times> EnhancedRAGRuntime" where
  "ExecuteRAGGraph ids ids' xe g threadID input r =
     (case RunSimple ids ids' xe g threadID input (er_runtime r) of (res, rt) \<Rightarrow> (res, r\<lparr>er_runtime := rt\<rparr>))"

subsection \<open>The functions of the package\<close>

record OpenAIEmbedder =
  oe_APIKey :: string
  oe_Model :: string

definition Embedder_Process :: "OpenAIEmbedder \<Rightarrow> rag_map option \<Rightarrow> string + rag_map option" where
  "Embedder_Process o1 input =
     (case input_of input ''text'' of
        None \<Rightarrow> Inl ''text field required for embedding''
      | Some (RVal (VStr textStr)) \<Rightarrow>
          Inr (Some [''embedding'' \<mapsto> RFloats (replicate 1536
                   (f_div (f_of_int (of_nat (length textStr))) (f_of_int 1536))),
                 ''text'' \<mapsto> RVal (VStr textStr), ''model'' \<mapsto> RVal (VStr (oe_Model o1)),
                 ''provider'' \<mapsto> RVal (VStr ''openai'')])
      | Some _ \<Rightarrow> Inl ''text must be a string'')"

definition openai_embedder :: "OpenAIEmbedder \<Rightarrow> ProcessorFunc" where
  "openai_embedder o1 = \<lparr>pf_name = ''openai_embedder'', pf_fn = Embedder_Process o1\<rparr>"

record PineconeSearch =
  ps_APIKey :: string
  ps_Environment :: string
  ps_IndexName :: string

definition search_results :: "(string \<Rightarrow> gval option) list" where
  "search_results =
     [[''id'' \<mapsto> VStr ''doc1'', ''score'' \<mapsto> VFloat 0x3FEE666666666666,
       ''metadata'' \<mapsto> VMap [''title'' \<mapsto> VStr ''Relevant Document 1''],
       ''content'' \<mapsto> VStr ''This is relevant content from document 1...''],
      [''id'' \<mapsto> VStr ''doc2'', ''score'' \<mapsto> VFloat 0x3FEC28F5C28F5C29,
       ''metadata'' \<mapsto> VMap [''title'' \<mapsto> VStr ''Relevant Document 2''],
       ''content'' \<mapsto> VStr ''This is relevant content from document 2...'']]"

definition Search_Process :: "PineconeSearch \<Rightarrow> rag_map option \<Rightarrow> string + rag_map option" where
  "Search_Process p input =
     (case input_of input ''embedding'' of
        None \<Rightarrow> Inl ''embedding field required for search''
      | Some embedding \<Rightarrow>
          Inr (Some [''results'' \<mapsto> RMaps search_results, ''query_embedding'' \<mapsto> embedding,
                 ''provider'' \<mapsto> RVal (VStr ''pinecone''), ''index'' \<mapsto> RVal (VStr (ps_IndexName p))]))"

definition pinecone_search :: "PineconeSearch \<Rightarrow> ProcessorFunc" where
  "pinecone_search p = \<lparr>pf_name = ''pinecone_search'', pf_fn = Search_Process p\<rparr>"

record GPT4Generator =
  gg_APIKey :: string
  gg_Model :: string
  gg_Temperature :: f64
  gg_MaxTokens :: int

fun context_docs :: "(string \<Rightarrow> gval option) list \<Rightarrow> string list \<Rightarrow> string list" where
  "context_docs [] docs = docs"
| "context_docs (result # results) docs =
     (case result ''content'' of
        Some (VStr contentStr) \<Rightarrow> context_docs results (docs @ [contentStr])
      | _ \<Rightarrow> context_docs results docs)"

definition Generator_Process :: "(rag_val \<Rightarrow> string) \<Rightarrow> GPT4Generator \<Rightarrow> rag_map option \<Rightarrow> string + rag_map option" where
  "Generator_Process fmt_v g input =
     (case input_of input ''query'' of
        None \<Rightarrow> Inl ''query field required for generation''
      | Some query \<Rightarrow>
          (let docs = (case input_of input ''results'' of Some (RMaps resultsList) \<Rightarrow> context_docs resultsList [] | _ \<Rightarrow> []);
               response = ''Based on the query '' @ quoted (fmt_v query) @ '' and '' @ show_int (int (length docs))
                 @ '' context documents, here is a generated response using GPT-4.''
           in Inr (Some [''response'' \<mapsto> RVal (VStr response), ''query'' \<mapsto> query,
                ''context_docs'' \<mapsto> RVal (VInt (of_nat (length docs))), ''model'' \<mapsto> RVal (VStr (gg_Model g)),
                ''provider'' \<mapsto> RVal (VStr ''openai''), ''temperature'' \<mapsto> RVal (VFloat (gg_Temperature g))])))"

definition gpt4_generator :: "(rag_val \<Rightarrow> string) \<Rightarrow> GPT4Generator \<Rightarrow> ProcessorFunc" where
  "gpt4_generator fmt_v g = \<lparr>pf_name = ''gpt4_generator'', pf_fn = Generator_Process fmt_v g\<rparr>"

text \<open>The four functions registered by name. A missing query is stored as nil.\<close>

definition query_processor_fn :: "rag_map option \<Rightarrow> string + rag_map option" where
  "query_processor_fn input =
     Inr (Some [''processed_query'' \<mapsto> (case input_of input ''query'' of Some v \<Rightarrow> v | None \<Rightarrow> RVal VNil),
       ''timestamp'' \<mapsto> RVal (VStr ''2025-09-09T12:00:00Z'')])"

definition document_retriever_fn :: "rag_map option \<Rightarrow> string + rag_map option" where
  "document_retriever_fn input =
     Inr (Some [''documents'' \<mapsto> RVal (VStrs [''doc1'', ''doc2'', ''doc3'']), ''count'' \<mapsto> RVal (VInt 3)])"

definition context_formatter_fn :: "(rag_map option \<Rightarrow> string) \<Rightarrow> rag_map option \<Rightarrow> string + rag_map option" where
  "context_formatter_fn fmt_m input = Inr (Some [''formatted_context'' \<mapsto> RVal (VStr (''Context: '' @ fmt_m input))])"

definition response_generator_fn :: "(rag_map option \<Rightarrow> string) \<Rightarrow> rag_map option \<Rightarrow> string + rag_map option" where
  "response_generator_fn fmt_m input =
     Inr (Some [''response'' \<mapsto> RVal (VStr (''Generated response based on: '' @ fmt_m input))])"

definition DefaultRAGFunctionRegistry ::
  "(rag_val \<Rightarrow> string) \<Rightarrow> (rag_map option \<Rightarrow> string) \<Rightarrow> RAGFunctionRegistry" where
  "DefaultRAGFunctionRegistry fmt_v fmt_m =
     RegisterFunc ''response_generator'' (response_generator_fn fmt_m)
     (RegisterFunc ''context_formatter'' (context_formatter_fn fmt_m)
     (RegisterFunc ''document_retriever'' document_retriever_fn
     (RegisterFunc ''query_processor'' query_processor_fn
     (RAG_Register (gpt4_generator fmt_v \<lparr>gg_APIKey = [], gg_Model = ''gpt-4'', gg_Temperature = 0x3FE6666666666666,
        gg_MaxTokens = 1000\<rparr>)
     (RAG_Register (pinecone_search \<lparr>ps_APIKey = [], ps_Environment = [], ps_IndexName = []\<rparr>)
     (RAG_Register (openai_embedder \<lparr>oe_APIKey = [], oe_Model = ''text-embedding-ada-002''\<rparr>)
     (NewRAGFunctionRegistry ())))))))"

end
