(* ===== verification/RagProps.thy ===== *)
theory RagProps
  imports RagRuntime ExecutorProps
begin

section \<open>Properties of the prebuilt pipelines\<close>

text \<open>
  What the builder of simple pipelines accepts, what the functions of the package make of an input,
  and what becomes of a pipeline that is run.
\<close>

subsection \<open>What the builder accepts\<close>

lemma find_entry_in: "find_entry i ns \<longleftrightarrow> i \<in> rn_ID ` set ns"
  by (induction ns) auto

lemma validate_ids_result:
  "validate_ids ns ids = Inr ids' \<longleftrightarrow>
     (\<forall>n\<in>set ns. rn_ID n \<noteq> [] \<and> \<not> ids (rn_ID n)) \<and> distinct (map rn_ID ns) \<and> ids' = (\<lambda>i. ids i \<or> i \<in> rn_ID ` set ns)"
  by (induction ns arbitrary: ids) (auto simp: fun_eq_iff image_iff)

lemma validate_refs_result:
  "validate_refs es ids = None \<longleftrightarrow> (\<forall>e\<in>set es. ids (re_Source e) \<and> ids (re_Target e))"
  by (induction es) auto

definition rag_ids :: "SimpleRAGConfig \<Rightarrow> string set" where
  "rag_ids c = rn_ID ` set (rg_Nodes c)"

lemma ValidateConfig_result:
  "ValidateConfig c = None \<longleftrightarrow> rg_ID c \<noteq> [] \<and> rg_Nodes c \<noteq> [] \<and> (rg_EntryPoint c = [] \<or> rg_EntryPoint c \<in> rag_ids c)
     \<and> [] \<notin> rag_ids c \<and> distinct (map rn_ID (rg_Nodes c))
     \<and> (\<forall>e\<in>set (rg_Edges c). re_Source e \<in> rag_ids c \<and> re_Target e \<in> rag_ids c)"
proof -
  have ids: "(\<exists>err. validate_ids (rg_Nodes c) (\<lambda>_. False) = Inl err)
      \<or> validate_ids (rg_Nodes c) (\<lambda>_. False) = Inr (\<lambda>i. i \<in> rag_ids c)"
    using validate_ids_result [of "rg_Nodes c" "\<lambda>_. False"] by (cases "validate_ids (rg_Nodes c) (\<lambda>_. False)") (auto simp: rag_ids_def)
  have ok: "validate_ids (rg_Nodes c) (\<lambda>_. False) = Inr (\<lambda>i. i \<in> rag_ids c) \<longleftrightarrow>
      [] \<notin> rag_ids c \<and> distinct (map rn_ID (rg_Nodes c))"
    by (auto simp: validate_ids_result rag_ids_def image_iff)
  show ?thesis
    using ids ok by (auto simp: ValidateConfig_def find_entry_in rag_ids_def [symmetric] validate_refs_result)
qed

lemma build_nodes_result:
  "build_nodes ns m = Inr nodes \<longleftrightarrow>
     (\<forall>n\<in>set ns. rn_ID n \<noteq> [] \<and> rn_Type n \<noteq> []) \<and> nodes = m ++ map_of (map (\<lambda>n. (rn_ID n, Some (rag_node n))) (rev ns))"
  by (induction ns arbitrary: m) (auto simp: map_add_assoc [symmetric] simp flip: map_add_upd_left)

lemma build_edges_result:
  "build_edges es acc = Inr edges \<longleftrightarrow>
     (\<forall>e\<in>set es. re_ID e \<noteq> [] \<and> re_Source e \<noteq> [] \<and> re_Target e \<noteq> []) \<and> edges = acc @ map (\<lambda>e. Some (rag_edge e)) es"
  by (induction es arbitrary: acc) auto

definition rag_nodes :: "SimpleRAGConfig \<Rightarrow> string \<rightharpoonup> Node option" where
  "rag_nodes c = map_of (map (\<lambda>n. (rn_ID n, Some (rag_node n))) (rev (rg_Nodes c)))"

definition rag_graph :: "SimpleRAGConfig \<Rightarrow> Graph" where
  "rag_graph c = zero_graph\<lparr>g_ID := rg_ID c, g_Name := (if rg_Name c = [] then ''Prebuilt: Simple RAG'' else rg_Name c),
     g_EntryPoint := (if rg_EntryPoint c = [] then rn_ID (hd (rg_Nodes c)) else rg_EntryPoint c),
     g_Nodes := rag_nodes c, g_Edges := map (\<lambda>e. Some (rag_edge e)) (rg_Edges c)\<rparr>"

definition rag_accepted :: "SimpleRAGConfig \<Rightarrow> bool" where
  "rag_accepted c \<longleftrightarrow> ValidateConfig c = None \<and> (\<forall>n\<in>set (rg_Nodes c). rn_Type n \<noteq> []) \<and> (\<forall>e\<in>set (rg_Edges c). re_ID e \<noteq> [])"

lemma dom_rag_nodes: "dom (rag_nodes c) = rag_ids c"
  by (auto simp: rag_nodes_def rag_ids_def dom_map_of_conv_image_fst image_iff)

lemma rag_nodes_Some:
  "distinct (map rn_ID (rg_Nodes c)) \<Longrightarrow> rag_nodes c i = Some p \<longleftrightarrow> (\<exists>n\<in>set (rg_Nodes c). rn_ID n = i \<and> p = Some (rag_node n))"
  unfolding rag_nodes_def
  by (subst map_of_eq_Some_iff) (auto simp: rev_map [symmetric] comp_def)

lemma built_result: "build_simple_rag (SimpleRAG c) = Inr g \<longleftrightarrow> rag_accepted c \<and> g = rag_graph c"
proof (cases "ValidateConfig c")
  case None
  note v = None [unfolded ValidateConfig_result]
  let ?e = "g_EntryPoint (rag_graph c)"
  have "?e \<in> rag_ids c" using v by (auto simp: rag_graph_def rag_ids_def)
  then have "?e \<noteq> []" "rag_nodes c ?e \<noteq> None" using v dom_rag_nodes [of c] by auto
  then have gv: "Graph_Validate (rag_graph c) = None" by (simp add: Graph_Validate_def) (simp add: rag_graph_def)
  show ?thesis
  proof (cases "rag_accepted c")
    case True
    have "\<forall>n\<in>set (rg_Nodes c). rn_ID n \<noteq> []" using v by (metis rag_ids_def image_eqI)
    moreover have "\<forall>e\<in>set (rg_Edges c). re_Source e \<noteq> [] \<and> re_Target e \<noteq> []" using v by metis
    ultimately have "build_nodes (rg_Nodes c) Map.empty = Inr (rag_nodes c)"
      "build_edges (rg_Edges c) [] = Inr (map (\<lambda>e. Some (rag_edge e)) (rg_Edges c))"
      using True by (simp_all add: build_nodes_result build_edges_result rag_nodes_def rag_accepted_def)
    with gv None v True show ?thesis by (auto simp: build_simple_rag_def Let_def rag_graph_def)
  next
    case False
    have "\<exists>err. build_simple_rag (SimpleRAG c) = Inl err"
    proof (cases "build_nodes (rg_Nodes c) Map.empty")
      case (Inl err) with None show ?thesis by (simp add: build_simple_rag_def Let_def)
    next
      case (Inr nodes)
      then have "\<exists>e\<in>set (rg_Edges c). re_ID e = []"
        using False None by (auto simp: build_nodes_result rag_accepted_def)
      then have "build_edges (rg_Edges c) [] \<noteq> Inr edges" for edges by (simp only: build_edges_result) blast
      then obtain err where "build_edges (rg_Edges c) [] = Inl err" by (cases "build_edges (rg_Edges c) []") auto
      with Inr None show ?thesis by (simp add: build_simple_rag_def Let_def)
    qed
    with False show ?thesis by auto
  qed
qed (simp add: build_simple_rag_def rag_accepted_def)

text \<open>The configurations that the builder accepts, and those whose graph can also be saved.\<close>

definition rag_wf :: "SimpleRAGConfig \<Rightarrow> bool" where
  "rag_wf c \<longleftrightarrow> rg_ID c \<noteq> [] \<and> rg_Nodes c \<noteq> [] \<and> (rg_EntryPoint c = [] \<or> rg_EntryPoint c \<in> rag_ids c)
     \<and> distinct (map rn_ID (rg_Nodes c)) \<and> (\<forall>n\<in>set (rg_Nodes c). rn_ID n \<noteq> [] \<and> rn_Type n \<noteq> [])
     \<and> (\<forall>e\<in>set (rg_Edges c). re_ID e \<noteq> [] \<and> re_Source e \<in> rag_ids c \<and> re_Target e \<in> rag_ids c)"

definition rag_storable :: "SimpleRAGConfig \<Rightarrow> bool" where
  "rag_storable c \<longleftrightarrow> (\<forall>n\<in>set (rg_Nodes c). rn_Name n \<noteq> [] \<and> rn_Type n \<noteq> NodeTypeConditional)
     \<and> (\<forall>e\<in>set (rg_Edges c). re_Source e \<noteq> re_Target e)
     \<and> distinct (map (\<lambda>e. (re_Source e, re_Target e)) (rg_Edges c))"

lemma rag_accepted_wf: "rag_accepted c \<longleftrightarrow> rag_wf c"
  by (auto simp: rag_accepted_def rag_wf_def ValidateConfig_result rag_ids_def image_iff)

lemma rag_graph_wf:
  assumes "rag_wf c"
  shows "wf_graph (rag_graph c) \<longleftrightarrow> rag_storable c"
proof -
  have dist: "distinct (map rn_ID (rg_Nodes c))" using assms by (simp add: rag_wf_def)
  have nodes: "wf_nodes (rag_nodes c) \<longleftrightarrow> (\<forall>n\<in>set (rg_Nodes c). rn_Name n \<noteq> [] \<and> rn_Type n \<noteq> NodeTypeConditional)"
  proof -
    have "wf_nodes (rag_nodes c) \<longleftrightarrow> (\<forall>n\<in>set (rg_Nodes c). Node_Validate (rag_node n) = None)"
      by (auto simp: wf_nodes_def rag_nodes_Some [OF dist])
    moreover have "Node_Validate (rag_node n) = None \<longleftrightarrow> rn_Name n \<noteq> [] \<and> rn_Type n \<noteq> NodeTypeConditional"
      if "n \<in> set (rg_Nodes c)" for n using assms that by (simp add: Node_Validate_def rag_node_def rag_wf_def)
    ultimately show ?thesis by blast
  qed
  have dom: "rag_nodes c i \<noteq> None \<longleftrightarrow> i \<in> rag_ids c" for i using dom_rag_nodes by blast
  have ids: "[] \<notin> rag_ids c" using assms by (auto simp: rag_wf_def rag_ids_def)
  have one: "wf_edge (rag_nodes c) (rag_edge e) \<longleftrightarrow> re_Source e \<noteq> re_Target e" if "e \<in> set (rg_Edges c)" for e
    unfolding wf_edge_def dom using that assms ids by (auto simp: rag_edge_def rag_wf_def)
  have key: "map (edge_key \<circ> with_type \<circ> the) (map (\<lambda>e. Some (rag_edge e)) (rg_Edges c))
      = map (\<lambda>(a, b). (a, b, EdgeTypeDefault, [])) (map (\<lambda>e. (re_Source e, re_Target e)) (rg_Edges c))"
    by (simp add: edge_key_def with_type_def rag_edge_def)
  have "inj_on (\<lambda>(a, b). (a, b, EdgeTypeDefault, [])) A" for A :: "(string \<times> string) set" by (auto simp: inj_on_def)
  then have "distinct (map (edge_key \<circ> with_type \<circ> the) (map (\<lambda>e. Some (rag_edge e)) (rg_Edges c)))
      \<longleftrightarrow> distinct (map (\<lambda>e. (re_Source e, re_Target e)) (rg_Edges c))"
    unfolding key by (simp only: distinct_map) blast
  then have edges: "wf_edges (rag_nodes c) (map (\<lambda>e. Some (rag_edge e)) (rg_Edges c)) \<longleftrightarrow>
      (\<forall>e\<in>set (rg_Edges c). re_Source e \<noteq> re_Target e) \<and> distinct (map (\<lambda>e. (re_Source e, re_Target e)) (rg_Edges c))"
    unfolding wf_edges_def using one by auto
  have "g_EntryPoint (rag_graph c) \<in> rag_ids c" using assms by (auto simp: rag_wf_def rag_graph_def rag_ids_def)
  then have entry: "g_EntryPoint (rag_graph c) \<noteq> []" "rag_nodes c (g_EntryPoint (rag_graph c)) \<noteq> None"
    using ids dom by auto
  have parts: "g_Nodes (rag_graph c) = rag_nodes c" "g_Edges (rag_graph c) = map (\<lambda>e. Some (rag_edge e)) (rg_Edges c)"
    "g_Name (rag_graph c) \<noteq> []" by (simp_all add: rag_graph_def)
  show ?thesis unfolding wf_graph_def parts(1,2) nodes edges using entry parts(3) by (auto simp: rag_storable_def)
qed

text \<open>
  the builder of simple pipelines accepts exactly the well-formed configurations (an ID, distinct
  node IDs, every node with a type, an entry point and edges between nodes of the configuration), and
  builds the graph with these nodes and edges. The graph is not yet one that the runtime stores: its
  repository takes it exactly when, besides, every node has a name and is not conditional, no edge
  returns to its source, and no two edges join the same nodes.
\<close>

theorem simple_rag_builds:
  assumes "map_order (g_Nodes (rag_graph c)) ids" and "map_order (g_Nodes (rag_graph c)) ids'"
  shows "(BuildFunc_Build (SimpleRAG c) NewSimpleRAG = Inr g \<longleftrightarrow> rag_wf c \<and> g = rag_graph c)
    \<and> (rag_wf c \<longrightarrow> (fst (Repo_Save ids ids' (Some (rag_graph c)) repo) = None \<longleftrightarrow> rag_storable c))"
proof -
  have "fst (Repo_Save ids ids' (Some (rag_graph c)) repo) = fst (ValidateCoreGraph ids ids' [] (Some (rag_graph c)))"
    by (simp add: Repo_Save_def split: prod.splits option.splits)
  then show ?thesis using ValidateCoreGraph_spec [OF assms, of "[]"] rag_graph_wf
    by (simp add: BuildFunc_Build_def NewSimpleRAG_def NewBuildFunc_def built_result rag_accepted_wf)
qed

lemma default_config_wf: "rag_wf DefaultSimpleRAGConfig" "rag_storable DefaultSimpleRAGConfig"
  by (simp_all add: rag_wf_def rag_storable_def rag_ids_def DefaultSimpleRAGConfig_def rag_n_def rag_e_def NodeTypeConditional_def)

lemma qa_config_wf: "rag_wf (QARAGConfig v l)" "rag_storable (QARAGConfig v l)"
  by (simp_all add: rag_wf_def rag_storable_def rag_ids_def QARAGConfig_def rag_n_def rag_e_def NodeTypeConditional_def)

lemma default_order: "map_order (g_Nodes (rag_graph DefaultSimpleRAGConfig)) [''query'', ''retrieval'', ''context'', ''generation'']"
  by (auto simp: map_order_def rag_graph_def dom_rag_nodes rag_ids_def DefaultSimpleRAGConfig_def rag_n_def)

theorem simple_rag_builds_witness:
  "BuildFunc_Build (SimpleRAG DefaultSimpleRAGConfig) NewSimpleRAG = Inr (rag_graph DefaultSimpleRAGConfig)"
  using simple_rag_builds [OF default_order default_order, of "rag_graph DefaultSimpleRAGConfig" Map.empty] default_config_wf by simp

subsection \<open>Running a pipeline\<close>

lemma wf_edges_typed: "wf_edges nodes es \<Longrightarrow> wf_edges nodes (map (map_option with_type) es)"
proof -
  assume wf: "wf_edges nodes es"
  then have "es = map Some (map the es)"
    by (intro nth_equalityI) (auto simp: wf_edges_def in_set_conv_nth)
  then obtain xs where es: "es = map Some xs" by blast
  have typed: "map (map_option with_type) es = map Some (map with_type xs)" by (simp add: es)
  have "wf_edge nodes (with_type e) = wf_edge nodes e" for e by (simp add: wf_edge_def)
  with wf show ?thesis unfolding typed by (auto simp: es wf_edges_def comp_def image_iff)
qed

lemma validated_again:
  assumes "wf_graph g" and "map_order (g_Nodes g) ids" and "map_order (g_Nodes g) ids'"
  shows "\<exists>g'. ValidateCoreGraph ids ids' [] (Some g) = (None, Some g') \<and> wf_graph g' \<and> g' = g\<lparr>g_Edges := g_Edges g'\<rparr>"
proof -
  obtain gp where v: "ValidateCoreGraph ids ids' [] (Some g) = (None, gp)"
    using ValidateCoreGraph_spec [OF assms(2,3), of "[]"] assms(1) by (cases "ValidateCoreGraph ids ids' [] (Some g)") auto
  from ValidateCoreGraph_result [OF v] have gp: "gp = Some (g\<lparr>g_Edges := map (map_option with_type) (g_Edges g)\<rparr>)" .
  let ?es = "map (map_option with_type) (g_Edges g)"
  have "wf_edges (g_Nodes g) ?es"
    using assms(1) by (intro wf_edges_typed) (simp add: wf_graph_def)
  then have "wf_graph (g\<lparr>g_Edges := ?es\<rparr>)" using assms(1) by (simp add: wf_graph_def)
  with v gp show ?thesis by auto
qed

text \<open>A run whose entry node has a type without a processor ends in its first step.\<close>

lemma unknown_entry_fails:
  assumes "wf_graph g" and "ge_repo ex (g_ID g) = Some g" and "g_Nodes g (g_EntryPoint g) = Some (Some n)"
    and "ge_process ex = Process NewDefaultNodeProcessor" and "\<not> CanProcess NewDefaultNodeProcessor (n_Type n)"
    and "0 < maxStepsOrDefault c" and "xc_GraphID c = g_ID g"
  shows "executeGraph ses c ex = (Fails (NodeExecutionFailed (n_ID n) (''no processor found for node type: '' @ n_Type n)), [], c, ex)"
proof -
  obtain k where k: "nat (maxStepsOrDefault c) = Suc k" using assms(6) by (metis gr0_implies_Suc zero_less_nat_eq)
  show ?thesis using assms(2-5,7)
    by (simp add: executeGraph_def Repo_Get_def k runSequentialStep_def Process_def CanProcess_def)
qed

lemma simple_request_valid:
  "gid \<noteq> [] \<Longrightarrow> tid \<noteq> [] \<Longrightarrow>
   Request_Validate \<lparr>rq_GraphID = gid, rq_ThreadID = tid, rq_Input = input, rq_Config = simple_config, rq_ResumeFrom = []\<rparr>
     = (None, \<lparr>rq_GraphID = gid, rq_ThreadID = tid, rq_Input = input, rq_Config = simple_config, rq_ResumeFrom = []\<rparr>)"
  by (simp add: Request_Validate_def simple_config_def minutes_def Let_def)

lemma RunSimple_fails:
  assumes wf: "wf_graph g" and orders: "map_order (g_Nodes g) ids" "map_order (g_Nodes g) ids'"
      "map_order (g_Nodes g) (xe_ids xe)" "map_order (g_Nodes g) (xe_ids' xe)"
    and req: "threadID \<noteq> []" "g_ID g \<noteq> []"
    and node: "g_Nodes g (g_EntryPoint g) = Some (Some n)" "\<not> CanProcess NewDefaultNodeProcessor (n_Type n)"
    and p: "ge_process rt = Process NewDefaultNodeProcessor"
  shows "\<exists>rs rt'. RunSimple ids ids' xe g threadID input rt
      = (Returns (Some rs, Some (NodeExecutionFailed (n_ID n) (''no processor found for node type: '' @ n_Type n))), rt')
    \<and> rs_Status rs = ExecutionStatusFailed \<and> rs_Steps rs = [] \<and> ge_process rt' = ge_process rt"
proof -
  from validated_again [OF wf orders(1,2)] obtain g1 where g1: "ValidateCoreGraph ids ids' [] (Some g) = (None, Some g1)"
    "wf_graph g1" "g1 = g\<lparr>g_Edges := g_Edges g1\<rparr>" by blast
  have same1: "g_ID g1 = g_ID g" "g_Nodes g1 = g_Nodes g" "g_EntryPoint g1 = g_EntryPoint g"
    using g1(3) by (metis Graph.select_convs(1,3,5) Graph.surjective Graph.update_convs(4))+
  from validated_again [OF g1(2)] orders(3,4) obtain g2 where g2: "ValidateCoreGraph (xe_ids xe) (xe_ids' xe) [] (Some g1) = (None, Some g2)"
    "wf_graph g2" "g2 = g1\<lparr>g_Edges := g_Edges g2\<rparr>" unfolding same1 by blast
  have same2: "g_ID g2 = g_ID g" "g_Nodes g2 = g_Nodes g" "g_EntryPoint g2 = g_EntryPoint g"
    using g2(3) same1 by (metis Graph.select_convs(1,3,5) Graph.surjective Graph.update_convs(4))+
  define rt1 where "rt1 = rt\<lparr>ge_repo := (ge_repo rt)(g_ID g \<mapsto> g1)\<rparr>"
  define rt2 where "rt2 = rt1\<lparr>ge_repo := (ge_repo rt1)(g_ID g \<mapsto> g2)\<rparr>"
  have save: "SaveGraph ids ids' g rt = (None, rt1)"
    by (simp add: SaveGraph_def Repo_Save_def g1(1) rt1_def same1)
  let ?req = "\<lparr>rq_GraphID = g_ID g, rq_ThreadID = threadID, rq_Input = input, rq_Config = simple_config, rq_ResumeFrom = []\<rparr>"
  have stored: "validate_stored RepositoryError xe (g_ID g) simple_config rt1 = (None, rt2)"
    using g2(1) by (simp add: validate_stored_def simple_config_def Repo_Get_def rt1_def rt2_def)
  let ?c = "\<lparr>xc_ExecutionID = generateExecutionID (xe_nano xe) (g_ID g) threadID, xc_GraphID = g_ID g, xc_ThreadID = threadID,
    xc_CurrentStep = 0, xc_State = input, xc_Config = simple_config, xc_StartTime = xe_start xe\<rparr>"
  have "executeGraph (xe_steps xe) ?c (register ?c rt2)
      = (Fails (NodeExecutionFailed (n_ID n) (''no processor found for node type: '' @ n_Type n)), [], ?c, register ?c rt2)"
    by (rule unknown_entry_fails [OF g2(2)])
      (use node p in \<open>simp_all add: same2 register_def rt1_def rt2_def maxStepsOrDefault_def simple_config_def\<close>)
  then show ?thesis
    using save simple_request_valid [OF req(2,1), of input] stored
    by (simp add: RunSimple_def Execute_def run_registered_def Let_def register_def rt1_def rt2_def)
qed

lemma registered_runtime:
  "er_runtime (fold (\<lambda>(name, fn). RegisterRAGFunction name fn) fs r) = er_runtime r"
  by (induction fs arbitrary: r) (auto simp: RegisterRAGFunction_def)

text \<open>
  C15: the ready-made pipelines do not run. Whatever functions are registered, for whatever input,
  executing the default pipeline or the question-answering pipeline, as the builder makes them, fails
  at the entry node with ``no processor found'', before any step: the runtime consults only the
  processors of the core node types and never the registered functions.
\<close>

theorem ready_made_pipelines_fail:
  assumes "c = DefaultSimpleRAGConfig \<or> c = QARAGConfig vectorDB llm"
    and "BuildFunc_Build (SimpleRAG c) NewSimpleRAG = Inr g"
    and "map_order (g_Nodes g) ids" and "map_order (g_Nodes g) ids'"
    and "map_order (g_Nodes g) (xe_ids xe)" and "map_order (g_Nodes g) (xe_ids' xe)" and "threadID \<noteq> []"
  shows "\<exists>rs cause r'. ExecuteRAGGraph ids ids' xe g threadID input
        (fold (\<lambda>(name, fn). RegisterRAGFunction name fn) fs (NewEnhancedRAGRuntime x))
      = (Returns (Some rs, Some (NodeExecutionFailed (g_EntryPoint g) cause)), r')
    \<and> rs_Status rs = ExecutionStatusFailed \<and> rs_Steps rs = []"
proof -
  have g: "g = rag_graph c" and wf: "rag_wf c"
    using assms(2) by (simp_all add: BuildFunc_Build_def NewSimpleRAG_def NewBuildFunc_def built_result rag_accepted_wf)
  have "rag_storable c" using assms(1) default_config_wf qa_config_wf by blast
  then have wfg: "wf_graph g" using rag_graph_wf [OF wf] g by simp
  have dist: "distinct (map rn_ID (rg_Nodes c))" using wf by (simp add: rag_wf_def)
  have gid: "g_ID g \<noteq> []" using wf by (simp add: g rag_graph_def rag_wf_def)
  have "\<exists>n. g_Nodes g (g_EntryPoint g) = Some (Some n) \<and> n_ID n = g_EntryPoint g \<and> \<not> CanProcess NewDefaultNodeProcessor (n_Type n)"
    using assms(1)
  proof
    assume c: "c = DefaultSimpleRAGConfig"
    have "g_Nodes g ''query'' = Some (Some (rag_node (rag_n ''query'' ''Query Processing Node'' ''processor'' ''query_processor'')))"
      using rag_nodes_Some [OF dist] by (simp add: g rag_graph_def c DefaultSimpleRAGConfig_def rag_n_def)
    then show ?thesis
      by (simp add: g rag_graph_def c DefaultSimpleRAGConfig_def rag_n_def rag_node_def default_processors node_type_defs)
  next
    assume c: "c = QARAGConfig vectorDB llm"
    have "g_Nodes g ''question'' = Some (Some (rag_node (rag_n ''question'' ''Question Input Node'' ''input'' ''question_input'')))"
      using rag_nodes_Some [OF dist] by (simp add: g rag_graph_def c QARAGConfig_def rag_n_def)
    then show ?thesis
      by (simp add: g rag_graph_def c QARAGConfig_def rag_n_def rag_node_def default_processors node_type_defs)
  qed
  then obtain n where n: "g_Nodes g (g_EntryPoint g) = Some (Some n)" "n_ID n = g_EntryPoint g"
    "\<not> CanProcess NewDefaultNodeProcessor (n_Type n)" by blast
  have p: "ge_process (NewRuntime x) = Process NewDefaultNodeProcessor"
    by (simp add: NewRuntime_def NewDefaultGraphExecutor_def)
  from RunSimple_fails [OF wfg assms(3-7) gid n(1,3) p, of input] n(2) show ?thesis
    unfolding ExecuteRAGGraph_def registered_runtime NewEnhancedRAGRuntime_def by auto
qed

definition rag_ids_list :: "string list" where
  "rag_ids_list = [''query'', ''retrieval'', ''context'', ''generation'']"

definition rag_exec_env :: "saver_env exec_env" where
  "rag_exec_env = \<lparr>xe_nano = 0, xe_start = 0, xe_end = 0, xe_ids = rag_ids_list, xe_ids' = rag_ids_list,
     xe_steps = (\<lambda>_. \<lparr>se_start = 0, se_cp = \<lparr>ce_nano = 0, ce_time = 0,
       ce_saver = \<lparr>env_now = 0, env_later = 0, env_rnd = Inl [], env_ids = []\<rparr>\<rparr>, se_end = 0, se_since = 0\<rparr>),
     xe_load = \<lparr>env_now = 0, env_later = 0, env_rnd = Inl [], env_ids = []\<rparr>\<rparr>"

theorem ready_made_pipelines_fail_witness:
  "\<exists>rs cause r'. ExecuteRAGGraph rag_ids_list rag_ids_list rag_exec_env (rag_graph DefaultSimpleRAGConfig) ''t'' None
        (RegisterRAGFunction ''query_processor'' query_processor_fn (NewEnhancedRAGRuntime one_checkpoint))
      = (Returns (Some rs, Some (NodeExecutionFailed (g_EntryPoint (rag_graph DefaultSimpleRAGConfig)) cause)), r')
    \<and> rs_Status rs = ExecutionStatusFailed \<and> rs_Steps rs = []"
proof -
  have "BuildFunc_Build (SimpleRAG DefaultSimpleRAGConfig) NewSimpleRAG = Inr (rag_graph DefaultSimpleRAGConfig)"
    using default_config_wf by (simp add: BuildFunc_Build_def NewSimpleRAG_def NewBuildFunc_def built_result rag_accepted_wf)
  from ready_made_pipelines_fail [OF _ this, of "[]" "[]" rag_ids_list rag_ids_list rag_exec_env "''t''" None
      "[(''query_processor'', query_processor_fn)]" one_checkpoint] default_order
  show ?thesis by (simp add: rag_exec_env_def rag_ids_list_def)
qed

subsection \<open>The functions of the package\<close>

lemma default_functions:
  "RAG_Get ''query_processor'' (DefaultRAGFunctionRegistry v m) = Some (NewProcessorFunc ''query_processor'' query_processor_fn)"
  "RAG_Get ''document_retriever'' (DefaultRAGFunctionRegistry v m) = Some (NewProcessorFunc ''document_retriever'' document_retriever_fn)"
  "RAG_Get ''context_formatter'' (DefaultRAGFunctionRegistry v m) = Some (NewProcessorFunc ''context_formatter'' (context_formatter_fn m))"
  "RAG_Get ''response_generator'' (DefaultRAGFunctionRegistry v m) = Some (NewProcessorFunc ''response_generator'' (response_generator_fn m))"
  "RAG_Get ''question_input'' (DefaultRAGFunctionRegistry v m) = None"
  "RAG_Get ''text_embedder'' (DefaultRAGFunctionRegistry v m) = None"
  by (simp_all add: DefaultRAGFunctionRegistry_def RAG_Get_def RegisterFunc_def RAG_Register_def ProcessorFunc_Name_def
      openai_embedder_def pinecone_search_def gpt4_generator_def NewRAGFunctionRegistry_def)

lemma service_functions:
  "RAG_Get ''openai_embedder'' (DefaultRAGFunctionRegistry v m)
     = Some (openai_embedder \<lparr>oe_APIKey = [], oe_Model = ''text-embedding-ada-002''\<rparr>)"
  "RAG_Get ''pinecone_search'' (DefaultRAGFunctionRegistry v m)
     = Some (pinecone_search \<lparr>ps_APIKey = [], ps_Environment = [], ps_IndexName = []\<rparr>)"
  "RAG_Get ''gpt4_generator'' (DefaultRAGFunctionRegistry v m)
     = Some (gpt4_generator v \<lparr>gg_APIKey = [], gg_Model = ''gpt-4'', gg_Temperature = 0x3FE6666666666666, gg_MaxTokens = 1000\<rparr>)"
  by (simp_all add: DefaultRAGFunctionRegistry_def RAG_Get_def RegisterFunc_def RAG_Register_def ProcessorFunc_Name_def
      openai_embedder_def pinecone_search_def gpt4_generator_def NewRAGFunctionRegistry_def)

text \<open>What the node processor would do with a pipeline: each node on the output of the one before.\<close>

fun rag_chain :: "RAGFunctionRegistry \<Rightarrow> RAGNodeConfig list \<Rightarrow> rag_map option \<Rightarrow> (string, rag_map option) outcome" where
  "rag_chain reg [] input = Returns input"
| "rag_chain reg (n # ns) input =
     (case RAGNode_Process reg (rag_node n) input of
        Returns output \<Rightarrow> rag_chain reg ns (Some output)
      | Fails err \<Rightarrow> Fails err | Blocks \<Rightarrow> Blocks | Deadlocks \<Rightarrow> Deadlocks | Panics e \<Rightarrow> Panics e)"

text \<open>
  with the functions of the package the node processor runs the default pipeline on every input,
  to a response marked with the last node; the question-answering pipeline fails at its first node,
  whose function the package does not have; and the three service functions do not form a pipeline:
  the search passes no query on, so that the generator behind it always fails.
\<close>

theorem package_functions:
  "(\<exists>out text. rag_chain (DefaultRAGFunctionRegistry v m) (rg_Nodes DefaultSimpleRAGConfig) input = Returns (Some out)
      \<and> out ''response'' = Some (RVal (VStr text)) \<and> out ''_node_id'' = Some (RVal (VStr ''generation'')))
   \<and> (\<exists>err. rag_chain (DefaultRAGFunctionRegistry v m) (rg_Nodes (QARAGConfig db llm)) input = Fails err)
   \<and> (\<exists>err. rag_chain (DefaultRAGFunctionRegistry v m) [rag_n a a ty ''openai_embedder'', rag_n b b ty ''pinecone_search'',
        rag_n c c ty ''gpt4_generator''] input = Fails err)"
proof -
  note step = RAGNode_Process_def rag_node_def rag_n_def default_functions ProcessorFunc_Process_def NewProcessorFunc_def
  have "\<exists>out text. rag_chain (DefaultRAGFunctionRegistry v m) (rg_Nodes DefaultSimpleRAGConfig) input = Returns (Some out)
      \<and> out ''response'' = Some (RVal (VStr text)) \<and> out ''_node_id'' = Some (RVal (VStr ''generation''))"
    by (simp add: DefaultSimpleRAGConfig_def step query_processor_fn_def document_retriever_fn_def context_formatter_fn_def
        response_generator_fn_def)
  moreover have "\<exists>err. rag_chain (DefaultRAGFunctionRegistry v m) (rg_Nodes (QARAGConfig db llm)) input = Fails err"
    by (simp add: QARAGConfig_def step)
  moreover have "\<exists>err. rag_chain (DefaultRAGFunctionRegistry v m) [rag_n a a ty ''openai_embedder'', rag_n b b ty ''pinecone_search'',
      rag_n c c ty ''gpt4_generator''] input = Fails err"
  proof -
    let ?reg = "DefaultRAGFunctionRegistry v m"
    have gen: "\<exists>err. RAGNode_Process ?reg (rag_node (rag_n c c ty ''gpt4_generator'')) (Some out) = Fails err"
      if "out ''query'' = None" for out
      using that by (simp add: RAGNode_Process_def rag_node_def rag_n_def service_functions ProcessorFunc_Process_def
          openai_embedder_def pinecone_search_def gpt4_generator_def
          Generator_Process_def input_of_def)
    have search: "(\<exists>err. RAGNode_Process ?reg (rag_node (rag_n b b ty ''pinecone_search'')) inp = Fails err)
        \<or> (\<exists>out. RAGNode_Process ?reg (rag_node (rag_n b b ty ''pinecone_search'')) inp = Returns out \<and> out ''query'' = None)" for inp
      by (auto simp: RAGNode_Process_def rag_node_def rag_n_def service_functions ProcessorFunc_Process_def
          openai_embedder_def pinecone_search_def gpt4_generator_def
          Search_Process_def split: option.splits)
    have embed: "(\<exists>err. RAGNode_Process ?reg (rag_node (rag_n a a ty ''openai_embedder'')) inp = Fails err)
        \<or> (\<exists>out. RAGNode_Process ?reg (rag_node (rag_n a a ty ''openai_embedder'')) inp = Returns out)" for inp
      by (auto simp: RAGNode_Process_def rag_node_def rag_n_def service_functions ProcessorFunc_Process_def
          openai_embedder_def pinecone_search_def gpt4_generator_def
          Embedder_Process_def split: option.splits rag_val.splits gval.splits)
    from embed [of input] show ?thesis
    proof (elim disjE exE)
      fix out assume out: "RAGNode_Process ?reg (rag_node (rag_n a a ty ''openai_embedder'')) input = Returns out"
      from search [of "Some out"] show ?thesis
      proof (elim disjE exE conjE)
        fix out2 assume "RAGNode_Process ?reg (rag_node (rag_n b b ty ''pinecone_search'')) (Some out) = Returns out2"
          "out2 ''query'' = None"
        with gen [of out2] show ?thesis using out by auto
      qed (use out in simp)
    qed simp
  qed
  ultimately show ?thesis by blast
qed

end
