(* ===== verification/SqlSavers.thy ===== *)
theory SqlSavers
  imports Checkpoints Serialization
begin

section \<open>The SQL checkpoint savers (sqlite/checkpoint.go, postgres/checkpoint.go)\<close>

text \<open>
  Both savers of internal/adapters/repository: the SQL text they build, its arguments, and what they
  make of the answers. The database and its driver are a record of functions on the state of the
  database; the JSON encoding of the metadata is a pair of functions. Times are in nanoseconds.
\<close>

subsection \<open>The database\<close>

datatype sql_val = SqlText string | SqlBlob bytes | SqlInt int | SqlTime int | SqlJson string

text \<open>A row scanned into the variables of \<^verbatim>\<open>Load\<close> and \<^verbatim>\<open>List\<close>; the time as the column has it.\<close>

record scanned_row =
  row_ID :: string
  row_GraphID :: string
  row_ThreadID :: string
  row_data :: bytes
  row_metadata :: string
  row_timestamp :: int
  row_Version :: string

text \<open>
  \<open>db_Exec\<close> gives what \<^verbatim>\<open>RowsAffected\<close> says, \<open>db_Query\<close> the rows until
  the result set ends, with the error that ended it early, if any.
\<close>

record 'd sql_db =
  db_Exec :: "string \<Rightarrow> sql_val list \<Rightarrow> 'd \<Rightarrow> (string, string + int) outcome \<times> 'd"
  db_Query :: "string \<Rightarrow> sql_val list \<Rightarrow> 'd \<Rightarrow> (string, sql_val list list \<times> string option) outcome"
  db_Scan :: "sql_val list \<Rightarrow> string + scanned_row"
  db_Close :: "'d \<Rightarrow> string option \<times> 'd"

record metadata_json =
  mj_Marshal :: "Metadata \<Rightarrow> string + string"
  mj_Unmarshal :: "string \<Rightarrow> string + Metadata"

record 'd CheckpointSaver =
  cs_db :: "'d sql_db option"                              \<comment> \<open>\<^verbatim>\<open>db\<close> or \<^verbatim>\<open>pool\<close>, which may be nil\<close>
  cs_serializer :: "gstate option SerializationConfig"
  cs_tableName :: string

definition NewCheckpointSaver :: "'d sql_db option \<Rightarrow> gstate option SerializationConfig \<Rightarrow> 'd CheckpointSaver" where
  "NewCheckpointSaver db sz = \<lparr>cs_db = db, cs_serializer = sz, cs_tableName = ''checkpoints''\<rparr>"

fun isSafeIdent_loop :: "string \<Rightarrow> bool" where
  "isSafeIdent_loop [] = True"
| "isSafeIdent_loop (c # cs) =
     (let n = (of_char c :: nat) in
      if (97 \<le> n \<and> n \<le> 122) \<or> (65 \<le> n \<and> n \<le> 90) \<or> (48 \<le> n \<and> n \<le> 57) \<or> c = CHR ''_'' then isSafeIdent_loop cs
      else False)"

definition isSafeIdent :: "string \<Rightarrow> bool" where
  "isSafeIdent s = (if s = [] then False else isSafeIdent_loop s)"

definition WithTableName :: "string \<Rightarrow> 'd CheckpointSaver \<Rightarrow> 'd CheckpointSaver" where
  "WithTableName name s = (if isSafeIdent name then s\<lparr>cs_tableName := name\<rparr> else s)"

subsection \<open>SQL text\<close>

text \<open>A raw string of several lines, each behind its tabs, with the last line left open.\<close>

definition newline :: string where "newline = [CHR 0x0A]"

definition tabs :: "nat \<Rightarrow> string" where
  "tabs n = replicate n (CHR 0x09)"

definition raw_lines :: "(nat \<times> string) list \<Rightarrow> string" where
  "raw_lines ls = concat (map (\<lambda>(n, l). newline @ tabs n @ l) ls) @ newline @ tabs 1"

definition columns :: string where
  "columns = ''id, graph_id, thread_id, state, metadata, timestamp, version''"

definition lite_save_query :: "string \<Rightarrow> string" where
  "lite_save_query t = raw_lines [(2, ''INSERT OR REPLACE INTO '' @ t @ '' ('' @ columns @ '')''),
     (2, ''VALUES (?, ?, ?, ?, ?, ?, ?)'')]"

definition load_query :: "string \<Rightarrow> string \<Rightarrow> string" where
  "load_query t arg = raw_lines [(2, ''SELECT '' @ columns), (2, ''FROM '' @ t @ '' ''), (2, ''WHERE id = '' @ arg)]"

definition delete_query :: "string \<Rightarrow> string \<Rightarrow> string" where
  "delete_query t arg = ''DELETE FROM '' @ t @ '' WHERE id = '' @ arg"

definition pg_save_query :: "string \<Rightarrow> string" where
  "pg_save_query t = raw_lines [(2, ''INSERT INTO '' @ t @ '' ('' @ columns @ '')''),
     (2, ''VALUES ($1, $2, $3, $4, $5, $6, $7)''), (2, ''ON CONFLICT (id) DO UPDATE SET''),
     (3, ''state = EXCLUDED.state,''), (3, ''metadata = EXCLUDED.metadata,''), (3, ''timestamp = EXCLUDED.timestamp'')]"

definition index_lines :: "string \<Rightarrow> (nat \<times> string) list" where
  "index_lines t = map (\<lambda>c. (2, ''CREATE INDEX IF NOT EXISTS idx_'' @ t @ ''_'' @ c @ '' ON '' @ t @ '' ('' @ c @ '');''))
     [''graph_id'', ''thread_id'', ''timestamp'']"

definition quote1 :: "string \<Rightarrow> string" where
  "quote1 s = [CHR 0x27] @ s @ [CHR 0x27]"

definition lite_create_query :: "string \<Rightarrow> string" where
  "lite_create_query t = raw_lines ([(2, ''CREATE TABLE IF NOT EXISTS '' @ t @ '' (''), (3, ''id TEXT PRIMARY KEY,''),
     (3, ''graph_id TEXT NOT NULL,''), (3, ''thread_id TEXT NOT NULL,''), (3, ''state BLOB NOT NULL,''),
     (3, ''metadata TEXT,''), (3, ''timestamp INTEGER NOT NULL,''), (3, ''version TEXT NOT NULL DEFAULT '' @ quote1 ''1.0''),
     (2, '');''), (2, [])] @ index_lines t)"

definition pg_create_query :: "string \<Rightarrow> string" where
  "pg_create_query t = raw_lines ([(2, ''CREATE TABLE IF NOT EXISTS '' @ t @ '' (''), (3, ''id VARCHAR(255) PRIMARY KEY,''),
     (3, ''graph_id VARCHAR(255) NOT NULL,''), (3, ''thread_id VARCHAR(255) NOT NULL,''), (3, ''state BYTEA NOT NULL,''),
     (3, ''metadata JSONB,''), (3, ''timestamp TIMESTAMP NOT NULL DEFAULT NOW(),''),
     (3, ''version VARCHAR(50) NOT NULL DEFAULT '' @ quote1 ''1.0''), (2, '');''), (2, [])] @ index_lines t)"

text \<open>Whole seconds since the epoch, rounded down.\<close>

definition Unix :: "int \<Rightarrow> int" where
  "Unix t = t div 10 ^ 9"

subsection \<open>The list query\<close>

definition lite_filter :: "bool \<Rightarrow> string \<Rightarrow> sql_val \<Rightarrow> string \<times> sql_val list \<Rightarrow> string \<times> sql_val list" where
  "lite_filter present cond arg qa =
     (case qa of (query, args) \<Rightarrow> if present then (query @ cond @ ''?'', args @ [arg]) else (query, args))"

definition list_prefix :: "string \<Rightarrow> string" where
  "list_prefix t = ''SELECT '' @ columns @ '' FROM '' @ t @ '' WHERE 1=1''"

definition Lite_buildListQuery :: "string \<Rightarrow> Filter \<Rightarrow> string \<times> sql_val list" where
  "Lite_buildListQuery t f =
     (let qa0 = (list_prefix t, []);
          qa1 = lite_filter (fl_GraphID f \<noteq> []) '' AND graph_id = '' (SqlText (fl_GraphID f)) qa0;
          qa2 = lite_filter (fl_ThreadID f \<noteq> []) '' AND thread_id = '' (SqlText (fl_ThreadID f)) qa1;
          qa3 = lite_filter (fl_Since f \<noteq> None) '' AND timestamp > '' (SqlInt (Unix (the (fl_Since f)))) qa2;
          qa4 = lite_filter (fl_Before f \<noteq> None) '' AND timestamp < '' (SqlInt (Unix (the (fl_Before f)))) qa3;
          qa5 = (fst qa4 @ '' ORDER BY timestamp DESC'', snd qa4);
          qa6 = lite_filter (0 < fl_Limit f) '' LIMIT '' (SqlInt (fl_Limit f)) qa5
      in lite_filter (0 < fl_Offset f) '' OFFSET '' (SqlInt (fl_Offset f)) qa6)"

text \<open>The third component is \<^verbatim>\<open>argCount\<close>.\<close>

definition pg_filter :: "bool \<Rightarrow> string \<Rightarrow> sql_val \<Rightarrow> string \<times> sql_val list \<times> int \<Rightarrow> string \<times> sql_val list \<times> int" where
  "pg_filter present cond arg qa =
     (case qa of (query, args, argCount) \<Rightarrow>
        if present then (query @ cond @ ''$'' @ show_int (argCount + 1), args @ [arg], argCount + 1)
        else (query, args, argCount))"

definition Pg_buildListQuery :: "string \<Rightarrow> Filter \<Rightarrow> string \<times> sql_val list" where
  "Pg_buildListQuery t f =
     (let qa0 = (list_prefix t, [], 0);
          qa1 = pg_filter (fl_GraphID f \<noteq> []) '' AND graph_id = '' (SqlText (fl_GraphID f)) qa0;
          qa2 = pg_filter (fl_ThreadID f \<noteq> []) '' AND thread_id = '' (SqlText (fl_ThreadID f)) qa1;
          qa3 = pg_filter (fl_Since f \<noteq> None) '' AND timestamp > '' (SqlTime (the (fl_Since f))) qa2;
          qa4 = pg_filter (fl_Before f \<noteq> None) '' AND timestamp < '' (SqlTime (the (fl_Before f))) qa3;
          qa5 = (fst qa4 @ '' ORDER BY timestamp DESC'', snd qa4);
          qa6 = pg_filter (0 < fl_Limit f) '' LIMIT '' (SqlInt (fl_Limit f)) qa5;
          qa7 = pg_filter (0 < fl_Offset f) '' OFFSET '' (SqlInt (fl_Offset f)) qa6
      in (fst qa7, fst (snd qa7)))"

subsection \<open>Calls of the database\<close>

definition sql_exec :: "'d CheckpointSaver \<Rightarrow> string \<Rightarrow> sql_val list \<Rightarrow> 'd \<Rightarrow> (string, string + int) outcome \<times> 'd" where
  "sql_exec s query args d = (case cs_db s of None \<Rightarrow> (Panics ''nil pointer dereference'', d) | Some db \<Rightarrow> db_Exec db query args d)"

definition sql_query :: "'d CheckpointSaver \<Rightarrow> string \<Rightarrow> sql_val list \<Rightarrow> 'd \<Rightarrow> (string, sql_val list list \<times> string option) outcome" where
  "sql_query s query args d = (case cs_db s of None \<Rightarrow> Panics ''nil pointer dereference'' | Some db \<Rightarrow> db_Query db query args d)"

definition sql_scan :: "'d CheckpointSaver \<Rightarrow> sql_val list \<Rightarrow> string + scanned_row" where
  "sql_scan s row = (case cs_db s of None \<Rightarrow> Inl [] | Some db \<Rightarrow> db_Scan db row)"

text \<open>An error of a library, behind the text of \<^verbatim>\<open>fmt.Errorf\<close>.\<close>

fun wrap_outcome :: "string \<Rightarrow> (string, 'a) outcome \<times> 'd \<Rightarrow> (cp_error, 'a) outcome \<times> 'd" where
  "wrap_outcome what (Returns a, d) = (Returns a, d)"
| "wrap_outcome what (Fails err, d) = (Fails (OtherError (what @ '': '' @ err)), d)"
| "wrap_outcome what (Blocks, d) = (Blocks, d)"
| "wrap_outcome what (Deadlocks, d) = (Deadlocks, d)"
| "wrap_outcome what (Panics e, d) = (Panics e, d)"

subsection \<open>Saving\<close>

text \<open>Both savers first encode the state and the metadata; a nil checkpoint is \<open>None\<close>.\<close>

definition encode_checkpoint ::
  "gstate option Externals \<Rightarrow> metadata_json \<Rightarrow> random \<Rightarrow> 'd CheckpointSaver \<Rightarrow> Checkpoint \<Rightarrow> 'd
   \<Rightarrow> (cp_error, bytes \<times> string) outcome \<times> 'd" where
  "encode_checkpoint x mj rnd s cp d =
     and_then (wrap_outcome ''failed to serialize checkpoint state'' (Serialize x (cs_serializer s) rnd (cp_State cp), d)) (\<lambda>data d1.
       (case mj_Marshal mj (cp_Metadata cp) of
          Inl err \<Rightarrow> (Fails (OtherError (''failed to serialize metadata: '' @ err)), d1)
        | Inr metadataJSON \<Rightarrow> (Returns (data, metadataJSON), d1)))"

definition Lite_Save ::
  "gstate option Externals \<Rightarrow> metadata_json \<Rightarrow> 'd CheckpointSaver \<Rightarrow> random \<Rightarrow> Checkpoint option \<Rightarrow> 'd
   \<Rightarrow> (cp_error, unit) outcome \<times> 'd" where
  "Lite_Save x mj s rnd c d =
     (case c of
        None \<Rightarrow> (Fails ErrInvalidCheckpointID, d)
      | Some cp \<Rightarrow>
          and_then (encode_checkpoint x mj rnd s cp d) (\<lambda>(data, metadataJSON) d1.
          and_then (wrap_outcome ''failed to save checkpoint'' (sql_exec s (lite_save_query (cs_tableName s))
            [SqlText (cp_ID cp), SqlText (cp_GraphID cp), SqlText (cp_ThreadID cp), SqlBlob data, SqlText metadataJSON,
             SqlInt (Unix (cp_Timestamp cp)), SqlText (cp_Version cp)] d1)) (\<lambda>_ d2.
          (Returns (), d2))))"

definition Pg_Save ::
  "gstate option Externals \<Rightarrow> metadata_json \<Rightarrow> 'd CheckpointSaver \<Rightarrow> random \<Rightarrow> Checkpoint option \<Rightarrow> 'd
   \<Rightarrow> (cp_error, unit) outcome \<times> 'd" where
  "Pg_Save x mj s rnd c d =
     (case c of
        None \<Rightarrow> (Fails ErrInvalidCheckpointID, d)
      | Some cp \<Rightarrow>
          and_then (encode_checkpoint x mj rnd s cp d) (\<lambda>(data, metadataJSON) d1.
          and_then (wrap_outcome ''failed to save checkpoint'' (sql_exec s (pg_save_query (cs_tableName s))
            [SqlText (cp_ID cp), SqlText (cp_GraphID cp), SqlText (cp_ThreadID cp), SqlBlob data, SqlJson metadataJSON,
             SqlTime (cp_Timestamp cp), SqlText (cp_Version cp)] d1)) (\<lambda>_ d2.
          (Returns (), d2))))"

subsection \<open>Reading\<close>

text \<open>
  A scanned row back to a checkpoint: the state and the metadata are decoded. \<open>tm\<close> reads the
  time of the column: whole seconds in SQLite, a time in Postgres.
\<close>

definition decode_row ::
  "gstate option Externals \<Rightarrow> metadata_json \<Rightarrow> (int \<Rightarrow> int) \<Rightarrow> 'd CheckpointSaver \<Rightarrow> scanned_row \<Rightarrow> 'd
   \<Rightarrow> (cp_error, Checkpoint) outcome \<times> 'd" where
  "decode_row x mj tm s row d =
     and_then (wrap_outcome ''failed to deserialize checkpoint state'' (Deserialize x (cs_serializer s) (row_data row), d)) (\<lambda>st d1.
       (case mj_Unmarshal mj (row_metadata row) of
          Inl err \<Rightarrow> (Fails (OtherError (''failed to deserialize metadata: '' @ err)), d1)
        | Inr md \<Rightarrow>
            (Returns \<lparr>cp_ID = row_ID row, cp_GraphID = row_GraphID row, cp_ThreadID = row_ThreadID row, cp_State = st,
               cp_Metadata = md, cp_Timestamp = tm (row_timestamp row), cp_Version = row_Version row\<rparr>, d1)))"

text \<open>The query for one row; no row is the sentinel error of the driver.\<close>

definition sql_load ::
  "gstate option Externals \<Rightarrow> metadata_json \<Rightarrow> (int \<Rightarrow> int) \<Rightarrow> string \<Rightarrow> 'd CheckpointSaver \<Rightarrow> string \<Rightarrow> 'd
   \<Rightarrow> (cp_error, Checkpoint) outcome \<times> 'd" where
  "sql_load x mj tm arg s cid d =
     (if cid = [] then (Fails ErrInvalidCheckpointID, d)
      else and_then (wrap_outcome ''failed to load checkpoint'' (sql_query s (load_query (cs_tableName s) arg) [SqlText cid] d, d))
        (\<lambda>(rows, broken) d1.
          (case rows of
             [] \<Rightarrow> (case broken of None \<Rightarrow> (Fails ErrCheckpointNotFound, d1)
                              | Some err \<Rightarrow> (Fails (OtherError (''failed to load checkpoint: '' @ err)), d1))
           | row # _ \<Rightarrow>
               (case sql_scan s row of
                  Inl err \<Rightarrow> (Fails (OtherError (''failed to load checkpoint: '' @ err)), d1)
                | Inr scanned \<Rightarrow> decode_row x mj tm s scanned d1))))"

definition Lite_Load where
  "Lite_Load x mj s cid d = sql_load x mj (\<lambda>t. t * 10 ^ 9) ''?'' s cid d"

definition Pg_Load where
  "Pg_Load x mj s cid d = sql_load x mj (\<lambda>t. t) ''$1'' s cid d"

fun list_rows ::
  "gstate option Externals \<Rightarrow> metadata_json \<Rightarrow> (int \<Rightarrow> int) \<Rightarrow> 'd CheckpointSaver \<Rightarrow> sql_val list list \<Rightarrow> Checkpoint list \<Rightarrow> 'd
   \<Rightarrow> (cp_error, Checkpoint list) outcome \<times> 'd" where
  "list_rows x mj tm s [] checkpoints d = (Returns checkpoints, d)"
| "list_rows x mj tm s (row # rows) checkpoints d =
     (case sql_scan s row of
        Inl err \<Rightarrow> (Fails (OtherError (''failed to scan checkpoint row: '' @ err)), d)
      | Inr scanned \<Rightarrow>
          and_then (decode_row x mj tm s scanned d) (\<lambda>cp d1. list_rows x mj tm s rows (checkpoints @ [cp]) d1))"

text \<open>What ended the rows early is never asked for.\<close>

definition sql_list ::
  "gstate option Externals \<Rightarrow> metadata_json \<Rightarrow> (int \<Rightarrow> int) \<Rightarrow> (string \<times> sql_val list) \<Rightarrow> 'd CheckpointSaver \<Rightarrow> 'd
   \<Rightarrow> (cp_error, Checkpoint list) outcome \<times> 'd" where
  "sql_list x mj tm qa s d =
     and_then (wrap_outcome ''failed to list checkpoints'' (sql_query s (fst qa) (snd qa) d, d)) (\<lambda>(rows, broken) d1.
       list_rows x mj tm s rows [] d1)"

definition Lite_List where
  "Lite_List x mj s f d = sql_list x mj (\<lambda>t. t * 10 ^ 9) (Lite_buildListQuery (cs_tableName s) f) s d"

definition Pg_List where
  "Pg_List x mj s f d = sql_list x mj (\<lambda>t. t) (Pg_buildListQuery (cs_tableName s) f) s d"

subsection \<open>Deleting, creating tables, closing\<close>

definition sql_delete :: "string \<Rightarrow> 'd CheckpointSaver \<Rightarrow> string \<Rightarrow> 'd \<Rightarrow> (cp_error, string + int) outcome \<times> 'd" where
  "sql_delete arg s cid d =
     (if cid = [] then (Fails ErrInvalidCheckpointID, d)
      else wrap_outcome ''failed to delete checkpoint'' (sql_exec s (delete_query (cs_tableName s) arg) [SqlText cid] d))"

definition Lite_Delete :: "'d CheckpointSaver \<Rightarrow> string \<Rightarrow> 'd \<Rightarrow> (cp_error, unit) outcome \<times> 'd" where
  "Lite_Delete s cid d =
     and_then (sql_delete ''?'' s cid d) (\<lambda>result d1.
       (case result of
          Inl err \<Rightarrow> (Fails (OtherError (''failed to get rows affected: '' @ err)), d1)
        | Inr rowsAffected \<Rightarrow> if rowsAffected = 0 then (Fails ErrCheckpointNotFound, d1) else (Returns (), d1)))"

text \<open>The driver of Postgres reports no error with the number; it is zero then.\<close>

definition Pg_Delete :: "'d CheckpointSaver \<Rightarrow> string \<Rightarrow> 'd \<Rightarrow> (cp_error, unit) outcome \<times> 'd" where
  "Pg_Delete s cid d =
     and_then (sql_delete ''$1'' s cid d) (\<lambda>result d1.
       if (case result of Inl _ \<Rightarrow> 0 | Inr n \<Rightarrow> n) = 0 then (Fails ErrCheckpointNotFound, d1) else (Returns (), d1))"

definition create_tables :: "string \<Rightarrow> 'd CheckpointSaver \<Rightarrow> 'd \<Rightarrow> (cp_error, unit) outcome \<times> 'd" where
  "create_tables query s d =
     and_then (wrap_outcome ''failed to create tables'' (sql_exec s query [] d)) (\<lambda>_ d1. (Returns (), d1))"

definition Lite_CreateTables :: "'d CheckpointSaver \<Rightarrow> 'd \<Rightarrow> (cp_error, unit) outcome \<times> 'd" where
  "Lite_CreateTables s d = create_tables (lite_create_query (cs_tableName s)) s d"

definition Pg_CreateTables :: "'d CheckpointSaver \<Rightarrow> 'd \<Rightarrow> (cp_error, unit) outcome \<times> 'd" where
  "Pg_CreateTables s d = create_tables (pg_create_query (cs_tableName s)) s d"

definition Lite_Close :: "'d CheckpointSaver \<Rightarrow> 'd \<Rightarrow> string option \<times> 'd" where
  "Lite_Close s d = (case cs_db s of Some db \<Rightarrow> db_Close db d | None \<Rightarrow> (None, d))"

definition Pg_Close :: "'d CheckpointSaver \<Rightarrow> 'd \<Rightarrow> 'd" where
  "Pg_Close s d = (case cs_db s of Some db \<Rightarrow> snd (db_Close db d) | None \<Rightarrow> d)"

end
