(* ===== verification/SqlProps.thy ===== *)
theory SqlProps
  imports SqlSavers
begin

section \<open>Properties of the SQL savers\<close>

text \<open>
  The SQL text of the two savers against each other, and what they keep of a checkpoint: SQLite is a
  store (the contract \<open>checkpoint_store\<close>), Postgres keeps the identity of the first save.
\<close>

subsection \<open>The list query\<close>

text \<open>The conditions of a filter and the clauses of a page, each with the argument of its placeholder.\<close>

definition when_set :: "bool \<Rightarrow> 'a \<Rightarrow> 'a list" where
  "when_set b a = (if b then [a] else [])"

definition conditions :: "(int \<Rightarrow> sql_val) \<Rightarrow> Filter \<Rightarrow> (string \<times> sql_val) list" where
  "conditions time f =
     when_set (fl_GraphID f \<noteq> []) ('' AND graph_id = '', SqlText (fl_GraphID f))
     @ when_set (fl_ThreadID f \<noteq> []) ('' AND thread_id = '', SqlText (fl_ThreadID f))
     @ when_set (fl_Since f \<noteq> None) ('' AND timestamp > '', time (the (fl_Since f)))
     @ when_set (fl_Before f \<noteq> None) ('' AND timestamp < '', time (the (fl_Before f)))"

definition page_clauses :: "Filter \<Rightarrow> (string \<times> sql_val) list" where
  "page_clauses f = when_set (0 < fl_Limit f) ('' LIMIT '', SqlInt (fl_Limit f))
     @ when_set (0 < fl_Offset f) ('' OFFSET '', SqlInt (fl_Offset f))"

text \<open>The text of clauses whose placeholders are numbered from \<open>i\<close>.\<close>

fun numbered :: "int \<Rightarrow> (string \<times> sql_val) list \<Rightarrow> string" where
  "numbered i [] = []"
| "numbered i ((cond, arg) # cs) = cond @ ''$'' @ show_int i @ numbered (i + 1) cs"

definition marked :: "(string \<times> sql_val) list \<Rightarrow> string" where
  "marked cs = concat (map (\<lambda>(cond, arg). cond @ ''?'') cs)"

definition seconds_arg :: "int \<Rightarrow> sql_val" where
  "seconds_arg t = SqlInt (Unix t)"

lemma lite_filter_marked:
  "lite_filter b c a (q, args) = (q @ marked (when_set b (c, a)), args @ map snd (when_set b (c, a)))"
  by (simp add: lite_filter_def when_set_def marked_def)

lemma marked_append: "marked (xs @ ys) = marked xs @ marked ys"
  by (simp add: marked_def)

lemma lite_query:
  "Lite_buildListQuery t f =
     (list_prefix t @ marked (conditions seconds_arg f) @ '' ORDER BY timestamp DESC'' @ marked (page_clauses f),
      map snd (conditions seconds_arg f @ page_clauses f))"
  unfolding Lite_buildListQuery_def Let_def lite_filter_marked fst_conv snd_conv conditions_def page_clauses_def
    marked_append map_append append_assoc append_Nil seconds_arg_def ..

lemma numbered_append: "numbered i (xs @ ys) = numbered i xs @ numbered (i + int (length xs)) ys"
  by (induction i xs rule: numbered.induct) (simp_all add: ac_simps)

lemma pg_filter_numbered:
  "pg_filter b c a (q, args, n) =
     (q @ numbered (n + 1) (when_set b (c, a)), args @ map snd (when_set b (c, a)), n + int (length (when_set b (c, a))))"
  by (simp add: pg_filter_def when_set_def)

lemma pg_query:
  "Pg_buildListQuery t f =
     (list_prefix t @ numbered 1 (conditions SqlTime f) @ '' ORDER BY timestamp DESC''
        @ numbered (1 + int (length (conditions SqlTime f))) (page_clauses f),
      map snd (conditions SqlTime f @ page_clauses f))"
  unfolding Pg_buildListQuery_def Let_def pg_filter_numbered fst_conv snd_conv conditions_def page_clauses_def
    numbered_append map_append length_append append_assoc append_Nil of_nat_add add.assoc add_0
  by (simp only: ac_simps of_nat_add)

definition ident_char :: "char \<Rightarrow> bool" where
  "ident_char c \<longleftrightarrow> (of_char c :: nat) \<in> {48..57} \<union> {65..90} \<union> {97..122} \<union> {of_char (CHR ''_'')}"

lemma isSafeIdent_chars: "isSafeIdent s \<Longrightarrow> s \<noteq> [] \<and> CHR ''?'' \<notin> set s"
proof -
  have "isSafeIdent_loop s \<Longrightarrow> CHR ''?'' \<notin> set s" by (induction s) (auto simp: Let_def split: if_splits)
  then show "isSafeIdent s \<Longrightarrow> s \<noteq> [] \<and> CHR ''?'' \<notin> set s" by (auto simp: isSafeIdent_def split: if_splits)
qed

lemma named_safe:
  "isSafeIdent (cs_tableName s) \<Longrightarrow> isSafeIdent (cs_tableName (fold WithTableName names s))"
  by (induction names arbitrary: s) (simp_all add: WithTableName_def)

lemma new_named_safe: "isSafeIdent (cs_tableName (fold WithTableName names (NewCheckpointSaver db sz)))"
  by (rule named_safe) (simp add: NewCheckpointSaver_def isSafeIdent_def Let_def)

lemma marked_count: "\<forall>c\<in>set cs. CHR ''?'' \<notin> set (fst c) \<Longrightarrow> count_list (marked cs) (CHR ''?'') = length cs"
  by (induction cs) (auto simp: marked_def count_list_0_iff split: prod.splits)

lemma conditions_text: "c \<in> set (conditions tm f @ page_clauses f) \<Longrightarrow> CHR ''?'' \<notin> set (fst c)"
  by (auto simp: conditions_def page_clauses_def when_set_def split: if_splits)

text \<open>
  C25: the table name of a SQLite saver is an identifier, whatever names it was given: a name with
  another character than letters, digits and underscores is ignored, so no part of a name reaches the
  SQL text as anything else. Every list query then has as many placeholders as arguments.
\<close>

theorem table_name_is_identifier:
  "isSafeIdent (cs_tableName (fold WithTableName names (NewCheckpointSaver db sz)))
   \<and> list_all ident_char (cs_tableName (fold WithTableName names (NewCheckpointSaver db sz)))
   \<and> count_list (fst (Lite_buildListQuery (cs_tableName (fold WithTableName names (NewCheckpointSaver db sz))) f)) (CHR ''?'')
       = length (snd (Lite_buildListQuery (cs_tableName (fold WithTableName names (NewCheckpointSaver db sz))) f))"
proof -
  define t where "t = cs_tableName (fold WithTableName names (NewCheckpointSaver db sz))"
  have safe: "isSafeIdent t" unfolding t_def by (rule new_named_safe)
  have q: "CHR ''?'' \<notin> set (list_prefix t)" using isSafeIdent_chars [OF safe] by (simp add: list_prefix_def columns_def)
  have "count_list (marked (conditions seconds_arg f)) (CHR ''?'') = length (conditions seconds_arg f)"
    "count_list (marked (page_clauses f)) (CHR ''?'') = length (page_clauses f)"
    using conditions_text by (intro marked_count; force)+
  moreover have "count_list (list_prefix t) (CHR ''?'') = 0" using q by (simp add: count_list_0_iff)
  moreover have "count_list '' ORDER BY timestamp DESC'' (CHR ''?'') = 0" by simp
  ultimately have count: "count_list (fst (Lite_buildListQuery t f)) (CHR ''?'') = length (snd (Lite_buildListQuery t f))"
    unfolding lite_query fst_conv snd_conv count_list_append by simp
  have "list_all ident_char t"
  proof -
    have "isSafeIdent_loop s \<Longrightarrow> list_all ident_char s" for s
    proof (induction s)
      case (Cons c s)
      then show ?case by (auto simp: Let_def ident_char_def split: if_splits)
    qed simp
    with safe show ?thesis by (simp add: isSafeIdent_def split: if_splits)
  qed
  with safe count show ?thesis unfolding t_def by blast
qed


text \<open>
  both savers ask the same query: the same conditions in the same order, newest first, then limit
  and offset. SQLite's placeholders are question marks, Postgres's are numbered from one in the order
  of the arguments; times are whole seconds in SQLite and times in Postgres.
\<close>

theorem list_queries_agree:
  "Lite_buildListQuery t f =
     (list_prefix t @ marked (conditions seconds_arg f) @ '' ORDER BY timestamp DESC'' @ marked (page_clauses f),
      map snd (conditions seconds_arg f @ page_clauses f))
   \<and> Pg_buildListQuery t f =
     (list_prefix t @ numbered 1 (conditions SqlTime f) @ '' ORDER BY timestamp DESC''
        @ numbered (1 + int (length (conditions SqlTime f))) (page_clauses f),
      map snd (conditions SqlTime f @ page_clauses f))
   \<and> map fst (conditions seconds_arg f) = map fst (conditions SqlTime f)"
  by (intro conjI lite_query pg_query) (simp add: conditions_def when_set_def)

subsection \<open>What the databases promise\<close>

text \<open>The row a save writes, with the metadata and the time as the column keeps them.\<close>

definition written_row :: "(string \<Rightarrow> string) \<Rightarrow> (int \<Rightarrow> int) \<Rightarrow> Checkpoint \<Rightarrow> bytes \<Rightarrow> string \<Rightarrow> scanned_row" where
  "written_row jb tm cp data md = \<lparr>row_ID = cp_ID cp, row_GraphID = cp_GraphID cp, row_ThreadID = cp_ThreadID cp,
     row_data = data, row_metadata = jb md, row_timestamp = tm (cp_Timestamp cp), row_Version = cp_Version cp\<rparr>"

text \<open>
  \<open>rows d\<close> is the table of the saver in the state \<open>d\<close>: the row under each primary key. A statement
  that fails changes nothing; a query for a key gives the row of the key at most.
\<close>

definition answers_key :: "'d sql_db \<Rightarrow> ('d \<Rightarrow> string \<rightharpoonup> scanned_row) \<Rightarrow> string \<Rightarrow> bool" where
  "answers_key db rows query \<longleftrightarrow>
     (\<forall>cid d rs broken row r. db_Query db query [SqlText cid] d = Returns (rs, broken) \<longrightarrow> row \<in> set rs
        \<longrightarrow> db_Scan db row = Inr r \<longrightarrow> rows d cid = Some r)"

definition removes_key :: "'d sql_db \<Rightarrow> ('d \<Rightarrow> string \<rightharpoonup> scanned_row) \<Rightarrow> string \<Rightarrow> bool" where
  "removes_key db rows query \<longleftrightarrow>
     (\<forall>cid d. case db_Exec db query [SqlText cid] d of
        (Returns (Inr n), d') \<Rightarrow> rows d' = (if n = 0 then rows d else (rows d)(cid := None))
      | (Returns (Inl _), d') \<Rightarrow> rows d' \<subseteq>\<^sub>m rows d
      | (_, d') \<Rightarrow> rows d' = rows d)"

definition writes_row ::
  "'d sql_db \<Rightarrow> ('d \<Rightarrow> string \<rightharpoonup> scanned_row) \<Rightarrow> string \<Rightarrow> (Checkpoint \<Rightarrow> bytes \<Rightarrow> string \<Rightarrow> sql_val list)
   \<Rightarrow> (Checkpoint \<Rightarrow> bytes \<Rightarrow> string \<Rightarrow> scanned_row option \<Rightarrow> scanned_row) \<Rightarrow> bool" where
  "writes_row db rows query args row \<longleftrightarrow>
     (\<forall>cp data md d. case db_Exec db query (args cp data md) d of
        (Returns _, d') \<Rightarrow> rows d' = (rows d)(cp_ID cp \<mapsto> row cp data md (rows d (cp_ID cp)))
      | (_, d') \<Rightarrow> rows d' = rows d)"

lemma writes_rowD:
  assumes "writes_row db rows q args row" and "db_Exec db q (args cp data md) d = (Returns n, d')"
  shows "rows d' = (rows d)(cp_ID cp \<mapsto> row cp data md (rows d (cp_ID cp)))"
proof -
  have "case db_Exec db q (args cp data md) d of
        (Returns _, d') \<Rightarrow> rows d' = (rows d)(cp_ID cp \<mapsto> row cp data md (rows d (cp_ID cp)))
      | (_, d') \<Rightarrow> rows d' = rows d" 
    by (rule assms(1) [unfolded writes_row_def, THEN spec, THEN spec, THEN spec, THEN spec])
  with assms(2) show ?thesis by simp
qed

definition lite_args :: "Checkpoint \<Rightarrow> bytes \<Rightarrow> string \<Rightarrow> sql_val list" where
  "lite_args cp data md = [SqlText (cp_ID cp), SqlText (cp_GraphID cp), SqlText (cp_ThreadID cp), SqlBlob data, SqlText md,
     SqlInt (Unix (cp_Timestamp cp)), SqlText (cp_Version cp)]"

definition pg_args :: "Checkpoint \<Rightarrow> bytes \<Rightarrow> string \<Rightarrow> sql_val list" where
  "pg_args cp data md = [SqlText (cp_ID cp), SqlText (cp_GraphID cp), SqlText (cp_ThreadID cp), SqlBlob data, SqlJson md,
     SqlTime (cp_Timestamp cp), SqlText (cp_Version cp)]"

text \<open>\<^verbatim>\<open>INSERT OR REPLACE\<close> replaces the row; SQLite keeps the text and the number.\<close>

definition lite_lawful :: "'d sql_db \<Rightarrow> ('d \<Rightarrow> string \<rightharpoonup> scanned_row) \<Rightarrow> string \<Rightarrow> bool" where
  "lite_lawful db rows t \<longleftrightarrow>
     writes_row db rows (lite_save_query t) lite_args (\<lambda>cp data md _. written_row (\<lambda>j. j) Unix cp data md)
     \<and> answers_key db rows (load_query t ''?'') \<and> removes_key db rows (delete_query t ''?'')"

text \<open>
  \<^verbatim>\<open>ON CONFLICT (id) DO UPDATE\<close> sets the named columns of the old row. \<open>jb\<close> is what a JSONB
  column makes of a text, \<open>pt\<close> what a TIMESTAMP column keeps of a time.
\<close>

definition upserted_row :: "(string \<Rightarrow> string) \<Rightarrow> (int \<Rightarrow> int) \<Rightarrow> Checkpoint \<Rightarrow> bytes \<Rightarrow> string \<Rightarrow> scanned_row option \<Rightarrow> scanned_row" where
  "upserted_row jb pt cp data md old =
     (case old of
        None \<Rightarrow> written_row jb pt cp data md
      | Some r \<Rightarrow> r\<lparr>row_data := data, row_metadata := jb md, row_timestamp := pt (cp_Timestamp cp)\<rparr>)"

definition pg_lawful ::
  "'d sql_db \<Rightarrow> ('d \<Rightarrow> string \<rightharpoonup> scanned_row) \<Rightarrow> (string \<Rightarrow> string) \<Rightarrow> (int \<Rightarrow> int) \<Rightarrow> string \<Rightarrow> bool" where
  "pg_lawful db rows jb pt t \<longleftrightarrow>
     writes_row db rows (pg_save_query t) pg_args (upserted_row jb pt)
     \<and> answers_key db rows (load_query t ''$1'') \<and> removes_key db rows (delete_query t ''$1'')"

text \<open>What is left of a state and of metadata that were encoded and decoded.\<close>

definition state_survives :: "gstate option Externals \<Rightarrow> gstate option SerializationConfig \<Rightarrow> (gstate option \<Rightarrow> gstate option) \<Rightarrow> bool" where
  "state_survives x sz sview \<longleftrightarrow> lawful x
     \<and> (\<forall>codec st data. szr_Codec sz = Some codec \<longrightarrow> cd_Encode codec st = Inr data \<longrightarrow> cd_Decode codec data = Inr (sview st))"

definition metadata_survives :: "metadata_json \<Rightarrow> (string \<Rightarrow> string) \<Rightarrow> (Metadata \<Rightarrow> Metadata) \<Rightarrow> bool" where
  "metadata_survives mj jb mview \<longleftrightarrow> (\<forall>m j. mj_Marshal mj m = Inr j \<longrightarrow> mj_Unmarshal mj (jb j) = Inr (mview m))"

definition stored_view :: "(gstate option \<Rightarrow> gstate option) \<Rightarrow> (Metadata \<Rightarrow> Metadata) \<Rightarrow> (int \<Rightarrow> int) \<Rightarrow> Checkpoint \<Rightarrow> Checkpoint" where
  "stored_view sview mview tm cp =
     cp\<lparr>cp_State := sview (cp_State cp), cp_Metadata := mview (cp_Metadata cp), cp_Timestamp := tm (cp_Timestamp cp)\<rparr>"

text \<open>The checkpoints in the table.\<close>

definition table_content ::
  "gstate option Externals \<Rightarrow> metadata_json \<Rightarrow> (int \<Rightarrow> int) \<Rightarrow> 'd CheckpointSaver \<Rightarrow> ('d \<Rightarrow> string \<rightharpoonup> scanned_row) \<Rightarrow> 'd \<Rightarrow> string \<rightharpoonup> Checkpoint" where
  "table_content x mj tm s rows d cid =
     (case rows d cid of None \<Rightarrow> None | Some r \<Rightarrow> (case fst (decode_row x mj tm s r d) of Returns c \<Rightarrow> Some c | _ \<Rightarrow> None))"


subsection \<open>The SQLite saver is a store\<close>

lemma decode_row_at: "decode_row x mj tm s r d = (fst (decode_row x mj tm s r d0), d)"
  by (cases "Deserialize x (cs_serializer s) (row_data r)") (auto simp: decode_row_def split: sum.splits)

lemma encode_state: "encode_checkpoint x mj rnd s cp d = (r, d1) \<Longrightarrow> d1 = d"
  by (cases "Serialize x (cs_serializer s) rnd (cp_State cp)") (auto simp: encode_checkpoint_def split: sum.splits)

lemma encode_decode:
  assumes "encode_checkpoint x mj rnd s cp d = (Returns (data, md), d1)" and "state_survives x (cs_serializer s) sview"
    and "metadata_survives mj jb mview" and "row_data r = data" and "row_metadata r = jb md"
  shows "fst (decode_row x mj tm s r d2) = Returns \<lparr>cp_ID = row_ID r, cp_GraphID = row_GraphID r,
    cp_ThreadID = row_ThreadID r, cp_State = sview (cp_State cp), cp_Metadata = mview (cp_Metadata cp),
    cp_Timestamp = tm (row_timestamp r), cp_Version = row_Version r\<rparr>"
proof -
  from assms(1) have ser: "Serialize x (cs_serializer s) rnd (cp_State cp) = Returns data" and md: "mj_Marshal mj (cp_Metadata cp) = Inr md"
    by (cases "Serialize x (cs_serializer s) rnd (cp_State cp)"; auto simp: encode_checkpoint_def split: sum.splits)+
  from assms(2) have "lawful x" by (simp add: state_survives_def)
  from serialize_round_trip [OF this ser] assms(2)
  have "Deserialize x (cs_serializer s) data = Returns (sview (cp_State cp))" by (auto simp: state_survives_def)
  moreover from assms(3) md have "mj_Unmarshal mj (jb md) = Inr (mview (cp_Metadata cp))" by (simp add: metadata_survives_def)
  ultimately show ?thesis using assms(4,5) by (simp add: decode_row_def)
qed

lemma Lite_Save_steps:
  assumes "Lite_Save x mj s rnd (Some cp) d = (r, d')" and "cs_db s = Some db" and "lite_lawful db rows (cs_tableName s)"
  shows "(case r of
      Returns _ \<Rightarrow> \<exists>data md. encode_checkpoint x mj rnd s cp d = (Returns (data, md), d)
         \<and> rows d' = (rows d)(cp_ID cp \<mapsto> written_row (\<lambda>j. j) Unix cp data md)
    | _ \<Rightarrow> rows d' = rows d)"
proof (cases "encode_checkpoint x mj rnd s cp d")
  case (Pair e d1)
  show ?thesis
  proof (cases e)
    case (Returns dm)
    obtain data md where dm: "dm = (data, md)" by (cases dm)
    obtain q d2 where q: "db_Exec db (lite_save_query (cs_tableName s)) (lite_args cp data md) d = (q, d2)" by fastforce
    moreover from encode_state [OF Pair] have "d1 = d" .
    ultimately show ?thesis using assms Pair Returns dm
      by (cases q) (auto simp: Lite_Save_def sql_exec_def lite_args_def lite_lawful_def writes_row_def
          dest!: spec [where x = cp] spec [where x = data] spec [where x = md] spec [where x = d])
  qed (use assms Pair encode_state [OF Pair] in \<open>auto simp: Lite_Save_def\<close>)
qed

lemma sql_load_returns:
  assumes "sql_load x mj tm arg s cid d = (Returns c, d')" and "cs_db s = Some db"
    and "answers_key db rows (load_query (cs_tableName s) arg)"
  shows "table_content x mj tm s rows d cid = Some c \<and> d' = d"
proof -
  let ?q = "db_Query db (load_query (cs_tableName s) arg) [SqlText cid] d"
  from assms(1,2) obtain rs broken where q: "?q = Returns (rs, broken)"
    by (cases ?q) (auto simp: sql_load_def sql_query_def split: if_splits)
  with assms(1,2) obtain row rest where rs: "rs = row # rest"
    by (cases rs) (auto simp: sql_load_def sql_query_def split: if_splits option.splits)
  with assms(1,2) q obtain r where r: "db_Scan db row = Inr r"
    by (cases "db_Scan db row") (auto simp: sql_load_def sql_query_def sql_scan_def split: if_splits)
  with assms(1,2) q rs have dec: "decode_row x mj tm s r d = (Returns c, d')"
    by (auto simp: sql_load_def sql_query_def sql_scan_def split: if_splits)
  from q rs have "db_Query db (load_query (cs_tableName s) arg) [SqlText cid] d = Returns (row # rest, broken)" by simp
  with assms(3) r have "rows d cid = Some r" unfolding answers_key_def by (meson list.set_intros(1))
  with dec decode_row_at [of x mj tm s r d d] show ?thesis by (simp add: table_content_def)
qed

lemma sql_load_state: "sql_load x mj tm arg s cid d = (r, d') \<Longrightarrow> d' = d"
proof -
  have "snd (sql_load x mj tm arg s cid d) = d"
  proof (cases "sql_query s (load_query (cs_tableName s) arg) [SqlText cid] d")
    case (Returns rb)
    have "snd (decode_row x mj tm s sc d) = d" for sc using decode_row_at [of x mj tm s sc d d] by (metis snd_conv)
    with Returns show ?thesis
      by (cases rb; cases "fst rb") (auto simp: sql_load_def split: sum.splits option.splits)
  qed (auto simp: sql_load_def)
  then show "sql_load x mj tm arg s cid d = (r, d') \<Longrightarrow> d' = d" by simp
qed

lemma Lite_Delete_steps:
  assumes "Lite_Delete s cid d = (r, d')" and "cs_db s = Some db" and "removes_key db rows (delete_query (cs_tableName s) ''?'')"
  shows "rows d' \<subseteq>\<^sub>m rows d \<and> (r = Returns () \<longrightarrow> rows d' = (rows d)(cid := None))"
proof (cases "cid = []")
  case False
  obtain q d1 where q: "db_Exec db (delete_query (cs_tableName s) ''?'') [SqlText cid] d = (q, d1)" by fastforce
  with assms(3) have "case q of Returns (Inr n) \<Rightarrow> rows d1 = (if n = 0 then rows d else (rows d)(cid := None))
      | Returns (Inl _) \<Rightarrow> rows d1 \<subseteq>\<^sub>m rows d | _ \<Rightarrow> rows d1 = rows d"
    unfolding removes_key_def by (metis (no_types, lifting) case_prod_conv)
  with assms(1,2) q False show ?thesis
    by (cases q) (auto simp: Lite_Delete_def sql_delete_def sql_exec_def map_le_def split: sum.splits if_splits)
qed (use assms(1) in \<open>auto simp: Lite_Delete_def sql_delete_def\<close>)

lemma content_update:
  assumes "rows d' = (rows d)(cid := r)"
  shows "table_content x mj tm s rows d' = (table_content x mj tm s rows d)
    (cid := (case r of None \<Rightarrow> None | Some r \<Rightarrow> (case fst (decode_row x mj tm s r d) of Returns c \<Rightarrow> Some c | _ \<Rightarrow> None)))"
  using assms by (auto simp: table_content_def fun_eq_iff decode_row_at [of x mj tm s _ d' d] split: option.split)

lemma content_le:
  "rows d' \<subseteq>\<^sub>m rows d \<Longrightarrow> table_content x mj tm s rows d' \<subseteq>\<^sub>m table_content x mj tm s rows d"
  by (auto simp: table_content_def map_le_def decode_row_at [of x mj tm s _ d' d] dom_def split: option.splits)


definition lite_view :: "(gstate option \<Rightarrow> gstate option) \<Rightarrow> (Metadata \<Rightarrow> Metadata) \<Rightarrow> Checkpoint \<Rightarrow> Checkpoint" where
  "lite_view sview mview = stored_view sview mview (\<lambda>t. Unix t * 10 ^ 9)"

lemma lite_store:
  assumes db: "cs_db s = Some db" and law: "lite_lawful db rows (cs_tableName s)"
    and st: "state_survives x (cs_serializer s) sview" and md: "metadata_survives mj (\<lambda>j. j) mview"
  shows "checkpoint_store (\<lambda>rnd c. Lite_Save x mj s rnd (Some c)) (\<lambda>_. Lite_Load x mj s) (\<lambda>_. Lite_Delete s)
    (table_content x mj (\<lambda>t. t * 10 ^ 9) s rows) (lite_view sview mview) (\<lambda>_. True)"
proof
  fix d env c d' assume save: "Lite_Save x mj s env (Some c) d = (Returns (), d')"
  from Lite_Save_steps [OF save db law] obtain data md'
    where enc: "encode_checkpoint x mj env s c d = (Returns (data, md'), d)"
      and rows: "rows d' = (rows d)(cp_ID c \<mapsto> written_row (\<lambda>j. j) Unix c data md')" by auto
  from content_update [where rows = rows, OF rows] encode_decode [OF enc st md]
  show "table_content x mj (\<lambda>t. t * 10 ^ 9) s rows d' = (table_content x mj (\<lambda>t. t * 10 ^ 9) s rows d)(cp_ID c \<mapsto> lite_view sview mview c)"
    by (cases c) (simp add: written_row_def lite_view_def stored_view_def)
next
  fix d env c d' err assume "Lite_Save x mj s env (Some c) d = (Fails err, d')"
  from Lite_Save_steps [OF this db law]
  show "table_content x mj (\<lambda>t. t * 10 ^ 9) s rows d' \<subseteq>\<^sub>m table_content x mj (\<lambda>t. t * 10 ^ 9) s rows d"
    by (intro content_le) simp
next
  fix d cid c d' assume "Lite_Load x mj s cid d = (Returns c, d')"
  from sql_load_returns [where rows = rows, OF this [unfolded Lite_Load_def] db] law
  show "table_content x mj (\<lambda>t. t * 10 ^ 9) s rows d cid = Some c
    \<and> table_content x mj (\<lambda>t. t * 10 ^ 9) s rows d' = table_content x mj (\<lambda>t. t * 10 ^ 9) s rows d"
    by (simp add: lite_lawful_def)
next
  fix d cid d' err assume "Lite_Load x mj s cid d = (Fails err, d')"
  from sql_load_state [OF this [unfolded Lite_Load_def]]
  show "table_content x mj (\<lambda>t. t * 10 ^ 9) s rows d' \<subseteq>\<^sub>m table_content x mj (\<lambda>t. t * 10 ^ 9) s rows d" by simp
next
  fix d cid d' assume "Lite_Delete s cid d = (Returns (), d')"
  from Lite_Delete_steps [where rows = rows, OF this db] law have "rows d' = (rows d)(cid := None)" by (simp add: lite_lawful_def)
  from content_update [where rows = rows, OF this]
  show "table_content x mj (\<lambda>t. t * 10 ^ 9) s rows d' = (table_content x mj (\<lambda>t. t * 10 ^ 9) s rows d)(cid := None)" by simp
next
  fix d cid d' err assume "Lite_Delete s cid d = (Fails err, d')"
  from Lite_Delete_steps [where rows = rows, OF this db] law have "rows d' \<subseteq>\<^sub>m rows d" by (simp add: lite_lawful_def)
  then show "table_content x mj (\<lambda>t. t * 10 ^ 9) s rows d' \<subseteq>\<^sub>m table_content x mj (\<lambda>t. t * 10 ^ 9) s rows d" by (rule content_le)
qed simp_all

subsection \<open>A database for the witnesses\<close>

fun text_of :: "sql_val \<Rightarrow> string" where
  "text_of (SqlText s) = s"
| "text_of (SqlJson s) = s"
| "text_of _ = []"

fun time_of :: "sql_val \<Rightarrow> int" where
  "time_of (SqlInt n) = n"
| "time_of (SqlTime n) = n"
| "time_of _ = 0"

fun blob_of :: "sql_val \<Rightarrow> bytes" where
  "blob_of (SqlBlob b) = b"
| "blob_of _ = []"

definition row_values :: "sql_val list \<Rightarrow> scanned_row option" where
  "row_values cells = (case cells of
       [i, g, th, b, m, t, v] \<Rightarrow>
         Some \<lparr>row_ID = text_of i, row_GraphID = text_of g, row_ThreadID = text_of th, row_data = blob_of b,
           row_metadata = text_of m, row_timestamp = time_of t, row_Version = text_of v\<rparr>
     | _ \<Rightarrow> None)"

definition row_cells :: "scanned_row \<Rightarrow> sql_val list" where
  "row_cells r = [SqlText (row_ID r), SqlText (row_GraphID r), SqlText (row_ThreadID r), SqlBlob (row_data r),
     SqlText (row_metadata r), SqlInt (row_timestamp r), SqlText (row_Version r)]"

definition table_db :: "(scanned_row \<Rightarrow> scanned_row option \<Rightarrow> scanned_row) \<Rightarrow> (string \<Rightarrow> scanned_row option) sql_db" where
  "table_db put = \<lparr>
     db_Exec = (\<lambda>_ args d. case row_values args of
         Some r \<Rightarrow> (Returns (Inr 1), d(row_ID r \<mapsto> put r (d (row_ID r))))
       | None \<Rightarrow> (case args of
             [SqlText cid] \<Rightarrow> (Returns (Inr (if d cid = None then 0 else 1)), d(cid := None))
           | _ \<Rightarrow> (Fails ''syntax error'', d))),
     db_Query = (\<lambda>_ args d. case args of
         [SqlText cid] \<Rightarrow> Returns (case d cid of None \<Rightarrow> [] | Some r \<Rightarrow> [row_cells r], None)
       | _ \<Rightarrow> Fails ''syntax error''),
     db_Scan = (\<lambda>cells. case row_values cells of Some r \<Rightarrow> Inr r | None \<Rightarrow> Inl ''wrong columns''),
     db_Close = (\<lambda>d. (None, d))\<rparr>"

definition update_columns :: "scanned_row \<Rightarrow> scanned_row option \<Rightarrow> scanned_row" where
  "update_columns r old = (case old of None \<Rightarrow> r
     | Some o' \<Rightarrow> o'\<lparr>row_data := row_data r, row_metadata := row_metadata r, row_timestamp := row_timestamp r\<rparr>)"

lemma row_values_cells: "row_values (row_cells r) = Some r"
  by (simp add: row_values_def row_cells_def)

lemma table_db_reads: "answers_key (table_db put) (\<lambda>d. d) q"
  by (auto simp: answers_key_def table_db_def row_values_cells split: option.splits)

lemma table_db_removes: "removes_key (table_db put) (\<lambda>d. d) q"
  by (auto simp: removes_key_def table_db_def row_values_def fun_eq_iff)

lemma table_db_lite: "lite_lawful (table_db (\<lambda>r _. r)) (\<lambda>d. d) t"
  by (simp add: lite_lawful_def table_db_reads table_db_removes) (simp add: writes_row_def table_db_def row_values_def lite_args_def written_row_def)

lemma table_db_pg: "pg_lawful (table_db update_columns) (\<lambda>d. d) (\<lambda>j. j) (\<lambda>t. t) t"
  by (simp add: pg_lawful_def table_db_reads table_db_removes)
    (simp add: writes_row_def table_db_def row_values_def pg_args_def written_row_def upserted_row_def update_columns_def split: option.splits)

definition some_externals :: "gstate option Externals" where
  "some_externals = \<lparr>x_json_marshal = (\<lambda>st. Inr [if st = None then 0 else 1]),
     x_json_unmarshal = (\<lambda>d. Inr (if d = [0] then None else Some Map.empty)),
     x_msgpack_marshal = (\<lambda>st. Inl ''none''), x_msgpack_unmarshal = (\<lambda>d. Inl ''none''),
     x_gzip_write = Inr, x_gzip_read = Inr, x_zstd_encode = Inr, x_zstd_decode = Inr,
     x_new_cipher = (\<lambda>k. None), x_nonce_size = 0, x_seal = (\<lambda>k n d. d), x_open = (\<lambda>k n d. Inr d)\<rparr>"

definition some_serializer :: "gstate option SerializationConfig" where
  "some_serializer = \<lparr>szr_Codec = Some (NewJSONCodec some_externals), szr_Compression = ''none'', szr_EncryptKey = []\<rparr>"

definition emptied :: "gstate option \<Rightarrow> gstate option" where
  "emptied st = (if st = None then None else Some Map.empty)"

lemma some_survives: "state_survives some_externals some_serializer emptied"
  by (auto simp: state_survives_def some_externals_def some_serializer_def lawful_def NewJSONCodec_def emptied_def)

definition no_metadata :: Metadata where
  "no_metadata = \<lparr>md_Step = 0, md_Source = [], md_Writes = None, md_UserID = [], md_CreatedBy = [], md_Tags = []\<rparr>"

definition some_metadata_json :: metadata_json where
  "some_metadata_json = \<lparr>mj_Marshal = (\<lambda>_. Inr ''{}''), mj_Unmarshal = (\<lambda>_. Inr no_metadata)\<rparr>"

lemma some_metadata_survives: "metadata_survives some_metadata_json jb (\<lambda>_. no_metadata)"
  by (simp add: metadata_survives_def some_metadata_json_def)

definition some_point :: "string \<Rightarrow> gstate option \<Rightarrow> Checkpoint" where
  "some_point g st = \<lparr>cp_ID = ''c'', cp_GraphID = g, cp_ThreadID = ''t'', cp_State = st,
     cp_Metadata = no_metadata, cp_Timestamp = 7500000000, cp_Version = ''1.0''\<rparr>"

lemma some_encode:
  "cs_serializer s = some_serializer \<Longrightarrow> encode_checkpoint some_externals some_metadata_json rnd s cp d
     = (Returns ([if cp_State cp = None then 0 else 1], ''{}''), d)"
  by (simp add: encode_checkpoint_def Serialize_def some_serializer_def NewJSONCodec_def some_externals_def compress_def
      CompressionNone_def some_metadata_json_def)

lemma some_decode:
  "cs_serializer s = some_serializer \<Longrightarrow> decode_row some_externals some_metadata_json tm s r d
     = (Returns \<lparr>cp_ID = row_ID r, cp_GraphID = row_GraphID r, cp_ThreadID = row_ThreadID r,
          cp_State = (if row_data r = [0] then None else Some Map.empty), cp_Metadata = no_metadata,
          cp_Timestamp = tm (row_timestamp r), cp_Version = row_Version r\<rparr>, d)"
  by (simp add: decode_row_def Deserialize_def some_serializer_def NewJSONCodec_def some_externals_def decompress_def
      CompressionNone_def some_metadata_json_def)

lemma table_load:
  "cs_db s = Some (table_db put) \<Longrightarrow> cid \<noteq> [] \<Longrightarrow> d cid = Some r \<Longrightarrow> sql_load x mj tm arg s cid d = decode_row x mj tm s r d"
  by (simp add: sql_load_def sql_query_def sql_scan_def table_db_def row_values_cells)

lemma table_save:
  "cs_db s = Some (table_db put) \<Longrightarrow> cs_serializer s = some_serializer \<Longrightarrow>
   Lite_Save some_externals some_metadata_json s rnd (Some cp) d =
     (let r = written_row (\<lambda>j. j) Unix cp [if cp_State cp = None then 0 else 1] ''{}'' in (Returns (), d(cp_ID cp \<mapsto> put r (d (cp_ID cp)))))"
  "cs_db s = Some (table_db put) \<Longrightarrow> cs_serializer s = some_serializer \<Longrightarrow>
   Pg_Save some_externals some_metadata_json s rnd (Some cp) d =
     (let r = written_row (\<lambda>j. j) (\<lambda>t. t) cp [if cp_State cp = None then 0 else 1] ''{}'' in (Returns (), d(cp_ID cp \<mapsto> put r (d (cp_ID cp)))))"
  by (simp_all add: Lite_Save_def Pg_Save_def some_encode sql_exec_def table_db_def row_values_def written_row_def)

subsection \<open>The savers\<close>

text \<open>
  C27: a SQLite saver over a table that keeps its rows: after any sequence of saves, loads and deletes
  of a client, a load that returns gives the checkpoint last saved with success under that ID and not
  deleted since, as its codec leaves the state and the metadata, with its time cut to the second.
\<close>

theorem sqlite_loads_last_save:
  assumes "cs_db s = Some db" and "lite_lawful db rows (cs_tableName s)" and "state_survives x (cs_serializer s) sview"
    and "metadata_survives mj (\<lambda>j. j) mview"
    and "client_run (\<lambda>rnd c. Lite_Save x mj s rnd (Some c)) (\<lambda>_. Lite_Load x mj s) (\<lambda>_. Lite_Delete s) (lite_view sview mview) ops
      (table_content x mj (\<lambda>t. t * 10 ^ 9) s rows d, d) = Some (k, d1)"
    and "Lite_Load x mj s cid d1 = (Returns c, d2)"
  shows "k cid = Some c"
  using checkpoint_store.loads_last_save [OF lite_store [OF assms(1-4)] assms(5)] assms(6) by blast

theorem sqlite_loads_last_save_witness:
  "\<exists>k d1 d2. client_run (\<lambda>rnd c. Lite_Save some_externals some_metadata_json
        (NewCheckpointSaver (Some (table_db (\<lambda>r _. r))) some_serializer) rnd (Some c))
      (\<lambda>_. Lite_Load some_externals some_metadata_json (NewCheckpointSaver (Some (table_db (\<lambda>r _. r))) some_serializer))
      (\<lambda>_. Lite_Delete (NewCheckpointSaver (Some (table_db (\<lambda>r _. r))) some_serializer)) (lite_view emptied (\<lambda>_. no_metadata))
      [SaveOp (Inl []) (some_point ''g1'' (Some Map.empty)), SaveOp (Inl []) (some_point ''g2'' None)] (Map.empty, Map.empty)
        = Some (k, d1)
    \<and> Lite_Load some_externals some_metadata_json (NewCheckpointSaver (Some (table_db (\<lambda>r _. r))) some_serializer) ''c'' d1
        = (Returns ((some_point ''g2'' None)\<lparr>cp_Timestamp := 7000000000\<rparr>), d2)
    \<and> k ''c'' = Some ((some_point ''g2'' None)\<lparr>cp_Timestamp := 7000000000\<rparr>)"
proof -
  let ?s = "NewCheckpointSaver (Some (table_db (\<lambda>r _. r))) some_serializer"
  let ?save = "\<lambda>rnd c. Lite_Save some_externals some_metadata_json ?s rnd (Some c)"
  let ?load = "\<lambda>_ :: random. Lite_Load some_externals some_metadata_json ?s"
  let ?d = "[''c'' \<mapsto> written_row (\<lambda>j. j) Unix (some_point ''g2'' None) [0] ''{}'']"
  let ?c = "(some_point ''g2'' None)\<lparr>cp_Timestamp := 7000000000\<rparr>"
  have s: "cs_db ?s = Some (table_db (\<lambda>r _. r))" "cs_serializer ?s = some_serializer" by (simp_all add: NewCheckpointSaver_def)
  have surv: "state_survives some_externals (cs_serializer ?s) emptied" unfolding s(2) by (rule some_survives)
  have saves: "?save (Inl []) (some_point g st) d = (Returns (), d(''c'' \<mapsto>
      written_row (\<lambda>j. j) Unix (some_point g st) [if st = None then 0 else 1] ''{}''))" for g st d
    by (simp add: table_save [OF s] some_point_def)
  have view: "lite_view emptied (\<lambda>_. no_metadata) (some_point ''g2'' None) = ?c"
    by (simp add: lite_view_def stored_view_def some_point_def emptied_def Unix_def)
  have load: "Lite_Load some_externals some_metadata_json ?s ''c'' ?d = (Returns ?c, ?d)"
    by (simp add: Lite_Load_def table_load [OF s(1)] some_decode [OF s(2)]) (simp add: some_point_def written_row_def Unix_def)
  have empty: "table_content some_externals some_metadata_json (\<lambda>t. t * 10 ^ 9) ?s (\<lambda>d. d) Map.empty = Map.empty"
    by (simp add: table_content_def fun_eq_iff)
  have id: "cp_ID (some_point g st) = ''c''" for g st by (simp add: some_point_def)
  have run: "client_run ?save ?load (\<lambda>_. Lite_Delete ?s) (lite_view emptied (\<lambda>_. no_metadata))
      [SaveOp (Inl []) (some_point ''g1'' (Some Map.empty)), SaveOp (Inl []) (some_point ''g2'' None)]
      (table_content some_externals some_metadata_json (\<lambda>t. t * 10 ^ 9) ?s (\<lambda>d. d) Map.empty, Map.empty)
    = Some ([''c'' \<mapsto> ?c], ?d)"
    unfolding empty by (simp add: saves ended_def note_save_def id view)
  have "[''c'' \<mapsto> ?c] ''c'' = Some ?c"
    by (rule sqlite_loads_last_save [where s = ?s and rows = "\<lambda>d. d" and sview = emptied and mview = "\<lambda>_. no_metadata"
        and d = Map.empty, OF s(1) table_db_lite surv some_metadata_survives run load])
  with load run [unfolded empty] show ?thesis by blast
qed

text \<open>
  a Postgres saver does not replace a checkpoint saved under the same ID: the graph, the thread
  and the version stay those of the first save; only state, metadata and time are the new ones.
\<close>

theorem postgres_keeps_identity:
  assumes "cs_db s = Some db" and "pg_lawful db rows jb pt (cs_tableName s)" and "state_survives x (cs_serializer s) sview"
    and "metadata_survives mj jb mview" and "rows d (cp_ID cp) = Some old" and "row_ID old = cp_ID cp"
    and "Pg_Save x mj s rnd (Some cp) d = (Returns (), d1)" and "Pg_Load x mj s (cp_ID cp) d1 = (Returns c, d2)"
  shows "c = (stored_view sview mview pt cp)
    \<lparr>cp_GraphID := row_GraphID old, cp_ThreadID := row_ThreadID old, cp_Version := row_Version old\<rparr>"
proof -
  obtain e d' where e: "encode_checkpoint x mj rnd s cp d = (e, d')" by fastforce
  with encode_state [OF e] assms(7) obtain data md where enc: "encode_checkpoint x mj rnd s cp d = (Returns (data, md), d)"
    by (cases e) (auto simp: Pg_Save_def)
  obtain q d2' where q: "db_Exec db (pg_save_query (cs_tableName s)) (pg_args cp data md) d = (q, d2')" by fastforce
  with assms(1,7) enc obtain n where "q = Returns n" "d2' = d1" by (cases q) (auto simp: Pg_Save_def sql_exec_def pg_args_def)
  from assms(2) have "writes_row db rows (pg_save_query (cs_tableName s)) pg_args (upserted_row jb pt)" by (simp add: pg_lawful_def)
  from writes_rowD [OF this, of cp data md d n d1] q \<open>q = Returns n\<close> \<open>d2' = d1\<close>
  have "rows d1 = (rows d)(cp_ID cp \<mapsto> upserted_row jb pt cp data md (rows d (cp_ID cp)))" by simp
  then have row: "rows d1 (cp_ID cp) = Some (old\<lparr>row_data := data, row_metadata := jb md, row_timestamp := pt (cp_Timestamp cp)\<rparr>)"
    using assms(5) by (simp add: upserted_row_def)
  have "table_content x mj (\<lambda>t. t) s rows d1 (cp_ID cp) = Some c"
    using sql_load_returns [OF assms(8) [unfolded Pg_Load_def] assms(1)] assms(2) by (simp add: pg_lawful_def)
  with encode_decode [OF enc assms(3,4)] row assms(6) show ?thesis
    by (cases cp) (simp add: table_content_def stored_view_def)
qed

theorem postgres_keeps_identity_witness:
  "\<exists>d1 c. Pg_Save some_externals some_metadata_json (NewCheckpointSaver (Some (table_db update_columns)) some_serializer) (Inl [])
       (Some (some_point ''g2'' (Some Map.empty))) [''c'' \<mapsto> written_row (\<lambda>j. j) (\<lambda>t. t) (some_point ''g1'' None) [0] ''{}''] = (Returns (), d1)
    \<and> Pg_Load some_externals some_metadata_json (NewCheckpointSaver (Some (table_db update_columns)) some_serializer)
        (cp_ID (some_point ''g2'' (Some Map.empty))) d1 = (Returns c, d1)
    \<and> c = (stored_view emptied (\<lambda>_. no_metadata) (\<lambda>t. t) (some_point ''g2'' (Some Map.empty)))
        \<lparr>cp_GraphID := ''g1'', cp_ThreadID := ''t'', cp_Version := ''1.0''\<rparr>"
proof -
  let ?s = "NewCheckpointSaver (Some (table_db update_columns)) some_serializer"
  let ?old = "written_row (\<lambda>j. j) (\<lambda>t. t) (some_point ''g1'' None) [0] ''{}''"
  have s: "cs_db ?s = Some (table_db update_columns)" "cs_serializer ?s = some_serializer" by (simp_all add: NewCheckpointSaver_def)
  have surv: "state_survives some_externals (cs_serializer ?s) emptied" unfolding s(2) by (rule some_survives)
  have save: "Pg_Save some_externals some_metadata_json ?s (Inl []) (Some (some_point ''g2'' (Some Map.empty))) [''c'' \<mapsto> ?old]
      = (Returns (), [''c'' \<mapsto> ?old\<lparr>row_data := [1]\<rparr>])"
    by (simp add: table_save [OF s]) (simp add: some_point_def written_row_def update_columns_def)
  have old: "row_GraphID ?old = ''g1''" "row_ThreadID ?old = ''t''" "row_Version ?old = ''1.0''"
    by (simp_all add: written_row_def some_point_def)
  have id: "cp_ID (some_point g st) = ''c''" for g st by (simp add: some_point_def)
  have load: "Pg_Load some_externals some_metadata_json ?s (cp_ID (some_point ''g2'' (Some Map.empty))) [''c'' \<mapsto> ?old\<lparr>row_data := [1]\<rparr>]
      = (Returns ((some_point ''g1'' (Some Map.empty))), [''c'' \<mapsto> ?old\<lparr>row_data := [1]\<rparr>])"
    by (simp add: Pg_Load_def id table_load [OF s(1)] some_decode [OF s(2)]) (simp add: some_point_def written_row_def)
  have "some_point ''g1'' (Some Map.empty) = (stored_view emptied (\<lambda>_. no_metadata) (\<lambda>t. t) (some_point ''g2'' (Some Map.empty)))
      \<lparr>cp_GraphID := row_GraphID ?old, cp_ThreadID := row_ThreadID ?old, cp_Version := row_Version ?old\<rparr>"
    by (rule postgres_keeps_identity [where s = ?s and rows = "\<lambda>d. d" and sview = emptied and mview = "\<lambda>_. no_metadata"
        and jb = "\<lambda>j. j" and pt = "\<lambda>t. t" and old = ?old, OF s(1) table_db_pg surv some_metadata_survives _ _ save load])
      (simp_all add: written_row_def some_point_def)
  then have "some_point ''g1'' (Some Map.empty) = (stored_view emptied (\<lambda>_. no_metadata) (\<lambda>t. t) (some_point ''g2'' (Some Map.empty)))
      \<lparr>cp_GraphID := ''g1'', cp_ThreadID := ''t'', cp_Version := ''1.0''\<rparr>"
    unfolding old by assumption
  with save load show ?thesis by blast
qed

end
