(* ===== verification/ServerMetrics.thy ===== *)
theory ServerMetrics
  imports FG_Prelude "HOL-Library.List_Lexorder" "HOL-Library.Char_ord"
begin

section \<open>Metrics and their page (internal/infrastructure/metrics, cmd/flowgraph-server/main.go)\<close>

text \<open>
  The counters of the program, published with the standard library's expvar, and the handler that
  renders them in the Prometheus text format. An \<^verbatim>\<open>expvar.Int\<close> is a 64-bit word. The main
  result is that a reader of the format gets back exactly the published values.
\<close>

subsection \<open>The counters\<close>

record Metrics =
  channelSent :: "string \<rightharpoonup> 64 word"
  channelReceived :: "string \<rightharpoonup> 64 word"
  channelEvicted :: "string \<rightharpoonup> 64 word"
  channelSize :: "string \<rightharpoonup> 64 word"
  superstepsTotal :: "64 word"
  vertexExecsTotal :: "64 word"
  schedulerWorkers :: "64 word"
  schedulerQueuedTotal :: "64 word"

definition init_metrics :: Metrics where
  "init_metrics = \<lparr>channelSent = Map.empty, channelReceived = Map.empty, channelEvicted = Map.empty,
     channelSize = Map.empty, superstepsTotal = 0, vertexExecsTotal = 0, schedulerWorkers = 0,
     schedulerQueuedTotal = 0\<rparr>"

text \<open>\<^verbatim>\<open>expvar.Map.Add\<close>: a new key starts at zero.\<close>

definition Map_Add :: "string \<Rightarrow> 64 word \<Rightarrow> (string \<rightharpoonup> 64 word) \<Rightarrow> string \<rightharpoonup> 64 word" where
  "Map_Add key delta m = m(key \<mapsto> (case m key of Some v \<Rightarrow> v | None \<Rightarrow> 0) + delta)"

definition ChannelSent :: "string \<Rightarrow> 64 word \<Rightarrow> Metrics \<Rightarrow> Metrics" where
  "ChannelSent kind n m = m\<lparr>channelSent := Map_Add kind n (channelSent m)\<rparr>"

definition ChannelReceived :: "string \<Rightarrow> 64 word \<Rightarrow> Metrics \<Rightarrow> Metrics" where
  "ChannelReceived kind n m = m\<lparr>channelReceived := Map_Add kind n (channelReceived m)\<rparr>"

definition ChannelEvicted :: "string \<Rightarrow> 64 word \<Rightarrow> Metrics \<Rightarrow> Metrics" where
  "ChannelEvicted kind n m = m\<lparr>channelEvicted := Map_Add kind n (channelEvicted m)\<rparr>"

definition setMapInt :: "(string \<rightharpoonup> 64 word) \<Rightarrow> string \<Rightarrow> 64 word \<Rightarrow> string \<rightharpoonup> 64 word" where
  "setMapInt m key v = m(key \<mapsto> v)"

definition ChannelSizeBytes :: "string \<Rightarrow> 64 word \<Rightarrow> Metrics \<Rightarrow> Metrics" where
  "ChannelSizeBytes kind bytes m = m\<lparr>channelSize := setMapInt (channelSize m) kind bytes\<rparr>"

definition IncSupersteps :: "Metrics \<Rightarrow> Metrics" where
  "IncSupersteps m = m\<lparr>superstepsTotal := superstepsTotal m + 1\<rparr>"

definition IncVertexExecs :: "64 word \<Rightarrow> Metrics \<Rightarrow> Metrics" where
  "IncVertexExecs n m = m\<lparr>vertexExecsTotal := vertexExecsTotal m + n\<rparr>"

definition SetSchedulerWorkers :: "64 word \<Rightarrow> Metrics \<Rightarrow> Metrics" where
  "SetSchedulerWorkers n m = m\<lparr>schedulerWorkers := n\<rparr>"

definition AddSchedulerQueued :: "64 word \<Rightarrow> Metrics \<Rightarrow> Metrics" where
  "AddSchedulerQueued n m = m\<lparr>schedulerQueuedTotal := schedulerQueuedTotal m + n\<rparr>"

subsection \<open>What is published\<close>

text \<open>
  A map gives its keys with \<^verbatim>\<open>Value.String()\<close>; its own \<^verbatim>\<open>String()\<close>, and that of a
  variable of another kind, is the text.
\<close>

datatype expvar = EInt "64 word" | EMap "(string \<times> string) list" string | EOther string

definition show_word :: "64 word \<Rightarrow> string" where
  "show_word w = show_int (sint w)"

fun expvar_String :: "expvar \<Rightarrow> string" where
  "expvar_String (EInt w) = show_word w"
| "expvar_String (EMap kvs t) = t"
| "expvar_String (EOther t) = t"

text \<open>The variables of the program; \<open>keys\<close> lists the keys of a map and \<open>js\<close> is its text.\<close>

definition map_var :: "((string \<rightharpoonup> 64 word) \<Rightarrow> string list) \<Rightarrow> ((string \<rightharpoonup> 64 word) \<Rightarrow> string) \<Rightarrow> (string \<rightharpoonup> 64 word) \<Rightarrow> expvar" where
  "map_var keys js m = EMap (map (\<lambda>k. (k, show_word (the (m k)))) (keys m)) (js m)"

definition published_metrics ::
  "((string \<rightharpoonup> 64 word) \<Rightarrow> string list) \<Rightarrow> ((string \<rightharpoonup> 64 word) \<Rightarrow> string) \<Rightarrow> Metrics \<Rightarrow> (string \<times> expvar) list" where
  "published_metrics keys js m =
     [(''flowgraph_channel_sent_total'', map_var keys js (channelSent m)),
      (''flowgraph_channel_received_total'', map_var keys js (channelReceived m)),
      (''flowgraph_channel_evicted_total'', map_var keys js (channelEvicted m)),
      (''flowgraph_channel_size_bytes'', map_var keys js (channelSize m)),
      (''flowgraph_supersteps_total'', EInt (superstepsTotal m)),
      (''flowgraph_vertex_executions_total'', EInt (vertexExecsTotal m)),
      (''flowgraph_scheduler_workers'', EInt (schedulerWorkers m)),
      (''flowgraph_scheduler_queued_total'', EInt (schedulerQueuedTotal m))]"

subsection \<open>The page\<close>

abbreviation nl :: char where "nl \<equiv> CHR 0x0A"
abbreviation dquote :: char where "dquote \<equiv> CHR 0x22"
abbreviation bslash :: char where "bslash \<equiv> CHR 0x5C"

text \<open>\<^verbatim>\<open>strings.ReplaceAll\<close> of a text of one character.\<close>

definition replace_char :: "char \<Rightarrow> string \<Rightarrow> string \<Rightarrow> string" where
  "replace_char c r s = concat (map (\<lambda>x. if x = c then r else [x]) s)"

definition sanitizeHelp :: "string \<Rightarrow> string" where
  "sanitizeHelp s = replace_char nl '' '' s"

definition escapeLabel :: "string \<Rightarrow> string" where
  "escapeLabel s = replace_char nl [bslash, CHR ''n''] (replace_char dquote [bslash, dquote] (replace_char bslash [bslash, bslash] s))"

record meta =
  meta_typ :: string
  meta_help :: string
  meta_isMap :: bool
  meta_label :: string

definition map_meta :: "string \<Rightarrow> string \<Rightarrow> meta" where
  "map_meta ty help = \<lparr>meta_typ = ty, meta_help = help, meta_isMap = True, meta_label = ''kind''\<rparr>"

definition scalar_meta :: "string \<Rightarrow> string \<Rightarrow> meta" where
  "scalar_meta ty help = \<lparr>meta_typ = ty, meta_help = help, meta_isMap = False, meta_label = []\<rparr>"

definition metas :: "string \<rightharpoonup> meta" where
  "metas = map_of
     [(''flowgraph_channel_sent_total'', map_meta ''counter'' ''Channel messages sent''),
      (''flowgraph_channel_received_total'', map_meta ''counter'' ''Channel messages received''),
      (''flowgraph_channel_evicted_total'', map_meta ''counter'' ''Persistent channel evicted messages''),
      (''flowgraph_channel_size_bytes'', map_meta ''gauge'' ''Persistent channel current size in bytes''),
      (''flowgraph_supersteps_total'', scalar_meta ''counter'' ''Number of supersteps executed''),
      (''flowgraph_vertex_executions_total'', scalar_meta ''counter'' ''Number of vertex computations executed''),
      (''flowgraph_scheduler_workers'', scalar_meta ''gauge'' ''Number of scheduler workers''),
      (''flowgraph_scheduler_queued_total'', scalar_meta ''counter'' ''Number of tasks scheduled'')]"

definition writeHeader :: "string \<Rightarrow> meta \<Rightarrow> string set \<Rightarrow> string \<times> string set" where
  "writeHeader name m printed =
     (if name \<in> printed then ([], printed)
      else (''# HELP '' @ name @ '' '' @ sanitizeHelp (meta_help m) @ [nl] @ ''# TYPE '' @ name @ '' '' @ meta_typ m @ [nl],
            insert name printed))"

definition label_line :: "string \<Rightarrow> string \<Rightarrow> string \<times> string \<Rightarrow> string" where
  "label_line name label kv =
     name @ ''{'' @ label @ ''='' @ [dquote] @ escapeLabel (fst kv) @ [dquote] @ ''} '' @ snd kv @ [nl]"

definition render_var :: "(string \<times> expvar) list \<Rightarrow> string \<Rightarrow> string set \<Rightarrow> string \<times> string set" where
  "render_var vars name printed =
     (let v = map_of vars name in
      case metas name of
        None \<Rightarrow> (case v of
            Some (EInt w) \<Rightarrow> (''# TYPE '' @ name @ '' gauge'' @ [nl] @ name @ '' '' @ show_word w @ [nl], printed)
          | _ \<Rightarrow> ([], printed))
      | Some m \<Rightarrow>
          (case writeHeader name m printed of (header, printed1) \<Rightarrow>
             (header @
                (if meta_isMap m then
                   (case v of Some (EMap kvs _) \<Rightarrow> concat (map (label_line name (meta_label m)) (sort_key fst kvs)) | _ \<Rightarrow> [])
                 else name @ '' '' @ (case v of Some x \<Rightarrow> expvar_String x | None \<Rightarrow> []) @ [nl]),
              printed1)))"

fun render_vars :: "(string \<times> expvar) list \<Rightarrow> string list \<Rightarrow> string set \<Rightarrow> string" where
  "render_vars vars [] printed = []"
| "render_vars vars (name # names) printed =
     (case render_var vars name printed of (page, printed1) \<Rightarrow> page @ render_vars vars names printed1)"

text \<open>The content type and the body; \<open>vars\<close> is what \<^verbatim>\<open>expvar.Do\<close> visits.\<close>

definition promMetricsHandler :: "(string \<times> expvar) list \<Rightarrow> string \<times> string" where
  "promMetricsHandler vars =
     (''text/plain; version=0.0.4; charset=utf-8'', render_vars vars (sort (map fst vars)) {})"

subsection \<open>A reader of the format\<close>

fun page_lines :: "string \<Rightarrow> string \<Rightarrow> string list" where
  "page_lines acc [] = (if acc = [] then [] else [acc])"
| "page_lines acc (c # cs) = (if c = nl then acc # page_lines [] cs else page_lines (acc @ [c]) cs)"

fun read_label :: "string \<Rightarrow> (string \<times> string) option" where
  "read_label [] = None"
| "read_label (c # cs) =
     (if c = dquote then Some ([], cs)
      else if c = bslash then
        (case cs of
           [] \<Rightarrow> None
         | d # ds \<Rightarrow> map_option (\<lambda>(l, r). ((if d = CHR ''n'' then nl else d) # l, r)) (read_label ds))
      else map_option (\<lambda>(l, r). (c # l, r)) (read_label cs))"

type_synonym sample = "string \<times> (string \<times> string) option \<times> string"

definition name_end :: "char \<Rightarrow> bool" where
  "name_end c \<longleftrightarrow> c = CHR ''{'' \<or> c = CHR '' ''"

definition read_line :: "string \<Rightarrow> sample option" where
  "read_line line =
     (if line = [] \<or> hd line = CHR ''#'' then None
      else let name = takeWhile (Not \<circ> name_end) line in
        (case dropWhile (Not \<circ> name_end) line of
           [] \<Rightarrow> None
         | c # cs \<Rightarrow>
             if c = CHR '' '' then Some (name, None, cs)
             else let label = takeWhile (\<lambda>c. c \<noteq> CHR ''='') cs in
               (case read_label (drop 2 (dropWhile (\<lambda>c. c \<noteq> CHR ''='') cs)) of
                  None \<Rightarrow> None
                | Some (v, rest) \<Rightarrow> Some (name, Some (label, v), drop 2 rest))))"

definition read_page :: "string \<Rightarrow> sample list" where
  "read_page page = List.map_filter read_line (page_lines [] page)"


subsection \<open>Reading lines back\<close>

definition esc :: "char \<Rightarrow> string" where
  "esc c = (if c = bslash then [bslash, bslash] else if c = dquote then [bslash, dquote]
     else if c = nl then [bslash, CHR ''n''] else [c])"

lemma escapeLabel_chars: "escapeLabel s = concat (map esc s)"
  by (induction s) (simp_all add: escapeLabel_def replace_char_def esc_def)

lemma read_label_escape: "read_label (escapeLabel k @ dquote # rest) = Some (k, rest)"
  unfolding escapeLabel_chars by (induction k) (auto simp: esc_def)

lemma nl_escape: "nl \<notin> set (escapeLabel k)"
  unfolding escapeLabel_chars by (auto simp: esc_def)

lemma nl_sanitize: "nl \<notin> set (sanitizeHelp h)"
  by (auto simp: sanitizeHelp_def replace_char_def)

lemma page_lines_line: "nl \<notin> set l \<Longrightarrow> page_lines acc (l @ nl # rest) = (acc @ l) # page_lines [] rest"
  by (induction l arbitrary: acc) auto

lemma read_page_line:
  "nl \<notin> set l \<Longrightarrow> read_page (l @ nl # rest) = (case read_line l of None \<Rightarrow> [] | Some x \<Rightarrow> [x]) @ read_page rest"
  by (simp add: read_page_def page_lines_line List.map_filter_simps split: option.split)

definition plain_name :: "string \<Rightarrow> bool" where
  "plain_name n \<longleftrightarrow> n \<noteq> [] \<and> hd n \<noteq> CHR ''#'' \<and> list_all (\<lambda>c. \<not> name_end c \<and> c \<noteq> nl) n"

lemma plain_nl: "plain_name n \<Longrightarrow> nl \<notin> set n"
  by (auto simp: plain_name_def list_all_iff)

lemma plain_span:
  assumes "plain_name n" and "name_end c"
  shows "takeWhile (Not \<circ> name_end) (n @ c # rest) = n" "dropWhile (Not \<circ> name_end) (n @ c # rest) = c # rest"
  using assms by (auto simp: plain_name_def list_all_iff takeWhile_append2 dropWhile_append2)

lemma read_comment: "read_line (CHR ''#'' # l) = None"
  by (simp add: read_line_def)

lemma read_scalar: "plain_name n \<Longrightarrow> read_line (n @ CHR '' '' # v) = Some (n, None, v)"
  by (simp add: read_line_def plain_span name_end_def) (auto simp: plain_name_def hd_append)

lemma read_labelled:
  assumes "plain_name n" and "CHR ''='' \<notin> set lbl"
  shows "read_line (n @ ''{'' @ lbl @ ''='' @ [dquote] @ escapeLabel k @ [dquote] @ ''} '' @ v) = Some (n, Some (lbl, k), v)"
proof -
  let ?r = "lbl @ ''='' @ [dquote] @ escapeLabel k @ [dquote] @ ''} '' @ v"
  have "takeWhile (\<lambda>c. c \<noteq> CHR ''='') ?r = lbl" "dropWhile (\<lambda>c. c \<noteq> CHR ''='') ?r = ''='' @ dquote # escapeLabel k @ [dquote] @ ''} '' @ v"
    using assms(2) by (auto simp: takeWhile_append dropWhile_append)
  moreover have "read_label (escapeLabel k @ dquote # ''} '' @ v) = Some (k, ''} '' @ v)" by (rule read_label_escape)
  moreover have "n @ ''{'' @ ?r \<noteq> []" "hd (n @ ''{'' @ ?r) \<noteq> CHR ''#''" using assms(1) by (auto simp: plain_name_def hd_append)
  ultimately show ?thesis using plain_span [OF assms(1), of "CHR ''{''" ?r]
    by (simp add: read_line_def name_end_def Let_def)
qed

subsection \<open>Reading the page back\<close>

definition printable :: "expvar \<Rightarrow> bool" where
  "printable v \<longleftrightarrow> nl \<notin> set (expvar_String v)
     \<and> (case v of EMap kvs _ \<Rightarrow> list_all (\<lambda>kv. nl \<notin> set (snd kv)) kvs | _ \<Rightarrow> True)"

definition var_samples :: "(string \<times> expvar) list \<Rightarrow> string \<Rightarrow> sample list" where
  "var_samples vars name =
     (case (metas name, map_of vars name) of
        (None, Some (EInt w)) \<Rightarrow> [(name, None, show_word w)]
      | (Some m, Some v) \<Rightarrow>
          if meta_isMap m then
            (case v of EMap kvs _ \<Rightarrow> map (\<lambda>(k, x). (name, Some (meta_label m, k), x)) (sort_key fst kvs) | _ \<Rightarrow> [])
          else [(name, None, expvar_String v)]
      | _ \<Rightarrow> [])"

lemma metas_fine: "metas name = Some m \<Longrightarrow> nl \<notin> set (meta_typ m) \<and> CHR ''='' \<notin> set (meta_label m)
   \<and> nl \<notin> set (meta_label m)"
  by (auto simp: metas_def map_meta_def scalar_meta_def split: if_splits)

lemma show_word_nl: "nl \<notin> set (show_word w)"
proof
  assume "nl \<in> set (show_word w)"
  then have "nl = CHR ''-'' \<or> is_digit nl"
    using digits_of_digits by (auto simp: show_word_def show_int_def split: if_splits)
  then show False by (simp add: is_digit_def)
qed

lemma read_header:
  assumes "plain_name name" and "metas name = Some m" and "writeHeader name m printed = (h, printed1)"
  shows "read_page (h @ rest) = read_page rest"
proof (cases "name \<in> printed")
  case False
  let ?l1 = "''# HELP '' @ name @ '' '' @ sanitizeHelp (meta_help m)"
  let ?l2 = "''# TYPE '' @ name @ '' '' @ meta_typ m"
  have n: "nl \<notin> set ?l1" "nl \<notin> set ?l2"
    using plain_nl [OF assms(1)] nl_sanitize metas_fine [OF assms(2)] by auto
  moreover have "h @ rest = ?l1 @ nl # ?l2 @ nl # rest" using False assms(3) by (auto simp: writeHeader_def)
  ultimately show ?thesis
    using read_page_line [OF n(1), of "?l2 @ nl # rest"] read_page_line [OF n(2), of rest] by (simp add: read_comment)
qed (use assms(3) in \<open>simp add: writeHeader_def\<close>)

lemma read_labels:
  "plain_name name \<Longrightarrow> CHR ''='' \<notin> set lbl \<Longrightarrow> nl \<notin> set lbl \<Longrightarrow> list_all (\<lambda>kv. nl \<notin> set (snd kv)) kvs \<Longrightarrow>
   read_page (concat (map (label_line name lbl) kvs) @ rest)
     = map (\<lambda>(k, x). (name, Some (lbl, k), x)) kvs @ read_page rest"
proof (induction kvs)
  case (Cons kv kvs)
  obtain k v where kv: "kv = (k, v)" by fastforce
  let ?l = "name @ ''{'' @ lbl @ ''='' @ [dquote] @ escapeLabel k @ [dquote] @ ''} '' @ v"
  have "nl \<notin> set ?l" using Cons.prems plain_nl nl_escape kv by auto
  note line = read_page_line [OF this, of "concat (map (label_line name lbl) kvs) @ rest"]
  have "concat (map (label_line name lbl) (kv # kvs)) @ rest = ?l @ nl # concat (map (label_line name lbl) kvs) @ rest"
    by (simp add: label_line_def kv)
  then have "read_page (concat (map (label_line name lbl) (kv # kvs)) @ rest)
      = (name, Some (lbl, k), v) # read_page (concat (map (label_line name lbl) kvs) @ rest)"
    using line read_labelled [OF Cons.prems(1,2), of k v] by (simp only: option.case append_Cons append_Nil)
  with Cons kv show ?case by simp
qed simp

lemma read_var:
  assumes n: "plain_name name" and v: "map_of vars name = Some v" and p: "printable v"
    and r: "render_var vars name printed = (page, printed1)"
  shows "read_page (page @ rest) = var_samples vars name @ read_page rest"
proof (cases "metas name")
  case None
  show ?thesis
  proof (cases v)
    case (EInt w)
    let ?l1 = "''# TYPE '' @ name @ '' gauge''" and ?l2 = "name @ CHR '' '' # show_word w"
    have nn: "nl \<notin> set ?l1" "nl \<notin> set ?l2" using plain_nl [OF n] show_word_nl by auto
    moreover have "page @ rest = ?l1 @ nl # ?l2 @ nl # rest" using r None v EInt by (simp add: render_var_def)
    ultimately show ?thesis
      using read_page_line [OF nn(1), of "?l2 @ nl # rest"] read_page_line [OF nn(2), of rest]
      by (simp add: read_comment read_scalar [OF n] var_samples_def None v EInt)
  qed (use r None v in \<open>simp_all add: render_var_def var_samples_def\<close>)
next
  case (Some m)
  obtain h pr where h: "writeHeader name m printed = (h, pr)" by fastforce
  note header = read_header [OF n Some h]
  show ?thesis
  proof (cases "meta_isMap m")
    case True
    show ?thesis
    proof (cases v)
      case (EMap kvs t)
      have "page = h @ concat (map (label_line name (meta_label m)) (sort_key fst kvs))"
        using r Some v EMap h True by (simp add: render_var_def)
      moreover have "list_all (\<lambda>kv. nl \<notin> set (snd kv)) (sort_key fst kvs)"
        using p EMap by (simp add: printable_def list_all_iff)
      ultimately show ?thesis using header metas_fine [OF Some] read_labels [OF n]
        by (simp add: var_samples_def Some v EMap True)
    qed (use r Some v h True header in \<open>auto simp: render_var_def var_samples_def\<close>)
  next
    case False
    let ?l = "name @ CHR '' '' # expvar_String v"
    have nn: "nl \<notin> set ?l" using plain_nl [OF n] p by (simp add: printable_def)
    moreover have "page @ rest = h @ ?l @ nl # rest" using r Some v h False by (simp add: render_var_def)
    ultimately show ?thesis using header [of "?l @ nl # rest"] read_page_line [OF nn, of rest]
      by (simp add: read_scalar [OF n] var_samples_def Some v False)
  qed
qed

lemma read_vars:
  "\<forall>n\<in>set names. plain_name n \<and> (\<exists>v. map_of vars n = Some v \<and> printable v) \<Longrightarrow>
   read_page (render_vars vars names printed) = concat (map (var_samples vars) names)"
proof (induction vars names printed rule: render_vars.induct)
  case (2 vars name names printed)
  obtain page printed1 where r: "render_var vars name printed = (page, printed1)" by fastforce
  from 2(2) obtain v where "map_of vars name = Some v" "printable v" "plain_name name" by auto
  from read_var [OF this(3,1,2) r] 2(1) [OF r [symmetric]] 2(2) r show ?case by simp
qed (simp add: read_page_def List.map_filter_simps)

text \<open>
  C36: the metrics page reads back. Whatever is published under names without blanks and braces,
  with whatever keys in its maps, a reader of the text format finds on the page exactly the values, in
  the order of the names and keys: quotes, backslashes and line breaks in a key do not break a line or
  end a label early.
\<close>

theorem metrics_page_reads_back:
  assumes "\<forall>(n, v)\<in>set vars. plain_name n \<and> printable v"
  shows "read_page (snd (promMetricsHandler vars)) = concat (map (var_samples vars) (sort (map fst vars)))"
proof -
  have "\<exists>v. map_of vars n = Some v \<and> printable v" if "n \<in> set (map fst vars)" for n
  proof -
    from that obtain v where v: "map_of vars n = Some v" by (metis map_of_eq_None_iff not_Some_eq set_map)
    with assms map_of_SomeD [OF v] show ?thesis by auto
  qed
  then have "read_page (render_vars vars (sort (map fst vars)) {}) = concat (map (var_samples vars) (sort (map fst vars)))"
    using assms by (intro read_vars) auto
  then show ?thesis by (simp add: promMetricsHandler_def)
qed

theorem metrics_page_reads_back_witness:
  "read_page (snd (promMetricsHandler [(''flowgraph_supersteps_total'', EInt 5),
      (''flowgraph_channel_sent_total'', EMap [([dquote, nl, bslash], ''7'')] ''{}'')]))
   = [(''flowgraph_channel_sent_total'', Some (''kind'', [dquote, nl, bslash]), ''7''), (''flowgraph_supersteps_total'', None, ''5'')]"
proof -
  let ?vars = "[(''flowgraph_supersteps_total'', EInt 5), (''flowgraph_channel_sent_total'', EMap [([dquote, nl, bslash], ''7'')] ''{}'')]"
  have five: "show_word 5 = ''5''" by code_simp
  have "\<forall>(n, v)\<in>set ?vars. plain_name n \<and> printable v"
    by (simp add: plain_name_def name_end_def printable_def five)
  from metrics_page_reads_back [OF this] show ?thesis
    by (simp add: var_samples_def metas_def map_meta_def scalar_meta_def five)
qed

end
