(* ===== verification/CacheRun.thy ===== *)
theory CacheRun
  imports CacheEngine EngineShortestPath
begin

section \<open>Runs of the cache-optimised engine\<close>

text \<open>
  The run loop of \<^verbatim>\<open>CacheOptimizedEngine\<close>, which differs from the engine's in the
  superstep it calls, and its agreement with a run of the standard engine.
\<close>

lemma apply_updates_keeps:
  "apply_updates rs e = (r, e') \<Longrightarrow> en_Vertices e' = en_Vertices e \<and> en_Config e' = en_Config e
     \<and> en_Halted e' = en_Halted e \<and> en_Calls e' = en_Calls e \<and> en_Agg e' = en_Agg e
     \<and> en_Checkpoints e' = en_Checkpoints e"
  by (induction rs e rule: apply_updates.induct) (auto split: option.splits)

lemma apply_partitions_keeps:
  "apply_partitions ps parts batch e = (r, e') \<Longrightarrow> en_Vertices e' = en_Vertices e \<and> en_Config e' = en_Config e
     \<and> en_Halted e' = en_Halted e \<and> en_Calls e' = en_Calls e \<and> en_Agg e' = en_Agg e
     \<and> en_Checkpoints e' = en_Checkpoints e"
  by (induction ps parts batch e rule: apply_partitions.induct)
    (auto split: prod.splits option.splits dest!: apply_updates_keeps)

definition cache_kept :: "Engine \<Rightarrow> Engine \<Rightarrow> bool" where
  "cache_kept e e' \<longleftrightarrow> en_Vertices e' = en_Vertices e \<and> en_Config e' = en_Config e \<and> en_Halted e' = en_Halted e
     \<and> en_Agg e' = en_Agg e"

lemma count_drop_nth:
  "i < length xs \<Longrightarrow> count_list xs v = count_list (drop_nth i xs) v + (if v = xs ! i then 1 else 0)"
  by (subst id_take_nth_drop [of i xs]) (simp_all add: drop_nth_def)

lemma cache_collect_keeps:
  "collectResultsOptimized arrive dl porder parts k pending batch e = (r, e') \<Longrightarrow>
   cache_kept e e' \<and> (r = None \<longrightarrow> (\<forall>v. en_Calls e' v = en_Calls e v + count_list (map vt_VertexID pending) v))"
proof (induction arrive dl porder parts k pending batch e rule: collectResultsOptimized.induct)
  case (1 arrive dl porder parts k pending batch e)
  consider (empty) "pending = []" | (late) "pending \<noteq> []" "map_option fst dl = Some k"
    | (turn) "pending \<noteq> []" "map_option fst dl \<noteq> Some k" by blast
  then show ?case
  proof cases
    case turn
    let ?i = "arrive k mod length pending"
    let ?t = "pending ! ?i"
    let ?b = "batch @ [executeTask ?t]"
    let ?p = "drop_nth ?i pending"
    have i: "?i < length pending" using turn by simp
    have calls: "en_Calls (task_ran ?t e) v + count_list (map vt_VertexID ?p) v
        = en_Calls e v + count_list (map vt_VertexID pending) v" for v
      using count_drop_nth [of ?i "map vt_VertexID pending" v] i
      by (simp add: task_ran_def Let_def drop_nth_map)
    have ran: "cache_kept e (task_ran ?t e)" by (simp add: cache_kept_def)
    show ?thesis
    proof (cases "batch_size \<le> length ?b \<or> ?p = []")
      case True
      obtain q e2 where app: "processBatchOptimized (porder k) parts ?b (task_ran ?t e) = (q, e2)" by fastforce
      have kept: "cache_kept e e2" and same: "en_Calls e2 = en_Calls (task_ran ?t e)"
        using app [unfolded processBatchOptimized_def, THEN apply_partitions_keeps] ran by (simp_all add: cache_kept_def)
      show ?thesis
      proof (cases q)
        case (Some err)
        then show ?thesis using "1.prems" turn True app kept
          by (subst (asm) collectResultsOptimized.simps) (auto simp: Let_def)
      next
        case None
        then have rest: "collectResultsOptimized arrive dl porder parts (Suc k) ?p [] e2 = (r, e')"
          using "1.prems" turn True app by (subst (asm) collectResultsOptimized.simps) (simp add: Let_def)
        from "1.IH"(1) [OF turn refl refl refl refl refl True app [symmetric] None rest] kept same calls
        show ?thesis by (simp add: cache_kept_def)
      qed
    next
      case False
      then have rest: "collectResultsOptimized arrive dl porder parts (Suc k) ?p ?b (task_ran ?t e) = (r, e')"
        using "1.prems" turn by (subst (asm) collectResultsOptimized.simps) (simp add: Let_def)
      from "1.IH"(2) [OF turn refl refl refl refl refl False rest] ran calls
      show ?thesis by (simp add: cache_kept_def)
    qed
  next
    case empty
    with "1.prems" show ?thesis by (subst (asm) collectResultsOptimized.simps) (simp add: cache_kept_def)
  next
    case late
    with "1.prems" show ?thesis by (subst (asm) collectResultsOptimized.simps) (auto simp: cache_kept_def)
  qed
qed

lemma count_distinct: "distinct xs \<Longrightarrow> count_list xs v = (if v \<in> set xs then 1 else 0)"
  by (induction xs) auto

lemma cache_superstep_keeps:
  assumes "executeSuperstepOptimized ch step coe = (r, coe')"
  shows "cache_kept (co_base coe) (co_base coe') \<and> co_partitions coe' = co_partitions coe
    \<and> (r = None \<longrightarrow> (\<forall>v. en_Calls (co_base coe') v = en_Calls (co_base coe) v
        + count_list (group_active (cc_sched ch) (co_partitions coe) (getActiveVertices (cc_ids ch) (co_base coe))) v
        \<or> getActiveVertices (cc_ids ch) (co_base coe) = []))"
proof (cases "getActiveVertices (cc_ids ch) (co_base coe) = []")
  case False
  let ?gs = "group_active (cc_sched ch) (co_partitions coe) (getActiveVertices (cc_ids ch) (co_base coe))"
  obtain tasks e1 where sch: "scheduleVertexTasks step ?gs (co_base coe) = (tasks, e1)" by fastforce
  note k = schedule_keeps [OF sch]
  obtain q e2 where col: "collectResultsOptimized (cc_arrive ch) (cc_deadline ch) (cc_batches ch)
      (co_partitions coe) 0 tasks [] e1 = (q, e2)" by fastforce
  have "r = q" "coe' = coe\<lparr>co_base := e2\<rparr>"
    using assms False sch col by (auto simp: executeSuperstepOptimized_def Let_def)
  moreover have "map vt_VertexID tasks = ?gs" using k by (simp add: vertex_task_def comp_def)
  ultimately show ?thesis using cache_collect_keeps [OF col] k by (auto simp: cache_kept_def)
qed (use assms in \<open>auto simp: executeSuperstepOptimized_def cache_kept_def\<close>)

lemma cache_step_config:
  "runOptimizedStep ch step coe = (r, coe') \<Longrightarrow> en_Config (co_base coe') = en_Config (co_base coe)"
  by (auto simp: runOptimizedStep_def Let_def cache_kept_def split: prod.splits option.splits if_splits
      dest!: cache_superstep_keeps)

subsection \<open>The loop\<close>

function optimized_steps ::
  "(int \<Rightarrow> CacheChoices) \<Rightarrow> int \<Rightarrow> CacheOptimizedEngine \<Rightarrow> string option \<times> CacheOptimizedEngine" where
  "optimized_steps choices step coe =
     (if step < ec_MaxSupersteps (en_Config (co_base coe)) \<and> \<not> en_Halted (co_base coe) then
        (case runOptimizedStep (choices step) step coe of
           (Some err, coe') \<Rightarrow> (Some err, coe')
         | (None, coe') \<Rightarrow> optimized_steps choices (step + 1) coe')
      else (None, coe))"
  by pat_completeness auto
termination
proof (relation "measure (\<lambda>(choices, step, coe). nat (ec_MaxSupersteps (en_Config (co_base coe)) - step))", goal_cases)
  case 1
  then show ?case by simp
next
  case (2 choices step coe r coe')
  then have "runOptimizedStep (choices step) step coe = (r, coe')" by simp
  from cache_step_config [OF this] 2 show ?case by simp
qed

declare optimized_steps.simps [simp del]

definition Optimized_Run ::
  "string list \<Rightarrow> (int \<Rightarrow> CacheChoices) \<Rightarrow> CacheOptimizedEngine \<Rightarrow> string option \<times> CacheOptimizedEngine" where
  "Optimized_Run vids choices coe =
     (let e1 = initActiveVertices vids (startStreamingIfEnabled (co_base coe));
          e2 = emitEvent ''execution_start'' [] 0 [''total_vertices'' \<mapsto> VInt (of_nat (length vids))] e1
      in case optimized_steps choices 0 (coe\<lparr>co_base := e2\<rparr>) of
           (Some err, coe3) \<Rightarrow> (Some err, coe3)
         | (None, coe3) \<Rightarrow>
             (None, coe3\<lparr>co_base := emitEvent ''execution_end'' [] (- 1)
                [''final_states'' \<mapsto> VMap (\<lambda>v. map_option VMap (en_States (co_base coe3) v))] (co_base coe3)\<rparr>))"


text \<open>Reading the size of a state is all that is done; it changes nothing.\<close>

definition PrefetchVertexData :: "string \<Rightarrow> CacheOptimizedEngine \<Rightarrow> CacheOptimizedEngine" where
  "PrefetchVertexData vertexID coe = coe"

subsection \<open>Calls of the programs in a superstep of the engine\<close>

definition calls_exact :: "string set \<Rightarrow> Engine \<Rightarrow> VertexTask list \<Rightarrow> Engine \<Rightarrow> bool" where
  "calls_exact act e pending e' \<longleftrightarrow>
     (\<forall>v. en_Calls e' v = en_Calls e v + (if v \<in> act \<and> v \<notin> vt_VertexID ` set pending then 1 else 0))"

lemma calls_exact_turn:
  assumes ne: "pending \<noteq> []" and inv: "bsp_inv act e pending errs e1" and calls: "calls_exact act e pending e1"
    and ok: "\<forall>v\<in>act. vr_Error (bsp_result e v) = None"
    and turn: "collect_turn arrival step pending errs e1 = (p, er, e2)"
  shows "calls_exact act e p e2"
proof -
  let ?i = "arrival mod length pending"
  let ?t = "pending ! ?i"
  have i: "?i < length pending" using ne by simp
  then have t: "?t \<in> set pending" by simp
  with inv ok have act: "vt_VertexID ?t \<in> act" and res: "vr_Error (executeTask ?t) = None"
    unfolding bsp_inv_def bsp_result_def by metis+
  have ids: "vt_VertexID ` set (drop_nth ?i pending) = vt_VertexID ` set pending - {vt_VertexID ?t}"
    using distinct_drop_nth [of "map vt_VertexID pending" ?i] inv i
    by (simp add: bsp_inv_def drop_nth_map flip: set_map)
  have "p = drop_nth ?i pending" "en_Calls e2 = (en_Calls e1)(vt_VertexID ?t := Suc (en_Calls e1 (vt_VertexID ?t)))"
    using turn res by (auto simp: collect_turn_def Let_def handleVertexResult_def emit_vertex_end_def task_ran_def)
  moreover have "vt_VertexID ?t \<in> vt_VertexID ` set pending" using t by blast
  ultimately show ?thesis using calls act ids unfolding calls_exact_def by simp
qed

lemma superstep_calls:
  assumes ids: "map_order (en_Active e) ids" and retry: "\<And>v. 0 \<le> retry_of e v"
    and ok: "\<forall>v. en_Active e v = Some True \<longrightarrow> vr_Error (bsp_result e v) = None"
    and run: "executeSuperstep ids arrive None step e = (r, e')"
  shows "en_Calls e' v = en_Calls e v + (if en_Active e v = Some True then 1 else 0)"
proof -
  let ?act = "{v. en_Active e v = Some True}"
  let ?vs = "getActiveVertices ids e"
  have vs: "distinct ?vs" "set ?vs = ?act" using ids by (auto simp: getActiveVertices_def map_order_def)
  show ?thesis
  proof (cases "?vs = []")
    case True
    then have "?act = {}" using vs by simp
    then show ?thesis using run True by (auto simp: executeSuperstep_def)
  next
    case False
    obtain tasks e1 where sch: "scheduleVertexTasks step ?vs e = (tasks, e1)" by fastforce
    note k = schedule_keeps [OF sch]
    have col: "collect arrive None step 0 tasks [] e1 = (r, e')"
      using run False sch by (simp add: executeSuperstep_def Let_def)
    have idmap: "map vt_VertexID tasks = ?vs" using k by (simp add: vertex_task_def comp_def)
    then have idset: "vt_VertexID ` set tasks = ?act" using vs(2) by (metis set_map)
    have "retry_of e1 v = retry_of e v" for v using k by (simp add: retry_of_def)
    then have start: "bsp_inv ?act e tasks [] e1 \<and> calls_exact ?act e tasks e1"
      using k retry vs idmap idset
      by (auto simp: bsp_inv_def bsp_states_def bsp_active_def vertex_task_def calls_exact_def)
    have ok': "\<forall>v\<in>?act. vr_Error (bsp_result e v) = None" using ok by simp
    have "no_retries ?act e" using ok by (simp add: no_retries_def)
    then obtain errs where "calls_exact ?act e [] e'"
      by (rule_tac collect_invariant [OF col, of "\<lambda>p er e'. bsp_inv ?act e p er e' \<and> calls_exact ?act e p e'", OF start])
        (auto intro: bsp_turn calls_exact_turn [OF _ _ _ ok'] split: prod.splits)
    then show ?thesis by (simp add: calls_exact_def)
  qed
qed

subsection \<open>Two runs side by side\<close>

text \<open>The engines agree on all that a superstep depends on: what differs is events, retries, checkpoints.\<close>

definition same_course :: "Engine \<Rightarrow> Engine \<Rightarrow> bool" where
  "same_course e f \<longleftrightarrow> en_Vertices f = en_Vertices e \<and> en_States f = en_States e \<and> en_Active f = en_Active e
     \<and> en_Calls f = en_Calls e \<and> en_Halted f = en_Halted e
     \<and> ec_MaxSupersteps (en_Config f) = ec_MaxSupersteps (en_Config e)
     \<and> (\<forall>v. GetMessages v (en_Agg f) = GetMessages v (en_Agg e))"

lemma same_bsp:
  assumes "same_course e f"
  shows "bsp_result f = bsp_result e" "bsp_states act f = bsp_states act e" "bsp_active act f = bsp_active act e"
proof -
  have "vertex_task f v = vertex_task e v" for v
    using assms by (simp add: same_course_def vertex_task_def program_of_def state_of_def)
  then show r: "bsp_result f = bsp_result e" by (simp add: bsp_result_def fun_eq_iff)
  show "bsp_states act f = bsp_states act e" "bsp_active act f = bsp_active act e"
    using assms by (auto simp: bsp_states_def bsp_active_def r same_course_def)
qed

definition cache_choices :: "string list \<Rightarrow> VertexBlock list list \<Rightarrow> (int \<Rightarrow> CacheChoices) \<Rightarrow> bool" where
  "cache_choices vids parts choices \<longleftrightarrow> (\<forall>s. distinct (cc_ids (choices s)) \<and> set (cc_ids (choices s)) = set vids
     \<and> valid_order parts (cc_sched (choices s)) \<and> (\<forall>k. valid_order parts (cc_batches (choices s) k)))"

lemma same_superstep:
  assumes same: "same_course (co_base coe) e" and nonneg: "retries_nonneg e" and vids: "dom (en_Active e) = set vids"
    and cid: "distinct (cc_ids cch)" "set (cc_ids cch) = set vids"
    and ord: "valid_order (co_partitions coe) (cc_sched cch)" "\<And>k. valid_order (co_partitions coe) (cc_batches cch k)"
    and sid: "distinct ids" "set ids = set vids"
    and cache: "executeSuperstepOptimized cch step coe = (None, coe')"
    and run: "executeSuperstep ids arrive None step e = (r, e')"
  shows "r = None \<and> en_States (co_base coe') = en_States e' \<and> en_Active (co_base coe') = en_Active e'
    \<and> en_Calls (co_base coe') = en_Calls e' \<and> dom (en_Active e') = set vids"
proof -
  let ?b = "co_base coe"
  let ?act = "{v. en_Active ?b v = Some True}"
  have mo: "map_order (en_Active ?b) (cc_ids cch)" "map_order (en_Active e) ids"
    using same vids cid sid by (simp_all add: map_order_def same_course_def)
  note c = cache_superstep [OF mo(1) ord cache, unfolded Let_def]
  have act: "{v. en_Active e v = Some True} = ?act" using same by (simp add: same_course_def)
  have ok: "\<forall>v. en_Active e v = Some True \<longrightarrow> vr_Error (bsp_result e v) = None"
    using c same_bsp(1) [OF same] act by auto
  have nn: "0 \<le> retry_of e v" for v using nonneg by (simp add: retries_nonneg_def)
  have "no_retries {v. en_Active e v = Some True} e" using ok by (simp add: no_retries_def)
  from superstep_bsp [OF mo(2) nn this run] ok
  have r: "r = None" and st: "en_States e' = bsp_states ?act ?b" "en_Active e' = bsp_active ?act ?b"
    using same_bsp [OF same] act by simp_all
  have gs: "count_list (group_active (cc_sched cch) (co_partitions coe) (getActiveVertices (cc_ids cch) ?b)) v
      = (if v \<in> ?act then 1 else 0)" for v
  proof -
    have "group_active (cc_sched cch) (co_partitions coe) (getActiveVertices (cc_ids cch) ?b)
        = grouped (\<lambda>v. getVertexPartition v (co_partitions coe)) (cc_sched cch) (getActiveVertices (cc_ids cch) ?b)"
      by (simp add: group_active_def grouped_def)
    moreover have "distinct (getActiveVertices (cc_ids cch) ?b)" "set (getActiveVertices (cc_ids cch) ?b) = ?act"
      using mo(1) by (auto simp: getActiveVertices_def map_order_def)
    ultimately show ?thesis using ord(1) valid_order_covers [OF ord(1)]
      by (subst count_distinct) (auto simp: set_grouped valid_order_def intro: distinct_grouped)
  qed
  have calls: "en_Calls (co_base coe') v = en_Calls e' v" for v
  proof (cases "getActiveVertices (cc_ids cch) ?b = []")
    case True
    then have none: "?act = {}" using mo(1) by (auto simp: getActiveVertices_def map_order_def filter_empty_conv)
    from True cache have "coe' = coe" by (simp add: executeSuperstepOptimized_def)
    moreover have "en_Calls e' v = en_Calls e v" using superstep_calls [OF mo(2) nn ok run, of v] none act by auto
    ultimately show ?thesis using same by (simp add: same_course_def)
  next
    case False
    then have "en_Calls (co_base coe') v = en_Calls ?b v + (if v \<in> ?act then 1 else 0)"
      using cache_superstep_keeps [OF cache] gs [of v] by simp
    then show ?thesis using superstep_calls [OF mo(2) nn ok run, of v] act same by (auto simp: same_course_def)
  qed
  have "dom (en_Active e') = set vids"
    using st(2) vids same by (auto simp: bsp_active_def same_course_def dom_def split: if_splits)
  moreover from calls have "en_Calls (co_base coe') = en_Calls e'" by (rule ext)
  ultimately show ?thesis using r st c by simp
qed


lemma same_step:
  assumes same: "same_course (co_base coe) e" and nonneg: "retries_nonneg e" and vids: "dom (en_Active e) = set vids"
    and cid: "distinct (cc_ids cch)" "set (cc_ids cch) = set vids"
    and ord: "valid_order (co_partitions coe) (cc_sched cch)" "\<And>k. valid_order (co_partitions coe) (cc_batches cch k)"
    and sid: "distinct (so_ids ch)" "set (so_ids ch) = set vids" and dl: "so_deadline ch = None"
    and cache: "runOptimizedStep cch step coe = (None, coe')" and run: "runStep ch step e = (r, e')"
  shows "r = None \<and> same_course (co_base coe') e' \<and> retries_nonneg e' \<and> dom (en_Active e') = set vids
    \<and> co_partitions coe' = co_partitions coe"
proof -
  let ?b = "co_base coe"
  let ?c = "e\<lparr>en_Checkpoints := put_checkpoint (so_keys ch) step (en_States e) (en_Checkpoints e)\<rparr>"
  let ?s = "emitEvent ''superstep_start'' [] step (active_count (so_ids ch) ?c) ?c"
  let ?cb = "?b\<lparr>en_Checkpoints := put_checkpoint (cc_keys cch) step (en_States ?b) (en_Checkpoints ?b)\<rparr>"
  let ?sb = "coe\<lparr>co_base := emitEvent ''superstep_start'' [] step (active_count (cc_ids cch) ?cb) ?cb\<rparr>"
  obtain q e3 where x: "executeSuperstep (so_ids ch) (so_arrive ch) None step ?s = (q, e3)" by fastforce
  obtain qb coe3 where xb: "executeSuperstepOptimized cch step ?sb = (qb, coe3)" by fastforce
  with cache have qb: "qb = None" by (auto simp: runOptimizedStep_def Let_def split: option.splits)
  have "same_course (co_base ?sb) ?s" using same by (simp add: same_course_def)
  moreover have "retries_nonneg ?s" using nonneg by (simp add: retries_nonneg_def retry_of_def)
  ultimately have step: "q = None \<and> en_States (co_base coe3) = en_States e3 \<and> en_Active (co_base coe3) = en_Active e3
    \<and> en_Calls (co_base coe3) = en_Calls e3 \<and> dom (en_Active e3) = set vids"
    using vids cid ord sid xb [unfolded qb] x by (intro same_superstep [of ?sb ?s]) simp_all
  have kb: "cache_kept (co_base ?sb) (co_base coe3)" "co_partitions coe3 = co_partitions coe"
    using cache_superstep_keeps [OF xb] by simp_all
  note k = executeSuperstep_keeps [OF x]
  have active: "hasActiveVertices (cc_ids cch) (co_base coe3) = hasActiveVertices (so_ids ch) e3"
    using step cid sid by (simp add: hasActiveVertices_def list_ex_iff)
  have nn: "retries_nonneg e3" by (rule superstep_retries [OF x]) (use nonneg in \<open>simp add: retries_nonneg_def retry_of_def\<close>)
  let ?f = "if hasActiveVertices (so_ids ch) e3 then e3 else e3\<lparr>en_Halted := True\<rparr>"
  have e': "r = None" "en_Vertices e' = en_Vertices e3" "en_Active e' = en_Active e3" "en_States e' = en_States e3"
      "en_Calls e' = en_Calls e3" "en_Retry e' = en_Retry e3" "en_Config e' = en_Config e3"
      "en_Halted e' = (en_Halted e3 \<or> \<not> hasActiveVertices (so_ids ch) e3)" "en_Agg e' = ClearMessages (en_Agg e3)"
    using run x step dl by (auto simp: runStep_def Let_def)
  have c': "en_Vertices (co_base coe') = en_Vertices (co_base coe3)" "en_Active (co_base coe') = en_Active (co_base coe3)"
      "en_States (co_base coe') = en_States (co_base coe3)" "en_Calls (co_base coe') = en_Calls (co_base coe3)"
      "en_Config (co_base coe') = en_Config (co_base coe3)" "co_partitions coe' = co_partitions coe3"
      "en_Halted (co_base coe') = (en_Halted (co_base coe3) \<or> \<not> hasActiveVertices (cc_ids cch) (co_base coe3))"
      "en_Agg (co_base coe') = ClearMessages (en_Agg (co_base coe3))"
    using cache xb [unfolded qb] by (auto simp: runOptimizedStep_def Let_def)
  have "same_course (co_base coe') e'"
    using same step kb k active unfolding same_course_def e' c' by (simp add: cache_kept_def)
  then show ?thesis using step kb c' nn by (simp add: e' retries_nonneg_def retry_of_def)
qed

lemma same_run:
  "optimized_steps cchoices step coe = (None, coe') \<Longrightarrow> run_steps choices step e = (r, e') \<Longrightarrow>
   same_course (co_base coe) e \<Longrightarrow> retries_nonneg e \<Longrightarrow> dom (en_Active e) = set vids \<Longrightarrow>
   cache_choices vids (co_partitions coe) cchoices \<Longrightarrow> sp_choices vids choices \<Longrightarrow>
   r = None \<and> same_course (co_base coe') e'"
proof (induction cchoices step coe arbitrary: e rule: optimized_steps.induct)
  case (1 cchoices step coe)
  have more: "(step < ec_MaxSupersteps (en_Config e) \<and> \<not> en_Halted e)
      = (step < ec_MaxSupersteps (en_Config (co_base coe)) \<and> \<not> en_Halted (co_base coe))"
    using "1.prems"(3) by (simp add: same_course_def)
  show ?case
  proof (cases "step < ec_MaxSupersteps (en_Config (co_base coe)) \<and> \<not> en_Halted (co_base coe)")
    case False
    with "1.prems" more show ?thesis by (subst (asm) optimized_steps.simps, subst (asm) run_steps.simps) auto
  next
    case True
    obtain coe1 where c: "runOptimizedStep (cchoices step) step coe = (None, coe1)"
      and crest: "optimized_steps cchoices (step + 1) coe1 = (None, coe')"
      using "1.prems"(1) True by (subst (asm) optimized_steps.simps) (auto split: prod.splits option.splits)
    obtain q e1 where s: "runStep (choices step) step e = (q, e1)" by fastforce
    have one: "q = None \<and> same_course (co_base coe1) e1 \<and> retries_nonneg e1 \<and> dom (en_Active e1) = set vids
        \<and> co_partitions coe1 = co_partitions coe"
      by (rule same_step [OF "1.prems"(3-5) _ _ _ _ _ _ _ c s])
        (use "1.prems"(6,7) in \<open>simp_all add: cache_choices_def sp_choices_def\<close>)
    then have "run_steps choices (step + 1) e1 = (r, e')"
      using "1.prems"(2) True more s by (subst (asm) run_steps.simps) simp
    from "1.IH" [OF True c [symmetric] refl crest this] one "1.prems"(6,7) show ?thesis by simp
  qed
qed

text \<open>
  a run of the cache-optimised engine that returns without an error ends as a run of the standard
  engine does on the same vertices, states and configuration: that run returns without an error too,
  and ends with the same states, the same active vertices and the same number of calls of every
  program, whatever the orders in which either engine visits, schedules and collects. The messages,
  which the optimised engine drops, make no difference.
\<close>

theorem cache_run_agrees:
  assumes "Optimized_Run vids cchoices (NewCacheOptimizedEngine pids cpus clock vertices init config) = (None, coe)"
    and "cache_choices vids (partitionVertices pids cpus) cchoices" and "sp_choices vids choices"
  shows "case Run vids choices (NewEngine cpus clock vertices init config) of (r, e) \<Rightarrow>
    r = None \<and> en_States e = en_States (co_base coe) \<and> en_Active e = en_Active (co_base coe)
    \<and> en_Calls e = en_Calls (co_base coe) \<and> en_Halted e = en_Halted (co_base coe)"
proof -
  let ?i = "initActiveVertices vids (startStreamingIfEnabled (NewEngine cpus clock vertices init config))"
  let ?e = "emitEvent ''execution_start'' [] 0 [''total_vertices'' \<mapsto> VInt (of_nat (length vids))] ?i"
  let ?c = "(NewCacheOptimizedEngine pids cpus clock vertices init config)\<lparr>co_base := ?e\<rparr>"
  obtain r e where run: "run_steps choices 0 ?e = (r, e)" by fastforce
  obtain coe1 where c: "optimized_steps cchoices 0 ?c = (None, coe1)"
      and coe: "coe = coe1\<lparr>co_base := emitEvent ''execution_end'' [] (- 1)
                [''final_states'' \<mapsto> VMap (\<lambda>v. map_option VMap (en_States (co_base coe1) v))] (co_base coe1)\<rparr>"
    using assms(1) by (auto simp: Optimized_Run_def Let_def NewCacheOptimizedEngine_def split: prod.splits option.splits)
  have "dom (en_Active ?e) = set vids" "retries_nonneg ?e" "en_Agg ?e = en_Agg ?e"
    by (auto simp: initActiveVertices_def startStreamingIfEnabled_def NewEngine_def Let_def init_active
        retries_nonneg_def retry_of_def dom_def)
  then have "r = None \<and> same_course (co_base coe1) e"
    using assms(2,3) by (intro same_run [OF c run]) (simp_all add: same_course_def NewCacheOptimizedEngine_def)
  then show ?thesis using run by (simp add: Run_def Let_def coe same_course_def)
qed


definition one_step :: EngineConfig where
  "one_step = (sample_config 0)\<lparr>ec_MaxSupersteps := 1\<rparr>"

definition cache_sample :: CacheChoices where
  "cache_sample = \<lparr>cc_ids = [''a''], cc_sched = [0], cc_arrive = (\<lambda>_. 0), cc_deadline = None,
     cc_batches = (\<lambda>_. [0]), cc_keys = []\<rparr>"

theorem cache_run_agrees_witness:
  "\<exists>coe. Optimized_Run [''a''] (\<lambda>_. cache_sample)
      (NewCacheOptimizedEngine [''a''] 1 (\<lambda>_. 0) [''a'' \<mapsto> counting_program] [''a'' \<mapsto> Map.empty] one_step) = (None, coe)
    \<and> en_States (snd (Run [''a''] (\<lambda>_. sample_choices)
        (NewEngine 1 (\<lambda>_. 0) [''a'' \<mapsto> counting_program] [''a'' \<mapsto> Map.empty] one_step))) = en_States (co_base coe)"
proof -
  let ?coe = "NewCacheOptimizedEngine [''a''] 1 (\<lambda>_. 0) [''a'' \<mapsto> counting_program] [''a'' \<mapsto> Map.empty] one_step"
  have part: "partitionVertices [''a''] 1 = [[new_block\<lparr>vb_vertices := [''a'']\<rparr>]]"
    by (simp add: partitionVertices_def place_vertex_def add_block_def add_to_last_def new_block_def Let_def)
  let ?i = "initActiveVertices [''a''] (startStreamingIfEnabled (co_base ?coe))"
  let ?c = "?coe\<lparr>co_base := emitEvent ''execution_start'' [] 0 [''total_vertices'' \<mapsto> VInt 1] ?i\<rparr>"
  have c: "ec_MaxSupersteps (en_Config (co_base ?c)) = 1" "\<not> en_Halted (co_base ?c)"
      "en_Active (co_base ?c) = [''a'' \<mapsto> True]" "co_partitions ?c = [[new_block\<lparr>vb_vertices := [''a'']\<rparr>]]"
      "en_Vertices (co_base ?c) = [''a'' \<mapsto> counting_program]" "en_States (co_base ?c) = [''a'' \<mapsto> Map.empty]"
    by (simp_all add: NewCacheOptimizedEngine_def NewEngine_def Let_def one_step_def sample_config_def
        startStreamingIfEnabled_def initActiveVertices_def part)
  obtain coe1 where step: "runOptimizedStep cache_sample 0 ?c = (None, coe1)"
    using c
    by (simp add: runOptimizedStep_def executeSuperstepOptimized_def getActiveVertices_def group_active_def
        getVertexPartition_def new_block_def vertex_task_def counting_program_def program_of_def cache_sample_def
        collectResultsOptimized.simps [of _ _ _ _ _ "[_]"] collectResultsOptimized.simps [of _ _ _ _ _ "[]"]
        drop_nth_def processBatchOptimized_def executeTask_def SimpleCounter_Compute_def Let_def)
  have "optimized_steps (\<lambda>_. cache_sample) 0 ?c = (None, coe1)"
    using c(1,2) step cache_step_config [OF step]
    by (subst optimized_steps.simps, subst optimized_steps.simps) simp
  then obtain coe where run: "Optimized_Run [''a''] (\<lambda>_. cache_sample) ?coe = (None, coe)"
    by (simp add: Optimized_Run_def Let_def)
  have "cache_choices [''a''] (partitionVertices [''a''] 1) (\<lambda>_. cache_sample)"
    by (simp add: cache_choices_def part valid_order_def cache_sample_def)
  moreover have "sp_choices [''a''] (\<lambda>_. sample_choices)" by (simp add: sp_choices_def sample_choices_def)
  moreover obtain r e where "Run [''a''] (\<lambda>_. sample_choices)
      (NewEngine 1 (\<lambda>_. 0) [''a'' \<mapsto> counting_program] [''a'' \<mapsto> Map.empty] one_step) = (r, e)" by fastforce
  ultimately show ?thesis using cache_run_agrees [OF run] run by fastforce
qed

end
