(* ===== verification/ServerWorkload.thy ===== *)
theory ServerWorkload
  imports EnhancedState CacheRun
begin

section \<open>The workload endpoints of the server (cmd/flowgraph-server/workload.go)\<close>

text \<open>
  Four HTTP handlers under one mutex start and stop two loops that produce load: one runs a small
  engine at every tick, one sends and receives on a channel. A context is a number; the handlers keep
  the cancel functions as the numbers of their contexts. \<^verbatim>\<open>time.ParseDuration\<close> and the printing
  of durations are arguments, as are the arms that the loops' selects take.
\<close>

subsection \<open>The manager\<close>

record workloadManager =
  engCancel :: "nat option"
  chCancel :: "nat option"

datatype workload = EngineLoad int | ChannelLoad string int

text \<open>The manager, the contexts created and cancelled so far, and the goroutines started with them.\<close>

record workload_server =
  ws_m :: workloadManager
  ws_next :: nat
  ws_cancelled :: "nat set"
  ws_started :: "(nat \<times> workload) list"

definition new_server :: workload_server where
  "new_server = \<lparr>ws_m = \<lparr>engCancel = None, chCancel = None\<rparr>, ws_next = 0, ws_cancelled = {}, ws_started = []\<rparr>"

definition millis :: "int \<Rightarrow> int" where
  "millis n = n * 1000000"

text \<open>\<open>q\<close> gives the first value of a query parameter, or nothing.\<close>

definition rate_of :: "(string \<Rightarrow> int option) \<Rightarrow> (string \<Rightarrow> string) \<Rightarrow> int \<Rightarrow> int" where
  "rate_of parse q rate =
     (let v = q ''rate_ms'' in
      if v \<noteq> [] then (case parse (v @ ''ms'') of Some ms \<Rightarrow> ms | None \<Rightarrow> rate) else rate)"

definition start_load :: "workload \<Rightarrow> workload_server \<Rightarrow> workload_server" where
  "start_load w sv = sv\<lparr>ws_next := Suc (ws_next sv), ws_started := ws_started sv @ [(ws_next sv, w)]\<rparr>"

definition startEngine ::
  "(string \<Rightarrow> int option) \<Rightarrow> (int \<Rightarrow> string) \<Rightarrow> (string \<Rightarrow> string) \<Rightarrow> workload_server \<Rightarrow> (nat \<times> string) \<times> workload_server" where
  "startEngine parse show_dur q sv =
     (if engCancel (ws_m sv) \<noteq> None then ((409, ''engine workload already running'' @ [CHR 0x0A]), sv)
      else let rate = rate_of parse q (millis 200);
               sv1 = sv\<lparr>ws_m := (ws_m sv)\<lparr>engCancel := Some (ws_next sv)\<rparr>\<rparr>
        in ((202, ''engine workload started at '' @ show_dur rate @ [CHR 0x0A]), start_load (EngineLoad rate) sv1))"

definition stopEngine :: "workload_server \<Rightarrow> (nat \<times> string) \<times> workload_server" where
  "stopEngine sv =
     ((200, ''engine workload stopped'' @ [CHR 0x0A]),
      (case engCancel (ws_m sv) of
         Some ctx \<Rightarrow> sv\<lparr>ws_cancelled := insert ctx (ws_cancelled sv), ws_m := (ws_m sv)\<lparr>engCancel := None\<rparr>\<rparr>
       | None \<Rightarrow> sv))"

definition startChannel ::
  "(string \<Rightarrow> int option) \<Rightarrow> (int \<Rightarrow> string) \<Rightarrow> (string \<Rightarrow> string) \<Rightarrow> workload_server \<Rightarrow> (nat \<times> string) \<times> workload_server" where
  "startChannel parse show_dur q sv =
     (if chCancel (ws_m sv) \<noteq> None then ((409, ''channel workload already running'' @ [CHR 0x0A]), sv)
      else let kind = (if q ''kind'' = [] then ''inmemory'' else q ''kind'');
               rate = rate_of parse q (millis 50);
               sv1 = sv\<lparr>ws_m := (ws_m sv)\<lparr>chCancel := Some (ws_next sv)\<rparr>\<rparr>
        in ((202, ''channel workload started: kind='' @ kind @ '' rate='' @ show_dur rate @ [CHR 0x0A]),
            start_load (ChannelLoad kind rate) sv1))"

definition stopChannel :: "workload_server \<Rightarrow> (nat \<times> string) \<times> workload_server" where
  "stopChannel sv =
     ((200, ''channel workload stopped'' @ [CHR 0x0A]),
      (case chCancel (ws_m sv) of
         Some ctx \<Rightarrow> sv\<lparr>ws_cancelled := insert ctx (ws_cancelled sv), ws_m := (ws_m sv)\<lparr>chCancel := None\<rparr>\<rparr>
       | None \<Rightarrow> sv))"

subsection \<open>The engine loop\<close>

definition benchVertex :: vprog where
  "benchVertex n vertexID state messages =
     \<lparr>cr_Arg = state, cr_State = state, cr_Messages = [], cr_Halt = True, cr_Error = None\<rparr>"

definition bench_config :: EngineConfig where
  "bench_config = \<lparr>ec_MaxSupersteps = 1, ec_Parallelism = 0, ec_ParallelismFactor = 0, ec_QueueCapacity = 256,
     ec_Timeout = 0, ec_RetryPolicy = \<lparr>rp_MaxRetries = 0, rp_BackoffMs = 0\<rparr>, ec_StreamOutput = False\<rparr>"

definition bench_vertices :: "string \<rightharpoonup> vprog" where
  "bench_vertices = [''A'' \<mapsto> benchVertex, ''B'' \<mapsto> benchVertex]"

definition bench_states :: vstates where
  "bench_states = [''A'' \<mapsto> Map.empty, ''B'' \<mapsto> Map.empty]"

text \<open>
  The arms of the select: the context is done, or a tick, with what the engine's run depends on. All
  engines share the map of the states; each is stopped after its run.
\<close>

datatype engine_arm = EngineDone | EngineTick "nat \<Rightarrow> int" "string list" "int \<Rightarrow> StepChoices"

fun engine_ticks :: "int \<Rightarrow> engine_arm list \<Rightarrow> vstates \<Rightarrow> (string, unit) outcome \<times> vstates \<times> engine_error option list" where
  "engine_ticks cpus [] states = (Blocks, states, [])"
| "engine_ticks cpus (EngineDone # arms) states = (Returns (), states, [])"
| "engine_ticks cpus (EngineTick clock vids choices # arms) states =
     (case Run vids choices (NewEngine cpus clock bench_vertices states bench_config) of
        (r, eng) \<Rightarrow>
          (case engine_ticks cpus arms (en_States eng) of (out, states', rs) \<Rightarrow> (out, states', r # rs)))"

definition new_ticker :: "int \<Rightarrow> string option" where
  "new_ticker hz = (if hz \<le> 0 then Some ''non-positive interval for NewTicker'' else None)"

definition runEngineLoop :: "int \<Rightarrow> int \<Rightarrow> engine_arm list \<Rightarrow> (string, unit) outcome \<times> vstates \<times> engine_error option list" where
  "runEngineLoop cpus hz arms =
     (case new_ticker hz of
        Some e \<Rightarrow> (Panics e, bench_states, [])
      | None \<Rightarrow> engine_ticks cpus arms bench_states)"

subsection \<open>The channel loop\<close>

text \<open>A tick carries what the two calls depend on and the two random numbers of the message.\<close>

datatype channel_arm = ChannelDone | ChannelTick chan_call chan_call int int

definition load_message :: "int \<Rightarrow> int \<Rightarrow> Message" where
  "load_message n payload = \<lparr>m_ID = ''m-'' @ show_int n, m_Type = MessageTypeData, m_Source = ''load'',
     m_Target = ''sink'', m_Payload = VInt (word_of_int payload), m_Headers = Map.empty, m_Metadata = Map.empty\<rparr>"

text \<open>The errors of both calls are ignored; a call that does not return ends the loop's progress.\<close>

definition channel_tick :: "chan_call \<Rightarrow> chan_call \<Rightarrow> Message \<Rightarrow> service_channel \<Rightarrow> bool \<times> service_channel" where
  "channel_tick cs cr m c =
     (case service_send cs m c of
        (r, c1) \<Rightarrow> if ended r then (case service_receive cr c1 of (r2, c2) \<Rightarrow> (ended r2, c2)) else (False, c1))"

text \<open>The deferred \<^verbatim>\<open>Close\<close>, whose error is ignored.\<close>

definition load_close :: "chan_call \<Rightarrow> service_channel \<Rightarrow> service_channel" where
  "load_close cc ch = (case ch of
     ViaInMemory c \<Rightarrow> ViaInMemory (snd (InMem_Close c))
   | ViaBuffered c \<Rightarrow> ViaBuffered (Buf_Close c)
   | ViaPersistent c \<Rightarrow> ViaPersistent (snd (PC_Close (cc_io cc) c)))"

fun channel_ticks :: "chan_call \<Rightarrow> channel_arm list \<Rightarrow> service_channel \<Rightarrow> bool \<times> service_channel" where
  "channel_ticks closing [] c = (False, c)"
| "channel_ticks closing (ChannelDone # arms) c = (True, load_close closing c)"
| "channel_ticks closing (ChannelTick cs cr n payload # arms) c =
     (case channel_tick cs cr (load_message n payload) c of
        (True, c1) \<Rightarrow> channel_ticks closing arms c1
      | (False, c1) \<Rightarrow> (False, c1))"

text \<open>\<open>dir\<close> is the new directory of the persistent channel.\<close>

definition load_channel :: "RuntimeConfig \<Rightarrow> chan_call \<Rightarrow> string \<Rightarrow> string \<Rightarrow> service_channel option" where
  "load_channel rc cc dir kind =
     (if kind = ''inmemory'' then Some (ViaInMemory (DefaultInMemoryChannel rc))
      else if kind = ''buffered'' then Some (ViaBuffered (DefaultBufferedChannel rc))
      else if kind = ''persistent'' then
        (case NewPersistentChannel (cc_env cc) (cc_now cc) [] Map.empty
                \<lparr>pcc_DataDir = dir, pcc_MaxSizeMB = 10, pcc_Timeout = seconds 1, pcc_SyncWrites = False,
                 pcc_MaxMessages = 0, pcc_MaxAge = 0, pcc_OnFull = []\<rparr> of
           Inl _ \<Rightarrow> None
         | Inr c \<Rightarrow> Some (ViaPersistent c))
      else None)"

text \<open>How the goroutine ends (it returns, is still in its loop, or panics), with the channel it used.\<close>

definition runChannelLoop ::
  "RuntimeConfig \<Rightarrow> chan_call \<Rightarrow> string \<Rightarrow> string \<Rightarrow> int \<Rightarrow> channel_arm list \<Rightarrow> (string, unit) outcome \<times> service_channel option" where
  "runChannelLoop rc cc dir kind hz arms =
     (case new_ticker hz of
        Some e \<Rightarrow> (Panics e, None)
      | None \<Rightarrow>
          (case load_channel rc cc dir kind of
             None \<Rightarrow> (Returns (), None)
           | Some c \<Rightarrow> (case channel_ticks cc arms c of (fin, c1) \<Rightarrow> (if fin then Returns () else Blocks, Some c1))))"


subsection \<open>At most one of each\<close>

datatype server_request = ReqStartEngine "string \<Rightarrow> string" | ReqStopEngine | ReqStartChannel "string \<Rightarrow> string" | ReqStopChannel

fun serve_request ::
  "(string \<Rightarrow> int option) \<Rightarrow> (int \<Rightarrow> string) \<Rightarrow> server_request \<Rightarrow> workload_server \<Rightarrow> (nat \<times> string) \<times> workload_server" where
  "serve_request parse show_dur (ReqStartEngine q) sv = startEngine parse show_dur q sv"
| "serve_request parse show_dur ReqStopEngine sv = stopEngine sv"
| "serve_request parse show_dur (ReqStartChannel q) sv = startChannel parse show_dur q sv"
| "serve_request parse show_dur ReqStopChannel sv = stopChannel sv"

definition serve_all ::
  "(string \<Rightarrow> int option) \<Rightarrow> (int \<Rightarrow> string) \<Rightarrow> server_request list \<Rightarrow> workload_server \<Rightarrow> workload_server" where
  "serve_all parse show_dur reqs sv = fold (\<lambda>req sv. snd (serve_request parse show_dur req sv)) reqs sv"

definition is_engine :: "workload \<Rightarrow> bool" where
  "is_engine w = (case w of EngineLoad _ \<Rightarrow> True | ChannelLoad _ _ \<Rightarrow> False)"

text \<open>The workloads whose context has not been cancelled.\<close>

definition live :: "workload_server \<Rightarrow> (nat \<times> workload) list" where
  "live sv = filter (\<lambda>(ctx, w). ctx \<notin> ws_cancelled sv) (ws_started sv)"

definition server_inv :: "workload_server \<Rightarrow> bool" where
  "server_inv sv \<longleftrightarrow> (\<forall>(ctx, w)\<in>set (ws_started sv). ctx < ws_next sv) \<and> (\<forall>ctx\<in>ws_cancelled sv. ctx < ws_next sv)
     \<and> map fst (filter (\<lambda>cw. is_engine (snd cw)) (live sv)) = (case engCancel (ws_m sv) of None \<Rightarrow> [] | Some ctx \<Rightarrow> [ctx])
     \<and> map fst (filter (\<lambda>cw. \<not> is_engine (snd cw)) (live sv)) = (case chCancel (ws_m sv) of None \<Rightarrow> [] | Some ctx \<Rightarrow> [ctx])
     \<and> distinct (map fst (live sv))"

lemma live_start:
  "server_inv sv \<Longrightarrow> live (start_load w (sv\<lparr>ws_m := m\<rparr>)) = live sv @ [(ws_next sv, w)]"
  by (auto simp: live_def start_load_def server_inv_def)

lemma start_inv:
  assumes inv: "server_inv sv"
    and m: "engCancel m = (if is_engine w then Some (ws_next sv) else engCancel (ws_m sv))"
      "chCancel m = (if is_engine w then chCancel (ws_m sv) else Some (ws_next sv))"
    and free: "if is_engine w then engCancel (ws_m sv) = None else chCancel (ws_m sv) = None"
  shows "server_inv (start_load w (sv\<lparr>ws_m := m\<rparr>))"
proof -
  have "ws_next sv \<notin> set (map fst (live sv))" using inv by (auto simp: server_inv_def live_def)
  then show ?thesis using inv m free unfolding server_inv_def live_start [OF inv]
    by (auto simp: start_load_def less_Suc_eq)
qed

lemma new_server_inv: "server_inv new_server"
  by (simp add: server_inv_def new_server_def live_def)

lemma live_stop: "live (sv\<lparr>ws_cancelled := insert ctx (ws_cancelled sv), ws_m := m\<rparr>) = filter (\<lambda>cw. fst cw \<noteq> ctx) (live sv)"
  by (auto simp: live_def filter_filter intro: filter_cong)

lemma fst_in_filter: "map fst (filter P xs) = [x] \<Longrightarrow> x \<in> set (map fst xs)"
  by (metis (no_types, lifting) filter_is_subset image_mono list.set_intros(1) list.set_map subsetD)

lemma only_one:
  assumes "map fst (filter P xs) = [x]" and "distinct (map fst xs)"
  shows "filter (\<lambda>cw. fst cw \<noteq> x \<and> P cw) xs = []" and "filter (\<lambda>cw. fst cw \<noteq> x \<and> \<not> P cw) xs = filter (\<lambda>cw. \<not> P cw) xs"
proof -
  have "fst cw = x" if "cw \<in> set xs" "P cw" for cw
  proof -
    from that have "fst cw \<in> set (map fst (filter P xs))" by simp
    with assms(1) show ?thesis by simp
  qed
  then show "filter (\<lambda>cw. fst cw \<noteq> x \<and> P cw) xs = []" by (auto simp: filter_empty_conv)
  have "x \<in> fst ` set (filter P xs)" using arg_cong [OF assms(1), of set] by simp
  then obtain cw where cw: "cw \<in> set xs" "P cw" "fst cw = x" by auto
  from assms(2) have inj: "inj_on fst (set xs)" by (simp add: distinct_map)
  have "fst d \<noteq> x" if "d \<in> set xs" "\<not> P d" for d
    using inj_onD [OF inj, of d cw] that cw by auto
  then show "filter (\<lambda>cw. fst cw \<noteq> x \<and> \<not> P cw) xs = filter (\<lambda>cw. \<not> P cw) xs"
    by (intro filter_cong [OF refl]) blast
qed

lemma serve_inv:
  assumes inv: "server_inv sv"
  shows "server_inv (snd (serve_request parse show_dur req sv))"
proof (cases req)
  case (ReqStartEngine q)
  then show ?thesis using inv
    by (auto simp: startEngine_def Let_def is_engine_def intro!: start_inv)
next
  case (ReqStartChannel q)
  then show ?thesis using inv
    by (auto simp: startChannel_def Let_def is_engine_def intro!: start_inv)
next
  case ReqStopEngine
  show ?thesis
  proof (cases "engCancel (ws_m sv)")
    case (Some ctx)
    let ?P = "\<lambda>cw :: nat \<times> workload. is_engine (snd cw)"
    have one: "map fst (filter ?P (live sv)) = [ctx]" "distinct (map fst (live sv))"
      using inv Some by (simp_all add: server_inv_def)
    from fst_in_filter [OF one(1)] inv have "ctx < ws_next sv" by (auto simp: server_inv_def live_def)
    with inv Some only_one [OF one] show ?thesis
      unfolding ReqStopEngine serve_request.simps stopEngine_def server_inv_def
      by (simp add: live_stop filter_filter conj_commute distinct_map_filter)
  qed (use inv ReqStopEngine in \<open>simp add: stopEngine_def\<close>)
next
  case ReqStopChannel
  show ?thesis
  proof (cases "chCancel (ws_m sv)")
    case (Some ctx)
    let ?P = "\<lambda>cw :: nat \<times> workload. \<not> is_engine (snd cw)"
    have one: "map fst (filter ?P (live sv)) = [ctx]" "distinct (map fst (live sv))"
      using inv Some by (simp_all add: server_inv_def)
    from fst_in_filter [OF one(1)] inv have "ctx < ws_next sv" by (auto simp: server_inv_def live_def)
    with inv Some only_one [OF one] show ?thesis
      unfolding ReqStopChannel serve_request.simps stopChannel_def server_inv_def
      by (simp add: live_stop filter_filter conj_commute distinct_map_filter)
  qed (use inv ReqStopChannel in \<open>simp add: stopChannel_def\<close>)
qed


subsection \<open>Requests that the server accepts and cannot serve_request\<close>

lemma ticker_panics: "rate \<le> 0 \<Longrightarrow> new_ticker rate = Some ''non-positive interval for NewTicker''"
  by (simp add: new_ticker_def)

text \<open>
  a rate that is not positive. The server accepts a rate of zero or less (202, and the workload
  counts as running); the goroutine it starts panics when it makes its ticker, which ends the server.
\<close>

theorem accepted_workload_dies:
  assumes "engCancel (ws_m sv) = None" and "chCancel (ws_m sv) = None" and "q ''rate_ms'' \<noteq> []"
    and "parse (q ''rate_ms'' @ ''ms'') = Some rate" and "rate \<le> 0"
  shows "(case startEngine parse show_dur q sv of ((status, _), sv') \<Rightarrow>
      status = 202 \<and> last (ws_started sv') = (ws_next sv, EngineLoad rate)
      \<and> (\<exists>e. fst (runEngineLoop cpus rate arms) = Panics e))
    \<and> (case startChannel parse show_dur q sv of ((status, _), sv') \<Rightarrow>
      status = 202 \<and> (\<exists>kind. last (ws_started sv') = (ws_next sv, ChannelLoad kind rate)
      \<and> (\<exists>e. fst (runChannelLoop rc cc dir kind rate chan_arms) = Panics e)))"
  using assms by (simp_all add: startEngine_def startChannel_def rate_of_def Let_def start_load_def
      runEngineLoop_def runChannelLoop_def ticker_panics)

definition zero_rate :: "string \<Rightarrow> string" where
  "zero_rate key = (if key = ''rate_ms'' then ''0'' else [])"

definition parse_millis :: "string \<Rightarrow> int option" where
  "parse_millis s = map_option millis (scan_int s)"

theorem accepted_workload_dies_witness:
  "case startEngine parse_millis show_int zero_rate new_server of ((status, _), sv') \<Rightarrow>
      status = 202 \<and> last (ws_started sv') = (0, EngineLoad 0) \<and> (\<exists>e. fst (runEngineLoop 4 0 []) = Panics e)"
proof -
  have "parse_millis (zero_rate ''rate_ms'' @ ''ms'') = Some 0"
    by (simp add: zero_rate_def parse_millis_def millis_def scan_int_def is_digit_def digit_val_def)
  then show ?thesis
    using accepted_workload_dies [where sv = new_server and q = zero_rate and parse = parse_millis and rate = 0
        and show_dur = show_int and cpus = 4 and arms = "[]"]
    by (simp add: new_server_def zero_rate_def)
qed

text \<open>
  an unknown kind of channel. The server accepts it too (202). The loop returns at once without
  a channel, but the workload counts as running: until a request to stop it every further request to
  start a channel workload is refused (409), whatever its parameters.
\<close>

theorem unknown_kind_holds_slot:
  assumes "chCancel (ws_m sv) = None" and "q ''kind'' \<notin> {[], ''inmemory'', ''buffered'', ''persistent''}"
    and "0 < rate_of parse q (millis 50)"
  shows "case startChannel parse show_dur q sv of ((status, _), sv') \<Rightarrow>
      status = 202 \<and> ws_started sv' = ws_started sv @ [(ws_next sv, ChannelLoad (q ''kind'') (rate_of parse q (millis 50)))]
      \<and> runChannelLoop rc cc dir (q ''kind'') (rate_of parse q (millis 50)) arms = (Returns (), None)
      \<and> fst (fst (startChannel parse show_dur q' sv')) = 409
      \<and> fst (fst (startChannel parse show_dur q' (snd (stopChannel sv')))) = 202"
  using assms by (simp add: startChannel_def stopChannel_def Let_def start_load_def runChannelLoop_def
      load_channel_def new_ticker_def)

definition odd_kind :: "string \<Rightarrow> string" where
  "odd_kind key = (if key = ''kind'' then ''disk'' else [])"

theorem unknown_kind_holds_slot_witness:
  "case startChannel (\<lambda>_. Some 1) show_int odd_kind new_server of ((status, _), sv') \<Rightarrow>
      status = 202 \<and> fst (fst (startChannel (\<lambda>_. Some 1) show_int (\<lambda>_. []) sv')) = 409"
  using unknown_kind_holds_slot [where sv = new_server and q = odd_kind and parse = "\<lambda>_. Some 1" and show_dur = show_int
      and q' = "\<lambda>_. []"]
  by (auto simp: new_server_def odd_kind_def rate_of_def millis_def split: prod.splits)

end
