(* ===== verification/EngineStop.thy ===== *)
theory EngineStop
  imports Engine Streaming
begin

section \<open>Stopping and observing the engine (internal/core/pregel)\<close>

text \<open>
  \<^verbatim>\<open>Stop\<close> and \<^verbatim>\<open>Stats\<close> of the engine and of its scheduler, and what the stream handlers
  report. \<^verbatim>\<open>Stop\<close> of the scheduler waits for its workers: the model is the run in which every
  worker finishes the task it has and returns, a run of the steps of Scheduler; a worker that cannot
  send its result does not return, and then neither does \<^verbatim>\<open>Stop\<close>.
\<close>

subsection \<open>Stopping the scheduler\<close>

definition finish_worker :: "nat \<Rightarrow> Pool \<Rightarrow> Pool" where
  "finish_worker w p =
     (case pl_running p ! w of
        Some t \<Rightarrow> (case send_result t p of
                       Some p1 \<Rightarrow> p1\<lparr>pl_running := (pl_running p)[w := None]\<rparr>
                     | None \<Rightarrow> p)
      | None \<Rightarrow> p)"

definition leave_worker :: "nat \<Rightarrow> Pool \<Rightarrow> Pool" where
  "leave_worker w p = (let p1 = finish_worker w p
                       in if pl_running p1 ! w = None then p1\<lparr>pl_exited := (pl_exited p1)[w := True]\<rparr> else p1)"

text \<open>\<open>order\<close> is the order in which the workers return.\<close>

definition Scheduler_Stop :: "nat list \<Rightarrow> Pool \<Rightarrow> (string, unit) outcome \<times> Pool" where
  "Scheduler_Stop order p =
     (let p1 = p\<lparr>pl_sched := (pl_sched p)\<lparr>sc_cancelled := True\<rparr>\<rparr>;
          p2 = fold leave_worker order p1
      in if False \<in> set (pl_exited p2) then (Blocks, p2)
         else if sc_closed (pl_sched p2) then (Panics ''close of closed channel'', p2)
         else (Returns (), p2\<lparr>pl_sched := (pl_sched p2)\<lparr>sc_closed := True\<rparr>\<rparr>))"

definition Engine_Stop :: "nat list \<Rightarrow> Pool \<Rightarrow> Streamer \<Rightarrow> (string, unit) outcome \<times> Pool \<times> Streamer" where
  "Engine_Stop order p st =
     (case Scheduler_Stop order p of
        (Returns _, p1) \<Rightarrow> (case Streamer_Stop st of (r, st1) \<Rightarrow> (r, p1, st1))
      | (r, p1) \<Rightarrow> (r, p1, st))"

subsection \<open>Observing\<close>

record EngineStats =
  est_Workers :: nat
  est_QueuesQueued :: nat
  est_ActiveCount :: nat
  est_Halted :: bool

definition Engine_Stats :: "string list \<Rightarrow> Engine \<Rightarrow> EngineStats" where
  "Engine_Stats ids e =
     (case SchedulerStats (en_Scheduler e) of (workers, _, waiting) \<Rightarrow>
        \<lparr>est_Workers = workers, est_QueuesQueued = waiting,
         est_ActiveCount = length (getActiveVertices ids e), est_Halted = en_Halted e\<rparr>)"

text \<open>What the handler prints; \<open>show_data\<close> is \<^verbatim>\<open>%v\<close> of the event's data.\<close>

definition Log_HandleEvent :: "(gval \<Rightarrow> string) \<Rightarrow> bool \<Rightarrow> StreamEvent \<Rightarrow> string" where
  "Log_HandleEvent show_data verbose event =
     (if verbose
      then ''['' @ show_int (ev_Timestamp event) @ ''] '' @ ev_Type event @ '': '' @ ev_VertexID event
           @ '' (Step '' @ show_int (ev_Step event) @ '') - '' @ show_data (ev_Data event) @ [CHR 0x0A]
      else ev_Type event @ '': '' @ ev_VertexID event @ [CHR 0x0A])"

datatype metric = MCounts "string \<rightharpoonup> int" | MTimes "int \<rightharpoonup> int" | MNumber int

text \<open>\<open>steps\<close> is the order of the loop over \<^verbatim>\<open>SuperstepTimes\<close>.\<close>

definition Handler_GetMetrics :: "int list \<Rightarrow> MetricsStreamHandler \<Rightarrow> string \<rightharpoonup> metric" where
  "Handler_GetMetrics steps m =
     (let totalDuration = fold (\<lambda>k sum. sum + the (SuperstepTimes m k)) steps 0
      in [''vertex_executions'' \<mapsto> MCounts (VertexCounts m), ''superstep_times'' \<mapsto> MTimes (SuperstepTimes m),
          ''event_counts'' \<mapsto> MCounts (EventCounts m), ''total_messages'' \<mapsto> MNumber (TotalMessages m),
          ''total_duration'' \<mapsto> MNumber totalDuration, ''superstep_count'' \<mapsto> MNumber (int (length steps))])"

definition NewCallbackStreamHandler :: "string \<rightharpoonup> callback" where
  "NewCallbackStreamHandler = Map.empty"

subsection \<open>What stopping leaves behind\<close>

definition leave_inv :: "Pool \<Rightarrow> bool" where
  "leave_inv p \<longleftrightarrow> pool_inv p \<and> (\<forall>w < length (pl_exited p). pl_exited p ! w \<longrightarrow> pl_running p ! w = None)
     \<and> (sc_closed (pl_sched p) \<longrightarrow> (\<forall>e\<in>set (pl_exited p). e))"

lemma leave_inv_worker:
  assumes "worker_step p p'" and "leave_inv p"
  shows "leave_inv p'"
proof -
  have "pool_inv p'" using worker_step_inv [OF assms(1)] assms(2) by (simp add: leave_inv_def)
  with assms(1) show ?thesis
    by cases (use assms(2) in \<open>auto simp: leave_inv_def idle_def nth_list_update elim!: send_result_cases\<close>)
qed

lemma leave_inv_step: "pool_step p p' \<Longrightarrow> leave_inv p \<Longrightarrow> leave_inv p'"
proof (induction rule: pool_step.induct)
  case (pool_worker p p')
  then show ?case by (rule leave_inv_worker)
next
  case (pool_schedule t p ws)
  from pool_step_inv [OF pool_step.pool_schedule [OF pool_schedule.hyps]] pool_schedule
  have "pool_inv (p\<lparr>pl_sched := ws, pl_scheduled := pl_scheduled p @ [t]\<rparr>)" by (simp add: leave_inv_def)
  moreover have "\<not> sc_closed ws" using pool_schedule.hyps by (auto simp: Schedule_def Let_def split: if_splits)
  ultimately show ?case using pool_schedule.prems by (simp add: leave_inv_def)
next
  case (pool_cancel p)
  with pool_step_inv [OF pool_step.pool_cancel [of p]] show ?case by (auto simp: leave_inv_def)
next
  case (pool_exit w p)
  with pool_step_inv [OF pool_step.pool_exit [OF pool_exit.hyps]] show ?case
    by (auto simp: leave_inv_def idle_def nth_list_update in_set_conv_nth)
next
  case (pool_close p)
  with pool_step_inv [OF pool_step.pool_close [OF pool_close.hyps]] show ?case by (simp add: leave_inv_def)
next
  case (pool_channel p ch cap)
  with pool_step_inv [OF pool_step.pool_channel [OF pool_channel.hyps]] show ?case by (auto simp: leave_inv_def)
next
  case (pool_receive p ch cap r rs)
  with pool_step_inv [OF pool_step.pool_receive [OF pool_receive.hyps]] show ?case by (auto simp: leave_inv_def)
qed

lemma reachable_leave_inv:
  assumes "pool_reachable (NewWorkStealingScheduler cpus n c) p"
  shows "leave_inv p"
  using assms
proof induction
  case pool_start
  have "pool_inv (start_pool (NewWorkStealingScheduler cpus n c))" using New_scheduler_pool by blast
  then show ?case by (simp add: leave_inv_def start_pool_def NewWorkStealingScheduler_def Let_def)
next
  case (pool_next p p')
  then show ?case by (blast intro: leave_inv_step)
qed

lemma closed_idle:
  assumes "leave_inv p" and "sc_closed (pl_sched p)"
  shows "running p = {#}" and "\<not> worker_step p p'"
proof -
  have exited: "pl_exited p ! w" if "w < length (pl_running p)" for w
    using assms that by (auto simp: leave_inv_def pool_inv_def)
  then have none: "pl_running p ! w = None" if "w < length (pl_running p)" for w
    using assms that by (auto simp: leave_inv_def pool_inv_def)
  then show "running p = {#}" unfolding running_def by (intro running_none) (metis in_set_conv_nth)
  show "\<not> worker_step p p'"
  proof
    assume "worker_step p p'"
    then show False by cases (use exited none in \<open>auto simp: idle_def\<close>)
  qed
qed


text \<open>The results that are still to come fit into their channels.\<close>

definition leaving :: "Pool \<Rightarrow> bool" where
  "leaving p \<longleftrightarrow> leave_inv p \<and> sc_cancelled (pl_sched p) \<and> results_inv p \<and> results_fit p"

lemma leave_worker_step:
  assumes inv: "leaving p" and w: "w < sc_numWorkers (pl_sched p)"
  shows "pool_step\<^sup>*\<^sup>* p (leave_worker w p) \<and> pl_sched (leave_worker w p) = pl_sched p
    \<and> pl_exited (leave_worker w p) = (pl_exited p)[w := True]
    \<and> finished (leave_worker w p) + running (leave_worker w p) = finished p + running p
    \<and> leaving (leave_worker w p)"
proof -
  have pinv: "pool_inv p" "results_inv p" "results_fit p" using inv by (simp_all add: leaving_def leave_inv_def)
  have len: "w < length (pl_running p)" "w < length (pl_exited p)" using pinv w by (simp_all add: pool_inv_def)
  define p1 where "p1 = finish_worker w p"
  have p1: "pool_step\<^sup>*\<^sup>* p p1 \<and> pl_sched p1 = pl_sched p \<and> pl_exited p1 = pl_exited p \<and> pl_running p1 ! w = None
      \<and> length (pl_running p1) = length (pl_running p) \<and> finished p1 + running p1 = finished p + running p
      \<and> leaving p1"
  proof (cases "pl_running p ! w")
    case (Some t)
    then obtain p2 where p2: "send_result t p = Some p2" using send_result_fits [OF pinv len(1)] by auto
    then have eq: "p1 = p2\<lparr>pl_running := (pl_running p)[w := None]\<rparr>" by (simp add: p1_def finish_worker_def Some)
    have step: "worker_step p p1" unfolding eq by (rule finish [OF len(1) Some p2])
    have "finished p1 + running p1 = finished p + running p" and "pl_sched p1 = pl_sched p"
      using sum_mset_update [OF len(1), of None] Some p2 unfolding eq
      by (auto simp: finished_def running_def opt_mset_def elim!: send_result_cases)
    moreover have "leaving p1"
      using leave_inv_worker [OF step] worker_results_inv [OF step] worker_results_fit [OF step] inv
        \<open>pl_sched p1 = pl_sched p\<close> by (simp add: leaving_def)
    ultimately show ?thesis
      using step worker_results_inv [OF step pinv(2)] len eq
      by (auto intro: pool_worker)
  qed (use inv in \<open>simp add: p1_def finish_worker_def\<close>)
  let ?p2 = "p1\<lparr>pl_exited := (pl_exited p1)[w := True]\<rparr>"
  have eq: "leave_worker w p = ?p2" using p1 by (simp add: leave_worker_def p1_def Let_def)
  have step: "pool_step\<^sup>*\<^sup>* p1 ?p2"
  proof (cases "pl_exited p ! w")
    case True
    then have "(pl_exited p1)[w := True] = pl_exited p1" using p1 len by (simp add: list_update_same_conv)
    then show ?thesis by simp
  next
    case False
    with p1 len have "idle w p1" by (simp add: idle_def)
    moreover have "sc_cancelled (pl_sched p1)" using p1 inv by (simp add: leaving_def)
    ultimately show ?thesis using pool_exit by blast
  qed
  moreover have "leave_inv ?p2"
    using step p1 by (induction rule: rtranclp_induct) (auto simp: leaving_def intro: leave_inv_step)
  moreover have "results_fit ?p2 = results_fit p1" "results_inv ?p2 = results_inv p1"
    by (rule results_fit_cong results_inv_cong; simp)+
  ultimately have "leaving ?p2" using p1 inv by (simp add: leaving_def)
  then show ?thesis unfolding eq
    using p1 step by (auto simp: finished_def running_def intro: rtranclp_trans)
qed

lemma leave_inv_steps: "pool_step\<^sup>*\<^sup>* p p' \<Longrightarrow> leave_inv p \<Longrightarrow> leave_inv p'"
  by (induction rule: rtranclp_induct) (auto intro: leave_inv_step)

lemma leave_workers_steps:
  "leaving p \<Longrightarrow> \<forall>w\<in>set order. w < sc_numWorkers (pl_sched p) \<Longrightarrow>
   pool_step\<^sup>*\<^sup>* p (fold leave_worker order p) \<and> pl_sched (fold leave_worker order p) = pl_sched p
   \<and> (\<forall>w < length (pl_exited p). pl_exited (fold leave_worker order p) ! w = (pl_exited p ! w \<or> w \<in> set order))
   \<and> length (pl_exited (fold leave_worker order p)) = length (pl_exited p)
   \<and> finished (fold leave_worker order p) + running (fold leave_worker order p) = finished p + running p"
proof (induction order arbitrary: p)
  case (Cons w order)
  have "w < sc_numWorkers (pl_sched p)" using Cons.prems(2) by simp
  note one = leave_worker_step [OF Cons.prems(1) this]
  have len: "w < length (pl_exited p)" using Cons.prems by (simp add: leaving_def leave_inv_def pool_inv_def)
  have "pool_step\<^sup>*\<^sup>* (leave_worker w p) (fold leave_worker order (leave_worker w p))
    \<and> pl_sched (fold leave_worker order (leave_worker w p)) = pl_sched p
    \<and> (\<forall>v < length (pl_exited p). pl_exited (fold leave_worker order (leave_worker w p)) ! v
        = ((pl_exited p)[w := True] ! v \<or> v \<in> set order))
    \<and> length (pl_exited (fold leave_worker order (leave_worker w p))) = length (pl_exited p)
    \<and> finished (fold leave_worker order (leave_worker w p)) + running (fold leave_worker order (leave_worker w p))
      = finished p + running p"
    using Cons.IH [of "leave_worker w p"] one Cons.prems(2) by simp
  with one len show ?case by (auto simp: nth_list_update intro: rtranclp_trans)
qed simp

lemma leave_idle:
  assumes "\<forall>w < length (pl_exited p). pl_exited p ! w \<and> pl_running p ! w = None"
    and "\<forall>w\<in>set order. w < length (pl_exited p)"
  shows "fold leave_worker order p = p"
  using assms(2)
proof (induction order)
  case (Cons w order)
  then have "pl_running p ! w = None" and "(pl_exited p)[w := True] = pl_exited p"
    using assms(1) by (auto simp: list_update_same_conv)
  then have "leave_worker w p = p" by (simp add: leave_worker_def finish_worker_def)
  then show ?case using Cons by simp
qed simp

text \<open>
  stopping a scheduler. Stopped once, when the results still to come fit into their channels, in
  whatever order its workers return, it runs every task a
  worker had taken to its end and none of those still queued: they are never run, and whoever waits
  for their results waits for ever. Every later state of the pool has idle workers only, and a second
  \<^verbatim>\<open>Stop\<close> panics.
\<close>

theorem stop_drops_queued:
  assumes "pool_reachable (NewWorkStealingScheduler cpus n c) p" and "\<not> sc_closed (pl_sched p)"
    and "set order = {..< sc_numWorkers (pl_sched p)}" and "results_fit p"
  shows "case Scheduler_Stop order p of (r, p') \<Rightarrow> r = Returns () \<and> pool_step\<^sup>*\<^sup>* p p'
    \<and> queued p' = queued p \<and> finished p' = finished p + running p
    \<and> (\<forall>q. pool_step\<^sup>*\<^sup>* p' q \<longrightarrow> running q = {#} \<and> queued q = queued p \<and> finished q = finished p'
         \<and> fst (Scheduler_Stop order q) = Panics ''close of closed channel'')"
proof -
  have inv: "leave_inv p" by (rule reachable_leave_inv [OF assms(1)])
  let ?p1 = "p\<lparr>pl_sched := (pl_sched p)\<lparr>sc_cancelled := True\<rparr>\<rparr>"
  let ?p2 = "fold leave_worker order ?p1"
  let ?p3 = "?p2\<lparr>pl_sched := (pl_sched ?p2)\<lparr>sc_closed := True\<rparr>\<rparr>"
  have s1: "pool_step p ?p1" by (rule pool_cancel)
  have inv1: "leave_inv ?p1" by (rule leave_inv_step [OF s1 inv])
  have leaving1: "leaving ?p1"
    using inv1 assms(4) reachable_results_inv [OF assms(1)] results_fit_cong [of ?p1 p] results_inv_cong [of ?p1 p]
    by (simp add: leaving_def)
  have l: "pool_step\<^sup>*\<^sup>* ?p1 ?p2 \<and> pl_sched ?p2 = pl_sched ?p1
    \<and> (\<forall>w < length (pl_exited p). pl_exited ?p2 ! w = (pl_exited p ! w \<or> w \<in> set order))
    \<and> length (pl_exited ?p2) = length (pl_exited p)
    \<and> finished ?p2 + running ?p2 = finished p + running p"
    using leave_workers_steps [OF leaving1, of order] assms(3) by (simp add: finished_def running_def)
  have all: "\<forall>e\<in>set (pl_exited ?p2). e"
    using l inv assms(3) by (auto simp: in_set_conv_nth leave_inv_def pool_inv_def)
  have s3: "pool_step ?p2 ?p3" by (rule pool_close [OF all]) (use l in simp)
  have run: "pool_step\<^sup>*\<^sup>* p ?p3" using s1 l s3 by (meson converse_rtranclp_into_rtranclp rtranclp.rtrancl_into_rtrancl)
  have inv3: "leave_inv ?p3" by (rule leave_inv_steps [OF run inv])
  have none: "running ?p3 = {#}" by (rule closed_idle [OF inv3]) simp
  have q3: "queued ?p3 = queued p" "finished ?p3 = finished p + running p"
    using l none by (simp_all add: queued_def finished_def running_def)
  have later: "leave_inv q \<and> sc_closed (pl_sched q) \<and> queued q = queued p \<and> finished q = finished ?p3
      \<and> sc_numWorkers (pl_sched q) = sc_numWorkers (pl_sched p)"
    if "pool_step\<^sup>*\<^sup>* ?p3 q" for q
    using that
  proof (induction rule: rtranclp_induct)
    case base
    then show ?case using inv3 q3 l by simp
  next
    case (step q q')
    then have "\<not> worker_step q q'" using closed_idle(2) by blast
    with step.hyps(2) have "queued q' = queued q \<and> finished q' = finished q \<and> sc_closed (pl_sched q')
        \<and> sc_numWorkers (pl_sched q') = sc_numWorkers (pl_sched q)"
      using step.IH by cases (auto simp: queued_def finished_def Schedule_def Let_def split: if_splits)
    with step leave_inv_step show ?case by metis
  qed
  have second: "fst (Scheduler_Stop order q) = Panics ''close of closed channel''"
    if "leave_inv q" "sc_closed (pl_sched q)" "sc_numWorkers (pl_sched q) = sc_numWorkers (pl_sched p)" for q
  proof -
    have all_left: "\<forall>e\<in>set (pl_exited q). e"
      and idle_left: "\<forall>w < length (pl_exited q). pl_exited q ! w \<longrightarrow> pl_running q ! w = None"
      using that(1,2) unfolding leave_inv_def by blast+
    have closed: "\<forall>w < length (pl_exited q). pl_exited q ! w \<and> pl_running q ! w = None"
      using all_left idle_left nth_mem by blast
    have "\<forall>w\<in>set order. w < length (pl_exited q)"
      using that assms(3) by (simp add: leave_inv_def pool_inv_def)
    then have "fold leave_worker order (q\<lparr>pl_sched := (pl_sched q)\<lparr>sc_cancelled := True\<rparr>\<rparr>)
        = q\<lparr>pl_sched := (pl_sched q)\<lparr>sc_cancelled := True\<rparr>\<rparr>"
      by (intro leave_idle) (use closed in simp_all)
    moreover have "False \<notin> set (pl_exited q)" using all_left by blast
    ultimately show ?thesis using that(2) by (simp add: Scheduler_Stop_def Let_def)
  qed
  have "Scheduler_Stop order p = (Returns (), ?p3)" using l assms(2) all by (auto simp: Scheduler_Stop_def Let_def)
  moreover have "running q = {#} \<and> queued q = queued p \<and> finished q = finished ?p3
      \<and> fst (Scheduler_Stop order q) = Panics ''close of closed channel''" if "pool_step\<^sup>*\<^sup>* ?p3 q" for q
    using later [OF that] second [of q] closed_idle(1) [of q] by blast
  ultimately show ?thesis using run q3 by (simp only: case_prod_conv) blast
qed


theorem stop_drops_queued_witness:
  "\<exists>p p'. pool_reachable (NewWorkStealingScheduler 1 1 1) p \<and> Scheduler_Stop [0] p = (Returns (), p')
     \<and> queued p' = {#sample_task#} \<and> running p' = {#} \<and> finished p' = {#}"
proof -
  let ?ws = "NewWorkStealingScheduler 1 1 1"
  let ?p1 = "(start_pool ?ws)\<lparr>pl_results := [0 \<mapsto> (1, [])]\<rparr>"
  let ?p = "?p1\<lparr>pl_sched := ?ws\<lparr>sc_counter := 1, sc_queues := [[sample_task]]\<rparr>, pl_scheduled := [sample_task]\<rparr>"
  have "pool_step (start_pool ?ws) ?p1"
    using pool_channel [of "start_pool ?ws" 0 1] by (simp add: start_pool_def)
  then have "pool_reachable ?ws ?p1" by (rule pool_next [OF pool_start])
  moreover have "Schedule sample_task (pl_sched ?p1) = (Returns (), ?ws\<lparr>sc_counter := 1, sc_queues := [[sample_task]]\<rparr>)"
    using sample_pool by (simp add: start_pool_def)
  from pool_schedule [OF this] have "pool_step ?p1 ?p" by (simp add: start_pool_def)
  ultimately have reach: "pool_reachable ?ws ?p" by (rule pool_next)
  have p: "\<not> sc_closed (pl_sched ?p)" "set [0] = {..< sc_numWorkers (pl_sched ?p)}"
    by (auto simp: NewWorkStealingScheduler_def Let_def)
  have fit: "results_fit ?p" by (simp add: results_fit_def sample_task_def)
  have q: "queued ?p = {#sample_task#}" "running ?p = {#}" "finished ?p = {#}"
    by (simp_all add: queued_def running_def finished_def start_pool_def NewWorkStealingScheduler_def Let_def opt_mset_def)
  obtain r p' where stop: "Scheduler_Stop [0] ?p = (r, p')" by fastforce
  from stop_drops_queued [OF reach p fit] stop
  have "r = Returns () \<and> queued p' = queued ?p \<and> finished p' = finished ?p + running ?p \<and> running p' = {#}" by auto
  with reach stop q show ?thesis by (intro exI [of _ ?p] exI [of _ p']) simp
qed

end
