(* ===== verification/FloatRounding.thy ===== *)
theory FloatRounding
  imports FloatOrder Float32
begin

section \<open>Rounding keeps order\<close>

text \<open>
  A quotient of at most a representable number is rounded to at most this number. The pattern with
  exponent \<open>t\<close> and fraction \<open>q\<close> stands for \<open>q * 2 ^ t\<close> units.
\<close>

definition pattern_ok :: "nat \<Rightarrow> nat \<Rightarrow> bool" where
  "pattern_ok t q \<longleftrightarrow> q < 2 ^ 53 \<and> (t = 0 \<or> 2 ^ 52 \<le> q) \<and> t < 2045"

lemma round_half_even_mono:
  assumes "0 < d" and "m \<le> n"
  shows "round_half_even m d \<le> round_half_even n d"
proof (cases "m div d = n div d")
  case True
  have "m mod d \<le> n mod d"
    using assms(2) True by (metis add_le_cancel_left mult_div_mod_eq)
  then show ?thesis by (auto simp: round_half_even_def Let_def True)
next
  case False
  with assms have "Suc (m div d) \<le> n div d" by (meson Suc_leI div_le_mono le_neq_implies_less)
  then show ?thesis by (auto simp: round_half_even_def Let_def)
qed

lemma round_half_even_le: "0 < d \<Longrightarrow> n \<le> k * d \<Longrightarrow> round_half_even n d \<le> k"
  using round_half_even_mono [of d n "k * d"] round_half_even_exact [of d k] by simp

lemma bit_len_bound: "n < 2 ^ k \<Longrightarrow> bit_len n \<le> k"
proof (rule ccontr)
  assume n: "n < 2 ^ k" "\<not> bit_len n \<le> k"
  then have "0 < n" by (auto intro: Nat.gr0I)
  from n(2) have "(2::nat) ^ k \<le> 2 ^ (bit_len n - 1)" by (intro power_increasing) auto
  also have "\<dots> \<le> n" using \<open>0 < n\<close> by (rule bit_len_le)
  finally show False using n(1) by simp
qed

lemma pattern_len:
  assumes "pattern_ok t q"
  shows "bit_len (q * 2 ^ t) - 53 = t"
proof (cases "t = 0")
  case True
  have "bit_len q \<le> 53" using assms by (intro bit_len_bound) (simp add: pattern_ok_def)
  with True show ?thesis by simp
next
  case False
  have "bit_len q = Suc 52" using assms False by (intro bit_len_unique) (auto simp: pattern_ok_def)
  then show ?thesis using bit_len_shift [of q t] assms False by (cases "q = 0") (auto simp: pattern_ok_def)
qed

lemma pattern_finite: "pattern_ok t q \<Longrightarrow> t * 2 ^ 52 + q < 2046 * 2 ^ 52"
proof -
  assume p: "pattern_ok t q"
  then have "t * 2 ^ 52 \<le> 2044 * 2 ^ 52" by (intro mult_le_mono1) (simp add: pattern_ok_def)
  with p show ?thesis by (simp add: pattern_ok_def)
qed

lemma f_round_le:
  assumes "pattern_ok t q" and "0 < d" and "n \<le> q * 2 ^ t * d"
  shows "\<exists>e. f_round False n d = of_nat e \<and> e \<le> t * 2 ^ 52 + q"
proof -
  define s where "s = bit_len (n div d) - 53"
  define e where "e = s * 2 ^ 52 + round_half_even n (d * 2 ^ s)"
  have "n div d \<le> q * 2 ^ t * d div d" using assms(3) by (rule div_le_mono)
  then have quot: "n div d \<le> q * 2 ^ t" using assms(2) by simp
  then have len: "bit_len (n div d) \<le> bit_len (q * 2 ^ t)" by (rule bit_len_mono)
  have st: "s \<le> t" using len pattern_len [OF assms(1)] by (simp add: s_def)
  have e: "e \<le> t * 2 ^ 52 + q"
  proof (cases "s = t")
    case True
    have "round_half_even n (d * 2 ^ s) \<le> q"
      using assms(2,3) True by (intro round_half_even_le) (simp_all add: ac_simps)
    then show ?thesis by (simp add: e_def True)
  next
    case False
    with st have "Suc s \<le> t" by simp
    have "n div d < 2 ^ (53 + s)"
    proof -
      have "n div d < 2 ^ bit_len (n div d)" by (rule bit_len_less)
      also have "\<dots> \<le> 2 ^ (53 + s)" by (rule power_increasing) (simp_all add: s_def)
      finally show ?thesis .
    qed
    then have "n < 2 ^ (53 + s) * d" using assms(2) by (simp add: less_mult_imp_div_less div_less_iff_less_mult)
    then have "round_half_even n (d * 2 ^ s) \<le> 2 ^ 53"
      using assms(2) by (intro round_half_even_le) (simp_all add: power_add ac_simps)
    moreover have "2 ^ 52 \<le> q" using assms(1) \<open>Suc s \<le> t\<close> by (simp add: pattern_ok_def)
    moreover have "Suc s * 2 ^ 52 \<le> t * 2 ^ 52" using \<open>Suc s \<le> t\<close> by (rule mult_le_mono1)
    ultimately show ?thesis by (simp add: e_def)
  qed
  have "e < 0x7FF0000000000000" using e pattern_finite [OF assms(1)] by simp
  then have "f_round False n d = of_nat e"
    unfolding f_round_def Let_def s_def [symmetric] e_def [symmetric] by (simp add: f_zero_def)
  with e show ?thesis by blast
qed

lemma f_round_pattern:
  assumes "pattern_ok t q" and "0 < d"
  shows "f_round False (q * 2 ^ t * d) d = of_nat (t * 2 ^ 52 + q)"
proof -
  have "round_half_even (q * 2 ^ t * d) (d * 2 ^ t) = q"
    using round_half_even_exact [of "d * 2 ^ t" q] assms(2) by (simp add: ac_simps)
  then show ?thesis
    using pattern_finite [OF assms(1)] assms(2) by (simp add: f_round_def Let_def pattern_len [OF assms(1)] f_zero_def)
qed

subsection \<open>The number of a pattern\<close>

lemma of_nat_parts:
  assumes "e < 2047 * 2 ^ 52" and "w = (of_nat e :: f64)"
  shows "unat w = e" "f_exp w = e div 2 ^ 52" "f_man w = e mod 2 ^ 52" "\<not> f_sign w" "\<not> f_nan w" "\<not> f_inf w" "f_mag w = e"
proof -
  show u: "unat w = e" using assms by (simp add: unat_of_nat)
  have q: "e div 2 ^ 52 < 2047" using assms(1) by (simp add: less_mult_imp_div_less)
  then show x: "f_exp w = e div 2 ^ 52" using u by (simp add: f_exp_def drop_bit_eq_div unat_div)
  show "f_man w = e mod 2 ^ 52" using u by (simp add: f_man_def)
  show "\<not> f_nan w" "\<not> f_inf w" using x q by (simp_all add: f_nan_def f_inf_def)
  have "e < 2 ^ 63" using assms(1) by simp
  then show "f_mag w = e" using u by (simp add: f_mag_def)
  have "\<not> bit e 63" using \<open>e < 2 ^ 63\<close> by (simp add: bit_iff_odd)
  then show "\<not> f_sign w" unfolding f_sign_def assms(2) by (subst bit_of_nat_iff) simp
qed

lemma units_pattern:
  assumes "pattern_ok t q"
  shows "f_units (of_nat (t * 2 ^ 52 + q)) = q * 2 ^ t"
proof -
  have "t * 2 ^ 52 + q < 2047 * 2 ^ 52" using pattern_finite [OF assms] by simp
  note parts = of_nat_parts [OF this refl]
  show ?thesis
  proof (cases "q < 2 ^ 52")
    case True
    with assms have "t = 0" by (auto simp: pattern_ok_def)
    with True parts show ?thesis by (simp add: f_units_def)
  next
    case False
    then have "t * 2 ^ 52 + q = Suc t * 2 ^ 52 + (q - 2 ^ 52)" by simp
    moreover have "q - 2 ^ 52 < 2 ^ 52" using assms False by (auto simp: pattern_ok_def)
    ultimately have "(t * 2 ^ 52 + q) div 2 ^ 52 = Suc t" "(t * 2 ^ 52 + q) mod 2 ^ 52 = q - 2 ^ 52"
      by (simp_all only: div_mult_self3 mod_mult_self3 div_less mod_less)
    then show ?thesis unfolding f_units_def parts(2,3) using False by simp
  qed
qed

lemma pattern_exists:
  assumes "e < 2046 * 2 ^ 52"
  obtains t q where "e = t * 2 ^ 52 + q" and "pattern_ok t q"
proof (cases "e < 2 ^ 53")
  case True
  then show ?thesis using that [of 0 e] by (simp add: pattern_ok_def)
next
  case False
  let ?t = "e div 2 ^ 52 - 1" and ?q = "2 ^ 52 + e mod 2 ^ 52"
  have "2 \<le> e div 2 ^ 52" using False by (simp add: less_eq_div_iff_mult_less_eq)
  moreover have "e div 2 ^ 52 < 2046" using assms by (simp add: less_mult_imp_div_less)
  moreover have "e = e div 2 ^ 52 * 2 ^ 52 + e mod 2 ^ 52" by simp
  ultimately have "e = ?t * 2 ^ 52 + ?q" "?t < 2045" by (simp_all add: diff_mult_distrib)
  moreover have "e mod 2 ^ 52 < 2 ^ 52" by simp
  ultimately show ?thesis by (intro that [of ?t ?q]) (simp_all add: pattern_ok_def)
qed

lemma units_le:
  assumes "pattern_ok t q" and "e \<le> t * 2 ^ 52 + q"
  shows "f_units (of_nat e) \<le> q * 2 ^ t"
proof -
  have "e < 2046 * 2 ^ 52" using assms(2) pattern_finite [OF assms(1)] by simp
  then obtain u p where e: "e = u * 2 ^ 52 + p" "pattern_ok u p" by (rule pattern_exists)
  consider "u = t" | "u < t" | "t < u" by linarith
  then have "p * 2 ^ u \<le> q * 2 ^ t"
  proof cases
    case 1
    with assms(2) e(1) show ?thesis by simp
  next
    case 2
    have "p * 2 ^ u \<le> 2 ^ 52 * 2 ^ Suc u" using e(2) by (simp add: pattern_ok_def)
    also have "\<dots> \<le> q * 2 ^ t" using 2 assms(1) by (intro mult_le_mono power_increasing) (auto simp: pattern_ok_def)
    finally show ?thesis .
  next
    case 3
    then have "Suc t * 2 ^ 52 \<le> u * 2 ^ 52" "2 ^ 52 \<le> p" using e(2) by (auto intro: mult_le_mono1 simp: pattern_ok_def)
    with assms e(1) show ?thesis by (simp add: pattern_ok_def)
  qed
  then show ?thesis unfolding e(1) units_pattern [OF e(2)] .
qed

subsection \<open>Naturals\<close>

lemma f_of_int_pattern:
  assumes "n \<le> 2 ^ 53"
  obtains t q where "pattern_ok t q" and "f_of_int (of_nat n) = of_nat (t * 2 ^ 52 + q)" and "q * 2 ^ t = n * 2 ^ 1074"
proof (cases "n = 0")
  case True
  then show ?thesis using that [of 0 0] by (simp add: pattern_ok_def f_of_int_def)
next
  case False
  then have pos: "0 < n" by simp
  have w: "sint (of_nat n :: 64 word) = int n"
    using sint_word_of_int64 [of "int n"] assms by simp
  then have nz: "(of_nat n :: 64 word) \<noteq> 0" using pos by (metis of_nat_0_less_iff less_irrefl signed_0)
  note lead = lead53_exact [OF pos assms]
  have "lead53 n * 2 ^ (bit_len n + 1021) = lead53 n * 2 ^ bit_len n * 2 ^ 1021" by (simp only: power_add mult.assoc)
  also have "\<dots> = n * (2 ^ 53 * 2 ^ 1021)" by (simp only: lead(1) mult.assoc)
  also have "(2::nat) ^ 53 * 2 ^ 1021 = 2 ^ 1074" by (simp only: power_add [symmetric]) simp
  finally have u: "lead53 n * 2 ^ (bit_len n + 1021) = n * 2 ^ 1074" .
  have "f_of_int (of_nat n) = of_nat (exact_bits n)"
    using nz pos f_round_exact [OF pos assms, of False] unfolding f_of_int_def w by (simp add: f_zero_def)
  moreover have "exact_bits n = (bit_len n + 1021) * 2 ^ 52 + lead53 n" using pos by (simp add: exact_bits_def)
  moreover have "pattern_ok (bit_len n + 1021) (lead53 n)" using lead by (simp add: pattern_ok_def)
  ultimately show ?thesis using u by (intro that) simp_all
qed

text \<open>A fraction of a length: the length times a quotient of at most one, as a whole number.\<close>

lemma one_pattern: "pattern_ok 1022 (2 ^ 52)" and one_units: "(2::nat) ^ 52 * 2 ^ 1022 = 2 ^ 1074"
  by (simp add: pattern_ok_def) (simp flip: power_add)

lemma f_div_naturals:
  assumes "m \<le> 2 ^ 53" and "0 < n" and "n \<le> 2 ^ 53" and U: "U = (2::nat) ^ 1074"
  shows "f_div (f_of_int (of_nat m)) (f_of_int (of_nat n)) = f_round False (m * U * U) (n * U)"
proof -
  obtain t q where a: "pattern_ok t q" "f_of_int (of_nat m) = of_nat (t * 2 ^ 52 + q)" "q * 2 ^ t = m * U"
    using f_of_int_pattern [OF assms(1)] unfolding U by metis
  obtain u p where b: "pattern_ok u p" "f_of_int (of_nat n) = of_nat (u * 2 ^ 52 + p)" "p * 2 ^ u = n * U"
    using f_of_int_pattern [OF assms(3)] unfolding U by metis
  have fin: "t * 2 ^ 52 + q < 2047 * 2 ^ 52" "u * 2 ^ 52 + p < 2047 * 2 ^ 52"
    using pattern_finite [OF a(1)] pattern_finite [OF b(1)] by simp_all
  have "f_mag (of_nat (u * 2 ^ 52 + p)) \<noteq> 0"
  proof
    assume "f_mag (of_nat (u * 2 ^ 52 + p)) = 0"
    then have "p = 0" using of_nat_parts(7) [OF fin(2) refl] by simp
    with b(3) assms(2) U show False by simp
  qed
  then show ?thesis
    unfolding f_div_def Let_def a(2) b(2) units_pattern [OF a(1)] units_pattern [OF b(1)] a(3) b(3)
    using of_nat_parts [OF fin(1) refl] of_nat_parts [OF fin(2) refl] by (simp only: U [symmetric]) simp
qed

lemma f_mul_natural:
  assumes "n \<le> 2 ^ 53" and "e < 2047 * 2 ^ 52" and U: "U = (2::nat) ^ 1074"
  shows "f_mul (f_of_int (of_nat n)) (of_nat e) = f_round False (n * U * f_units (of_nat e)) U"
proof -
  obtain t q where a: "pattern_ok t q" "f_of_int (of_nat n) = of_nat (t * 2 ^ 52 + q)" "q * 2 ^ t = n * U"
    using f_of_int_pattern [OF assms(1)] unfolding U by metis
  have "t * 2 ^ 52 + q < 2047 * 2 ^ 52" using pattern_finite [OF a(1)] by simp
  note parts = of_nat_parts [OF this refl] of_nat_parts [OF assms(2) refl]
  show ?thesis
    unfolding f_mul_def Let_def a(2) units_pattern [OF a(1)] a(3)
    using parts by (simp only: U [symmetric]) simp
qed

lemma quotient_le_one:
  assumes "m \<le> n" and "0 < n" and "n \<le> 2 ^ 53"
  shows "\<exists>e. f_div (f_of_int (of_nat m)) (f_of_int (of_nat n)) = of_nat e \<and> e \<le> 1022 * 2 ^ 52 + 2 ^ 52"
proof -
  define U where "U = (2::nat) ^ 1074"
  have "m * U * U \<le> 2 ^ 52 * 2 ^ 1022 * (n * U)"
    unfolding one_units U_def [symmetric] using assms(1) by (simp add: ac_simps)
  moreover have "0 < n * U" using assms(2) by (simp add: U_def)
  ultimately have "\<exists>e. f_round False (m * U * U) (n * U) = of_nat e \<and> e \<le> 1022 * 2 ^ 52 + 2 ^ 52"
    by (intro f_round_le [OF one_pattern])
  moreover have "m \<le> 2 ^ 53" using assms(1,3) by (rule le_trans)
  ultimately show ?thesis unfolding f_div_naturals [OF \<open>m \<le> 2 ^ 53\<close> assms(2,3) U_def] by blast
qed

lemma fraction_of_length:
  assumes "e \<le> 1022 * 2 ^ 52 + 2 ^ 52" and "n \<le> 2 ^ 53"
  shows "0 \<le> f_to_int (f_mul (f_of_int (of_nat n)) (of_nat e)) \<and> f_to_int (f_mul (f_of_int (of_nat n)) (of_nat e)) \<le> int n"
proof -
  define U where "U = (2::nat) ^ 1074"
  have U: "0 < U" by (simp add: U_def)
  obtain t q where a: "pattern_ok t q" "q * 2 ^ t = n * U"
    using f_of_int_pattern [OF assms(2)] unfolding U_def by metis
  have ue: "f_units (of_nat e) \<le> U"
    using units_le [OF one_pattern assms(1)] unfolding one_units U_def .
  have prod: "f_mul (f_of_int (of_nat n)) (of_nat e) = f_round False (n * U * f_units (of_nat e)) U"
    using assms(1) by (intro f_mul_natural [OF assms(2) _ U_def]) simp
  have "n * U * f_units (of_nat e) \<le> q * 2 ^ t * U" unfolding a(2) using ue by (rule mult_le_mono2)
  from f_round_le [OF a(1) U this] obtain r where r: "f_round False (n * U * f_units (of_nat e)) U = of_nat r"
    "r \<le> t * 2 ^ 52 + q" by blast
  have "r < 2047 * 2 ^ 52" using r(2) pattern_finite [OF a(1)] by simp
  note parts = of_nat_parts [OF this refl]
  have "f_units (of_nat r) div U \<le> n * U div U" using units_le [OF a(1) r(2)] unfolding a(2) by (rule div_le_mono)
  then have "f_units (of_nat r) div U \<le> n" using U by simp
  then show ?thesis using assms(2) parts unfolding prod r(1) f_to_int_def Let_def U_def [symmetric] by simp
qed

end
