(* ===== verification/TextFields.thy ===== *)
theory TextFields
  imports FG_Prelude
begin

section \<open>White space in texts\<close>

text \<open>
  \<^verbatim>\<open>strings.TrimSpace\<close> and \<^verbatim>\<open>strings.Fields\<close> on texts as bytes: besides the ASCII blanks, the
  white space of Unicode in its UTF-8 encoding. The first byte of such a character never occurs inside
  another, so that it can be recognised at every position.
\<close>

subsection \<open>Recognising white space\<close>

text \<open>The number of bytes of the white space at the beginning, or zero.\<close>

definition byte :: "nat \<Rightarrow> string \<Rightarrow> nat" where
  "byte i s = (if i < length s then of_char (s ! i) else 0)"

definition space_code :: "nat \<Rightarrow> nat \<Rightarrow> nat \<Rightarrow> nat" where
  "space_code a b c =
     (if (9 \<le> a \<and> a \<le> 13) \<or> a = 0x20 then 1
      else if a = 0xC2 \<and> (b = 0x85 \<or> b = 0xA0) then 2
      else if a = 0xE1 \<and> b = 0x9A \<and> c = 0x80 then 3
      else if a = 0xE2 \<and> b = 0x80 \<and> ((0x80 \<le> c \<and> c \<le> 0x8A) \<or> c = 0xA8 \<or> c = 0xA9 \<or> c = 0xAF) then 3
      else if a = 0xE2 \<and> b = 0x81 \<and> c = 0x9F then 3
      else if a = 0xE3 \<and> b = 0x80 \<and> c = 0x80 then 3
      else 0)"

definition space_len :: "string \<Rightarrow> nat" where
  "space_len s = (if s = [] then 0 else space_code (byte 0 s) (byte 1 s) (byte 2 s))"

fun trim_left :: "string \<Rightarrow> string" where
  "trim_left [] = []"
| "trim_left (c # s) = (let n = space_len (c # s) in if n = 0 then c # s else trim_left (drop (n - 1) s))"

text \<open>The white space at the end, on the reversed text.\<close>

definition last_space_len :: "string \<Rightarrow> nat" where
  "last_space_len r =
     (if space_len (rev (take 1 r)) = 1 then 1
      else if space_len (rev (take 2 r)) = 2 then 2
      else if space_len (rev (take 3 r)) = 3 then 3 else 0)"

fun trim_last :: "string \<Rightarrow> string" where
  "trim_last [] = []"
| "trim_last (c # r) = (let n = last_space_len (c # r) in if n = 0 then c # r else trim_last (drop (n - 1) r))"

definition TrimSpace :: "string \<Rightarrow> string" where
  "TrimSpace s = rev (trim_last (rev (trim_left s)))"

fun fields_loop :: "string \<Rightarrow> string \<Rightarrow> string list" where
  "fields_loop w [] = (if w = [] then [] else [w])"
| "fields_loop w (c # s) =
     (let n = space_len (c # s) in
      if n = 0 then fields_loop (w @ [c]) s
      else (if w = [] then [] else [w]) @ fields_loop [] (drop (n - 1) s))"

definition Fields :: "string \<Rightarrow> string list" where
  "Fields s = fields_loop [] s"

fun join_text :: "string \<Rightarrow> string list \<Rightarrow> string" where
  "join_text sep [] = []"
| "join_text sep [s] = s"
| "join_text sep (s # ss) = s @ sep @ join_text sep ss"

subsection \<open>Words\<close>

lemma space_code_zero:
  "space_code a b c = 0 \<longleftrightarrow> \<not> ((9 \<le> a \<and> a \<le> 13) \<or> a = 0x20) \<and> \<not> (a = 0xC2 \<and> (b = 0x85 \<or> b = 0xA0))
     \<and> \<not> (a = 0xE1 \<and> b = 0x9A \<and> c = 0x80)
     \<and> \<not> (a = 0xE2 \<and> b = 0x80 \<and> ((0x80 \<le> c \<and> c \<le> 0x8A) \<or> c = 0xA8 \<or> c = 0xA9 \<or> c = 0xAF))
     \<and> \<not> (a = 0xE2 \<and> b = 0x81 \<and> c = 0x9F) \<and> \<not> (a = 0xE3 \<and> b = 0x80 \<and> c = 0x80)"
  unfolding space_code_def by simp

lemma space_code_blank:
  "space_code a b c = 0 \<Longrightarrow> c' \<in> {0, 32} \<Longrightarrow> space_code a b c' = 0"
  "space_code a b c = 0 \<Longrightarrow> b' \<in> {0, 32} \<Longrightarrow> space_code a b' c' = 0"
  by (elim insertE emptyE; simp add: space_code_zero)+

lemma byte_append: "byte i (x @ y) = (if i < length x then byte i x else byte (i - length x) y)"
  by (auto simp: byte_def nth_append)

text \<open>What begins with no white space still does when it is cut off or followed by a blank.\<close>

lemma blank_after:
  assumes "space_len (x @ y) = 0" and "x \<noteq> []" and "z = [] \<or> hd z = CHR '' ''"
  shows "space_len (x @ z) = 0"
proof -
  have z: "byte 0 z \<in> {0, 32}" using assms(3) by (auto simp: byte_def hd_conv_nth)
  have code: "space_code (byte 0 x) (byte 1 (x @ y)) (byte 2 (x @ y)) = 0"
    using assms(1,2) by (simp add: space_len_def byte_append)
  consider "length x = 1" | "length x = 2" | "2 < length x" using assms(2) by (cases x; cases "tl x") auto
  then show ?thesis
  proof cases
    case 1
    then have "byte 1 (x @ z) \<in> {0, 32}" using z by (simp add: byte_append)
    from space_code_blank(2) [OF code this] show ?thesis using assms(2) by (simp add: space_len_def byte_append 1)
  next
    case 2
    then have "byte 2 (x @ z) \<in> {0, 32}" using z by (simp add: byte_append)
    from space_code_blank(1) [OF code this] show ?thesis using assms(2) by (simp add: space_len_def byte_append 2)
  next
    case 3
    then show ?thesis using code assms(2) by (simp add: space_len_def byte_append)
  qed
qed

text \<open>A word: not empty, and white space begins nowhere in it.\<close>

definition clean :: "string \<Rightarrow> bool" where
  "clean w \<longleftrightarrow> w \<noteq> [] \<and> (\<forall>i < length w. space_len (drop i w) = 0)"

lemma clean_followed: "clean w \<Longrightarrow> i < length w \<Longrightarrow> z = [] \<or> hd z = CHR '' '' \<Longrightarrow> space_len (drop i w @ z) = 0"
  using blank_after [of "drop i w" "[]" z] by (simp add: clean_def)

lemma fields_loop_clean:
  assumes "\<And>i. i < length w \<Longrightarrow> space_len (drop i w @ s) = 0" and "u \<in> set (fields_loop w s)"
  shows "clean u"
  using assms
proof (induction w s rule: fields_loop.induct)
  case (1 w)
  then show ?case by (auto simp: clean_def split: if_splits)
next
  case (2 w c s)
  show ?case
  proof (cases "space_len (c # s) = 0")
    case True
    have "space_len (drop i (w @ [c]) @ s) = 0" if "i < length (w @ [c])" for i
      using 2(3) [of i] True that by (cases "i < length w") auto
    with 2(1) [OF refl True] 2(4) True show ?thesis by (simp add: Let_def)
  next
    case False
    have w: "clean w" if "w \<noteq> []"
      unfolding clean_def using that 2(3) blank_after [of "drop i w" "c # s" "[]" for i] by auto
    from False 2(4) consider "u = w" "w \<noteq> []" | "u \<in> set (fields_loop [] (drop (space_len (c # s) - 1) s))"
      by (auto simp: Let_def split: if_splits)
    then show ?thesis using w 2(2) [OF refl False] by cases auto
  qed
qed

lemma Fields_clean: "u \<in> set (Fields s) \<Longrightarrow> clean u"
  unfolding Fields_def by (rule fields_loop_clean [of "[]" s]) simp_all

text \<open>Reading a clean word, at the end or before a blank.\<close>

lemma fields_loop_word:
  "(\<And>i. i < length v \<Longrightarrow> space_len (drop i v @ z) = 0) \<Longrightarrow> fields_loop w (v @ z) = fields_loop (w @ v) z"
proof (induction v arbitrary: w)
  case (Cons c v)
  have "space_len (c # v @ z) = 0" using Cons.prems [of 0] by simp
  moreover have "space_len (drop i v @ z) = 0" if "i < length v" for i using Cons.prems [of "Suc i"] that by simp
  ultimately show ?case using Cons.IH [of "w @ [c]"] by (simp add: Let_def)
qed simp

lemma blank_len: "space_len (CHR '' '' # s) = 1"
  by (simp add: space_len_def space_code_def byte_def)

lemma Fields_join: "(\<And>w. w \<in> set ws \<Longrightarrow> clean w) \<Longrightarrow> Fields (join_text '' '' ws) = ws"
proof (induction ws)
  case (Cons s ss)
  then have s: "clean s" by simp
  show ?case
  proof (cases ss)
    case Nil
    then show ?thesis
      using fields_loop_word [of s "[]" "[]"] clean_followed [OF s, of _ "[]"] s by (simp add: Fields_def clean_def)
  next
    case (Cons s' rest)
    let ?j = "join_text '' '' ss"
    have "fields_loop [] (s @ '' '' @ ?j) = fields_loop s ('' '' @ ?j)"
      using fields_loop_word [of s "'' '' @ ?j" "[]"] clean_followed [OF s, of _ "'' '' @ ?j"] by simp
    moreover have "s \<noteq> []" using s by (simp add: clean_def)
    moreover have "join_text '' '' (s # ss) = s @ '' '' @ ?j" by (simp add: Cons)
    ultimately show ?thesis using Cons.IH Cons.prems by (simp add: Fields_def blank_len Let_def)
  qed
qed (simp add: Fields_def)

text \<open>A text that begins and ends with a clean word is not trimmed.\<close>

lemma no_blank_inside: "space_len s = k \<Longrightarrow> 2 \<le> k \<Longrightarrow> j < k \<Longrightarrow> byte j s \<noteq> 32"
proof -
  assume k: "space_len s = k" "2 \<le> k" "j < k"
  then have code: "space_code (byte 0 s) (byte 1 s) (byte 2 s) = k" by (auto simp: space_len_def split: if_splits)
  have "k \<le> 3" unfolding code [symmetric] by (simp add: space_code_def)
  with k(2,3) have "j = 0 \<or> j = 1 \<or> j = 2" by auto
  moreover have "k = 3" if "j = 2" using that k(3) \<open>k \<le> 3\<close> by simp
  ultimately show ?thesis using code k(2) by (elim disjE) (auto simp: space_code_def split: if_splits)
qed

lemma clean_ending:
  assumes w: "clean w" and p: "p = [] \<or> last p = CHR '' ''" and k: "k \<in> {1, 2, 3}"
  shows "space_len (drop (length (p @ w) - k) (p @ w)) \<noteq> k"
proof (cases "k \<le> length w")
  case True
  have "w \<noteq> []" using w by (simp add: clean_def)
  then have "length w - k < length w" using k by auto
  with w have "space_len (drop (length w - k) w) = 0" by (simp add: clean_def)
  moreover have "drop (length (p @ w) - k) (p @ w) = drop (length w - k) w" using True by simp
  ultimately show ?thesis using k by auto
next
  case False
  show ?thesis
  proof (cases "p = []")
    case True
    have "space_len (drop 0 w) = 0" using w unfolding clean_def by blast
    with False True k show ?thesis by auto
  next
    case ne: False
    let ?n = "length (p @ w) - k"
    let ?d = "drop ?n (p @ w)"
    let ?j = "length p - 1 - ?n"
    have "w \<noteq> []" using w by (simp add: clean_def)
    then have len: "0 < length w" by simp
    with False have "2 \<le> k" by linarith
    from len have j: "?j < k" "?n + ?j = length p - 1" using False ne by (auto simp: not_le)
    have "length p - 1 < length (p @ w)" using len by (simp only: length_append)
    then have "?j < length ?d" using j(2) by simp
    moreover have "?d ! ?j = (p @ w) ! (?n + ?j)" by (rule nth_drop) simp
    ultimately have "byte ?j ?d = of_char ((p @ w) ! (?n + ?j))" by (simp only: byte_def if_True)
    also have "(p @ w) ! (?n + ?j) = CHR '' ''" unfolding j(2) using ne p by (simp add: nth_append last_conv_nth)
    finally have "byte ?j ?d = 32" by simp
    with no_blank_inside [OF _ \<open>2 \<le> k\<close> j(1), of ?d] show ?thesis by blast
  qed
qed

lemma trim_clean:
  assumes "clean v" "v @ s = p @ w" "clean w" and "p = [] \<or> last p = CHR '' ''" and "s = [] \<or> hd s = CHR '' ''"
  shows "TrimSpace (p @ w) = p @ w"
proof -
  have ne: "p @ w \<noteq> []" using assms(3) by (simp add: clean_def)
  have "v \<noteq> []" using assms(1) by (simp add: clean_def)
  then have "space_len (p @ w) = 0" using clean_followed [OF assms(1) _ assms(5), of 0] assms(2) by simp
  then have left: "trim_left (p @ w) = p @ w" using ne by (cases "p @ w") simp_all
  have rev_take: "rev (take k (rev t)) = drop (length t - k) t" for k and t :: string
    by (simp add: take_rev)
  have "last_space_len (rev (p @ w)) = 0"
    using clean_ending [OF assms(3,4)] unfolding last_space_len_def rev_take by simp
  then have "trim_last (rev (p @ w)) = rev (p @ w)" using ne by (cases "rev (p @ w)") simp_all
  then show ?thesis by (simp only: TrimSpace_def left rev_rev_ident)
qed

lemma join_ends:
  assumes "ws \<noteq> []"
  obtains s p where "join_text '' '' ws = hd ws @ s" "s = [] \<or> hd s = CHR '' ''"
    and "join_text '' '' ws = p @ last ws" "p = [] \<or> last p = CHR '' ''"
  using assms
proof (induction ws arbitrary: thesis)
  case (Cons w ws)
  show ?case
  proof (cases ws)
    case Nil
    then show ?thesis using Cons.prems(1) [of "[]" "[]"] by simp
  next
    case (Cons w' ws')
    then obtain s p where ih: "join_text '' '' ws = p @ last ws" "p = [] \<or> last p = CHR '' ''"
      using Cons.IH by (metis list.distinct(1))
    have "join_text '' '' (w # ws) = w @ '' '' @ join_text '' '' ws" by (simp add: Cons)
    then show ?thesis
      using Cons.prems(1) [of "'' '' @ join_text '' '' ws" "w @ '' '' @ p"] ih Cons by (auto simp: last_append)
  qed
qed simp

lemma TrimSpace_join:
  assumes "\<And>w. w \<in> set ws \<Longrightarrow> clean w"
  shows "TrimSpace (join_text '' '' ws) = join_text '' '' ws"
proof (cases "ws = []")
  case False
  then obtain s p where j: "join_text '' '' ws = hd ws @ s" "s = [] \<or> hd s = CHR '' ''"
    "join_text '' '' ws = p @ last ws" "p = [] \<or> last p = CHR '' ''" by (rule join_ends)
  have "clean (hd ws)" "clean (last ws)" using assms False by simp_all
  from trim_clean [OF this(1) _ this(2) j(4,2)] j(1,3) show ?thesis by simp
qed (simp add: TrimSpace_def)

end
