(* ===== verification/OpenAIClient.thy ===== *)
theory OpenAIClient
  imports FloatRounding TextFields
begin

section \<open>The OpenAI client (examples/rag-pgvector-openai/internal/openai/client.go)\<close>

text \<open>
  The wrapper around the API: default models and parameters, the prompt of a question with its
  documents, batches of embeddings and the truncation of a text. The API is a record of functions that
  get the time-out, the request and give the response or an error.
\<close>

subsection \<open>The API\<close>

record chat_message =
  cm_Role :: string
  cm_Content :: string

record api_embeddings =
  ae_Data :: "f32 list list"
  ae_PromptTokens :: int
  ae_TotalTokens :: int

record api_chat_request =
  aq_Model :: string
  aq_Messages :: "chat_message list"
  aq_MaxTokens :: int
  aq_Temperature :: f32

record api_chat =
  ah_Choices :: "(string \<times> string) list"    \<comment> \<open>content and finish reason\<close>
  ah_PromptTokens :: int
  ah_CompletionTokens :: int
  ah_TotalTokens :: int

record openai_api =
  oa_CreateEmbeddings :: "int \<Rightarrow> string list \<Rightarrow> string \<Rightarrow> string + api_embeddings"
  oa_CreateChatCompletion :: "int \<Rightarrow> api_chat_request \<Rightarrow> string + api_chat"

subsection \<open>The client\<close>

record RateLimiter =
  rpmLimit :: int
  tpmLimit :: int

record OpenAI_Client =
  cl_client :: openai_api
  cl_embeddingModel :: string
  cl_chatModel :: string
  cl_maxTokens :: int
  cl_temperature :: f32
  cl_requestTimeout :: int
  cl_rateLimiter :: RateLimiter

record EmbeddingRequest =
  eq_Text :: string
  eq_Model :: string

record EmbeddingUsage =
  eu_PromptTokens :: int
  eu_TotalTokens :: int

record EmbeddingResponse =
  ep_Embedding :: "f32 list"
  ep_Model :: string
  ep_Usage :: EmbeddingUsage

record ChatRequest =
  cq_Messages :: "chat_message list"
  cq_Model :: string
  cq_MaxTokens :: int
  cq_Temperature :: f32
  cq_Context :: string

record ChatUsage =
  cu_PromptTokens :: int
  cu_CompletionTokens :: int
  cu_TotalTokens :: int

record ChatResponse =
  cp_Content :: string
  cp_Model :: string
  cp_Usage :: ChatUsage
  cp_FinishReason :: string

text \<open>\<open>api\<close> gives the library's client for a key.\<close>

definition NewClient :: "(string \<Rightarrow> openai_api) \<Rightarrow> string \<Rightarrow> string \<Rightarrow> string \<Rightarrow> int \<Rightarrow> f64 \<Rightarrow> int \<Rightarrow> OpenAI_Client" where
  "NewClient api apiKey embeddingModel chatModel maxTokens temperature requestTimeout =
     \<lparr>cl_client = api apiKey, cl_embeddingModel = embeddingModel, cl_chatModel = chatModel, cl_maxTokens = maxTokens,
      cl_temperature = f32_of_f64 temperature, cl_requestTimeout = requestTimeout,
      cl_rateLimiter = \<lparr>rpmLimit = 0, tpmLimit = 0\<rparr>\<rparr>"

definition CreateEmbedding :: "EmbeddingRequest \<Rightarrow> OpenAI_Client \<Rightarrow> string + EmbeddingResponse" where
  "CreateEmbedding req c =
     (let model = (if eq_Model req = [] then cl_embeddingModel c else eq_Model req) in
      case oa_CreateEmbeddings (cl_client c) (cl_requestTimeout c) [eq_Text req] model of
        Inl err \<Rightarrow> Inl (''failed to create embedding: '' @ err)
      | Inr resp \<Rightarrow>
          (case ae_Data resp of
             [] \<Rightarrow> Inl ''no embeddings returned from API''
           | embedding # _ \<Rightarrow>
               Inr \<lparr>ep_Embedding = embedding, ep_Model = model,
                 ep_Usage = \<lparr>eu_PromptTokens = ae_PromptTokens resp, eu_TotalTokens = ae_TotalTokens resp\<rparr>\<rparr>))"

definition CreateChatCompletion :: "ChatRequest \<Rightarrow> OpenAI_Client \<Rightarrow> string + ChatResponse" where
  "CreateChatCompletion req c =
     (let model = (if cq_Model req = [] then cl_chatModel c else cq_Model req);
          maxTokens = (if cq_MaxTokens req = 0 then cl_maxTokens c else cq_MaxTokens req);
          temperature = (if f32_is_zero (cq_Temperature req) then cl_temperature c else cq_Temperature req)
      in case oa_CreateChatCompletion (cl_client c) (cl_requestTimeout c)
            \<lparr>aq_Model = model, aq_Messages = cq_Messages req, aq_MaxTokens = maxTokens, aq_Temperature = temperature\<rparr> of
           Inl err \<Rightarrow> Inl (''failed to create chat completion: '' @ err)
         | Inr resp \<Rightarrow>
             (case ah_Choices resp of
                [] \<Rightarrow> Inl ''no choices returned from API''
              | (content, finish) # _ \<Rightarrow>
                  Inr \<lparr>cp_Content = content, cp_Model = model,
                    cp_Usage = \<lparr>cu_PromptTokens = ah_PromptTokens resp, cu_CompletionTokens = ah_CompletionTokens resp,
                      cu_TotalTokens = ah_TotalTokens resp\<rparr>,
                    cp_FinishReason = finish\<rparr>))"

abbreviation nl1 :: string where "nl1 \<equiv> [CHR 0x0A]"

definition system_message :: string where
  "system_message =
     ''You are a helpful assistant that answers questions based on the provided context. '' @ nl1 @
     ''Use only the information from the context to answer questions. If the context doesn'' @ [CHR 0x27] @
     ''t contain enough '' @ nl1 @
     ''information to answer the question, say so clearly. Be concise but comprehensive in your responses.''"

definition user_message :: "string \<Rightarrow> string \<Rightarrow> string" where
  "user_message ctx query =
     ''Context:'' @ nl1 @ ctx @ nl1 @ nl1 @ ''Question: '' @ query @ nl1 @ nl1 @
     ''Please answer the question based on the provided context.''"

definition CreateRAGResponse :: "string \<Rightarrow> string list \<Rightarrow> int \<Rightarrow> OpenAI_Client \<Rightarrow> string + ChatResponse" where
  "CreateRAGResponse query documents maxDocs c =
     (let docs = (if 0 < maxDocs \<and> maxDocs < int (length documents) then take (nat maxDocs) documents else documents);
          ctx = join_text (nl1 @ nl1) docs
      in CreateChatCompletion
           \<lparr>cq_Messages = [\<lparr>cm_Role = ''system'', cm_Content = system_message\<rparr>,
                           \<lparr>cm_Role = ''user'', cm_Content = user_message ctx query\<rparr>],
            cq_Model = [], cq_MaxTokens = 0, cq_Temperature = 0, cq_Context = ctx\<rparr> c)"

definition BatchCreateEmbeddings :: "string list \<Rightarrow> string \<Rightarrow> OpenAI_Client \<Rightarrow> string + f32 list list" where
  "BatchCreateEmbeddings texts model0 c =
     (if texts = [] then Inl ''no texts provided''
      else let model = (if model0 = [] then cl_embeddingModel c else model0) in
        case oa_CreateEmbeddings (cl_client c) (cl_requestTimeout c) texts model of
          Inl err \<Rightarrow> Inl (''failed to create batch embeddings: '' @ err)
        | Inr resp \<Rightarrow>
            if length (ae_Data resp) \<noteq> length texts then Inl ''mismatch between input texts and returned embeddings''
            else Inr (ae_Data resp))"

definition EstimateTokens :: "string \<Rightarrow> nat" where
  "EstimateTokens s = length s div 4"

text \<open>The last blank at a position from \<open>i\<close> down to one.\<close>

fun last_blank :: "string \<Rightarrow> nat \<Rightarrow> nat option" where
  "last_blank s 0 = None"
| "last_blank s (Suc i) = (if s ! Suc i = CHR '' '' then Some (Suc i) else last_blank s i)"

definition truncate_at :: "string \<Rightarrow> int \<Rightarrow> int" where
  "truncate_at s maxTokens =
     f_to_int (f_mul (f_of_int (of_nat (length s)))
       (f_div (f_of_int (word_of_int maxTokens)) (f_of_int (of_nat (EstimateTokens s)))))"

definition TruncateToTokenLimit :: "string \<Rightarrow> int \<Rightarrow> (string, string) outcome" where
  "TruncateToTokenLimit s maxTokens =
     (if int (EstimateTokens s) \<le> maxTokens then Returns s
      else let i = truncate_at s maxTokens in
        case (if i < int (length s) then last_blank s (nat i) else None) of
          Some k \<Rightarrow> Returns (take k s @ ''...'')
        | None \<Rightarrow>
            (if i < 0 \<or> int (length s) < i then Panics ''slice bounds out of range''
             else Returns (take (nat i) s @ ''...'')))"

definition OpenAI_HealthCheck :: "OpenAI_Client \<Rightarrow> string option" where
  "OpenAI_HealthCheck c =
     (case CreateEmbedding \<lparr>eq_Text = ''health check'', eq_Model = []\<rparr> c of Inl err \<Rightarrow> Some err | Inr _ \<Rightarrow> None)"

subsection \<open>Truncation\<close>

lemma last_blank_Some: "last_blank s i = Some k \<longleftrightarrow> 0 < k \<and> k \<le> i \<and> s ! k = CHR '' '' \<and> (\<forall>j. k < j \<and> j \<le> i \<longrightarrow> s ! j \<noteq> CHR '' '')"
  by (induction i) (auto simp: le_Suc_eq)

lemma last_blank_None: "last_blank s i = None \<longleftrightarrow> (\<forall>j. 0 < j \<and> j \<le> i \<longrightarrow> s ! j \<noteq> CHR '' '')"
  by (induction i) (auto simp: le_Suc_eq)

lemma truncate_at_bounds:
  assumes "0 \<le> maxTokens" and "maxTokens < int (EstimateTokens s)" and "length s \<le> 2 ^ 53"
  shows "0 \<le> truncate_at s maxTokens \<and> truncate_at s maxTokens \<le> int (length s)"
proof -
  have w: "(word_of_int maxTokens :: 64 word) = of_nat (nat maxTokens)" using assms(1) by simp
  have "nat maxTokens \<le> EstimateTokens s" "0 < EstimateTokens s" "EstimateTokens s \<le> 2 ^ 53"
    using assms by (auto simp: EstimateTokens_def intro: le_trans)
  from quotient_le_one [OF this] obtain e where
    e: "f_div (f_of_int (word_of_int maxTokens)) (f_of_int (of_nat (EstimateTokens s))) = of_nat e" "e \<le> 1022 * 2 ^ 52 + 2 ^ 52"
    unfolding w by blast
  from fraction_of_length [OF e(2) assms(3)] show ?thesis unfolding truncate_at_def e(1) .
qed



text \<open>
  the truncated text can be too long. Cutting eleven characters without a blank to one token gives
  five characters and the three dots, which are two tokens by the same estimate.
\<close>

theorem truncation_exceeds_limit:
  "TruncateToTokenLimit ''abcdefghijk'' 1 = Returns ''abcde...'' \<and> 1 < EstimateTokens ''abcde...''"
proof -
  define U where "U = (2::nat) ^ 1074"
  have half: "2 ^ 52 * 2 ^ 1021 * 2 = U" unfolding U_def by (simp only: power_add [symmetric] power_Suc2 [symmetric]) simp
  let ?e = "1021 * 2 ^ 52 + 2 ^ 52 :: nat"
  have "pattern_ok 1021 (2 ^ 52)" by (simp add: pattern_ok_def)
  note r = f_round_pattern [OF this, of "2 * U"] and u = units_pattern [OF this]
  have "2 ^ 52 * 2 ^ 1021 * (2 * U) = 1 * U * U" by (simp only: mult.assoc [symmetric] half mult_1)
  then have ratio: "f_div (f_of_int (of_nat 1)) (f_of_int (of_nat 2)) = of_nat ?e"
    using r f_div_naturals [of 1 2 U] by (simp only: U_def [symmetric]) (simp add: U_def)
  have "pattern_ok 1024 (11 * 2 ^ 49)" by (simp add: pattern_ok_def)
  note r2 = f_round_pattern [OF this, of U] and u2 = units_pattern [OF this]
    and parts = of_nat_parts [of "1024 * 2 ^ 52 + 11 * 2 ^ 49", OF _ refl]
  have half2: "11 * 2 ^ 49 * 2 ^ 1024 = 11 * (2 ^ 52 * 2 ^ 1021 :: nat)"
    by (simp only: mult.assoc power_add [symmetric]) simp
  have "f_mul (f_of_int (of_nat 11)) (of_nat ?e) = of_nat (1024 * 2 ^ 52 + 11 * 2 ^ 49)"
  proof -
    have "11 * U * (2 ^ 52 * 2 ^ 1021) = 11 * 2 ^ 49 * 2 ^ 1024 * U" unfolding half2 by simp
    moreover have "0 < U" by (simp add: U_def)
    moreover have "f_mul (f_of_int (of_nat 11)) (of_nat ?e) = f_round False (11 * U * f_units (of_nat ?e)) U"
      by (rule f_mul_natural [OF _ _ U_def]) simp_all
    ultimately show ?thesis unfolding u using r2 by (simp only:)
  qed
  moreover have "f_to_int (of_nat (1024 * 2 ^ 52 + 11 * 2 ^ 49)) = 5"
  proof -
    have "11 * 2 ^ 49 * 2 ^ 1024 div U = 11 * (2 ^ 52 * 2 ^ 1021) div (2 ^ 52 * 2 ^ 1021 * 2)" unfolding half2 half ..
    also have "\<dots> = 5" by simp
    finally show ?thesis using parts by (simp only: f_to_int_def u2 U_def [symmetric] Let_def) simp
  qed
  moreover have w: "EstimateTokens ''abcdefghijk'' = 2" "length ''abcdefghijk'' = 11" "(word_of_int 1 :: 64 word) = of_nat 1"
    by (simp_all add: EstimateTokens_def)
  ultimately have "truncate_at ''abcdefghijk'' 1 = 5"
    unfolding truncate_at_def w ratio by (simp only:)
  moreover have "last_blank ''abcdefghijk'' 5 = None" by code_simp
  ultimately show ?thesis using w(1,2) by (simp add: TruncateToTokenLimit_def EstimateTokens_def [of "''abcde...''"])
qed

end
