(* ===== verification/VectorStore.thy ===== *)
theory VectorStore
  imports SqlSavers Float32
begin

section \<open>The vector database (examples/rag-pgvector-openai/internal/database/vector_db.go)\<close>

text \<open>
  Documents with their embeddings in PostgreSQL: the SQL text, its arguments and what is made of the
  answers. The pool of connections is a record of functions on the state of the database; times are in
  nanoseconds, and the zero time is \<open>None\<close>.
\<close>

subsection \<open>Documents and the pool\<close>

record Document =
  doc_ID :: string
  doc_Content :: string
  doc_Metadata :: gstate
  doc_Embedding :: "f32 list"
  doc_CreatedAt :: "int option"
  doc_UpdatedAt :: "int option"

record SearchResult =
  sr_Document :: Document
  sr_Similarity :: f64

datatype pg_arg = PgText string | PgJson gstate | PgVector "f32 list" | PgTime int | PgFloat f64 | PgInt int | PgAny gval

datatype pg_error = PgErr string | PgxNoRows | SqlNoRows

fun pg_error_text :: "pg_error \<Rightarrow> string" where
  "pg_error_text (PgErr s) = s"
| "pg_error_text PgxNoRows = ''no rows in result set''"
| "pg_error_text SqlNoRows = ''sql: no rows in result set''"

text \<open>A row as it is scanned: the columns of a document, with the similarity where it is selected.\<close>

record doc_row =
  dr_ID :: string
  dr_Content :: string
  dr_Metadata :: gstate
  dr_embedding :: "f32 list"
  dr_CreatedAt :: int
  dr_UpdatedAt :: int

record 'd vector_pool =
  vp_Exec :: "string \<Rightarrow> pg_arg list \<Rightarrow> 'd \<Rightarrow> (pg_error + int) \<times> 'd"    \<comment> \<open>\<^verbatim>\<open>RowsAffected\<close>\<close>
  vp_Query :: "string \<Rightarrow> pg_arg list \<Rightarrow> 'd \<Rightarrow> pg_error + (pg_error + doc_row \<times> f64) list \<times> pg_error option"
  vp_QueryRow :: "string \<Rightarrow> pg_arg list \<Rightarrow> 'd \<Rightarrow> pg_error + doc_row"
  vp_QueryCount :: "string \<Rightarrow> 'd \<Rightarrow> pg_error + int"
  vp_Ping :: "'d \<Rightarrow> pg_error option"
  vp_Close :: "'d \<Rightarrow> 'd"

record 'd VectorDB =
  vdb_pool :: "'d vector_pool"
  vdb_dimensions :: int

record pool_config =
  pool_MaxConns :: int
  pool_MinConns :: int
  pool_MaxConnLifetime :: int
  pool_MaxConnIdleTime :: int
  pool_HealthCheckPeriod :: int

definition int32 :: "int \<Rightarrow> int" where
  "int32 n = (n + 2 ^ 31) mod 2 ^ 32 - 2 ^ 31"

subsection \<open>The schema\<close>

definition raw_block :: "nat \<Rightarrow> (nat \<times> string) list \<Rightarrow> string" where
  "raw_block n ls = concat (map (\<lambda>(n, l). newline @ tabs n @ l) ls) @ newline @ tabs n"

definition schema_queries :: "int \<Rightarrow> string list" where
  "schema_queries dimensions =
     [''CREATE EXTENSION IF NOT EXISTS vector;'',
      raw_block 2 [(3, ''CREATE TABLE IF NOT EXISTS documents (''), (4, ''id TEXT PRIMARY KEY,''), (4, ''content TEXT NOT NULL,''),
        (4, ''metadata JSONB DEFAULT '' @ quote1 ''{}'' @ '',''), (4, ''embedding vector('' @ show_int dimensions @ ''),''),
        (4, ''created_at TIMESTAMP WITH TIME ZONE DEFAULT NOW(),''), (4, ''updated_at TIMESTAMP WITH TIME ZONE DEFAULT NOW()''),
        (3, '');'')],
      ''CREATE INDEX IF NOT EXISTS documents_embedding_idx ON documents USING ivfflat (embedding vector_cosine_ops) WITH (lists = 100);'',
      ''CREATE INDEX IF NOT EXISTS documents_metadata_idx ON documents USING GIN (metadata);'',
      raw_block 2 [(3, ''CREATE OR REPLACE FUNCTION update_updated_at_column()''), (3, ''RETURNS TRIGGER AS $$''), (3, ''BEGIN''),
        (4, ''NEW.updated_at = NOW();''), (4, ''RETURN NEW;''), (3, ''END;''), (3, ''$$ language '' @ quote1 ''plpgsql'' @ '';'')],
      raw_block 2 [(3, ''DO $$''), (3, ''BEGIN''), (4, ''IF NOT EXISTS (''), (5, ''SELECT 1 FROM pg_trigger ''),
        (5, ''WHERE tgname = '' @ quote1 ''update_documents_updated_at''), (4, '') THEN''),
        (5, ''CREATE TRIGGER update_documents_updated_at''), (5, ''BEFORE UPDATE ON documents''),
        (5, ''FOR EACH ROW EXECUTE FUNCTION update_updated_at_column();''), (4, ''END IF;''), (3, ''END $$;'')]]"

fun exec_all :: "'d vector_pool \<Rightarrow> string list \<Rightarrow> 'd \<Rightarrow> string option \<times> 'd" where
  "exec_all pool [] s = (None, s)"
| "exec_all pool (query # queries) s =
     (case vp_Exec pool query [] s of
        (Inl err, s1) \<Rightarrow> (Some (''failed to execute schema query: '' @ pg_error_text err), s1)
      | (Inr _, s1) \<Rightarrow> exec_all pool queries s1)"

definition InitializeSchema :: "'d VectorDB \<Rightarrow> 'd \<Rightarrow> string option \<times> 'd" where
  "InitializeSchema vdb s = exec_all (vdb_pool vdb) (schema_queries (vdb_dimensions vdb)) s"

text \<open>\<open>parse\<close> and \<open>connect\<close> are \<^verbatim>\<open>ParseConfig\<close> and \<^verbatim>\<open>NewWithConfig\<close>.\<close>

definition NewVectorDB ::
  "(string \<Rightarrow> string + pool_config) \<Rightarrow> (pool_config \<Rightarrow> string + 'd vector_pool) \<Rightarrow> string \<Rightarrow> int \<Rightarrow> int \<Rightarrow> int \<Rightarrow> 'd
   \<Rightarrow> (string + 'd VectorDB) \<times> 'd" where
  "NewVectorDB parse connect databaseURL dimensions maxConns minConns s =
     (case parse databaseURL of
        Inl err \<Rightarrow> (Inl (''failed to parse database URL: '' @ err), s)
      | Inr config \<Rightarrow>
          (case connect (config\<lparr>pool_MaxConns := int32 maxConns, pool_MinConns := int32 minConns,
                  pool_MaxConnLifetime := 3600 * 10 ^ 9, pool_MaxConnIdleTime := 30 * 60 * 10 ^ 9,
                  pool_HealthCheckPeriod := 60 * 10 ^ 9\<rparr>) of
             Inl err \<Rightarrow> (Inl (''failed to create connection pool: '' @ err), s)
           | Inr pool \<Rightarrow>
               (case vp_Ping pool s of
                  Some err \<Rightarrow> (Inl (''failed to ping database: '' @ pg_error_text err), s)
                | None \<Rightarrow>
                    (let vdb = \<lparr>vdb_pool = pool, vdb_dimensions = dimensions\<rparr> in
                     case InitializeSchema vdb s of
                       (Some err, s1) \<Rightarrow> (Inl (''failed to initialize schema: '' @ err), s1)
                     | (None, s1) \<Rightarrow> (Inr vdb, s1)))))"

subsection \<open>Documents\<close>

definition insert_query :: string where
  "insert_query = raw_lines [(2, ''INSERT INTO documents (id, content, metadata, embedding, created_at, updated_at)''),
     (2, ''VALUES ($1, $2, $3, $4, $5, $6)''), (2, ''ON CONFLICT (id) DO UPDATE SET''), (3, ''content = EXCLUDED.content,''),
     (3, ''metadata = EXCLUDED.metadata,''), (3, ''embedding = EXCLUDED.embedding,''), (3, ''updated_at = EXCLUDED.updated_at'')]"

definition insert_args :: "int \<Rightarrow> Document \<Rightarrow> pg_arg list" where
  "insert_args now doc =
     [PgText (doc_ID doc), PgText (doc_Content doc), PgJson (doc_Metadata doc), PgVector (doc_Embedding doc),
      PgTime (case doc_CreatedAt doc of None \<Rightarrow> now | Some t \<Rightarrow> t), PgTime now]"

definition InsertDocument :: "int \<Rightarrow> Document \<Rightarrow> 'd VectorDB \<Rightarrow> 'd \<Rightarrow> string option \<times> 'd" where
  "InsertDocument now doc vdb s =
     (case vp_Exec (vdb_pool vdb) insert_query (insert_args now doc) s of
        (Inl err, s1) \<Rightarrow> (Some (''failed to insert document: '' @ pg_error_text err), s1)
      | (Inr _, s1) \<Rightarrow> (None, s1))"

definition row_document :: "doc_row \<Rightarrow> Document" where
  "row_document r = \<lparr>doc_ID = dr_ID r, doc_Content = dr_Content r, doc_Metadata = dr_Metadata r, doc_Embedding = dr_embedding r,
     doc_CreatedAt = Some (dr_CreatedAt r), doc_UpdatedAt = Some (dr_UpdatedAt r)\<rparr>"

definition select_lines :: "(nat \<times> string) list" where
  "select_lines = [(2, ''SELECT ''), (3, ''id, content, metadata, embedding, created_at, updated_at,''),
     (3, ''1 - (embedding <=> $1) as similarity''), (2, ''FROM documents''), (2, ''WHERE 1 - (embedding <=> $1) > $2'')]"

definition search_query :: string where
  "search_query = raw_lines (select_lines @ [(2, ''ORDER BY embedding <=> $1''), (2, ''LIMIT $3'')])"

fun scan_results :: "(pg_error + doc_row \<times> f64) list \<Rightarrow> SearchResult list \<Rightarrow> string + SearchResult list" where
  "scan_results [] results = Inr results"
| "scan_results (Inl err # rows) results = Inl (''failed to scan row: '' @ pg_error_text err)"
| "scan_results (Inr (r, similarity) # rows) results =
     scan_results rows (results @ [\<lparr>sr_Document = row_document r, sr_Similarity = similarity\<rparr>])"

definition SearchSimilarDocuments :: "f32 list \<Rightarrow> int \<Rightarrow> f64 \<Rightarrow> 'd VectorDB \<Rightarrow> 'd \<Rightarrow> string + SearchResult list" where
  "SearchSimilarDocuments embedding limit threshold vdb s =
     (case vp_Query (vdb_pool vdb) search_query [PgVector embedding, PgFloat threshold, PgInt limit] s of
        Inl err \<Rightarrow> Inl (''failed to execute similarity search: '' @ pg_error_text err)
      | Inr (rows, stopped) \<Rightarrow>
          (case scan_results rows [] of
             Inl err \<Rightarrow> Inl err
           | Inr results \<Rightarrow>
               (case stopped of
                  Some err \<Rightarrow> Inl (''error iterating over rows: '' @ pg_error_text err)
                | None \<Rightarrow> Inr results)))"

definition get_query :: string where
  "get_query = raw_lines [(2, ''SELECT id, content, metadata, embedding, created_at, updated_at''), (2, ''FROM documents''),
     (2, ''WHERE id = $1'')]"

definition GetDocumentByID :: "string \<Rightarrow> 'd VectorDB \<Rightarrow> 'd \<Rightarrow> string + Document" where
  "GetDocumentByID i vdb s =
     (case vp_QueryRow (vdb_pool vdb) get_query [PgText i] s of
        Inl err \<Rightarrow>
          Inl (if err = SqlNoRows then ''document with id '' @ i @ '' not found''
               else ''failed to get document: '' @ pg_error_text err)
      | Inr r \<Rightarrow> Inr (row_document r))"

definition remove_query :: string where
  "remove_query = ''DELETE FROM documents WHERE id = $1''"

definition DeleteDocument :: "string \<Rightarrow> 'd VectorDB \<Rightarrow> 'd \<Rightarrow> string option \<times> 'd" where
  "DeleteDocument i vdb s =
     (case vp_Exec (vdb_pool vdb) remove_query [PgText i] s of
        (Inl err, s1) \<Rightarrow> (Some (''failed to delete document: '' @ pg_error_text err), s1)
      | (Inr affected, s1) \<Rightarrow> ((if affected = 0 then Some (''document with id '' @ i @ '' not found'') else None), s1))"

definition GetDocumentCount :: "'d VectorDB \<Rightarrow> 'd \<Rightarrow> string + int" where
  "GetDocumentCount vdb s =
     (case vp_QueryCount (vdb_pool vdb) ''SELECT COUNT(*) FROM documents'' s of
        Inl err \<Rightarrow> Inl (''failed to get document count: '' @ pg_error_text err)
      | Inr n \<Rightarrow> Inr n)"

subsection \<open>Filters\<close>

text \<open>\<open>keys\<close> is the order of the loop over the filters.\<close>

fun add_filters :: "string list \<Rightarrow> gstate \<Rightarrow> string \<times> pg_arg list \<times> int \<Rightarrow> string \<times> pg_arg list \<times> int" where
  "add_filters [] filters st = st"
| "add_filters (key # keys) filters (baseQuery, args, argIndex) =
     add_filters keys filters
       (baseQuery @ '' AND metadata->>'' @ quote1 key @ '' = $'' @ show_int argIndex,
        args @ [PgAny (the (filters key))], argIndex + 1)"

definition filter_query :: "string list \<Rightarrow> gstate \<Rightarrow> f32 list \<Rightarrow> f64 \<Rightarrow> int \<Rightarrow> string \<times> pg_arg list" where
  "filter_query keys filters embedding threshold limit =
     (case add_filters keys filters (raw_lines select_lines, [PgVector embedding, PgFloat threshold], 3) of
        (query, args, argIndex) \<Rightarrow>
          (query @ '' ORDER BY embedding <=> $1 LIMIT $'' @ show_int argIndex, args @ [PgInt limit]))"

definition SearchWithFilters ::
  "string list \<Rightarrow> f32 list \<Rightarrow> int \<Rightarrow> f64 \<Rightarrow> gstate \<Rightarrow> 'd VectorDB \<Rightarrow> 'd \<Rightarrow> string + SearchResult list" where
  "SearchWithFilters keys embedding limit threshold filters vdb s =
     (case filter_query keys filters embedding threshold limit of
        (query, args) \<Rightarrow>
          (case vp_Query (vdb_pool vdb) query args s of
             Inl err \<Rightarrow> Inl (''failed to execute filtered search: '' @ pg_error_text err)
           | Inr (rows, stopped) \<Rightarrow> scan_results rows []))"

definition VectorDB_Close :: "'d VectorDB \<Rightarrow> 'd \<Rightarrow> 'd" where
  "VectorDB_Close vdb s = vp_Close (vdb_pool vdb) s"

definition VectorDB_HealthCheck :: "'d VectorDB \<Rightarrow> 'd \<Rightarrow> pg_error option" where
  "VectorDB_HealthCheck vdb s = vp_Ping (vdb_pool vdb) s"

subsection \<open>The filters of a search\<close>

definition filter_text :: "nat \<Rightarrow> string \<Rightarrow> string" where
  "filter_text i key = '' AND metadata->>'' @ quote1 key @ '' = $'' @ show_int (int i)"

lemma add_filters_result:
  "add_filters keys filters (q, args, n) =
     (q @ concat (map (\<lambda>i. filter_text (nat n + i) (keys ! i)) [0..<length keys]),
      args @ map (\<lambda>k. PgAny (the (filters k))) keys, n + int (length keys))" if "0 \<le> n"
  using that
proof (induction keys arbitrary: q args n)
  case (Cons k ks)
  have "nat (n + 1) + i = nat n + Suc i" for i using Cons.prems by simp
  moreover have "[0..<length (k # ks)] = 0 # map Suc [0..<length ks]" by (simp add: upt_conv_Cons map_Suc_upt del: upt_Suc)
  ultimately show ?case using Cons.prems by (simp add: Cons.IH filter_text_def comp_def add.left_commute)
qed simp

text \<open>
  the placeholders of a filtered search. Whatever the order of the loop over the filters, the
  query compares each filter's key once, with the placeholder at which its own value is passed; the
  last placeholder is that of the limit, and as many arguments are passed as there are placeholders.
\<close>

theorem filter_placeholders:
  assumes "map_order filters keys"
  shows "case filter_query keys filters embedding threshold limit of (query, args) \<Rightarrow>
      query = raw_lines select_lines @ concat (map (\<lambda>i. filter_text (i + 3) (keys ! i)) [0..<card (dom filters)])
        @ '' ORDER BY embedding <=> $1 LIMIT $'' @ show_int (int (card (dom filters) + 3))
      \<and> length args = card (dom filters) + 3 \<and> last args = PgInt limit
      \<and> (\<forall>i < card (dom filters). map_option PgAny (filters (keys ! i)) = Some (args ! ((i + 3) - 1)))"
proof -
  have n: "card (dom filters) = length keys" using map_order_length [OF assms] by simp
  have val: "filters (keys ! i) \<noteq> None" if "i < length keys" for i
    using map_order_in [OF assms, of "keys ! i"] that by simp
  show ?thesis
    unfolding filter_query_def n by (auto simp: add_filters_result nth_append add.commute dest: val)
qed

theorem filter_placeholders_witness:
  "case filter_query [''a''] [''a'' \<mapsto> VInt 1] [] 0 5 of (query, args) \<Rightarrow>
      length args = 4 \<and> last args = PgInt 5"
  using filter_placeholders [where filters = "[''a'' \<mapsto> VInt 1]" and keys = "[''a'']" and embedding = "[]" and threshold = 0
      and limit = 5] by (auto simp: map_order_def split: prod.splits)

subsection \<open>The documents as a map\<close>

text \<open>
  What the program relies on for the three statements on single documents. A table of the server is
  described by its rows, the documents and IDs that the columns can hold (the dimension of the
  embedding, texts without a zero byte) and what the metadata is after its way through a JSON column.
  The upsert keeps the creation time of a row that is there, times are cut to the microsecond, and the
  library reports a missing row with its own error.
\<close>

record 'd doc_table =
  dt_rows :: "'d \<Rightarrow> string \<rightharpoonup> doc_row"
  dt_fits :: "Document \<Rightarrow> bool"
  dt_id_fits :: "string \<Rightarrow> bool"
  dt_json :: "gstate \<Rightarrow> gstate"

definition micros :: "int \<Rightarrow> int" where
  "micros t = t div 1000 * 1000"

definition created_time :: "int \<Rightarrow> Document \<Rightarrow> int option \<Rightarrow> int" where
  "created_time now doc old = (case old of Some t \<Rightarrow> t
     | None \<Rightarrow> micros (case doc_CreatedAt doc of None \<Rightarrow> now | Some t \<Rightarrow> t))"

definition documents_lawful :: "'d VectorDB \<Rightarrow> 'd doc_table \<Rightarrow> bool" where
  "documents_lawful vdb t \<longleftrightarrow>
     (\<forall>now doc s. dt_fits t doc \<longrightarrow>
        (\<exists>n s' r. vp_Exec (vdb_pool vdb) insert_query (insert_args now doc) s = (Inr n, s')
           \<and> dt_rows t s' = (dt_rows t s)(doc_ID doc \<mapsto> r) \<and> dr_ID r = doc_ID doc \<and> dr_Content r = doc_Content doc
           \<and> dr_Metadata r = dt_json t (doc_Metadata doc) \<and> dr_embedding r = doc_Embedding doc
           \<and> dr_CreatedAt r = created_time now doc (map_option dr_CreatedAt (dt_rows t s (doc_ID doc)))))
     \<and> (\<forall>i s. dt_id_fits t i \<longrightarrow>
          (\<exists>s'. vp_Exec (vdb_pool vdb) remove_query [PgText i] s = (Inr (if dt_rows t s i = None then 0 else 1), s')
             \<and> dt_rows t s' = (dt_rows t s)(i := None)))
     \<and> (\<forall>i s. dt_id_fits t i \<longrightarrow> vp_QueryRow (vdb_pool vdb) get_query [PgText i] s
           = (case dt_rows t s i of Some r \<Rightarrow> Inr r | None \<Rightarrow> Inl PgxNoRows))"

lemma documents_lawfulD:
  assumes "documents_lawful vdb t"
  shows "dt_fits t doc \<Longrightarrow>
      \<exists>n s' r. vp_Exec (vdb_pool vdb) insert_query (insert_args now doc) s = (Inr n, s')
           \<and> dt_rows t s' = (dt_rows t s)(doc_ID doc \<mapsto> r) \<and> dr_ID r = doc_ID doc \<and> dr_Content r = doc_Content doc
           \<and> dr_Metadata r = dt_json t (doc_Metadata doc) \<and> dr_embedding r = doc_Embedding doc
           \<and> dr_CreatedAt r = created_time now doc (map_option dr_CreatedAt (dt_rows t s (doc_ID doc)))"
    and "dt_id_fits t i \<Longrightarrow>
      \<exists>s'. vp_Exec (vdb_pool vdb) remove_query [PgText i] s = (Inr (if dt_rows t s i = None then 0 else 1), s')
           \<and> dt_rows t s' = (dt_rows t s)(i := None)"
    and "dt_id_fits t i \<Longrightarrow>
      vp_QueryRow (vdb_pool vdb) get_query [PgText i] s = (case dt_rows t s i of Some r \<Rightarrow> Inr r | None \<Rightarrow> Inl PgxNoRows)"
  using assms unfolding documents_lawful_def by blast+

datatype doc_op = OpInsert int Document | OpDelete string

fun run_op :: "'d VectorDB \<Rightarrow> doc_op \<Rightarrow> 'd \<Rightarrow> 'd" where
  "run_op vdb (OpInsert now doc) s = snd (InsertDocument now doc vdb s)"
| "run_op vdb (OpDelete i) s = snd (DeleteDocument i vdb s)"

text \<open>The abstract store: content, metadata, embedding and creation time by ID.\<close>

type_synonym doc_view = "string \<times> gstate \<times> f32 list \<times> int"

definition row_view :: "doc_row \<Rightarrow> doc_view" where
  "row_view r = (dr_Content r, dr_Metadata r, dr_embedding r, dr_CreatedAt r)"

fun spec_op :: "(gstate \<Rightarrow> gstate) \<Rightarrow> doc_op \<Rightarrow> (string \<rightharpoonup> doc_view) \<Rightarrow> string \<rightharpoonup> doc_view" where
  "spec_op json (OpInsert now doc) m = m(doc_ID doc \<mapsto> (doc_Content doc, json (doc_Metadata doc), doc_Embedding doc,
     created_time now doc (map_option (\<lambda>(_, _, _, created). created) (m (doc_ID doc)))))"
| "spec_op json (OpDelete i) m = m(i := None)"

definition store_view :: "'d doc_table \<Rightarrow> 'd \<Rightarrow> string \<rightharpoonup> doc_view" where
  "store_view t s i = map_option row_view (dt_rows t s i)"

fun fitting :: "'d doc_table \<Rightarrow> doc_op \<Rightarrow> bool" where
  "fitting t (OpInsert now doc) = dt_fits t doc"
| "fitting t (OpDelete i) = dt_id_fits t i"

lemma run_op_refines:
  assumes law: "documents_lawful vdb t" and op: "fitting t op"
  shows "store_view t (run_op vdb op s) = spec_op (dt_json t) op (store_view t s)"
proof (cases op)
  case (OpInsert now doc)
  with op documents_lawfulD(1) [OF law, of doc now s] obtain n s' r where
      "vp_Exec (vdb_pool vdb) insert_query (insert_args now doc) s = (Inr n, s')"
      "dt_rows t s' = (dt_rows t s)(doc_ID doc \<mapsto> r)" "dr_Content r = doc_Content doc"
      "dr_Metadata r = dt_json t (doc_Metadata doc)" "dr_embedding r = doc_Embedding doc"
      "dr_CreatedAt r = created_time now doc (map_option dr_CreatedAt (dt_rows t s (doc_ID doc)))"
    by auto
  then show ?thesis
    by (auto simp: OpInsert InsertDocument_def store_view_def row_view_def fun_eq_iff option.map_comp comp_def)
next
  case (OpDelete i)
  with op documents_lawfulD(2) [OF law, of i s] obtain s' where
      "vp_Exec (vdb_pool vdb) remove_query [PgText i] s = (Inr (if dt_rows t s i = None then 0 else 1), s')"
      "dt_rows t s' = (dt_rows t s)(i := None)" by auto
  then show ?thesis by (auto simp: OpDelete DeleteDocument_def store_view_def fun_eq_iff)
qed

lemma run_ops_refine:
  assumes "documents_lawful vdb t" and "list_all (fitting t) ops"
  shows "store_view t (fold (run_op vdb) ops s) = fold (spec_op (dt_json t)) ops (store_view t s)"
  using assms(2) by (induction ops arbitrary: s) (simp_all add: run_op_refines [OF assms(1)])


text \<open>A database that is its table.\<close>

definition table_exec :: "string \<Rightarrow> pg_arg list \<Rightarrow> (string \<rightharpoonup> doc_row) \<Rightarrow> (pg_error + int) \<times> (string \<rightharpoonup> doc_row)" where
  "table_exec query args s =
     (case args of
        [PgText i] \<Rightarrow> (Inr (if s i = None then 0 else 1), s(i := None))
      | [PgText i, PgText content, PgJson meta, PgVector vec, PgTime created, PgTime updated] \<Rightarrow>
          (Inr 1, s(i \<mapsto> \<lparr>dr_ID = i, dr_Content = content, dr_Metadata = meta, dr_embedding = vec,
             dr_CreatedAt = (case s i of Some old \<Rightarrow> dr_CreatedAt old | None \<Rightarrow> micros created), dr_UpdatedAt = micros updated\<rparr>))
      | _ \<Rightarrow> (Inl (PgErr ''syntax error''), s))"

definition table_pool :: "(string \<rightharpoonup> doc_row) vector_pool" where
  "table_pool =
     \<lparr>vp_Exec = table_exec, vp_Query = (\<lambda>q args s. Inr ([], None)),
      vp_QueryRow = (\<lambda>q args s. case args of [PgText i] \<Rightarrow> (case s i of Some r \<Rightarrow> Inr r | None \<Rightarrow> Inl PgxNoRows)
         | _ \<Rightarrow> Inl (PgErr ''syntax error'')),
      vp_QueryCount = (\<lambda>q s. Inr (int (card (dom s)))), vp_Ping = (\<lambda>s. None), vp_Close = id\<rparr>"

definition table_vdb :: "int \<Rightarrow> (string \<rightharpoonup> doc_row) VectorDB" where
  "table_vdb dims = \<lparr>vdb_pool = table_pool, vdb_dimensions = dims\<rparr>"

definition plain_table :: "int \<Rightarrow> (string \<rightharpoonup> doc_row) doc_table" where
  "plain_table dims = \<lparr>dt_rows = id, dt_fits = (\<lambda>doc. int (length (doc_Embedding doc)) = dims), dt_id_fits = (\<lambda>i. True),
     dt_json = id\<rparr>"

lemma table_lawful: "documents_lawful (table_vdb dims) (plain_table dims)"
  by (auto simp: documents_lawful_def table_vdb_def table_pool_def table_exec_def insert_args_def plain_table_def created_time_def
      split: option.splits)

definition sample_document :: Document where
  "sample_document = \<lparr>doc_ID = ''d'', doc_Content = ''text'', doc_Metadata = Map.empty, doc_Embedding = [0],
     doc_CreatedAt = None, doc_UpdatedAt = None\<rparr>"


subsection \<open>Rows that are lost\<close>

text \<open>
  an iteration that fails. When the rows of the answer end with an error, the similarity search
  fails, but the filtered search returns the rows it has got so far as the result.
\<close>

theorem filtered_search_hides_failure:
  assumes "\<And>query args. vp_Query (vdb_pool vdb) query args s = Inr (map Inr rows, Some err)"
  shows "isl (SearchSimilarDocuments embedding limit threshold vdb s)
    \<and> SearchWithFilters keys embedding limit threshold filters vdb s
        = Inr (map (\<lambda>(r, similarity). \<lparr>sr_Document = row_document r, sr_Similarity = similarity\<rparr>) rows)"
proof -
  have "scan_results (map Inr rows) acc
      = Inr (acc @ map (\<lambda>(r, similarity). \<lparr>sr_Document = row_document r, sr_Similarity = similarity\<rparr>) rows)" for acc
    by (induction rows arbitrary: acc) auto
  then show ?thesis by (simp add: SearchSimilarDocuments_def SearchWithFilters_def assms split: prod.splits)
qed

theorem filtered_search_hides_failure_witness:
  "let vdb = (table_vdb 1)\<lparr>vdb_pool := table_pool\<lparr>vp_Query := (\<lambda>q args s. Inr ([], Some (PgErr ''closed'')))\<rparr>\<rparr> in
     isl (SearchSimilarDocuments [] 5 0 vdb Map.empty) \<and> SearchWithFilters [] [] 5 0 Map.empty vdb Map.empty = Inr []"
  using filtered_search_hides_failure [where rows = "[]" and err = "PgErr ''closed''" and keys = "[]" and embedding = "[]"
      and limit = 5 and threshold = 0 and filters = Map.empty and s = Map.empty
      and vdb = "(table_vdb 1)\<lparr>vdb_pool := table_pool\<lparr>vp_Query := (\<lambda>q args s. Inr ([], Some (PgErr ''closed'')))\<rparr>\<rparr>"]
  by (simp add: Let_def)

end
