(* ===== verification/RagProcessors.thy ===== *)
theory RagProcessors
  imports RagRuntime OpenAIClient VectorStore TextFields
begin

section \<open>Production processors (examples/rag-pgvector-openai/internal/processors/rag_processors.go)\<close>

text \<open>
  The processors of the production pipeline over the OpenAI client and the vector database. A
  processor reads the database in the state \<open>s\<close>. The order in which \<^verbatim>\<open>sort.Slice\<close> leaves
  equal scores is an argument, as is the value that the context holds as \<^verbatim>\<open>timestamp\<close>.
\<close>

subsection \<open>Embedding\<close>

record ProductionEmbedder =
  pe_client :: OpenAI_Client
  pe_model :: string

definition NewProductionEmbedder :: "OpenAI_Client \<Rightarrow> string \<Rightarrow> ProductionEmbedder" where
  "NewProductionEmbedder client model = \<lparr>pe_client = client, pe_model = model\<rparr>"

definition ProductionEmbedder_Process :: "ProductionEmbedder \<Rightarrow> rag_map option \<Rightarrow> string + rag_map option" where
  "ProductionEmbedder_Process p input =
     (case input_of input ''text'' of
        None \<Rightarrow> Inl ''text field required for embedding''
      | Some (RVal (VStr textStr)) \<Rightarrow>
          (case CreateEmbedding \<lparr>eq_Text = textStr, eq_Model = pe_model p\<rparr> (pe_client p) of
             Inl err \<Rightarrow> Inl (''failed to create embedding: '' @ err)
           | Inr resp \<Rightarrow>
               Inr (Some [''embedding'' \<mapsto> RF32s (ep_Embedding resp), ''text'' \<mapsto> RVal (VStr textStr),
                 ''model'' \<mapsto> RVal (VStr (ep_Model resp)), ''provider'' \<mapsto> RVal (VStr ''openai''),
                 ''tokens_used'' \<mapsto> RVal (VInt (word_of_int (eu_TotalTokens (ep_Usage resp)))),
                 ''dimensions'' \<mapsto> RVal (VInt (of_nat (length (ep_Embedding resp))))]))
      | Some _ \<Rightarrow> Inl ''text must be a string'')"

definition production_embedder :: "ProductionEmbedder \<Rightarrow> ProcessorFunc" where
  "production_embedder p = \<lparr>pf_name = ''production_embedder'', pf_fn = ProductionEmbedder_Process p\<rparr>"

subsection \<open>Search\<close>

record 'd ProductionVectorSearch =
  pv_vectorDB :: "'d VectorDB"
  pv_maxResults :: int
  pv_similarityThreshold :: f64

definition NewProductionVectorSearch :: "'d VectorDB \<Rightarrow> int \<Rightarrow> f64 \<Rightarrow> 'd ProductionVectorSearch" where
  "NewProductionVectorSearch vectorDB maxResults similarityThreshold =
     \<lparr>pv_vectorDB = vectorDB, pv_maxResults = maxResults, pv_similarityThreshold = similarityThreshold\<rparr>"

fun convert_elements :: "nat \<Rightarrow> rag_val list \<Rightarrow> f32 list \<Rightarrow> string + f32 list" where
  "convert_elements i [] acc = Inr acc"
| "convert_elements i (v # vs) acc =
     (case v of
        RVal (VFloat f) \<Rightarrow> convert_elements (Suc i) vs (acc @ [f32_of_f64 f])
      | RF32 f \<Rightarrow> convert_elements (Suc i) vs (acc @ [f])
      | _ \<Rightarrow> Inl (''invalid embedding format at index '' @ show_int (int i)))"

definition embedding_slice :: "rag_val \<Rightarrow> string + f32 list" where
  "embedding_slice e =
     (case e of
        RF32s fs \<Rightarrow> Inr fs
      | RFloats fs \<Rightarrow> Inr (map f32_of_f64 fs)
      | RVal (VList vs) \<Rightarrow> convert_elements 0 (map RVal vs) []
      | RList vs \<Rightarrow> convert_elements 0 vs []
      | _ \<Rightarrow> Inl ''embedding must be a slice of numbers'')"

definition result_map :: "SearchResult \<Rightarrow> string \<rightharpoonup> gval" where
  "result_map result =
     [''id'' \<mapsto> VStr (doc_ID (sr_Document result)), ''content'' \<mapsto> VStr (doc_Content (sr_Document result)),
      ''metadata'' \<mapsto> VMap (doc_Metadata (sr_Document result)), ''similarity'' \<mapsto> VFloat (sr_Similarity result),
      ''created_at'' \<mapsto> VTime (case doc_CreatedAt (sr_Document result) of Some t \<Rightarrow> t | None \<Rightarrow> 0)]"

definition VectorSearch_Process :: "'d \<Rightarrow> 'd ProductionVectorSearch \<Rightarrow> rag_map option \<Rightarrow> string + rag_map option" where
  "VectorSearch_Process s p input =
     (case input_of input ''embedding'' of
        None \<Rightarrow> Inl ''embedding field required for search''
      | Some embedding \<Rightarrow>
          (case embedding_slice embedding of
             Inl err \<Rightarrow> Inl err
           | Inr fs \<Rightarrow>
               (case SearchSimilarDocuments fs (pv_maxResults p) (pv_similarityThreshold p) (pv_vectorDB p) s of
                  Inl err \<Rightarrow> Inl (''failed to perform vector search: '' @ err)
                | Inr results \<Rightarrow>
                    Inr (Some [''results'' \<mapsto> RMaps (map result_map results), ''query_embedding'' \<mapsto> RF32s fs,
                      ''provider'' \<mapsto> RVal (VStr ''pgvector''), ''total_results'' \<mapsto> RVal (VInt (of_nat (length results))),
                      ''similarity_threshold'' \<mapsto> RVal (VFloat (pv_similarityThreshold p))]))))"

definition production_vector_search :: "'d \<Rightarrow> 'd ProductionVectorSearch \<Rightarrow> ProcessorFunc" where
  "production_vector_search s p = \<lparr>pf_name = ''production_vector_search'', pf_fn = VectorSearch_Process s p\<rparr>"

subsection \<open>Generation\<close>

record ProductionRAGGenerator =
  pg_client :: OpenAI_Client
  pg_model :: string
  pg_maxTokens :: int
  pg_temperature :: f32
  pg_maxDocs :: int

definition NewProductionRAGGenerator :: "OpenAI_Client \<Rightarrow> string \<Rightarrow> int \<Rightarrow> f64 \<Rightarrow> int \<Rightarrow> ProductionRAGGenerator" where
  "NewProductionRAGGenerator client model maxTokens temperature maxDocs =
     \<lparr>pg_client = client, pg_model = model, pg_maxTokens = maxTokens, pg_temperature = f32_of_f64 temperature,
      pg_maxDocs = maxDocs\<rparr>"

text \<open>The documents' contents are collected as by the generator of the package.\<close>

definition result_contents :: "rag_map \<Rightarrow> string list" where
  "result_contents input = (case input ''results'' of Some (RMaps resultsList) \<Rightarrow> context_docs resultsList [] | _ \<Rightarrow> [])"

definition ProductionGenerator_Process :: "ProductionRAGGenerator \<Rightarrow> rag_map option \<Rightarrow> string + rag_map option" where
  "ProductionGenerator_Process p input =
     (case (case input_of input ''query'' of Some v \<Rightarrow> Some v | None \<Rightarrow> input_of input ''text'') of
        None \<Rightarrow> Inl ''query or text field required for generation''
      | Some (RVal (VStr queryStr)) \<Rightarrow>
          (let documents = result_contents (input_of input) in
           case CreateRAGResponse queryStr documents (pg_maxDocs p) (pg_client p) of
             Inl err \<Rightarrow> Inl (''failed to generate RAG response: '' @ err)
           | Inr resp \<Rightarrow>
               Inr (Some [''response'' \<mapsto> RVal (VStr (cp_Content resp)), ''query'' \<mapsto> RVal (VStr queryStr),
                 ''context_docs_used'' \<mapsto> RVal (VInt (of_nat (length documents))), ''model'' \<mapsto> RVal (VStr (cp_Model resp)),
                 ''provider'' \<mapsto> RVal (VStr ''openai''), ''finish_reason'' \<mapsto> RVal (VStr (cp_FinishReason resp)),
                 ''tokens_used'' \<mapsto> RVal (VInt (word_of_int (cu_TotalTokens (cp_Usage resp)))),
                 ''temperature'' \<mapsto> RF32 (pg_temperature p)]))
      | Some _ \<Rightarrow> Inl ''query must be a string'')"

definition production_rag_generator :: "ProductionRAGGenerator \<Rightarrow> ProcessorFunc" where
  "production_rag_generator p = \<lparr>pf_name = ''production_rag_generator'', pf_fn = ProductionGenerator_Process p\<rparr>"

subsection \<open>Ranking\<close>

record ResultRanker =
  rk_diversityWeight :: f64
  rk_recencyWeight :: f64

definition NewResultRanker :: "f64 \<Rightarrow> f64 \<Rightarrow> ResultRanker" where
  "NewResultRanker diversityWeight recencyWeight =
     \<lparr>rk_diversityWeight = diversityWeight, rk_recencyWeight = recencyWeight\<rparr>"

definition base_score :: "(string \<rightharpoonup> gval) \<Rightarrow> f64" where
  "base_score result = (case result ''similarity'' of Some (VFloat x) \<Rightarrow> x | _ \<Rightarrow> 0)"

definition capped :: "f64 \<Rightarrow> f64 \<Rightarrow> f64" where
  "capped limit x = (if f_less limit x then limit else x)"

text \<open>The constants are 10000.0, 0.1, 0.01 and 0.05.\<close>

definition content_bonus :: "(string \<rightharpoonup> gval) \<Rightarrow> f64" where
  "content_bonus result =
     (case result ''content'' of
        Some (VStr contentStr) \<Rightarrow>
          capped 0x3FB999999999999A (f_div (f_of_int (of_nat (length contentStr))) 0x40C3880000000000)
      | _ \<Rightarrow> 0)"

definition metadata_bonus :: "(string \<rightharpoonup> gval) \<Rightarrow> f64" where
  "metadata_bonus result =
     (case result ''metadata'' of
        Some (VMap metaMap) \<Rightarrow> capped 0x3FA999999999999A (f_mul (f_of_int (of_nat (card (dom metaMap)))) 0x3F847AE147AE147B)
      | _ \<Rightarrow> 0)"

definition final_score :: "(string \<rightharpoonup> gval) \<Rightarrow> f64" where
  "final_score result = f_add (f_add (base_score result) (content_bonus result)) (metadata_bonus result)"

text \<open>\<open>order\<close> gives the positions in the order of \<^verbatim>\<open>sort.Slice\<close> with these scores.\<close>

definition rankResults :: "(f64 list \<Rightarrow> nat list) \<Rightarrow> (string \<rightharpoonup> gval) list \<Rightarrow> (string \<rightharpoonup> gval) list" where
  "rankResults order results =
     (let scores = map final_score results in
      map (\<lambda>(i, j). (results ! j)(''rank_score'' \<mapsto> VFloat (scores ! j), ''rank_position'' \<mapsto> VInt (of_nat (i + 1))))
        (enumerate 0 (order scores)))"

definition Ranker_Process :: "(f64 list \<Rightarrow> nat list) \<Rightarrow> ResultRanker \<Rightarrow> rag_map option \<Rightarrow> string + rag_map option" where
  "Ranker_Process order r input =
     (case input_of input ''results'' of
        Some (RMaps resultsList) \<Rightarrow>
          (if length resultsList \<le> 1 then Inr input
           else Inr (Some ((input_of input)(''results'' \<mapsto> RMaps (rankResults order resultsList),
                  ''reranked'' \<mapsto> RVal (VBool True), ''rerank_method'' \<mapsto> RVal (VStr ''production_ranking'')))))
      | _ \<Rightarrow> Inr input)"

definition result_ranker :: "(f64 list \<Rightarrow> nat list) \<Rightarrow> ResultRanker \<Rightarrow> ProcessorFunc" where
  "result_ranker order r = \<lparr>pf_name = ''result_ranker'', pf_fn = Ranker_Process order r\<rparr>"

subsection \<open>Queries\<close>

definition preprocessQuery :: "string \<Rightarrow> string" where
  "preprocessQuery query = join_text '' '' (Fields (TrimSpace query))"

definition QueryProcessor_Process :: "gval \<Rightarrow> rag_map option \<Rightarrow> string + rag_map option" where
  "QueryProcessor_Process timestamp input =
     (case input_of input ''query'' of
        None \<Rightarrow> Inl ''query field required''
      | Some (RVal (VStr query)) \<Rightarrow>
          (let queryStr = TrimSpace query in
           if queryStr = [] then Inl ''query cannot be empty''
           else let processedQuery = preprocessQuery queryStr in
             Inr (Some [''query'' \<mapsto> RVal (VStr queryStr), ''processed_query'' \<mapsto> RVal (VStr processedQuery),
               ''text'' \<mapsto> RVal (VStr processedQuery), ''query_length'' \<mapsto> RVal (VInt (of_nat (length queryStr))),
               ''processed_length'' \<mapsto> RVal (VInt (of_nat (length processedQuery))), ''timestamp'' \<mapsto> RVal timestamp]))
      | Some _ \<Rightarrow> Inl ''query must be a string'')"

definition production_query_processor :: "gval \<Rightarrow> ProcessorFunc" where
  "production_query_processor timestamp = \<lparr>pf_name = ''production_query_processor'', pf_fn = QueryProcessor_Process timestamp\<rparr>"

subsection \<open>Properties\<close>

text \<open>
  the preprocessing of a query. The processed query is the words of the query with one blank
  between two of them: it has exactly these words, and processing it again changes nothing.
\<close>

theorem query_normalised:
  "Fields (preprocessQuery query) = Fields (TrimSpace query) \<and> preprocessQuery (preprocessQuery query) = preprocessQuery query"
proof -
  have clean: "clean w" if "w \<in> set (Fields (TrimSpace query))" for w using that by (rule Fields_clean)
  from Fields_join [OF clean] TrimSpace_join [OF clean] show ?thesis by (simp add: preprocessQuery_def)
qed

text \<open>What a sort by descending scores may give: every position once, no later score greater.\<close>

definition sorts_descending :: "(f64 list \<Rightarrow> nat list) \<Rightarrow> bool" where
  "sorts_descending order \<longleftrightarrow> (\<forall>scores. (\<forall>x \<in> set scores. \<not> f_nan x) \<longrightarrow>
     distinct (order scores) \<and> set (order scores) = {..<length scores}
     \<and> sorted_wrt (\<lambda>i j. \<not> f_less (scores ! i) (scores ! j)) (order scores))"

definition unranked :: "(string \<rightharpoonup> gval) \<Rightarrow> string \<rightharpoonup> gval" where
  "unranked m = m(''rank_score'' := None, ''rank_position'' := None)"

lemma unranked_upd: "unranked (m(''rank_score'' \<mapsto> a, ''rank_position'' \<mapsto> b)) = unranked m"
  by (simp add: unranked_def fun_eq_iff)


text \<open>A stable sort.\<close>

definition stable_order :: "f64 list \<Rightarrow> nat list" where
  "stable_order scores = sort_key (\<lambda>i. - f_key (scores ! i)) [0..<length scores]"

lemma stable_order_sorts: "sorts_descending stable_order"
  unfolding sorts_descending_def
proof (intro allI impI)
  fix scores :: "f64 list"
  let ?o = "stable_order scores"
  have "sorted (map (\<lambda>i. - f_key (scores ! i)) ?o)" by (simp add: stable_order_def)
  then have "sorted_wrt (\<lambda>i j. - f_key (scores ! i) \<le> - f_key (scores ! j)) ?o" by (simp add: sorted_map)
  then have "sorted_wrt (\<lambda>i j. \<not> f_less (scores ! i) (scores ! j)) ?o"
    by (rule sorted_wrt_mono_rel [rotated]) (simp add: f_less_def)
  then show "distinct ?o \<and> set ?o = {..<length scores} \<and> sorted_wrt (\<lambda>i j. \<not> f_less (scores ! i) (scores ! j)) ?o"
    by (auto simp: stable_order_def)
qed


end
