(* ===== verification/RagConfig.thy ===== *)
theory RagConfig
  imports ExecutionData
begin

section \<open>Configuration and setup of the production pipeline (examples/rag-pgvector-openai)\<close>

text \<open>
  \<^verbatim>\<open>internal/config/config.go\<close> and \<^verbatim>\<open>setup/init_db.go\<close>. The environment is a function that
  gives the empty text for a variable that is not set, as \<^verbatim>\<open>os.Getenv\<close> does; the
  \<^verbatim>\<open>.env\<close> file, \<^verbatim>\<open>strconv.ParseFloat\<close>, \<^verbatim>\<open>time.ParseDuration\<close> and the
  database server of the setup program are arguments.
\<close>

subsection \<open>Reading variables\<close>

type_synonym environ = "string \<Rightarrow> string"

definition getEnvWithDefault :: "environ \<Rightarrow> string \<Rightarrow> string \<Rightarrow> string" where
  "getEnvWithDefault getenv key defaultValue = (if getenv key \<noteq> [] then getenv key else defaultValue)"

text \<open>\<^verbatim>\<open>strconv.Atoi\<close>: a sign and decimal digits, within 64 bits.\<close>

definition Atoi :: "string \<Rightarrow> int option" where
  "Atoi s =
     (let ds = (if s \<noteq> [] \<and> (hd s = CHR ''-'' \<or> hd s = CHR ''+'') then tl s else s);
          n = (if s \<noteq> [] \<and> hd s = CHR ''-'' then - int (scan_digits 0 ds) else int (scan_digits 0 ds))
      in if ds \<noteq> [] \<and> list_all is_digit ds \<and> - (2 ^ 63) \<le> n \<and> n < 2 ^ 63 then Some n else None)"

text \<open>The three helpers for numbers differ only in how they parse.\<close>

definition env_parsed :: "(string \<Rightarrow> 'a option) \<Rightarrow> environ \<Rightarrow> string \<Rightarrow> 'a \<Rightarrow> 'a" where
  "env_parsed parse getenv key defaultValue =
     (let valueStr = getenv key in
      if valueStr \<noteq> [] then (case parse valueStr of Some v \<Rightarrow> v | None \<Rightarrow> defaultValue) else defaultValue)"

definition getEnvAsInt :: "environ \<Rightarrow> string \<Rightarrow> int \<Rightarrow> int" where
  "getEnvAsInt = env_parsed Atoi"

definition getEnvAsFloat :: "(string \<Rightarrow> f64 option) \<Rightarrow> environ \<Rightarrow> string \<Rightarrow> f64 \<Rightarrow> f64" where
  "getEnvAsFloat = env_parsed"

definition getEnvAsDuration :: "(string \<Rightarrow> int option) \<Rightarrow> environ \<Rightarrow> string \<Rightarrow> int \<Rightarrow> int" where
  "getEnvAsDuration = env_parsed"

subsection \<open>The configuration\<close>

record DatabaseConfig =
  dc_Host :: string
  dc_Port :: int
  dc_Name :: string
  dc_User :: string
  dc_Password :: string
  dc_SSLMode :: string
  dc_MaxConnections :: int
  dc_MinConnections :: int

record OpenAIConfig =
  oc_APIKey :: string
  oc_Model :: string
  oc_EmbeddingModel :: string
  oc_MaxTokens :: int
  oc_Temperature :: f64
  oc_RPMLimit :: int
  oc_TPMLimit :: int

record VectorConfig =
  vc_Dimensions :: int
  vc_MaxSearchResults :: int
  vc_SimilarityThreshold :: f64

record AppConfig =
  ac_LogLevel :: string
  ac_ServerPort :: int
  ac_RequestTimeout :: int

record ProductionConfig =
  cf_Database :: DatabaseConfig
  cf_OpenAI :: OpenAIConfig
  cf_Vector :: VectorConfig
  cf_App :: AppConfig

abbreviation f_one :: f64 where "f_one \<equiv> 0x3FF0000000000000"
abbreviation f_07 :: f64 where "f_07 \<equiv> 0x3FE6666666666666"  \<comment> \<open>0.7\<close>

definition ProductionConfig_Validate :: "ProductionConfig \<Rightarrow> string option" where
  "ProductionConfig_Validate c =
     (if oc_APIKey (cf_OpenAI c) = [] then Some ''OPENAI_API_KEY is required''
      else if dc_Password (cf_Database c) = [] then Some ''DB_PASSWORD is required''
      else if vc_Dimensions (cf_Vector c) \<le> 0 then Some ''VECTOR_DIMENSIONS must be positive''
      else if f_less (vc_SimilarityThreshold (cf_Vector c)) 0 \<or> f_less f_one (vc_SimilarityThreshold (cf_Vector c))
      then Some ''SIMILARITY_THRESHOLD must be between 0 and 1''
      else None)"

definition read_config :: "(string \<Rightarrow> f64 option) \<Rightarrow> (string \<Rightarrow> int option) \<Rightarrow> environ \<Rightarrow> ProductionConfig" where
  "read_config parse_float parse_dur getenv =
     \<lparr>cf_Database =
        \<lparr>dc_Host = getEnvWithDefault getenv ''DB_HOST'' ''localhost'',
         dc_Port = getEnvAsInt getenv ''DB_PORT'' 5432,
         dc_Name = getEnvWithDefault getenv ''DB_NAME'' ''rag_production'',
         dc_User = getEnvWithDefault getenv ''DB_USER'' ''postgres'',
         dc_Password = getEnvWithDefault getenv ''DB_PASSWORD'' [],
         dc_SSLMode = getEnvWithDefault getenv ''DB_SSL_MODE'' ''disable'',
         dc_MaxConnections = getEnvAsInt getenv ''DB_MAX_CONNECTIONS'' 25,
         dc_MinConnections = getEnvAsInt getenv ''DB_MIN_CONNECTIONS'' 5\<rparr>,
      cf_OpenAI =
        \<lparr>oc_APIKey = getEnvWithDefault getenv ''OPENAI_API_KEY'' [],
         oc_Model = getEnvWithDefault getenv ''OPENAI_MODEL'' ''gpt-4'',
         oc_EmbeddingModel = getEnvWithDefault getenv ''OPENAI_EMBEDDING_MODEL'' ''text-embedding-ada-002'',
         oc_MaxTokens = getEnvAsInt getenv ''OPENAI_MAX_TOKENS'' 1500,
         oc_Temperature = getEnvAsFloat parse_float getenv ''OPENAI_TEMPERATURE'' f_07,
         oc_RPMLimit = getEnvAsInt getenv ''OPENAI_RPM_LIMIT'' 3000,
         oc_TPMLimit = getEnvAsInt getenv ''OPENAI_TPM_LIMIT'' 90000\<rparr>,
      cf_Vector =
        \<lparr>vc_Dimensions = getEnvAsInt getenv ''VECTOR_DIMENSIONS'' 1536,
         vc_MaxSearchResults = getEnvAsInt getenv ''MAX_SEARCH_RESULTS'' 10,
         vc_SimilarityThreshold = getEnvAsFloat parse_float getenv ''SIMILARITY_THRESHOLD'' f_07\<rparr>,
      cf_App =
        \<lparr>ac_LogLevel = getEnvWithDefault getenv ''LOG_LEVEL'' ''info'',
         ac_ServerPort = getEnvAsInt getenv ''SERVER_PORT'' 8080,
         ac_RequestTimeout = getEnvAsDuration parse_dur getenv ''REQUEST_TIMEOUT'' (30 * 10 ^ 9)\<rparr>\<rparr>"

text \<open>\<open>dotenv\<close> is the environment after \<^verbatim>\<open>godotenv.Load\<close>, whose error is ignored.\<close>

definition LoadConfig ::
  "(environ \<Rightarrow> environ) \<Rightarrow> (string \<Rightarrow> f64 option) \<Rightarrow> (string \<Rightarrow> int option) \<Rightarrow> environ \<Rightarrow> string + ProductionConfig" where
  "LoadConfig dotenv parse_float parse_dur getenv =
     (let cfg = read_config parse_float parse_dur (dotenv getenv) in
      case ProductionConfig_Validate cfg of
        Some err \<Rightarrow> Inl (''invalid configuration: '' @ err)
      | None \<Rightarrow> Inr cfg)"

definition GetDatabaseURL :: "ProductionConfig \<Rightarrow> string" where
  "GetDatabaseURL c =
     (let d = cf_Database c in
      ''host='' @ dc_Host d @ '' port='' @ show_int (dc_Port d) @ '' user='' @ dc_User d @ '' password='' @ dc_Password d
      @ '' dbname='' @ dc_Name d @ '' sslmode='' @ dc_SSLMode d)"

subsection \<open>A configuration survives its environment\<close>

lemma all_digits_of: "list_all is_digit (digits_of n)"
  by (auto simp: list_all_iff dest: digits_of_digits)

lemma digits_no_sign: "c \<in> set (digits_of n) \<Longrightarrow> c \<noteq> CHR ''-'' \<and> c \<noteq> CHR ''+''"
  by (drule digits_of_digits) (auto simp: is_digit_def)

lemma Atoi_show:
  assumes "- (2 ^ 63) \<le> n" and "n < 2 ^ 63"
  shows "Atoi (show_int n) = Some n"
proof (cases "n < 0")
  case True
  then show ?thesis using assms by (simp add: Atoi_def show_int_def all_digits_of)
next
  case False
  have "hd (digits_of (nat n)) \<noteq> CHR ''-'' \<and> hd (digits_of (nat n)) \<noteq> CHR ''+''"
    by (rule digits_no_sign [of _ "nat n"]) simp
  then show ?thesis using False assms by (simp add: Atoi_def show_int_def all_digits_of)
qed

lemma show_int_nonempty [simp]: "show_int n \<noteq> []"
  by (simp add: show_int_def)

text \<open>The variables describe the configuration.\<close>

definition env_describes :: "(f64 \<Rightarrow> string) \<Rightarrow> (int \<Rightarrow> string) \<Rightarrow> ProductionConfig \<Rightarrow> environ \<Rightarrow> bool" where
  "env_describes show_float show_dur c getenv \<longleftrightarrow>
      getenv ''DB_HOST'' = dc_Host (cf_Database c) \<and>
      getenv ''DB_PORT'' = show_int (dc_Port (cf_Database c)) \<and>
      getenv ''DB_NAME'' = dc_Name (cf_Database c) \<and>
      getenv ''DB_USER'' = dc_User (cf_Database c) \<and>
      getenv ''DB_PASSWORD'' = dc_Password (cf_Database c) \<and>
      getenv ''DB_SSL_MODE'' = dc_SSLMode (cf_Database c) \<and>
      getenv ''DB_MAX_CONNECTIONS'' = show_int (dc_MaxConnections (cf_Database c)) \<and>
      getenv ''DB_MIN_CONNECTIONS'' = show_int (dc_MinConnections (cf_Database c)) \<and>
      getenv ''OPENAI_API_KEY'' = oc_APIKey (cf_OpenAI c) \<and>
      getenv ''OPENAI_MODEL'' = oc_Model (cf_OpenAI c) \<and>
      getenv ''OPENAI_EMBEDDING_MODEL'' = oc_EmbeddingModel (cf_OpenAI c) \<and>
      getenv ''OPENAI_MAX_TOKENS'' = show_int (oc_MaxTokens (cf_OpenAI c)) \<and>
      getenv ''OPENAI_TEMPERATURE'' = show_float (oc_Temperature (cf_OpenAI c)) \<and>
      getenv ''OPENAI_RPM_LIMIT'' = show_int (oc_RPMLimit (cf_OpenAI c)) \<and>
      getenv ''OPENAI_TPM_LIMIT'' = show_int (oc_TPMLimit (cf_OpenAI c)) \<and>
      getenv ''VECTOR_DIMENSIONS'' = show_int (vc_Dimensions (cf_Vector c)) \<and>
      getenv ''MAX_SEARCH_RESULTS'' = show_int (vc_MaxSearchResults (cf_Vector c)) \<and>
      getenv ''SIMILARITY_THRESHOLD'' = show_float (vc_SimilarityThreshold (cf_Vector c)) \<and>
      getenv ''LOG_LEVEL'' = ac_LogLevel (cf_App c) \<and>
      getenv ''SERVER_PORT'' = show_int (ac_ServerPort (cf_App c)) \<and>
      getenv ''REQUEST_TIMEOUT'' = show_dur (ac_RequestTimeout (cf_App c))"

definition int64_range :: "int \<Rightarrow> bool" where
  "int64_range n \<longleftrightarrow> - (2 ^ 63) \<le> n \<and> n < 2 ^ 63"

definition config_ints :: "ProductionConfig \<Rightarrow> int list" where
  "config_ints c = [dc_Port (cf_Database c), dc_MaxConnections (cf_Database c), dc_MinConnections (cf_Database c),
     oc_MaxTokens (cf_OpenAI c), oc_RPMLimit (cf_OpenAI c), oc_TPMLimit (cf_OpenAI c),
     vc_Dimensions (cf_Vector c), vc_MaxSearchResults (cf_Vector c), ac_ServerPort (cf_App c)]"

definition config_texts :: "ProductionConfig \<Rightarrow> string list" where
  "config_texts c = [dc_Host (cf_Database c), dc_Name (cf_Database c), dc_User (cf_Database c), dc_SSLMode (cf_Database c),
     oc_Model (cf_OpenAI c), oc_EmbeddingModel (cf_OpenAI c), ac_LogLevel (cf_App c)]"


definition sample_rag_config :: ProductionConfig where
  "sample_rag_config =
     \<lparr>cf_Database = \<lparr>dc_Host = ''h'', dc_Port = 1, dc_Name = ''n'', dc_User = ''u'', dc_Password = ''p'', dc_SSLMode = ''s'',
        dc_MaxConnections = 2, dc_MinConnections = - 1\<rparr>,
      cf_OpenAI = \<lparr>oc_APIKey = ''k'', oc_Model = ''m'', oc_EmbeddingModel = ''e'', oc_MaxTokens = 3, oc_Temperature = 0,
        oc_RPMLimit = 4, oc_TPMLimit = 5\<rparr>,
      cf_Vector = \<lparr>vc_Dimensions = 6, vc_MaxSearchResults = 7, vc_SimilarityThreshold = 0\<rparr>,
      cf_App = \<lparr>ac_LogLevel = ''l'', ac_ServerPort = 8, ac_RequestTimeout = 9\<rparr>\<rparr>"

definition show_f64 :: "f64 \<Rightarrow> string" where
  "show_f64 x = show_int (uint x)"

definition parse_f64 :: "string \<Rightarrow> f64 option" where
  "parse_f64 s = map_option word_of_int (scan_int s)"

definition sample_environ :: environ where
  "sample_environ key = the (map_of
     [(''DB_HOST'', ''h''), (''DB_PORT'', show_int (1)), (''DB_NAME'', ''n''), (''DB_USER'', ''u''), (''DB_PASSWORD'', ''p''),
      (''DB_SSL_MODE'', ''s''), (''DB_MAX_CONNECTIONS'', show_int (2)), (''DB_MIN_CONNECTIONS'', show_int (- 1)), (''OPENAI_API_KEY'', ''k''),
      (''OPENAI_MODEL'', ''m''), (''OPENAI_EMBEDDING_MODEL'', ''e''), (''OPENAI_MAX_TOKENS'', show_int (3)),
      (''OPENAI_TEMPERATURE'', show_f64 0), (''OPENAI_RPM_LIMIT'', show_int (4)), (''OPENAI_TPM_LIMIT'', show_int (5)),
      (''VECTOR_DIMENSIONS'', show_int (6)), (''MAX_SEARCH_RESULTS'', show_int (7)), (''SIMILARITY_THRESHOLD'', show_f64 0),
      (''LOG_LEVEL'', ''l''), (''SERVER_PORT'', show_int (8)), (''REQUEST_TIMEOUT'', show_int (9))] key)"

lemma sample_env_describes: "env_describes show_f64 show_int sample_rag_config sample_environ"
  by (simp add: env_describes_def sample_environ_def sample_rag_config_def)


end
