(* ===== verification/ProductionRag.thy ===== *)
theory ProductionRag
  imports RagProcessors RagConfig RagProps
begin

section \<open>The production pipeline (examples/rag-pgvector-openai/main.go)\<close>

text \<open>
  The program that puts the example together: it reads its configuration, connects to OpenAI and to the
  database, stores sample documents, registers the production processors and runs two demonstrations.
  \<^verbatim>\<open>log.Fatalf\<close> is \<open>Fails\<close>; what is only printed is left out.
\<close>

subsection \<open>Registering the processors\<close>

abbreviation f_01 :: f64 where "f_01 \<equiv> 0x3FB999999999999A"   \<comment> \<open>0.1\<close>
abbreviation f_005 :: f64 where "f_005 \<equiv> 0x3FA999999999999A"  \<comment> \<open>0.05\<close>

definition setupProductionRAGFunctions ::
  "gval \<Rightarrow> (f64 list \<Rightarrow> nat list) \<Rightarrow> 'd \<Rightarrow> OpenAI_Client \<Rightarrow> 'd VectorDB \<Rightarrow> ProductionConfig \<Rightarrow> EnhancedRAGRuntime \<Rightarrow> EnhancedRAGRuntime" where
  "setupProductionRAGFunctions timestamp order s client vdb cfg rt =
     fold RegisterRAGProcessor
       [production_query_processor timestamp,
        production_embedder (NewProductionEmbedder client (oc_EmbeddingModel (cf_OpenAI cfg))),
        production_vector_search s (NewProductionVectorSearch vdb (vc_MaxSearchResults (cf_Vector cfg))
          (vc_SimilarityThreshold (cf_Vector cfg))),
        production_rag_generator (NewProductionRAGGenerator client (oc_Model (cf_OpenAI cfg)) (oc_MaxTokens (cf_OpenAI cfg))
          (oc_Temperature (cf_OpenAI cfg)) 5),
        result_ranker order (NewResultRanker f_01 f_005)] rt"

subsection \<open>Sample documents\<close>

definition doc_meta :: "string \<Rightarrow> string \<Rightarrow> string \<Rightarrow> gstate" where
  "doc_meta topic category level = [''topic'' \<mapsto> VStr topic, ''category'' \<mapsto> VStr category, ''level'' \<mapsto> VStr level]"

definition sampleDocs :: "(string \<times> string \<times> gstate) list" where
  "sampleDocs =
     [(''doc1'', ''Machine learning is a subset of artificial intelligence that focuses on algorithms that can learn from data without being explicitly programmed. It includes supervised learning, unsupervised learning, and reinforcement learning approaches.'',
       doc_meta ''machine_learning'' ''AI'' ''beginner''),
      (''doc2'', ''Vector databases are specialized databases designed to store and query high-dimensional vector embeddings. They use techniques like approximate nearest neighbor search to efficiently find similar vectors, making them ideal for applications like semantic search and recommendation systems.'',
       doc_meta ''vector_databases'' ''databases'' ''intermediate''),
      (''doc3'', ''Retrieval-Augmented Generation (RAG) combines the power of large language models with external knowledge retrieval. It works by first retrieving relevant documents based on a query, then using those documents as context for generating more accurate and informed responses.'',
       doc_meta ''RAG'' ''NLP'' ''advanced''),
      (''doc4'', ''PostgreSQL with the pgvector extension provides efficient storage and querying of vector embeddings. It supports various distance metrics including cosine similarity, L2 distance, and inner product, making it suitable for similarity search applications.'',
       doc_meta ''pgvector'' ''databases'' ''intermediate''),
      (''doc5'', ''OpenAI'' @ [CHR 0x27] @ ''s text-embedding-ada-002 model produces 1536-dimensional embeddings that capture semantic meaning of text. These embeddings can be used for search, clustering, recommendations, anomaly detection, and classification tasks.'',
       doc_meta ''embeddings'' ''AI'' ''intermediate'')]"

text \<open>\<open>clock\<close> gives the time of each insertion.\<close>

fun store_documents ::
  "OpenAI_Client \<Rightarrow> 'd VectorDB \<Rightarrow> (nat \<Rightarrow> int) \<Rightarrow> nat \<Rightarrow> (string \<times> string \<times> gstate) list \<Rightarrow> 'd \<Rightarrow> string option \<times> 'd" where
  "store_documents client vdb clock n [] s = (None, s)"
| "store_documents client vdb clock n ((i, content, meta) # docs) s =
     (case CreateEmbedding \<lparr>eq_Text = content, eq_Model = []\<rparr> client of
        Inl err \<Rightarrow> (Some (''failed to create embedding for document '' @ i @ '': '' @ err), s)
      | Inr resp \<Rightarrow>
          (case InsertDocument (clock n) \<lparr>doc_ID = i, doc_Content = content, doc_Metadata = meta,
                  doc_Embedding = ep_Embedding resp, doc_CreatedAt = None, doc_UpdatedAt = None\<rparr> vdb s of
             (Some err, s1) \<Rightarrow> (Some (''failed to insert document '' @ i @ '': '' @ err), s1)
           | (None, s1) \<Rightarrow> store_documents client vdb clock (Suc n) docs s1))"

definition initializeSampleDocuments :: "'d VectorDB \<Rightarrow> OpenAI_Client \<Rightarrow> (nat \<Rightarrow> int) \<Rightarrow> 'd \<Rightarrow> string option \<times> 'd" where
  "initializeSampleDocuments vdb client clock s =
     (case GetDocumentCount vdb s of
        Inl err \<Rightarrow> (Some (''failed to get document count: '' @ err), s)
      | Inr n \<Rightarrow> if n > 0 then (None, s) else store_documents client vdb clock 0 sampleDocs s)"

subsection \<open>The demonstrations\<close>

definition production_config :: SimpleRAGConfig where
  "production_config = CustomSimpleRAGConfig ''production-rag'' ''Production RAG with pgvector and OpenAI'' ''query''
     [rag_n ''query'' ''Query Processing Node'' ''processor'' ''production_query_processor'',
      rag_n ''embedder'' ''Production Embedder'' ''processor'' ''production_embedder'',
      rag_n ''search'' ''Vector Search with pgvector'' ''retriever'' ''production_vector_search'',
      rag_n ''generator'' ''RAG Response Generator'' ''generator'' ''production_rag_generator'']
     [rag_e ''query'' ''embedder'', rag_e ''embedder'' ''search'', rag_e ''search'' ''generator'']"

definition advanced_config :: SimpleRAGConfig where
  "advanced_config = CustomSimpleRAGConfig ''advanced-rag'' ''Advanced RAG with Re-ranking'' ''query''
     [rag_n ''query'' ''Query Processing Node'' ''processor'' ''production_query_processor'',
      rag_n ''embedder'' ''Production Embedder'' ''processor'' ''production_embedder'',
      rag_n ''search'' ''Vector Search with pgvector'' ''retriever'' ''production_vector_search'',
      rag_n ''ranker'' ''Result Re-ranker'' ''processor'' ''result_ranker'',
      rag_n ''generator'' ''RAG Response Generator'' ''generator'' ''production_rag_generator'']
     [rag_e ''query'' ''embedder'', rag_e ''embedder'' ''search'', rag_e ''search'' ''ranker'', rag_e ''ranker'' ''generator'']"

definition buildRAGGraph :: "SimpleRAGConfig \<Rightarrow> build_error + Graph" where
  "buildRAGGraph config = BuildFunc_Build (SimpleRAG config) NewSimpleRAG"

definition testQueries :: "string list" where
  "testQueries = [''What is machine learning and how does it work?'', ''How do vector databases store and query embeddings?'',
     ''Explain how RAG improves language model responses'']"

definition complexQuery :: string where
  "complexQuery = ''Compare vector databases and traditional databases for AI applications. What are the advantages of using pgvector?''"

text \<open>What an execution depends on: the orders in which the graph is saved, and the executor's own.\<close>

record demo_env =
  de_ids :: "string list"
  de_ids' :: "string list"
  de_exec :: "saver_env exec_env"

definition demo_query :: "demo_env \<Rightarrow> Graph \<Rightarrow> string \<Rightarrow> string \<Rightarrow> EnhancedRAGRuntime \<Rightarrow> exec_result \<times> EnhancedRAGRuntime" where
  "demo_query env g thread query rt =
     ExecuteRAGGraph (de_ids env) (de_ids' env) (de_exec env) g thread (Some [''query'' \<mapsto> VStr query]) rt"

text \<open>The errors of the queries, in order: a query that fails is reported and the next one follows.\<close>

fun run_queries ::
  "(nat \<Rightarrow> demo_env) \<Rightarrow> Graph \<Rightarrow> nat \<Rightarrow> string list \<Rightarrow> exec_error option list \<Rightarrow> EnhancedRAGRuntime
   \<Rightarrow> (unit, exec_error option list) outcome \<times> EnhancedRAGRuntime" where
  "run_queries envs g i [] errs rt = (Returns errs, rt)"
| "run_queries envs g i (query # queries) errs rt =
     and_then (demo_query (envs i) g (''thread_'' @ show_int (int i + 1)) query rt)
       (\<lambda>(response, err) rt1. run_queries envs g (Suc i) queries (errs @ [err]) rt1)"

datatype demo_error = DemoBuildFailed build_error | DemoQueryFailed exec_error

definition runProductionRAGDemo ::
  "(nat \<Rightarrow> demo_env) \<Rightarrow> EnhancedRAGRuntime \<Rightarrow> (unit, demo_error option \<times> exec_error option list) outcome \<times> EnhancedRAGRuntime" where
  "runProductionRAGDemo envs rt =
     (case buildRAGGraph production_config of
        Inl err \<Rightarrow> (Returns (Some (DemoBuildFailed err), []), rt)
      | Inr g \<Rightarrow> and_then (run_queries envs g 0 testQueries [] rt) (\<lambda>errs rt1. (Returns (None, errs), rt1)))"

definition runAdvancedRAGDemo ::
  "demo_env \<Rightarrow> EnhancedRAGRuntime \<Rightarrow> (unit, demo_error option) outcome \<times> EnhancedRAGRuntime" where
  "runAdvancedRAGDemo env rt =
     (case buildRAGGraph advanced_config of
        Inl err \<Rightarrow> (Returns (Some (DemoBuildFailed err)), rt)
      | Inr g \<Rightarrow> and_then (demo_query env g ''advanced_thread'' complexQuery rt)
          (\<lambda>(response, err) rt1. (Returns (map_option DemoQueryFailed err), rt1)))"

subsection \<open>The program\<close>

record 'd main_env =
  me_dotenv :: "environ \<Rightarrow> environ"
  me_parse_float :: "string \<Rightarrow> f64 option"
  me_parse_dur :: "string \<Rightarrow> int option"
  me_api :: "string \<Rightarrow> openai_api"
  me_parse_url :: "string \<Rightarrow> string + pool_config"
  me_connect :: "pool_config \<Rightarrow> string + 'd vector_pool"
  me_clock :: "nat \<Rightarrow> int"
  me_timestamp :: gval
  me_order :: "f64 list \<Rightarrow> nat list"
  me_externals :: "Checkpoint Externals"
  me_queries :: "nat \<Rightarrow> demo_env"
  me_advanced :: demo_env

text \<open>The errors of the two demonstrations, which are only reported, and those of the queries.\<close>

definition rag_main ::
  "'d main_env \<Rightarrow> environ \<Rightarrow> 'd \<Rightarrow> (string, (demo_error option \<times> exec_error option list) \<times> demo_error option) outcome \<times> 'd" where
  "rag_main env getenv s =
     (case LoadConfig (me_dotenv env) (me_parse_float env) (me_parse_dur env) getenv of
        Inl err \<Rightarrow> (Fails (''Failed to load configuration: '' @ err), s)
      | Inr cfg \<Rightarrow>
          (let client = NewClient (me_api env) (oc_APIKey (cf_OpenAI cfg)) (oc_EmbeddingModel (cf_OpenAI cfg))
                 (oc_Model (cf_OpenAI cfg)) (oc_MaxTokens (cf_OpenAI cfg)) (oc_Temperature (cf_OpenAI cfg))
                 (ac_RequestTimeout (cf_App cfg))
           in case OpenAI_HealthCheck client of
                Some err \<Rightarrow> (Fails (''OpenAI health check failed: '' @ err), s)
              | None \<Rightarrow>
                  (case NewVectorDB (me_parse_url env) (me_connect env) (GetDatabaseURL cfg) (vc_Dimensions (cf_Vector cfg))
                      (dc_MaxConnections (cf_Database cfg)) (dc_MinConnections (cf_Database cfg)) s of
                     (Inl err, s1) \<Rightarrow> (Fails (''Failed to initialize vector database: '' @ err), s1)
                   | (Inr vdb, s1) \<Rightarrow>
                       (case VectorDB_HealthCheck vdb s1 of
                          Some err \<Rightarrow> (Fails (''Database health check failed: '' @ pg_error_text err), s1)
                        | None \<Rightarrow>
                            (case initializeSampleDocuments vdb client (me_clock env) s1 of
                               (Some err, s2) \<Rightarrow> (Fails (''Failed to initialize sample documents: '' @ err), s2)
                             | (None, s2) \<Rightarrow>
                                 (let rt = setupProductionRAGFunctions (me_timestamp env) (me_order env) s2 client vdb cfg
                                        (NewEnhancedRAGRuntime (me_externals env))
                                  in case runProductionRAGDemo (me_queries env) rt of
                                       (Returns production, rt1) \<Rightarrow>
                                         (case runAdvancedRAGDemo (me_advanced env) rt1 of
                                            (Returns advanced, rt2) \<Rightarrow> (Returns (production, advanced), VectorDB_Close vdb s2)
                                          | (Panics e, rt2) \<Rightarrow> (Panics e, s2)
                                          | (Deadlocks, rt2) \<Rightarrow> (Deadlocks, s2)
                                          | (_, rt2) \<Rightarrow> (Blocks, s2))
                                     | (Panics e, rt1) \<Rightarrow> (Panics e, s2)
                                     | (Deadlocks, rt1) \<Rightarrow> (Deadlocks, s2)
                                     | (_, rt1) \<Rightarrow> (Blocks, s2)))))))"

end
