(* ===== verification/ProductionRagProps.thy ===== *)
theory ProductionRagProps
  imports ProductionRag
begin

section \<open>Properties of the production pipeline\<close>

text \<open>
  The demonstrations fail on every input, the pipeline would fail even with its processors, and sample
  documents that were stored in part stay so.
\<close>

subsection \<open>The demonstrations\<close>

lemma production_config_wf: "rag_wf production_config" "rag_storable production_config"
  by (simp_all add: rag_wf_def rag_storable_def rag_ids_def production_config_def CustomSimpleRAGConfig_def rag_n_def rag_e_def
      NodeTypeConditional_def)

lemma advanced_config_wf: "rag_wf advanced_config" "rag_storable advanced_config"
  by (simp_all add: rag_wf_def rag_storable_def rag_ids_def advanced_config_def CustomSimpleRAGConfig_def rag_n_def rag_e_def
      NodeTypeConditional_def)

lemma demo_graphs:
  "buildRAGGraph production_config = Inr (rag_graph production_config)"
  "buildRAGGraph advanced_config = Inr (rag_graph advanced_config)"
  using production_config_wf(1) advanced_config_wf(1)
  by (simp_all add: buildRAGGraph_def BuildFunc_Build_def NewSimpleRAG_def NewBuildFunc_def built_result rag_accepted_wf)

definition demo_orders :: "Graph \<Rightarrow> demo_env \<Rightarrow> bool" where
  "demo_orders g env \<longleftrightarrow> map_order (g_Nodes g) (de_ids env) \<and> map_order (g_Nodes g) (de_ids' env)
     \<and> map_order (g_Nodes g) (xe_ids (de_exec env)) \<and> map_order (g_Nodes g) (xe_ids' (de_exec env))"

definition plain_runtime :: "EnhancedRAGRuntime \<Rightarrow> bool" where
  "plain_runtime rt \<longleftrightarrow> ge_process (er_runtime rt) = Process NewDefaultNodeProcessor"

text \<open>The error of a query.\<close>

definition no_processor :: exec_error where
  "no_processor = NodeExecutionFailed ''query'' ''no processor found for node type: processor''"

lemma entry_fails:
  assumes "rag_wf c" and "rag_storable c" and "rg_EntryPoint c = ''query''"
    and "rag_n ''query'' name ''processor'' f \<in> set (rg_Nodes c)"
    and "demo_orders (rag_graph c) env" and "plain_runtime rt" and "thread \<noteq> []"
  shows "\<exists>resp rt'. demo_query env (rag_graph c) thread query rt = (Returns (Some resp, Some no_processor), rt')
    \<and> plain_runtime rt'"
proof -
  let ?g = "rag_graph c"
  have wfg: "wf_graph ?g" using rag_graph_wf [OF assms(1)] assms(2) by simp
  have dist: "distinct (map rn_ID (rg_Nodes c))" using assms(1) by (simp add: rag_wf_def)
  have gid: "g_ID ?g \<noteq> []" using assms(1) by (simp add: rag_graph_def rag_wf_def)
  let ?n = "rag_node (rag_n ''query'' name ''processor'' f)"
  have entry: "g_EntryPoint ?g = ''query''" using assms(3) by (simp add: rag_graph_def)
  have "rag_nodes c ''query'' = Some (Some ?n)"
    unfolding rag_nodes_Some [OF dist] by (rule bexI [OF _ assms(4)]) (simp add: rag_n_def)
  then have node: "g_Nodes ?g (g_EntryPoint ?g) = Some (Some ?n)" unfolding entry by (simp add: rag_graph_def)
  have type: "\<not> CanProcess NewDefaultNodeProcessor (n_Type ?n)"
    by (simp add: rag_n_def rag_node_def default_processors node_type_defs)
  note o = assms(5) [unfolded demo_orders_def]
  from RunSimple_fails [OF wfg _ _ _ _ assms(7) gid node type assms(6) [unfolded plain_runtime_def]] o
  obtain rs rt' where "RunSimple (de_ids env) (de_ids' env) (de_exec env) ?g thread (Some [''query'' \<mapsto> VStr query]) (er_runtime rt)
      = (Returns (Some rs, Some (NodeExecutionFailed (n_ID ?n) (''no processor found for node type: '' @ n_Type ?n))), rt')"
    "ge_process rt' = ge_process (er_runtime rt)" by metis
  then show ?thesis using assms(6)
    by (simp add: demo_query_def ExecuteRAGGraph_def plain_runtime_def no_processor_def rag_node_def rag_n_def)
qed

lemma queries_fail:
  assumes "\<And>i. demo_orders (rag_graph production_config) (envs i)" and "plain_runtime rt"
  shows "\<exists>rt'. run_queries envs (rag_graph production_config) i queries errs rt
      = (Returns (errs @ map (\<lambda>_. Some no_processor) queries), rt') \<and> plain_runtime rt'"
  using assms(2)
proof (induction queries arbitrary: i errs rt)
  case (Cons query queries)
  have "rag_n ''query'' ''Query Processing Node'' ''processor'' ''production_query_processor'' \<in> set (rg_Nodes production_config)"
    "rg_EntryPoint production_config = ''query''"
    by (simp_all add: production_config_def CustomSimpleRAGConfig_def)
  from entry_fails [OF production_config_wf this(2,1) assms(1) Cons.prems, of "''thread_'' @ show_int (int i + 1)"]
  obtain resp rt' where "demo_query (envs i) (rag_graph production_config) (''thread_'' @ show_int (int i + 1)) query rt
      = (Returns (Some resp, Some no_processor), rt')" "plain_runtime rt'" by blast
  with Cons.IH [of rt' "Suc i" "errs @ [Some no_processor]"] show ?case by simp
qed simp

lemma setup_plain: "plain_runtime (setupProductionRAGFunctions timestamp order s client vdb cfg (NewEnhancedRAGRuntime x))"
  by (simp add: setupProductionRAGFunctions_def RegisterRAGProcessor_def plain_runtime_def NewEnhancedRAGRuntime_def
      NewRuntime_def NewDefaultGraphExecutor_def)

text \<open>
  C16: the demonstrations never answer. Whatever the client, the database and the configuration, after
  the production processors are registered every query of the first demonstration fails at the node
  \<^verbatim>\<open>query\<close>, since the runtime has no processor for its type, and yet the demonstration returns
  without an error; the second one fails in the same way and returns the error.
\<close>

theorem demos_never_answer:
  assumes "\<And>i. demo_orders (rag_graph production_config) (envs i)" and "demo_orders (rag_graph advanced_config) env"
  shows "\<exists>rt1 rt2. runProductionRAGDemo envs
        (setupProductionRAGFunctions timestamp order s client vdb cfg (NewEnhancedRAGRuntime x))
      = (Returns (None, map (\<lambda>_. Some no_processor) testQueries), rt1)
    \<and> runAdvancedRAGDemo env rt1 = (Returns (Some (DemoQueryFailed no_processor)), rt2)"
proof -
  let ?rt = "setupProductionRAGFunctions timestamp order s client vdb cfg (NewEnhancedRAGRuntime x)"
  from queries_fail [where envs = envs and rt = ?rt and i = 0 and queries = testQueries and errs = "[]", OF assms(1) setup_plain]
  obtain rt1 where
    1: "run_queries envs (rag_graph production_config) 0 testQueries [] ?rt = (Returns (map (\<lambda>_. Some no_processor) testQueries), rt1)"
    "plain_runtime rt1" by auto
  have "rag_n ''query'' ''Query Processing Node'' ''processor'' ''production_query_processor'' \<in> set (rg_Nodes advanced_config)"
    "rg_EntryPoint advanced_config = ''query''"
    by (simp_all add: advanced_config_def CustomSimpleRAGConfig_def)
  from entry_fails [OF advanced_config_wf this(2,1) assms(2) 1(2), of "''advanced_thread''"] obtain resp rt2 where
    "demo_query env (rag_graph advanced_config) ''advanced_thread'' complexQuery rt1 = (Returns (Some resp, Some no_processor), rt2)"
    by blast
  with 1 show ?thesis by (simp add: runProductionRAGDemo_def runAdvancedRAGDemo_def demo_graphs)
qed

subsection \<open>The processors as a chain\<close>

definition no_query :: "rag_map \<Rightarrow> bool" where
  "no_query m \<longleftrightarrow> m ''query'' = None \<and> m ''text'' = None"

text \<open>The node processor over a registered processor, without its case distinctions.\<close>

lemma node_result:
  assumes "RAG_Get f reg = Some p"
  shows "RAGNode_Process reg (rag_node (rag_n i name ty f)) input =
    (case pf_fn p input of
       Inl err \<Rightarrow> Fails (''error executing function '' @ quoted f @ '' in node '' @ i @ '': '' @ err)
     | Inr None \<Rightarrow> Panics ''assignment to entry in nil map''
     | Inr (Some output) \<Rightarrow> Returns (output(''_node_id'' \<mapsto> RVal (VStr i), ''_function_name'' \<mapsto> RVal (VStr f),
         ''_node_type'' \<mapsto> RVal (VStr ty))))"
  using assms by (simp add: RAGNode_Process_def rag_node_def rag_n_def ProcessorFunc_Process_def split: sum.splits option.splits)

lemma search_without_query: "VectorSearch_Process s p input = Inr out \<Longrightarrow> \<exists>m. out = Some m \<and> no_query m"
  by (auto simp: VectorSearch_Process_def no_query_def split: option.splits sum.splits)

lemma ranker_keeps: "Ranker_Process order r (Some m) = Inr out \<Longrightarrow> no_query m \<Longrightarrow> \<exists>m'. out = Some m' \<and> no_query m'"
  by (auto simp: Ranker_Process_def input_of_def no_query_def split: option.splits rag_val.splits if_splits)

lemma generator_needs_query: "no_query m \<Longrightarrow> \<exists>err. ProductionGenerator_Process p (Some m) = Inl err"
  by (simp add: ProductionGenerator_Process_def input_of_def no_query_def)

lemma embedder_some: "ProductionEmbedder_Process p input = Inr out \<Longrightarrow> \<exists>m. out = Some m"
  by (auto simp: ProductionEmbedder_Process_def split: option.splits rag_val.splits gval.splits sum.splits)

lemma query_some: "QueryProcessor_Process t input = Inr out \<Longrightarrow> \<exists>m. out = Some m"
  by (auto simp: QueryProcessor_Process_def Let_def split: option.splits rag_val.splits gval.splits if_splits)

lemma setup_registry:
  assumes "reg = GetFunctionRegistry (setupProductionRAGFunctions timestamp order s client vdb cfg rt)"
  shows "\<exists>p. RAG_Get ''production_query_processor'' reg = Some p \<and> pf_fn p = QueryProcessor_Process timestamp"
    "\<exists>p q. RAG_Get ''production_embedder'' reg = Some p \<and> pf_fn p = ProductionEmbedder_Process q"
    "\<exists>p q. RAG_Get ''production_vector_search'' reg = Some p \<and> pf_fn p = VectorSearch_Process s q"
    "\<exists>p q. RAG_Get ''result_ranker'' reg = Some p \<and> pf_fn p = Ranker_Process order q"
    "\<exists>p q. RAG_Get ''production_rag_generator'' reg = Some p \<and> pf_fn p = ProductionGenerator_Process q"
  unfolding assms
  by (auto simp: setupProductionRAGFunctions_def RegisterRAGProcessor_def GetFunctionRegistry_def RAG_Get_def RAG_Register_def
      ProcessorFunc_Name_def production_query_processor_def production_embedder_def production_vector_search_def
      production_rag_generator_def result_ranker_def)

lemma no_query_marked: "no_query m \<Longrightarrow> no_query (m(''_node_id'' \<mapsto> a, ''_function_name'' \<mapsto> b, ''_node_type'' \<mapsto> c))"
  by (simp add: no_query_def)

text \<open>A node either fails or gives a map with a certain property.\<close>

definition node_gives :: "(rag_map \<Rightarrow> bool) \<Rightarrow> (string, rag_map) outcome \<Rightarrow> bool" where
  "node_gives P r \<longleftrightarrow> (\<exists>err. r = Fails err) \<or> (\<exists>m. r = Returns m \<and> P m)"

lemma node_givesI:
  assumes "RAG_Get f reg = Some p" and "\<And>out. pf_fn p input = Inr out \<Longrightarrow> \<exists>m. out = Some m \<and> P m"
    and "\<And>m a b c. P m \<Longrightarrow> P (m(''_node_id'' \<mapsto> a, ''_function_name'' \<mapsto> b, ''_node_type'' \<mapsto> c))"
  shows "node_gives P (RAGNode_Process reg (rag_node (rag_n i name ty f)) input)"
  unfolding node_result [OF assms(1)] using assms(2,3) by (cases "pf_fn p input") (auto simp: node_gives_def)

lemma chain_fails:
  assumes "node_gives P (RAGNode_Process reg (rag_node n) input)"
    and "\<And>m. P m \<Longrightarrow> \<exists>err. rag_chain reg ns (Some m) = Fails err"
  shows "\<exists>err. rag_chain reg (n # ns) input = Fails err"
  using assms by (auto simp: node_gives_def)

lemma production_nodes:
  assumes "reg = GetFunctionRegistry (setupProductionRAGFunctions timestamp order s client vdb cfg rt)"
  shows "node_gives (\<lambda>_. True) (RAGNode_Process reg (rag_node (rag_n i name ty ''production_query_processor'')) input)"
    "node_gives (\<lambda>_. True) (RAGNode_Process reg (rag_node (rag_n i name ty ''production_embedder'')) input)"
    "node_gives no_query (RAGNode_Process reg (rag_node (rag_n i name ty ''production_vector_search'')) input)"
    "no_query m \<Longrightarrow> node_gives no_query (RAGNode_Process reg (rag_node (rag_n i name ty ''result_ranker'')) (Some m))"
    "no_query m \<Longrightarrow> \<exists>err. rag_chain reg [rag_n i name ty ''production_rag_generator''] (Some m) = Fails err"
proof -
  show "node_gives (\<lambda>_. True) (RAGNode_Process reg (rag_node (rag_n i name ty ''production_query_processor'')) input)"
  proof -
    obtain p where p: "RAG_Get ''production_query_processor'' reg = Some p" "pf_fn p = QueryProcessor_Process timestamp"
      using setup_registry(1) [OF assms] by blast
    show ?thesis by (rule node_givesI [OF p(1)]) (use query_some in \<open>simp_all add: p(2) no_query_marked\<close>)
  qed
  show "node_gives (\<lambda>_. True) (RAGNode_Process reg (rag_node (rag_n i name ty ''production_embedder'')) input)"
  proof -
    obtain p q where p: "RAG_Get ''production_embedder'' reg = Some p" "pf_fn p = ProductionEmbedder_Process q"
      using setup_registry(2) [OF assms] by blast
    show ?thesis by (rule node_givesI [OF p(1)]) (use embedder_some in \<open>simp_all add: p(2) no_query_marked\<close>)
  qed
  show "node_gives no_query (RAGNode_Process reg (rag_node (rag_n i name ty ''production_vector_search'')) input)"
  proof -
    obtain p q where p: "RAG_Get ''production_vector_search'' reg = Some p" "pf_fn p = VectorSearch_Process s q"
      using setup_registry(3) [OF assms] by blast
    show ?thesis by (rule node_givesI [OF p(1)]) (use search_without_query in \<open>simp_all add: p(2) no_query_marked\<close>)
  qed
  show "node_gives no_query (RAGNode_Process reg (rag_node (rag_n i name ty ''result_ranker'')) (Some m))" if "no_query m"
  proof -
    obtain p q where p: "RAG_Get ''result_ranker'' reg = Some p" "pf_fn p = Ranker_Process order q"
      using setup_registry(4) [OF assms] by blast
    show ?thesis by (rule node_givesI [OF p(1)]) (use ranker_keeps [OF _ that] in \<open>simp_all add: p(2) no_query_marked\<close>)
  qed
  obtain p q where p: "RAG_Get ''production_rag_generator'' reg = Some p" "pf_fn p = ProductionGenerator_Process q"
    using setup_registry(5) [OF assms] by blast
  show "no_query m \<Longrightarrow> \<exists>err. rag_chain reg [rag_n i name ty ''production_rag_generator''] (Some m) = Fails err"
    using generator_needs_query [of m q] by (auto simp: node_result [OF p(1)] p(2))
qed

text \<open>
  the processors do not form a pipeline either. Even if every node ran with the production
  processor of its name, on the output of the node before, neither pipeline would answer any input:
  the search gives only its results, so that the generator finds neither query nor text.
\<close>

theorem production_chain_fails:
  "let reg = GetFunctionRegistry (setupProductionRAGFunctions timestamp order s client vdb cfg rt) in
    (\<exists>err. rag_chain reg (rg_Nodes production_config) input = Fails err)
    \<and> (\<exists>err. rag_chain reg (rg_Nodes advanced_config) input = Fails err)"
proof -
  define reg where "reg = GetFunctionRegistry (setupProductionRAGFunctions timestamp order s client vdb cfg rt)"
  note nodes = production_nodes [OF reg_def]
  note tail = chain_fails [OF nodes(3) nodes(5)] chain_fails [OF nodes(3) chain_fails [OF nodes(4) nodes(5)]]
  show ?thesis
    unfolding Let_def reg_def [symmetric] production_config_def advanced_config_def CustomSimpleRAGConfig_def SimpleRAGConfig.select_convs
    by (intro conjI chain_fails [OF nodes(1)] chain_fails [OF nodes(2)] tail) assumption+
qed

subsection \<open>Sample documents\<close>

definition sample_document_of :: "string \<times> string \<times> gstate \<Rightarrow> f32 list \<Rightarrow> Document" where
  "sample_document_of d embedding = \<lparr>doc_ID = fst d, doc_Content = fst (snd d), doc_Metadata = snd (snd d),
     doc_Embedding = embedding, doc_CreatedAt = None, doc_UpdatedAt = None\<rparr>"

definition embeds :: "OpenAI_Client \<Rightarrow> 'd doc_table \<Rightarrow> string \<times> string \<times> gstate \<Rightarrow> bool" where
  "embeds client t d \<longleftrightarrow> (\<exists>resp. CreateEmbedding \<lparr>eq_Text = fst (snd d), eq_Model = []\<rparr> client = Inr resp
     \<and> dt_fits t (sample_document_of d (ep_Embedding resp)))"

definition refuses :: "OpenAI_Client \<Rightarrow> string \<times> string \<times> gstate \<Rightarrow> bool" where
  "refuses client d \<longleftrightarrow> isl (CreateEmbedding \<lparr>eq_Text = fst (snd d), eq_Model = []\<rparr> client)"

lemma store_until:
  assumes "documents_lawful vdb t" and "refuses client d"
  shows "\<forall>d' \<in> set pre. embeds client t d' \<Longrightarrow>
    \<exists>err s1. store_documents client vdb clock n (pre @ d # post) s = (Some err, s1) \<and> dom (dt_rows t s1) = dom (dt_rows t s) \<union> fst ` set pre"
proof (induction pre arbitrary: n s)
  case Nil
  obtain i content meta where d: "d = (i, content, meta)" by (cases d)
  from assms(2) obtain err where "CreateEmbedding \<lparr>eq_Text = content, eq_Model = []\<rparr> client = Inl err"
    by (auto simp: refuses_def d isl_def)
  then show ?case by (simp add: d)
next
  case (Cons e pre)
  obtain i content meta where e: "e = (i, content, meta)" by (cases e)
  from Cons.prems obtain resp where resp: "CreateEmbedding \<lparr>eq_Text = content, eq_Model = []\<rparr> client = Inr resp"
      "dt_fits t (sample_document_of e (ep_Embedding resp))" by (auto simp: embeds_def e)
  let ?doc = "sample_document_of e (ep_Embedding resp)"
  from documents_lawfulD(1) [OF assms(1), of ?doc "clock n" s] resp(2) obtain k s' r where
    ins: "vp_Exec (vdb_pool vdb) insert_query (insert_args (clock n) ?doc) s = (Inr k, s')" "dt_rows t s' = (dt_rows t s)(doc_ID ?doc \<mapsto> r)" by blast
  from Cons.IH [of "Suc n" s'] Cons.prems obtain err s1 where
    "store_documents client vdb clock (Suc n) (pre @ d # post) s' = (Some err, s1)" "dom (dt_rows t s1) = dom (dt_rows t s') \<union> fst ` set pre"
    by auto
  with ins resp(1) show ?case by (auto simp: e InsertDocument_def sample_document_of_def)
qed

text \<open>
  an initialization that fails half way. If the embedding of a sample document other than the
  first fails, the initialization of an empty database fails and leaves the documents before that one;
  every later initialization, with whatever client, succeeds at once and never stores the others.
\<close>

theorem partial_sample_documents:
  assumes "documents_lawful vdb t" and "dt_rows t s = Map.empty" and "0 < k" and "k < length sampleDocs"
    and "\<And>s. vp_QueryCount (vdb_pool vdb) ''SELECT COUNT(*) FROM documents'' s = Inr (int (card (dom (dt_rows t s))))"
    and "\<forall>d \<in> set (take k sampleDocs). embeds client t d" and "refuses client (sampleDocs ! k)"
  shows "\<exists>err s1. initializeSampleDocuments vdb client clock s = (Some err, s1)
    \<and> dom (dt_rows t s1) = fst ` set (take k sampleDocs)
    \<and> (\<forall>client' clock'. initializeSampleDocuments vdb client' clock' s1 = (None, s1))"
proof -
  have "sampleDocs = take k sampleDocs @ sampleDocs ! k # drop (Suc k) sampleDocs"
    using assms(4) by (rule id_take_nth_drop)
  with store_until [OF assms(1,7,6), of clock 0 "drop (Suc k) sampleDocs" s] obtain err s1 where
    st: "store_documents client vdb clock 0 sampleDocs s = (Some err, s1)" "dom (dt_rows t s1) = fst ` set (take k sampleDocs)"
    using assms(2) by auto
  have "take k sampleDocs \<noteq> []" using assms(3,4) by auto
  then have "0 < card (dom (dt_rows t s1))" unfolding st(2) by (simp add: card_gt_0_iff)
  then have "initializeSampleDocuments vdb client' clock' s1 = (None, s1)" for client' clock'
    by (simp add: initializeSampleDocuments_def GetDocumentCount_def assms(5))
  moreover have "initializeSampleDocuments vdb client clock s = (Some err, s1)"
    using st(1) by (simp add: initializeSampleDocuments_def GetDocumentCount_def assms(2,5))
  ultimately show ?thesis using st(2) by blast
qed

text \<open>A service that embeds every text but those that begin with a V.\<close>

definition moody_client :: OpenAI_Client where
  "moody_client = NewClient (\<lambda>_. \<lparr>oa_CreateEmbeddings = (\<lambda>_ texts _. if hd (hd texts) = CHR ''V'' then Inl ''rate limit''
       else Inr \<lparr>ae_Data = [[0]], ae_PromptTokens = 1, ae_TotalTokens = 1\<rparr>),
     oa_CreateChatCompletion = (\<lambda>_ _. Inl ''rate limit'')\<rparr>) [] [] [] 0 0 0"

theorem partial_sample_documents_witness:
  "\<exists>err s1. initializeSampleDocuments (table_vdb 1) moody_client (\<lambda>_. 0) Map.empty = (Some err, s1)
    \<and> dom s1 = {''doc1''} \<and> initializeSampleDocuments (table_vdb 1) moody_client (\<lambda>_. 1) s1 = (None, s1)"
proof -
  have len: "length sampleDocs = 5" "take 1 sampleDocs = [sampleDocs ! 0]" "fst (sampleDocs ! 0) = ''doc1''"
    by (simp_all add: sampleDocs_def)
  have first: "hd (fst (snd (sampleDocs ! 0))) \<noteq> CHR ''V''" "hd (fst (snd (sampleDocs ! 1))) = CHR ''V''"
    by (simp_all add: sampleDocs_def)
  have "embeds moody_client (plain_table 1) (sampleDocs ! 0)" "refuses moody_client (sampleDocs ! 1)"
    using first by (simp_all add: embeds_def refuses_def moody_client_def NewClient_def CreateEmbedding_def Let_def
        sample_document_of_def plain_table_def)
  then have all: "\<forall>d \<in> set (take 1 sampleDocs). embeds moody_client (plain_table 1) d"
      "refuses moody_client (sampleDocs ! 1)" unfolding len(2) by simp_all
  have count: "vp_QueryCount (vdb_pool (table_vdb 1)) ''SELECT COUNT(*) FROM documents'' s
      = Inr (int (card (dom (dt_rows (plain_table 1) s))))" for s
    by (simp add: table_vdb_def table_pool_def plain_table_def)
  have "dt_rows (plain_table 1) Map.empty = Map.empty" "0 < (1::nat)" "1 < length sampleDocs"
    using len(1) by (simp_all add: plain_table_def)
  from partial_sample_documents [OF table_lawful this count all, where clock = "\<lambda>_. 0"] show ?thesis
    unfolding len(2) using len(3) by (auto simp: plain_table_def)
qed

definition demo_env_of :: "Graph \<Rightarrow> string list \<Rightarrow> demo_env" where
  "demo_env_of g ids = \<lparr>de_ids = ids, de_ids' = ids, de_exec = rag_exec_env\<lparr>xe_ids := ids, xe_ids' := ids\<rparr>\<rparr>"

theorem demos_never_answer_witness:
  "\<exists>rt1 rt2. runProductionRAGDemo (\<lambda>_. demo_env_of (rag_graph production_config) [''query'', ''embedder'', ''search'', ''generator''])
        (setupProductionRAGFunctions VNil stable_order Map.empty moody_client (table_vdb 1) sample_rag_config
           (NewEnhancedRAGRuntime one_checkpoint))
      = (Returns (None, map (\<lambda>_. Some no_processor) testQueries), rt1)
    \<and> runAdvancedRAGDemo (demo_env_of (rag_graph advanced_config) [''query'', ''embedder'', ''search'', ''ranker'', ''generator'']) rt1
      = (Returns (Some (DemoQueryFailed no_processor)), rt2)"
  by (rule demos_never_answer)
    (auto simp: demo_orders_def demo_env_of_def map_order_def rag_graph_def dom_rag_nodes rag_ids_def production_config_def
      advanced_config_def CustomSimpleRAGConfig_def rag_n_def)

end
