(* ===== verification/RagSetup.thy ===== *)
theory RagSetup
  imports RagConfig
begin

section \<open>The setup program (examples/rag-pgvector-openai/setup/init_db.go)\<close>

text \<open>
  The program makes the database and enables the vector extension. The server and its driver are a
  record of functions; a connection is named by its connection string, since
  \<^verbatim>\<open>sql.Open\<close> only prepares it. \<^verbatim>\<open>log.Fatal\<close> ends the program with a message.
\<close>

subsection \<open>The program\<close>

record 's setup_server =
  su_Open :: "string \<Rightarrow> string option"
  su_Ping :: "string \<Rightarrow> 's \<Rightarrow> string option"
  su_Bool :: "string \<Rightarrow> string \<Rightarrow> string list \<Rightarrow> 's \<Rightarrow> string + bool"    \<comment> \<open>\<^verbatim>\<open>QueryRow\<close> and \<^verbatim>\<open>Scan\<close> of one boolean\<close>
  su_Exec :: "string \<Rightarrow> string \<Rightarrow> 's \<Rightarrow> string option \<times> 's"

definition exists_query :: string where
  "exists_query = ''SELECT EXISTS(SELECT datname FROM pg_catalog.pg_database WHERE datname = $1);''"

definition create_query :: "string \<Rightarrow> string" where
  "create_query dbname = ''CREATE DATABASE '' @ dbname @ '';''"

definition createDatabaseIfNotExists :: "'s setup_server \<Rightarrow> string \<Rightarrow> string \<Rightarrow> 's \<Rightarrow> string option \<times> 's" where
  "createDatabaseIfNotExists sv db dbname s =
     (case su_Bool sv db exists_query [dbname] s of
        Inl err \<Rightarrow> (Some (''failed to check if database exists: '' @ err), s)
      | Inr True \<Rightarrow> (None, s)
      | Inr False \<Rightarrow>
          (case su_Exec sv db (create_query dbname) s of
             (Some err, s1) \<Rightarrow> (Some (''failed to create database: '' @ err), s1)
           | (None, s1) \<Rightarrow> (None, s1)))"

definition extension_query :: string where
  "extension_query = ''CREATE EXTENSION IF NOT EXISTS vector;''"

definition check_query :: string where
  "check_query = ''SELECT EXISTS(SELECT 1 FROM pg_extension WHERE extname = '' @ [CHR 0x27] @ ''vector'' @ [CHR 0x27] @ '');''"

definition enablePgVector :: "'s setup_server \<Rightarrow> string \<Rightarrow> 's \<Rightarrow> string option \<times> 's" where
  "enablePgVector sv db s =
     (case su_Exec sv db extension_query s of
        (Some err, s1) \<Rightarrow> (Some (''failed to enable vector extension: '' @ err), s1)
      | (None, s1) \<Rightarrow>
          (case su_Bool sv db check_query [] s1 of
             Inl err \<Rightarrow> (Some (''failed to verify vector extension: '' @ err), s1)
           | Inr extExists \<Rightarrow>
               ((if \<not> extExists then Some ''pgvector extension is not properly installed'' else None), s1)))"

definition server_conn :: "environ \<Rightarrow> string" where
  "server_conn getenv =
     ''host='' @ getEnvWithDefault getenv ''DB_HOST'' ''localhost'' @ '' port='' @ getEnvWithDefault getenv ''DB_PORT'' ''5432''
     @ '' user='' @ getEnvWithDefault getenv ''DB_USER'' ''postgres'' @ '' password='' @ getenv ''DB_PASSWORD''"

definition setup_conn :: "environ \<Rightarrow> string" where
  "setup_conn getenv = server_conn getenv @ '' sslmode='' @ getEnvWithDefault getenv ''DB_SSL_MODE'' ''disable''"

definition setup_dbname :: "environ \<Rightarrow> string" where
  "setup_dbname getenv = getEnvWithDefault getenv ''DB_NAME'' ''rag_production''"

definition setup_app_conn :: "environ \<Rightarrow> string" where
  "setup_app_conn getenv =
     server_conn getenv @ '' dbname='' @ setup_dbname getenv @ '' sslmode='' @ getEnvWithDefault getenv ''DB_SSL_MODE'' ''disable''"

text \<open>The message with which the program ends early, if any; \<open>dotenv\<close> is as for the configuration.\<close>

definition setup_main :: "'s setup_server \<Rightarrow> (environ \<Rightarrow> environ) \<Rightarrow> environ \<Rightarrow> 's \<Rightarrow> string option \<times> 's" where
  "setup_main sv dotenv getenv0 s =
     (let getenv = dotenv getenv0;
          db = setup_conn getenv;
          appDB = setup_app_conn getenv
      in if getenv ''DB_PASSWORD'' = [] then (Some ''DB_PASSWORD environment variable is required'', s)
         else (case su_Open sv db of
           Some err \<Rightarrow> (Some (''Failed to connect to PostgreSQL: '' @ err), s)
         | None \<Rightarrow>
             (case su_Ping sv db s of
                Some err \<Rightarrow> (Some (''Failed to ping PostgreSQL: '' @ err), s)
              | None \<Rightarrow>
                  (case createDatabaseIfNotExists sv db (setup_dbname getenv) s of
                     (Some err, s1) \<Rightarrow> (Some (''Failed to create database: '' @ err), s1)
                   | (None, s1) \<Rightarrow>
                       (case su_Open sv appDB of
                          Some err \<Rightarrow> (Some (''Failed to connect to application database: '' @ err), s1)
                        | None \<Rightarrow>
                            (case enablePgVector sv appDB s1 of
                               (Some err, s2) \<Rightarrow> (Some (''Failed to enable pgvector: '' @ err), s2)
                             | (None, s2) \<Rightarrow> (None, s2)))))))"

subsection \<open>The server\<close>

text \<open>
  What PostgreSQL does with these statements, for a name that is an identifier: the name in
  \<^verbatim>\<open>CREATE DATABASE\<close> is not quoted and is folded to lower case, while the query for it and
  the connection string take it as it is; a connection to a missing database fails when it is used.
\<close>

definition lower_char :: "char \<Rightarrow> char" where
  "lower_char c = (let n = (of_char c :: nat) in if 65 \<le> n \<and> n \<le> 90 then char_of (n + 32) else c)"

definition lower_case :: "string \<Rightarrow> string" where
  "lower_case s = map lower_char s"

definition setup_lawful ::
  "'s setup_server \<Rightarrow> ('s \<Rightarrow> string set) \<Rightarrow> ('s \<Rightarrow> string set) \<Rightarrow> string \<Rightarrow> string \<Rightarrow> string \<Rightarrow> bool" where
  "setup_lawful sv dbs exts db appDB n \<longleftrightarrow>
     su_Open sv db = None \<and> su_Open sv appDB = None \<and> (\<forall>s. su_Ping sv db s = None)
     \<and> (\<forall>s. su_Bool sv db exists_query [n] s = Inr (n \<in> dbs s))
     \<and> (\<forall>s r s'. su_Exec sv db (create_query n) s = (r, s') \<longrightarrow>
          (if lower_case n \<in> dbs s then r \<noteq> None \<and> s' = s
           else r = None \<and> dbs s' = insert (lower_case n) (dbs s) \<and> exts s' = exts s))
     \<and> (\<forall>s r s'. su_Exec sv appDB extension_query s = (r, s') \<longrightarrow>
          (if n \<in> dbs s then r = None \<and> dbs s' = dbs s \<and> exts s' = insert n (exts s) else r \<noteq> None \<and> s' = s))
     \<and> (\<forall>s. n \<in> dbs s \<longrightarrow> su_Bool sv appDB check_query [] s = Inr (n \<in> exts s))"

lemma setup_lawfulD:
  assumes "setup_lawful sv dbs exts db appDB n"
  shows "su_Open sv db = None" "su_Open sv appDB = None" "su_Ping sv db s = None"
    "su_Bool sv db exists_query [n] s = Inr (n \<in> dbs s)"
    "su_Exec sv db (create_query n) s = (r, s') \<Longrightarrow>
       if lower_case n \<in> dbs s then r \<noteq> None \<and> s' = s
       else r = None \<and> dbs s' = insert (lower_case n) (dbs s) \<and> exts s' = exts s"
    "su_Exec sv appDB extension_query s = (r, s') \<Longrightarrow>
       if n \<in> dbs s then r = None \<and> dbs s' = dbs s \<and> exts s' = insert n (exts s) else r \<noteq> None \<and> s' = s"
    "n \<in> dbs s \<Longrightarrow> su_Bool sv appDB check_query [] s = Inr (n \<in> exts s)"
  using assms unfolding setup_lawful_def by blast+

text \<open>
  when the setup succeeds. On a server that answers, the program succeeds exactly if the database
  exists or its name has no capital letter, and then the database exists with the extension. With a
  capital letter in the name of a database that does not exist, it makes a database of another name
  (or fails because that exists), and fails.
\<close>

theorem setup_needs_lower_case:
  assumes "setup_lawful sv dbs exts (setup_conn (dotenv getenv)) (setup_app_conn (dotenv getenv)) n"
    and "n = setup_dbname (dotenv getenv)" and "dotenv getenv ''DB_PASSWORD'' \<noteq> []"
  shows "case setup_main sv dotenv getenv s of (r, s') \<Rightarrow>
     (r = None \<longleftrightarrow> n \<in> dbs s \<or> lower_case n = n)
     \<and> (r = None \<longrightarrow> dbs s' = insert n (dbs s) \<and> n \<in> exts s')
     \<and> (r \<noteq> None \<longrightarrow> dbs s' = insert (lower_case n) (dbs s) \<and> exts s' = exts s)"
proof -
  let ?db = "setup_conn (dotenv getenv)" and ?app = "setup_app_conn (dotenv getenv)"
  note law = setup_lawfulD [OF assms(1)]
  obtain r1 s1 where c: "su_Exec sv ?db (create_query n) s = (r1, s1)" by fastforce
  obtain r2 s2 where e: "su_Exec sv ?app extension_query s1 = (r2, s2)" by fastforce
  obtain r3 s3 where e0: "su_Exec sv ?app extension_query s = (r3, s3)" by fastforce
  note effects = law(5) [OF c] law(6) [OF e] law(6) [OF e0]
  note steps = setup_main_def createDatabaseIfNotExists_def enablePgVector_def Let_def assms(2) [symmetric] law(1-4) c e e0
  show ?thesis
  proof (cases "n \<in> dbs s")
    case True
    then show ?thesis using effects(3) law(7) [of s3] assms(3) by (simp add: steps insert_absorb)
  next
    case False
    then show ?thesis using effects(1,2) law(7) [of s2] assms(3) by (auto simp: steps split: if_splits option.splits)
  qed
qed

text \<open>A server of which only the names of its databases and their extensions are kept.\<close>

definition small_server :: "string \<Rightarrow> string \<Rightarrow> string \<Rightarrow> (string set \<times> string set) setup_server" where
  "small_server db appDB n =
     \<lparr>su_Open = (\<lambda>_. None), su_Ping = (\<lambda>_ _. None),
      su_Bool = (\<lambda>conn q args s. if q = exists_query then Inr (hd args \<in> fst s)
         else if n \<in> fst s then Inr (n \<in> snd s) else Inl ''no such database''),
      su_Exec = (\<lambda>conn q s. if q = extension_query
         then (if n \<in> fst s then (None, (fst s, insert n (snd s))) else (Some ''no such database'', s))
         else if lower_case n \<in> fst s then (Some ''database exists'', s)
         else (None, (insert (lower_case n) (fst s), snd s)))\<rparr>"

definition mixed_env :: environ where
  "mixed_env key = (if key = ''DB_PASSWORD'' then ''p'' else if key = ''DB_NAME'' then ''Rag'' else [])"

theorem setup_needs_lower_case_witness:
  "case setup_main (small_server (setup_conn mixed_env) (setup_app_conn mixed_env) ''Rag'') id mixed_env ({}, {}) of (r, s') \<Rightarrow>
     r \<noteq> None \<and> fst s' = {''rag''}"
proof -
  let ?sv = "small_server (setup_conn mixed_env) (setup_app_conn mixed_env) ''Rag''"
  have q: "exists_query \<noteq> check_query" "create_query ''Rag'' \<noteq> extension_query"
    by (simp_all add: exists_query_def check_query_def create_query_def extension_query_def)
  have lawful: "setup_lawful ?sv fst snd (setup_conn (id mixed_env)) (setup_app_conn (id mixed_env)) ''Rag''"
    using q by (auto simp: setup_lawful_def small_server_def)
  have name: "''Rag'' = setup_dbname (id mixed_env)" and pw: "id mixed_env ''DB_PASSWORD'' \<noteq> []"
    by (simp_all add: setup_dbname_def getEnvWithDefault_def mixed_env_def)
  have lower: "lower_case ''Rag'' = ''rag''" by code_simp
  obtain r s' where run: "setup_main ?sv id mixed_env ({}, {}) = (r, s')" by (metis surj_pair)
  note main = setup_needs_lower_case [where sv = ?sv and dbs = fst and exts = snd and dotenv = id and getenv = mixed_env
        and n = "''Rag''" and s = "({}, {})", OF lawful name pw, unfolded run lower case_prod_conv fst_conv snd_conv]
  then have "r \<noteq> None" by simp
  with main have "fst s' = {''rag''}" by blast
  with \<open>r \<noteq> None\<close> show ?thesis by (simp only: run case_prod_conv) simp
qed

end
