(* ===== verification/ChannelDemo.thy ===== *)
theory ChannelDemo
  imports InMemoryChannel BufferedChannel PersistentProps Reducers
begin

section \<open>The notification system (examples/channel-demo/main.go)\<close>

text \<open>
  A program that uses the three channels and a reducer together: agents send notifications on every
  channel, each channel is read until a receive fails, and the alerts are aggregated. What is printed
  is the result of the model; random numbers, times, faults and the arms of the selects are arguments.
\<close>

subsection \<open>Reading until an error\<close>

text \<open>
  One choice for each receive. When they are used up the loop still waits.
\<close>

fun receiveAndPrint ::
  "('x \<Rightarrow> 'c \<Rightarrow> (chan_error, Message) outcome \<times> 'c) \<Rightarrow> 'x list \<Rightarrow> 'c \<Rightarrow> (chan_error, Message list) outcome \<times> 'c" where
  "receiveAndPrint rcv [] c = (Blocks, c)"
| "receiveAndPrint rcv (x # xs) c =
     (case rcv x c of
        (Fails err, c1) \<Rightarrow> (Returns [], c1)
      | (r, c1) \<Rightarrow> and_then (r, c1) (\<lambda>msg c1. and_then (receiveAndPrint rcv xs c1) (\<lambda>msgs c2. (Returns (msg # msgs), c2))))"

lemma receiveAndPrint_map: "receiveAndPrint rcv (map g xs) c = receiveAndPrint (\<lambda>x. rcv (g x)) xs c"
  by (induction xs arbitrary: c) (auto split: prod.splits outcome.splits intro!: and_then_cong)

subsection \<open>Channels that answer at once\<close>

text \<open>
  A channel that takes valid messages up to some number at once, gives what it holds at once, and
  fails when it is empty and its time is up.
\<close>

locale prompt_channel = fifo_channel +
  fixes valid :: "Message \<Rightarrow> bool" and room :: nat
  assumes prompt_send: "inv c \<Longrightarrow> valid m \<Longrightarrow> length (contents c) < room \<Longrightarrow> \<exists>c'. snd_op ArmChan m c = (Returns (), c')"
    and prompt_receive: "inv c \<Longrightarrow> contents c = m # ms \<Longrightarrow> \<exists>m' c'. rcv_op ArmChan c = (Returns m', c')"
    and empty_receive: "inv c \<Longrightarrow> contents c = [] \<Longrightarrow> \<exists>e c'. rcv_op ArmTimeout c = (Fails e, c')"
begin

lemma deliver:
  assumes "inv c" and "valid m" and "length (contents c) < room"
  shows "\<exists>c'. snd_op ArmChan m c = (Returns (), c') \<and> inv c' \<and> contents c' = contents c @ [view m]"
  using prompt_send [OF assms] send_inv [OF assms(1)] send_contents [OF assms(1)] by fastforce

lemma receive_all:
  assumes "inv c"
  shows "\<exists>c'. receiveAndPrint rcv_op (replicate (length (contents c)) ArmChan @ [ArmTimeout]) c = (Returns (contents c), c')
    \<and> inv c' \<and> contents c' = []"
  using assms
proof (induction "contents c" arbitrary: c)
  case Nil
  then obtain e c' where "rcv_op ArmTimeout c = (Fails e, c')" using empty_receive [of c] by metis
  with Nil recv_inv [of c] recv_contents [of c] show ?case by fastforce
next
  case (Cons m ms)
  from prompt_receive [OF Cons.prems Cons.hyps(2) [symmetric]] obtain m' c1 where
    r: "rcv_op ArmChan c = (Returns m', c1)" by blast
  with recv_contents [OF Cons.prems r] Cons.hyps(2) have c1: "m' = m" "contents c1 = ms" by auto
  from Cons.hyps(1) [of c1] c1(2) recv_inv [OF Cons.prems r] obtain c' where
    "receiveAndPrint rcv_op (replicate (length ms) ArmChan @ [ArmTimeout]) c1 = (Returns ms, c')" "inv c'" "contents c' = []"
    by auto
  then show ?case using r c1(1) by (intro exI [of _ c']) (simp flip: Cons.hyps(2))
qed

end

definition holds :: "nat \<Rightarrow> InMemChan \<Rightarrow> bool" where
  "holds n c \<longleftrightarrow> inmem_open c \<and> n \<le> InMem_Cap c"

interpretation inmem_prompt: prompt_channel InMem_Send InMem_Receive inmem_contents "\<lambda>m. m" "holds n"
  "\<lambda>m. Message_Validate m = None" n for n
proof unfold_locales
  show "holds n c \<Longrightarrow> InMem_Send a m c = (r, c') \<Longrightarrow> holds n c'" for c a m r c'
    unfolding holds_def using inmem.send_inv inmem.send_capacity by metis
  show "holds n c \<Longrightarrow> InMem_Receive a c = (q, c') \<Longrightarrow> holds n c'" for c a q c'
    unfolding holds_def using inmem.recv_inv inmem.recv_capacity by metis
  show "holds n c \<Longrightarrow> Message_Validate m = None \<Longrightarrow> length (inmem_contents c) < n \<Longrightarrow>
      \<exists>c'. InMem_Send ArmChan m c = (Returns (), c')" for c m
    by (auto simp: holds_def inmem_open_def inmem_inv_def InMem_Cap_def inmem_ops)
  show "holds n c \<Longrightarrow> InMem_Send a m c = (r, c') \<Longrightarrow>
      inmem_contents c' = (if r = Returns () then inmem_contents c @ [m] else inmem_contents c)" for c a m r c'
    unfolding holds_def using InMem_Send_contents by blast
  show "holds n c \<Longrightarrow> InMem_Receive a c = (q, c') \<Longrightarrow>
      inmem_contents c = (case q of Returns m \<Rightarrow> m # inmem_contents c' | _ \<Rightarrow> inmem_contents c')" for c a q c'
    unfolding holds_def using InMem_Receive_contents by blast
qed (auto simp: holds_def inmem_open_def inmem_inv_def inmem_ops)

definition buf_holds :: "nat \<Rightarrow> BufChan \<Rightarrow> bool" where
  "buf_holds n c \<longleftrightarrow> buf_inv c \<and> \<not> bc_closed c \<and> int n \<le> Buf_Cap c"

interpretation buf_prompt: prompt_channel Buf_Send Buf_Receive bc_buffer "\<lambda>m. m" "buf_holds n"
  "\<lambda>m. Message_Validate m = None" n for n
proof unfold_locales
  show "buf_holds n c \<Longrightarrow> Buf_Send a m c = (r, c') \<Longrightarrow> buf_holds n c'" for c a m r c'
    by (auto simp: buf_ops buf_holds_def buf_inv_def Buf_Cap_def split: option.splits if_splits select_arm.splits)
  show "buf_holds n c \<Longrightarrow> Buf_Receive a c = (q, c') \<Longrightarrow> buf_holds n c'" for c a q c'
    by (auto simp: buf_ops buf_holds_def buf_inv_def Buf_Cap_def split: list.splits if_splits select_arm.splits)
  show "buf_holds n c \<Longrightarrow> Buf_Send a m c = (r, c') \<Longrightarrow>
      bc_buffer c' = (if r = Returns () then bc_buffer c @ [m] else bc_buffer c)" for c a m r c'
    by (rule Buf_Send_contents)
  show "buf_holds n c \<Longrightarrow> Buf_Receive a c = (q, c') \<Longrightarrow>
      bc_buffer c = (case q of Returns m \<Rightarrow> m # bc_buffer c' | _ \<Rightarrow> bc_buffer c')" for c a q c'
    by (rule Buf_Receive_contents)
qed (auto simp: buf_ops buf_holds_def Buf_Cap_def)

text \<open>Files of at most half a megabyte leave room for three messages in two.\<close>

definition pc_holds :: "Env \<Rightarrow> PersistentChannel \<Rightarrow> bool" where
  "pc_holds env c \<longleftrightarrow> keeps_all env c \<and> \<not> pc_closed c \<and> pc_maxSize c = 2 * 1024 * 1024
     \<and> (\<forall>m. env_file_size env m \<le> 512 * 1024)"

lemma pc_size_bound:
  assumes "pc_core env c" and "\<And>m. env_file_size env m \<le> k"
  shows "pc_currentSize c \<le> int (length (pc_messages c)) * k"
proof -
  have "entry_size env (pc_disk c) pm \<le> k" if "pm \<in> set (pc_messages c)" for pm
    using assms that by (auto simp: pc_core_def entry_ok_def entry_size_def file_size_def)
  then have "sum_list (map (entry_size env (pc_disk c)) (pc_messages c)) \<le> sum_list (map (\<lambda>_. k) (pc_messages c))"
    by (rule sum_list_mono)
  then show ?thesis using assms(1) by (simp add: pc_core_def sum_list_triv)
qed

lemma no_retention:
  assumes "pc_maxMessages c \<le> 0" and "pc_maxAge c \<le> 0" and "\<not> evicts c"
  shows "send_retention env io now c = c"
  using assms by (simp add: send_retention_def Let_def enforceMaxMessages.simps [of env io c] enforceMaxAge.simps [of env io now c])

lemma pc_size_kept:
  assumes "PC_Send env NoFault now m c = (r, c')" and "keeps_all env c"
  shows "pc_maxSize c' = pc_maxSize c"
  using assms
  by (auto simp: PC_Send_def send_store_def writeMessage_def saveIndex_ok keeps_all_def no_retention evicts_def Let_def
      remove_file_def split: option.splits if_splits)

lemma pc_send_now:
  assumes "pc_holds env c" and "Message_Validate m = None" and "json_message env m \<noteq> None" and "length (pc_contents c) < 3"
  shows "\<exists>c'. PC_Send env NoFault now m c = (Returns (), c')"
proof -
  have core: "pc_core env c" using assms(1) by (simp add: pc_holds_def keeps_all_def)
  obtain m' where json: "json_message env m = Some m'" using assms(3) by blast
  have "pc_currentSize c \<le> int (length (pc_messages c)) * (512 * 1024)"
    using assms(1) by (intro pc_size_bound [OF core]) (simp add: pc_holds_def)
  also have "\<dots> < 2 * 1024 * 1024" using assms(4) by (simp add: pc_contents_def)
  finally have "\<not> pc_maxSize c \<le> pc_currentSize c" using assms(1) by (simp add: pc_holds_def)
  moreover obtain c' where "send_store env NoFault now m c = (Returns (), c')"
    by (rule store_core [OF core json, of now]) blast
  ultimately show ?thesis using assms(1,2) by (simp add: PC_Send_def pc_holds_def)
qed

interpretation pers_prompt: prompt_channel "\<lambda>a m. PC_Send env NoFault now m" "\<lambda>a. PC_Receive env NoFault"
  pc_contents "json_view env" "pc_holds env" "\<lambda>m. Message_Validate m = None \<and> json_message env m \<noteq> None" 3 for env now
proof unfold_locales
  fix c a m r c' assume h: "pc_holds env c" and send: "PC_Send env NoFault now m c = (r, c')"
  then have inv: "keeps_all env c" and core: "pc_core env c" by (simp_all add: pc_holds_def keeps_all_def)
  show "pc_holds env c'"
    using h pc_size_kept [OF send inv] pers.send_inv [OF inv send] Send_cases [OF core send] by (simp add: pc_holds_def)
  show "pc_contents c' = (if r = Returns () then pc_contents c @ [json_view env m] else pc_contents c)"
    by (rule pers.send_contents [OF inv send])
next
  fix c a q c' assume h: "pc_holds env c" and recv: "PC_Receive env NoFault c = (q, c')"
  then have inv: "keeps_all env c" and core: "pc_core env c" by (simp_all add: pc_holds_def keeps_all_def)
  show "pc_holds env c'"
    using h pers.recv_inv [OF inv recv] Receive_cases [OF core recv] by (simp add: pc_holds_def pc_frame_def)
  show "pc_contents c = (case q of Returns m \<Rightarrow> m # pc_contents c' | _ \<Rightarrow> pc_contents c')"
    by (rule pers.recv_contents [OF inv recv])
next
  fix c m ms assume h: "pc_holds env c" and "pc_contents c = m # ms"
  then have core: "pc_core env c" and "pc_messages c \<noteq> []" "\<not> pc_closed c"
    by (auto simp: pc_holds_def keeps_all_def pc_contents_def)
  moreover obtain q c' where "PC_Receive env NoFault c = (q, c')" by fastforce
  ultimately show "\<exists>m' c'. PC_Receive env NoFault c = (Returns m', c')" using Receive_cases [OF core] by blast
next
  fix c assume "pc_holds env c" and "pc_contents c = []"
  then show "\<exists>e c'. PC_Receive env NoFault c = (Fails e, c')" by (simp add: pc_holds_def pc_contents_def PC_Receive_def)
qed (use pc_send_now in auto)

subsection \<open>The program\<close>

text \<open>
  What the program does not decide: for the \<open>i\<close>-th agent the random number, the formatted time,
  the clock, the fault of the file system and the arms of the two waiting sends; the choices of the
  receives; the arm of the last send and the fault of the close.
\<close>

record notify_env =
  nv_env :: Env
  nv_random :: "nat \<Rightarrow> int"
  nv_time :: "nat \<Rightarrow> string"
  nv_clock :: "nat \<Rightarrow> int"
  nv_fault :: "nat \<Rightarrow> io_fault"
  nv_send :: "nat \<Rightarrow> select_arm \<times> select_arm"
  nv_receive :: "select_arm list \<times> select_arm list \<times> io_fault list"
  nv_lost :: select_arm
  nv_close :: io_fault

record notify_system =
  ns_inMem :: InMemChan
  ns_buf :: BufChan
  ns_persist :: PersistentChannel

definition agents :: "string list" where
  "agents = [''agent-A'', ''agent-B'', ''agent-C'']"

definition notification :: "int \<Rightarrow> string \<Rightarrow> string \<Rightarrow> Message" where
  "notification n time agent =
     \<lparr>m_ID = ''msg-'' @ show_int n, m_Type = MessageTypeData, m_Source = agent, m_Target = ''all'',
      m_Payload = VStr (''Alert from '' @ agent @ '' at '' @ time), m_Headers = Map.empty, m_Metadata = Map.empty\<rparr>"

definition lostMsg :: Message where
  "lostMsg = \<lparr>m_ID = ''lost-1'', m_Type = MessageTypeData, m_Source = ''agent-X'', m_Target = ''all'',
     m_Payload = VStr ''Lost alert'', m_Headers = Map.empty, m_Metadata = Map.empty\<rparr>"

text \<open>A call on a part of the state whose error does not end the program.\<close>

fun attempt :: "('e, 'a) outcome \<times> 'c \<Rightarrow> ('c \<Rightarrow> 's) \<Rightarrow> ('f, 'e option) outcome \<times> 's" where
  "attempt (Returns x, c) put = (Returns None, put c)"
| "attempt (Fails err, c) put = (Returns (Some err), put c)"
| "attempt (Blocks, c) put = (Blocks, put c)"
| "attempt (Deadlocks, c) put = (Deadlocks, put c)"
| "attempt (Panics t, c) put = (Panics t, put c)"

definition send_everywhere :: "notify_env \<Rightarrow> nat \<Rightarrow> Message \<Rightarrow> notify_system \<Rightarrow> (chan_error, unit) outcome \<times> notify_system" where
  "send_everywhere e i msg s =
     and_then (attempt (InMem_Send (fst (nv_send e i)) msg (ns_inMem s)) (\<lambda>c. s\<lparr>ns_inMem := c\<rparr>)) (\<lambda>_ s1.
     and_then (attempt (Buf_Send (snd (nv_send e i)) msg (ns_buf s1)) (\<lambda>c. s1\<lparr>ns_buf := c\<rparr>)) (\<lambda>_ s2.
     and_then (attempt (PC_Send (nv_env e) (nv_fault e i) (nv_clock e i) msg (ns_persist s2)) (\<lambda>c. s2\<lparr>ns_persist := c\<rparr>)) (\<lambda>_ s3.
     (Returns (), s3))))"

fun notify_agents :: "notify_env \<Rightarrow> nat \<Rightarrow> string list \<Rightarrow> notify_system \<Rightarrow> (chan_error, unit) outcome \<times> notify_system" where
  "notify_agents e i [] s = (Returns (), s)"
| "notify_agents e i (agent # rest) s =
     and_then (send_everywhere e i (notification (nv_random e i) (nv_time e i) agent) s) (\<lambda>_. notify_agents e (Suc i) rest)"

text \<open>The maps of the aggregation have one key, so that their loops have one order.\<close>

fun aggregate :: "string list \<Rightarrow> gstate \<Rightarrow> gstate option" where
  "aggregate [] current = Some current"
| "aggregate (agent # rest) current =
     (case AppendReducer_Reduce [''alerts''] [''alerts''] current [''alerts'' \<mapsto> VList [VStr (''alert-from-'' @ agent)]] of
        None \<Rightarrow> None
      | Some current \<Rightarrow> aggregate rest current)"

record notify_report =
  np_inMem :: "Message list"
  np_buf :: "Message list"
  np_persist :: "Message list"
  np_alerts :: "gval option"
  np_lost :: "chan_error option"

definition on_part :: "'a \<times> 'c \<Rightarrow> ('c \<Rightarrow> 's) \<Rightarrow> 'a \<times> 's" where
  "on_part p put = (fst p, put (snd p))"

definition close_channels :: "notify_env \<Rightarrow> notify_system \<Rightarrow> notify_system" where
  "close_channels e s =
     s\<lparr>ns_persist := snd (PC_Close (nv_close e) (ns_persist s)), ns_buf := Buf_Close (ns_buf s),
       ns_inMem := snd (InMem_Close (ns_inMem s))\<rparr>"

definition notify_run :: "notify_env \<Rightarrow> notify_system \<Rightarrow> (chan_error, notify_report) outcome \<times> notify_system" where
  "notify_run e s =
     and_then (notify_agents e 0 agents s) (\<lambda>_ s1.
     and_then (on_part (receiveAndPrint InMem_Receive (fst (nv_receive e)) (ns_inMem s1)) (\<lambda>c. s1\<lparr>ns_inMem := c\<rparr>)) (\<lambda>ms s2.
     and_then (on_part (receiveAndPrint Buf_Receive (fst (snd (nv_receive e))) (ns_buf s2)) (\<lambda>c. s2\<lparr>ns_buf := c\<rparr>)) (\<lambda>bs s3.
     and_then (on_part (receiveAndPrint (PC_Receive (nv_env e)) (snd (snd (nv_receive e))) (ns_persist s3)) (\<lambda>c. s3\<lparr>ns_persist := c\<rparr>)) (\<lambda>ps s4.
     case aggregate agents [''alerts'' \<mapsto> VList [VStr ''init'']] of
       None \<Rightarrow> (Panics ''reflect: value of wrong type'', s4)
     | Some current \<Rightarrow>
         and_then (attempt (InMem_Send (nv_lost e) lostMsg (ns_inMem s4)) (\<lambda>c. s4\<lparr>ns_inMem := c\<rparr>)) (\<lambda>lost s5.
         (Returns \<lparr>np_inMem = ms, np_buf = bs, np_persist = ps, np_alerts = current ''alerts'', np_lost = lost\<rparr>,
          close_channels e s5))))))"

definition notify_config :: PersistentChannelConfig where
  "notify_config = \<lparr>pcc_DataDir = ''/tmp/flowgraph-notify'', pcc_MaxSizeMB = 2, pcc_Timeout = seconds 3, pcc_SyncWrites = False,
     pcc_MaxMessages = 0, pcc_MaxAge = 0, pcc_OnFull = []\<rparr>"

definition notify_system_of :: "RuntimeConfig \<Rightarrow> PersistentChannel \<Rightarrow> notify_system" where
  "notify_system_of rc persistCh =
     \<lparr>ns_inMem = DefaultInMemoryChannel rc, ns_buf = NewBufferedChannel \<lparr>bcc_MaxSize = 10, bcc_Timeout = seconds 3\<rparr>,
      ns_persist = persistCh\<rparr>"

text \<open>\<open>entries\<close> and \<open>disk\<close> are the directory before the program starts.\<close>

definition notify_main ::
  "notify_env \<Rightarrow> RuntimeConfig \<Rightarrow> int \<Rightarrow> string list \<Rightarrow> (string \<rightharpoonup> pfile)
   \<Rightarrow> chan_error + (chan_error, notify_report) outcome \<times> notify_system" where
  "notify_main e rc now entries disk =
     (case NewPersistentChannel (nv_env e) now entries disk notify_config of
        Inl err \<Rightarrow> Inl err
      | Inr persistCh \<Rightarrow> Inr (notify_run e (notify_system_of rc persistCh)))"

subsection \<open>Every channel delivers every notification\<close>

definition all_hold :: "Env \<Rightarrow> Message list \<Rightarrow> notify_system \<Rightarrow> bool" where
  "all_hold env ms s \<longleftrightarrow> holds 3 (ns_inMem s) \<and> buf_holds 3 (ns_buf s) \<and> pc_holds env (ns_persist s)
     \<and> inmem_contents (ns_inMem s) = ms \<and> bc_buffer (ns_buf s) = ms \<and> pc_contents (ns_persist s) = ms"

lemma notification_valid: "agent \<noteq> [] \<Longrightarrow> Message_Validate (notification n time agent) = None"
  by (simp add: notification_def Message_Validate_def MessageTypeData_def)

lemma notification_json:
  "json_message env (notification n time agent) = Some (notification n time agent)"
  by (simp add: notification_def json_message_def)

lemma notification_view: "json_view env (notification n time agent) = notification n time agent"
  by (simp add: json_view_def notification_json)

lemma send_everywhere_delivers:
  assumes "all_hold (nv_env e) ms s" and "length ms < 3" and "agent \<noteq> []"
    and "nv_send e i = (ArmChan, ArmChan)" and "nv_fault e i = NoFault"
  shows "\<exists>s'. send_everywhere e i (notification n time agent) s = (Returns (), s')
    \<and> all_hold (nv_env e) (ms @ [notification n time agent]) s'"
proof -
  let ?m = "notification n time agent"
  note h = assms(1) [unfolded all_hold_def]
  obtain c1 where 1: "InMem_Send ArmChan ?m (ns_inMem s) = (Returns (), c1)" "holds 3 c1" "inmem_contents c1 = ms @ [?m]"
    using inmem_prompt.deliver [of 3 "ns_inMem s" ?m] h assms(2,3) by (auto simp: notification_valid)
  obtain c2 where 2: "Buf_Send ArmChan ?m (ns_buf s) = (Returns (), c2)" "buf_holds 3 c2" "bc_buffer c2 = ms @ [?m]"
    using buf_prompt.deliver [of 3 "ns_buf s" ?m] h assms(2,3) by (auto simp: notification_valid)
  obtain c3 where 3: "PC_Send (nv_env e) NoFault (nv_clock e i) ?m (ns_persist s) = (Returns (), c3)"
      "pc_holds (nv_env e) c3" "pc_contents c3 = ms @ [?m]"
    using pers_prompt.deliver [of "nv_env e" "ns_persist s" ?m "nv_clock e i"] h assms(2,3)
    by (auto simp: notification_valid notification_json notification_view)
  show ?thesis
    using 1 2 3 by (simp add: send_everywhere_def assms(4,5) all_hold_def)
qed

definition sent :: "notify_env \<Rightarrow> nat \<Rightarrow> string list \<Rightarrow> Message list" where
  "sent e i as = map (\<lambda>(i, agent). notification (nv_random e i) (nv_time e i) agent) (enumerate i as)"

lemma notify_agents_delivers:
  assumes "all_hold (nv_env e) ms s" and "length ms + length as \<le> 3" and "\<forall>a \<in> set as. a \<noteq> []"
    and "\<forall>j. i \<le> j \<and> j < i + length as \<longrightarrow> nv_send e j = (ArmChan, ArmChan) \<and> nv_fault e j = NoFault"
  shows "\<exists>s'. notify_agents e i as s = (Returns (), s') \<and> all_hold (nv_env e) (ms @ sent e i as) s'"
  using assms
proof (induction as arbitrary: i ms s)
  case (Cons a as)
  from send_everywhere_delivers [OF Cons.prems(1), of a i "nv_random e i" "nv_time e i"] Cons.prems(2-4) obtain s1 where
    1: "send_everywhere e i (notification (nv_random e i) (nv_time e i) a) s = (Returns (), s1)"
      "all_hold (nv_env e) (ms @ [notification (nv_random e i) (nv_time e i) a]) s1" by auto
  from Cons.IH [OF 1(2), of "Suc i"] Cons.prems(2-4) 1(1) show ?case by (auto simp: sent_def)
qed (simp add: sent_def)

lemma append_lists:
  "AppendReducer_Reduce [k] [k] [k \<mapsto> VList xs] [k \<mapsto> VList ys] = Some [k \<mapsto> VList (xs @ ys)]"
  by (simp add: AppendReducer_Reduce_def appendValues_def is_slice_def reflect_append_slice_def range_copy_def)

lemma aggregate_lists:
  "aggregate as [''alerts'' \<mapsto> VList xs] = Some [''alerts'' \<mapsto> VList (xs @ map (\<lambda>a. VStr (''alert-from-'' @ a)) as)]"
  by (induction as arbitrary: xs) (simp_all add: append_lists)


definition sample_notify :: notify_env where
  "sample_notify = \<lparr>nv_env = \<lparr>env_time_text = (\<lambda>_. []), env_file_size = (\<lambda>_. 100)\<rparr>, nv_random = int, nv_time = (\<lambda>_. ''now''),
     nv_clock = int, nv_fault = (\<lambda>_. NoFault), nv_send = (\<lambda>_. (ArmChan, ArmChan)),
     nv_receive = (replicate 3 ArmChan @ [ArmTimeout], replicate 3 ArmChan @ [ArmTimeout], replicate 4 NoFault),
     nv_lost = ArmChan, nv_close = NoFault\<rparr>"


end
