(* ===== verification/ApprovalDemo.thy ===== *)
theory ApprovalDemo
  imports GraphValidation Serialization
begin

section \<open>The approval workflow (examples/basic-demo/basic_usage.go)\<close>

text \<open>
  A program that checks a small graph, takes a document through three states and sends it through the
  default serializer. What is printed is the result of the model; the formatted times and the libraries
  of the serializer are arguments.
\<close>

subsection \<open>The program\<close>

definition workflow_node :: "string \<Rightarrow> string \<Rightarrow> string \<Rightarrow> Node" where
  "workflow_node i name f =
     \<lparr>n_ID = i, n_Type = NodeTypeFunction, n_Name = name, n_Function = [], n_Config = [''function'' \<mapsto> VStr f],
      n_Retries = 0, n_Timeout = 0, n_Conditional = None, n_CreatedAt = 0, n_UpdatedAt = 0\<rparr>"

definition workflow_edge :: "string \<Rightarrow> string \<Rightarrow> string \<Rightarrow> Edge" where
  "workflow_edge source target condition =
     \<lparr>e_ID = [], e_Source = source, e_Target = target, e_Type = [], e_Condition = condition, e_Weight = 0,
      e_Properties = Map.empty\<rparr>"

definition buildApprovalGraph :: Graph where
  "buildApprovalGraph =
     \<lparr>g_ID = ''doc-approval'', g_Name = ''Document Approval Workflow'',
      g_Nodes = [''submission'' \<mapsto> Some (workflow_node ''submission'' ''Document Submission'' ''submit_document''),
                 ''review'' \<mapsto> Some (workflow_node ''review'' ''Document Review'' ''review_document''),
                 ''approval'' \<mapsto> Some (workflow_node ''approval'' ''Document Approval'' ''approve_document'')],
      g_Edges = [Some (workflow_edge ''submission'' ''review'' ''submitted''),
                 Some (workflow_edge ''review'' ''approval'' ''reviewed'')],
      g_EntryPoint = ''submission'', g_State = Map.empty,
      g_Config = \<lparr>gc_Interrupts = [], gc_MaxIterations = 0, gc_Timeout = 0, gc_Metadata = Map.empty\<rparr>, g_CreatedAt = 0, g_UpdatedAt = 0\<rparr>"

definition submitted_doc :: "string \<Rightarrow> gstate" where
  "submitted_doc time = [''id'' \<mapsto> VStr ''doc-123'', ''title'' \<mapsto> VStr ''Quarterly Report'', ''author'' \<mapsto> VStr ''Alice'',
     ''content'' \<mapsto> VStr ''Q1 results...'', ''status'' \<mapsto> VStr ''submitted'', ''submitted_at'' \<mapsto> VStr time]"

definition review_doc :: "string \<Rightarrow> gstate \<Rightarrow> gstate" where
  "review_doc time doc = doc(''status'' \<mapsto> VStr ''reviewed'', ''reviewed_by'' \<mapsto> VStr ''Bob'', ''reviewed_at'' \<mapsto> VStr time)"

definition approve_doc :: "string \<Rightarrow> gstate \<Rightarrow> gstate" where
  "approve_doc time doc = doc(''status'' \<mapsto> VStr ''approved'', ''approved_by'' \<mapsto> VStr ''Carol'', ''approved_at'' \<mapsto> VStr time)"

text \<open>How the program ends.\<close>

datatype approval_end =
    WorkflowInvalid graph_error
  | DocumentInvalid
  | SerializationFailed string
  | DeserializationFailed string
  | Approved gstate

definition approval_main :: "gstate Externals \<Rightarrow> random \<Rightarrow> (nat \<Rightarrow> string) \<Rightarrow> (string, approval_end) outcome" where
  "approval_main x rnd time =
     (case Graph_Validate buildApprovalGraph of
        Some err \<Rightarrow> Returns (WorkflowInvalid err)
      | None \<Rightarrow>
          (let doc = submitted_doc (time 0) in
           if doc ''title'' = Some (VStr []) \<or> doc ''author'' = Some (VStr []) then Returns DocumentInvalid
           else
             (let doc = approve_doc (time 2) (review_doc (time 1) doc); serializer = DefaultSerializer x in
              case Serialize x serializer rnd doc of
                Fails err \<Rightarrow> Returns (SerializationFailed err)
              | Returns serialized \<Rightarrow>
                  (case Deserialize x serializer serialized of
                     Fails err \<Rightarrow> Returns (DeserializationFailed err)
                   | Returns restored \<Rightarrow> Returns (Approved restored)
                   | Blocks \<Rightarrow> Blocks | Deadlocks \<Rightarrow> Deadlocks | Panics t \<Rightarrow> Panics t)
              | Blocks \<Rightarrow> Blocks | Deadlocks \<Rightarrow> Deadlocks | Panics t \<Rightarrow> Panics t)))"

subsection \<open>What it does\<close>

definition approved_doc :: "(nat \<Rightarrow> string) \<Rightarrow> gstate" where
  "approved_doc time = [''id'' \<mapsto> VStr ''doc-123'', ''title'' \<mapsto> VStr ''Quarterly Report'', ''author'' \<mapsto> VStr ''Alice'',
     ''content'' \<mapsto> VStr ''Q1 results...'', ''status'' \<mapsto> VStr ''approved'', ''submitted_at'' \<mapsto> VStr (time 0),
     ''reviewed_by'' \<mapsto> VStr ''Bob'', ''reviewed_at'' \<mapsto> VStr (time 1),
     ''approved_by'' \<mapsto> VStr ''Carol'', ''approved_at'' \<mapsto> VStr (time 2)]"

lemma approved: "approve_doc (time 2) (review_doc (time 1) (submitted_doc (time 0))) = approved_doc time"
  by (auto simp: approve_doc_def review_doc_def submitted_doc_def approved_doc_def fun_eq_iff)

text \<open>
  the workflow. The graph is accepted by the full check of the repository, also with the search for
  cycles; and the program ends with what the codec makes of the approved document, unless the codec
  or the compression fails on this document: no error of decompression is left.
\<close>

theorem approval_ends:
  assumes "lawful x" and "map_order (g_Nodes buildApprovalGraph) ids" and "map_order (g_Nodes buildApprovalGraph) ids'"
  shows "fst (ValidateCoreGraph ids ids' [\<lparr>CheckCycles = True\<rparr>] (Some buildApprovalGraph)) = None
    \<and> approval_main x rnd time = Returns
       (case x_msgpack_marshal x (approved_doc time) of
          Inl err \<Rightarrow> SerializationFailed (''codec encoding failed: '' @ err)
        | Inr d \<Rightarrow>
            (case x_zstd_encode x d of
               Inl err \<Rightarrow> SerializationFailed (''compression failed: '' @ err)
             | Inr z \<Rightarrow>
                 (case x_msgpack_unmarshal x d of
                    Inl err \<Rightarrow> DeserializationFailed (''codec decoding failed: '' @ err)
                  | Inr doc \<Rightarrow> Approved doc)))"
proof
  let ?rank = "\<lambda>i. if i = ''submission'' then 2 else if i = ''review'' then 1 else (0::nat)"
  have "acyclic (edge_rel buildApprovalGraph)"
    by (rule acyclicI_order [where f = ?rank]) (auto simp: edge_rel_def buildApprovalGraph_def workflow_edge_def)
  moreover have "wf_graph buildApprovalGraph"
    by (simp add: wf_graph_def wf_nodes_def wf_edges_def wf_edge_def buildApprovalGraph_def workflow_edge_def workflow_node_def
        Node_Validate_def NodeTypeFunction_def NodeTypeConditional_def edge_key_def)
  ultimately show "fst (ValidateCoreGraph ids ids' [\<lparr>CheckCycles = True\<rparr>] (Some buildApprovalGraph)) = None"
    using ValidateCoreGraph_spec [OF assms(2,3)] by simp
  have "Graph_Validate buildApprovalGraph = None"
    by (simp add: Graph_Validate_def buildApprovalGraph_def)
  moreover have "submitted_doc (time 0) ''title'' \<noteq> Some (VStr [])" "submitted_doc (time 0) ''author'' \<noteq> Some (VStr [])"
    by (simp_all add: submitted_doc_def)
  moreover have "x_zstd_encode x d = Inr z \<Longrightarrow> x_zstd_decode x z = Inr d" for d z
    using assms(1) by (simp add: lawful_def)
  ultimately show "approval_main x rnd time = Returns
       (case x_msgpack_marshal x (approved_doc time) of
          Inl err \<Rightarrow> SerializationFailed (''codec encoding failed: '' @ err)
        | Inr d \<Rightarrow>
            (case x_zstd_encode x d of
               Inl err \<Rightarrow> SerializationFailed (''compression failed: '' @ err)
             | Inr z \<Rightarrow>
                 (case x_msgpack_unmarshal x d of
                    Inl err \<Rightarrow> DeserializationFailed (''codec decoding failed: '' @ err)
                  | Inr doc \<Rightarrow> Approved doc)))"
    by (simp add: approval_main_def Let_def approved Serialize_def Deserialize_def DefaultSerializer_def NewMsgPackCodec_def
        compress_def decompress_def compressZstd_def decompressZstd_def CompressionZstd_def CompressionNone_def CompressionGzip_def
        split: sum.splits del: One_nat_def)
qed

text \<open>Libraries under which everything is one document.\<close>

definition one_document :: "gstate \<Rightarrow> gstate Externals" where
  "one_document doc =
     \<lparr>x_json_marshal = (\<lambda>_. Inr [1]), x_json_unmarshal = (\<lambda>_. Inr doc), x_msgpack_marshal = (\<lambda>_. Inr [1]),
      x_msgpack_unmarshal = (\<lambda>_. Inr doc), x_gzip_write = Inr, x_gzip_read = Inr, x_zstd_encode = Inr, x_zstd_decode = Inr,
      x_new_cipher = (\<lambda>_. None), x_nonce_size = 0, x_seal = (\<lambda>k n d. d), x_open = (\<lambda>k n d. Inr d)\<rparr>"

theorem approval_ends_witness:
  "approval_main (one_document (approved_doc (\<lambda>_. ''noon''))) (Inl []) (\<lambda>_. ''noon'') = Returns (Approved (approved_doc (\<lambda>_. ''noon'')))"
  using approval_ends [of "one_document (approved_doc (\<lambda>_. ''noon''))" "[''submission'', ''review'', ''approval'']"
      "[''submission'', ''review'', ''approval'']" "Inl []" "\<lambda>_. ''noon''"]
  by (auto simp: one_document_def lawful_def map_order_def buildApprovalGraph_def)

end
