(* ===== verification/RegistrationDemo.thy ===== *)
theory RegistrationDemo
  imports ValidationModels HttpMiddleware
begin

section \<open>The registration server (examples/validation-demo/main.go)\<close>

text \<open>
  A handler that decodes a registration, validates it by its tags and answers. The decoder, the
  encoder of the answers, \<^verbatim>\<open>%v\<close> and the number syntaxes beyond decimal digits are
  arguments; logging is left out.
\<close>

subsection \<open>The request\<close>

record Address =
  ad_Street :: string
  ad_City :: string
  ad_Zip :: string

record RegistrationRequest =
  rr_Name :: string
  rr_Email :: string
  rr_Age :: "64 word"
  rr_Address :: Address

text \<open>The address is a nested struct, of which reflection at the outer level shows only the kind.\<close>

definition registration_fields :: "RegistrationRequest \<Rightarrow> struct_field list" where
  "registration_fields req =
     [tagged ''Name'' ''required,min=2,max=50'' (RString (rr_Name req)),
      tagged ''Email'' ''required,email'' (RString (rr_Email req)),
      tagged ''Age'' ''min=18,max=120'' (RInt (rr_Age req)),
      tagged ''Address'' ''required'' (ROther ''main.Address'')]"

definition registration_struct :: "RegistrationRequest \<Rightarrow> go_struct" where
  "registration_struct req =
     \<lparr>gs_fields = registration_fields req, gs_value_Validate = None, gs_pointer_Validate = None\<rparr>"

subsection \<open>The handler\<close>

text \<open>\<^verbatim>\<open>http.Error\<close>, and an encoder that writes an object with one key and a newline.\<close>

definition http_Error :: "string \<Rightarrow> int \<Rightarrow> ResponseWriter \<Rightarrow> ResponseWriter" where
  "http_Error msg code w =
     Write_body (msg @ [CHR 0x0A]) (WriteHeader code
       (w\<lparr>rw_header := (rw_header w)(''Content-Length'' := None, ''Content-Type'' \<mapsto> ''text/plain; charset=utf-8'',
          ''X-Content-Type-Options'' \<mapsto> ''nosniff'')\<rparr>))"

definition json_answer :: "(string \<Rightarrow> string \<Rightarrow> string) \<Rightarrow> int \<Rightarrow> string \<Rightarrow> string \<Rightarrow> ResponseWriter \<Rightarrow> ResponseWriter" where
  "json_answer encode code key v w =
     Write_body (encode key v @ [CHR 0x0A]) (WriteHeader code (w\<lparr>rw_header := (rw_header w)(''Content-Type'' \<mapsto> ''application/json'')\<rparr>))"

definition val_error_text :: "(reflected \<Rightarrow> string) \<Rightarrow> val_error \<Rightarrow> string" where
  "val_error_text fmt_v err = (case err of ValidationErrors es \<Rightarrow> Errors_text fmt_v es | NotAStruct t \<Rightarrow> t | CustomError t \<Rightarrow> t)"

definition registration_handler ::
  "(string \<Rightarrow> string + RegistrationRequest) \<Rightarrow> (string \<Rightarrow> f64 option) \<Rightarrow> (reflected \<Rightarrow> string) \<Rightarrow> (string \<Rightarrow> string \<Rightarrow> string)
   \<Rightarrow> HttpRequest \<Rightarrow> ResponseWriter \<Rightarrow> ResponseWriter" where
  "registration_handler decode other fmt_v encode r w =
     (case decode (hr_body r) of
        Inl err \<Rightarrow> http_Error ''Invalid request body'' StatusBadRequest w
      | Inr req \<Rightarrow>
          (case ValidateStruct other (ArgStruct (registration_struct req)) of
             Some err \<Rightarrow> json_answer encode StatusBadRequest ''errors'' (val_error_text fmt_v err) w
           | None \<Rightarrow> json_answer encode StatusOK ''message'' ''Registration successful'' w))"

subsection \<open>What it accepts\<close>

lemma registration_rules:
  "tag_rules ''required,min=2,max=50'' = [''required'', ''min=2'', ''max=50'']"
  "tag_rules ''required,email'' = [''required'', ''email'']"
  "tag_rules ''min=18,max=120'' = [''min=18'', ''max=120'']"
  by code_simp+

lemma registration_digits: "digits_of 2 = ''2''" "digits_of 50 = ''50''" "digits_of 18 = ''18''" "digits_of 120 = ''120''"
  by code_simp+

lemma accepts_int:
  assumes "\<bar>sint k\<bar> \<le> 2 ^ 53" and "n \<le> 2 ^ 53"
  shows "accepts other (RInt k) (''min='' @ digits_of n) \<longleftrightarrow> int n \<le> sint k"
    and "accepts other (RInt k) (''max='' @ digits_of n) \<longleftrightarrow> sint k \<le> int n"
  using assms f_less_exact(1,2) [OF assms] by (auto simp: accepts_def has_prefix_def ParseFloat_digits)

lemmas registration_limits =
  accepts_length [where n = 2, unfolded registration_digits, simplified] accepts_length [where n = 50, unfolded registration_digits, simplified]
  accepts_int [where n = 18, unfolded registration_digits, simplified] accepts_int [where n = 120, unfolded registration_digits, simplified]

text \<open>
  a registration is answered with 200 exactly when its name has 2 to 50 bytes, its email is not
  empty and its age is between 18 and 120; otherwise with 400. The format of the email is not looked
  at, and nothing in the address is: the tag validation ignores \<^verbatim>\<open>email\<close> and
  \<^verbatim>\<open>len\<close> and does not enter nested structs.
\<close>

theorem registration_accepted:
  assumes "decode (hr_body r) = Inr req" and "rw_status w = None"
    and "length (rr_Name req) \<le> 2 ^ 53" and "\<bar>sint (rr_Age req)\<bar> \<le> 2 ^ 53"
  shows "rw_status (registration_handler decode other fmt_v encode r w) =
    Some (if 2 \<le> length (rr_Name req) \<and> length (rr_Name req) \<le> 50 \<and> rr_Email req \<noteq> []
             \<and> 18 \<le> sint (rr_Age req) \<and> sint (rr_Age req) \<le> 120 then 200 else 400)"
proof -
  let ?fs = "registration_fields req"
  have "validate_fields other ?fs [] = [] \<longleftrightarrow>
      (\<forall>f\<in>set ?fs. sf_exported f \<longrightarrow> (\<forall>rule\<in>set (tag_rules (sf_tag f)). accepts other (sf_value f) rule))"
    by (auto simp: validate_fields_collects field_errors_def map_filter_Nil validate_rule_accepts)
  also have "\<dots> \<longleftrightarrow> 2 \<le> length (rr_Name req) \<and> length (rr_Name req) \<le> 50 \<and> rr_Email req \<noteq> []
      \<and> 18 \<le> sint (rr_Age req) \<and> sint (rr_Age req) \<le> 120"
    using assms(3,4)
    by (auto simp: registration_fields_def tagged_def registration_rules tag_rules_simps accepts_required accepts_other
        has_prefix_def registration_limits)
  finally have "ValidateStruct other (ArgStruct (registration_struct req)) = None \<longleftrightarrow> 2 \<le> length (rr_Name req)
      \<and> length (rr_Name req) \<le> 50 \<and> rr_Email req \<noteq> [] \<and> 18 \<le> sint (rr_Age req) \<and> sint (rr_Age req) \<le> 120"
    by (simp add: ValidateStruct_def registration_struct_def Let_def)
  then show ?thesis using assms(1,2)
    by (auto simp: registration_handler_def json_answer_def Write_body_def WriteHeader_def Let_def StatusOK_def StatusBadRequest_def
        split: option.splits)
qed

definition odd_registration :: RegistrationRequest where
  "odd_registration = \<lparr>rr_Name = ''Al'', rr_Email = ''x'', rr_Age = 18, rr_Address = \<lparr>ad_Street = [], ad_City = [], ad_Zip = []\<rparr>\<rparr>"

theorem registration_accepted_witness:
  "rw_status (registration_handler (\<lambda>_. Inr odd_registration) (\<lambda>_. None) (\<lambda>_. []) (\<lambda>k v. v)
     \<lparr>hr_query = (\<lambda>_. []), hr_header = (\<lambda>_. []), hr_body = []\<rparr> \<lparr>rw_header = Map.empty, rw_status = None, rw_body = []\<rparr>) = Some 200"
  using registration_accepted [where decode = "\<lambda>_. Inr odd_registration" and req = odd_registration and other = "\<lambda>_. None"
      and r = "\<lparr>hr_query = (\<lambda>_. []), hr_header = (\<lambda>_. []), hr_body = []\<rparr>" and fmt_v = "\<lambda>_. []" and encode = "\<lambda>k v. v"
      and w = "\<lparr>rw_header = Map.empty, rw_status = None, rw_body = []\<rparr>"]
  by (simp add: odd_registration_def)

end
