(* ===== verification/Spec2Isabelle.thy ===== *)
theory Spec2Isabelle
  imports GraphValidation InMemoryChannel BufferedChannel Reducers PersistentProps
    EngineProps EngineShortestPath CacheEngine Superstep ResumeProps MemorySaverProps
    BranchProps Interrupts PregelExecProps StreamMetrics EnhancedStateProps StreamingCheckpointProps
    ValidationProps RagProps SqlProps ServerMetrics ServerWorkload EngineStop CacheRun
    ProductionRagProps RagSetup ChannelDemo ApprovalDemo RegistrationDemo
begin

text \<open>
  A verification library for FlowGraph, a library and server in Go that executes graphs of nodes over
  states that are maps from strings to dynamic values. Names of files are relative to \<^verbatim>\<open>src/\<close>.

  \<^bold>\<open>The program\<close>

  A graph (\<^verbatim>\<open>internal/core/graph\<close>) is validated and stored in a repository. An executor
  (\<^verbatim>\<open>internal/app/usecases\<close>) walks it from its entry point: a node processor turns the state
  into a new state, an edge evaluator chooses the next node, and a checkpoint manager may save the
  execution context after a step with a saver (\<^verbatim>\<open>internal/core/checkpoint\<close>, implemented in
  memory, on SQLite and on Postgres in \<^verbatim>\<open>internal/adapters/repository\<close>). Around the executor
  there are branches with join points, interrupts, streaming of events, and services that keep states
  and checkpoints (\<^verbatim>\<open>internal/app/services\<close>). A second executor runs a graph on the Pregel
  engine (\<^verbatim>\<open>internal/core/pregel\<close>): vertices compute in supersteps on a work-stealing
  scheduler and exchange messages through an aggregator. Channels (\<^verbatim>\<open>internal/core/channel\<close>)
  carry messages in memory, in a buffer with notification, or in files. \<^verbatim>\<open>pkg\<close> holds the
  runtime, serialization, validation and the prebuilt retrieval pipelines; \<^verbatim>\<open>cmd\<close> the server.

  \<^bold>\<open>Theories and sources\<close>

  \<^item> FG_Prelude: outcomes of calls, orders of Go's map loops, decimal printing and scanning.
    GoValue: the dynamic values and \<^verbatim>\<open>float64\<close> as bit patterns with exact arithmetic; FloatOrder: the
    order of the \<^verbatim>\<open>float64\<close> numbers of integers.
  \<^item> Graph (\<^verbatim>\<open>internal/core/graph\<close>), GraphValidation (\<^verbatim>\<open>pkg/validation/graph.go\<close>): the
    entity, its building operations, and the search for cycles against the reachability of the graph.
  \<^item> ChannelCore, InMemoryChannel, BufferedChannel, PersistentChannel with PersistentProps,
    Reducers (\<^verbatim>\<open>internal/core/channel\<close>): three channels and the state reducers. The FIFO contract is
    a locale interpreted for each channel; the buffered channel's waiting callers are a step relation.
  \<^item> PregelMessages, VertexPrograms, Scheduler, Recovery, Streaming, Engine with EngineProps,
    EngineShortestPath, Superstep, CacheEngine (\<^verbatim>\<open>internal/core/pregel\<close>): the scheduler is a step
    relation of its workers; a superstep refines the synchronous step of the bulk-synchronous model
    for every order in which results arrive.
  \<^item> Serialization (\<^verbatim>\<open>pkg/serialization\<close>), Checkpoints (\<^verbatim>\<open>internal/core/checkpoint\<close>),
    MemorySaver with MemorySaverProps, SqlSavers with SqlProps
    (\<^verbatim>\<open>internal/adapters/repository\<close>): the contract of a saver is the locale
    \<^verbatim>\<open>checkpoint_store\<close>; its law, that a load gives what was last saved, is proved once for
    all sequences of calls and holds of the savers by interpretation.
  \<^item> ExecutionData (\<^verbatim>\<open>internal/app/dto\<close>, \<^verbatim>\<open>services/state.go\<close>), NodeProcessing, Executor
    with ExecutorProps, CheckpointService, ResumeProps (\<^verbatim>\<open>usecases/executor.go\<close>,
    \<^verbatim>\<open>processor.go\<close>, \<^verbatim>\<open>evaluator.go\<close>, \<^verbatim>\<open>services/checkpoint.go\<close>,
    \<^verbatim>\<open>pkg/flowgraph\<close>): the executor refines a walk of processors and edges only.
  \<^item> BranchManager with BranchProps, Interrupts, StreamingExecutor with StreamProps and StreamMetrics,
    PregelExecutor with PregelExecProps, EnhancedState and StreamingCheckpoint with their properties: the
    other use cases and services. Join points are a step relation of callers and timers; the event
    channels are journals, proved over the locale \<^verbatim>\<open>open_channel\<close>.
  \<^item> StructValidation with StructProps, ValidationModels, FieldRules, HttpMiddleware,
    ValidationProps (\<^verbatim>\<open>pkg/validation\<close>); Prebuilt, RagRuntime, RagProps
    (\<^verbatim>\<open>pkg/prebuilt\<close>).
  \<^item> ServerMetrics (\<^verbatim>\<open>internal/infrastructure/metrics\<close>, the metrics page of
    \<^verbatim>\<open>cmd/flowgraph-server/main.go\<close>) and ServerWorkload (\<^verbatim>\<open>workload.go\<close>): what the
    page prints is read back by the text format, and at most one workload of each kind runs.
    EngineStop and CacheRun complete the engines: stopping, statistics, stream handlers, and the run
    of the cache-optimised engine.
  \<^item> The production pipeline (\<^verbatim>\<open>examples/rag-pgvector-openai\<close>): RagConfig
    (\<^verbatim>\<open>internal/config\<close>), RagSetup (\<^verbatim>\<open>setup\<close>), OpenAIClient
    (\<^verbatim>\<open>internal/openai\<close>), VectorStore (\<^verbatim>\<open>internal/database\<close>), RagProcessors
    (\<^verbatim>\<open>internal/processors\<close>), ProductionRag (\<^verbatim>\<open>main.go\<close>) and ProductionRagProps, over
    Float32 (\<^verbatim>\<open>float32\<close> and conversions), FloatRounding (bounds on rounded quotients) and
    TextFields (white space in texts).
  \<^item> ChannelDemo, ApprovalDemo, RegistrationDemo (\<^verbatim>\<open>examples/channel-demo\<close>,
    \<^verbatim>\<open>basic-demo\<close>, \<^verbatim>\<open>validation-demo\<close>): programs that put components together. The
    locale \<^verbatim>\<open>prompt_channel\<close> says that a channel with room takes and gives messages at once;
    it holds of all three channels, so that the first program delivers everything on each of them.

  \<^bold>\<open>How the code is modelled\<close>

  A struct is a record whose fields are the fields of the struct; a nil pointer or map is
  \<^term>\<open>None\<close>. A method takes the receiver and returns the receiver after the call with an
  outcome: \<^verbatim>\<open>Returns\<close>, \<^verbatim>\<open>Fails\<close> (a Go error), \<^verbatim>\<open>Panics\<close>, \<^verbatim>\<open>Blocks\<close> (for ever
  without another goroutine) or \<^verbatim>\<open>Deadlocks\<close> (on a lock the call itself holds). Calls follow one
  another with \<^verbatim>\<open>and_then\<close>. A method that runs under a mutex is one atomic step; where
  goroutines interleave between locks (buffered channel, scheduler, join points, interrupts) the steps
  are a relation and the results are invariants or hold for every interleaving. What Go leaves open is
  an argument of the definition that uses it: the clock, random bytes, UUIDs, the order of a map
  loop, the arm of a \<^verbatim>\<open>select\<close>, what \<^verbatim>\<open>%v\<close> prints. Code that is not in the repository is a
  parameter (JSON, MessagePack, compression and AES-GCM as \<^verbatim>\<open>Externals\<close>, the databases as
  \<^verbatim>\<open>sql_db\<close>, go-playground/validator, HTTP decoding); what the program relies on is a named
  predicate (\<^verbatim>\<open>lawful\<close>, \<^verbatim>\<open>lite_lawful\<close>, \<^verbatim>\<open>pg_lawful\<close>,
  \<^verbatim>\<open>documents_lawful\<close>, \<^verbatim>\<open>setup_lawful\<close>), and each result that assumes
  one has a witness over a concrete instance. Integers have their width where it matters: message
  counters and the round-robin counter wrap, times are integers in nanoseconds.

  \<^bold>\<open>Bounds and fuel\<close>

  Loops of the code that end are structural recursion or have a measure: the search for cycles ends
  by the number of unvisited nodes, a run of the engine by the bound on supersteps, retries by
  \<^verbatim>\<open>MaxRetries\<close>. The walk of a graph takes the executor's own limit on steps as its fuel: the code
  counts the same steps, so nothing is cut that the code would run. Channel operations that wait are
  not run: they answer \<^verbatim>\<open>Blocks\<close>, and the theorems on lost wake-ups and on completion of the
  scheduler say when they proceed.

  \<^bold>\<open>What the lemmas show\<close>

  Functional behaviour on every branch, errors included, comes first in each theory; then invariants
  and their preservation; then refinements of an abstract component (superstep, walk, store, queue,
  journal); then what components make of each other: a full saver stops an execution, the Pregel
  executor runs every node alone, resuming restarts, the ready-made pipelines fail. Several theorems
  state behaviour that the documentation of the program does not announce; they say what the code
  does, not what it should do. The results on the production pipeline: the configuration survives its
  environment, the documents are a map, re-ranking sorts, truncation stays within the text, and the
  demonstrations never answer.

  \<^bold>\<open>Not modelled\<close>

  Logging and tracing, the contents of contexts other than deadlines and cancellation where the code
  reads them, data races on unlocked fields, the goroutine of the memory saver's ticker (it is the
  operation it calls), the fsync of directories. Calls of one executor do not overlap.
  The server's wiring (routes, listening, profiling), \<^verbatim>\<open>cmd/flowgraph\<close>, which prints a
  version, the examples \<^verbatim>\<open>metrics-load\<close> and \<^verbatim>\<open>pregel-parallelism\<close>, which print
  random numbers, and the files that hold only package comments. Interfaces and structs without
  behaviour of their own appear as the arguments and records of the operations that use them.
\<close>

end
